(* ===== verification/Go_Prelude.thy ===== *)
theory Go_Prelude
  imports Main "HOL-Library.Char_ord" "HOL-Library.List_Lexorder" "HOL-Library.Sublist"
begin

text \<open>
  The part of the Go language and of its standard library that the modelled
  packages share.  A Go string is a byte sequence, and so is a HOL \<^typ>\<open>string\<close>
  (a list of 8-bit characters), so \<open>len\<close>, indexing and slicing are the list
  operations.  \<open>strings.ToUpper\<close>, \<open>strings.ToLower\<close>, \<open>strings.TrimSpace\<close>,
  \<open>unicode.IsLetter\<close> and \<open>unicode.IsDigit\<close> are modelled on the ASCII range; a
  byte from 0x80 on is left unchanged and is neither a space, a letter nor a
  digit.  ADIF tags, callsigns, grid locators, role names and mode names are
  ASCII, and on ASCII strings these definitions agree with Go byte for byte.

  Machine integers: \<open>int\<close> and \<open>int64\<close> values are HOL integers where the code
  cannot leave the 64-bit range, and the wrap-around is written out
  (\<open>wrap64\<close>) where it can.
\<close>

named_theorems go_defs "definitions of the string library, for evaluation and unfolding"
named_theorems trim_simps "facts on trimmed strings"

type_synonym bytes = string

abbreviation byte :: "char \<Rightarrow> nat" where
  "byte c \<equiv> of_char c"


section \<open>Characters\<close>

definition is_space :: "char \<Rightarrow> bool" where
  "is_space c \<longleftrightarrow> byte c = 9 \<or> byte c = 10 \<or> byte c = 11 \<or> byte c = 12 \<or> byte c = 13 \<or> byte c = 32"

definition IsDigit :: "char \<Rightarrow> bool" where
  "IsDigit c \<longleftrightarrow> 48 \<le> byte c \<and> byte c \<le> 57"

definition is_lower :: "char \<Rightarrow> bool" where
  "is_lower c \<longleftrightarrow> 97 \<le> byte c \<and> byte c \<le> 122"

definition is_upper :: "char \<Rightarrow> bool" where
  "is_upper c \<longleftrightarrow> 65 \<le> byte c \<and> byte c \<le> 90"

definition IsLetter :: "char \<Rightarrow> bool" where
  "IsLetter c \<longleftrightarrow> is_lower c \<or> is_upper c"

definition upper_char :: "char \<Rightarrow> char" where
  "upper_char c = (if is_lower c then char_of (byte c - 32) else c)"

definition lower_char :: "char \<Rightarrow> char" where
  "lower_char c = (if is_upper c then char_of (byte c + 32) else c)"

lemmas char_class_defs [go_defs] =
  is_space_def IsDigit_def is_lower_def is_upper_def IsLetter_def upper_char_def lower_char_def

lemma byte_char_of [simp]: "n < 256 \<Longrightarrow> byte (char_of n) = n"
  by simp

lemma upper_char_idem [simp]: "upper_char (upper_char c) = upper_char c"
  by (auto simp: upper_char_def is_lower_def)

lemma upper_char_not_lower [simp]: "\<not> is_lower (upper_char c)"
  by (auto simp: upper_char_def is_lower_def)

lemma is_space_upper_char [simp]: "is_space (upper_char c) = is_space c"
  by (auto simp: upper_char_def is_lower_def is_space_def)

lemma lower_char_idem [simp]: "lower_char (lower_char c) = lower_char c"
  by (auto simp: lower_char_def is_upper_def)

lemma is_space_lower_char [simp]: "is_space (lower_char c) = is_space c"
  by (auto simp: lower_char_def is_upper_def is_space_def)

lemma upper_char_fixed: "\<not> is_lower c \<Longrightarrow> upper_char c = c"
  by (simp add: upper_char_def)


text \<open>Evaluation of \<^const>\<open>char_of\<close> on numerals.\<close>

lemmas eval_char = char_of_def bit_0


section \<open>The strings package\<close>

definition ToUpper :: "string \<Rightarrow> string" where
  "ToUpper s = map upper_char s"

definition ToLower :: "string \<Rightarrow> string" where
  "ToLower s = map lower_char s"

definition TrimLeftFunc :: "(char \<Rightarrow> bool) \<Rightarrow> string \<Rightarrow> string" where
  "TrimLeftFunc P s = dropWhile P s"

definition TrimRightFunc :: "(char \<Rightarrow> bool) \<Rightarrow> string \<Rightarrow> string" where
  "TrimRightFunc P s = rev (dropWhile P (rev s))"

definition TrimSpace :: "string \<Rightarrow> string" where
  "TrimSpace s = TrimRightFunc is_space (TrimLeftFunc is_space s)"

text \<open>The function \<open>BTRIM\<close> of SQL takes away blanks only.\<close>

definition is_space32 :: "char \<Rightarrow> bool" where
  "is_space32 c \<longleftrightarrow> byte c = 32"

definition BTRIM :: "string \<Rightarrow> string" where
  "BTRIM s = TrimRightFunc is_space32 (TrimLeftFunc is_space32 s)"

definition HasPrefix :: "string \<Rightarrow> string \<Rightarrow> bool" where
  "HasPrefix s p \<longleftrightarrow> take (length p) s = p"

definition HasSuffix :: "string \<Rightarrow> string \<Rightarrow> bool" where
  "HasSuffix s p \<longleftrightarrow> length p \<le> length s \<and> drop (length s - length p) s = p"

text \<open>\<open>s[i:j]\<close> for \<open>0 \<le> i \<le> j \<le> len(s)\<close>.\<close>

definition slice :: "nat \<Rightarrow> nat \<Rightarrow> 'a list \<Rightarrow> 'a list" where
  "slice i j s = take (j - i) (drop i s)"

text \<open>\<open>strings.Cut\<close> at a one-byte separator: the text before it, and what follows it if it occurs.\<close>

definition cut :: "char \<Rightarrow> string \<Rightarrow> string \<times> string option" where
  "cut c s = (takeWhile (\<lambda>x. x \<noteq> c) s,
              if c \<in> set s then Some (tl (dropWhile (\<lambda>x. x \<noteq> c) s)) else None)"

text \<open>\<open>strings.SplitN(s, sep, n)\<close> for a one-byte separator and \<open>n > 0\<close>.\<close>

fun SplitN :: "char \<Rightarrow> nat \<Rightarrow> string \<Rightarrow> string list" where
  "SplitN c 0 s = []"
| "SplitN c (Suc 0) s = [s]"
| "SplitN c (Suc (Suc n)) s =
     (case cut c s of (a, None) \<Rightarrow> [a] | (a, Some b) \<Rightarrow> a # SplitN c (Suc n) b)"

text \<open>\<open>strings.Split(s, sep)\<close> for a one-byte separator.\<close>

fun Split :: "char \<Rightarrow> string \<Rightarrow> string list" where
  "Split c [] = [[]]"
| "Split c (x # xs) =
     (if x = c then [] # Split c xs
      else (case Split c xs of [] \<Rightarrow> [[x]] | h # t \<Rightarrow> (x # h) # t))"

fun Join :: "string \<Rightarrow> string list \<Rightarrow> string" where
  "Join sep [] = []"
| "Join sep [x] = x"
| "Join sep (x # y # ys) = x @ sep @ Join sep (y # ys)"

text \<open>\<open>strings.Fields\<close>: the maximal runs of non-space bytes.\<close>

fun Fields_acc :: "string \<Rightarrow> string \<Rightarrow> string list" where
  "Fields_acc acc [] = (if acc = [] then [] else [rev acc])"
| "Fields_acc acc (x # xs) =
     (if is_space x then (if acc = [] then Fields_acc [] xs else rev acc # Fields_acc [] xs)
      else Fields_acc (x # acc) xs)"

definition Fields :: "string \<Rightarrow> string list" where
  "Fields s = Fields_acc [] s"

text \<open>\<open>strings.ReplaceAll(s, c, "")\<close> for a one-byte pattern.\<close>

definition RemoveAll :: "char \<Rightarrow> string \<Rightarrow> string" where
  "RemoveAll c s = filter (\<lambda>x. x \<noteq> c) s"

text \<open>\<open>strings.Contains\<close> and \<open>strings.EqualFold\<close>.\<close>

fun Contains_str :: "string \<Rightarrow> string \<Rightarrow> bool" where
  "Contains_str [] p \<longleftrightarrow> p = []"
| "Contains_str (c # s) p \<longleftrightarrow> HasPrefix (c # s) p \<or> Contains_str s p"

definition EqualFold :: "string \<Rightarrow> string \<Rightarrow> bool" where
  "EqualFold s t \<longleftrightarrow> ToLower s = ToLower t"

lemma Contains_str_iff: "Contains_str s p \<longleftrightarrow> (\<exists>a b. s = a @ p @ b)"
proof (induction s)
  case (Cons c s)
  have "HasPrefix (c # s) p \<longleftrightarrow> (\<exists>b. c # s = p @ b)"
    unfolding HasPrefix_def by (metis append_eq_conv_conj append_take_drop_id)
  moreover have "(\<exists>a b. c # s = a @ p @ b) \<longleftrightarrow> (\<exists>b. c # s = p @ b) \<or> (\<exists>a b. s = a @ p @ b)"
    by (metis append.left_neutral append_Cons list.exhaust list.inject)
  ultimately show ?case using Cons by simp
qed auto

lemmas strings_defs [go_defs] =
  ToUpper_def ToLower_def TrimLeftFunc_def TrimRightFunc_def TrimSpace_def HasPrefix_def
  HasSuffix_def slice_def cut_def Fields_def RemoveAll_def


subsection \<open>Case mapping and trimming\<close>

definition trimmed :: "string \<Rightarrow> bool" where
  "trimmed s \<longleftrightarrow> s = [] \<or> (\<not> is_space (hd s) \<and> \<not> is_space (last s))"

definition upper :: "string \<Rightarrow> bool" where
  "upper s \<longleftrightarrow> ToUpper s = s"

lemma ToUpper_idem [simp]: "ToUpper (ToUpper s) = ToUpper s"
  by (simp add: ToUpper_def)

lemma ToUpper_Nil [simp]: "ToUpper [] = []" and ToUpper_eq_Nil [simp]: "ToUpper s = [] \<longleftrightarrow> s = []"
  by (simp_all add: ToUpper_def)

lemma length_ToUpper [simp]: "length (ToUpper s) = length s"
  by (simp add: ToUpper_def)

lemma upper_ToUpper [simp]: "upper (ToUpper s)"
  by (simp add: upper_def)

lemma TrimSpace_trimmed [trim_simps]: "trimmed s \<Longrightarrow> TrimSpace s = s"
  by (cases "s = []")
     (simp_all add: TrimSpace_def TrimLeftFunc_def TrimRightFunc_def trimmed_def
        dropWhile_eq_self_iff [THEN iffD2] hd_rev)

lemma trimmed_Nil [simp]: "trimmed []"
  by (simp add: trimmed_def)

lemma TrimSpace_Nil [simp]: "TrimSpace [] = []"
  by (simp add: TrimSpace_def TrimLeftFunc_def TrimRightFunc_def)

lemma TrimSpace_eq_rev: "TrimSpace s = rev (dropWhile is_space (rev (dropWhile is_space s)))"
  by (simp add: TrimSpace_def TrimLeftFunc_def TrimRightFunc_def)

lemma hd_rev_dropWhile_rev:
  assumes "rev (dropWhile P (rev t)) \<noteq> []" shows "hd (rev (dropWhile P (rev t))) = hd t"
proof -
  have "prefix (rev (dropWhile P (rev t))) t"
    by (metis rev_rev_ident suffix_dropWhile suffix_to_prefix)
  then show ?thesis using assms by (metis hd_append2 prefix_def)
qed

lemma trimmed_TrimSpace [simp]: "trimmed (TrimSpace s)"
proof (cases "TrimSpace s = []")
  case True
  then show ?thesis by simp
next
  case False
  let ?t = "dropWhile is_space s"
  have ne: "rev (dropWhile is_space (rev ?t)) \<noteq> []" using False by (simp add: TrimSpace_eq_rev)
  then have "?t \<noteq> []" by (metis dropWhile.simps(1) rev.simps(1))
  then have "\<not> is_space (hd ?t)" by (rule hd_dropWhile)
  with hd_rev_dropWhile_rev [OF ne] have "\<not> is_space (hd (TrimSpace s))"
    by (simp add: TrimSpace_eq_rev)
  moreover have "\<not> is_space (last (TrimSpace s))"
    using ne hd_dropWhile [of is_space "rev ?t"] by (simp add: TrimSpace_eq_rev last_rev)
  ultimately show ?thesis by (simp add: trimmed_def)
qed

lemma TrimSpace_idem [simp]: "TrimSpace (TrimSpace s) = TrimSpace s"
  by (rule TrimSpace_trimmed) simp

lemma dropWhile_map_pred: "(\<And>x. P (f x) = P x) \<Longrightarrow> dropWhile P (map f s) = map f (dropWhile P s)"
  by (induction s) auto

lemma TrimSpace_ToUpper: "TrimSpace (ToUpper s) = ToUpper (TrimSpace s)"
  by (simp add: TrimSpace_eq_rev ToUpper_def dropWhile_map_pred rev_map)

lemma set_TrimSpace: "set (TrimSpace s) \<subseteq> set s"
  unfolding TrimSpace_eq_rev by (metis set_dropWhileD set_rev subsetI)

lemma upper_TrimSpace_ToUpper [simp]: "upper (ToUpper (TrimSpace s))"
  by simp


subsection \<open>Splitting\<close>

lemma cut_hit: "c \<notin> set a \<Longrightarrow> cut c (a @ c # b) = (a, Some b)"
  by (induction a) (auto simp: cut_def)

lemma cut_miss: "c \<notin> set a \<Longrightarrow> cut c a = (a, None)"
  by (induction a) (auto simp: cut_def)

lemma SplitN_hit [simp]:
  "c \<notin> set a \<Longrightarrow> SplitN c (Suc (Suc n)) (a @ c # b) = a # SplitN c (Suc n) b"
  by (simp add: cut_hit)

lemma SplitN_miss: "c \<notin> set a \<Longrightarrow> SplitN c (Suc n) a = [a]"
  by (cases n) (simp_all add: cut_miss)

lemma Split_ne [simp]: "Split c s \<noteq> []"
  by (induction s) (auto split: list.splits)

lemma Join_Split: "Join [c] (Split c s) = s"
proof (induction s)
  case (Cons x s)
  then show ?case by (cases "Split c s"; cases "tl (Split c s)") auto
qed simp


section \<open>Decimal numbers\<close>

definition digit_char :: "nat \<Rightarrow> char" where
  "digit_char n = char_of (48 + n)"

text \<open>\<open>%d\<close> of a non-negative integer.\<close>

fun show_nat :: "nat \<Rightarrow> string" where
  "show_nat n = (if n < 10 then [digit_char n] else show_nat (n div 10) @ [digit_char (n mod 10)])"

declare show_nat.simps [simp del]

definition show_int :: "int \<Rightarrow> string" where
  "show_int i = (if i < 0 then CHR ''-'' # show_nat (nat (- i)) else show_nat (nat i))"

definition digits_val :: "string \<Rightarrow> nat" where
  "digits_val s = foldl (\<lambda>a c. 10 * a + (byte c - 48)) 0 s"

definition all_digits :: "string \<Rightarrow> bool" where
  "all_digits s \<longleftrightarrow> s \<noteq> [] \<and> list_all IsDigit s"

definition MaxInt64 :: int where "MaxInt64 = 9223372036854775807"

definition MinInt64 :: int where "MinInt64 = - 9223372036854775808"

text \<open>Two's complement wrap-around of 64-bit arithmetic.\<close>

definition wrap64 :: "int \<Rightarrow> int" where
  "wrap64 i = (i + 9223372036854775808) mod 18446744073709551616 - 9223372036854775808"

text \<open>
  \<open>strconv.ParseInt(s, 10, 64)\<close> and \<open>strconv.Atoi\<close> on a 64-bit platform: an optional
  sign and decimal digits; anything else, and a value out of the \<open>int64\<close> range, is an
  error (\<^const>\<open>None\<close>).
\<close>

definition ParseInt :: "string \<Rightarrow> int option" where
  "ParseInt s =
     (let (neg, ds) = (case s of [] \<Rightarrow> (False, [])
                       | c # cs \<Rightarrow> if c = CHR ''-'' then (True, cs)
                                   else if c = CHR ''+'' then (False, cs) else (False, s));
          v = (if neg then - int (digits_val ds) else int (digits_val ds))
      in if \<not> all_digits ds then None
         else if v < MinInt64 \<or> MaxInt64 < v then None
         else Some v)"

abbreviation Atoi :: "string \<Rightarrow> int option" where "Atoi \<equiv> ParseInt"

lemmas number_defs [go_defs] = digit_char_def show_int_def digits_val_def all_digits_def
  MaxInt64_def MinInt64_def wrap64_def ParseInt_def

lemma byte_digit_char [simp]: "n < 10 \<Longrightarrow> byte (digit_char n) = 48 + n"
  by (simp add: digit_char_def)

lemma IsDigit_digit_char [simp]: "n < 10 \<Longrightarrow> IsDigit (digit_char n)"
  by (simp add: IsDigit_def)

lemma digits_val_snoc: "digits_val (s @ [c]) = 10 * digits_val s + (byte c - 48)"
  by (simp add: digits_val_def)

lemma digits_val_show_nat [simp]: "digits_val (show_nat n) = n"
proof (induction n rule: show_nat.induct)
  case (1 n)
  show ?case
  proof (cases "n < 10")
    case True
    then show ?thesis by (simp add: show_nat.simps [of n] digits_val_def)
  next
    case False
    with 1 show ?thesis by (simp add: show_nat.simps [of n] digits_val_snoc)
  qed
qed

lemma all_digits_show_nat [simp]: "all_digits (show_nat n)"
proof (induction n rule: show_nat.induct)
  case (1 n)
  then show ?case by (cases "n < 10") (auto simp: show_nat.simps [of n] all_digits_def)
qed

lemma digit_not_space: "IsDigit c \<Longrightarrow> \<not> is_space c"
  by (auto simp: IsDigit_def is_space_def)

lemma all_digits_trimmed: "all_digits s \<Longrightarrow> trimmed s"
  by (auto simp: all_digits_def trimmed_def list_all_iff dest: digit_not_space)

lemma all_digits_notin: "all_digits s \<Longrightarrow> \<not> IsDigit c \<Longrightarrow> c \<notin> set s"
  by (auto simp: all_digits_def list_all_iff)

lemma ParseInt_all_digits:
  assumes "all_digits s"
  shows "ParseInt s = (if int (digits_val s) \<le> MaxInt64 then Some (int (digits_val s)) else None)"
proof (cases s)
  case Nil
  with assms show ?thesis by (simp add: all_digits_def)
next
  case (Cons c cs)
  with assms have "IsDigit c" by (simp add: all_digits_def)
  then have "c \<noteq> CHR ''-''" "c \<noteq> CHR ''+''" by (auto simp: IsDigit_def)
  with assms Cons show ?thesis by (simp add: ParseInt_def MinInt64_def)
qed

lemma ParseInt_show_nat: "int n \<le> MaxInt64 \<Longrightarrow> ParseInt (show_nat n) = Some (int n)"
  by (simp add: ParseInt_all_digits)

lemma ParseInt_range: "ParseInt s = Some v \<Longrightarrow> MinInt64 \<le> v \<and> v \<le> MaxInt64"
  by (auto simp: ParseInt_def Let_def split: list.splits if_splits)

lemma wrap64_id: "MinInt64 \<le> i \<Longrightarrow> i \<le> MaxInt64 \<Longrightarrow> wrap64 i = i"
  by (simp add: wrap64_def MinInt64_def MaxInt64_def)


section \<open>Association lists as Go map literals\<close>

text \<open>
  A package-level map literal is the association list of its entries; the keys of a Go map
  literal are distinct (the compiler rejects a duplicate), so the order does not matter and
  \<^const>\<open>map_of\<close> is the lookup.
\<close>

definition has_key :: "('k \<times> 'v) list \<Rightarrow> 'k \<Rightarrow> bool" where
  "has_key m k \<longleftrightarrow> map_of m k \<noteq> None"

lemma has_key_iff: "has_key m k \<longleftrightarrow> k \<in> fst ` set m"
  by (auto simp: has_key_def map_of_eq_None_iff)

end
