(* ===== verification/Adif_Fields.thy ===== *)
theory Adif_Fields
  imports Complex_Main Go_Prelude
begin

text \<open>
  \<open>pkg/adif/fields.go\<close>: the catalog of known ADIF fields, the canonical export order and
  the amateur bands.  The band edges are the decimal literals of the source, as
  rationals.
\<close>

record FieldDef =
  fd_Name :: string
  fd_DataType :: string
  fd_Description :: string

abbreviation field_def :: "string \<Rightarrow> string \<Rightarrow> string \<Rightarrow> string \<times> FieldDef" where
  "field_def n t d \<equiv> (n, \<lparr>fd_Name = n, fd_DataType = t, fd_Description = d\<rparr>)"

definition KnownFields :: "(string \<times> FieldDef) list" where
  "KnownFields = [
    field_def ''CALL'' ''S'' ''Other station's callsign'',
    field_def ''BAND'' ''E'' ''QSO band'',
    field_def ''BAND_RX'' ''E'' ''Receive band (split operation)'',
    field_def ''MODE'' ''E'' ''QSO mode'',
    field_def ''SUBMODE'' ''S'' ''QSO submode'',
    field_def ''FREQ'' ''N'' ''QSO frequency in MHz'',
    field_def ''FREQ_RX'' ''N'' ''Receive frequency in MHz'',
    field_def ''QSO_DATE'' ''D'' ''QSO date (YYYYMMDD)'',
    field_def ''QSO_DATE_OFF'' ''D'' ''QSO end date (YYYYMMDD)'',
    field_def ''TIME_ON'' ''T'' ''QSO start time (HHMM or HHMMSS)'',
    field_def ''TIME_OFF'' ''T'' ''QSO end time'',
    field_def ''RST_SENT'' ''S'' ''RST sent'',
    field_def ''RST_RCVD'' ''S'' ''RST received'',
    field_def ''NAME'' ''S'' ''Other station operator name'',
    field_def ''QTH'' ''S'' ''Other station city/location'',
    field_def ''COMMENT'' ''S'' ''Comment field'',
    field_def ''NOTES'' ''S'' ''Notes field'',
    field_def ''TX_PWR'' ''N'' ''Transmit power in watts'',
    field_def ''RX_PWR'' ''N'' ''Receive power in watts'',
    field_def ''ANTENNA'' ''S'' ''Transmit antenna'',
    field_def ''MY_ANTENNA'' ''S'' ''My antenna'',
    field_def ''MY_RIG'' ''S'' ''My rig'',
    field_def ''GRIDSQUARE'' ''G'' ''Other station grid square'',
    field_def ''DXCC'' ''I'' ''Other station DXCC entity number'',
    field_def ''COUNTRY'' ''S'' ''Other station country'',
    field_def ''STATE'' ''E'' ''Other station US state'',
    field_def ''COUNTY'' ''S'' ''Other station county'',
    field_def ''CQZ'' ''I'' ''Other station CQ zone'',
    field_def ''ITUZ'' ''I'' ''Other station ITU zone'',
    field_def ''CONT'' ''E'' ''Continent of other station'',
    field_def ''LAT'' ''L'' ''Latitude of other station'',
    field_def ''LON'' ''L'' ''Longitude of other station'',
    field_def ''MY_GRIDSQUARE'' ''G'' ''My grid square'',
    field_def ''MY_CITY'' ''S'' ''My city'',
    field_def ''MY_STATE'' ''E'' ''My state'',
    field_def ''MY_COUNTRY'' ''S'' ''My country'',
    field_def ''MY_DXCC'' ''I'' ''My DXCC entity number'',
    field_def ''MY_CQ_ZONE'' ''I'' ''My CQ zone'',
    field_def ''MY_ITU_ZONE'' ''I'' ''My ITU zone'',
    field_def ''MY_LAT'' ''L'' ''My latitude'',
    field_def ''MY_LON'' ''L'' ''My longitude'',
    field_def ''SFI'' ''I'' ''Solar flux index'',
    field_def ''A_INDEX'' ''I'' ''A-index'',
    field_def ''K_INDEX'' ''I'' ''K-index'',
    field_def ''PROP_MODE'' ''E'' ''Propagation mode'',
    field_def ''OPERATOR'' ''S'' ''Logging operator callsign'',
    field_def ''STATION_CALLSIGN'' ''S'' ''Callsign used for this QSO'',
    field_def ''OWNER_CALLSIGN'' ''S'' ''Callsign of licensee'',
    field_def ''CONTEST_ID'' ''S'' ''Contest identifier'',
    field_def ''SRX'' ''I'' ''Received serial number'',
    field_def ''STX'' ''I'' ''Transmitted serial number'',
    field_def ''SRX_STRING'' ''S'' ''Received contest exchange'',
    field_def ''STX_STRING'' ''S'' ''Transmitted contest exchange'',
    field_def ''SAT_NAME'' ''S'' ''Satellite name'',
    field_def ''SAT_MODE'' ''S'' ''Satellite mode'',
    field_def ''SOTA_REF'' ''S'' ''SOTA summit reference'',
    field_def ''MY_SOTA_REF'' ''S'' ''My SOTA summit reference'',
    field_def ''POTA_REF'' ''S'' ''POTA park reference(s), comma-separated'',
    field_def ''MY_POTA_REF'' ''S'' ''My POTA park reference(s)'',
    field_def ''WWFF_REF'' ''S'' ''WWFF reference'',
    field_def ''MY_WWFF_REF'' ''S'' ''My WWFF reference'',
    field_def ''IOTA'' ''I'' ''IOTA island reference'',
    field_def ''SIG'' ''S'' ''Special interest group'',
    field_def ''SIG_INFO'' ''S'' ''Special interest group info'',
    field_def ''QSL_SENT'' ''E'' ''QSL sent status'',
    field_def ''QSL_SENT_VIA'' ''E'' ''QSL sent via'',
    field_def ''QSL_RCVD'' ''E'' ''QSL received status'',
    field_def ''QSL_RCVD_VIA'' ''E'' ''QSL received via'',
    field_def ''QSL_VIA'' ''S'' ''QSL manager callsign'',
    field_def ''QSLSDATE'' ''D'' ''QSL sent date'',
    field_def ''QSLRDATE'' ''D'' ''QSL received date'',
    field_def ''LOTW_QSL_SENT'' ''E'' ''LoTW QSL sent'',
    field_def ''LOTW_QSLSDATE'' ''D'' ''LoTW QSL sent date'',
    field_def ''LOTW_QSL_RCVD'' ''E'' ''LoTW QSL received'',
    field_def ''LOTW_QSLRDATE'' ''D'' ''LoTW QSL received date'',
    field_def ''EQSL_QSL_SENT'' ''E'' ''eQSL sent'',
    field_def ''EQSL_QSLSDATE'' ''D'' ''eQSL sent date'',
    field_def ''EQSL_QSL_RCVD'' ''E'' ''eQSL received'',
    field_def ''EQSL_QSLRDATE'' ''D'' ''eQSL received date''
  ]"

definition IsKnownField :: "string \<Rightarrow> bool" where
  "IsKnownField name \<longleftrightarrow>
     (if 4 < length name \<and> take 4 name = ''APP_'' then True else has_key KnownFields name)"

definition CanonicalFieldOrder :: "string list" where
  "CanonicalFieldOrder = [
    ''CALL'', ''QSO_DATE'', ''TIME_ON'', ''TIME_OFF'', ''QSO_DATE_OFF'',
    ''BAND'', ''MODE'', ''SUBMODE'', ''FREQ'', ''FREQ_RX'',
    ''BAND_RX'', ''RST_SENT'', ''RST_RCVD'', ''NAME'', ''QTH'',
    ''GRIDSQUARE'', ''DXCC'', ''COUNTRY'', ''STATE'', ''COUNTY'',
    ''CQZ'', ''ITUZ'', ''CONT'', ''LAT'', ''LON'',
    ''MY_GRIDSQUARE'', ''MY_CITY'', ''MY_STATE'', ''MY_COUNTRY'', ''MY_DXCC'',
    ''MY_CQ_ZONE'', ''MY_ITU_ZONE'', ''MY_LAT'', ''MY_LON'', ''TX_PWR'',
    ''RX_PWR'', ''MY_ANTENNA'', ''MY_RIG'', ''OPERATOR'', ''STATION_CALLSIGN'',
    ''OWNER_CALLSIGN'', ''PROP_MODE'', ''SFI'', ''A_INDEX'', ''K_INDEX'',
    ''CONTEST_ID'', ''SRX'', ''STX'', ''SRX_STRING'', ''STX_STRING'',
    ''SOTA_REF'', ''MY_SOTA_REF'', ''POTA_REF'', ''MY_POTA_REF'', ''WWFF_REF'',
    ''MY_WWFF_REF'', ''IOTA'', ''SIG'', ''SIG_INFO'', ''SAT_NAME'',
    ''SAT_MODE'', ''QSL_SENT'', ''QSL_SENT_VIA'', ''QSL_RCVD'', ''QSL_RCVD_VIA'',
    ''QSL_VIA'', ''QSLSDATE'', ''QSLRDATE'', ''LOTW_QSL_SENT'', ''LOTW_QSLSDATE'',
    ''LOTW_QSL_RCVD'', ''LOTW_QSLRDATE'', ''EQSL_QSL_SENT'', ''EQSL_QSLSDATE'', ''EQSL_QSL_RCVD'',
    ''EQSL_QSLRDATE'', ''COMMENT'', ''NOTES''
  ]"

record BandDef =
  bd_Name :: string
  bd_LowerMHz :: rat
  bd_UpperMHz :: rat

abbreviation band_def :: "string \<Rightarrow> rat \<Rightarrow> rat \<Rightarrow> string \<times> BandDef" where
  "band_def n lo hi \<equiv> (n, \<lparr>bd_Name = n, bd_LowerMHz = lo, bd_UpperMHz = hi\<rparr>)"

definition KnownBands :: "(string \<times> BandDef) list" where
  "KnownBands = [
    band_def ''2190m'' (1357 / 10000) (1378 / 10000),
    band_def ''630m'' (472 / 1000) (479 / 1000),
    band_def ''560m'' (501 / 1000) (504 / 1000),
    band_def ''160m'' (18 / 10) 2,
    band_def ''80m'' (35 / 10) 4,
    band_def ''60m'' (506 / 100) (545 / 100),
    band_def ''40m'' 7 (73 / 10),
    band_def ''30m'' (101 / 10) (1015 / 100),
    band_def ''20m'' 14 (1435 / 100),
    band_def ''17m'' (18068 / 1000) (18168 / 1000),
    band_def ''15m'' 21 (2145 / 100),
    band_def ''12m'' (2489 / 100) (2499 / 100),
    band_def ''10m'' 28 (297 / 10),
    band_def ''8m'' 40 45,
    band_def ''6m'' 50 54,
    band_def ''5m'' 54 (699 / 10),
    band_def ''4m'' 70 71,
    band_def ''2m'' 144 148,
    band_def ''1.25m'' 222 225,
    band_def ''70cm'' 420 450,
    band_def ''33cm'' 902 928,
    band_def ''23cm'' 1240 1300,
    band_def ''13cm'' 2300 2450,
    band_def ''9cm'' 3300 3500,
    band_def ''6cm'' 5650 5925,
    band_def ''3cm'' 10000 10500,
    band_def ''1.25cm'' 24000 24050,
    band_def ''6mm'' 47000 47200,
    band_def ''4mm'' 75500 81000,
    band_def ''2.5mm'' 119980 120020,
    band_def ''2mm'' 142000 149000,
    band_def ''1mm'' 241000 250000,
    band_def ''submm'' 300000 7500000
  ]"


section \<open>Properties of the catalog\<close>

lemma distinct_CanonicalFieldOrder: "distinct CanonicalFieldOrder"
  by (simp add: CanonicalFieldOrder_def)

lemma KnownFields_names: "list_all (\<lambda>(n, d). fd_Name d = n) KnownFields"
  by (simp add: KnownFields_def)

lemma KnownBands_wf: "list_all (\<lambda>(n, b). bd_Name b = n \<and> bd_LowerMHz b < bd_UpperMHz b) KnownBands"
  by (simp add: KnownBands_def)

end
