(* ===== verification/Adif_Record.thy ===== *)
theory Adif_Record
  imports Go_Prelude
begin

text \<open>
  \<open>pkg/adif/record.go\<close>: fields, records and headers.  A record is an ordered list of
  fields in which a name may occur more than once; \<open>Get\<close>, \<open>GetField\<close>, \<open>Has\<close> and \<open>Set\<close>
  work on the first field of a name, \<open>Delete\<close> on all of them.

  The locale \<open>field_store\<close> is the contract that the clients of a record rely on (mode
  canonicalisation, the writer): a record read through these operations is a partial
  map from upper-cased names to values.
\<close>

record Field =
  f_Name :: string
  f_Value :: string
  f_Type :: string

record Record =
  r_Fields :: "Field list"

record Header =
  h_Fields :: "Field list"

abbreviation mk_field :: "string \<Rightarrow> string \<Rightarrow> Field" where
  "mk_field n v \<equiv> \<lparr>f_Name = n, f_Value = v, f_Type = []\<rparr>"

text \<open>The loop \<open>for _, f := range fields { if f.Name == name ... }\<close>: the first field of a name.\<close>

definition first_field :: "string \<Rightarrow> Field list \<Rightarrow> Field option" where
  "first_field name fs = find (\<lambda>f. f_Name f = name) fs"

definition Record_Get :: "Record \<Rightarrow> string \<Rightarrow> string" where
  "Record_Get r name =
     (case first_field (ToUpper name) (r_Fields r) of Some f \<Rightarrow> f_Value f | None \<Rightarrow> [])"

definition Record_GetField :: "Record \<Rightarrow> string \<Rightarrow> Field \<times> bool" where
  "Record_GetField r name =
     (case first_field (ToUpper name) (r_Fields r) of
        Some f \<Rightarrow> (f, True)
      | None \<Rightarrow> (\<lparr>f_Name = [], f_Value = [], f_Type = []\<rparr>, False))"

definition Record_Has :: "Record \<Rightarrow> string \<Rightarrow> bool" where
  "Record_Has r name \<longleftrightarrow> first_field (ToUpper name) (r_Fields r) \<noteq> None"

fun set_first :: "string \<Rightarrow> string \<Rightarrow> Field list \<Rightarrow> Field list" where
  "set_first name v [] = [mk_field name v]"
| "set_first name v (f # fs) =
     (if f_Name f = name then f\<lparr>f_Value := v\<rparr> # fs else f # set_first name v fs)"

definition Record_Set :: "Record \<Rightarrow> string \<Rightarrow> string \<Rightarrow> Record" where
  "Record_Set r name v = r\<lparr>r_Fields := set_first (ToUpper name) v (r_Fields r)\<rparr>"

fun delete_loop :: "string \<Rightarrow> Field list \<Rightarrow> Field list \<times> int" where
  "delete_loop name [] = ([], 0)"
| "delete_loop name (f # fs) =
     (let (out, removed) = delete_loop name fs
      in if f_Name f = name then (out, removed + 1) else (f # out, removed))"

definition Record_Delete :: "Record \<Rightarrow> string \<Rightarrow> Record \<times> int" where
  "Record_Delete r name =
     (let (out, removed) = delete_loop (ToUpper name) (r_Fields r) in (r\<lparr>r_Fields := out\<rparr>, removed))"

definition Record_Clone :: "Record \<Rightarrow> Record" where
  "Record_Clone r = \<lparr>r_Fields = r_Fields r\<rparr>"

definition Header_Get :: "Header \<Rightarrow> string \<Rightarrow> string" where
  "Header_Get h name =
     (case first_field (ToUpper name) (h_Fields h) of Some f \<Rightarrow> f_Value f | None \<Rightarrow> [])"

definition Header_ADIFVersion :: "Header \<Rightarrow> string" where
  "Header_ADIFVersion h = Header_Get h ''ADIF_VER''"

definition Header_ProgramID :: "Header \<Rightarrow> string" where
  "Header_ProgramID h = Header_Get h ''PROGRAMID''"

definition Header_ProgramVersion :: "Header \<Rightarrow> string" where
  "Header_ProgramVersion h = Header_Get h ''PROGRAMVERSION''"


section \<open>The contract of a record\<close>

locale field_store =
  fixes get :: "'r \<Rightarrow> string \<Rightarrow> string"
    and has :: "'r \<Rightarrow> string \<Rightarrow> bool"
    and put :: "'r \<Rightarrow> string \<Rightarrow> string \<Rightarrow> 'r"
    and del :: "'r \<Rightarrow> string \<Rightarrow> 'r"
  assumes get_put: "get (put r n v) m = (if ToUpper m = ToUpper n then v else get r m)"
    and has_put: "has (put r n v) m \<longleftrightarrow> ToUpper m = ToUpper n \<or> has r m"
    and get_del: "get (del r n) m = (if ToUpper m = ToUpper n then [] else get r m)"
    and has_del: "has (del r n) m \<longleftrightarrow> ToUpper m \<noteq> ToUpper n \<and> has r m"
    and get_absent: "\<not> has r m \<Longrightarrow> get r m = []"
begin

text \<open>Reading through the operations only, a record is a map on upper-cased names.\<close>

definition lookup :: "'r \<Rightarrow> string \<Rightarrow> string option" where
  "lookup r n = (if has r n then Some (get r n) else None)"

lemma lookup_put: "lookup (put r n v) m = (if ToUpper m = ToUpper n then Some v else lookup r m)"
  by (simp add: lookup_def get_put has_put)

lemma lookup_del: "lookup (del r n) m = (if ToUpper m = ToUpper n then None else lookup r m)"
  by (simp add: lookup_def get_del has_del)

lemma get_lookup: "get r n = (case lookup r n of Some v \<Rightarrow> v | None \<Rightarrow> [])"
  by (simp add: lookup_def get_absent)

text \<open>
  Storing a pair of dependent fields: the second one is removed when its value is
  empty, so that an empty value is never stored for it.
\<close>

definition put_pair :: "'r \<Rightarrow> string \<Rightarrow> string \<Rightarrow> string \<Rightarrow> string \<Rightarrow> 'r" where
  "put_pair r n1 v1 n2 v2 =
     (let r1 = put r n1 v1 in if v2 = [] then del r1 n2 else put r1 n2 v2)"

lemma get_put_pair:
  assumes "ToUpper n1 \<noteq> ToUpper n2"
  shows "get (put_pair r n1 v1 n2 v2) m =
           (if ToUpper m = ToUpper n1 then v1 else if ToUpper m = ToUpper n2 then v2 else get r m)"
  using assms by (auto simp: put_pair_def Let_def get_put get_del)

lemma has_put_pair:
  assumes "ToUpper n1 \<noteq> ToUpper n2"
  shows "has (put_pair r n1 v1 n2 v2) m \<longleftrightarrow>
           (if ToUpper m = ToUpper n1 then True
            else if ToUpper m = ToUpper n2 then v2 \<noteq> [] else has r m)"
  using assms by (auto simp: put_pair_def Let_def has_put has_del)

end


section \<open>Records satisfy the contract\<close>

lemma delete_loop_filter:
  "delete_loop name fs = (filter (\<lambda>f. f_Name f \<noteq> name) fs, int (length (filter (\<lambda>f. f_Name f = name) fs)))"
  by (induction fs) (auto simp: Let_def)

lemma first_field_Nil [simp]: "first_field n [] = None"
  and first_field_Cons [simp]:
    "first_field n (f # fs) = (if f_Name f = n then Some f else first_field n fs)"
  by (simp_all add: first_field_def)

lemma first_field_set_first_same:
  "\<exists>f. first_field n (set_first n v fs) = Some f \<and> f_Value f = v"
  by (induction fs) auto

lemma first_field_set_first_other:
  "m \<noteq> n \<Longrightarrow> first_field m (set_first n v fs) = first_field m fs"
  by (induction fs) auto

lemma first_field_filter:
  "first_field m (filter (\<lambda>f. f_Name f \<noteq> n) fs) = (if m = n then None else first_field m fs)"
  by (induction fs) auto

lemma first_field_None_iff: "first_field n fs = None \<longleftrightarrow> n \<notin> f_Name ` set fs"
  by (induction fs) auto

lemma first_field_SomeD: "first_field n fs = Some f \<Longrightarrow> f \<in> set fs \<and> f_Name f = n"
  by (induction fs) (auto split: if_splits)

lemma set_first_id: "first_field n fs = Some f \<Longrightarrow> f_Value f = v \<Longrightarrow> set_first n v fs = fs"
  by (induction fs) (auto split: if_splits)

lemma r_Fields_Record_Delete [simp]:
  "r_Fields (fst (Record_Delete r n)) = filter (\<lambda>f. f_Name f \<noteq> ToUpper n) (r_Fields r)"
  by (simp add: Record_Delete_def delete_loop_filter)

interpretation rec_store: field_store Record_Get Record_Has Record_Set "\<lambda>r n. fst (Record_Delete r n)"
proof
  fix r n v m
  show "Record_Get (Record_Set r n v) m = (if ToUpper m = ToUpper n then v else Record_Get r m)"
    using first_field_set_first_same [of "ToUpper n" v "r_Fields r"]
    by (auto simp: Record_Get_def Record_Set_def first_field_set_first_other)
  show "Record_Has (Record_Set r n v) m \<longleftrightarrow> ToUpper m = ToUpper n \<or> Record_Has r m"
    using first_field_set_first_same [of "ToUpper n" v "r_Fields r"]
    by (cases "ToUpper m = ToUpper n")
       (auto simp: Record_Has_def Record_Set_def first_field_set_first_other)
  show "Record_Get (fst (Record_Delete r n)) m = (if ToUpper m = ToUpper n then [] else Record_Get r m)"
    by (simp add: Record_Get_def first_field_filter)
  show "Record_Has (fst (Record_Delete r n)) m \<longleftrightarrow> ToUpper m \<noteq> ToUpper n \<and> Record_Has r m"
    by (simp add: Record_Has_def first_field_filter)
  show "\<not> Record_Has r m \<Longrightarrow> Record_Get r m = []"
    by (simp add: Record_Has_def Record_Get_def)
qed


section \<open>Properties\<close>

text \<open>
  A record behaves as a map on case-insensitive names: after \<open>Set\<close> the value is read
  back under every spelling of the name and no other name is affected; after \<open>Delete\<close>
  the name is gone, however many fields carried it, and \<open>Delete\<close> returns their number.
\<close>

theorem record_map_laws:
  "Record_Get (Record_Set r n v) m = (if ToUpper m = ToUpper n then v else Record_Get r m)
   \<and> (Record_Has (Record_Set r n v) m \<longleftrightarrow> ToUpper m = ToUpper n \<or> Record_Has r m)
   \<and> (case Record_Delete r n of (r', k) \<Rightarrow>
        Record_Get r' m = (if ToUpper m = ToUpper n then [] else Record_Get r m)
        \<and> (Record_Has r' m \<longleftrightarrow> ToUpper m \<noteq> ToUpper n \<and> Record_Has r m)
        \<and> k = int (length (r_Fields r)) - int (length (r_Fields r')))"
proof -
  have len: "length (r_Fields r) =
      length (filter (\<lambda>f. f_Name f \<noteq> ToUpper n) (r_Fields r))
      + length (filter (\<lambda>f. f_Name f = ToUpper n) (r_Fields r))"
    using sum_length_filter_compl [of "\<lambda>f. f_Name f = ToUpper n" "r_Fields r"] by simp
  show ?thesis
    using rec_store.get_put rec_store.has_put rec_store.get_del [of r n m] rec_store.has_del [of r n m] len
    by (simp add: Record_Delete_def delete_loop_filter)
qed

end
