(* ===== verification/Adif_Mode.thy ===== *)
theory Adif_Mode
  imports Adif_Record
begin

text \<open>
  \<open>pkg/adif/mode.go\<close>: the canonical \<open>MODE\<close>/\<open>SUBMODE\<close> pairs and their normalisation.  The
  map literals of the source are association lists; \<open>ModeAliases\<close> is built from the
  explicit aliases and \<open>CanonicalADIFSubmodes\<close> as \<open>buildModeAliases\<close> does it, and the
  iteration order of that loop is irrelevant because its keys are distinct.
\<close>

record ModeValue =
  mv_Mode :: string
  mv_Submode :: string

abbreviation mode_value :: "string \<Rightarrow> string \<Rightarrow> ModeValue" where
  "mode_value m s \<equiv> \<lparr>mv_Mode = m, mv_Submode = s\<rparr>"

definition CanonicalADIFModes :: "string list" where
  "CanonicalADIFModes = [
    ''AM'', ''ARDOP'', ''ATV'', ''CHIP'', ''CLO'', ''CONTESTI'',
    ''CW'', ''DIGITALVOICE'', ''DOMINO'', ''DYNAMIC'', ''FAX'', ''FM'',
    ''FSK'', ''FSK441'', ''FT8'', ''HELL'', ''ISCAT'', ''JT4'',
    ''JT6M'', ''JT9'', ''JT44'', ''JT65'', ''MFSK'', ''MSK144'',
    ''MT63'', ''MTONE'', ''OFDM'', ''OLIVIA'', ''OPERA'', ''PAC'',
    ''PAX'', ''PKT'', ''PSK'', ''PSK2K'', ''Q15'', ''QRA64'',
    ''ROS'', ''RTTY'', ''RTTYM'', ''SSB'', ''SSTV'', ''T10'',
    ''THOR'', ''THRB'', ''TOR'', ''V4'', ''VOI'', ''WINMOR'',
    ''WSPR''
  ]"

definition CanonicalADIFSubmodes :: "(string \<times> string) list" where
  "CanonicalADIFSubmodes = [
    (''USB'', ''SSB''),
    (''LSB'', ''SSB''),
    (''PCW'', ''CW''),
    (''ASCI'', ''RTTY''),
    (''C4FM'', ''DIGITALVOICE''),
    (''DMR'', ''DIGITALVOICE''),
    (''DSTAR'', ''DIGITALVOICE''),
    (''FREEDV'', ''DIGITALVOICE''),
    (''M17'', ''DIGITALVOICE''),
    (''FREEDATA'', ''DYNAMIC''),
    (''VARA HF'', ''DYNAMIC''),
    (''VARA SATELLITE'', ''DYNAMIC''),
    (''VARA FM 1200'', ''DYNAMIC''),
    (''VARA FM 9600'', ''DYNAMIC''),
    (''SCAMP_FAST'', ''FSK''),
    (''SCAMP_SLOW'', ''FSK''),
    (''SCAMP_VSLOW'', ''FSK''),
    (''SCAMP_OO'', ''MTONE''),
    (''SCAMP_OO_SLW'', ''MTONE''),
    (''RIBBIT_PIX'', ''OFDM''),
    (''RIBBIT_SMS'', ''OFDM''),
    (''FSQCALL'', ''MFSK''),
    (''FST4'', ''MFSK''),
    (''FST4W'', ''MFSK''),
    (''FT2'', ''MFSK''),
    (''FT4'', ''MFSK''),
    (''JS8'', ''MFSK''),
    (''JTMS'', ''MFSK''),
    (''MFSK4'', ''MFSK''),
    (''MFSK8'', ''MFSK''),
    (''MFSK11'', ''MFSK''),
    (''MFSK16'', ''MFSK''),
    (''MFSK22'', ''MFSK''),
    (''MFSK31'', ''MFSK''),
    (''MFSK32'', ''MFSK''),
    (''MFSK64'', ''MFSK''),
    (''MFSK64L'', ''MFSK''),
    (''MFSK128'', ''MFSK''),
    (''MFSK128L'', ''MFSK''),
    (''Q65'', ''MFSK''),
    (''PSK31'', ''PSK''),
    (''PSK63'', ''PSK'')
  ]"

definition explicit_aliases :: "(string \<times> ModeValue) list" where
  "explicit_aliases = [
    (''AMTORFEC'', mode_value ''TOR'' ''AMTORFEC''),
    (''ASCI'', mode_value ''RTTY'' ''ASCI''),
    (''C4FM'', mode_value ''DIGITALVOICE'' ''C4FM''),
    (''CHIP64'', mode_value ''CHIP'' ''CHIP64''),
    (''CHIP128'', mode_value ''CHIP'' ''CHIP128''),
    (''DOMINOF'', mode_value ''DOMINO'' ''DOMINOF''),
    (''DSTAR'', mode_value ''DIGITALVOICE'' ''DSTAR''),
    (''FMHELL'', mode_value ''HELL'' ''FMHELL''),
    (''FSK31'', mode_value ''PSK'' ''FSK31''),
    (''GTOR'', mode_value ''TOR'' ''GTOR''),
    (''HELL80'', mode_value ''HELL'' ''HELL80''),
    (''HFSK'', mode_value ''HELL'' ''HFSK''),
    (''JT4A'', mode_value ''JT4'' ''JT4A''),
    (''JT4B'', mode_value ''JT4'' ''JT4B''),
    (''JT4C'', mode_value ''JT4'' ''JT4C''),
    (''JT4D'', mode_value ''JT4'' ''JT4D''),
    (''JT4E'', mode_value ''JT4'' ''JT4E''),
    (''JT4F'', mode_value ''JT4'' ''JT4F''),
    (''JT4G'', mode_value ''JT4'' ''JT4G''),
    (''JT65A'', mode_value ''JT65'' ''JT65A''),
    (''JT65B'', mode_value ''JT65'' ''JT65B''),
    (''JT65C'', mode_value ''JT65'' ''JT65C''),
    (''MFSK8'', mode_value ''MFSK'' ''MFSK8''),
    (''MFSK16'', mode_value ''MFSK'' ''MFSK16''),
    (''PAC2'', mode_value ''PAC'' ''PAC2''),
    (''PAC3'', mode_value ''PAC'' ''PAC3''),
    (''PAX2'', mode_value ''PAX'' ''PAX2''),
    (''PCW'', mode_value ''CW'' ''PCW''),
    (''PSK10'', mode_value ''PSK'' ''PSK10''),
    (''PSK31'', mode_value ''PSK'' ''PSK31''),
    (''PSK63'', mode_value ''PSK'' ''PSK63''),
    (''PSK63F'', mode_value ''PSK'' ''PSK63F''),
    (''PSK125'', mode_value ''PSK'' ''PSK125''),
    (''PSKAM10'', mode_value ''PSK'' ''PSKAM10''),
    (''PSKAM31'', mode_value ''PSK'' ''PSKAM31''),
    (''PSKAM50'', mode_value ''PSK'' ''PSKAM50''),
    (''PSKFEC31'', mode_value ''PSK'' ''PSKFEC31''),
    (''PSKHELL'', mode_value ''HELL'' ''PSKHELL''),
    (''QPSK31'', mode_value ''PSK'' ''QPSK31''),
    (''QPSK63'', mode_value ''PSK'' ''QPSK63''),
    (''QPSK125'', mode_value ''PSK'' ''QPSK125''),
    (''THRBX'', mode_value ''THRB'' ''THRBX''),
    (''DMR'', mode_value ''DIGITALVOICE'' ''DMR''),
    (''FREEDATA'', mode_value ''DYNAMIC'' ''FREEDATA''),
    (''FREEDV'', mode_value ''DIGITALVOICE'' ''FREEDV''),
    (''FT2'', mode_value ''MFSK'' ''FT2''),
    (''FT4'', mode_value ''MFSK'' ''FT4''),
    (''JS8'', mode_value ''MFSK'' ''JS8''),
    (''LSB'', mode_value ''SSB'' ''LSB''),
    (''M17'', mode_value ''DIGITALVOICE'' ''M17''),
    (''PACKET'', mode_value ''PKT'' ''''),
    (''Q65'', mode_value ''MFSK'' ''Q65''),
    (''USB'', mode_value ''SSB'' ''USB''),
    (''VARA'', mode_value ''DYNAMIC'' ''VARA HF''),
    (''VARAFH'', mode_value ''DYNAMIC'' ''VARA HF''),
    (''VARAHF'', mode_value ''DYNAMIC'' ''VARA HF''),
    (''VARAFM1200'', mode_value ''DYNAMIC'' ''VARA FM 1200''),
    (''VARAFM9600'', mode_value ''DYNAMIC'' ''VARA FM 9600''),
    (''VARASAT'', mode_value ''DYNAMIC'' ''VARA SATELLITE''),
    (''VARASATELLITE'', mode_value ''DYNAMIC'' ''VARA SATELLITE'')
  ]"

fun derive_aliases :: "(string \<times> ModeValue) list \<Rightarrow> (string \<times> string) list \<Rightarrow> (string \<times> ModeValue) list" where
  "derive_aliases aliases [] = aliases"
| "derive_aliases aliases ((submode, mode) # rest) =
     (if has_key aliases submode then derive_aliases aliases rest
      else derive_aliases ((submode, mode_value mode submode) # aliases) rest)"

definition buildModeAliases :: "(string \<times> ModeValue) list" where
  "buildModeAliases = derive_aliases explicit_aliases CanonicalADIFSubmodes"

abbreviation ModeAliases :: "(string \<times> ModeValue) list" where
  "ModeAliases \<equiv> buildModeAliases"

definition buildKnownModes :: "string \<Rightarrow> bool" where
  "buildKnownModes m \<longleftrightarrow> m \<in> set CanonicalADIFModes \<or> has_key ModeAliases m"

text \<open>\<open>(value, true)\<close> is \<^const>\<open>Some\<close>, \<open>(ModeValue{}, false)\<close> is \<^const>\<open>None\<close>.\<close>

definition ResolveMode :: "string \<Rightarrow> ModeValue option" where
  "ResolveMode mode0 =
     (let mode = ToUpper (TrimSpace mode0) in
      if mode = [] then None
      else (case map_of ModeAliases mode of
              Some canonical \<Rightarrow> Some canonical
            | None \<Rightarrow> if mode \<in> set CanonicalADIFModes then Some (mode_value mode []) else None))"

definition NormalizeModePair :: "string \<Rightarrow> string \<Rightarrow> ModeValue option" where
  "NormalizeModePair mode0 submode0 =
     (let mode = ToUpper (TrimSpace mode0); submode = ToUpper (TrimSpace submode0) in
      if mode = [] then None
      else if submode = [] then ResolveMode mode
      else (case ResolveMode mode of
              None \<Rightarrow> None
            | Some resolvedMode \<Rightarrow>
                if mv_Submode resolvedMode \<noteq> [] \<and> mv_Submode resolvedMode \<noteq> submode then None
                else if mv_Submode resolvedMode = submode then Some resolvedMode
                else
                  let canonicalMode = mv_Mode resolvedMode in
                  if map_of CanonicalADIFSubmodes submode = Some canonicalMode
                  then Some (mode_value canonicalMode submode)
                  else (case ResolveMode submode of
                          None \<Rightarrow> None
                        | Some resolvedSubmode \<Rightarrow>
                            if mv_Mode resolvedSubmode = canonicalMode \<and> mv_Submode resolvedSubmode = submode
                            then Some (mode_value canonicalMode submode)
                            else if canonicalMode = ''MFSK'' \<and> mv_Mode resolvedSubmode = submode
                                    \<and> mv_Submode resolvedSubmode = []
                            then Some resolvedSubmode
                            else None)))"

definition CanonicalizeRecordMode :: "Record \<Rightarrow> Record \<times> bool" where
  "CanonicalizeRecordMode rec =
     (case NormalizeModePair (Record_Get rec ''MODE'') (Record_Get rec ''SUBMODE'') of
        None \<Rightarrow> (rec, False)
      | Some canonical \<Rightarrow>
          (let rec1 = Record_Set rec ''MODE'' (mv_Mode canonical) in
           if mv_Submode canonical = [] then (fst (Record_Delete rec1 ''SUBMODE''), True)
           else (Record_Set rec1 ''SUBMODE'' (mv_Submode canonical), True)))"


section \<open>The tables\<close>

lemma map_of_derive_aliases:
  "map_of (derive_aliases al subs) k =
     (case map_of al k of Some v \<Rightarrow> Some v | None \<Rightarrow> map_option (\<lambda>m. mode_value m k) (map_of subs k))"
proof (induction subs arbitrary: al)
  case Nil
  then show ?case by (simp split: option.splits)
next
  case (Cons p subs)
  obtain s m where p: "p = (s, m)" by (cases p)
  show ?case
  proof (cases "map_of al s")
    case None
    then show ?thesis using Cons [of "(s, mode_value m s) # al"]
      by (auto simp: p has_key_def split: option.splits)
  next
    case (Some v)
    then show ?thesis using Cons [of al] by (auto simp: p has_key_def split: option.splits)
  qed
qed

lemma map_of_ModeAliases:
  "map_of ModeAliases k =
     (case map_of explicit_aliases k of Some v \<Rightarrow> Some v
      | None \<Rightarrow> map_option (\<lambda>m. mode_value m k) (map_of CanonicalADIFSubmodes k))"
  by (simp add: buildModeAliases_def map_of_derive_aliases)

lemma explicit_aliases_canonical:
  "list_all (\<lambda>(k, v). mv_Mode v \<in> set CanonicalADIFModes) explicit_aliases"
  by (simp add: explicit_aliases_def CanonicalADIFModes_def)

lemma submodes_canonical: "list_all (\<lambda>(k, m). m \<in> set CanonicalADIFModes) CanonicalADIFSubmodes"
  by (simp add: CanonicalADIFSubmodes_def CanonicalADIFModes_def)

lemma modes_not_explicit: "list_all (\<lambda>m. m \<notin> fst ` set explicit_aliases) CanonicalADIFModes"
  by (simp add: explicit_aliases_def CanonicalADIFModes_def)

lemma modes_not_submodes: "list_all (\<lambda>m. m \<notin> fst ` set CanonicalADIFSubmodes) CanonicalADIFModes"
  by (simp add: CanonicalADIFSubmodes_def CanonicalADIFModes_def)

lemma explicit_submode_reachable:
  "list_all (\<lambda>(k, v). if mv_Submode v = k \<or> mv_Submode v = [] then True
                      else map_of CanonicalADIFSubmodes (mv_Submode v) = Some (mv_Mode v)) explicit_aliases"
  by (simp add: explicit_aliases_def CanonicalADIFSubmodes_def)

lemma explicit_submode_normal:
  "list_all (\<lambda>(k, v). ToUpper (TrimSpace (mv_Submode v)) = mv_Submode v) explicit_aliases"
  by (simp add: explicit_aliases_def go_defs)

lemma submodes_normal: "list_all (\<lambda>(k, m). ToUpper (TrimSpace k) = k) CanonicalADIFSubmodes"
  by (simp add: CanonicalADIFSubmodes_def go_defs)

lemma modes_normal: "list_all (\<lambda>m. ToUpper (TrimSpace m) = m \<and> m \<noteq> []) CanonicalADIFModes"
  by (simp add: CanonicalADIFModes_def go_defs)


section \<open>Resolution\<close>

lemma alias_cases:
  assumes "map_of ModeAliases k = Some v"
  shows "mv_Mode v \<in> set CanonicalADIFModes"
    and "ToUpper (TrimSpace (mv_Submode v)) = mv_Submode v"
    and "mv_Submode v = [] \<or> map_of CanonicalADIFSubmodes (mv_Submode v) = Some (mv_Mode v)
         \<or> map_of ModeAliases (mv_Submode v) = Some v"
proof -
  have "mv_Mode v \<in> set CanonicalADIFModes \<and> ToUpper (TrimSpace (mv_Submode v)) = mv_Submode v
        \<and> (mv_Submode v = [] \<or> map_of CanonicalADIFSubmodes (mv_Submode v) = Some (mv_Mode v)
           \<or> map_of ModeAliases (mv_Submode v) = Some v)"
  proof (cases "map_of explicit_aliases k")
    case None
    with assms obtain m where m: "map_of CanonicalADIFSubmodes k = Some m" "v = mode_value m k"
      by (auto simp: map_of_ModeAliases)
    then have "(k, m) \<in> set CanonicalADIFSubmodes" by (simp add: map_of_SomeD)
    then show ?thesis using m submodes_canonical submodes_normal by (auto simp: list_all_iff)
  next
    case (Some w)
    with assms have w: "w = v" by (simp add: map_of_ModeAliases)
    have kv: "(k, v) \<in> set explicit_aliases" using Some w by (simp add: map_of_SomeD)
    have "mv_Submode v = k \<or> mv_Submode v = [] \<or> map_of CanonicalADIFSubmodes (mv_Submode v) = Some (mv_Mode v)"
      using kv explicit_submode_reachable by (force simp: list_all_iff split: if_splits)
    with kv assms explicit_aliases_canonical explicit_submode_normal show ?thesis
      by (auto simp: list_all_iff)
  qed
  then show "mv_Mode v \<in> set CanonicalADIFModes"
    and "ToUpper (TrimSpace (mv_Submode v)) = mv_Submode v"
    and "mv_Submode v = [] \<or> map_of CanonicalADIFSubmodes (mv_Submode v) = Some (mv_Mode v)
         \<or> map_of ModeAliases (mv_Submode v) = Some v" by blast+
qed

lemma mode_normal: "m \<in> set CanonicalADIFModes \<Longrightarrow> ToUpper (TrimSpace m) = m \<and> m \<noteq> []"
  using modes_normal by (auto simp: list_all_iff)

lemma ResolveMode_mode: "m \<in> set CanonicalADIFModes \<Longrightarrow> ResolveMode m = Some (mode_value m [])"
proof -
  assume m: "m \<in> set CanonicalADIFModes"
  then have "map_of explicit_aliases m = None" "map_of CanonicalADIFSubmodes m = None"
    using modes_not_explicit modes_not_submodes by (auto simp: list_all_iff map_of_eq_None_iff)
  with m mode_normal [OF m] show ?thesis by (simp add: ResolveMode_def map_of_ModeAliases)
qed

lemma ResolveMode_SomeE:
  assumes "ResolveMode m = Some v"
  obtains "map_of ModeAliases (ToUpper (TrimSpace m)) = Some v"
        | "ToUpper (TrimSpace m) \<in> set CanonicalADIFModes" "v = mode_value (ToUpper (TrimSpace m)) []"
  using assms by (auto simp: ResolveMode_def Let_def split: option.splits if_splits)

lemma ResolveMode_normal_arg: "ResolveMode (ToUpper (TrimSpace m)) = ResolveMode m"
  by (simp add: ResolveMode_def TrimSpace_ToUpper)

lemma ResolveMode_canonical: "ResolveMode m = Some v \<Longrightarrow> mv_Mode v \<in> set CanonicalADIFModes"
  by (erule ResolveMode_SomeE) (auto dest: alias_cases)

text \<open>A canonical mode with a submode that resolves to it is accepted unchanged.\<close>

lemma NormalizeModePair_fixed:
  assumes m: "m \<in> set CanonicalADIFModes" and s: "ToUpper (TrimSpace s) = s" "s \<noteq> []"
    and hit: "map_of CanonicalADIFSubmodes s = Some m \<or> ResolveMode s = Some (mode_value m s)"
  shows "NormalizeModePair m s = Some (mode_value m s)"
  using mode_normal [OF m] s hit ResolveMode_mode [OF m]
  by (auto simp: NormalizeModePair_def Let_def split: option.splits)

lemma NormalizeModePair_plain: "m \<in> set CanonicalADIFModes \<Longrightarrow> NormalizeModePair m [] = Some (mode_value m [])"
  using mode_normal by (simp add: NormalizeModePair_def ResolveMode_mode)

lemma ResolveMode_fixed:
  assumes "ResolveMode m = Some v" shows "NormalizeModePair (mv_Mode v) (mv_Submode v) = Some v"
  using assms
proof (cases rule: ResolveMode_SomeE)
  case 1
  note a = alias_cases [OF 1]
  show ?thesis
  proof (cases "mv_Submode v = []")
    case True
    with NormalizeModePair_plain [OF a(1)] show ?thesis by (cases v) simp
  next
    case False
    have "map_of ModeAliases (mv_Submode v) = Some v \<Longrightarrow> ResolveMode (mv_Submode v) = Some v"
      using False a(2) by (simp add: ResolveMode_def)
    with False a NormalizeModePair_fixed [OF a(1) a(2) False] show ?thesis by (cases v) auto
  qed
next
  case 2
  then show ?thesis using NormalizeModePair_plain by simp
qed

lemma NormalizeModePair_SomeE:
  assumes "NormalizeModePair m s = Some v"
  obtains (resolved) x where "ResolveMode x = Some v"
        | (pair) "mv_Mode v \<in> set CanonicalADIFModes" "ToUpper (TrimSpace (mv_Submode v)) = mv_Submode v"
            "mv_Submode v \<noteq> []"
            "map_of CanonicalADIFSubmodes (mv_Submode v) = Some (mv_Mode v) \<or> ResolveMode (mv_Submode v) = Some v"
  using assms
  by (auto simp: NormalizeModePair_def Let_def TrimSpace_ToUpper
           split: option.splits if_splits dest: ResolveMode_canonical)


lemma NormalizeModePair_nf:
  assumes "NormalizeModePair m s = Some v"
  shows "mv_Mode v \<in> set CanonicalADIFModes \<and> NormalizeModePair (mv_Mode v) (mv_Submode v) = Some v"
  using assms
proof (cases rule: NormalizeModePair_SomeE)
  case (resolved x)
  then show ?thesis using ResolveMode_canonical ResolveMode_fixed by blast
next
  case pair
  have "ResolveMode (mv_Submode v) = Some v \<Longrightarrow>
        ResolveMode (mv_Submode v) = Some (mode_value (mv_Mode v) (mv_Submode v))" by simp
  with pair NormalizeModePair_fixed [OF pair(1-3)] show ?thesis by (cases v) auto
qed

text \<open>The values are short ASCII strings.\<close>

definition short_ascii :: "string \<Rightarrow> bool" where
  "short_ascii s \<longleftrightarrow> length s \<le> 20 \<and> list_all (\<lambda>c. byte c < 128) s"

lemma explicit_short: "list_all (\<lambda>(k, v). short_ascii (mv_Submode v)) explicit_aliases"
  by (simp add: explicit_aliases_def short_ascii_def)

lemma submodes_short: "list_all (\<lambda>(k, m). short_ascii k) CanonicalADIFSubmodes"
  by (simp add: CanonicalADIFSubmodes_def short_ascii_def)

lemma modes_short: "list_all short_ascii CanonicalADIFModes"
  by (simp add: CanonicalADIFModes_def short_ascii_def)

lemma ResolveMode_short: "ResolveMode m = Some v \<Longrightarrow> short_ascii (mv_Submode v)"
proof (erule ResolveMode_SomeE)
  assume "map_of ModeAliases (ToUpper (TrimSpace m)) = Some v"
  then show ?thesis
    using explicit_short submodes_short
    by (auto simp: map_of_ModeAliases list_all_iff split: option.splits dest!: map_of_SomeD)
qed (simp add: short_ascii_def)

lemma NormalizeModePair_short:
  assumes "NormalizeModePair m s = Some v"
  shows "short_ascii (mv_Mode v)" and "short_ascii (mv_Submode v)"
proof -
  show "short_ascii (mv_Mode v)"
    using NormalizeModePair_nf [OF assms] modes_short by (simp add: list_all_iff)
  show "short_ascii (mv_Submode v)"
    using assms
  proof (cases rule: NormalizeModePair_SomeE)
    case (resolved x)
    then show ?thesis by (rule ResolveMode_short)
  next
    case pair
    then show ?thesis
      using submodes_short ResolveMode_short by (auto simp: list_all_iff dest!: map_of_SomeD)
  qed
qed


section \<open>Canonicalisation of a record\<close>

lemma ToUpper_MODE [simp]: "ToUpper ''MODE'' = ''MODE''" "ToUpper ''SUBMODE'' = ''SUBMODE''"
  by code_simp+

lemma CanonicalizeRecordMode_alt:
  "CanonicalizeRecordMode rec =
     (case NormalizeModePair (Record_Get rec ''MODE'') (Record_Get rec ''SUBMODE'') of
        None \<Rightarrow> (rec, False)
      | Some v \<Rightarrow> (rec_store.put_pair rec ''MODE'' (mv_Mode v) ''SUBMODE'' (mv_Submode v), True))"
  by (simp add: CanonicalizeRecordMode_def rec_store.put_pair_def Let_def split: option.splits)

lemma put_pair_get:
  "Record_Get (rec_store.put_pair rec ''MODE'' m ''SUBMODE'' s) n =
     (if ToUpper n = ''MODE'' then m else if ToUpper n = ''SUBMODE'' then s else Record_Get rec n)"
  by (simp add: rec_store.get_put_pair)

lemma put_pair_has:
  "Record_Has (rec_store.put_pair rec ''MODE'' m ''SUBMODE'' s) n \<longleftrightarrow>
     (if ToUpper n = ''MODE'' then True else if ToUpper n = ''SUBMODE'' then s \<noteq> [] else Record_Has rec n)"
  by (simp add: rec_store.has_put_pair)

lemma Record_Set_id: "Record_Has r n \<Longrightarrow> Record_Get r n = v \<Longrightarrow> Record_Set r n v = r"
  by (auto simp: Record_Has_def Record_Get_def Record_Set_def set_first_id)

lemma Record_Delete_id: "\<not> Record_Has r n \<Longrightarrow> fst (Record_Delete r n) = r"
proof -
  assume "\<not> Record_Has r n"
  then have "filter (\<lambda>f. f_Name f \<noteq> ToUpper n) (r_Fields r) = r_Fields r"
    by (force simp: Record_Has_def first_field_None_iff filter_id_conv)
  then show ?thesis by (simp add: Record_Delete_def delete_loop_filter)
qed

lemma put_pair_id:
  assumes "Record_Has r ''MODE''" "Record_Get r ''MODE'' = m" "Record_Get r ''SUBMODE'' = s"
    "Record_Has r ''SUBMODE'' \<longleftrightarrow> s \<noteq> []"
  shows "rec_store.put_pair r ''MODE'' m ''SUBMODE'' s = r"
  using assms by (simp add: rec_store.put_pair_def Record_Set_id Record_Delete_id)

lemma CanonicalizeRecordMode_idem:
  "CanonicalizeRecordMode (fst (CanonicalizeRecordMode rec)) = CanonicalizeRecordMode rec"
proof (cases "NormalizeModePair (Record_Get rec ''MODE'') (Record_Get rec ''SUBMODE'')")
  case None
  then show ?thesis by (simp add: CanonicalizeRecordMode_alt)
next
  case (Some v)
  let ?r = "rec_store.put_pair rec ''MODE'' (mv_Mode v) ''SUBMODE'' (mv_Submode v)"
  have r: "fst (CanonicalizeRecordMode rec) = ?r" and c: "CanonicalizeRecordMode rec = (?r, True)"
    using Some by (simp_all add: CanonicalizeRecordMode_alt)
  have "NormalizeModePair (Record_Get ?r ''MODE'') (Record_Get ?r ''SUBMODE'') = Some v"
    using NormalizeModePair_nf [OF Some] by (simp add: put_pair_get)
  then have "CanonicalizeRecordMode ?r =
      (rec_store.put_pair ?r ''MODE'' (mv_Mode v) ''SUBMODE'' (mv_Submode v), True)"
    by (simp add: CanonicalizeRecordMode_alt)
  also have "rec_store.put_pair ?r ''MODE'' (mv_Mode v) ''SUBMODE'' (mv_Submode v) = ?r"
    by (rule put_pair_id) (simp_all add: put_pair_get put_pair_has)
  finally show ?thesis using r c by simp
qed


section \<open>Properties\<close>

text \<open>
  Whatever mode strings come in, a pair that \<open>NormalizeModePair\<close> returns has an
  ADIF 3.1.7 export \<open>MODE\<close>, and normalising it again returns it unchanged: normal
  forms are stable, so a second export of the same record writes the same pair.
\<close>

theorem NormalizeModePair_normal_form:
  assumes "NormalizeModePair m s = Some v"
  shows "mv_Mode v \<in> set CanonicalADIFModes \<and> NormalizeModePair (mv_Mode v) (mv_Submode v) = Some v"
  using assms by (rule NormalizeModePair_nf)

theorem NormalizeModePair_normal_form_witness:
  "NormalizeModePair '' varahf'' [] = Some (mode_value ''DYNAMIC'' ''VARA HF'')
   \<and> NormalizeModePair ''DYNAMIC'' ''VARA HF'' = Some (mode_value ''DYNAMIC'' ''VARA HF'')"
proof -
  have h: "NormalizeModePair '' varahf'' [] = Some (mode_value ''DYNAMIC'' ''VARA HF'')"
    by (simp add: NormalizeModePair_def ResolveMode_def map_of_ModeAliases explicit_aliases_def go_defs eval_char Let_def)
  show ?thesis using h NormalizeModePair_normal_form [OF h] by simp
qed

text \<open>
  \<open>CanonicalizeRecordMode\<close> writes the normal form of the record's mode pair (an empty
  submode leaves no \<open>SUBMODE\<close> field behind), changes no other field, leaves a record
  with an unknown pair untouched, and a second call changes nothing.
\<close>

theorem CanonicalizeRecordMode_correct:
  "case CanonicalizeRecordMode rec of (rec', ok) \<Rightarrow>
     CanonicalizeRecordMode rec' = (rec', ok)
     \<and> (if ok
        then NormalizeModePair (Record_Get rec ''MODE'') (Record_Get rec ''SUBMODE'')
               = Some (mode_value (Record_Get rec' ''MODE'') (Record_Get rec' ''SUBMODE''))
             \<and> (Record_Has rec' ''SUBMODE'' \<longleftrightarrow> Record_Get rec' ''SUBMODE'' \<noteq> [])
             \<and> (\<forall>n. ToUpper n = ''MODE'' \<or> ToUpper n = ''SUBMODE''
                    \<or> Record_Get rec' n = Record_Get rec n \<and> Record_Has rec' n = Record_Has rec n)
        else rec' = rec)"
proof -
  have "CanonicalizeRecordMode (fst (CanonicalizeRecordMode rec)) = CanonicalizeRecordMode rec"
    by (rule CanonicalizeRecordMode_idem)
  then show ?thesis
    by (auto simp: CanonicalizeRecordMode_alt put_pair_get put_pair_has split: option.splits)
qed

end
