(* ===== verification/Stable_Sort.thy ===== *)
theory Stable_Sort
  imports Main "HOL-Library.Multiset"
begin

text \<open>
  \<open>sort.SliceStable\<close>: a stable sort by a \<open>less\<close> callback.  The locale states what the
  callback owes the library (it is a strict weak order); the lemmas state what the
  library promises back (a permutation, sorted, equal elements kept in order), and
  that these promises determine the result, so the insertion sort below is the
  result of any correct implementation of \<open>sort.SliceStable\<close>.
\<close>

fun insert_by :: "('a \<Rightarrow> 'a \<Rightarrow> bool) \<Rightarrow> 'a \<Rightarrow> 'a list \<Rightarrow> 'a list" where
  "insert_by lt x [] = [x]"
| "insert_by lt x (y # ys) = (if lt y x then y # insert_by lt x ys else x # y # ys)"

definition SliceStable :: "('a \<Rightarrow> 'a \<Rightarrow> bool) \<Rightarrow> 'a list \<Rightarrow> 'a list" where
  "SliceStable lt xs = foldr (insert_by lt) xs []"

lemma SliceStable_Nil [simp]: "SliceStable lt [] = []"
  and SliceStable_Cons [simp]: "SliceStable lt (x # xs) = insert_by lt x (SliceStable lt xs)"
  by (simp_all add: SliceStable_def)

lemma mset_insert_by [simp]: "mset (insert_by lt x xs) = add_mset x (mset xs)"
  by (induction xs) auto

lemma mset_SliceStable [simp]: "mset (SliceStable lt xs) = mset xs"
  by (induction xs) auto

lemma set_SliceStable [simp]: "set (SliceStable lt xs) = set xs"
  by (metis mset_SliceStable set_mset_mset)

lemma set_insert_by [simp]: "set (insert_by lt x xs) = insert x (set xs)"
  by (metis mset_insert_by set_mset_add_mset_insert set_mset_mset)

lemma length_SliceStable [simp]: "length (SliceStable lt xs) = length xs"
  by (metis mset_SliceStable size_mset)

locale strict_weak_order =
  fixes lt :: "'a \<Rightarrow> 'a \<Rightarrow> bool"
  assumes asym: "lt x y \<Longrightarrow> \<not> lt y x"
    and negtrans: "lt x z \<Longrightarrow> lt x y \<or> lt y z"
begin

definition same :: "'a \<Rightarrow> 'a \<Rightarrow> bool" where
  "same x y \<longleftrightarrow> \<not> lt x y \<and> \<not> lt y x"

definition ordered :: "'a list \<Rightarrow> bool" where
  "ordered xs \<longleftrightarrow> sorted_wrt (\<lambda>x y. \<not> lt y x) xs"

lemma irreflexive: "\<not> lt x x"
  using asym by blast

lemma same_refl [simp]: "same x x"
  by (simp add: same_def irreflexive)

lemma less_cong_same: "same x y \<Longrightarrow> lt z x \<longleftrightarrow> lt z y"
  using negtrans by (auto simp: same_def)

lemma ordered_insert_by: "ordered xs \<Longrightarrow> ordered (insert_by lt x xs)"
proof (induction xs)
  case (Cons y ys)
  show ?case
  proof (cases "lt y x")
    case True
    with Cons show ?thesis by (auto simp: ordered_def dest: asym)
  next
    case False
    with Cons.prems have "\<And>z. z \<in> set ys \<Longrightarrow> \<not> lt z x"
      unfolding ordered_def using negtrans by (metis sorted_wrt.simps(2))
    with False Cons.prems show ?thesis by (auto simp: ordered_def)
  qed
qed (simp add: ordered_def)

lemma ordered_SliceStable: "ordered (SliceStable lt xs)"
  by (induction xs) (simp_all add: ordered_insert_by, simp add: ordered_def)

lemma filter_insert_by:
  "filter (same z) (insert_by lt x xs) = (if same z x then x # filter (same z) xs else filter (same z) xs)"
proof (induction xs)
  case (Cons y ys)
  have "lt y x \<Longrightarrow> same z x \<Longrightarrow> \<not> same z y"
    using less_cong_same by (metis same_def)
  with Cons show ?case by auto
qed simp

lemma filter_SliceStable: "filter (same z) (SliceStable lt xs) = filter (same z) xs"
  by (induction xs) (simp_all add: filter_insert_by)

lemma ordered_unique:
  assumes "ordered ys" "ordered zs" "\<And>x. filter (same x) ys = filter (same x) zs"
  shows "ys = zs"
  using assms
proof (induction ys arbitrary: zs)
  case Nil
  show ?case
  proof (cases zs)
    case (Cons z zs')
    have "filter (same z) zs = []" using Nil.prems(3) [of z] by simp
    with Cons show ?thesis by simp
  qed simp
next
  case (Cons y ys)
  have "y \<in> set (filter (same y) zs)" using Cons.prems(3) [of y, symmetric] by simp
  then have y: "y \<in> set zs" by (metis filter_is_subset subsetD)
  then obtain z zs' where zs: "zs = z # zs'" by (cases zs) auto
  have "z \<in> set (filter (same z) (y # ys))" using Cons.prems(3) [of z] zs by simp
  then have "\<not> lt z y" using Cons.prems(1) by (auto simp: ordered_def same_def irreflexive)
  moreover have "\<not> lt y z"
    using y zs Cons.prems(2) by (auto simp: ordered_def irreflexive)
  ultimately have "same y z" by (simp add: same_def)
  with Cons.prems(3) [of y] zs have yz: "y = z" by simp
  have "filter (same x) ys = filter (same x) zs'" for x
    using Cons.prems(3) [of x] zs yz by (simp split: if_splits)
  with Cons.IH [of zs'] Cons.prems zs yz show ?case by (simp add: ordered_def)
qed

lemma SliceStable_unique:
  assumes "ordered ys" "\<And>x. filter (same x) ys = filter (same x) xs"
  shows "ys = SliceStable lt xs"
  using ordered_unique [OF assms(1) ordered_SliceStable] assms(2) by (simp add: filter_SliceStable)

lemma SliceStable_id: "ordered xs \<Longrightarrow> SliceStable lt xs = xs"
  using SliceStable_unique [of xs xs] by simp

lemma SliceStable_idem: "SliceStable lt (SliceStable lt xs) = SliceStable lt xs"
  by (simp add: SliceStable_id ordered_SliceStable)

end

end
