(* ===== verification/Adif_Writer.thy ===== *)
theory Adif_Writer
  imports Adif_Fields Adif_Mode Stable_Sort
begin

text \<open>
  \<open>pkg/adif/writer.go\<close>: the ADI writer.  The \<open>io.Writer\<close> behind it is the text written so
  far and the number of \<open>Write\<close> calls that still succeed (\<^const>\<open>None\<close>: all of them, as for
  \<open>strings.Builder\<close> and \<open>bytes.Buffer\<close>); a failing \<open>Write\<close> stores nothing.
  \<open>sort.SliceStable\<close> is \<^const>\<open>SliceStable\<close>; the interpretation \<open>field_order\<close> below discharges
  what the library asks of the comparison.
\<close>

definition ADIFVersion :: string where "ADIFVersion = ''3.1.7''"

definition ProgramID :: string where "ProgramID = ''RadioLedger''"

record WriterOptions =
  wo_ProgramVersion :: string
  wo_FieldsPerLine :: int
  wo_IncludeHeader :: bool

record Writer =
  w_out :: string
  w_left :: "nat option"
  w_opts :: WriterOptions
  w_headerWritten :: bool

datatype WriteErr = WriteFailed | PreambleFailed

definition NewWriterWithOptions :: "nat option \<Rightarrow> WriterOptions \<Rightarrow> Writer" where
  "NewWriterWithOptions left opts =
     \<lparr>w_out = [], w_left = left,
      w_opts = (if wo_ProgramVersion opts = [] then opts\<lparr>wo_ProgramVersion := ''1.0.0''\<rparr> else opts),
      w_headerWritten = False\<rparr>"

definition NewWriter :: "nat option \<Rightarrow> Writer" where
  "NewWriter left = NewWriterWithOptions left
     \<lparr>wo_ProgramVersion = ''1.0.0'', wo_FieldsPerLine = 0, wo_IncludeHeader = True\<rparr>"

definition Fprintf :: "Writer \<Rightarrow> string \<Rightarrow> Writer \<times> WriteErr option" where
  "Fprintf w s =
     (if w_left w = Some 0 then (w, Some WriteFailed)
      else (w\<lparr>w_out := w_out w @ s, w_left := map_option (\<lambda>n. n - 1) (w_left w)\<rparr>, None))"

abbreviation newline :: string where "newline \<equiv> [char_of (10 :: nat)]"

text \<open>The text of a field: \<open><NAME:LEN:TYPE>VALUE\<close> or \<open><NAME:LEN>VALUE\<close>, and the line end.\<close>

definition field_tag :: "Field \<Rightarrow> string" where
  "field_tag f =
     (if f_Type f \<noteq> []
      then ''<'' @ f_Name f @ '':'' @ show_nat (length (f_Value f)) @ '':'' @ f_Type f @ ''>'' @ f_Value f
      else ''<'' @ f_Name f @ '':'' @ show_nat (length (f_Value f)) @ ''>'' @ f_Value f)"

definition writeField :: "Writer \<Rightarrow> Field \<Rightarrow> Writer \<times> WriteErr option" where
  "writeField w f = Fprintf w (field_tag f @ newline)"

fun write_fields :: "Writer \<Rightarrow> Field list \<Rightarrow> Writer \<times> WriteErr option" where
  "write_fields w [] = (w, None)"
| "write_fields w (f # fs) =
     (case writeField w f of (w1, Some e) \<Rightarrow> (w1, Some e) | (w1, None) \<Rightarrow> write_fields w1 fs)"

definition standardFields :: "string \<Rightarrow> Field list" where
  "standardFields ver =
     [mk_field ''ADIF_VER'' ADIFVersion, mk_field ''PROGRAMID'' ProgramID, mk_field ''PROGRAMVERSION'' ver]"

definition WriteHeader :: "Writer \<Rightarrow> Field list \<Rightarrow> Writer \<times> WriteErr option" where
  "WriteHeader w0 extraFields =
     (if w_headerWritten w0 then (w0, None)
      else
        let w = w0\<lparr>w_headerWritten := True\<rparr> in
        if \<not> wo_IncludeHeader (w_opts w) then (w, None)
        else
          (case Fprintf w (''RadioLedger ADIF Export'' @ newline) of
             (w1, Some _) \<Rightarrow> (w1, Some PreambleFailed)
           | (w1, None) \<Rightarrow>
               (case write_fields w1 (standardFields (wo_ProgramVersion (w_opts w))) of
                  (w2, Some e) \<Rightarrow> (w2, Some e)
                | (w2, None) \<Rightarrow>
                    (case write_fields w2 extraFields of
                       (w3, Some e) \<Rightarrow> (w3, Some e)
                     | (w3, None) \<Rightarrow> Fprintf w3 (''<EOH>'' @ newline @ newline)))))"


section \<open>The canonical field order\<close>

definition posMap :: "(string \<times> int) list" where
  "posMap = zip CanonicalFieldOrder (map int [0..<length CanonicalFieldOrder])"

record indexedField =
  ix_f :: Field
  ix_pos :: int
  ix_isApp :: bool
  ix_isKnown :: bool

definition index_field :: "Field \<Rightarrow> indexedField" where
  "index_field f =
     \<lparr>ix_f = f,
      ix_pos = (case map_of posMap (f_Name f) of Some p \<Rightarrow> p | None \<Rightarrow> 0),
      ix_isApp = HasPrefix (f_Name f) ''APP_'',
      ix_isKnown = has_key posMap (f_Name f)\<rparr>"

definition index_less :: "indexedField \<Rightarrow> indexedField \<Rightarrow> bool" where
  "index_less a b =
     (if ix_isApp a \<noteq> ix_isApp b then \<not> ix_isApp a
      else if ix_isApp a \<and> ix_isApp b then f_Name (ix_f a) < f_Name (ix_f b)
      else if ix_isKnown a \<and> ix_isKnown b then ix_pos a < ix_pos b
      else if ix_isKnown a \<noteq> ix_isKnown b then ix_isKnown a
      else f_Name (ix_f a) < f_Name (ix_f b))"

definition sortFields :: "Field list \<Rightarrow> Field list" where
  "sortFields fs = map ix_f (SliceStable index_less (map index_field fs))"


section \<open>Records\<close>

definition export_fields :: "Record \<Rightarrow> Field list" where
  "export_fields rec = sortFields (r_Fields (fst (CanonicalizeRecordMode (Record_Clone rec))))"

definition WriteRecord :: "Writer \<Rightarrow> Record \<Rightarrow> Writer \<times> WriteErr option" where
  "WriteRecord w0 rec =
     (case (if w_headerWritten w0 then (w0, None) else WriteHeader w0 []) of
        (w, Some e) \<Rightarrow> (w, Some e)
      | (w, None) \<Rightarrow>
          (case write_fields w (export_fields rec) of
             (w1, Some e) \<Rightarrow> (w1, Some e)
           | (w1, None) \<Rightarrow> Fprintf w1 (''<EOR>'' @ newline)))"

fun WriteRecords :: "Writer \<Rightarrow> Record list \<Rightarrow> Writer \<times> WriteErr option" where
  "WriteRecords w [] = (w, None)"
| "WriteRecords w (r # rs) =
     (case WriteRecord w r of (w1, Some e) \<Rightarrow> (w1, Some e) | (w1, None) \<Rightarrow> WriteRecords w1 rs)"

definition FormatRecord :: "Record \<Rightarrow> string" where
  "FormatRecord rec =
     w_out (fst (WriteRecord
       (NewWriterWithOptions None \<lparr>wo_ProgramVersion = [], wo_FieldsPerLine = 0, wo_IncludeHeader = False\<rparr>) rec))"

definition extra_header_fields :: "Header option \<Rightarrow> Field list" where
  "extra_header_fields header =
     (case header of
        None \<Rightarrow> []
      | Some h \<Rightarrow> filter (\<lambda>f. ToUpper (f_Name f) \<notin> {''ADIF_VER'', ''PROGRAMID'', ''PROGRAMVERSION''}) (h_Fields h))"

definition FormatAll :: "Header option \<Rightarrow> Record list \<Rightarrow> string \<Rightarrow> WriteErr + string" where
  "FormatAll header records programVersion =
     (let w = NewWriterWithOptions None
                \<lparr>wo_ProgramVersion = programVersion, wo_FieldsPerLine = 0, wo_IncludeHeader = True\<rparr> in
      case WriteHeader w (extra_header_fields header) of
        (w1, Some e) \<Rightarrow> Inl e
      | (w1, None) \<Rightarrow>
          (case WriteRecords w1 records of
             (w2, Some e) \<Rightarrow> Inl e
           | (w2, None) \<Rightarrow> Inr (w_out w2)))"


section \<open>The comparison is a strict weak order\<close>

definition field_less :: "Field \<Rightarrow> Field \<Rightarrow> bool" where
  "field_less a b = index_less (index_field a) (index_field b)"

text \<open>Group of a field: canonical fields, other fields, \<open>APP_\<close> fields.\<close>

definition field_group :: "Field \<Rightarrow> nat" where
  "field_group f = (if HasPrefix (f_Name f) ''APP_'' then 2 else if has_key posMap (f_Name f) then 0 else 1)"

definition field_pos :: "Field \<Rightarrow> int" where
  "field_pos f = (case map_of posMap (f_Name f) of Some p \<Rightarrow> p | None \<Rightarrow> 0)"

lemma field_less_alt:
  "field_less a b \<longleftrightarrow>
     field_group a < field_group b
     \<or> field_group a = field_group b \<and> (if field_group a = 0 then field_pos a < field_pos b else f_Name a < f_Name b)"
proof -
  define app where "app f = HasPrefix (f_Name f) ''APP_''" for f :: Field
  define kn where "kn f = has_key posMap (f_Name f)" for f :: Field
  show ?thesis
    by (cases "app a"; cases "app b"; cases "kn a"; cases "kn b")
       (simp_all add: field_less_def index_less_def index_field_def field_group_def field_pos_def app_def kn_def)
qed

interpretation field_order: strict_weak_order field_less
proof
  fix x y z
  show "field_less x y \<Longrightarrow> \<not> field_less y x"
    by (cases "field_group x = field_group y") (auto simp: field_less_alt split: if_splits)
  show "field_less x z \<Longrightarrow> field_less x y \<or> field_less y z"
    by (cases "field_group x = 0"; cases "field_group y = field_group x"; cases "field_group z = field_group x")
       (force simp: field_less_alt)+
qed

lemma SliceStable_map: "SliceStable lt (map g xs) = map g (SliceStable (\<lambda>a b. lt (g a) (g b)) xs)"
proof -
  have "insert_by lt (g x) (map g ys) = map g (insert_by (\<lambda>a b. lt (g a) (g b)) x ys)" for x ys
    by (induction ys) auto
  then show ?thesis by (induction xs) auto
qed

lemma sortFields_alt: "sortFields fs = SliceStable field_less fs"
proof -
  have "map ix_f (map index_field xs) = xs" for xs by (induction xs) (auto simp: index_field_def)
  moreover have "(\<lambda>a b. index_less (index_field a) (index_field b)) = field_less"
    by (intro ext) (simp add: field_less_def)
  ultimately show ?thesis by (simp add: sortFields_def SliceStable_map del: map_map)
qed

text \<open>Fields of one name keep their order, so the first field of a name stays the first.\<close>

lemma filter_name_sortFields: "filter (\<lambda>f. f_Name f = n) (sortFields fs) = filter (\<lambda>f. f_Name f = n) fs"
proof (cases "\<exists>f \<in> set fs. f_Name f = n")
  case False
  then show ?thesis by (auto simp: sortFields_alt filter_empty_conv)
next
  case True
  then obtain f :: Field where f: "f_Name f = n" by blast
  have sub: "filter (\<lambda>f. f_Name f = n) xs = filter (\<lambda>f. f_Name f = n) (filter (field_order.same f) xs)" for xs
  proof -
    have "f_Name g = n \<Longrightarrow> field_order.same f g" for g
      using f by (simp add: field_order.same_def field_less_alt field_group_def field_pos_def)
    then show ?thesis by (metis (mono_tags, lifting) filter_cong filter_filter)
  qed
  show ?thesis
    by (subst (1 2) sub) (simp add: sortFields_alt field_order.filter_SliceStable)
qed

lemma first_field_filter_name: "first_field n fs = first_field n (filter (\<lambda>f. f_Name f = n) fs)"
  by (induction fs) auto

lemma first_field_sortFields: "first_field n (sortFields fs) = first_field n fs"
  by (metis filter_name_sortFields first_field_filter_name)

lemma set_sortFields [simp]: "set (sortFields fs) = set fs"
  by (simp add: sortFields_alt)

lemma mset_sortFields: "mset (sortFields fs) = mset fs"
  by (simp add: sortFields_alt)

lemma sortFields_idem: "sortFields (sortFields fs) = sortFields fs"
  by (simp add: sortFields_alt field_order.SliceStable_idem)

end
