(* ===== verification/Utf8.thy ===== *)
theory Utf8
  imports Go_Prelude
begin

text \<open>
  The functions of \<open>unicode/utf8\<close> and \<open>strings\<close> that the ADIF parser relies on to
  turn foreign bytes into valid UTF-8: \<open>utf8.ValidString\<close> and \<open>strings.ToValidUTF8\<close>.
  Both are exact on every byte sequence: \<open>rune_len\<close> is the width of the first rune
  when the bytes start with a well-formed encoding (overlong forms, surrogates and
  values above U+10FFFF are rejected, as in Go), and 0 when \<open>utf8.DecodeRuneInString\<close>
  reports \<open>RuneError\<close> with width 1.
\<close>

definition in_range :: "nat \<Rightarrow> nat \<Rightarrow> char \<Rightarrow> bool" where
  "in_range lo hi c \<longleftrightarrow> lo \<le> byte c \<and> byte c \<le> hi"

abbreviation is_cont :: "char \<Rightarrow> bool" where
  "is_cont \<equiv> in_range 0x80 0xBF"

text \<open>The width announced by a lead byte (0: not a lead byte), and its range for the second byte.\<close>

definition rune_width :: "char \<Rightarrow> nat" where
  "rune_width b =
     (let n = byte b in
      if n < 0x80 then 1 else if n < 0xC2 then 0 else if n < 0xE0 then 2
      else if n < 0xF0 then 3 else if n < 0xF5 then 4 else 0)"

definition second_ok :: "char \<Rightarrow> char \<Rightarrow> bool" where
  "second_ok b c =
     (let n = byte b in
      in_range (if n = 0xE0 then 0xA0 else if n = 0xF0 then 0x90 else 0x80)
               (if n = 0xED then 0x9F else if n = 0xF4 then 0x8F else 0xBF) c)"

definition conts_ok :: "char \<Rightarrow> string \<Rightarrow> bool" where
  "conts_ok b cs = (case cs of [] \<Rightarrow> True | c # r \<Rightarrow> second_ok b c \<and> list_all is_cont r)"

definition rune_len :: "string \<Rightarrow> nat" where
  "rune_len s =
     (case s of [] \<Rightarrow> 0
      | b # bs \<Rightarrow>
          if rune_width b \<le> length s \<and> conts_ok b (take (rune_width b - 1) bs)
          then rune_width b else 0)"

lemma rune_len_le: "rune_len s \<le> length s"
  by (auto simp: rune_len_def split: list.splits)

function ValidString :: "string \<Rightarrow> bool" where
  "ValidString s =
     (if s = [] then True
      else if rune_len s = 0 then False
      else ValidString (drop (rune_len s) s))"
  by pat_completeness auto
termination
  by (relation "measure length") auto

declare ValidString.simps [simp del]

function to_valid_loop :: "string \<Rightarrow> bool \<Rightarrow> string \<Rightarrow> string" where
  "to_valid_loop repl invalid s =
     (if s = [] then []
      else if rune_len s = 0 then (if invalid then [] else repl) @ to_valid_loop repl True (tl s)
      else take (rune_len s) s @ to_valid_loop repl False (drop (rune_len s) s))"
  by pat_completeness auto
termination
  by (relation "measure (\<lambda>(_, _, s). length s)") auto

declare to_valid_loop.simps [simp del]

definition ToValidUTF8 :: "string \<Rightarrow> string \<Rightarrow> string" where
  "ToValidUTF8 s repl = to_valid_loop repl False s"

text \<open>\<open>"\uFFFD"\<close>\<close>

definition replacement_char :: string where
  "replacement_char = map char_of [0xEF, 0xBF, 0xBD :: nat]"

lemmas utf8_defs [go_defs] = in_range_def rune_width_def second_ok_def conts_ok_def rune_len_def ToValidUTF8_def replacement_char_def

lemma ValidString_Nil [simp]: "ValidString []"
  by (simp add: ValidString.simps)

lemma to_valid_loop_Nil [simp]: "to_valid_loop repl ivd [] = []"
  by (simp add: to_valid_loop.simps)

lemma rune_len_take_append:
  "0 < rune_len s \<Longrightarrow> rune_len (take (rune_len s) s @ t) = rune_len s"
  by (cases "rune_width (hd s)")
     (auto simp: rune_len_def take_Cons' min_def split: list.splits if_splits)

lemma ValidString_rune_append:
  assumes "0 < rune_len s"
  shows "ValidString (take (rune_len s) s @ t) = ValidString t"
proof -
  have "take (rune_len s) s @ t \<noteq> []" using assms rune_len_le [of s] by (cases s) auto
  moreover have "drop (rune_len s) (take (rune_len s) s @ t) = t" using rune_len_le [of s] by simp
  ultimately show ?thesis
    using assms rune_len_take_append [OF assms]
    by (simp add: ValidString.simps [of "take (rune_len s) s @ t"])
qed

lemma ValidString_append: "ValidString a \<Longrightarrow> ValidString b \<Longrightarrow> ValidString (a @ b)"
proof (induction a rule: ValidString.induct)
  case (1 s)
  show ?case
  proof (cases "s = []")
    case False
    with 1 have n: "rune_len s \<noteq> 0" "ValidString (drop (rune_len s) s)"
      by (auto simp: ValidString.simps [of s] split: if_splits)
    with 1 False have "ValidString (drop (rune_len s) s @ b)" by blast
    then have "ValidString (take (rune_len s) s @ drop (rune_len s) s @ b)"
      using n by (simp add: ValidString_rune_append del: append_take_drop_id)
    then show ?thesis by (metis append.assoc append_take_drop_id)
  qed (use 1 in simp)
qed

lemma ValidString_ascii: "list_all (\<lambda>c. byte c < 128) s \<Longrightarrow> ValidString s"
proof (induction s)
  case (Cons c s)
  then show ?case by (simp add: ValidString.simps [of "c # s"] rune_len_def rune_width_def conts_ok_def)
qed simp

lemma ValidString_replacement_char: "ValidString replacement_char"
  by (simp add: ValidString.simps [of replacement_char]) 
     (simp add: replacement_char_def utf8_defs)

lemma to_valid_loop_valid: "ValidString repl \<Longrightarrow> ValidString (to_valid_loop repl ivd s)"
proof (induction repl ivd s rule: to_valid_loop.induct)
  case (1 repl ivd s)
  then show ?case
    by (auto simp: to_valid_loop.simps [of repl ivd s] ValidString_rune_append ValidString_append)
qed

lemma ToValidUTF8_valid: "ValidString (ToValidUTF8 s replacement_char)"
  by (simp add: ToValidUTF8_def to_valid_loop_valid ValidString_replacement_char)

lemma ToValidUTF8_id: "ValidString s \<Longrightarrow> ToValidUTF8 s repl = s"
  unfolding ToValidUTF8_def
proof (induction s rule: ValidString.induct)
  case (1 s)
  then show ?case
    by (cases "s = []")
       (auto simp: to_valid_loop.simps [of repl False s] ValidString.simps [of s] split: if_splits)
qed

end
