(* ===== verification/Adif_Parser.thy ===== *)
theory Adif_Parser
  imports Utf8 Adif_Record
begin

text \<open>
  \<open>pkg/adif/parser.go\<close>: the streaming ADI parser.

  The buffered reader is the list of bytes not yet read together with the error the
  underlying reader reports after the last of them (\<open>io.EOF\<close>, or a read error that
  is reported again on every further read).  The context is the number of
  \<open>ctx.Err()\<close> polls that still return nil (\<^const>\<open>None\<close>: never cancelled); once it is
  cancelled it stays so.  \<open>decode\<close> stands for the Windows-1252 decoder of
  \<open>golang.org/x/text\<close>: \<^const>\<open>None\<close> is its error return.
\<close>

datatype Err = EOF | ReadError string | CtxError | ParseError int string | ErrTooManyRecords

record ParserOptions =
  po_MaxFieldLen :: int
  po_MaxRecords :: int

record Parser =
  p_r :: bytes
  p_rerr :: Err
  p_ctx :: "nat option"
  p_opts :: ParserOptions
  p_headerDone :: bool
  p_header :: "Header option"
  p_recordCount :: int
  p_offset :: int
  p_prefetchedFields :: "Field list"
  p_hasPrefetch :: bool
  p_atEOF :: bool

datatype endMarker = markerNone | markerEOR | markerEOH

definition DefaultMaxFieldLen :: int where "DefaultMaxFieldLen = 10 * 1024 * 1024"

definition DefaultMaxRecords :: int where "DefaultMaxRecords = 500000"

definition NewParserWithOptions :: "bytes \<Rightarrow> Err \<Rightarrow> nat option \<Rightarrow> ParserOptions \<Rightarrow> Parser" where
  "NewParserWithOptions r rerr ctx opts =
     \<lparr>p_r = r, p_rerr = rerr, p_ctx = ctx,
      p_opts = \<lparr>po_MaxFieldLen = (if po_MaxFieldLen opts \<le> 0 then DefaultMaxFieldLen else po_MaxFieldLen opts),
                po_MaxRecords = (if po_MaxRecords opts \<le> 0 then DefaultMaxRecords else po_MaxRecords opts)\<rparr>,
      p_headerDone = False, p_header = None, p_recordCount = 0, p_offset = 0,
      p_prefetchedFields = [], p_hasPrefetch = False, p_atEOF = False\<rparr>"

definition NewParser :: "bytes \<Rightarrow> Err \<Rightarrow> nat option \<Rightarrow> Parser" where
  "NewParser r rerr ctx = NewParserWithOptions r rerr ctx \<lparr>po_MaxFieldLen = 0, po_MaxRecords = 0\<rparr>"

text \<open>\<open>ctx.Err() != nil\<close>, and the parser after the poll.\<close>

definition ctx_Err :: "Parser \<Rightarrow> bool \<times> Parser" where
  "ctx_Err p = (p_ctx p = Some 0, p\<lparr>p_ctx := map_option (\<lambda>n. n - 1) (p_ctx p)\<rparr>)"

text \<open>Reading \<open>n\<close> bytes off the reader: they are consumed and counted in \<open>offset\<close>.\<close>

definition advance :: "nat \<Rightarrow> Parser \<Rightarrow> Parser" where
  "advance n p = p\<lparr>p_r := drop n (p_r p), p_offset := p_offset p + int n\<rparr>"

definition findNextTag :: "Parser \<Rightarrow> Parser \<times> (Err + string)" where
  "findNextTag p =
     (case cut (CHR ''<'') (p_r p) of
        (skipped, None) \<Rightarrow> (advance (length skipped) p, Inl (p_rerr p))
      | (skipped, Some rest) \<Rightarrow>
          (let p1 = advance (length skipped + 1) p in
           case cut (CHR ''>'') rest of
             (content, Some _) \<Rightarrow> (advance (length content + 1) p1, Inr content)
           | (content, None) \<Rightarrow>
               (let p2 = advance (length content) p1 in
                if p_rerr p = EOF then (p2, Inr content) else (p2, Inl (p_rerr p)))))"

text \<open>\<open>(name, length, dataType)\<close>, or \<^const>\<open>None\<close> for an error (its only caller drops the message).\<close>

definition parseTag :: "string \<Rightarrow> (string \<times> int \<times> string) option" where
  "parseTag tag0 =
     (let tag = TrimSpace tag0 in
      if tag = [] then None
      else if CHR '':'' \<notin> set tag then Some (tag, 0, [])
      else
        let parts = SplitN (CHR '':'') 3 tag; name = TrimSpace (parts ! 0) in
        if name = [] then None
        else (case ParseInt (TrimSpace (parts ! 1)) of
                None \<Rightarrow> None
              | Some len \<Rightarrow>
                  if len < 0 then None
                  else Some (name, len, if length parts = 3 then TrimSpace (parts ! 2) else [])))"

definition readFieldValue :: "int \<Rightarrow> Parser \<Rightarrow> Parser \<times> string \<times> Err option" where
  "readFieldValue n p =
     (if n = 0 then (p, [], None)
      else if n \<le> int (length (p_r p)) then (advance (nat n) p, take (nat n) (p_r p), None)
      else (advance (length (p_r p)) p, p_r p, Some (p_rerr p)))"

definition sanitizeEncoding :: "(string \<Rightarrow> string option) \<Rightarrow> string \<Rightarrow> string" where
  "sanitizeEncoding decode s =
     (if ValidString s then s
      else (case decode s of
              Some decoded \<Rightarrow> if ValidString decoded then decoded else ToValidUTF8 s replacement_char
            | None \<Rightarrow> ToValidUTF8 s replacement_char))"

definition too_long_message :: "string \<Rightarrow> int \<Rightarrow> int \<Rightarrow> string" where
  "too_long_message name len mx =
     ''field '' @ name @ '' claims length '' @ show_int len @ '' which exceeds maximum '' @ show_int mx"


section \<open>Every read makes progress\<close>

lemma advance_simps [simp]:
  "p_r (advance n p) = drop n (p_r p)" "p_rerr (advance n p) = p_rerr p" "p_ctx (advance n p) = p_ctx p"
  "p_opts (advance n p) = p_opts p" "p_recordCount (advance n p) = p_recordCount p"
  "p_hasPrefetch (advance n p) = p_hasPrefetch p" "p_atEOF (advance n p) = p_atEOF p"
  "p_headerDone (advance n p) = p_headerDone p" "p_header (advance n p) = p_header p"
  "p_prefetchedFields (advance n p) = p_prefetchedFields p"
  "p_offset (advance n p) = p_offset p + int n"
  by (simp_all add: advance_def)

lemma ctx_Err_simps [simp]:
  "p_r (snd (ctx_Err p)) = p_r p" "p_rerr (snd (ctx_Err p)) = p_rerr p"
  "p_opts (snd (ctx_Err p)) = p_opts p" "p_recordCount (snd (ctx_Err p)) = p_recordCount p"
  "p_hasPrefetch (snd (ctx_Err p)) = p_hasPrefetch p" "p_atEOF (snd (ctx_Err p)) = p_atEOF p"
  "p_headerDone (snd (ctx_Err p)) = p_headerDone p" "p_header (snd (ctx_Err p)) = p_header p"
  "p_prefetchedFields (snd (ctx_Err p)) = p_prefetchedFields p" "p_offset (snd (ctx_Err p)) = p_offset p"
  by (simp_all add: ctx_Err_def)

lemma cut_length: "cut c s = (a, Some b) \<Longrightarrow> length s = length a + 1 + length b"
proof -
  assume *: "cut c s = (a, Some b)"
  then have "c \<in> set s" by (auto simp: cut_def split: if_splits)
  then obtain u v where "s = u @ c # v" "c \<notin> set u" by (meson split_list_first)
  with * show ?thesis by (simp add: cut_hit)
qed

lemma findNextTag_progress:
  "findNextTag p = (p', Inr tag) \<Longrightarrow> length (p_r p') < length (p_r p)"
  by (auto simp: findNextTag_def Let_def split: prod.splits option.splits if_splits dest!: cut_length)

lemma findNextTag_le: "length (p_r (fst (findNextTag p))) \<le> length (p_r p)"
  by (auto simp: findNextTag_def Let_def split: prod.splits option.splits)

lemma readFieldValue_le: "length (p_r (fst (readFieldValue n p))) \<le> length (p_r p)"
  by (auto simp: readFieldValue_def)

lemma readFieldValue_le': "readFieldValue n p = (p', v, e) \<Longrightarrow> length (p_r p') \<le> length (p_r p)"
  using readFieldValue_le [of n p] by simp


section \<open>scanFields\<close>

type_synonym scan_result = "Parser \<times> Field list \<times> endMarker \<times> Err option"

text \<open>
  One round of the loop of \<open>scanFields\<close> with the fields collected so far:
  \<^const>\<open>Inl\<close> returns, \<^const>\<open>Inr\<close> goes round again.  The parameter \<open>isHeader\<close> is not
  read by the source and is left out.
\<close>

definition scan_step :: "(string \<Rightarrow> string option) \<Rightarrow> Parser \<Rightarrow> Field list \<Rightarrow> scan_result + (Parser \<times> Field list)"
where
  "scan_step decode p0 flds =
     (let p = snd (ctx_Err p0) in
      if fst (ctx_Err p0) then Inl (p, flds, markerNone, Some CtxError)
      else (case findNextTag p of
        (p1, Inl err) \<Rightarrow> Inl (p1, flds, markerNone, Some err)
      | (p1, Inr tag) \<Rightarrow>
          (case parseTag tag of
             None \<Rightarrow> Inr (p1, flds)
           | Some (name, len, dataType) \<Rightarrow>
               (let upper = ToUpper name in
                if upper = ''EOR'' then Inl (p1, flds, markerEOR, None)
                else if upper = ''EOH'' then Inl (p1, flds, markerEOH, None)
                else if po_MaxFieldLen (p_opts p1) < len then
                  Inl (p1, [], markerNone,
                       Some (ParseError (p_offset p1) (too_long_message name len (po_MaxFieldLen (p_opts p1)))))
                else
                  (case readFieldValue len p1 of
                     (p2, raw, readErr) \<Rightarrow>
                       (let value = sanitizeEncoding decode raw;
                            flds' = (if upper \<noteq> []
                                     then flds @ [\<lparr>f_Name = upper, f_Value = value, f_Type = dataType\<rparr>]
                                     else flds) in
                        case readErr of
                          Some err \<Rightarrow> Inl (p2, flds', markerNone, Some err)
                        | None \<Rightarrow> Inr (p2, flds')))))))"

text \<open>The part of the parser that \<open>scanFields\<close> leaves alone: all but the reader, the context and the offset.\<close>

definition frame :: "Parser \<Rightarrow> Err \<times> ParserOptions \<times> bool \<times> Header option \<times> int \<times> Field list \<times> bool \<times> bool" where
  "frame p = (p_rerr p, p_opts p, p_headerDone p, p_header p, p_recordCount p,
              p_prefetchedFields p, p_hasPrefetch p, p_atEOF p)"

lemma frame_advance [simp]: "frame (advance n p) = frame p"
  and frame_ctx_Err [simp]: "frame (snd (ctx_Err p)) = frame p"
  by (simp_all add: frame_def)

lemma findNextTag_frame: "findNextTag p = (p', x) \<Longrightarrow> frame p' = frame p \<and> length (p_r p') \<le> length (p_r p)"
  by (auto simp: findNextTag_def Let_def split: prod.splits option.splits if_splits)

lemma readFieldValue_frame: "readFieldValue n p = (p', v, e) \<Longrightarrow> frame p' = frame p \<and> length (p_r p') \<le> length (p_r p)"
  by (auto simp: readFieldValue_def split: if_splits)

lemma scan_step_Inr:
  assumes "scan_step decode p flds = Inr (p', flds')"
  shows "frame p' = frame p" and "length (p_r p') < length (p_r p)"
  using assms
  by (auto simp: scan_step_def Let_def split: prod.splits sum.splits option.splits if_splits
           dest!: readFieldValue_frame)
     (auto dest: findNextTag_frame findNextTag_progress)

lemma scan_step_Inl:
  assumes "scan_step decode p flds = Inl (p', flds', m, e)"
  shows "frame p' = frame p" and "length (p_r p') \<le> length (p_r p)"
    and "m \<noteq> markerNone \<Longrightarrow> length (p_r p') < length (p_r p)"
    and "m \<noteq> markerNone \<longleftrightarrow> e = None"
  using assms
  by (auto simp: scan_step_def Let_def split: prod.splits sum.splits option.splits if_splits
           dest!: readFieldValue_frame)
     (auto dest: findNextTag_frame findNextTag_progress)

function scan_loop :: "(string \<Rightarrow> string option) \<Rightarrow> Parser \<Rightarrow> Field list \<Rightarrow> scan_result" where
  "scan_loop decode p flds =
     (case scan_step decode p flds of Inl r \<Rightarrow> r | Inr (p', flds') \<Rightarrow> scan_loop decode p' flds')"
  by pat_completeness auto
termination
  by (relation "measure (\<lambda>(_, p, _). length (p_r p))") (auto dest: scan_step_Inr)

declare scan_loop.simps [simp del]

definition scanFields :: "(string \<Rightarrow> string option) \<Rightarrow> Parser \<Rightarrow> scan_result" where
  "scanFields decode p = scan_loop decode p []"

text \<open>The loop returns what some round returned, from a parser reached by going round.\<close>

lemma scan_loop_Inl: "scan_step decode p flds = Inl r \<Longrightarrow> scan_loop decode p flds = r"
  and scan_loop_Inr: "scan_step decode p flds = Inr (p', flds') \<Longrightarrow>
         scan_loop decode p flds = scan_loop decode p' flds'"
  by (simp_all add: scan_loop.simps [of decode p flds])

lemma scan_loop_frame:
  "scan_loop decode p flds = (p', flds', m, e) \<Longrightarrow>
   frame p' = frame p \<and> length (p_r p') \<le> length (p_r p)
   \<and> (m \<noteq> markerNone \<longrightarrow> length (p_r p') < length (p_r p)) \<and> (m \<noteq> markerNone \<longleftrightarrow> e = None)"
proof (induction decode p flds rule: scan_loop.induct)
  case (1 decode p flds)
  show ?case
  proof (cases "scan_step decode p flds")
    case (Inl r)
    with 1 show ?thesis using scan_step_Inl [of decode p flds p' flds' m e] by (simp add: scan_loop_Inl)
  next
    case (Inr q)
    obtain p1 flds1 where q: "q = (p1, flds1)" by (cases q)
    note step = scan_step_Inr [OF Inr [unfolded q]]
    have "scan_loop decode p1 flds1 = (p', flds', m, e)" using "1.prems" Inr q by (simp add: scan_loop_Inr)
    then have "frame p' = frame p1 \<and> length (p_r p') \<le> length (p_r p1)
       \<and> (m \<noteq> markerNone \<longrightarrow> length (p_r p') < length (p_r p1)) \<and> (m \<noteq> markerNone \<longleftrightarrow> e = None)"
      using "1.IH" Inr q by blast
    with step show ?thesis by auto
  qed
qed

lemmas scanFields_frame = scan_loop_frame [where flds = "[]", folded scanFields_def]


section \<open>Header, Next and ParseAll\<close>

definition utf8_bom :: string where
  "utf8_bom = map char_of [0xEF, 0xBB, 0xBF :: nat]"

definition strip_bom :: "Parser \<Rightarrow> Parser" where
  "strip_bom p = (if 3 \<le> length (p_r p) \<and> take 3 (p_r p) = utf8_bom then advance 3 p else p)"

text \<open>\<open>Header\<close> returns the cached header pointer (nil after a failed first call) once it was called.\<close>

definition Parser_Header :: "(string \<Rightarrow> string option) \<Rightarrow> Parser \<Rightarrow> Parser \<times> (Err + Header option)" where
  "Parser_Header decode p =
     (if p_headerDone p then (p, Inr (p_header p))
      else
        (case scanFields decode (strip_bom (p\<lparr>p_headerDone := True\<rparr>)) of
           (p1, flds, marker, err) \<Rightarrow>
             (case err of
                Some e \<Rightarrow>
                  if e \<noteq> EOF then (p1, Inl e)
                  else if marker = markerEOH then
                    (p1\<lparr>p_atEOF := True, p_header := Some \<lparr>h_Fields = flds\<rparr>\<rparr>, Inr (Some \<lparr>h_Fields = flds\<rparr>))
                  else if marker = markerEOR then
                    (p1\<lparr>p_prefetchedFields := flds, p_hasPrefetch := (flds \<noteq> []), p_header := Some \<lparr>h_Fields = []\<rparr>\<rparr>,
                     Inr (Some \<lparr>h_Fields = []\<rparr>))
                  else
                    (p1\<lparr>p_prefetchedFields := flds, p_hasPrefetch := (flds \<noteq> []), p_atEOF := True,
                        p_header := Some \<lparr>h_Fields = []\<rparr>\<rparr>,
                     Inr (Some \<lparr>h_Fields = []\<rparr>))
              | None \<Rightarrow>
                  if marker = markerEOH then
                    (p1\<lparr>p_header := Some \<lparr>h_Fields = flds\<rparr>\<rparr>, Inr (Some \<lparr>h_Fields = flds\<rparr>))
                  else if marker = markerEOR then
                    (p1\<lparr>p_prefetchedFields := flds, p_hasPrefetch := (flds \<noteq> []), p_header := Some \<lparr>h_Fields = []\<rparr>\<rparr>,
                     Inr (Some \<lparr>h_Fields = []\<rparr>))
                  else
                    (p1\<lparr>p_prefetchedFields := flds, p_hasPrefetch := (flds \<noteq> []), p_atEOF := True,
                        p_header := Some \<lparr>h_Fields = []\<rparr>\<rparr>,
                     Inr (Some \<lparr>h_Fields = []\<rparr>)))))"

definition take_prefetch :: "Parser \<Rightarrow> Parser \<times> Field list" where
  "take_prefetch p =
     (if p_hasPrefetch p then (p\<lparr>p_hasPrefetch := False, p_prefetchedFields := []\<rparr>, p_prefetchedFields p)
      else (p, []))"

definition emit :: "Parser \<Rightarrow> Field list \<Rightarrow> Parser \<times> (Err + Record)" where
  "emit p flds = (p\<lparr>p_recordCount := p_recordCount p + 1\<rparr>, Inr \<lparr>r_Fields = flds\<rparr>)"

text \<open>One round of the loop of \<open>Next\<close>: \<^const>\<open>Inl\<close> returns, \<^const>\<open>Inr\<close> skips an empty record.\<close>

definition next_step :: "(string \<Rightarrow> string option) \<Rightarrow> Parser \<Rightarrow> (Parser \<times> (Err + Record)) + Parser" where
  "next_step decode p0 =
     (let p = snd (ctx_Err p0) in
      if fst (ctx_Err p0) then Inl (p, Inl CtxError)
      else
        let p1 = fst (take_prefetch p); startFields = snd (take_prefetch p) in
        if p_atEOF p1 then
          (if startFields = [] then Inl (p1, Inl EOF) else Inl (emit p1 startFields))
        else
          (case scanFields decode p1 of
             (p2, flds, marker, err) \<Rightarrow>
               (case err of
                  Some e \<Rightarrow>
                    if e \<noteq> EOF then Inl (p2, Inl e)
                    else
                      let p3 = p2\<lparr>p_atEOF := True\<rparr>; allFields = startFields @ flds in
                      if allFields = [] then Inl (p3, Inl EOF) else Inl (emit p3 allFields)
                | None \<Rightarrow>
                    let allFields = startFields @ flds in
                    if allFields \<noteq> [] then Inl (emit p2 allFields)
                    else if marker = markerNone \<or> p_atEOF p2 then Inl (p2, Inl EOF)
                    else Inr p2)))"

lemma take_prefetch_simps [simp]:
  "p_r (fst (take_prefetch p)) = p_r p" "p_opts (fst (take_prefetch p)) = p_opts p"
  "p_recordCount (fst (take_prefetch p)) = p_recordCount p" "p_rerr (fst (take_prefetch p)) = p_rerr p"
  "p_atEOF (fst (take_prefetch p)) = p_atEOF p" "p_headerDone (fst (take_prefetch p)) = p_headerDone p"
  "p_header (fst (take_prefetch p)) = p_header p" "p_ctx (fst (take_prefetch p)) = p_ctx p"
  "\<not> p_hasPrefetch (fst (take_prefetch p))"
  by (simp_all add: take_prefetch_def)

lemma next_step_Inr:
  assumes "next_step decode p = Inr p'"
  shows "length (p_r p') < length (p_r p)" and "p_opts p' = p_opts p" and "p_recordCount p' = p_recordCount p"
proof -
  have "length (p_r p') < length (p_r p) \<and> p_opts p' = p_opts p \<and> p_recordCount p' = p_recordCount p"
    using assms
    by (auto simp: next_step_def Let_def frame_def split: prod.splits option.splits if_splits
             dest!: scanFields_frame)
  then show "length (p_r p') < length (p_r p)" and "p_opts p' = p_opts p"
    and "p_recordCount p' = p_recordCount p" by blast+
qed

function next_loop :: "(string \<Rightarrow> string option) \<Rightarrow> Parser \<Rightarrow> Parser \<times> (Err + Record)" where
  "next_loop decode p = (case next_step decode p of Inl r \<Rightarrow> r | Inr p' \<Rightarrow> next_loop decode p')"
  by pat_completeness auto
termination
  by (relation "measure (\<lambda>(_, p). length (p_r p))") (auto dest: next_step_Inr)

declare next_loop.simps [simp del]

definition next_after_header :: "(string \<Rightarrow> string option) \<Rightarrow> Parser \<Rightarrow> Parser \<times> (Err + Record)" where
  "next_after_header decode p0 =
     (let p = snd (ctx_Err p0) in
      if fst (ctx_Err p0) then (p, Inl CtxError)
      else if p_atEOF p \<and> \<not> p_hasPrefetch p then (p, Inl EOF)
      else if po_MaxRecords (p_opts p) \<le> p_recordCount p then (p, Inl ErrTooManyRecords)
      else next_loop decode p)"

definition Parser_Next :: "(string \<Rightarrow> string option) \<Rightarrow> Parser \<Rightarrow> Parser \<times> (Err + Record)" where
  "Parser_Next decode p =
     (if p_headerDone p then next_after_header decode p
      else (case Parser_Header decode p of
              (p1, Inl e) \<Rightarrow> (p1, Inl e)
            | (p1, Inr _) \<Rightarrow> next_after_header decode p1))"

lemma next_step_emit:
  "next_step decode p = Inl (p', Inr rec) \<Longrightarrow>
   p_recordCount p' = p_recordCount p + 1 \<and> p_opts p' = p_opts p \<and> length (p_r p') \<le> length (p_r p)"
  by (auto simp: next_step_def Let_def frame_def emit_def split: prod.splits option.splits if_splits
           dest!: scanFields_frame)

lemma next_loop_count:
  "next_loop decode p = (p', Inr rec) \<Longrightarrow>
   p_recordCount p' = p_recordCount p + 1 \<and> p_opts p' = p_opts p \<and> length (p_r p') \<le> length (p_r p)"
proof (induction decode p rule: next_loop.induct)
  case (1 decode p)
  show ?case
  proof (cases "next_step decode p")
    case (Inl r)
    with 1 show ?thesis by (auto simp: next_loop.simps [of decode p] dest: next_step_emit)
  next
    case (Inr q)
    with 1 next_step_Inr [OF Inr] show ?thesis by (auto simp: next_loop.simps [of decode p])
  qed
qed

lemma strip_bom_simps [simp]: "frame (strip_bom p) = frame p" "length (p_r (strip_bom p)) \<le> length (p_r p)"
  by (simp_all add: strip_bom_def)

lemma Parser_Header_count:
  assumes "Parser_Header decode p = (p', h)"
  shows "p_recordCount p' = p_recordCount p \<and> p_opts p' = p_opts p"
proof -
  have f: "frame (strip_bom (p\<lparr>p_headerDone := True\<rparr>)) = frame (p\<lparr>p_headerDone := True\<rparr>)" by simp
  show ?thesis
    using assms f
    by (auto simp: Parser_Header_def frame_def split: prod.splits option.splits if_splits
             dest!: scanFields_frame)
qed

lemma next_after_header_count:
  "next_after_header decode p = (p', Inr rec) \<Longrightarrow>
   p_recordCount p' = p_recordCount p + 1 \<and> p_recordCount p < po_MaxRecords (p_opts p) \<and> p_opts p' = p_opts p"
  by (auto simp: next_after_header_def Let_def split: if_splits dest!: next_loop_count)

lemma Parser_Next_count:
  assumes "Parser_Next decode p = (p', Inr rec)"
  shows "p_recordCount p' = p_recordCount p + 1 \<and> p_recordCount p < po_MaxRecords (p_opts p) \<and> p_opts p' = p_opts p"
  using assms
  by (auto simp: Parser_Next_def split: prod.splits sum.splits if_splits
           dest!: next_after_header_count Parser_Header_count)

text \<open>The loop of \<open>ParseAll\<close>, with the records read so far; it ends because \<open>Next\<close> counts its records.\<close>

function parse_loop :: "(string \<Rightarrow> string option) \<Rightarrow> Parser \<Rightarrow> Record list \<Rightarrow> Record list \<times> Err option" where
  "parse_loop decode p records =
     (case Parser_Next decode p of
        (p', Inl e) \<Rightarrow> (records, if e = EOF then None else Some e)
      | (p', Inr rec) \<Rightarrow> parse_loop decode p' (records @ [rec]))"
  by pat_completeness auto
termination
  by (relation "measure (\<lambda>(_, p, _). nat (po_MaxRecords (p_opts p) - p_recordCount p))")
     (auto dest!: Parser_Next_count [OF sym])

declare parse_loop.simps [simp del]

definition ParseAll_with :: "(string \<Rightarrow> string option) \<Rightarrow> Parser \<Rightarrow> Header option \<times> Record list \<times> Err option" where
  "ParseAll_with decode p =
     (case Parser_Header decode p of
        (p1, Inl e) \<Rightarrow> (None, [], Some e)
      | (p1, Inr h) \<Rightarrow> (let (records, e) = parse_loop decode p1 [] in (h, records, e)))"

definition ParseAll :: "(string \<Rightarrow> string option) \<Rightarrow> bytes \<Rightarrow> Err \<Rightarrow> nat option \<Rightarrow> Header option \<times> Record list \<times> Err option" where
  "ParseAll decode r rerr ctx = ParseAll_with decode (NewParser r rerr ctx)"

text \<open>\<open>ParseString\<close> and \<open>ParseBytes\<close>: a string reader ends with \<open>io.EOF\<close>.\<close>

definition ParseString :: "(string \<Rightarrow> string option) \<Rightarrow> nat option \<Rightarrow> string \<Rightarrow> Header option \<times> Record list \<times> Err option" where
  "ParseString decode ctx s = ParseAll decode s EOF ctx"

end
