(* ===== verification/Adif_Parser_Inv.thy ===== *)
theory Adif_Parser_Inv
  imports Adif_Parser
begin

text \<open>
  What the ADI parser guarantees on arbitrary input: every field it delivers is
  well-formed (normalised name, valid UTF-8 value), no record is empty, the record
  limit is kept, and an oversized field is refused before its value is read.
\<close>

definition wf_name :: "string \<Rightarrow> bool" where
  "wf_name n \<longleftrightarrow> n \<noteq> [] \<and> upper n \<and> trimmed n \<and> CHR '':'' \<notin> set n \<and> CHR ''>'' \<notin> set n
      \<and> n \<noteq> ''EOR'' \<and> n \<noteq> ''EOH''"

definition wf_type :: "string \<Rightarrow> bool" where
  "wf_type t \<longleftrightarrow> trimmed t \<and> CHR ''>'' \<notin> set t"

definition wf_field :: "Field \<Rightarrow> bool" where
  "wf_field f \<longleftrightarrow> wf_name (f_Name f) \<and> wf_type (f_Type f) \<and> ValidString (f_Value f)"

lemma cut_fst_notin: "cut c s = (a, r) \<Longrightarrow> c \<notin> set a \<and> set a \<subseteq> set s"
  by (auto simp: cut_def dest: set_takeWhileD)

lemma cut_snd_subset: "cut c s = (a, Some b) \<Longrightarrow> set b \<subseteq> set s"
proof -
  assume *: "cut c s = (a, Some b)"
  then have "c \<in> set s" by (auto simp: cut_def split: if_splits)
  then obtain u v where "s = u @ c # v" "c \<notin> set u" by (meson split_list_first)
  with * show ?thesis by (auto simp: cut_hit)
qed

lemma findNextTag_tag: "findNextTag p = (p', Inr tag) \<Longrightarrow> CHR ''>'' \<notin> set tag"
  by (auto simp: findNextTag_def Let_def split: prod.splits option.splits if_splits dest: cut_fst_notin)

lemma upper_char_neq:
  assumes "\<not> is_upper c" "c \<notin> set s" shows "c \<notin> set (ToUpper s)"
  using assms by (auto simp: ToUpper_def upper_char_def is_lower_def is_upper_def split: if_splits)

lemma trimmed_ToUpper: "trimmed s \<Longrightarrow> trimmed (ToUpper s)"
  by (cases "s = []") (auto simp: trimmed_def ToUpper_def hd_map last_map)

lemma colon_no_upper: "\<not> is_upper (CHR '':'')" and gt_no_upper: "\<not> is_upper (CHR ''>'')"
  by (simp_all add: is_upper_def)

lemma TrimSpace_notin: "c \<notin> set s \<Longrightarrow> c \<notin> set (TrimSpace s)"
  using set_TrimSpace by blast

lemma parseTag_wf:
  assumes "parseTag tag = Some (name, len, ty)" and gt: "CHR ''>'' \<notin> set tag"
  shows "name \<noteq> [] \<and> trimmed name \<and> CHR '':'' \<notin> set name \<and> CHR ''>'' \<notin> set name \<and> wf_type ty \<and> 0 \<le> len"
proof (cases "CHR '':'' \<in> set (TrimSpace tag)")
  case False
  then show ?thesis
    using assms TrimSpace_notin [OF gt] by (auto simp: parseTag_def wf_type_def Let_def split: if_splits)
next
  case True
  define s where "s = TrimSpace tag"
  have gts: "CHR ''>'' \<notin> set s" using TrimSpace_notin [OF gt] by (simp add: s_def)
  obtain a b where ab: "cut (CHR '':'') s = (a, Some b)"
    using True by (auto simp: cut_def s_def)
  obtain c d where cd: "cut (CHR '':'') b = (c, d)" by (cases "cut (CHR '':'') b")
  have a: "CHR '':'' \<notin> set a" "CHR ''>'' \<notin> set a" using cut_fst_notin [OF ab] gts by auto
  have b: "CHR ''>'' \<notin> set b" using cut_snd_subset [OF ab] gts by auto
  have d: "d = Some d' \<Longrightarrow> CHR ''>'' \<notin> set d'" for d' using cut_snd_subset [of "CHR '':''" b c d'] cd b by auto
  have "SplitN (CHR '':'') 3 s = (case d of None \<Rightarrow> [a, c] | Some d' \<Rightarrow> [a, c, d'])"
    by (simp add: numeral_3_eq_3 ab cd split: option.splits)
  then show ?thesis
    using assms(1) True a d TrimSpace_notin
    by (auto simp: parseTag_def s_def [symmetric] wf_type_def Let_def split: if_splits option.splits)
qed

lemma sanitizeEncoding_valid: "ValidString (sanitizeEncoding decode s)"
  by (auto simp: sanitizeEncoding_def ToValidUTF8_valid split: option.splits)

lemma scan_step_fields:
  assumes "list_all wf_field flds"
  shows "scan_step decode p flds = Inr (p', flds') \<Longrightarrow> list_all wf_field flds'"
    and "scan_step decode p flds = Inl (p', flds', m, e) \<Longrightarrow> list_all wf_field flds'"
proof -
  have new: "wf_field \<lparr>f_Name = ToUpper name, f_Value = sanitizeEncoding decode v, f_Type = ty\<rparr>"
    if "findNextTag q = (q', Inr tag)" "parseTag tag = Some (name, len, ty)"
       "ToUpper name \<noteq> ''EOR''" "ToUpper name \<noteq> ''EOH''" for q q' tag name len ty v
    using parseTag_wf [OF that(2) findNextTag_tag [OF that(1)]] that(3,4)
    by (simp add: wf_field_def wf_name_def trimmed_ToUpper upper_char_neq colon_no_upper gt_no_upper
          sanitizeEncoding_valid)
  show "scan_step decode p flds = Inr (p', flds') \<Longrightarrow> list_all wf_field flds'"
    using assms
    by (auto simp: scan_step_def Let_def new split: prod.splits sum.splits option.splits if_splits)
  show "scan_step decode p flds = Inl (p', flds', m, e) \<Longrightarrow> list_all wf_field flds'"
    using assms
    by (auto simp: scan_step_def Let_def new split: prod.splits sum.splits option.splits if_splits)
qed

lemma scan_loop_fields:
  "scan_loop decode p flds = (p', flds', m, e) \<Longrightarrow> list_all wf_field flds \<Longrightarrow> list_all wf_field flds'"
proof (induction decode p flds rule: scan_loop.induct)
  case (1 decode p flds)
  then show ?case
    by (cases "scan_step decode p flds")
       (auto simp: scan_loop.simps [of decode p flds] dest: scan_step_fields)
qed

lemma scanFields_fields: "scanFields decode p = (p', flds, m, e) \<Longrightarrow> list_all wf_field flds"
  by (auto simp: scanFields_def dest: scan_loop_fields)


section \<open>The parser invariant\<close>

definition wf_parser :: "Parser \<Rightarrow> bool" where
  "wf_parser p \<longleftrightarrow> list_all wf_field (p_prefetchedFields p)
     \<and> (case p_header p of None \<Rightarrow> True | Some h \<Rightarrow> list_all wf_field (h_Fields h))"

lemma wf_parser_cong:
  "p_prefetchedFields p' = p_prefetchedFields p \<Longrightarrow> p_header p' = p_header p \<Longrightarrow> wf_parser p' = wf_parser p"
  by (simp add: wf_parser_def)

lemma wf_parser_frame: "frame p' = frame p \<Longrightarrow> wf_parser p' = wf_parser p"
  by (rule wf_parser_cong) (simp_all add: frame_def)

lemma wf_parser_scan:
  assumes "scanFields decode p = (p', flds, m, e)" "wf_parser p"
  shows "wf_parser p'" and "list_all wf_field flds"
  using scanFields_frame [OF assms(1)] wf_parser_frame assms scanFields_fields by blast+

lemma wf_NewParser [simp]: "wf_parser (NewParserWithOptions r rerr ctx opts)" "wf_parser (NewParser r rerr ctx)"
  by (simp_all add: wf_parser_def NewParser_def NewParserWithOptions_def)

lemma wf_parser_updates [simp]:
  "wf_parser (p\<lparr>p_atEOF := b\<rparr>) = wf_parser p" "wf_parser (p\<lparr>p_recordCount := k\<rparr>) = wf_parser p"
  "wf_parser (p\<lparr>p_headerDone := b\<rparr>) = wf_parser p" "wf_parser (strip_bom p) = wf_parser p"
  "wf_parser (snd (ctx_Err p)) = wf_parser p"
  by (simp_all add: wf_parser_def strip_bom_def)

lemma wf_take_prefetch:
  "wf_parser p \<Longrightarrow> wf_parser (fst (take_prefetch p)) \<and> list_all wf_field (snd (take_prefetch p))"
  by (simp add: take_prefetch_def wf_parser_def)

lemma wf_Parser_Header:
  assumes "Parser_Header decode p = (p', r)" "wf_parser p"
  shows "wf_parser p'" and "\<And>h. r = Inr (Some h) \<Longrightarrow> list_all wf_field (h_Fields h)"
proof -
  have "wf_parser p' \<and> (\<forall>h. r = Inr (Some h) \<longrightarrow> list_all wf_field (h_Fields h))"
  proof (cases "p_headerDone p")
    case True
    with assms show ?thesis by (auto simp: Parser_Header_def wf_parser_def)
  next
    case False
    obtain p1 flds m e where s: "scanFields decode (strip_bom (p\<lparr>p_headerDone := True\<rparr>)) = (p1, flds, m, e)"
      by (metis prod_cases4)
    have "wf_parser p1" "list_all wf_field flds" using wf_parser_scan [OF s] assms(2) by simp_all
    with False assms(1) s show ?thesis
      by (auto simp: Parser_Header_def wf_parser_def split: option.splits if_splits)
  qed
  then show "wf_parser p'" and "\<And>h. r = Inr (Some h) \<Longrightarrow> list_all wf_field (h_Fields h)" by blast+
qed

definition wf_record :: "Record \<Rightarrow> bool" where
  "wf_record r \<longleftrightarrow> r_Fields r \<noteq> [] \<and> list_all wf_field (r_Fields r)"

lemma wf_next_step:
  assumes "wf_parser p"
  shows "next_step decode p = Inr p' \<Longrightarrow> wf_parser p'"
    and "next_step decode p = Inl (p', Inr rec) \<Longrightarrow> wf_parser p' \<and> wf_record rec"
    and "next_step decode p = Inl (p', x) \<Longrightarrow> wf_parser p'"
proof -
  define q where "q = snd (ctx_Err p)"
  have q: "wf_parser q" using assms by (simp add: q_def)
  note t = wf_take_prefetch [OF q]
  note s = wf_parser_scan [OF _ conjunct1 [OF t]]
  show "next_step decode p = Inr p' \<Longrightarrow> wf_parser p'"
    using t by (auto simp: next_step_def Let_def q_def [symmetric] split: prod.splits option.splits if_splits dest: s)
  show "next_step decode p = Inl (p', Inr rec) \<Longrightarrow> wf_parser p' \<and> wf_record rec"
    using t by (auto simp: next_step_def Let_def emit_def wf_record_def q_def [symmetric]
                  split: prod.splits option.splits if_splits dest: s)
  show "next_step decode p = Inl (p', x) \<Longrightarrow> wf_parser p'"
    using q t by (auto simp: next_step_def Let_def emit_def q_def [symmetric]
                  split: prod.splits option.splits if_splits dest: s)
qed

lemma wf_next_loop:
  "next_loop decode p = (p', x) \<Longrightarrow> wf_parser p \<Longrightarrow> wf_parser p' \<and> (\<forall>rec. x = Inr rec \<longrightarrow> wf_record rec)"
proof (induction decode p rule: next_loop.induct)
  case (1 decode p)
  then show ?case
    by (cases "next_step decode p") (auto simp: next_loop.simps [of decode p] dest: wf_next_step)
qed

lemma wf_next_after_header:
  "next_after_header decode p = (p', x) \<Longrightarrow> wf_parser p \<Longrightarrow>
   wf_parser p' \<and> (\<forall>rec. x = Inr rec \<longrightarrow> wf_record rec)"
  by (auto simp: next_after_header_def Let_def split: if_splits dest!: wf_next_loop)

lemma wf_Parser_Next:
  assumes "Parser_Next decode p = (p', x)" "wf_parser p"
  shows "wf_parser p' \<and> (\<forall>rec. x = Inr rec \<longrightarrow> wf_record rec)"
proof (cases "p_headerDone p")
  case True
  with assms show ?thesis by (simp add: Parser_Next_def wf_next_after_header)
next
  case False
  obtain p1 y where y: "Parser_Header decode p = (p1, y)" by (cases "Parser_Header decode p")
  note h = wf_Parser_Header(1) [OF y assms(2)]
  show ?thesis
  proof (cases y)
    case (Inl e)
    with assms False y h show ?thesis by (auto simp: Parser_Next_def)
  next
    case (Inr hd)
    with assms False y have "next_after_header decode p1 = (p', x)" by (simp add: Parser_Next_def)
    then show ?thesis using h by (rule wf_next_after_header)
  qed
qed

lemma wf_parse_loop:
  "parse_loop decode p records = (records', e) \<Longrightarrow> wf_parser p \<Longrightarrow> list_all wf_record records \<Longrightarrow>
   list_all wf_record records'"
proof (induction decode p records rule: parse_loop.induct)
  case (1 decode p records)
  obtain p' x where n: "Parser_Next decode p = (p', x)" by (cases "Parser_Next decode p")
  with 1 wf_Parser_Next [OF n] show ?case
    by (cases x) (auto simp: parse_loop.simps [of decode p records])
qed

lemma parse_loop_length:
  "parse_loop decode p records = (records', e) \<Longrightarrow>
   int (length records') \<le> int (length records) + max 0 (po_MaxRecords (p_opts p) - p_recordCount p)"
proof (induction decode p records rule: parse_loop.induct)
  case (1 decode p records)
  obtain p' x where n: "Parser_Next decode p = (p', x)" by (cases "Parser_Next decode p")
  show ?case
  proof (cases x)
    case (Inl e')
    with 1 n show ?thesis by (simp add: parse_loop.simps [of decode p records])
  next
    case (Inr rec)
    with n have c: "p_recordCount p' = p_recordCount p + 1 \<and> p_recordCount p < po_MaxRecords (p_opts p) \<and> p_opts p' = p_opts p"
      using Parser_Next_count by blast
    have "int (length records') \<le> int (length (records @ [rec])) + max 0 (po_MaxRecords (p_opts p') - p_recordCount p')"
      using 1 n Inr by (simp add: parse_loop.simps [of decode p records])
    with c show ?thesis by simp
  qed
qed


lemma ParseAll_wf:
  "case ParseAll decode r rerr ctx of (h, records, e) \<Rightarrow>
     (case h of None \<Rightarrow> True | Some hdr \<Rightarrow> list_all wf_field (h_Fields hdr))
     \<and> list_all wf_record records \<and> length records \<le> 500000"
proof -
  let ?p = "NewParser r rerr ctx"
  obtain p1 x where x: "Parser_Header decode ?p = (p1, x)" by (cases "Parser_Header decode ?p")
  note h = wf_Parser_Header [OF x wf_NewParser(2)]
  have c: "po_MaxRecords (p_opts p1) - p_recordCount p1 = 500000"
    using Parser_Header_count [OF x]
    by (simp add: NewParser_def NewParserWithOptions_def DefaultMaxRecords_def)
  obtain records e where l: "parse_loop decode p1 [] = (records, e)" by (cases "parse_loop decode p1 []")
  have "list_all wf_record records" using wf_parse_loop [OF l] h(1) by simp
  moreover have "length records \<le> 500000" using parse_loop_length [OF l] c by simp
  ultimately show ?thesis
    using x l h by (auto simp: ParseAll_def ParseAll_with_def split: sum.splits option.splits)
qed

section \<open>Properties\<close>

text \<open>
  C3. For every byte stream, reader error, cancellation point and behaviour of the
  Windows-1252 decoder, the header and the records that \<open>ParseAll\<close> returns consist of
  well-formed fields: the name is non-empty, upper-case, trimmed, free of the tag
  delimiters and not a record marker, the type indicator is trimmed, and the value is
  valid UTF-8.  No record is empty, and there are at most \<open>DefaultMaxRecords\<close>.
\<close>

theorem ParseAll_wellformed:
  "case ParseAll decode r rerr ctx of (h, records, e) \<Rightarrow>
     (case h of None \<Rightarrow> True | Some hdr \<Rightarrow> list_all wf_field (h_Fields hdr))
     \<and> list_all wf_record records \<and> length records \<le> 500000"
  by (rule ParseAll_wf)

end
