(* ===== verification/Adif_Roundtrip.thy ===== *)
theory Adif_Roundtrip
  imports Adif_Writer Adif_Parser_Inv
begin

text \<open>
  The writer and the parser of \<open>pkg/adif\<close> together: what \<open>FormatAll\<close> writes,
  \<open>ParseAll\<close> reads back, field by field.
\<close>

section \<open>What the writer writes\<close>

definition field_text :: "Field \<Rightarrow> string" where
  "field_text f = field_tag f @ newline"

definition fields_text :: "Field list \<Rightarrow> string" where
  "fields_text fs = concat (map field_text fs)"

definition record_text :: "Field list \<Rightarrow> string" where
  "record_text fs = fields_text fs @ ''<EOR>'' @ newline"

definition header_text :: "string \<Rightarrow> Field list \<Rightarrow> string" where
  "header_text ver extra =
     ''RadioLedger ADIF Export'' @ newline @ fields_text (standardFields ver @ extra) @ ''<EOH>'' @ newline @ newline"

definition effective_version :: "string \<Rightarrow> string" where
  "effective_version ver = (if ver = [] then ''1.0.0'' else ver)"

lemma Fprintf_unlimited: "w_left w = None \<Longrightarrow> Fprintf w s = (w\<lparr>w_out := w_out w @ s\<rparr>, None)"
  by (cases w) (simp add: Fprintf_def)

lemma write_fields_unlimited:
  "w_left w = None \<Longrightarrow> write_fields w fs = (w\<lparr>w_out := w_out w @ fields_text fs\<rparr>, None)"
  by (induction fs arbitrary: w)
     (simp_all add: writeField_def Fprintf_unlimited fields_text_def field_text_def)

lemma WriteRecord_unlimited:
  "w_left w = None \<Longrightarrow> w_headerWritten w \<Longrightarrow>
   WriteRecord w rec = (w\<lparr>w_out := w_out w @ record_text (export_fields rec)\<rparr>, None)"
  by (simp add: WriteRecord_def write_fields_unlimited Fprintf_unlimited record_text_def)

lemma WriteRecords_unlimited:
  "w_left w = None \<Longrightarrow> w_headerWritten w \<Longrightarrow>
   WriteRecords w recs = (w\<lparr>w_out := w_out w @ concat (map (record_text \<circ> export_fields) recs)\<rparr>, None)"
  by (induction recs arbitrary: w) (simp_all add: WriteRecord_unlimited)

lemma FormatAll_eq:
  "FormatAll header recs ver =
     Inr (header_text (effective_version ver) (extra_header_fields header)
          @ concat (map (record_text \<circ> export_fields) recs))"
  by (simp add: FormatAll_def WriteHeader_def NewWriterWithOptions_def Fprintf_unlimited
      write_fields_unlimited WriteRecords_unlimited header_text_def effective_version_def Let_def
      fields_text_def)


section \<open>What the parser reads\<close>

lemma advance_advance [simp]: "advance m (advance n p) = advance (n + m) p"
  by (simp add: advance_def add.commute)

lemma advance_0 [simp]: "advance 0 p = p"
  by (simp add: advance_def)

lemma ctx_Err_None: "p_ctx p = None \<Longrightarrow> ctx_Err p = (False, p)"
  by (cases p) (simp add: ctx_Err_def)

lemma findNextTag_hit:
  assumes "p_r p = pre @ CHR ''<'' # tag @ CHR ''>'' # rest" "CHR ''<'' \<notin> set pre" "CHR ''>'' \<notin> set tag"
  shows "findNextTag p = (advance (length pre + length tag + 2) p, Inr tag)"
  using assms by (simp add: findNextTag_def cut_hit Let_def add.commute add.left_commute)

lemma show_nat_ne [simp]: "show_nat n \<noteq> []"
  using all_digits_show_nat [of n] by (auto simp: all_digits_def)

lemma show_nat_notin: "\<not> IsDigit c \<Longrightarrow> c \<notin> set (show_nat n)"
  by (simp add: all_digits_notin)

lemma trimmed_show_nat [simp]: "trimmed (show_nat n)"
  by (simp add: all_digits_trimmed)

lemma trimmed_append: "trimmed a \<Longrightarrow> trimmed b \<Longrightarrow> a \<noteq> [] \<Longrightarrow> b \<noteq> [] \<Longrightarrow> trimmed (a @ c @ b)"
  by (auto simp: trimmed_def)

definition tag_of :: "Field \<Rightarrow> string" where
  "tag_of f = f_Name f @ '':'' @ show_nat (length (f_Value f)) @ (if f_Type f \<noteq> [] then '':'' @ f_Type f else [])"

lemma field_tag_eq: "field_tag f = ''<'' @ tag_of f @ ''>'' @ f_Value f"
  by (simp add: field_tag_def tag_of_def)

lemma not_digit_delims: "\<not> IsDigit (CHR '':'')" "\<not> IsDigit (CHR ''>'')" "\<not> IsDigit (CHR ''<'')"
  by (simp_all add: IsDigit_def)

lemma tag_of_no_gt: "wf_field f \<Longrightarrow> CHR ''>'' \<notin> set (tag_of f)"
  by (simp add: tag_of_def wf_field_def wf_name_def wf_type_def show_nat_notin not_digit_delims)

lemma parseTag_tag_of:
  assumes f: "wf_field f" and len: "int (length (f_Value f)) \<le> MaxInt64"
  shows "parseTag (tag_of f) = Some (f_Name f, int (length (f_Value f)), f_Type f)"
proof -
  let ?n = "f_Name f" and ?d = "show_nat (length (f_Value f))"
  have n: "?n \<noteq> []" "trimmed ?n" "CHR '':'' \<notin> set ?n" and t: "trimmed (f_Type f)"
    using f by (simp_all add: wf_field_def wf_name_def wf_type_def)
  have d: "CHR '':'' \<notin> set ?d" by (simp add: show_nat_notin not_digit_delims)
  have "trimmed (tag_of f)"
    using trimmed_append [OF n(2) _ n(1), of ?d "'':''"] trimmed_append [OF n(2) t n(1), of "'':'' @ ?d @ '':''"]
    by (cases "f_Type f = []") (simp_all add: tag_of_def)
  then have trim: "TrimSpace (tag_of f) = tag_of f" by (rule TrimSpace_trimmed)
  have split: "SplitN (CHR '':'') 3 (tag_of f) = [?n, ?d] @ (if f_Type f = [] then [] else [f_Type f])"
    using n(3) d by (simp add: tag_of_def numeral_3_eq_3 cut_hit cut_miss)
  have "CHR '':'' \<in> set (tag_of f)" "tag_of f \<noteq> []" by (simp_all add: tag_of_def)
  then show ?thesis
    using trim split n t len
    by (simp add: parseTag_def Let_def TrimSpace_trimmed ParseInt_show_nat)
qed

definition fits :: "ParserOptions \<Rightarrow> Field \<Rightarrow> bool" where
  "fits opts f \<longleftrightarrow> wf_field f \<and> int (length (f_Value f)) \<le> po_MaxFieldLen opts"

lemma scan_step_field:
  assumes r: "p_r p = pre @ field_tag f @ rest" and pre: "CHR ''<'' \<notin> set pre" and ctx: "p_ctx p = None"
    and f: "fits (p_opts p) f" and m: "po_MaxFieldLen (p_opts p) \<le> MaxInt64"
  shows "scan_step decode p flds = Inr (advance (length pre + length (field_tag f)) p, flds @ [f])"
proof -
  let ?v = "f_Value f" and ?p1 = "advance (length pre + length (tag_of f) + 2) p"
  have wf: "wf_field f" and len: "int (length ?v) \<le> po_MaxFieldLen (p_opts p)" using f by (simp_all add: fits_def)
  have find: "findNextTag p = (?p1, Inr (tag_of f))"
    using r pre tag_of_no_gt [OF wf] by (intro findNextTag_hit) (simp_all add: field_tag_eq)
  have tag: "parseTag (tag_of f) = Some (f_Name f, int (length ?v), f_Type f)"
    using parseTag_tag_of [OF wf] len m by simp
  have name: "ToUpper (f_Name f) = f_Name f" "f_Name f \<noteq> []" "f_Name f \<noteq> ''EOR''" "f_Name f \<noteq> ''EOH''"
    using wf by (simp_all add: wf_field_def wf_name_def upper_def)
  have r1: "p_r ?p1 = ?v @ rest" using r by (simp add: field_tag_eq)
  have val: "readFieldValue (int (length ?v)) ?p1 = (advance (length pre + length (field_tag f)) p, ?v, None)"
    using r1 by (auto simp: readFieldValue_def field_tag_eq add.commute add.left_commute)
  have san: "sanitizeEncoding decode ?v = ?v" using wf by (simp add: sanitizeEncoding_def wf_field_def)
  show ?thesis
    using find tag name val san len by (simp add: scan_step_def ctx_Err_None [OF ctx])
qed

lemma parseTag_marker: "parseTag ''EOR'' = Some (''EOR'', 0, [])" "parseTag ''EOH'' = Some (''EOH'', 0, [])"
  by code_simp+

lemma ToUpper_marker: "ToUpper ''EOR'' = ''EOR''" "ToUpper ''EOH'' = ''EOH''"
  by code_simp+

lemma scan_step_EOR:
  assumes "p_r p = pre @ ''<EOR>'' @ rest" "CHR ''<'' \<notin> set pre" "p_ctx p = None"
  shows "scan_step decode p flds = Inl (advance (length pre + 5) p, flds, markerEOR, None)"
  using assms findNextTag_hit [of p pre "''EOR''" rest]
  by (simp add: scan_step_def ctx_Err_None parseTag_marker ToUpper_marker)

lemma scan_step_EOH:
  assumes "p_r p = pre @ ''<EOH>'' @ rest" "CHR ''<'' \<notin> set pre" "p_ctx p = None"
  shows "scan_step decode p flds = Inl (advance (length pre + 5) p, flds, markerEOH, None)"
  using assms findNextTag_hit [of p pre "''EOH''" rest]
  by (simp add: scan_step_def ctx_Err_None parseTag_marker ToUpper_marker)

lemma scan_step_end:
  assumes "CHR ''<'' \<notin> set (p_r p)" "p_ctx p = None"
  shows "scan_step decode p flds = Inl (advance (length (p_r p)) p, flds, markerNone, Some (p_rerr p))"
  using assms by (simp add: scan_step_def ctx_Err_None findNextTag_def cut_miss)

text \<open>Scanning the fields of a list, whatever ends it.\<close>

lemma scan_loop_fields_text:
  assumes "p_r p = pre @ fields_text fs @ rest" "CHR ''<'' \<notin> set pre" "p_ctx p = None"
    "list_all (fits (p_opts p)) fs" "po_MaxFieldLen (p_opts p) \<le> MaxInt64"
  shows "\<exists>pre' n. CHR ''<'' \<notin> set pre' \<and> p_r (advance n p) = pre' @ rest \<and>
           scan_loop decode p flds = scan_loop decode (advance n p) (flds @ fs)
           \<and> length (pre @ fields_text fs) = n + length pre'"
  using assms
proof (induction fs arbitrary: p pre flds)
  case Nil
  then show ?case by (intro exI [of _ pre] exI [of _ 0]) (simp add: fields_text_def)
next
  case (Cons f fs)
  let ?k = "length pre + length (field_tag f)" and ?p = "advance (length pre + length (field_tag f)) p"
  have r: "p_r p = pre @ field_tag f @ (newline @ fields_text fs @ rest)"
    using Cons.prems(1) by (simp add: fields_text_def field_text_def)
  have "scan_step decode p flds = Inr (?p, flds @ [f])"
    using Cons.prems by (intro scan_step_field [OF r]) simp_all
  then have loop: "scan_loop decode p flds = scan_loop decode ?p (flds @ [f])" by (rule scan_loop_Inr)
  have r': "p_r ?p = newline @ fields_text fs @ rest" using r by simp
  obtain pre' n where n: "CHR ''<'' \<notin> set pre'" "p_r (advance n ?p) = pre' @ rest"
     "scan_loop decode ?p (flds @ [f]) = scan_loop decode (advance n ?p) ((flds @ [f]) @ fs)"
     "length (newline @ fields_text fs) = n + length pre'"
    using Cons.IH [OF r', of "flds @ [f]"] Cons.prems by (auto simp: char_of_def)
  show ?case
    using n loop by (intro exI [of _ pre'] exI [of _ "?k + n"]) (simp add: fields_text_def field_text_def)
qed


lemma newline_no_lt [simp]: "CHR ''<'' \<notin> set newline" "char_of (10::nat) \<noteq> CHR ''<''" "CHR ''<'' \<noteq> char_of (10::nat)"
  by (simp_all add: char_of_def)

lemma scanFields_record:
  assumes "p_r p = pre @ fields_text fs @ ''<EOR>'' @ rest" "CHR ''<'' \<notin> set pre" "p_ctx p = None"
    "list_all (fits (p_opts p)) fs" "po_MaxFieldLen (p_opts p) \<le> MaxInt64"
  shows "\<exists>n. p_r (advance n p) = rest \<and> scanFields decode p = (advance n p, fs, markerEOR, None)"
proof -
  obtain pre' n where n: "CHR ''<'' \<notin> set pre'" "p_r (advance n p) = pre' @ ''<EOR>'' @ rest"
     "scan_loop decode p [] = scan_loop decode (advance n p) fs"
    using scan_loop_fields_text [OF assms, of decode "[]"] by auto
  have "scan_step decode (advance n p) fs = Inl (advance (length pre' + 5) (advance n p), fs, markerEOR, None)"
    using n assms(3) by (intro scan_step_EOR) simp_all
  then show ?thesis
    using n by (intro exI [of _ "n + (length pre' + 5)"])
      (simp add: scanFields_def scan_loop_Inl add.commute [of n] drop_drop [symmetric] del: drop_drop)
qed

lemma scanFields_header:
  assumes "p_r p = pre @ fields_text fs @ ''<EOH>'' @ rest" "CHR ''<'' \<notin> set pre" "p_ctx p = None"
    "list_all (fits (p_opts p)) fs" "po_MaxFieldLen (p_opts p) \<le> MaxInt64"
  shows "\<exists>n. p_r (advance n p) = rest \<and> scanFields decode p = (advance n p, fs, markerEOH, None)"
proof -
  obtain pre' n where n: "CHR ''<'' \<notin> set pre'" "p_r (advance n p) = pre' @ ''<EOH>'' @ rest"
     "scan_loop decode p [] = scan_loop decode (advance n p) fs"
    using scan_loop_fields_text [OF assms, of decode "[]"] by auto
  have "scan_step decode (advance n p) fs = Inl (advance (length pre' + 5) (advance n p), fs, markerEOH, None)"
    using n assms(3) by (intro scan_step_EOH) simp_all
  then show ?thesis
    using n by (intro exI [of _ "n + (length pre' + 5)"])
      (simp add: scanFields_def scan_loop_Inl add.commute [of n] drop_drop [symmetric] del: drop_drop)
qed


section \<open>Reading records one after the other\<close>

text \<open>
  A parser between two records: the header was read, \<open>k\<close> records were returned, nothing is
  prefetched, and \<open>s\<close> is still to be read.
\<close>

definition ready :: "ParserOptions \<Rightarrow> int \<Rightarrow> string \<Rightarrow> Parser \<Rightarrow> bool" where
  "ready opts k s p \<longleftrightarrow> p_r p = s \<and> p_rerr p = EOF \<and> p_ctx p = None \<and> p_opts p = opts \<and> p_headerDone p
     \<and> p_recordCount p = k \<and> \<not> p_hasPrefetch p \<and> \<not> p_atEOF p"

lemma Next_record:
  assumes p: "ready opts k (pre @ record_text fs @ rest) p" and pre: "CHR ''<'' \<notin> set pre"
    and fs: "fs \<noteq> []" "list_all (fits opts) fs" and m: "po_MaxFieldLen opts \<le> MaxInt64"
    and k: "k < po_MaxRecords opts"
  shows "\<exists>p'. Parser_Next decode p = (p', Inr \<lparr>r_Fields = fs\<rparr>) \<and> ready opts (k + 1) (newline @ rest) p'"
proof -
  have r: "p_r p = pre @ fields_text fs @ ''<EOR>'' @ (newline @ rest)"
    using p by (simp add: ready_def record_text_def)
  obtain n where n: "p_r (advance n p) = newline @ rest"
      "scanFields decode p = (advance n p, fs, markerEOR, None)"
    using scanFields_record [OF r pre] p fs m by (auto simp: ready_def)
  have ctx: "ctx_Err p = (False, p)" using p by (simp add: ready_def ctx_Err_None)
  have "next_step decode p = Inl (emit (advance n p) fs)"
    using p n fs ctx by (simp add: next_step_def take_prefetch_def ready_def)
  then have "Parser_Next decode p = emit (advance n p) fs"
    using p k ctx by (simp add: Parser_Next_def next_after_header_def next_loop.simps [of decode p] ready_def)
  then show ?thesis using p n by (auto simp: emit_def ready_def)
qed

lemma Next_end:
  assumes p: "ready opts k s p" and "CHR ''<'' \<notin> set s" "k < po_MaxRecords opts"
  shows "\<exists>p'. Parser_Next decode p = (p', Inl EOF)"
proof -
  have ctx: "ctx_Err p = (False, p)" using p by (simp add: ready_def ctx_Err_None)
  have "scanFields decode p = (advance (length s) p, [], markerNone, Some EOF)"
    using assms scan_step_end [of p decode "[]"] by (simp add: scanFields_def ready_def scan_loop_Inl)
  then have "next_step decode p = Inl ((advance (length s) p)\<lparr>p_atEOF := True\<rparr>, Inl EOF)"
    using p ctx by (simp add: next_step_def take_prefetch_def ready_def)
  then show ?thesis
    using p ctx assms(3) by (simp add: Parser_Next_def next_after_header_def next_loop.simps [of decode p] ready_def)
qed

lemma parse_loop_consume:
  assumes "ready opts k (pre @ concat (map record_text fss)) p" "CHR ''<'' \<notin> set pre"
    "list_all (\<lambda>fs. fs \<noteq> [] \<and> list_all (fits opts) fs) fss" "po_MaxFieldLen opts \<le> MaxInt64"
    "k + int (length fss) \<le> po_MaxRecords opts"
  shows "\<exists>pre' p'. CHR ''<'' \<notin> set pre' \<and> ready opts (k + int (length fss)) pre' p'
    \<and> parse_loop decode p recs = parse_loop decode p' (recs @ map (\<lambda>fs. \<lparr>r_Fields = fs\<rparr>) fss)"
  using assms
proof (induction fss arbitrary: k pre p recs)
  case Nil
  then show ?case by (intro exI [of _ pre] exI [of _ p]) simp
next
  case (Cons fs fss)
  obtain p' where p': "Parser_Next decode p = (p', Inr \<lparr>r_Fields = fs\<rparr>)"
      "ready opts (k + 1) (newline @ concat (map record_text fss)) p'"
    using Next_record [of opts k pre fs "concat (map record_text fss)" p decode] Cons.prems by auto
  have "parse_loop decode p recs = parse_loop decode p' (recs @ [\<lparr>r_Fields = fs\<rparr>])"
    using p' by (simp add: parse_loop.simps [of decode p])
  moreover have "k + int (length (fs # fss)) = k + 1 + int (length fss)"
      "recs @ map (\<lambda>fs. \<lparr>r_Fields = fs\<rparr>) (fs # fss) = (recs @ [\<lparr>r_Fields = fs\<rparr>]) @ map (\<lambda>fs. \<lparr>r_Fields = fs\<rparr>) fss"
    by simp_all
  ultimately show ?case
    using Cons.IH [OF p'(2), of "recs @ [\<lparr>r_Fields = fs\<rparr>]"] Cons.prems by (simp only:) simp
qed

lemma parse_loop_records:
  assumes "ready opts k (pre @ concat (map record_text fss)) p" "CHR ''<'' \<notin> set pre"
    "list_all (\<lambda>fs. fs \<noteq> [] \<and> list_all (fits opts) fs) fss" "po_MaxFieldLen opts \<le> MaxInt64"
    "k + int (length fss) < po_MaxRecords opts"
  shows "parse_loop decode p recs = (recs @ map (\<lambda>fs. \<lparr>r_Fields = fs\<rparr>) fss, None)"
proof -
  obtain pre' p' where p': "CHR ''<'' \<notin> set pre'" "ready opts (k + int (length fss)) pre' p'"
      "parse_loop decode p recs = parse_loop decode p' (recs @ map (\<lambda>fs. \<lparr>r_Fields = fs\<rparr>) fss)"
    using parse_loop_consume [OF assms(1-4), of decode recs] assms(5) by auto
  then obtain p'' where "Parser_Next decode p' = (p'', Inl EOF)"
    using Next_end [OF p'(2,1) assms(5), of decode] by blast
  then show ?thesis using p'(3) by (simp add: parse_loop.simps [of decode p'])
qed


section \<open>Whole files\<close>

definition default_opts :: ParserOptions where
  "default_opts = \<lparr>po_MaxFieldLen = DefaultMaxFieldLen, po_MaxRecords = DefaultMaxRecords\<rparr>"

lemma NewParser_opts: "p_opts (NewParser r e c) = default_opts"
  by (simp add: NewParser_def NewParserWithOptions_def default_opts_def)

lemma default_opts_simps [simp]:
  "po_MaxFieldLen default_opts = 10485760" "po_MaxRecords default_opts = 500000"
  by (simp_all add: default_opts_def DefaultMaxFieldLen_def DefaultMaxRecords_def)

lemma Header_text:
  assumes f: "list_all (fits (p_opts p)) fs" and m: "po_MaxFieldLen (p_opts p) \<le> MaxInt64"
    and p: "p_r p = pre @ fields_text fs @ ''<EOH>'' @ rest" "CHR ''<'' \<notin> set pre" "p_ctx p = None"
       "p_rerr p = EOF" "\<not> p_headerDone p" "\<not> p_hasPrefetch p" "\<not> p_atEOF p" "take 3 (p_r p) \<noteq> utf8_bom"
  shows "\<exists>p'. Parser_Header decode p = (p', Inr (Some \<lparr>h_Fields = fs\<rparr>)) \<and> ready (p_opts p) (p_recordCount p) rest p'"
proof -
  let ?p = "p\<lparr>p_headerDone := True\<rparr>"
  have "strip_bom ?p = ?p" using p by (simp add: strip_bom_def)
  moreover obtain n where n: "p_r (advance n ?p) = rest"
     "scanFields decode ?p = (advance n ?p, fs, markerEOH, None)"
    using scanFields_header [of ?p pre fs rest decode] assms by auto
  ultimately have "Parser_Header decode p =
      ((advance n ?p)\<lparr>p_header := Some \<lparr>h_Fields = fs\<rparr>\<rparr>, Inr (Some \<lparr>h_Fields = fs\<rparr>))"
    using p by (simp add: Parser_Header_def)
  then show ?thesis using p n by (auto simp: ready_def)
qed

lemma standardFields_fit:
  "ValidString ver \<Longrightarrow> int (length ver) \<le> 10485760 \<Longrightarrow> list_all (fits default_opts) (standardFields ver)"
proof -
  assume v: "ValidString ver" "int (length ver) \<le> 10485760"
  have n: "wf_name ''ADIF_VER''" "wf_name ''PROGRAMID''" "wf_name ''PROGRAMVERSION''" by code_simp+
  have "ValidString ADIFVersion" "ValidString ProgramID"
    by (rule ValidString_ascii, simp add: ADIFVersion_def ProgramID_def)+
  with v n show ?thesis
    by (simp add: standardFields_def fits_def wf_field_def wf_type_def ADIFVersion_def ProgramID_def)
qed

lemma Header_formatted:
  assumes extra: "list_all (fits default_opts) extra" and ver: "ValidString ver" "int (length ver) \<le> 10485760"
  shows "\<exists>p. Parser_Header decode (NewParser (header_text ver extra @ recs) EOF None) = (p, Inr (Some \<lparr>h_Fields = standardFields ver @ extra\<rparr>))
    \<and> ready default_opts 0 ((newline @ newline) @ recs) p"
proof -
  define s where "s = header_text ver extra @ recs"
  let ?pre = "''RadioLedger ADIF Export'' @ newline" and ?fs = "standardFields ver @ extra" and ?rest = "newline @ newline @ recs"
  let ?p = "NewParser s EOF None"
  have s: "s = ?pre @ fields_text ?fs @ ''<EOH>'' @ ?rest" by (simp add: s_def header_text_def)
  have p: "p_r ?p = s" "p_ctx ?p = None" "p_rerr ?p = EOF" "\<not> p_headerDone ?p" "\<not> p_hasPrefetch ?p"
      "\<not> p_atEOF ?p" "p_recordCount ?p = 0"
    by (simp_all add: NewParser_def NewParserWithOptions_def)
  have bom: "take 3 s \<noteq> utf8_bom" by (simp add: s utf8_bom_def eval_char)
  have fit: "list_all (fits default_opts) ?fs" using standardFields_fit [OF ver] extra by simp
  show ?thesis
    using Header_text [of ?p ?fs ?pre ?rest decode] fit p s bom by (auto simp: NewParser_opts MaxInt64_def s_def)
qed

lemma parse_formatted:
  assumes extra: "list_all (fits default_opts) extra"
    and ver: "ValidString ver" "int (length ver) \<le> 10485760"
    and fss: "list_all (\<lambda>fs. fs \<noteq> [] \<and> list_all (fits default_opts) fs) fss" "length fss < 500000"
  shows "ParseString decode None (header_text ver extra @ concat (map record_text fss)) =
         (Some \<lparr>h_Fields = standardFields ver @ extra\<rparr>, map (\<lambda>fs. \<lparr>r_Fields = fs\<rparr>) fss, None)"
proof -
  obtain p' where p': "Parser_Header decode (NewParser (header_text ver extra @ concat (map record_text fss)) EOF None) =
        (p', Inr (Some \<lparr>h_Fields = standardFields ver @ extra\<rparr>))"
      "ready default_opts 0 ((newline @ newline) @ concat (map record_text fss)) p'"
    using Header_formatted [OF extra ver] by blast
  have "parse_loop decode p' [] = ([] @ map (\<lambda>fs. \<lparr>r_Fields = fs\<rparr>) fss, None)"
    using fss by (intro parse_loop_records [OF p'(2)]) (simp_all add: MaxInt64_def)
  with p'(1) show ?thesis by (simp add: ParseString_def ParseAll_def ParseAll_with_def)
qed


section \<open>Exported records\<close>

lemma set_first_all:
  "list_all P fs \<Longrightarrow> P (mk_field n v) \<Longrightarrow> (\<And>f. P f \<Longrightarrow> f_Name f = n \<Longrightarrow> P (f\<lparr>f_Value := v\<rparr>)) \<Longrightarrow>
   list_all P (set_first n v fs)"
  by (induction fs) auto

lemma set_first_ne [simp]: "set_first n v fs \<noteq> []"
  by (cases fs) auto

lemma short_ascii_valid: "short_ascii s \<Longrightarrow> ValidString s \<and> int (length s) \<le> 20"
  by (simp add: short_ascii_def ValidString_ascii)

lemma wf_mode_names: "wf_name ''MODE''" "wf_name ''SUBMODE''"
  by code_simp+

lemma fits_set_value: "fits opts f \<Longrightarrow> short_ascii v \<Longrightarrow> 20 \<le> po_MaxFieldLen opts \<Longrightarrow> fits opts (f\<lparr>f_Value := v\<rparr>)"
  using short_ascii_valid [of v] by (simp add: fits_def wf_field_def)

lemma fits_mk_field: "wf_name n \<Longrightarrow> short_ascii v \<Longrightarrow> 20 \<le> po_MaxFieldLen opts \<Longrightarrow> fits opts (mk_field n v)"
  using short_ascii_valid [of v] by (simp add: fits_def wf_field_def wf_type_def)

lemma fits_Record_Set:
  "list_all (fits opts) (r_Fields r) \<Longrightarrow> wf_name (ToUpper n) \<Longrightarrow> short_ascii v \<Longrightarrow> 20 \<le> po_MaxFieldLen opts \<Longrightarrow>
   list_all (fits opts) (r_Fields (Record_Set r n v))"
  by (simp add: Record_Set_def set_first_all fits_mk_field fits_set_value)

lemma put_pair_fits:
  assumes r: "list_all (fits opts) (r_Fields rec)" and v: "short_ascii m" "short_ascii s" and o: "20 \<le> po_MaxFieldLen opts"
  shows "list_all (fits opts) (r_Fields (rec_store.put_pair rec ''MODE'' m ''SUBMODE'' s))"
proof -
  have 1: "list_all (fits opts) (r_Fields (Record_Set rec ''MODE'' m))"
    using assms by (simp add: fits_Record_Set wf_mode_names)
  then have "list_all (fits opts) (r_Fields (Record_Set (Record_Set rec ''MODE'' m) ''SUBMODE'' s))"
    using v o by (simp add: fits_Record_Set wf_mode_names)
  moreover have "list_all (fits opts) (r_Fields (fst (Record_Delete (Record_Set rec ''MODE'' m) ''SUBMODE'')))"
    using 1 by (simp add: list_all_iff)
  ultimately show ?thesis by (simp add: rec_store.put_pair_def Let_def)
qed

lemma first_field_ne: "first_field n fs \<noteq> None \<Longrightarrow> fs \<noteq> []"
  by auto

lemma export_fields_fit:
  assumes "list_all (fits opts) (r_Fields rec)" "r_Fields rec \<noteq> []" "20 \<le> po_MaxFieldLen opts"
  shows "export_fields rec \<noteq> [] \<and> list_all (fits opts) (export_fields rec)"
proof -
  let ?c = "fst (CanonicalizeRecordMode (Record_Clone rec))"
  have clone: "r_Fields (Record_Clone rec) = r_Fields rec" by (simp add: Record_Clone_def)
  have "r_Fields ?c \<noteq> [] \<and> list_all (fits opts) (r_Fields ?c)"
  proof (cases "NormalizeModePair (Record_Get (Record_Clone rec) ''MODE'') (Record_Get (Record_Clone rec) ''SUBMODE'')")
    case None
    with assms clone show ?thesis by (simp add: CanonicalizeRecordMode_alt)
  next
    case (Some v)
    let ?r = "rec_store.put_pair (Record_Clone rec) ''MODE'' (mv_Mode v) ''SUBMODE'' (mv_Submode v)"
    have "Record_Has ?r ''MODE''" by (simp add: put_pair_has)
    then have "r_Fields ?r \<noteq> []" by (auto simp: Record_Has_def dest: first_field_ne)
    with Some assms clone put_pair_fits NormalizeModePair_short [OF Some] show ?thesis
      by (simp add: CanonicalizeRecordMode_alt)
  qed
  moreover have "set (export_fields rec) = set (r_Fields ?c)" by (simp add: export_fields_def)
  ultimately show ?thesis by (metis list_all_iff set_empty)
qed

lemma export_fields_idem: "export_fields \<lparr>r_Fields = export_fields rec\<rparr> = export_fields rec"
proof -
  let ?c = "fst (CanonicalizeRecordMode (Record_Clone rec))"
  let ?s = "\<lparr>r_Fields = sortFields (r_Fields ?c)\<rparr> :: Record"
  have get: "Record_Get ?s n = Record_Get ?c n" and has: "Record_Has ?s n = Record_Has ?c n" for n
    by (simp_all add: Record_Get_def Record_Has_def first_field_sortFields)
  have c: "CanonicalizeRecordMode ?c = CanonicalizeRecordMode (Record_Clone rec)"
    by (rule CanonicalizeRecordMode_idem)
  have "fst (CanonicalizeRecordMode ?s) = ?s"
  proof (cases "NormalizeModePair (Record_Get ?c ''MODE'') (Record_Get ?c ''SUBMODE'')")
    case None
    then show ?thesis by (simp add: CanonicalizeRecordMode_alt [of ?s] get)
  next
    case (Some v)
    then have pp: "rec_store.put_pair ?c ''MODE'' (mv_Mode v) ''SUBMODE'' (mv_Submode v) = ?c"
      using arg_cong [OF c, of fst] by (simp add: CanonicalizeRecordMode_alt [of ?c])
    have g: "Record_Get ?c ''MODE'' = mv_Mode v" "Record_Get ?c ''SUBMODE'' = mv_Submode v"
      using put_pair_get [of ?c "mv_Mode v" "mv_Submode v" "''MODE''"]
        put_pair_get [of ?c "mv_Mode v" "mv_Submode v" "''SUBMODE''"] pp by simp_all
    have h: "Record_Has ?c ''MODE''" "Record_Has ?c ''SUBMODE'' \<longleftrightarrow> mv_Submode v \<noteq> []"
      using put_pair_has [of ?c "mv_Mode v" "mv_Submode v" "''MODE''"]
        put_pair_has [of ?c "mv_Mode v" "mv_Submode v" "''SUBMODE''"] pp by simp_all
    have "rec_store.put_pair ?s ''MODE'' (mv_Mode v) ''SUBMODE'' (mv_Submode v) = ?s"
      using g h by (intro put_pair_id) (simp_all add: get has)
    with Some show ?thesis by (simp add: CanonicalizeRecordMode_alt [of ?s] get)
  qed
  then show ?thesis by (simp add: export_fields_def Record_Clone_def sortFields_idem)
qed

lemma Record_Get_export:
  "Record_Get \<lparr>r_Fields = export_fields rec\<rparr> n =
   (case NormalizeModePair (Record_Get rec ''MODE'') (Record_Get rec ''SUBMODE'') of
      None \<Rightarrow> Record_Get rec n
    | Some v \<Rightarrow> if ToUpper n = ''MODE'' then mv_Mode v
                else if ToUpper n = ''SUBMODE'' then mv_Submode v else Record_Get rec n)"
proof -
  have clone: "Record_Clone rec = rec" by (simp add: Record_Clone_def)
  have "Record_Get \<lparr>r_Fields = export_fields rec\<rparr> n = Record_Get (fst (CanonicalizeRecordMode rec)) n"
    by (simp add: Record_Get_def export_fields_def first_field_sortFields clone)
  then show ?thesis
    by (simp add: CanonicalizeRecordMode_alt put_pair_get split: option.splits)
qed

text \<open>The fields whose value the default parser options accept.\<close>

definition short_values :: "Field list \<Rightarrow> bool" where
  "short_values fs \<longleftrightarrow> list_all (\<lambda>f. length (f_Value f) \<le> 10485760) fs"

lemma fits_default: "list_all wf_field fs \<Longrightarrow> short_values fs \<Longrightarrow> list_all (fits default_opts) fs"
  by (auto simp: fits_def short_values_def list_all_iff)

lemma effective_version_ok:
  "ValidString ver \<Longrightarrow> length ver \<le> 10485760 \<Longrightarrow>
   ValidString (effective_version ver) \<and> int (length (effective_version ver)) \<le> 10485760"
  by (auto simp: effective_version_def intro: ValidString_ascii)

lemma extra_header_fields_std:
  "extra_header_fields (Some \<lparr>h_Fields = standardFields ver @ extra_header_fields h\<rparr>) = extra_header_fields h"
  by (auto simp: extra_header_fields_def standardFields_def go_defs split: option.splits)

lemma extra_header_fit:
  "list_all (\<lambda>f. wf_field f \<and> length (f_Value f) \<le> 10485760) (extra_header_fields h) \<Longrightarrow> list_all (fits default_opts) (extra_header_fields h)"
  by (intro fits_default) (auto simp: list_all_iff short_values_def)

lemma export_fields_fits:
  assumes "list_all wf_record recs" "list_all (short_values \<circ> r_Fields) recs"
  shows "list_all (\<lambda>fs. fs \<noteq> [] \<and> list_all (fits default_opts) fs) (map export_fields recs)"
proof -
  have "export_fields r \<noteq> [] \<and> list_all (fits default_opts) (export_fields r)" if "r \<in> set recs" for r
    using that assms by (intro export_fields_fit) (auto simp: list_all_iff wf_record_def fits_def short_values_def)
  then show ?thesis by (simp add: list_all_iff)
qed

lemma parse_FormatAll:
  assumes h: "list_all (\<lambda>f. wf_field f \<and> length (f_Value f) \<le> 10485760) (extra_header_fields h)"
    and recs: "list_all wf_record recs" "list_all (short_values \<circ> r_Fields) recs" "length recs < 500000"
    and ver: "ValidString ver" "length ver \<le> 10485760"
    and t: "FormatAll h recs ver = Inr t"
  shows "ParseString decode None t =
    (Some \<lparr>h_Fields = standardFields (effective_version ver) @ extra_header_fields h\<rparr>,
     map (\<lambda>r. \<lparr>r_Fields = export_fields r\<rparr>) recs, None)"
proof -
  from parse_formatted [OF extra_header_fit [OF h] _ _ export_fields_fits [OF recs(1,2)], of "effective_version ver" decode] show ?thesis
    using t recs(3) effective_version_ok [OF ver] by (simp add: FormatAll_eq comp_def)
qed


section \<open>Properties\<close>

definition sample_field :: "string \<Rightarrow> string \<Rightarrow> Field" where
  "sample_field n v = \<lparr>f_Name = n, f_Value = v, f_Type = []\<rparr>"

definition sample_log :: "Record list" where
  "sample_log =
     [\<lparr>r_Fields = [sample_field ''MODE'' ''ft4'', sample_field ''CALL'' ''W1AW'']\<rparr>,
      \<lparr>r_Fields = [sample_field ''BAND'' ''20m'']\<rparr>]"

lemma sample_log_ok:
  "list_all wf_record sample_log" "list_all (short_values \<circ> r_Fields) sample_log" "length sample_log < 500000"
  by (simp_all add: sample_log_def sample_field_def wf_record_def wf_field_def wf_name_def wf_type_def
      short_values_def upper_def trimmed_def go_defs ValidString_ascii)

text \<open>
  C1. Round trip.  For every list of well-formed records whose values stay below the
  parser's field limit, whatever the header, the program version and the decoder,
  \<open>FormatAll\<close> succeeds and \<open>ParseString\<close> reads the text back without an error: the header
  is the three standard fields followed by the caller's own, and record by record the
  fields are the exported ones (mode normalised, canonical order), with their values,
  types and duplicates.
\<close>

theorem FormatAll_ParseString_roundtrip:
  assumes "list_all wf_record recs" "list_all (short_values \<circ> r_Fields) recs" "length recs < 500000"
    and "list_all (\<lambda>f. wf_field f \<and> length (f_Value f) \<le> 10485760) (extra_header_fields h)"
    and "ValidString ver" "length ver \<le> 10485760"
  shows "case FormatAll h recs ver of
      Inl _ \<Rightarrow> False
    | Inr t \<Rightarrow> ParseString decode None t =
        (Some \<lparr>h_Fields = standardFields (if ver = [] then ''1.0.0'' else ver) @ extra_header_fields h\<rparr>,
         map (\<lambda>r. \<lparr>r_Fields = export_fields r\<rparr>) recs, None)"
proof -
  obtain t where t: "FormatAll h recs ver = Inr t" by (simp add: FormatAll_eq)
  from parse_FormatAll [OF assms(4,1,2,3,5,6) this, of decode] t show ?thesis
    by (simp add: effective_version_def)
qed

theorem FormatAll_ParseString_roundtrip_witness:
  "case FormatAll None sample_log [] of
      Inl _ \<Rightarrow> False
    | Inr t \<Rightarrow> ParseString (\<lambda>_. None) None t =
        (Some \<lparr>h_Fields = standardFields ''1.0.0''\<rparr>, map (\<lambda>r. \<lparr>r_Fields = export_fields r\<rparr>) sample_log, None)"
  using FormatAll_ParseString_roundtrip [of sample_log None "[]" "\<lambda>_. None"] sample_log_ok
  by (simp add: extra_header_fields_def split: sum.splits)

text \<open>
  C2. Import, export, import.  Whatever file \<open>ParseString\<close> was given, what it delivered can
  be exported and imported again without loss: the second import has the same number of
  records, every field outside the mode pair has its value in each of them, the mode pair
  is the normal form of the imported one, and exporting the second import reproduces the
  exported file byte for byte.
\<close>

theorem import_export_import:
  assumes "ParseString decode ctx s = (h, recs, e)"
    and "list_all (short_values \<circ> r_Fields) recs" "length recs < 500000"
    and "short_values (extra_header_fields h)" and "ValidString ver" "length ver \<le> 10485760"
  shows "\<exists>t h' recs'. FormatAll h recs ver = Inr t
    \<and> ParseString decode None t = (h', recs', None)
    \<and> length recs' = length recs
    \<and> (\<forall>i < length recs. \<forall>n. Record_Get (recs' ! i) n =
         (case NormalizeModePair (Record_Get (recs ! i) ''MODE'') (Record_Get (recs ! i) ''SUBMODE'') of
            None \<Rightarrow> Record_Get (recs ! i) n
          | Some v \<Rightarrow> if ToUpper n = ''MODE'' then mv_Mode v
                      else if ToUpper n = ''SUBMODE'' then mv_Submode v else Record_Get (recs ! i) n))
    \<and> FormatAll h' recs' ver = Inr t"
proof -
  let ?export = "\<lambda>r. \<lparr>r_Fields = export_fields r\<rparr> :: Record"
  have wf: "list_all wf_record recs" "\<And>hdr. h = Some hdr \<Longrightarrow> list_all wf_field (h_Fields hdr)"
    using ParseAll_wf [of decode s EOF ctx] assms(1) by (auto simp: ParseString_def)
  have extra: "list_all (\<lambda>f. wf_field f \<and> length (f_Value f) \<le> 10485760) (extra_header_fields h)"
    using wf(2) assms(4) by (auto simp: short_values_def extra_header_fields_def list_all_iff split: option.splits)
  obtain t where t: "FormatAll h recs ver = Inr t" by (simp add: FormatAll_eq)
  note back1 = parse_FormatAll [OF extra wf(1) assms(2,3,5,6) t, of decode]
  have "FormatAll (Some \<lparr>h_Fields = standardFields (effective_version ver) @ extra_header_fields h\<rparr>)
      (map ?export recs) ver = Inr t"
    using t by (simp add: FormatAll_eq extra_header_fields_std export_fields_idem comp_def)
  with t back1 show ?thesis by (auto simp: Record_Get_export)
qed

lemma sample_parse:
  "ParseString (\<lambda>_. None) None (header_text ''1.0.0'' [] @ record_text [sample_field ''MODE'' ''ft4'']) =
     (Some \<lparr>h_Fields = standardFields ''1.0.0''\<rparr>, [\<lparr>r_Fields = [sample_field ''MODE'' ''ft4'']\<rparr>], None)"
  using parse_formatted [of "[]" "''1.0.0''" "[[sample_field ''MODE'' ''ft4'']]" "\<lambda>_. None"]
  by (simp add: sample_field_def fits_def wf_field_def wf_name_def wf_type_def upper_def trimmed_def go_defs ValidString_ascii)

theorem import_export_import_witness:
  "\<exists>t h' recs'. FormatAll (Some \<lparr>h_Fields = standardFields ''1.0.0''\<rparr>) [\<lparr>r_Fields = [sample_field ''MODE'' ''ft4'']\<rparr>] [] = Inr t
    \<and> ParseString (\<lambda>_. None) None t = (h', recs', None)
    \<and> length recs' = 1 \<and> FormatAll h' recs' [] = Inr t"
proof -
  have "short_values (extra_header_fields (Some \<lparr>h_Fields = standardFields ''1.0.0''\<rparr>))"
    by (simp add: short_values_def extra_header_fields_def standardFields_def go_defs)
  then show ?thesis
    using import_export_import [OF sample_parse, of "[]"] by (fastforce simp: short_values_def sample_field_def)
qed

text \<open>
  The export order.  \<open>sortFields\<close> permutes the fields; in the result no field comes before
  a lesser one, so the canonical fields come first, in the order of \<open>CanonicalFieldOrder\<close>,
  then the others by name, then the \<open>APP_\<close> fields by name; fields with one name keep their
  order; and sorting again changes nothing.
\<close>

theorem sortFields_contract:
  "mset (sortFields fs) = mset fs
   \<and> sorted_wrt (\<lambda>a b. field_group a < field_group b
        \<or> field_group a = field_group b \<and> (if field_group a = 0 then field_pos a \<le> field_pos b else f_Name a \<le> f_Name b))
       (sortFields fs)
   \<and> filter (\<lambda>f. f_Name f = n) (sortFields fs) = filter (\<lambda>f. f_Name f = n) fs
   \<and> sortFields (sortFields fs) = sortFields fs"
proof -
  have "sorted_wrt (\<lambda>a b. \<not> field_less b a) (sortFields fs)"
    using field_order.ordered_SliceStable [of fs] by (simp add: sortFields_alt field_order.ordered_def)
  then have "sorted_wrt (\<lambda>a b. field_group a < field_group b
        \<or> field_group a = field_group b \<and> (if field_group a = 0 then field_pos a \<le> field_pos b else f_Name a \<le> f_Name b))
       (sortFields fs)"
    by (rule sorted_wrt_mono_rel [rotated]) (auto simp: field_less_alt not_less split: if_splits)
  then show ?thesis
    by (simp add: filter_name_sortFields sortFields_idem mset_sortFields)
qed

end
