(* ===== verification/Adif_Limits.thy ===== *)
theory Adif_Limits
  imports Adif_Roundtrip
begin

text \<open>
  The edges of the ADI parser: a file without a header, a file with exactly as many
  records as the limit, and a field that announces more bytes than the limit.
\<close>

section \<open>A file without a header\<close>

lemma Header_without_EOH:
  assumes fs: "fs \<noteq> []" "list_all (fits default_opts) fs" and bom: "take 3 s \<noteq> utf8_bom"
    and s: "s = fields_text fs @ ''<EOR>'' @ rest"
  shows "\<exists>p. Parser_Header decode (NewParser s EOF None) = (p, Inr (Some \<lparr>h_Fields = []\<rparr>))
     \<and> p_hasPrefetch p \<and> p_prefetchedFields p = fs
     \<and> ready default_opts 0 rest (p\<lparr>p_hasPrefetch := False, p_prefetchedFields := []\<rparr>)"
proof -
  let ?p = "(NewParser s EOF None)\<lparr>p_headerDone := True\<rparr>"
  have p: "p_r ?p = s" "p_ctx ?p = None" "p_rerr ?p = EOF" "\<not> p_headerDone (NewParser s EOF None)"
      "\<not> p_atEOF ?p" "p_recordCount ?p = 0" "p_opts ?p = default_opts"
    by (simp_all add: NewParser_def NewParserWithOptions_def default_opts_def)
  have "strip_bom ?p = ?p" using p bom by (simp add: strip_bom_def)
  moreover obtain n where "p_r (advance n ?p) = rest" "scanFields decode ?p = (advance n ?p, fs, markerEOR, None)"
    using scanFields_record [of ?p "[]" fs rest decode] p fs s by (auto simp: MaxInt64_def)
  ultimately show ?thesis using p fs(1) by (auto simp: Parser_Header_def ready_def)
qed

lemma Next_prefetched:
  assumes q: "ready opts k (pre @ record_text fs @ rest) (p\<lparr>p_hasPrefetch := False, p_prefetchedFields := []\<rparr>)"
    and p: "p_hasPrefetch p" "p_prefetchedFields p = fs0" and pre: "CHR ''<'' \<notin> set pre"
    and fs: "fs \<noteq> []" "list_all (fits opts) fs" and m: "po_MaxFieldLen opts \<le> MaxInt64" "k < po_MaxRecords opts"
  shows "\<exists>p'. Parser_Next decode p = (p', Inr \<lparr>r_Fields = fs0 @ fs\<rparr>) \<and> ready opts (k + 1) (newline @ rest) p'"
proof -
  let ?q = "p\<lparr>p_hasPrefetch := False, p_prefetchedFields := []\<rparr>"
  have r: "p_r ?q = pre @ fields_text fs @ ''<EOR>'' @ (newline @ rest)"
    using q by (simp add: ready_def record_text_def)
  obtain n where n: "p_r (advance n ?q) = newline @ rest"
      "scanFields decode ?q = (advance n ?q, fs, markerEOR, None)"
    using scanFields_record [OF r pre, of decode] q fs m by (auto simp: ready_def)
  have ctx: "ctx_Err p = (False, p)" using q by (simp add: ready_def ctx_Err_None)
  have "next_step decode p = Inl (emit (advance n ?q) (fs0 @ fs))"
    using p q n fs ctx by (simp add: next_step_def take_prefetch_def ready_def)
  then have "Parser_Next decode p = emit (advance n ?q) (fs0 @ fs)"
    using q p m ctx by (simp add: Parser_Next_def next_after_header_def next_loop.simps [of decode p] ready_def)
  then show ?thesis using q n by (auto simp: emit_def ready_def)
qed

lemma record_text_no_bom: "fs \<noteq> [] \<Longrightarrow> take 3 (record_text fs @ s) \<noteq> utf8_bom"
  by (cases fs) (simp_all add: record_text_def fields_text_def field_text_def field_tag_def utf8_bom_def eval_char)

text \<open>
  A file without a header loses a record boundary.  When the file starts with its
  first record, the fields that the header scan consumed are put in front of the fields
  of the \<^emph>\<open>second\<close> record: two records are delivered as one, whose fields are those of
  both, and the rest of the file follows.
\<close>

theorem headerless_merges_first_records:
  assumes "fs1 \<noteq> []" "fs2 \<noteq> []" "list_all (fits default_opts) (fs1 @ fs2)"
    and "list_all (\<lambda>fs. fs \<noteq> [] \<and> list_all (fits default_opts) fs) fss" "length fss < 499999"
  shows "ParseString decode None (record_text fs1 @ record_text fs2 @ concat (map record_text fss)) =
    (Some \<lparr>h_Fields = []\<rparr>, \<lparr>r_Fields = fs1 @ fs2\<rparr> # map (\<lambda>fs. \<lparr>r_Fields = fs\<rparr>) fss, None)"
proof -
  let ?c = "concat (map record_text fss)" and ?s = "record_text fs1 @ record_text fs2 @ concat (map record_text fss)"
  have f: "list_all (fits default_opts) fs1" "list_all (fits default_opts) fs2" using assms(3) by simp_all
  obtain p where p: "Parser_Header decode (NewParser ?s EOF None) = (p, Inr (Some \<lparr>h_Fields = []\<rparr>))"
      "p_hasPrefetch p" "p_prefetchedFields p = fs1"
      "ready default_opts 0 (newline @ record_text fs2 @ ?c) (p\<lparr>p_hasPrefetch := False, p_prefetchedFields := []\<rparr>)"
    using Header_without_EOH [OF assms(1) f(1) record_text_no_bom [OF assms(1)], of "record_text fs2 @ ?c"
        "newline @ record_text fs2 @ ?c" decode] by (auto simp: record_text_def [of fs1])
  obtain p' where p': "Parser_Next decode p = (p', Inr \<lparr>r_Fields = fs1 @ fs2\<rparr>)"
      "ready default_opts 1 (newline @ ?c) p'"
    using Next_prefetched [OF p(4,2,3) _ assms(2) f(2), of decode] by (auto simp: MaxInt64_def)
  have "parse_loop decode p' [\<lparr>r_Fields = fs1 @ fs2\<rparr>] =
      ([\<lparr>r_Fields = fs1 @ fs2\<rparr>] @ map (\<lambda>fs. \<lparr>r_Fields = fs\<rparr>) fss, None)"
    using assms by (intro parse_loop_records [OF p'(2)]) (simp_all add: MaxInt64_def)
  then show ?thesis
    using p(1) p'(1) by (simp add: ParseString_def ParseAll_def ParseAll_with_def parse_loop.simps [of decode p])
qed

lemma sample_fits: "fits default_opts (sample_field ''CALL'' ''W1AW'')" "fits default_opts (sample_field ''CALL'' ''K1A'')"
  by (simp_all add: fits_def sample_field_def wf_field_def wf_name_def wf_type_def upper_def trimmed_def go_defs
      ValidString_ascii)

theorem headerless_merges_first_records_witness:
  "ParseString (\<lambda>_. None) None
     (record_text [sample_field ''CALL'' ''W1AW''] @ record_text [sample_field ''CALL'' ''K1A'']) =
   (Some \<lparr>h_Fields = []\<rparr>, [\<lparr>r_Fields = [sample_field ''CALL'' ''W1AW'', sample_field ''CALL'' ''K1A'']\<rparr>], None)"
  using headerless_merges_first_records
    [of "[sample_field ''CALL'' ''W1AW'']" "[sample_field ''CALL'' ''K1A'']" "[]" "\<lambda>_. None"] sample_fits by simp


section \<open>The record limit\<close>

lemma Next_at_limit:
  "ready opts k s p \<Longrightarrow> po_MaxRecords opts \<le> k \<Longrightarrow> Parser_Next decode p = (p, Inl ErrTooManyRecords)"
  by (simp add: ready_def Parser_Next_def next_after_header_def ctx_Err_None)

text \<open>
  The record limit is exclusive.  A file with a header and with \<^emph>\<open>exactly\<close> as many
  records as \<open>MaxRecords\<close> allows is read in full, and then reported as having too many
  records, because \<open>Next\<close> compares its counter with the limit before it looks for the end
  of the file; with one record fewer the file is accepted.
\<close>

theorem record_limit_exclusive:
  assumes "ready opts 0 (concat (map record_text fss)) p" "po_MaxFieldLen opts \<le> MaxInt64"
    and "list_all (\<lambda>fs. fs \<noteq> [] \<and> list_all (fits opts) fs) fss" "fss \<noteq> []"
    and "int (length fss) \<le> po_MaxRecords opts"
  shows "parse_loop decode p [] =
    (map (\<lambda>fs. \<lparr>r_Fields = fs\<rparr>) fss,
     if int (length fss) = po_MaxRecords opts then Some ErrTooManyRecords else None)"
proof (cases "int (length fss) = po_MaxRecords opts")
  case False
  then show ?thesis using parse_loop_records [of opts 0 "[]" fss p decode "[]"] assms by simp
next
  case True
  obtain pre' p' where p': "ready opts (int (length fss)) pre' p'"
      "parse_loop decode p [] = parse_loop decode p' (map (\<lambda>fs. \<lparr>r_Fields = fs\<rparr>) fss)"
    using parse_loop_consume [of opts 0 "[]" fss p decode "[]"] assms by auto
  have "Parser_Next decode p' = (p', Inl ErrTooManyRecords)"
    using True by (intro Next_at_limit [OF p'(1)]) simp
  then have "parse_loop decode p' recs = (recs, Some ErrTooManyRecords)" for recs
    by (subst parse_loop.simps) simp
  with True p'(2) show ?thesis by simp
qed

definition one_record_parser :: Parser where
  "one_record_parser =
     (NewParserWithOptions (record_text [sample_field ''CALL'' ''W1AW'']) EOF None
        \<lparr>po_MaxFieldLen = 100, po_MaxRecords = 1\<rparr>)\<lparr>p_headerDone := True\<rparr>"

theorem record_limit_exclusive_witness:
  "parse_loop (\<lambda>_. None) one_record_parser [] =
     ([\<lparr>r_Fields = [sample_field ''CALL'' ''W1AW'']\<rparr>], Some ErrTooManyRecords)"
proof -
  let ?opts = "\<lparr>po_MaxFieldLen = 100, po_MaxRecords = 1\<rparr>"
  have "ready ?opts 0 (record_text [sample_field ''CALL'' ''W1AW'']) one_record_parser"
    by (simp add: ready_def one_record_parser_def NewParserWithOptions_def)
  moreover have "fits ?opts (sample_field ''CALL'' ''W1AW'')"
    using sample_fits by (simp add: fits_def) (simp add: sample_field_def)
  ultimately show ?thesis
    using record_limit_exclusive [of ?opts "[[sample_field ''CALL'' ''W1AW'']]" one_record_parser "\<lambda>_. None"]
    by (simp add: MaxInt64_def)
qed


section \<open>Oversized fields\<close>

text \<open>
  A field that announces more bytes than \<open>MaxFieldLen\<close> stops the import with a
  \<open>ParseError\<close> that carries the offset behind its tag, after any number of good fields of
  its record, and no byte of the announced value has been read.
\<close>

theorem oversized_field_rejected:
  assumes "ready opts k (fields_text fs @ ''<'' @ tag @ ''>'' @ rest) p" "k < po_MaxRecords opts"
    and "list_all (fits opts) fs" "po_MaxFieldLen opts \<le> MaxInt64"
    and "CHR ''>'' \<notin> set tag" "parseTag tag = Some (name, len, ty)" "ToUpper name \<notin> {''EOR'', ''EOH''}"
    and "po_MaxFieldLen opts < len"
  shows "\<exists>p'. Parser_Next decode p =
      (p', Inl (ParseError (p_offset p + int (length (fields_text fs) + length tag + 2))
                           (too_long_message name len (po_MaxFieldLen opts))))
    \<and> p_r p' = rest"
proof -
  have p: "p_r p = [] @ fields_text fs @ (''<'' @ tag @ ''>'' @ rest)" "p_ctx p = None" "p_opts p = opts"
    using assms(1) by (simp_all add: ready_def)
  obtain pre' n where n: "CHR ''<'' \<notin> set pre'" "p_r (advance n p) = pre' @ ''<'' @ tag @ ''>'' @ rest"
      "scan_loop decode p [] = scan_loop decode (advance n p) fs" "length (fields_text fs) = n + length pre'"
    using scan_loop_fields_text [OF p(1), of decode "[]"] p assms by auto
  let ?q = "advance (length pre' + length tag + 2) (advance n p)"
  have "findNextTag (advance n p) = (?q, Inr tag)" using n assms(5) by (intro findNextTag_hit) simp_all
  then have "scanFields decode p = (?q, [], markerNone, Some (ParseError (p_offset ?q) (too_long_message name len (po_MaxFieldLen opts))))"
    using n assms p by (simp add: scanFields_def scan_loop_Inl scan_step_def ctx_Err_None)
  moreover have ctx: "ctx_Err p = (False, p)" using p by (simp add: ctx_Err_None)
  ultimately have "next_step decode p =
      Inl (?q, Inl (ParseError (p_offset ?q) (too_long_message name len (po_MaxFieldLen opts))))"
    using assms(1) by (simp add: next_step_def take_prefetch_def ready_def)
  then have "Parser_Next decode p = (?q, Inl (ParseError (p_offset ?q) (too_long_message name len (po_MaxFieldLen opts))))"
    using assms(1,2) ctx by (simp add: Parser_Next_def next_after_header_def next_loop.simps [of decode p] ready_def)
  moreover have "p_r ?q = drop (length pre' + length tag + 2) (p_r (advance n p))"
    by (simp add: add.commute del: advance_advance)
  then have "p_r ?q = rest" unfolding n(2) by simp
  ultimately show ?thesis using n(4) by (intro exI [of _ ?q]) (simp add: algebra_simps)
qed

theorem oversized_field_rejected_witness:
  "\<exists>p'. Parser_Next (\<lambda>_. None)
       ((NewParserWithOptions ''<CALL:999>W1AW<EOR>'' EOF None
          \<lparr>po_MaxFieldLen = 100, po_MaxRecords = 1\<rparr>)\<lparr>p_headerDone := True\<rparr>) =
     (p', Inl (ParseError 10 (too_long_message ''CALL'' 999 100))) \<and> p_r p' = ''W1AW<EOR>''"
proof -
  let ?opts = "\<lparr>po_MaxFieldLen = 100, po_MaxRecords = 1\<rparr>"
  let ?p = "(NewParserWithOptions ''<CALL:999>W1AW<EOR>'' EOF None ?opts)\<lparr>p_headerDone := True\<rparr>"
  have r: "ready ?opts 0 (fields_text [] @ ''<'' @ ''CALL:999'' @ ''>'' @ ''W1AW<EOR>'') ?p"
    by (simp add: ready_def NewParserWithOptions_def fields_text_def)
  have t: "parseTag ''CALL:999'' = Some (''CALL'', 999, [])" by code_simp
  have u: "ToUpper ''CALL'' \<notin> {''EOR'', ''EOH''}" by code_simp
  have o: "p_offset ?p = 0" by (simp add: NewParserWithOptions_def)
  from oversized_field_rejected [OF r _ _ _ _ t u, of "\<lambda>_. None"] o show ?thesis
    by (simp add: MaxInt64_def fields_text_def)
qed

end
