(* ===== verification/Adif_Callsign.thy ===== *)
theory Adif_Callsign
  imports Go_Prelude
begin

text \<open>
  \<open>pkg/adif/callsign.go\<close>: the decomposition of a callsign into prefix override, base call
  and suffix, and the derivation of the WPX prefix.  A nil \<open>SuffixInfo\<close> pointer is \<^const>\<open>None\<close>.
\<close>

record SuffixInfo =
  si_Code :: string
  si_Description :: string

definition suffix_info :: "string \<Rightarrow> string \<Rightarrow> SuffixInfo" where
  "suffix_info c d = \<lparr>si_Code = c, si_Description = d\<rparr>"

definition KnownSuffixes :: "(string \<times> SuffixInfo) list" where
  "KnownSuffixes =
    [(''P'', suffix_info ''P'' ''Portable''),
     (''M'', suffix_info ''M'' ''Mobile''),
     (''MM'', suffix_info ''MM'' ''Maritime Mobile''),
     (''AM'', suffix_info ''AM'' ''Aeronautical Mobile''),
     (''QRP'', suffix_info ''QRP'' ''Low power (5W or less)''),
     (''A'', suffix_info ''A'' ''Alternative (some logging programs)''),
     (''R'', suffix_info ''R'' ''Rover (ARRL VHF contests)'')]"

record ParsedCallsign =
  pc_Raw :: string
  pc_Base :: string
  pc_PrefixOverride :: string
  pc_Suffix :: string
  pc_SuffixInfo :: "SuffixInfo option"
  pc_WPXPrefix :: string

definition looksLikeCall :: "string \<Rightarrow> bool" where
  "looksLikeCall s \<longleftrightarrow> \<not> length s < 3 \<and> list_ex IsDigit s \<and> list_ex IsLetter s"

text \<open>The index of the first element from position \<open>i\<close> on that satisfies a test.\<close>

fun index_from :: "nat \<Rightarrow> ('a \<Rightarrow> bool) \<Rightarrow> 'a list \<Rightarrow> nat option" where
  "index_from i P [] = None"
| "index_from i P (x # xs) = (if P x then Some i else index_from (Suc i) P xs)"

definition extractWPXPrefix :: "string \<Rightarrow> string" where
  "extractWPXPrefix call =
     (if call = [] then []
      else (case index_from 0 IsLetter call of
              None \<Rightarrow> call
            | Some firstLetterIdx \<Rightarrow>
                (case index_from firstLetterIdx IsDigit (drop firstLetterIdx call) of
                   Some i \<Rightarrow> take (i + 1) call
                 | None \<Rightarrow> call)))"

definition NormalizeCallsign :: "string \<Rightarrow> string" where
  "NormalizeCallsign s = ToUpper (TrimSpace s)"

text \<open>The \<open>switch\<close> on the parts between slashes: prefix override, base, suffix, suffix information.\<close>

definition split_parts :: "string list \<Rightarrow> string \<times> string \<times> string \<times> SuffixInfo option" where
  "split_parts parts =
     (case parts of
        [p] \<Rightarrow> ([], p, [], None)
      | [left, right] \<Rightarrow>
          (case map_of KnownSuffixes right of
             Some info \<Rightarrow> ([], left, right, Some info)
           | None \<Rightarrow> if looksLikeCall right then (left, right, [], None) else ([], left, right, None))
      | p0 # p1 # rest \<Rightarrow>
          (let sfx = Join ''/'' rest in (p0, p1, sfx, map_of KnownSuffixes sfx))
      | [] \<Rightarrow> ([], [], [], None))"

definition ParseCallsign :: "string \<Rightarrow> ParsedCallsign" where
  "ParseCallsign raw =
     (let upper = ToUpper (TrimSpace raw) in
      if upper = [] then
        \<lparr>pc_Raw = upper, pc_Base = upper, pc_PrefixOverride = [], pc_Suffix = [], pc_SuffixInfo = None, pc_WPXPrefix = []\<rparr>
      else
        (case split_parts (Split (CHR ''/'') upper) of
           (override, base, sfx, info) \<Rightarrow>
             \<lparr>pc_Raw = upper, pc_Base = base, pc_PrefixOverride = override, pc_Suffix = sfx, pc_SuffixInfo = info,
              pc_WPXPrefix = (if override \<noteq> [] then override else extractWPXPrefix base)\<rparr>))"


section \<open>Lemmas\<close>

lemma index_from_None: "\<not> list_ex P xs \<Longrightarrow> index_from i P xs = None"
  by (induction xs arbitrary: i) auto

lemma index_from_prefix:
  "\<not> list_ex P a \<Longrightarrow> index_from i P (a @ b) = index_from (i + length a) P b"
  by (induction a arbitrary: i) auto

lemma extractWPXPrefix_split:
  assumes "\<not> list_ex IsLetter d" "IsLetter l" "\<not> list_ex IsDigit m"
  shows "extractWPXPrefix (d @ l # m) = d @ l # m"
    and "IsDigit c \<Longrightarrow> extractWPXPrefix (d @ l # m @ c # rest) = d @ l # m @ [c]"
proof -
  have l: "\<not> IsDigit l" using assms(2) by (auto simp: IsLetter_def IsDigit_def is_lower_def is_upper_def)
  then have lm: "\<not> list_ex IsDigit (l # m)" using assms(3) by simp
  have first: "index_from 0 IsLetter (d @ l # m') = Some (length d)" for m'
    using index_from_prefix [OF assms(1), of 0 "l # m'"] assms(2) by simp
  show "extractWPXPrefix (d @ l # m) = d @ l # m"
    using lm by (simp add: extractWPXPrefix_def first index_from_None)
  show "extractWPXPrefix (d @ l # m @ c # rest) = d @ l # m @ [c]" if "IsDigit c"
    using index_from_prefix [OF lm, of "length d" "c # rest"] that by (simp add: extractWPXPrefix_def first)
qed

lemma extractWPXPrefix_no_letter: "\<not> list_ex IsLetter s \<Longrightarrow> extractWPXPrefix s = s"
  by (simp add: extractWPXPrefix_def index_from_None)

lemma extractWPXPrefix_prefix: "\<exists>n. extractWPXPrefix s = take n s \<and> (s \<noteq> [] \<longrightarrow> 0 < n)"
  by (cases "s = []") (auto simp: extractWPXPrefix_def split: option.splits intro: exI [of _ "length s"])

definition no_slash :: "string \<Rightarrow> string" where
  "no_slash s = filter (\<lambda>c. c \<noteq> CHR ''/'') s"

lemma no_slash_append [simp]: "no_slash (a @ b) = no_slash a @ no_slash b"
  by (simp add: no_slash_def)

lemma no_slash_Join: "no_slash (Join ''/'' ps) = concat (map no_slash ps)"
  by (induction "''/''" ps rule: Join.induct) (auto simp: no_slash_def)

lemma split_parts_no_slash:
  "parts \<noteq> [] \<Longrightarrow> split_parts parts = (override, base, sfx, info) \<Longrightarrow>
   concat (map no_slash parts) = no_slash (override @ base @ sfx)"
  by (auto simp: split_parts_def Let_def no_slash_Join no_slash_def [of "[]"]
      split: list.splits option.splits if_splits)

lemma split_parts_base: "parts \<noteq> [] \<Longrightarrow> split_parts parts = (override, base, sfx, info) \<Longrightarrow> base \<in> set parts"
  by (auto simp: split_parts_def Let_def split: list.splits option.splits if_splits)

lemma split_parts_info:
  "split_parts parts = (override, base, sfx, info) \<Longrightarrow> info = map_of KnownSuffixes sfx"
  by (auto simp: split_parts_def Let_def split: list.splits option.splits if_splits)
     (simp_all add: KnownSuffixes_def)

lemma Split_no_sep: "p \<in> set (Split c s) \<Longrightarrow> c \<notin> set p"
  by (induction c s arbitrary: p rule: Split.induct) (auto split: if_splits list.splits)


section \<open>Properties\<close>

text \<open>
  \<open>ParseCallsign\<close> only cuts: the prefix override, the base and the suffix of the result,
  in this order, are the trimmed upper-case input with nothing but slashes removed; the
  base has no slash; the suffix is described exactly when it is a known one; and the WPX
  prefix is the override when there is one and otherwise a non-empty initial part of the
  base (empty only when the base is).
\<close>

theorem ParseCallsign_decomposes:
  "case ParseCallsign raw of pc \<Rightarrow>
     pc_Raw pc = NormalizeCallsign raw
     \<and> no_slash (pc_Raw pc) = no_slash (pc_PrefixOverride pc @ pc_Base pc @ pc_Suffix pc)
     \<and> CHR ''/'' \<notin> set (pc_Base pc)
     \<and> pc_SuffixInfo pc = map_of KnownSuffixes (pc_Suffix pc)
     \<and> (if pc_PrefixOverride pc \<noteq> [] then pc_WPXPrefix pc = pc_PrefixOverride pc
        else (\<exists>n. pc_WPXPrefix pc = take n (pc_Base pc) \<and> (pc_WPXPrefix pc = [] \<longleftrightarrow> pc_Base pc = [])))"
proof (cases "ToUpper (TrimSpace raw) = []")
  case True
  then show ?thesis
    by (simp add: ParseCallsign_def Let_def NormalizeCallsign_def KnownSuffixes_def)
next
  case False
  let ?parts = "Split (CHR ''/'') (ToUpper (TrimSpace raw))"
  obtain ov base sfx info where s: "split_parts ?parts = (ov, base, sfx, info)"
    by (metis prod_cases4)
  have "no_slash (ToUpper (TrimSpace raw)) = concat (map no_slash ?parts)"
    using no_slash_Join [of ?parts] by (simp add: Join_Split)
  moreover obtain n where "extractWPXPrefix base = take n base" "base \<noteq> [] \<longrightarrow> 0 < n"
    using extractWPXPrefix_prefix by blast
  ultimately show ?thesis
    using False split_parts_no_slash [OF Split_ne s] Split_no_sep [OF split_parts_base [OF Split_ne s]]
      split_parts_info [OF s]
    by (auto simp: ParseCallsign_def Let_def NormalizeCallsign_def s)
qed

text \<open>
  The WPX rule.  For a call that consists of characters without letters, a letter,
  characters without digits, and the first digit after it, the prefix ends exactly at
  that digit (so \<open>3W3RR\<close> gives \<open>3W3\<close>); when no digit follows the first letter, or there is
  no letter, the whole call is the prefix.
\<close>

theorem extractWPXPrefix_rule:
  assumes "list_all (\<lambda>c. \<not> IsLetter c) d" "IsLetter l" "list_all (\<lambda>c. \<not> IsDigit c) m" "IsDigit c"
  shows "extractWPXPrefix (d @ l # m @ c # rest) = d @ l # m @ [c]
    \<and> extractWPXPrefix (d @ l # m) = d @ l # m \<and> extractWPXPrefix d = d"
proof -
  have "\<not> list_ex IsLetter d" "\<not> list_ex IsDigit m" using assms(1,3) by (auto simp: list_all_iff list_ex_iff)
  with assms show ?thesis by (simp add: extractWPXPrefix_split extractWPXPrefix_no_letter)
qed

theorem extractWPXPrefix_rule_witness: "extractWPXPrefix ''3W3RR'' = ''3W3''"
  using extractWPXPrefix_rule [of "''3''" "CHR ''W''" "[]" "CHR ''3''" "''RR''"] by (simp add: go_defs)

end
