(* ===== verification/Go_Float.thy ===== *)
theory Go_Float
  imports Complex_Main Go_Prelude
begin

text \<open>
  \<open>float64\<close> and \<open>strconv.ParseFloat(s, 64)\<close>.  A finite value is the rational it denotes
  (the sign of zero is not kept: no comparison of the source sees it).  \<open>ParseFloat\<close>
  accepts decimal literals, hexadecimal literals with a binary exponent, and the special
  names, and rounds to nearest, ties to even; a result beyond the largest finite value is
  an error, like a syntax error (\<^const>\<open>None\<close>).
\<close>

datatype float64 = Finite rat | Inf bool | NaN

text \<open>\<open>Inf True\<close> is the negative infinity.  Every comparison with a NaN is false.\<close>

fun lt64 :: "float64 \<Rightarrow> float64 \<Rightarrow> bool" where
  "lt64 (Finite a) (Finite b) \<longleftrightarrow> a < b"
| "lt64 (Finite a) (Inf n) \<longleftrightarrow> \<not> n"
| "lt64 (Inf n) (Finite b) \<longleftrightarrow> n"
| "lt64 (Inf n) (Inf m) \<longleftrightarrow> n \<and> \<not> m"
| "lt64 NaN _ \<longleftrightarrow> False"
| "lt64 _ NaN \<longleftrightarrow> False"

fun le64 :: "float64 \<Rightarrow> float64 \<Rightarrow> bool" where
  "le64 (Finite a) (Finite b) \<longleftrightarrow> a \<le> b"
| "le64 (Finite a) (Inf n) \<longleftrightarrow> \<not> n"
| "le64 (Inf n) (Finite b) \<longleftrightarrow> n"
| "le64 (Inf n) (Inf m) \<longleftrightarrow> n \<or> \<not> m"
| "le64 NaN _ \<longleftrightarrow> False"
| "le64 _ NaN \<longleftrightarrow> False"

lemma le64_iff: "a \<noteq> NaN \<Longrightarrow> b \<noteq> NaN \<Longrightarrow> le64 a b \<longleftrightarrow> \<not> lt64 b a"
  by (cases a; cases b) auto


section \<open>Rounding\<close>

definition round_half_even :: "rat \<Rightarrow> int" where
  "round_half_even q =
     (let n = \<lfloor>q\<rfloor>; r = q - of_int n in
      if r < 1 / 2 then n else if 1 / 2 < r then n + 1 else if even n then n else n + 1)"

definition pow2 :: "int \<Rightarrow> rat" where
  "pow2 k = (if 0 \<le> k then 2 ^ nat k else 1 / 2 ^ nat (- k))"

fun bit_length :: "nat \<Rightarrow> nat" where
  "bit_length n = (if n = 0 then 0 else Suc (bit_length (n div 2)))"

declare bit_length.simps [simp del]

text \<open>The binary exponent of a positive rational: \<open>2^k \<le> q < 2^(k+1)\<close>.\<close>

definition log2_floor :: "rat \<Rightarrow> int" where
  "log2_floor q =
     (let (a, b) = quotient_of q; k = int (bit_length (nat a)) - int (bit_length (nat b)) in
      if q < pow2 k then k - 1 else k)"

definition round64 :: "rat \<Rightarrow> float64 option" where
  "round64 q =
     (if q = 0 then Some (Finite 0)
      else
        let a = \<bar>q\<bar>; ulp = pow2 (max (log2_floor a - 52) (- 1074));
            m = of_int (round_half_even (a / ulp)) * ulp in
        if 2 ^ 1024 \<le> m then None else Some (Finite (if q < 0 then - m else m)))"


text \<open>The result of an arithmetic operation: overflow gives an infinity.\<close>

definition to_float :: "rat \<Rightarrow> float64" where
  "to_float q = (case round64 q of Some f \<Rightarrow> f | None \<Rightarrow> Inf (q < 0))"


section \<open>ParseFloat\<close>

definition is_hex :: "char \<Rightarrow> bool" where
  "is_hex c \<longleftrightarrow> IsDigit c \<or> (97 \<le> byte (lower_char c) \<and> byte (lower_char c) \<le> 102)"

definition hex_digit :: "char \<Rightarrow> nat" where
  "hex_digit c = (if IsDigit c then byte c - 48 else byte (lower_char c) - 87)"

definition base_val :: "nat \<Rightarrow> string \<Rightarrow> nat" where
  "base_val b s = foldl (\<lambda>a c. b * a + hex_digit c) 0 s"

text \<open>The exponent digits saturate once the value has reached 10000.\<close>

definition exp_val :: "string \<Rightarrow> int" where
  "exp_val s = foldl (\<lambda>e c. if e < 10000 then 10 * e + int (byte c - 48) else e) 0 s"

definition parse_exp :: "string \<Rightarrow> int option" where
  "parse_exp s =
     (case s of
        c # cs \<Rightarrow>
          if c = CHR ''-'' then (if all_digits cs then Some (- exp_val cs) else None)
          else if c = CHR ''+'' then (if all_digits cs then Some (exp_val cs) else None)
          else if all_digits s then Some (exp_val s) else None
      | [] \<Rightarrow> None)"

text \<open>A mantissa: digits with at most one point, at least one digit; its value and the digits after the point.\<close>

definition parse_mantissa :: "nat \<Rightarrow> string \<Rightarrow> (nat \<times> nat) option" where
  "parse_mantissa b s =
     (case cut (CHR ''.'') s of
        (ip, fp0) \<Rightarrow>
          let fp = (case fp0 of None \<Rightarrow> [] | Some f \<Rightarrow> f);
              ok = (if b = 16 then is_hex else IsDigit) in
          if ip @ fp \<noteq> [] \<and> list_all ok (ip @ fp) then Some (base_val b (ip @ fp), length fp) else None)"

definition pow10 :: "int \<Rightarrow> rat" where
  "pow10 k = (if 0 \<le> k then 10 ^ nat k else 1 / 10 ^ nat (- k))"

definition parse_decimal :: "string \<Rightarrow> rat option" where
  "parse_decimal s =
     (let (m, e) = (takeWhile (\<lambda>c. lower_char c \<noteq> CHR ''e'') s, dropWhile (\<lambda>c. lower_char c \<noteq> CHR ''e'') s) in
      case (parse_mantissa 10 m, if e = [] then Some 0 else parse_exp (tl e)) of
        (Some (v, k), Some x) \<Rightarrow> Some (of_nat v * pow10 (x - int k))
      | _ \<Rightarrow> None)"

text \<open>Underscores may separate digits of a hexadecimal literal, also after its prefix.\<close>

fun underscoreOK :: "char \<Rightarrow> string \<Rightarrow> bool" where
  "underscoreOK saw [] \<longleftrightarrow> saw \<noteq> CHR ''_''"
| "underscoreOK saw (c # cs) \<longleftrightarrow>
     (if is_hex c then underscoreOK (CHR ''0'') cs
      else if c = CHR ''_'' then saw = CHR ''0'' \<and> underscoreOK (CHR ''_'') cs
      else saw \<noteq> CHR ''_'' \<and> underscoreOK (CHR ''!'') cs)"

text \<open>What follows the prefix \<open>0x\<close>: the exponent is mandatory.\<close>

definition parse_hex :: "string \<Rightarrow> rat option" where
  "parse_hex s0 =
     (if \<not> underscoreOK (CHR ''0'') s0 then None
      else
        let s = RemoveAll (CHR ''_'') s0;
            (m, e) = (takeWhile (\<lambda>c. lower_char c \<noteq> CHR ''p'') s, dropWhile (\<lambda>c. lower_char c \<noteq> CHR ''p'') s) in
        case (parse_mantissa 16 m, if e = [] then None else parse_exp (tl e)) of
          (Some (v, k), Some x) \<Rightarrow> Some (of_nat v * pow2 (x - 4 * int k))
        | _ \<Rightarrow> None)"

definition parse_unsigned :: "string \<Rightarrow> rat option" where
  "parse_unsigned s =
     (if ToLower (take 2 s) = ''0x'' then parse_hex (drop 2 s) else parse_decimal s)"

definition ParseFloat :: "string \<Rightarrow> float64 option" where
  "ParseFloat s =
     (let (neg, body, signed) =
            (case s of
               c # cs \<Rightarrow> if c = CHR ''-'' then (True, cs, True) else if c = CHR ''+'' then (False, cs, True)
                         else (False, s, False)
             | [] \<Rightarrow> (False, [], False)) in
      if ToLower body = ''inf'' \<or> ToLower body = ''infinity'' then Some (Inf neg)
      else if \<not> signed \<and> ToLower body = ''nan'' then Some NaN
      else (case parse_unsigned body of None \<Rightarrow> None | Some q \<Rightarrow> round64 (if neg then - q else q)))"

lemma ParseFloat_nan: "ParseFloat ''NaN'' = Some NaN"
  by (simp add: ParseFloat_def go_defs eval_char)


section \<open>Rounding is faithful\<close>

lemma round_half_even_bounds: "\<bar>of_int (round_half_even q) - q\<bar> \<le> 1 / 2"
proof -
  have "of_int \<lfloor>q\<rfloor> \<le> q" "q < of_int \<lfloor>q\<rfloor> + 1" by linarith+
  then show ?thesis by (auto simp: round_half_even_def Let_def)
qed

lemma round_half_even_int [simp]: "round_half_even (of_int n) = n"
  by (simp add: round_half_even_def)

lemma pow2_pos [simp]: "0 < pow2 k"
  by (simp add: pow2_def)

lemma round_half_even_nonneg: "0 \<le> q \<Longrightarrow> 0 \<le> round_half_even q"
proof -
  assume "0 \<le> q"
  then have "0 \<le> \<lfloor>q\<rfloor>" by simp
  then show ?thesis by (simp add: round_half_even_def Let_def)
qed

lemma scale_abs: "0 < u \<Longrightarrow> \<bar>x * u - a\<bar> = \<bar>x - a / u\<bar> * u" for u :: rat
proof -
  assume u: "0 < u"
  then have "x * u - a = (x - a / u) * u" by (simp add: left_diff_distrib)
  with u show ?thesis by (simp add: abs_mult)
qed

text \<open>The rounding error is at most half a unit in the last place.\<close>

lemma round64_error:
  assumes "round64 q = Some (Finite r)"
  shows "\<bar>r - q\<bar> \<le> pow2 (max (log2_floor \<bar>q\<bar> - 52) (- 1074)) / 2"
proof (cases "q = 0")
  case True
  with assms show ?thesis by (simp add: round64_def less_imp_le)
next
  case False
  let ?a = "\<bar>q\<bar>" and ?u = "pow2 (max (log2_floor \<bar>q\<bar> - 52) (- 1074))"
  have r: "r = (if q < 0 then - (of_int (round_half_even (?a / ?u)) * ?u) else of_int (round_half_even (?a / ?u)) * ?u)"
    using assms False by (simp add: round64_def Let_def split: if_splits)
  have u: "0 < ?u" by simp
  have "\<bar>of_int (round_half_even (?a / ?u)) * ?u - ?a\<bar> = \<bar>of_int (round_half_even (?a / ?u)) - ?a / ?u\<bar> * ?u"
    by (rule scale_abs [OF u])
  also have "\<dots> \<le> 1 / 2 * ?u"
    by (intro mult_right_mono round_half_even_bounds less_imp_le [OF u])
  finally show ?thesis using r by (cases "q < 0") (simp_all add: abs_minus_commute add.commute)
qed

end
