(* ===== verification/Adif_Validate.thy ===== *)
theory Adif_Validate
  imports Adif_Fields Adif_Mode Go_Float
begin

text \<open>
  \<open>pkg/adif/validate.go\<close>: the field validators.  The text of an error message is a value of
  \<open>VMsg\<close>, one constructor for each format string of the source, with the arguments it is
  formatted with.  A validator returns \<^const>\<open>None\<close> for a nil error.
\<close>

datatype VMsg =
    DateLength nat | DateDigits string | YearRange int | MonthRange int | DayRange string int int
  | TimeLength nat | TimeDigits string | HourRange int | MinuteRange int | SecondRange int
  | FreqEmpty | FreqNotANumber string | FreqNotPositive float64 | FreqOutOfRange float64
  | BandUnknown string | ModeUnknown string
  | CallEmpty | CallTooLong string | CallBadChar string char nat | CallNeedsLetterAndDigit string
  | GridEmpty | GridLength string | GridField string | GridSquare string | GridSubsquare string
  | MustBe string

record ValidationError =
  ve_Field :: string
  ve_Value :: string
  ve_Message :: VMsg

record ValidationResult =
  vr_Errors :: "ValidationError list"
  vr_Warnings :: "ValidationError list"

definition ValidationResult_OK :: "ValidationResult \<Rightarrow> bool" where
  "ValidationResult_OK r \<longleftrightarrow> length (vr_Errors r) = 0"


section \<open>Dates and times\<close>

definition is_leap :: "int \<Rightarrow> bool" where
  "is_leap y \<longleftrightarrow> y mod 4 = 0 \<and> (y mod 100 \<noteq> 0 \<or> y mod 400 = 0)"

definition days_in :: "int \<Rightarrow> int \<Rightarrow> int" where
  "days_in y m =
     (if m = 2 then (if is_leap y then 29 else 28) else if m \<in> {4, 6, 9, 11} then 30 else 31)"

lemma days_in_pos: "28 \<le> days_in y m" "days_in y m \<le> 31"
  by (simp_all add: days_in_def)

text \<open>
  \<open>time.Date(y, m, d, 0, 0, 0, 0, UTC)\<close> for a month in range: a day outside the month is
  carried into the following or preceding months.
\<close>

definition next_month :: "int \<Rightarrow> int \<Rightarrow> int \<times> int" where
  "next_month y m = (if m = 12 then (y + 1, 1) else (y, m + 1))"

definition prev_month :: "int \<Rightarrow> int \<Rightarrow> int \<times> int" where
  "prev_month y m = (if m = 1 then (y - 1, 12) else (y, m - 1))"

function time_Date :: "int \<Rightarrow> int \<Rightarrow> int \<Rightarrow> int \<times> int \<times> int" where
  "time_Date y m d =
     (if d < 1 then (case prev_month y m of (y', m') \<Rightarrow> time_Date y' m' (d + days_in y' m'))
      else if days_in y m < d then (case next_month y m of (y', m') \<Rightarrow> time_Date y' m' (d - days_in y m))
      else (y, m, d))"
  by pat_completeness auto
termination
proof (relation "measure (\<lambda>(y, m, d). nat (if d < 1 then 40 - d else d))")
  fix y m d y' m' :: int and x
  assume d: "d < 1"
  show "((y', m', d + days_in y' m'), y, m, d) \<in> measure (\<lambda>(y, m, d). nat (if d < 1 then 40 - d else d))"
    using d days_in_pos [of y' m'] by auto
next
  fix y m d y' m' :: int and x
  assume "\<not> d < 1" "days_in y m < d"
  then show "((y', m', d - days_in y m), y, m, d) \<in> measure (\<lambda>(y, m, d). nat (if d < 1 then 40 - d else d))"
    using days_in_pos [of y m] by auto
qed simp

declare time_Date.simps [simp del]

definition atoi0 :: "string \<Rightarrow> int" where
  "atoi0 s = (case Atoi s of Some n \<Rightarrow> n | None \<Rightarrow> 0)"

definition ValidateDate :: "string \<Rightarrow> VMsg option" where
  "ValidateDate s0 =
     (let s = TrimSpace s0 in
      if length s \<noteq> 8 then Some (DateLength (length s))
      else if \<not> list_all IsDigit s then Some (DateDigits s)
      else
        let year = atoi0 (slice 0 4 s); month = atoi0 (slice 4 6 s); day = atoi0 (slice 6 8 s) in
        if year < 1900 \<or> 2200 < year then Some (YearRange year)
        else if month < 1 \<or> 12 < month then Some (MonthRange month)
        else if time_Date year month day \<noteq> (year, month, day) then Some (DayRange s day month)
        else None)"

definition ValidateTime :: "string \<Rightarrow> VMsg option" where
  "ValidateTime s0 =
     (let s = TrimSpace s0 in
      if length s \<noteq> 4 \<and> length s \<noteq> 6 then Some (TimeLength (length s))
      else if \<not> list_all IsDigit s then Some (TimeDigits s)
      else
        let hour = atoi0 (slice 0 2 s); min = atoi0 (slice 2 4 s) in
        if 23 < hour then Some (HourRange hour)
        else if 59 < min then Some (MinuteRange min)
        else if length s = 6 then
          (let sec = atoi0 (slice 4 6 s) in if 59 < sec then Some (SecondRange sec) else None)
        else None)"


section \<open>Frequency, band, mode, callsign and grid\<close>

text \<open>The constant \<open>0.001\<close> is the nearest \<open>float64\<close>.\<close>

definition min_freq :: float64 where
  "min_freq = (case round64 (1 / 1000) of Some f \<Rightarrow> f | None \<Rightarrow> NaN)"

definition ValidateFrequency :: "string \<Rightarrow> VMsg option" where
  "ValidateFrequency s0 =
     (let s = TrimSpace s0 in
      if s = [] then Some FreqEmpty
      else (case ParseFloat s of
              None \<Rightarrow> Some (FreqNotANumber s)
            | Some f \<Rightarrow>
                if le64 f (Finite 0) then Some (FreqNotPositive f)
                else if lt64 f min_freq \<or> lt64 (Finite 300000) f then Some (FreqOutOfRange f)
                else None))"

definition ValidateBand :: "string \<Rightarrow> VMsg option" where
  "ValidateBand s0 =
     (let s = ToLower (TrimSpace s0) in if has_key KnownBands s then None else Some (BandUnknown s))"

definition ValidateMode :: "string \<Rightarrow> VMsg option" where
  "ValidateMode s = (case ResolveMode s of Some _ \<Rightarrow> None | None \<Rightarrow> Some (ModeUnknown s))"

fun first_bad_char :: "nat \<Rightarrow> string \<Rightarrow> (nat \<times> char) option" where
  "first_bad_char i [] = None"
| "first_bad_char i (c # cs) =
     (if \<not> IsLetter c \<and> \<not> IsDigit c \<and> c \<noteq> CHR ''/'' then Some (i, c) else first_bad_char (Suc i) cs)"

definition ValidateCallsign :: "string \<Rightarrow> VMsg option" where
  "ValidateCallsign s0 =
     (let s = TrimSpace s0 in
      if s = [] then Some CallEmpty
      else if 20 < length s then Some (CallTooLong s)
      else (case first_bad_char 0 (ToUpper s) of
              Some (i, c) \<Rightarrow> Some (CallBadChar s c i)
            | None \<Rightarrow>
                if \<not> list_ex IsLetter s \<or> \<not> list_ex IsDigit s then Some (CallNeedsLetterAndDigit s) else None))"

definition in_range :: "char \<Rightarrow> char \<Rightarrow> char \<Rightarrow> bool" where
  "in_range lo hi c \<longleftrightarrow> byte lo \<le> byte c \<and> byte c \<le> byte hi"

definition ValidateGridsquare :: "string \<Rightarrow> VMsg option" where
  "ValidateGridsquare s0 =
     (let s = TrimSpace s0; u = ToUpper s in
      if s = [] then Some GridEmpty
      else if length u < 4 \<or> (length u \<noteq> 4 \<and> length u \<noteq> 6 \<and> length u \<noteq> 8) then Some (GridLength s)
      else if \<not> in_range (CHR ''A'') (CHR ''R'') (u ! 0) \<or> \<not> in_range (CHR ''A'') (CHR ''R'') (u ! 1) then Some (GridField s)
      else if \<not> in_range (CHR ''0'') (CHR ''9'') (u ! 2) \<or> \<not> in_range (CHR ''0'') (CHR ''9'') (u ! 3) then Some (GridSquare s)
      else if 6 \<le> length u \<and>
         (\<not> in_range (CHR ''A'') (CHR ''X'') (u ! 4) \<or> \<not> in_range (CHR ''A'') (CHR ''X'') (u ! 5)) then Some (GridSubsquare s)
      else None)"


section \<open>ValidateField and ValidateRecord\<close>

definition zone_check :: "string \<Rightarrow> int \<Rightarrow> string \<Rightarrow> VMsg option" where
  "zone_check value hi msg =
     (case Atoi value of
        None \<Rightarrow> Some (MustBe msg)
      | Some n \<Rightarrow> if n < 1 \<or> hi < n then Some (MustBe msg) else None)"

definition Continents :: "string list" where
  "Continents = [''NA'', ''SA'', ''EU'', ''AF'', ''AS'', ''OC'', ''AN'']"

definition field_check :: "string \<Rightarrow> string \<Rightarrow> VMsg option" where
  "field_check name value =
     (if name \<in> {''QSO_DATE'', ''QSO_DATE_OFF''} then ValidateDate value
      else if name \<in> {''TIME_ON'', ''TIME_OFF''} then ValidateTime value
      else if name \<in> {''FREQ'', ''FREQ_RX''} then ValidateFrequency value
      else if name \<in> {''BAND'', ''BAND_RX''} then ValidateBand value
      else if name = ''MODE'' then ValidateMode value
      else if name = ''CALL'' then ValidateCallsign value
      else if name \<in> {''GRIDSQUARE'', ''MY_GRIDSQUARE''} then ValidateGridsquare value
      else if name = ''CQZ'' then zone_check value 40 ''must be 1-40''
      else if name = ''ITUZ'' then zone_check value 90 ''must be 1-90''
      else if name = ''CONT'' then
        (if ToUpper value \<in> set Continents then None else Some (MustBe ''must be NA,SA,EU,AF,AS,OC,AN''))
      else if name \<in> {''QSLSDATE'', ''QSLRDATE'', ''LOTW_QSLSDATE'', ''LOTW_QSLRDATE'', ''EQSL_QSLSDATE'', ''EQSL_QSLRDATE''}
      then ValidateDate value
      else None)"

definition ValidateField :: "string \<Rightarrow> string \<Rightarrow> ValidationError list" where
  "ValidateField name0 value =
     (let name = ToUpper name0 in
      case field_check name value of
        None \<Rightarrow> []
      | Some msg \<Rightarrow> [\<lparr>ve_Field = name, ve_Value = value, ve_Message = msg\<rparr>])"

fun validate_fields :: "ValidationResult \<Rightarrow> Field list \<Rightarrow> ValidationResult" where
  "validate_fields result [] = result"
| "validate_fields result (f # fs) =
     validate_fields (result\<lparr>vr_Errors := vr_Errors result @ ValidateField (f_Name f) (f_Value f)\<rparr>) fs"

definition ValidateRecord :: "Record \<Rightarrow> ValidationResult" where
  "ValidateRecord rec = validate_fields \<lparr>vr_Errors = [], vr_Warnings = []\<rparr> (r_Fields rec)"


section \<open>Lemmas\<close>

lemma time_Date_range: "case time_Date y m d of (y', m', d') \<Rightarrow> 1 \<le> d' \<and> d' \<le> days_in y' m'"
proof (induction y m d rule: time_Date.induct)
  case (1 y m d)
  then show ?case by (subst time_Date.simps) (auto split: prod.splits)
qed

lemma time_Date_fix: "time_Date y m d = (y, m, d) \<longleftrightarrow> 1 \<le> d \<and> d \<le> days_in y m"
proof
  show "1 \<le> d \<and> d \<le> days_in y m" if "time_Date y m d = (y, m, d)"
    using time_Date_range [of y m d] that by simp
qed (simp add: time_Date.simps [of y m d])

lemma digits_val_bound: "list_all IsDigit s \<Longrightarrow> digits_val s < 10 ^ length s"
proof (induction s rule: rev_induct)
  case (snoc c s)
  then have "byte c - 48 < 10" by (auto simp: IsDigit_def)
  with snoc show ?case by (simp add: digits_val_snoc)
qed (simp add: digits_val_def)

lemma atoi0_digits:
  assumes "list_all IsDigit s" "s \<noteq> []" "length s \<le> 18" shows "atoi0 s = int (digits_val s)"
proof -
  have "digits_val s < 10 ^ 18"
    using digits_val_bound [OF assms(1)] power_increasing [OF assms(3), of "10 :: nat"] by simp
  then show ?thesis
    using assms ParseInt_all_digits [of s] by (simp add: all_digits_def atoi0_def MaxInt64_def)
qed

lemma slice_digits: "list_all IsDigit s \<Longrightarrow> list_all IsDigit (slice i j s)"
  by (auto simp: slice_def list_all_iff dest: in_set_takeD in_set_dropD)

lemma atoi0_slice:
  "list_all IsDigit s \<Longrightarrow> i < j \<Longrightarrow> j \<le> length s \<Longrightarrow> j \<le> i + 18 \<Longrightarrow> atoi0 (slice i j s) = int (digits_val (slice i j s))"
  by (intro atoi0_digits slice_digits) (auto simp: slice_def)

lemma first_bad_char_None:
  "first_bad_char i s = None \<longleftrightarrow> list_all (\<lambda>c. IsLetter c \<or> IsDigit c \<or> c = CHR ''/'') s"
  by (induction s arbitrary: i) auto

lemma validate_fields_errors:
  "validate_fields r fs = r\<lparr>vr_Errors := vr_Errors r @ concat (map (\<lambda>f. ValidateField (f_Name f) (f_Value f)) fs)\<rparr>"
  by (induction fs arbitrary: r) simp_all


section \<open>Properties\<close>

text \<open>
  \<open>ValidateDate\<close> accepts exactly the real dates of the proleptic Gregorian calendar
  between 1900 and 2200, written as eight digits with optional surrounding spaces: the
  carry of \<open>time.Date\<close> changes every other day.
\<close>

theorem ValidateDate_accepts:
  "ValidateDate s0 = None \<longleftrightarrow>
     (case TrimSpace s0 of s \<Rightarrow>
        length s = 8 \<and> list_all IsDigit s
        \<and> (case (int (digits_val (slice 0 4 s)), int (digits_val (slice 4 6 s)), int (digits_val (slice 6 8 s))) of (y, m, d) \<Rightarrow>
            1900 \<le> y \<and> y \<le> 2200 \<and> 1 \<le> m \<and> m \<le> 12 \<and> 1 \<le> d \<and> d \<le> days_in y m))"
proof (cases "length (TrimSpace s0) = 8 \<and> list_all IsDigit (TrimSpace s0)")
  case True
  then show ?thesis
    by (auto simp: ValidateDate_def Let_def atoi0_slice time_Date_fix)
next
  case False
  then show ?thesis by (auto simp: ValidateDate_def Let_def)
qed

text \<open>
  Validation of a record is complete and blames the right field: the errors are those
  of its fields, in their order, one at most for each field, carrying the upper-case name
  and the value as given; and the result is OK exactly when every field passes its check.
\<close>

theorem ValidateRecord_complete:
  "vr_Errors (ValidateRecord rec) =
     concat (map (\<lambda>f. case field_check (ToUpper (f_Name f)) (f_Value f) of
                        None \<Rightarrow> []
                      | Some msg \<Rightarrow> [\<lparr>ve_Field = ToUpper (f_Name f), ve_Value = f_Value f, ve_Message = msg\<rparr>])
       (r_Fields rec))
   \<and> vr_Warnings (ValidateRecord rec) = []
   \<and> (ValidationResult_OK (ValidateRecord rec) \<longleftrightarrow>
        list_all (\<lambda>f. field_check (ToUpper (f_Name f)) (f_Value f) = None) (r_Fields rec))"
proof -
  have "vr_Errors (ValidateRecord rec) = [] \<longleftrightarrow>
      list_all (\<lambda>f. field_check (ToUpper (f_Name f)) (f_Value f) = None) (r_Fields rec)"
    by (auto simp: ValidateRecord_def validate_fields_errors ValidateField_def Let_def list_all_iff split: option.splits)
  then show ?thesis
    by (simp add: ValidationResult_OK_def) (simp add: ValidateRecord_def validate_fields_errors ValidateField_def Let_def)
qed

text \<open>
  What \<open>ValidateFrequency\<close> accepts: a finite number between the \<open>float64\<close> nearest to
  0.001 and 300000 - and also the literal \<open>NaN\<close>, in any case, which no comparison rejects.
\<close>

theorem ValidateFrequency_accepts:
  "(ValidateFrequency s = None \<longleftrightarrow>
      (case ParseFloat (TrimSpace s) of
         None \<Rightarrow> False
       | Some NaN \<Rightarrow> True
       | Some (Inf _) \<Rightarrow> False
       | Some (Finite q) \<Rightarrow> 0 < q \<and> \<not> lt64 (Finite q) min_freq \<and> q \<le> 300000))
   \<and> ValidateFrequency ''NaN'' = None"
proof -
  have e: "ParseFloat [] = None" by (simp add: ParseFloat_def parse_unsigned_def parse_decimal_def parse_mantissa_def go_defs)
  have t: "TrimSpace ''NaN'' = ''NaN''" by (simp add: go_defs)
  have 1: "ValidateFrequency s = None \<longleftrightarrow>
      (case ParseFloat (TrimSpace s) of
         None \<Rightarrow> False
       | Some NaN \<Rightarrow> True
       | Some (Inf _) \<Rightarrow> False
       | Some (Finite q) \<Rightarrow> 0 < q \<and> \<not> lt64 (Finite q) min_freq \<and> q \<le> 300000)"
  proof (cases "TrimSpace s = []")
    case True
    with e show ?thesis by (simp add: ValidateFrequency_def)
  next
    case False
    then show ?thesis
      by (cases "ParseFloat (TrimSpace s)") (auto simp: ValidateFrequency_def Let_def not_less split: float64.splits)
  qed
  moreover have "ValidateFrequency ''NaN'' = None"
    using ParseFloat_nan by (simp add: ValidateFrequency_def t)
  ultimately show ?thesis by blast
qed

end
