(* ===== verification/Sync_Infra.thy ===== *)
theory Sync_Infra
  imports Go_Float
begin

text \<open>
  \<open>api/internal/services/sync/infra.go\<close>: the infrastructure the sync workers share - the
  per-service policy, the rate-limit window, the circuit breaker and the retry delay.

  The two tables \<open>sync_rate_limit_window\<close> and \<open>sync_circuit_state\<close> are maps from their
  primary key to the row.  Every operation runs in one transaction under an advisory lock,
  so it is one step; the argument \<open>db_ok\<close> says whether the statements and the commit of the
  transaction succeed, and when it is false nothing changes and the error is returned.
  Times are nanoseconds: \<open>now\<close> is the clock of the process, \<open>dbnow\<close> the clock of the database.
\<close>

section \<open>Policies and configuration\<close>

record ServicePolicy =
  RateLimitRPS :: int
  MaxRetries :: int
  CircuitFailureThreshold :: int
  CircuitRecoveryTimeout :: int

record InfraConfig =
  Services :: "string \<rightharpoonup> ServicePolicy"
  RetryBaseDelay :: int
  RetryMaxDelay :: int
  RetryJitter :: float64
  QueueWarnDepth :: int
  QueueCritDepth :: int

abbreviation Second :: int where "Second \<equiv> 1000000000"

definition rps_policy :: "int \<Rightarrow> ServicePolicy" where
  "rps_policy n =
     \<lparr>RateLimitRPS = n, MaxRetries = 8, CircuitFailureThreshold = 5, CircuitRecoveryTimeout = 60 * Second\<rparr>"

definition float_lit :: "rat \<Rightarrow> float64" where
  "float_lit q = (case round64 q of Some f \<Rightarrow> f | None \<Rightarrow> NaN)"

definition defaultInfraConfig :: InfraConfig where
  "defaultInfraConfig =
     \<lparr>Services =
        [''eqsl'' \<mapsto> rps_policy 1, ''clublog'' \<mapsto> rps_policy 5, ''lotw'' \<mapsto> rps_policy 1,
         ''qrz'' \<mapsto> rps_policy 2, ''sota'' \<mapsto> rps_policy 1, ''pota'' \<mapsto> rps_policy 1],
      RetryBaseDelay = Second, RetryMaxDelay = 300 * Second, RetryJitter = float_lit (1 / 5),
      QueueWarnDepth = 1000, QueueCritDepth = 10000\<rparr>"

record Config =
  SyncRateLimitEQSLRPS :: int
  SyncRateLimitClublogRPS :: int
  SyncRateLimitLotwRPS :: int
  SyncRateLimitQrzRPS :: int
  SyncRateLimitSotaRPS :: int
  SyncRateLimitPotaRPS :: int
  SyncMaxRetriesEQSL :: int
  SyncMaxRetriesClublog :: int
  SyncMaxRetriesLotw :: int
  SyncMaxRetriesQrz :: int
  SyncMaxRetriesSota :: int
  SyncMaxRetriesPota :: int
  SyncRetryBaseDelay :: int
  SyncRetryMaxDelay :: int
  SyncRetryJitter :: float64
  SyncCircuitFailureThreshold :: int
  SyncCircuitRecoveryTimeout :: int
  SyncQueueWarnDepth :: int
  SyncQueueCriticalDepth :: int

definition zero_policy :: ServicePolicy where
  "zero_policy = \<lparr>RateLimitRPS = 0, MaxRetries = 0, CircuitFailureThreshold = 0, CircuitRecoveryTimeout = 0\<rparr>"

text \<open>
  One loop over a table of positive overrides.  The keys are distinct, so the order in
  which Go iterates over the map does not matter.
\<close>

definition override_policy ::
  "(int \<Rightarrow> ServicePolicy \<Rightarrow> ServicePolicy) \<Rightarrow> (string \<rightharpoonup> ServicePolicy) \<Rightarrow> string \<times> int \<Rightarrow> (string \<rightharpoonup> ServicePolicy)"
where
  "override_policy upd m sv =
     (case sv of (service, n) \<Rightarrow>
        if 0 < n then m(service \<mapsto> upd n (case m service of Some p \<Rightarrow> p | None \<Rightarrow> zero_policy)) else m)"

definition rate_limits :: "Config \<Rightarrow> (string \<times> int) list" where
  "rate_limits cfg =
     [(''eqsl'', SyncRateLimitEQSLRPS cfg), (''clublog'', SyncRateLimitClublogRPS cfg),
      (''lotw'', SyncRateLimitLotwRPS cfg), (''qrz'', SyncRateLimitQrzRPS cfg),
      (''sota'', SyncRateLimitSotaRPS cfg), (''pota'', SyncRateLimitPotaRPS cfg)]"

definition max_retries :: "Config \<Rightarrow> (string \<times> int) list" where
  "max_retries cfg =
     [(''eqsl'', SyncMaxRetriesEQSL cfg), (''clublog'', SyncMaxRetriesClublog cfg),
      (''lotw'', SyncMaxRetriesLotw cfg), (''qrz'', SyncMaxRetriesQrz cfg),
      (''sota'', SyncMaxRetriesSota cfg), (''pota'', SyncMaxRetriesPota cfg)]"

definition all_policies :: "bool \<Rightarrow> (ServicePolicy \<Rightarrow> ServicePolicy) \<Rightarrow> (string \<rightharpoonup> ServicePolicy) \<Rightarrow> (string \<rightharpoonup> ServicePolicy)" where
  "all_policies c upd m = (if c then (\<lambda>service. map_option upd (m service)) else m)"

definition loadInfraConfigFromConfig :: "Config option \<Rightarrow> InfraConfig" where
  "loadInfraConfigFromConfig cfg0 =
     (case cfg0 of
        None \<Rightarrow> defaultInfraConfig
      | Some cfg \<Rightarrow>
          let c = defaultInfraConfig;
              s1 = foldl (override_policy (\<lambda>n. RateLimitRPS_update (\<lambda>_. n))) (Services c) (rate_limits cfg);
              s2 = foldl (override_policy (\<lambda>n. MaxRetries_update (\<lambda>_. n))) s1 (max_retries cfg);
              s3 = all_policies (0 < SyncCircuitFailureThreshold cfg)
                     (CircuitFailureThreshold_update (\<lambda>_. SyncCircuitFailureThreshold cfg)) s2;
              s4 = all_policies (0 < SyncCircuitRecoveryTimeout cfg)
                     (CircuitRecoveryTimeout_update (\<lambda>_. SyncCircuitRecoveryTimeout cfg)) s3
          in \<lparr>Services = s4,
              RetryBaseDelay = (if 0 < SyncRetryBaseDelay cfg then SyncRetryBaseDelay cfg else RetryBaseDelay c),
              RetryMaxDelay = (if 0 < SyncRetryMaxDelay cfg then SyncRetryMaxDelay cfg else RetryMaxDelay c),
              RetryJitter = (if lt64 (Finite 0) (SyncRetryJitter cfg) \<and> le64 (SyncRetryJitter cfg) (Finite 1)
                             then SyncRetryJitter cfg else RetryJitter c),
              QueueWarnDepth = (if 0 < SyncQueueWarnDepth cfg then SyncQueueWarnDepth cfg else QueueWarnDepth c),
              QueueCritDepth = (if 0 < SyncQueueCriticalDepth cfg then SyncQueueCriticalDepth cfg else QueueCritDepth c)\<rparr>)"

definition policy :: "InfraConfig \<Rightarrow> string \<Rightarrow> ServicePolicy" where
  "policy cfg service = (case Services cfg service of Some p \<Rightarrow> p | None \<Rightarrow> rps_policy 1)"


section \<open>The rate-limit window\<close>

datatype DbErr = DbError | NoRows

type_synonym rl_table = "string \<times> int \<rightharpoonup> int"

text \<open>\<open>date_trunc('second', t)\<close>\<close>

definition trunc_second :: "int \<Rightarrow> int" where
  "trunc_second t = t - t mod Second"

text \<open>The largest value of the column type \<open>INTEGER\<close>; a larger one fails the statement.\<close>

definition MaxInt32 :: int where "MaxInt32 = 2147483647"

definition ConsumeRateLimit :: "InfraConfig \<Rightarrow> bool \<Rightarrow> int \<Rightarrow> rl_table \<Rightarrow> string \<Rightarrow> rl_table \<times> (DbErr + bool)" where
  "ConsumeRateLimit cfg db_ok dbnow tbl service =
     (let b = trunc_second dbnow;
          tbl1 = (\<lambda>(s, bs). if s = service \<and> bs < b - 60 * Second then None else tbl (s, bs));
          count = (case tbl1 (service, b) of None \<Rightarrow> 1 | Some n \<Rightarrow> n + 1) in
      if \<not> db_ok \<or> MaxInt32 < count then (tbl, Inl DbError)
      else (tbl1((service, b) \<mapsto> count), Inr (count \<le> RateLimitRPS (policy cfg service))))"

definition IsRateLimitedNow :: "InfraConfig \<Rightarrow> bool \<Rightarrow> int \<Rightarrow> rl_table \<Rightarrow> string \<Rightarrow> DbErr + bool" where
  "IsRateLimitedNow cfg db_ok dbnow tbl service =
     (if \<not> db_ok then Inl DbError
      else (case tbl (service, trunc_second dbnow) of
              None \<Rightarrow> Inl NoRows
            | Some count \<Rightarrow> Inr (RateLimitRPS (policy cfg service) \<le> count)))"


section \<open>The circuit breaker\<close>

datatype CircuitState = CircuitClosed | CircuitOpen | CircuitHalfOpen | CircuitOther string

record circuit_row =
  cr_state :: CircuitState
  cr_failures :: int
  cr_opened_at :: "int option"
  cr_in_flight :: bool
  cr_updated_at :: int
  cr_last_error :: "string option"

type_synonym cb_table = "string \<rightharpoonup> circuit_row"

text \<open>\<open>INSERT ... ON CONFLICT DO NOTHING\<close> with the column defaults.\<close>

definition default_row :: "int \<Rightarrow> circuit_row" where
  "default_row dbnow =
     \<lparr>cr_state = CircuitClosed, cr_failures = 0, cr_opened_at = None, cr_in_flight = False,
      cr_updated_at = dbnow, cr_last_error = None\<rparr>"

definition ensure_row :: "int \<Rightarrow> cb_table \<Rightarrow> string \<Rightarrow> circuit_row" where
  "ensure_row dbnow tbl service = (case tbl service of Some r \<Rightarrow> r | None \<Rightarrow> default_row dbnow)"

definition AllowCircuit ::
  "InfraConfig \<Rightarrow> bool \<Rightarrow> int \<Rightarrow> int \<Rightarrow> cb_table \<Rightarrow> string \<Rightarrow> cb_table \<times> (DbErr + bool \<times> int)" where
  "AllowCircuit cfg db_ok now dbnow tbl service =
     (let timeout = CircuitRecoveryTimeout (policy cfg service);
          r = ensure_row dbnow tbl service in
      if \<not> db_ok then (tbl, Inl DbError)
      else
        (case cr_state r of
           CircuitClosed \<Rightarrow> (tbl(service \<mapsto> r), Inr (True, 0))
         | CircuitOpen \<Rightarrow>
             (let openedAt = (case cr_opened_at r of None \<Rightarrow> now | Some t \<Rightarrow> t) in
              if now < openedAt + timeout then (tbl(service \<mapsto> r), Inr (False, openedAt + timeout - now))
              else (tbl(service \<mapsto> r\<lparr>cr_state := CircuitHalfOpen, cr_in_flight := True, cr_updated_at := dbnow\<rparr>),
                    Inr (True, 0)))
         | CircuitHalfOpen \<Rightarrow>
             (let staleCutoff = now + wrap64 (- 2 * timeout);
                  inFlight = (cr_in_flight r \<and> \<not> cr_updated_at r < staleCutoff) in
              if inFlight then (tbl(service \<mapsto> r), Inr (False, timeout))
              else (tbl(service \<mapsto> r\<lparr>cr_in_flight := True, cr_updated_at := dbnow\<rparr>), Inr (True, 0)))
         | CircuitOther _ \<Rightarrow> (tbl(service \<mapsto> r), Inr (True, 0))))"

definition RecordSuccess :: "bool \<Rightarrow> int \<Rightarrow> cb_table \<Rightarrow> string \<Rightarrow> cb_table \<times> DbErr option" where
  "RecordSuccess db_ok dbnow tbl service =
     (if \<not> db_ok then (tbl, Some DbError)
      else (tbl(service \<mapsto> \<lparr>cr_state = CircuitClosed, cr_failures = 0, cr_opened_at = None, cr_in_flight = False,
                            cr_updated_at = dbnow, cr_last_error = None\<rparr>), None))"

definition RecordFailure ::
  "InfraConfig \<Rightarrow> bool \<Rightarrow> int \<Rightarrow> cb_table \<Rightarrow> string \<Rightarrow> string \<Rightarrow> cb_table \<times> (DbErr + bool)" where
  "RecordFailure cfg db_ok dbnow tbl service errMsg =
     (let r = ensure_row dbnow tbl service;
          nextFailures = cr_failures r + 1;
          shouldOpen = (if cr_state r = CircuitHalfOpen then True
                        else CircuitFailureThreshold (policy cfg service) \<le> nextFailures) in
      if \<not> db_ok \<or> MaxInt32 < nextFailures then (tbl, Inl DbError)
      else if shouldOpen then
        (tbl(service \<mapsto> r\<lparr>cr_state := CircuitOpen, cr_failures := nextFailures, cr_opened_at := Some dbnow,
                          cr_in_flight := False, cr_updated_at := dbnow, cr_last_error := Some errMsg\<rparr>), Inr True)
      else
        (tbl(service \<mapsto> r\<lparr>cr_state := CircuitClosed, cr_failures := nextFailures, cr_in_flight := False,
                          cr_updated_at := dbnow, cr_last_error := Some errMsg\<rparr>), Inr False))"

definition Infra_CircuitState :: "bool \<Rightarrow> cb_table \<Rightarrow> string \<Rightarrow> CircuitState \<times> DbErr option" where
  "Infra_CircuitState db_ok tbl service =
     (if \<not> db_ok then (CircuitClosed, Some DbError)
      else ((case tbl service of Some r \<Rightarrow> cr_state r | None \<Rightarrow> CircuitClosed), None))"


section \<open>Retry delays\<close>

text \<open>Multiplication and addition of \<open>float64\<close> values, rounded once each.\<close>

fun mul64 :: "float64 \<Rightarrow> float64 \<Rightarrow> float64" where
  "mul64 (Finite a) (Finite b) = to_float (a * b)"
| "mul64 (Finite a) (Inf n) = (if a = 0 then NaN else Inf (n \<noteq> (a < 0)))"
| "mul64 (Inf n) (Finite a) = (if a = 0 then NaN else Inf (n \<noteq> (a < 0)))"
| "mul64 (Inf n) (Inf m) = Inf (n \<noteq> m)"
| "mul64 NaN _ = NaN"
| "mul64 _ NaN = NaN"

fun add64 :: "float64 \<Rightarrow> float64 \<Rightarrow> float64" where
  "add64 (Finite a) (Finite b) = to_float (a + b)"
| "add64 (Finite a) (Inf n) = Inf n"
| "add64 (Inf n) (Finite a) = Inf n"
| "add64 (Inf n) (Inf m) = (if n = m then Inf n else NaN)"
| "add64 NaN _ = NaN"
| "add64 _ NaN = NaN"

text \<open>
  \<open>time.Duration(f)\<close> truncates towards zero.  Go leaves the result of an out-of-range
  conversion to the implementation: it is the argument \<open>undef\<close>.
\<close>

definition to_duration :: "int \<Rightarrow> float64 \<Rightarrow> int" where
  "to_duration undef f =
     (case f of
        Finite q \<Rightarrow> let n = (if q < 0 then - \<lfloor>- q\<rfloor> else \<lfloor>q\<rfloor>) in
                    if MinInt64 \<le> n \<and> n \<le> MaxInt64 then n else undef
      | _ \<Rightarrow> undef)"

text \<open>\<open>RetryDelay\<close> for the draw \<open>rnd\<close> of \<open>rand.Float64()\<close>.\<close>

definition RetryDelay :: "InfraConfig \<Rightarrow> int \<Rightarrow> float64 \<Rightarrow> string \<Rightarrow> int \<Rightarrow> int \<times> bool" where
  "RetryDelay cfg undef rnd service retryCount =
     (let attemptNumber = retryCount + 1 in
      if MaxRetries (policy cfg service) < attemptNumber then (0, False)
      else
        let base0 = mul64 (to_float (of_int (RetryBaseDelay cfg))) (to_float (pow2 retryCount));
            maxd = to_float (of_int (RetryMaxDelay cfg));
            base = (if lt64 maxd base0 then maxd else base0);
            jitterRange = RetryJitter cfg;
            factor = (if lt64 (Finite 0) jitterRange
                      then add64 (Finite 1) (mul64 (add64 (mul64 rnd (Finite 2)) (Finite (- 1))) jitterRange)
                      else Finite 1);
            d = to_duration undef (mul64 base factor) in
        (if d < Second then Second else d, True))"

definition NextRetryAt :: "InfraConfig \<Rightarrow> int \<Rightarrow> float64 \<Rightarrow> int \<Rightarrow> string \<Rightarrow> int \<Rightarrow> int option" where
  "NextRetryAt cfg undef rnd now service retryCount =
     (case RetryDelay cfg undef rnd service retryCount of (d, ok) \<Rightarrow> if ok then Some (now + d) else None)"

end
