(* ===== verification/Sync_Breaker.thy ===== *)
theory Sync_Breaker
  imports Sync_Infra
begin

text \<open>
  The contract of the circuit breaker: an abstract breaker for one service, the locale
  that says what its users may rely on, and the interpretation on the operations of
  \<open>infra.go\<close>.
\<close>

section \<open>The abstract breaker\<close>

text \<open>
  \<open>Closed n\<close>: admitting calls after \<open>n\<close> consecutive failures.  \<open>Open n t\<close>: refusing calls since
  \<open>t\<close>.  \<open>Probe n u\<close>: one probe was admitted at \<open>u\<close>.
\<close>

datatype breaker = Closed int | Open int int | Probe int int

datatype event = Allow bool int int | Success bool int | Failure bool int string

fun failures :: "breaker \<Rightarrow> int" where
  "failures (Closed n) = n"
| "failures (Open n t) = n"
| "failures (Probe n u) = n"

definition spec_allow :: "int \<Rightarrow> int \<Rightarrow> int \<Rightarrow> int \<Rightarrow> breaker \<Rightarrow> breaker \<times> bool" where
  "spec_allow timeout cutoff now dbnow b =
     (case b of
        Closed n \<Rightarrow> (b, True)
      | Open n t \<Rightarrow> if now < t + timeout then (b, False) else (Probe n dbnow, True)
      | Probe n u \<Rightarrow> if u < cutoff then (Probe n dbnow, True) else (b, False))"

definition spec_failure :: "int \<Rightarrow> int \<Rightarrow> breaker \<Rightarrow> breaker" where
  "spec_failure threshold dbnow b =
     (let n = failures b + 1 in
      case b of Probe _ _ \<Rightarrow> Open n dbnow | _ \<Rightarrow> if threshold \<le> n then Open n dbnow else Closed n)"

text \<open>One operation on the abstract breaker, and whether it admitted a call.\<close>

definition spec_step :: "int \<Rightarrow> int \<Rightarrow> (int \<Rightarrow> int) \<Rightarrow> int \<Rightarrow> breaker \<Rightarrow> event \<Rightarrow> breaker \<times> bool" where
  "spec_step threshold timeout cutoff cap b e =
     (case e of
        Allow ok now dbnow \<Rightarrow> if ok then spec_allow timeout (cutoff now) now dbnow b else (b, False)
      | Success ok dbnow \<Rightarrow> (if ok then Closed 0 else b, False)
      | Failure ok dbnow msg \<Rightarrow> (if ok \<and> failures b < cap then spec_failure threshold dbnow b else b, False))"

fun spec_run :: "int \<Rightarrow> int \<Rightarrow> (int \<Rightarrow> int) \<Rightarrow> int \<Rightarrow> breaker \<Rightarrow> event list \<Rightarrow> breaker \<times> bool list" where
  "spec_run threshold timeout cutoff cap b [] = (b, [])"
| "spec_run threshold timeout cutoff cap b (e # es) =
     (case spec_step threshold timeout cutoff cap b e of
        (b', a) \<Rightarrow> (case spec_run threshold timeout cutoff cap b' es of (b'', as) \<Rightarrow> (b'', a # as)))"

lemma spec_run_append:
  "spec_run h o' c p b (es @ fs) =
     (case spec_run h o' c p b es of (b', as) \<Rightarrow> (case spec_run h o' c p b' fs of (b'', as') \<Rightarrow> (b'', as @ as')))"
  by (induction es arbitrary: b) (auto split: prod.splits)

lemma length_spec_run: "length (snd (spec_run h o' c p b es)) = length es"
  by (induction es arbitrary: b) (auto split: prod.splits, metis snd_conv)

lemma spec_failures_trip:
  "0 \<le> n \<Longrightarrow> n < h \<Longrightarrow> h \<le> p \<Longrightarrow> n + int (length ds) = h \<Longrightarrow>
   fst (spec_run h o' c p (Closed n) (map (\<lambda>(d, m). Failure True d m) ds)) = Open h (fst (last ds))"
proof (induction ds arbitrary: n)
  case (Cons d ds)
  show ?case
  proof (cases "n + 1 = h")
    case True
    with Cons.prems have "ds = []" by (cases ds) auto
    with Cons.prems True show ?thesis
      by (cases d) (simp add: spec_step_def spec_failure_def)
  next
    case False
    with Cons.prems have n: "n + 1 < h" "ds \<noteq> []" by auto
    with Cons.IH [of "n + 1"] Cons.prems show ?thesis
      by (cases d) (auto simp: spec_step_def spec_failure_def split: prod.splits)
  qed
qed simp

lemma spec_open_blocks:
  "list_all (\<lambda>(ok, now, d). now < t + o') ts \<Longrightarrow>
   spec_run h o' c p (Open n t) (map (\<lambda>(ok, now, d). Allow ok now d) ts) = (Open n t, map (\<lambda>_. False) ts)"
  by (induction ts) (auto simp: spec_step_def spec_allow_def)

lemma spec_probe_blocks:
  "list_all (\<lambda>(ok, now, d). c now \<le> u) ts \<Longrightarrow>
   spec_run h o' c p (Probe n u) (map (\<lambda>(ok, now, d). Allow ok now d) ts) = (Probe n u, map (\<lambda>_. False) ts)"
  by (induction ts) (auto simp: spec_step_def spec_allow_def)


section \<open>The contract\<close>

locale circuit_breaker =
  fixes good :: "'s \<Rightarrow> bool"
    and view :: "'s \<Rightarrow> 'k \<Rightarrow> breaker"
    and allow :: "bool \<Rightarrow> int \<Rightarrow> int \<Rightarrow> 's \<Rightarrow> 'k \<Rightarrow> 's \<times> bool"
    and success :: "bool \<Rightarrow> int \<Rightarrow> 's \<Rightarrow> 'k \<Rightarrow> 's"
    and failure :: "bool \<Rightarrow> int \<Rightarrow> string \<Rightarrow> 's \<Rightarrow> 'k \<Rightarrow> 's"
    and threshold :: "'k \<Rightarrow> int"
    and timeout :: "'k \<Rightarrow> int"
    and cutoff :: "'k \<Rightarrow> int \<Rightarrow> int"
    and cap :: int
  assumes allow_ok: "good s \<Longrightarrow> allow ok now d s k = (s', a) \<Longrightarrow>
        good s' \<and> (view s' k, a) = (if ok then spec_allow (timeout k) (cutoff k now) now d (view s k) else (view s k, False))"
    and success_ok: "good s \<Longrightarrow> good (success ok d s k) \<and> view (success ok d s k) k = (if ok then Closed 0 else view s k)"
    and failure_ok: "good s \<Longrightarrow> good (failure ok d m s k) \<and>
        view (failure ok d m s k) k =
          (if ok \<and> failures (view s k) < cap then spec_failure (threshold k) d (view s k) else view s k)"
    and frame: "k' \<noteq> k \<Longrightarrow> view (fst (allow ok now d s k)) k' = view s k'"
        "k' \<noteq> k \<Longrightarrow> view (success ok d s k) k' = view s k'"
        "k' \<noteq> k \<Longrightarrow> view (failure ok d m s k) k' = view s k'"
begin

definition step :: "'s \<Rightarrow> 'k \<times> event \<Rightarrow> 's \<times> bool" where
  "step s ke =
     (case ke of
        (k, Allow ok now d) \<Rightarrow> allow ok now d s k
      | (k, Success ok d) \<Rightarrow> (success ok d s k, False)
      | (k, Failure ok d m) \<Rightarrow> (failure ok d m s k, False))"

fun run :: "'s \<Rightarrow> ('k \<times> event) list \<Rightarrow> 's \<times> bool list" where
  "run s [] = (s, [])"
| "run s (ke # kes) = (case step s ke of (s', a) \<Rightarrow> (case run s' kes of (s'', as) \<Rightarrow> (s'', a # as)))"

text \<open>The events of one service, and the outcomes that belong to them.\<close>

definition events_of :: "'k \<Rightarrow> ('k \<times> event) list \<Rightarrow> event list" where
  "events_of k kes = map snd (filter (\<lambda>(k', e). k' = k) kes)"

definition outcomes_of :: "'k \<Rightarrow> ('k \<times> event) list \<Rightarrow> bool list \<Rightarrow> bool list" where
  "outcomes_of k kes as = map snd (filter (\<lambda>((k', e), a). k' = k) (zip kes as))"

lemma step_same:
  "good s \<Longrightarrow> step s (k, e) = (s', a) \<Longrightarrow>
   good s' \<and> (view s' k, a) = spec_step (threshold k) (timeout k) (cutoff k) cap (view s k) e"
  using allow_ok success_ok failure_ok by (cases e) (auto simp: step_def spec_step_def)

lemma step_other: "step s (k, e) = (s', a) \<Longrightarrow> k' \<noteq> k \<Longrightarrow> view s' k' = view s k'"
  using frame by (cases e) (auto simp: step_def, metis fst_conv)

text \<open>Whatever the workers do in whatever order, each service sees the abstract breaker on its own events.\<close>

lemma run_refines:
  "good s \<Longrightarrow> run s kes = (s', as) \<Longrightarrow>
   good s' \<and> (view s' k, outcomes_of k kes as) =
     spec_run (threshold k) (timeout k) (cutoff k) cap (view s k) (events_of k kes)"
proof (induction kes arbitrary: s as)
  case (Cons ke kes)
  obtain k1 e where ke: "ke = (k1, e)" by (cases ke)
  obtain s1 a where s1: "step s (k1, e) = (s1, a)" by (cases "step s (k1, e)")
  obtain as1 where as1: "run s1 kes = (s', as1)" "as = a # as1"
    using Cons.prems s1 ke by (auto split: prod.splits)
  have g: "good s1" using step_same [OF Cons.prems(1) s1] by blast
  note ih = Cons.IH [OF g as1(1)]
  show ?case
  proof (cases "k1 = k")
    case True
    have "spec_step (threshold k) (timeout k) (cutoff k) cap (view s k) e = (view s1 k, a)"
      using step_same [OF Cons.prems(1)] s1 True by metis
    with ih True show ?thesis
      by (auto simp: ke as1 outcomes_of_def events_of_def split: prod.splits)
  next
    case False
    with step_other [OF s1, of k] ih show ?thesis by (simp add: ke as1 outcomes_of_def events_of_def)
  qed
qed (simp add: events_of_def outcomes_of_def)

end


section \<open>The operations of infra.go satisfy it\<close>

definition wf_row :: "circuit_row \<Rightarrow> bool" where
  "wf_row r \<longleftrightarrow>
     (case cr_state r of
        CircuitClosed \<Rightarrow> \<not> cr_in_flight r
      | CircuitOpen \<Rightarrow> cr_opened_at r \<noteq> None \<and> \<not> cr_in_flight r
      | CircuitHalfOpen \<Rightarrow> cr_in_flight r
      | CircuitOther _ \<Rightarrow> False)"

definition wf_table :: "cb_table \<Rightarrow> bool" where
  "wf_table tbl \<longleftrightarrow> (\<forall>k r. tbl k = Some r \<longrightarrow> wf_row r)"

definition row_view :: "circuit_row \<Rightarrow> breaker" where
  "row_view r =
     (case cr_state r of
        CircuitOpen \<Rightarrow> Open (cr_failures r) (case cr_opened_at r of Some t \<Rightarrow> t | None \<Rightarrow> 0)
      | CircuitHalfOpen \<Rightarrow> Probe (cr_failures r) (cr_updated_at r)
      | _ \<Rightarrow> Closed (cr_failures r))"

definition table_view :: "cb_table \<Rightarrow> string \<Rightarrow> breaker" where
  "table_view tbl k = (case tbl k of None \<Rightarrow> Closed 0 | Some r \<Rightarrow> row_view r)"

definition allowed :: "DbErr + bool \<times> int \<Rightarrow> bool" where
  "allowed x = (case x of Inr (a, _) \<Rightarrow> a | Inl _ \<Rightarrow> False)"

abbreviation infra_allow :: "InfraConfig \<Rightarrow> bool \<Rightarrow> int \<Rightarrow> int \<Rightarrow> cb_table \<Rightarrow> string \<Rightarrow> cb_table \<times> bool" where
  "infra_allow cfg ok now d tbl k \<equiv> map_prod id allowed (AllowCircuit cfg ok now d tbl k)"

lemma ensure_row_view: "row_view (ensure_row d tbl k) = table_view tbl k"
  by (simp add: ensure_row_def table_view_def row_view_def default_row_def split: option.splits)

lemma wf_ensure_row: "wf_table tbl \<Longrightarrow> wf_row (ensure_row d tbl k)"
  by (auto simp: ensure_row_def wf_table_def wf_row_def default_row_def split: option.splits)

lemma wf_table_upd: "wf_table tbl \<Longrightarrow> wf_row r \<Longrightarrow> wf_table (tbl(k \<mapsto> r))"
  by (simp add: wf_table_def)

lemma table_view_upd: "table_view (tbl(k \<mapsto> r)) k' = (if k' = k then row_view r else table_view tbl k')"
  by (simp add: table_view_def)

lemmas breaker_defs = wf_row_def row_view_def spec_allow_def spec_failure_def allowed_def

lemma AllowCircuit_refines:
  assumes wf: "wf_table tbl" and a: "infra_allow cfg ok now d tbl k = (tbl', a)"
  shows "wf_table tbl' \<and> (table_view tbl' k, a) =
    (if ok then spec_allow (CircuitRecoveryTimeout (policy cfg k)) (now + wrap64 (- 2 * CircuitRecoveryTimeout (policy cfg k)))
        now d (table_view tbl k) else (table_view tbl k, False))"
proof (cases ok)
  case False
  with a wf show ?thesis by (auto simp: AllowCircuit_def allowed_def)
next
  case True
  define r where "r = ensure_row d tbl k"
  have r: "wf_row r" "table_view tbl k = row_view r"
    by (simp_all add: r_def wf_ensure_row [OF wf] ensure_row_view)
  show ?thesis
    using a True r wf
    by (cases "cr_state r")
       (auto simp: AllowCircuit_def Let_def r_def [symmetric] table_view_upd breaker_defs split: if_splits
             intro!: wf_table_upd)
qed

lemma RecordFailure_refines:
  assumes wf: "wf_table tbl" and ok: "ok"
  shows "wf_table (fst (RecordFailure cfg ok d tbl k m)) \<and>
    table_view (fst (RecordFailure cfg ok d tbl k m)) k =
      (if failures (table_view tbl k) < MaxInt32 then spec_failure (CircuitFailureThreshold (policy cfg k)) d (table_view tbl k)
       else table_view tbl k)"
proof -
  define r where "r = ensure_row d tbl k"
  have r: "wf_row r" "table_view tbl k = row_view r"
    by (simp_all add: r_def wf_ensure_row [OF wf] ensure_row_view)
  have f: "failures (row_view r) = cr_failures r" by (cases "cr_state r") (simp_all add: row_view_def)
  show ?thesis
    using ok r wf f
    by (cases "cr_state r")
       (auto simp: RecordFailure_def Let_def r_def [symmetric] table_view_upd breaker_defs intro!: wf_table_upd)
qed

interpretation infra_cb: circuit_breaker wf_table table_view "infra_allow cfg"
    "\<lambda>ok d tbl k. fst (RecordSuccess ok d tbl k)" "\<lambda>ok d m tbl k. fst (RecordFailure cfg ok d tbl k m)"
    "\<lambda>k. CircuitFailureThreshold (policy cfg k)" "\<lambda>k. CircuitRecoveryTimeout (policy cfg k)"
    "\<lambda>k now. now + wrap64 (- 2 * CircuitRecoveryTimeout (policy cfg k))" MaxInt32
  for cfg
proof
  fix s k ok now d s' a and m :: string and k'
  show "wf_table s \<Longrightarrow> infra_allow cfg ok now d s k = (s', a) \<Longrightarrow>
      wf_table s' \<and> (table_view s' k, a) =
        (if ok then spec_allow (CircuitRecoveryTimeout (policy cfg k)) (now + wrap64 (- 2 * CircuitRecoveryTimeout (policy cfg k)))
            now d (table_view s k) else (table_view s k, False))"
    by (rule AllowCircuit_refines)
  show "wf_table s \<Longrightarrow> wf_table (fst (RecordSuccess ok d s k)) \<and>
      table_view (fst (RecordSuccess ok d s k)) k = (if ok then Closed 0 else table_view s k)"
    by (auto simp: RecordSuccess_def table_view_upd breaker_defs intro!: wf_table_upd)
  show "wf_table s \<Longrightarrow> wf_table (fst (RecordFailure cfg ok d s k m)) \<and>
      table_view (fst (RecordFailure cfg ok d s k m)) k =
        (if ok \<and> failures (table_view s k) < MaxInt32 then spec_failure (CircuitFailureThreshold (policy cfg k)) d (table_view s k)
         else table_view s k)"
    by (cases ok) (simp add: RecordFailure_refines, simp add: RecordFailure_def Let_def)
  show "k' \<noteq> k \<Longrightarrow> table_view (fst (infra_allow cfg ok now d s k)) k' = table_view s k'"
    by (auto simp: AllowCircuit_def Let_def table_view_upd split: CircuitState.splits)
  show "k' \<noteq> k \<Longrightarrow> table_view (fst (RecordSuccess ok d s k)) k' = table_view s k'"
    by (simp add: RecordSuccess_def table_view_upd)
  show "k' \<noteq> k \<Longrightarrow> table_view (fst (RecordFailure cfg ok d s k m)) k' = table_view s k'"
    by (simp add: RecordFailure_def Let_def table_view_upd)
qed


section \<open>Workers sharing the table\<close>

fun infra_step :: "InfraConfig \<Rightarrow> cb_table \<Rightarrow> string \<times> event \<Rightarrow> cb_table \<times> bool" where
  "infra_step cfg tbl (k, Allow ok now d) = (case AllowCircuit cfg ok now d tbl k of (tbl', x) \<Rightarrow> (tbl', allowed x))"
| "infra_step cfg tbl (k, Success ok d) = (fst (RecordSuccess ok d tbl k), False)"
| "infra_step cfg tbl (k, Failure ok d m) = (fst (RecordFailure cfg ok d tbl k m), False)"

fun infra_run :: "InfraConfig \<Rightarrow> cb_table \<Rightarrow> (string \<times> event) list \<Rightarrow> cb_table \<times> bool list" where
  "infra_run cfg tbl [] = (tbl, [])"
| "infra_run cfg tbl (ke # kes) =
     (case infra_step cfg tbl ke of (tbl', a) \<Rightarrow> (case infra_run cfg tbl' kes of (tbl'', as) \<Rightarrow> (tbl'', a # as)))"

lemma infra_step_eq: "infra_step cfg tbl ke = infra_cb.step cfg tbl ke"
  by (cases "(cfg, tbl, ke)" rule: infra_step.cases) (auto simp: infra_cb.step_def split: prod.splits)

lemma infra_run_eq: "infra_run cfg tbl kes = infra_cb.run cfg tbl kes"
  by (induction kes arbitrary: tbl) (simp_all add: infra_step_eq)

definition events_of :: "string \<Rightarrow> (string \<times> event) list \<Rightarrow> event list" where
  "events_of k kes = map snd (filter (\<lambda>(k', e). k' = k) kes)"

definition outcomes_of :: "string \<Rightarrow> (string \<times> event) list \<Rightarrow> bool list \<Rightarrow> bool list" where
  "outcomes_of k kes as = map snd (filter (\<lambda>((k', e), a). k' = k) (zip kes as))"

definition spec_run_of :: "InfraConfig \<Rightarrow> string \<Rightarrow> breaker \<Rightarrow> event list \<Rightarrow> breaker \<times> bool list" where
  "spec_run_of cfg k =
     spec_run (CircuitFailureThreshold (policy cfg k)) (CircuitRecoveryTimeout (policy cfg k))
       (\<lambda>now. now + wrap64 (- 2 * CircuitRecoveryTimeout (policy cfg k))) MaxInt32"

lemma infra_run_refines:
  assumes "wf_table tbl" "infra_run cfg tbl kes = (tbl', as)"
  shows "wf_table tbl' \<and> (table_view tbl' k, outcomes_of k kes as) = spec_run_of cfg k (table_view tbl k) (events_of k kes)"
  using infra_cb.run_refines [of tbl cfg kes tbl' as k] assms
  by (simp add: infra_run_eq spec_run_of_def events_of_def outcomes_of_def infra_cb.events_of_def infra_cb.outcomes_of_def)


section \<open>Properties\<close>

text \<open>
  C6. Refinement.  Whatever the workers of all services do, in whatever order, and whichever
  of their transactions fail, the row of a service moves exactly as the abstract breaker
  does on the events of that service alone, each \<open>AllowCircuit\<close> admits exactly when the
  abstract breaker does, and the rows stay well-formed.
\<close>

theorem circuit_breaker_refinement:
  assumes "wf_table tbl"
  shows "case infra_run cfg tbl kes of (tbl', as) \<Rightarrow>
    wf_table tbl' \<and> (table_view tbl' k, outcomes_of k kes as) = spec_run_of cfg k (table_view tbl k) (events_of k kes)"
  using infra_run_refines [OF assms] by (simp split: prod.splits)

theorem circuit_breaker_refinement_witness:
  "case infra_run defaultInfraConfig Map.empty [(''qrz'', Failure True 5 ''timeout'')] of (tbl', as) \<Rightarrow>
    wf_table tbl' \<and> (table_view tbl' ''qrz'', outcomes_of ''qrz'' [(''qrz'', Failure True 5 ''timeout'')] as) =
      spec_run_of defaultInfraConfig ''qrz'' (Closed 0) [Failure True 5 ''timeout'']"
  using circuit_breaker_refinement
    [where tbl = Map.empty and cfg = defaultInfraConfig and kes = "[(''qrz'', Failure True 5 ''timeout'')]" and k = "''qrz''"]
  by (simp add: wf_table_def table_view_def events_of_def)

text \<open>
  The breaker trips and stays open.  From a fresh circuit, as many consecutive failures
  as the threshold open it, whatever the other services do in between, and every call
  that asks before the recovery timeout has passed since the last failure is refused.
\<close>

theorem circuit_trips_and_blocks:
  assumes "wf_table tbl" "table_view tbl k = Closed 0"
    and "events_of k kes = map (\<lambda>(d, m). Failure True d m) ds @ map (\<lambda>(ok, now, d). Allow ok now d) ts"
    and "int (length ds) = CircuitFailureThreshold (policy cfg k)" "ds \<noteq> []" "int (length ds) \<le> MaxInt32"
    and "list_all (\<lambda>(ok, now, d). now < fst (last ds) + CircuitRecoveryTimeout (policy cfg k)) ts"
  shows "case infra_run cfg tbl kes of (tbl', as) \<Rightarrow>
    table_view tbl' k = Open (CircuitFailureThreshold (policy cfg k)) (fst (last ds))
    \<and> drop (length ds) (outcomes_of k kes as) = map (\<lambda>_. False) ts"
proof -
  obtain tbl' as where run: "infra_run cfg tbl kes = (tbl', as)" by (cases "infra_run cfg tbl kes")
  let ?p = "policy cfg k" and ?F = "map (\<lambda>(d, m). Failure True d m) ds"
  let ?c = "\<lambda>now. now + wrap64 (- 2 * CircuitRecoveryTimeout ?p)"
  let ?run = "spec_run (CircuitFailureThreshold ?p) (CircuitRecoveryTimeout ?p) ?c MaxInt32"
  have pos: "0 < CircuitFailureThreshold ?p" using assms(4,5) by (cases ds) auto
  obtain as1 where as1: "?run (Closed 0) ?F = (Open (CircuitFailureThreshold ?p) (fst (last ds)), as1)"
    using spec_failures_trip [of 0 "CircuitFailureThreshold ?p" MaxInt32 ds "CircuitRecoveryTimeout ?p" ?c] assms(4,6) pos
    by (cases "?run (Closed 0) ?F") simp
  then have "length as1 = length ds" using length_spec_run [of _ _ _ _ "Closed 0" ?F] by (metis length_map snd_conv)
  moreover have "(table_view tbl' k, outcomes_of k kes as) =
      (Open (CircuitFailureThreshold ?p) (fst (last ds)), as1 @ map (\<lambda>_. False) ts)"
    using infra_run_refines [OF assms(1) run, of k] as1 spec_open_blocks [OF assms(7)] assms(2,3)
    by (simp add: spec_run_of_def spec_run_append)
  ultimately show ?thesis by (simp add: run)
qed

definition tripped :: "(string \<times> event) list" where
  "tripped =
     [(''qrz'', Failure True 1 ''e''), (''qrz'', Failure True 2 ''e''), (''lotw'', Success True 3), (''qrz'', Failure True 4 ''e''),
      (''qrz'', Failure True 5 ''e''), (''qrz'', Failure True 6 ''e''), (''qrz'', Allow True 7 7)]"

lemma qrz_policy:
  "CircuitFailureThreshold (policy defaultInfraConfig ''qrz'') = 5"
  "CircuitRecoveryTimeout (policy defaultInfraConfig ''qrz'') = 60000000000"
  by (simp_all add: policy_def defaultInfraConfig_def rps_policy_def)

theorem circuit_trips_and_blocks_witness:
  "case infra_run defaultInfraConfig Map.empty tripped of (tbl', as) \<Rightarrow>
     table_view tbl' ''qrz'' = Open 5 6 \<and> drop 5 (outcomes_of ''qrz'' tripped as) = [False]"
proof -
  let ?ds = "[(1, ''e''), (2, ''e''), (4, ''e''), (5, ''e''), (6, ''e'')]"
  have "wf_table Map.empty" "table_view Map.empty ''qrz'' = Closed 0" by (simp_all add: wf_table_def table_view_def)
  moreover have "events_of ''qrz'' tripped = map (\<lambda>(d, m). Failure True d m) ?ds @ map (\<lambda>(ok, now, d). Allow ok now d) [(True, 7, 7)]"
    by (simp add: events_of_def tripped_def)
  ultimately show ?thesis
    using circuit_trips_and_blocks [of Map.empty "''qrz''" tripped ?ds "[(True, 7, 7)]" defaultInfraConfig]
    by (simp add: qrz_policy MaxInt32_def eval_nat_numeral)
qed

text \<open>
  One probe at a time.  Once the recovery timeout of an open circuit has passed, the
  first worker that asks is let through as the probe, and every other worker that asks
  before the probe has become stale is refused, until somebody records an outcome.
\<close>

theorem single_probe:
  assumes "wf_table tbl" "table_view tbl k = Open n t" "t + CircuitRecoveryTimeout (policy cfg k) \<le> nowp"
    and "events_of k kes = Allow True nowp dp # map (\<lambda>(ok, now, d). Allow ok now d) ts"
    and "list_all (\<lambda>(ok, now, d). now + wrap64 (- 2 * CircuitRecoveryTimeout (policy cfg k)) \<le> dp) ts"
  shows "case infra_run cfg tbl kes of (tbl', as) \<Rightarrow>
    table_view tbl' k = Probe n dp \<and> outcomes_of k kes as = True # map (\<lambda>_. False) ts"
proof -
  obtain tbl' as where run: "infra_run cfg tbl kes = (tbl', as)" by (cases "infra_run cfg tbl kes")
  show ?thesis
    using infra_run_refines [OF assms(1) run, of k] assms(2,3,4) spec_probe_blocks [OF assms(5)]
    by (simp add: run spec_run_of_def spec_step_def spec_allow_def)
qed

definition open_table :: cb_table where
  "open_table =
     [''qrz'' \<mapsto> \<lparr>cr_state = CircuitOpen, cr_failures = 5, cr_opened_at = Some 0, cr_in_flight = False,
                 cr_updated_at = 0, cr_last_error = Some ''e''\<rparr>]"

lemma open_table_ok: "wf_table open_table" "table_view open_table ''qrz'' = Open 5 0"
  by (simp_all add: open_table_def wf_table_def table_view_def breaker_defs)

theorem single_probe_witness:
  "case infra_run defaultInfraConfig open_table
       [(''qrz'', Allow True 60000000000 60000000000), (''qrz'', Allow True 60000000001 60000000001)] of (tbl', as) \<Rightarrow>
     table_view tbl' ''qrz'' = Probe 5 60000000000
     \<and> outcomes_of ''qrz'' [(''qrz'', Allow True 60000000000 60000000000), (''qrz'', Allow True 60000000001 60000000001)] as
        = [True, False]"
proof -
  let ?kes = "[(''qrz'', Allow True 60000000000 60000000000), (''qrz'', Allow True 60000000001 60000000001)]"
  have "events_of ''qrz'' ?kes = Allow True 60000000000 60000000000 # map (\<lambda>(ok, now, d). Allow ok now d) [(True, 60000000001, 60000000001)]"
    by (simp add: events_of_def)
  then show ?thesis
    using single_probe [OF open_table_ok, of defaultInfraConfig 60000000000 ?kes 60000000000 "[(True, 60000000001, 60000000001)]"]
    by (simp add: qrz_policy wrap64_def del: infra_run.simps)
qed

text \<open>
  C34. No circuit is stuck.  In every well-formed table there is for each service a time
  after which \<open>AllowCircuit\<close> admits a call, also when the worker that was let through as
  the probe never reported back.
\<close>

theorem circuit_never_stuck:
  assumes "wf_table tbl"
  shows "\<exists>t0. \<forall>now d. t0 \<le> now \<longrightarrow> allowed (snd (AllowCircuit cfg True now d tbl k))"
proof -
  let ?o = "CircuitRecoveryTimeout (policy cfg k)"
  have adm: "allowed (snd (AllowCircuit cfg True now d tbl k)) =
      snd (spec_allow ?o (now + wrap64 (- 2 * ?o)) now d (table_view tbl k))" for now d
  proof (cases "AllowCircuit cfg True now d tbl k")
    case (Pair tbl' x)
    with AllowCircuit_refines [OF assms, of cfg True now d k tbl' "allowed x"] show ?thesis by simp (metis snd_conv)
  qed
  show ?thesis
  proof (cases "table_view tbl k")
    case (Closed n)
    then show ?thesis by (simp add: adm spec_allow_def)
  next
    case (Open n t)
    then show ?thesis by (intro exI [of _ "t + ?o"]) (simp add: adm spec_allow_def)
  next
    case (Probe n u)
    then show ?thesis by (intro exI [of _ "u - wrap64 (- 2 * ?o) + 1"]) (simp add: adm spec_allow_def)
  qed
qed

theorem circuit_never_stuck_witness:
  "\<exists>t0. \<forall>now d. t0 \<le> now \<longrightarrow> allowed (snd (AllowCircuit defaultInfraConfig True now d open_table ''qrz''))"
  by (rule circuit_never_stuck [OF open_table_ok(1)])

end
