(* ===== verification/Sync_Limits.thy ===== *)
theory Sync_Limits
  imports Sync_Infra
begin

text \<open>
  What the rate-limit window and the retry delay of \<open>infra.go\<close> guarantee.
\<close>

section \<open>The rate-limit window\<close>

text \<open>A sequence of \<open>ConsumeRateLimit\<close> calls: service, outcome of the transaction, clock of the database.\<close>

type_synonym rl_call = "string \<times> bool \<times> int"

fun rl_run :: "InfraConfig \<Rightarrow> rl_table \<Rightarrow> rl_call list \<Rightarrow> (DbErr + bool) list" where
  "rl_run cfg tbl [] = []"
| "rl_run cfg tbl ((service, ok, t) # cs) =
     (case ConsumeRateLimit cfg ok t tbl service of (tbl', r) \<Rightarrow> r # rl_run cfg tbl' cs)"

definition in_bucket :: "string \<Rightarrow> int \<Rightarrow> rl_call \<Rightarrow> bool" where
  "in_bucket k b c \<longleftrightarrow> fst c = k \<and> trunc_second (snd (snd c)) = b"

definition admitted :: "InfraConfig \<Rightarrow> string \<Rightarrow> int \<Rightarrow> rl_table \<Rightarrow> rl_call list \<Rightarrow> nat" where
  "admitted cfg k b tbl cs =
     length (filter (\<lambda>(c, r). in_bucket k b c \<and> r = Inr True) (zip cs (rl_run cfg tbl cs)))"

definition count_at :: "rl_table \<Rightarrow> string \<Rightarrow> int \<Rightarrow> int" where
  "count_at tbl k b = (case tbl (k, b) of None \<Rightarrow> 0 | Some n \<Rightarrow> n)"

definition calls_in :: "string \<Rightarrow> int \<Rightarrow> rl_call list \<Rightarrow> nat" where
  "calls_in k b cs = length (filter (in_bucket k b) cs)"

lemma trunc_second_mono: "s \<le> t \<Longrightarrow> trunc_second s \<le> trunc_second t"
proof -
  assume "s \<le> t"
  then have "s div Second \<le> t div Second" by (rule zdiv_mono1) simp
  moreover have "trunc_second x = Second * (x div Second)" for x
    by (simp add: trunc_second_def minus_mod_eq_mult_div)
  ultimately show ?thesis by simp
qed

lemma admitted_Nil [simp]: "admitted cfg k b tbl [] = 0"
  by (simp add: admitted_def)

lemma admitted_Cons:
  "admitted cfg k b tbl ((s, ok, t) # cs) =
     (case ConsumeRateLimit cfg ok t tbl s of (tbl', r) \<Rightarrow>
        (if in_bucket k b (s, ok, t) \<and> r = Inr True then 1 else 0) + admitted cfg k b tbl' cs)"
  by (simp add: admitted_def split: prod.splits)

lemma admitted_late: "list_all (\<lambda>c. b < trunc_second (snd (snd c))) cs \<Longrightarrow> admitted cfg k b tbl cs = 0"
  by (induction cs arbitrary: tbl) (auto simp: admitted_Cons in_bucket_def split: prod.splits)

lemma calls_in_late: "list_all (\<lambda>c. b < trunc_second (snd (snd c))) cs \<Longrightarrow> calls_in k b cs = 0"
  by (auto simp: calls_in_def in_bucket_def list_all_iff filter_empty_conv)

text \<open>A call counts in its own bucket, and forgets only buckets older than a minute.\<close>

lemma consume_count:
  assumes "ConsumeRateLimit cfg ok t tbl s = (tbl', r)" "\<not> b < trunc_second t - 60 * Second"
  shows "count_at tbl' k b =
    (if in_bucket k b (s, ok, t) \<and> ok \<and> count_at tbl k b < MaxInt32 then count_at tbl k b + 1 else count_at tbl k b)"
  using assms
  by (auto simp: ConsumeRateLimit_def Let_def count_at_def in_bucket_def split: if_splits option.splits)

lemma consume_result:
  "ConsumeRateLimit cfg ok t tbl s = (tbl', r) \<Longrightarrow> in_bucket k b (s, ok, t) \<Longrightarrow>
   r = Inr True \<longleftrightarrow> ok \<and> count_at tbl k b < MaxInt32 \<and> count_at tbl k b < RateLimitRPS (policy cfg k)"
  by (auto simp: ConsumeRateLimit_def Let_def count_at_def in_bucket_def split: if_splits option.splits)

lemma sorted_late:
  "\<forall>c \<in> set cs. t \<le> snd (snd c) \<Longrightarrow> b < trunc_second t \<Longrightarrow>
   list_all (\<lambda>c. b < trunc_second (snd (snd c))) cs"
  using trunc_second_mono by (fastforce simp: list_all_iff)

lemma admitted_bound:
  assumes "sorted (map (snd \<circ> snd) cs)"
  shows "int (admitted cfg k b tbl cs) \<le> max 0 (RateLimitRPS (policy cfg k) - count_at tbl k b)"
  using assms
proof (induction cs arbitrary: tbl)
  case (Cons c cs)
  obtain s ok t where c: "c = (s, ok, t)" by (cases c)
  obtain tbl' r where r: "ConsumeRateLimit cfg ok t tbl s = (tbl', r)" by (cases "ConsumeRateLimit cfg ok t tbl s")
  note ih = Cons.IH [of tbl']
  show ?case
  proof (cases "b < trunc_second t - 60 * Second")
    case True
    then have "admitted cfg k b tbl' cs = 0" "\<not> in_bucket k b c"
      using Cons.prems c by (auto intro!: admitted_late sorted_late [of _ t] simp: in_bucket_def)
    then show ?thesis by (simp add: c admitted_Cons r)
  next
    case False
    note n = consume_count [OF r False, of k]
    show ?thesis
      using n ih Cons.prems consume_result [OF r, of k b] by (auto simp: c admitted_Cons r split: if_splits)
  qed
qed simp

lemma admitted_exact:
  assumes "sorted (map (snd \<circ> snd) cs)" "list_all (fst \<circ> snd) cs" "RateLimitRPS (policy cfg k) \<le> MaxInt32"
  shows "int (admitted cfg k b tbl cs) =
    min (int (calls_in k b cs)) (max 0 (RateLimitRPS (policy cfg k) - count_at tbl k b))"
  using assms
proof (induction cs arbitrary: tbl)
  case (Cons c cs)
  obtain s ok t where c: "c = (s, ok, t)" by (cases c)
  obtain tbl' r where r: "ConsumeRateLimit cfg ok t tbl s = (tbl', r)" by (cases "ConsumeRateLimit cfg ok t tbl s")
  note ih = Cons.IH [of tbl']
  have ok: ok using Cons.prems c by simp
  show ?case
  proof (cases "b < trunc_second t - 60 * Second")
    case True
    then have l: "list_all (\<lambda>c. b < trunc_second (snd (snd c))) (c # cs)"
      using Cons.prems c by (auto intro!: sorted_late [of _ t])
    show ?thesis using admitted_late [OF l] calls_in_late [OF l] by simp
  next
    case False
    note n = consume_count [OF r False, of k]
    have "calls_in k b (c # cs) = (if in_bucket k b c then 1 else 0) + calls_in k b cs" by (simp add: calls_in_def)
    moreover have "admitted cfg k b tbl (c # cs) =
        (if in_bucket k b c \<and> r = Inr True then 1 else 0) + admitted cfg k b tbl' cs"
      by (simp add: c admitted_Cons r)
    ultimately show ?thesis
      using n ih Cons.prems consume_result [OF r, of k b] ok by (auto simp: c split: if_splits)
  qed
qed (simp add: calls_in_def)


section \<open>Properties\<close>

text \<open>
  The rate limit holds across workers and services.  For every sequence of
  \<open>ConsumeRateLimit\<close> calls under a clock that does not run backwards, whichever
  transactions fail, a service is admitted at most \<open>RateLimitRPS\<close> times in each second of
  the database clock; and when no transaction fails, exactly the first \<open>RateLimitRPS\<close>
  calls of the second are admitted, so no permit is lost.
\<close>

theorem rate_limit_per_second:
  assumes "sorted (map (snd \<circ> snd) cs)"
  shows "int (admitted cfg k b Map.empty cs) \<le> max 0 (RateLimitRPS (policy cfg k))
    \<and> (if list_all (fst \<circ> snd) cs \<and> RateLimitRPS (policy cfg k) \<le> MaxInt32
       then int (admitted cfg k b Map.empty cs) = min (int (calls_in k b cs)) (max 0 (RateLimitRPS (policy cfg k)))
       else True)"
  using admitted_bound [OF assms, of cfg k b Map.empty] admitted_exact [OF assms, of cfg k b Map.empty]
  by (simp add: count_at_def)

theorem rate_limit_per_second_witness:
  "int (admitted defaultInfraConfig ''qrz'' 0 Map.empty
      [(''qrz'', True, 1), (''lotw'', True, 2), (''qrz'', True, 3), (''qrz'', True, 4)]) = 2"
proof -
  let ?cs = "[(''qrz'', True, 1), (''lotw'', True, 2), (''qrz'', True, 3), (''qrz'', True, 4)]"
  have "RateLimitRPS (policy defaultInfraConfig ''qrz'') = 2"
    by (simp add: policy_def defaultInfraConfig_def rps_policy_def)
  moreover have "calls_in ''qrz'' 0 ?cs = 3" by (simp add: calls_in_def in_bucket_def trunc_second_def)
  ultimately show ?thesis
    using rate_limit_per_second [of ?cs defaultInfraConfig "''qrz''" 0] by (simp add: MaxInt32_def)
qed

end
