(* ===== verification/Auth_Rbac.thy ===== *)
theory Auth_Rbac
  imports Go_Prelude
begin

text \<open>
  \<open>api/internal/auth/rbac.go\<close> and the identity of \<open>api/internal/auth/auth.go\<close>: the roles of a
  logbook, their permissions, and the authenticated user.  A \<open>Role\<close> is the string the
  database stores, as in the source.  The five roles as a linear order (\<open>role_level\<close>) are the
  abstract specification that \<open>AtLeast\<close> and \<open>HasPermission\<close> are compared with.
\<close>

section \<open>Roles and permissions\<close>

type_synonym Role = string

definition RoleOwner :: Role where "RoleOwner = ''owner''"
definition RoleAdmin :: Role where "RoleAdmin = ''admin''"
definition RoleOperator :: Role where "RoleOperator = ''operator''"
definition RoleContributor :: Role where "RoleContributor = ''contributor''"
definition RoleViewer :: Role where "RoleViewer = ''viewer''"

lemmas role_defs = RoleOwner_def RoleAdmin_def RoleOperator_def RoleContributor_def RoleViewer_def

datatype Permission =
    PermissionLogbookRead | PermissionLogbookUpdate | PermissionLogbookDelete | PermissionManageMembers
  | PermissionTransferOwnership | PermissionManageBilling | PermissionQSORead | PermissionQSOCreate
  | PermissionQSOUpdate | PermissionQSODelete | PermissionImportADIF | PermissionExportADIF | PermissionStatsRead

definition roleOrder :: "(Role \<times> int) list" where
  "roleOrder = [(RoleViewer, 1), (RoleContributor, 2), (RoleOperator, 3), (RoleAdmin, 4), (RoleOwner, 5)]"

definition rolePermissions :: "(Role \<times> Permission list) list" where
  "rolePermissions = [
    (RoleOwner,
      [PermissionLogbookRead, PermissionLogbookUpdate, PermissionLogbookDelete, PermissionManageMembers,
       PermissionTransferOwnership, PermissionManageBilling, PermissionQSORead, PermissionQSOCreate,
       PermissionQSOUpdate, PermissionQSODelete, PermissionImportADIF, PermissionExportADIF, PermissionStatsRead]),
    (RoleAdmin,
      [PermissionLogbookRead, PermissionLogbookUpdate, PermissionManageMembers, PermissionQSORead, PermissionQSOCreate,
       PermissionQSOUpdate, PermissionQSODelete, PermissionImportADIF, PermissionExportADIF, PermissionStatsRead]),
    (RoleOperator,
      [PermissionLogbookRead, PermissionQSORead, PermissionQSOCreate, PermissionQSOUpdate, PermissionQSODelete,
       PermissionImportADIF, PermissionExportADIF, PermissionStatsRead]),
    (RoleContributor,
      [PermissionLogbookRead, PermissionQSORead, PermissionQSOCreate, PermissionQSOUpdate, PermissionQSODelete,
       PermissionExportADIF]),
    (RoleViewer, [PermissionLogbookRead, PermissionQSORead, PermissionExportADIF])]"

definition ParseRole :: "string \<Rightarrow> Role \<times> bool" where
  "ParseRole value = (let r = ToLower (TrimSpace value) in (r, has_key roleOrder r))"

text \<open>A missing key of the map reads as zero.\<close>

definition role_rank :: "Role \<Rightarrow> int" where
  "role_rank r = (case map_of roleOrder r of Some n \<Rightarrow> n | None \<Rightarrow> 0)"

definition Role_AtLeast :: "Role \<Rightarrow> Role \<Rightarrow> bool" where
  "Role_AtLeast r minRole \<longleftrightarrow> role_rank minRole \<le> role_rank r"

definition Role_HasPermission :: "Role \<Rightarrow> Permission \<Rightarrow> bool" where
  "Role_HasPermission r permission =
     (case map_of rolePermissions r of None \<Rightarrow> False | Some perms \<Rightarrow> permission \<in> set perms)"


section \<open>The roles as a linear order\<close>

datatype role_level = Viewer | Contributor | Operator | Admin | Owner

fun level_rank :: "role_level \<Rightarrow> nat" where
  "level_rank Viewer = 1"
| "level_rank Contributor = 2"
| "level_rank Operator = 3"
| "level_rank Admin = 4"
| "level_rank Owner = 5"

instantiation role_level :: linorder
begin

definition less_eq_role_level :: "role_level \<Rightarrow> role_level \<Rightarrow> bool" where
  "less_eq_role_level a b \<longleftrightarrow> level_rank a \<le> level_rank b"

definition less_role_level :: "role_level \<Rightarrow> role_level \<Rightarrow> bool" where
  "less_role_level a b \<longleftrightarrow> level_rank a < level_rank b"

instance
proof
  fix a b c :: role_level
  show "a < b \<longleftrightarrow> a \<le> b \<and> \<not> b \<le> a" by (auto simp: less_eq_role_level_def less_role_level_def)
  show "a \<le> a" by (simp add: less_eq_role_level_def)
  show "a \<le> b \<Longrightarrow> b \<le> c \<Longrightarrow> a \<le> c" by (simp add: less_eq_role_level_def)
  show "a \<le> b \<Longrightarrow> b \<le> a \<Longrightarrow> a = b" by (cases a; cases b) (simp_all add: less_eq_role_level_def)
  show "a \<le> b \<or> b \<le> a" by (auto simp: less_eq_role_level_def)
qed

end

fun role_name :: "role_level \<Rightarrow> Role" where
  "role_name Viewer = RoleViewer"
| "role_name Contributor = RoleContributor"
| "role_name Operator = RoleOperator"
| "role_name Admin = RoleAdmin"
| "role_name Owner = RoleOwner"

text \<open>The least role that holds a permission.\<close>

fun required_level :: "Permission \<Rightarrow> role_level" where
  "required_level PermissionLogbookRead = Viewer"
| "required_level PermissionQSORead = Viewer"
| "required_level PermissionExportADIF = Viewer"
| "required_level PermissionQSOCreate = Contributor"
| "required_level PermissionQSOUpdate = Contributor"
| "required_level PermissionQSODelete = Contributor"
| "required_level PermissionImportADIF = Operator"
| "required_level PermissionStatsRead = Operator"
| "required_level PermissionLogbookUpdate = Admin"
| "required_level PermissionManageMembers = Admin"
| "required_level PermissionLogbookDelete = Owner"
| "required_level PermissionTransferOwnership = Owner"
| "required_level PermissionManageBilling = Owner"

lemma role_rank_name: "role_rank (role_name l) = int (level_rank l)"
  by (cases l) (simp_all add: role_rank_def roleOrder_def role_defs)

lemma HasPermission_level: "Role_HasPermission (role_name l) p \<longleftrightarrow> required_level p \<le> l"
  by (cases l; cases p) (simp_all add: Role_HasPermission_def rolePermissions_def role_defs less_eq_role_level_def)

lemma has_key_role_name: "has_key roleOrder (role_name l)"
  by (cases l) (simp_all add: has_key_iff roleOrder_def)

lemma ParseRole_valid: "snd (ParseRole v) \<longleftrightarrow> (\<exists>l. fst (ParseRole v) = role_name l)"
proof -
  have "has_key roleOrder r \<longleftrightarrow> (\<exists>l. r = role_name l)" for r
  proof
    show "has_key roleOrder r \<Longrightarrow> \<exists>l. r = role_name l"
      by (auto simp: has_key_iff roleOrder_def intro: exI [of _ Viewer] exI [of _ Contributor] exI [of _ Operator]
          exI [of _ Admin] exI [of _ Owner])
    show "\<exists>l. r = role_name l \<Longrightarrow> has_key roleOrder r"
      using has_key_role_name by blast
  qed
  then show ?thesis by (simp add: ParseRole_def Let_def)
qed

lemma HasPermission_unknown: "\<not> snd (ParseRole v) \<Longrightarrow> \<not> Role_HasPermission (fst (ParseRole v)) p"
  by (auto simp: ParseRole_def Role_HasPermission_def rolePermissions_def roleOrder_def has_key_iff Let_def split: if_splits)


section \<open>The authenticated user\<close>

record 'u UserInfo =
  ui_UserID :: int
  ui_UserUUID :: 'u
  ui_Email :: string
  ui_ExternalID :: string
  ui_APIKeyScopes :: "string list option"

text \<open>\<open>UserIDFromContext\<close> on the value the context holds under \<open>userInfoKey\<close>.\<close>

definition UserIDFromContext :: "'u UserInfo option \<Rightarrow> int \<times> bool" where
  "UserIDFromContext info =
     (case info of None \<Rightarrow> (0, False) | Some i \<Rightarrow> if ui_UserID i = 0 then (0, False) else (ui_UserID i, True))"


section \<open>Properties\<close>

text \<open>
  The roles form a hierarchy.  On the names that \<open>ParseRole\<close> accepts, which are exactly
  those of the five roles in any case and with surrounding spaces, \<open>AtLeast\<close> is the linear
  order viewer < contributor < operator < admin < owner, a permission is granted exactly
  from its required role upwards, and so a higher role never lacks a permission of a
  lower one; a name that is not accepted has no permission at all.
\<close>

theorem rbac_hierarchy:
  "(case ParseRole v of (r, ok) \<Rightarrow>
      if ok then \<exists>l. r = role_name l \<and> r = ToLower (TrimSpace v) else \<not> Role_HasPermission r p)
   \<and> (Role_AtLeast (role_name a) (role_name b) \<longleftrightarrow> b \<le> a)
   \<and> (Role_HasPermission (role_name a) p \<longleftrightarrow> required_level p \<le> a)
   \<and> Role_HasPermission (role_name (max a b)) p = (Role_HasPermission (role_name a) p \<or> Role_HasPermission (role_name b) p)"
proof -
  have "case ParseRole v of (r, ok) \<Rightarrow>
      if ok then \<exists>l. r = role_name l \<and> r = ToLower (TrimSpace v) else \<not> Role_HasPermission r p"
    using ParseRole_valid [of v] HasPermission_unknown [of v p] by (auto simp: ParseRole_def Let_def)
  moreover have "Role_AtLeast (role_name a) (role_name b) \<longleftrightarrow> b \<le> a"
    by (simp add: Role_AtLeast_def role_rank_name less_eq_role_level_def)
  ultimately show ?thesis by (simp add: HasPermission_level le_max_iff_disj)
qed

end
