(* ===== verification/Plan.thy ===== *)
theory Plan
  imports Go_Prelude
begin

text \<open>
  \<open>pkg/plan\<close>: subscription tiers, their limits, the error that reports a reached limit, and
  the default provider.  The users table is the map from user ids to the tier of the users
  that are not deleted; a Go error is its chain of \<open>%w\<close> wrappings.
\<close>

record Limits =
  MaxQSOs :: int
  MaxLogbooks :: int
  MaxSyncServices :: int
  APIAccess :: bool
  MobileAccess :: bool
  DesktopCapture :: bool
  PrioritySync :: bool
  ContestLogging :: bool
  AdvancedStats :: bool
  AwardsTracking :: bool

definition Unlimited :: Limits where
  "Unlimited =
     \<lparr>MaxQSOs = -1, MaxLogbooks = -1, MaxSyncServices = -1, APIAccess = True, MobileAccess = True,
      DesktopCapture = True, PrioritySync = True, ContestLogging = True, AdvancedStats = True, AwardsTracking = True\<rparr>"

definition TierLimits :: "(string \<times> Limits) list" where
  "TierLimits = [
    (''free'',
      \<lparr>MaxQSOs = 500, MaxLogbooks = 1, MaxSyncServices = 1, APIAccess = False, MobileAccess = True,
       DesktopCapture = False, PrioritySync = False, ContestLogging = False, AdvancedStats = False, AwardsTracking = True\<rparr>),
    (''standard'',
      \<lparr>MaxQSOs = 5000, MaxLogbooks = 3, MaxSyncServices = 3, APIAccess = True, MobileAccess = True,
       DesktopCapture = True, PrioritySync = False, ContestLogging = True, AdvancedStats = True, AwardsTracking = True\<rparr>),
    (''premium'',
      \<lparr>MaxQSOs = -1, MaxLogbooks = 10, MaxSyncServices = 5, APIAccess = True, MobileAccess = True,
       DesktopCapture = True, PrioritySync = True, ContestLogging = True, AdvancedStats = True, AwardsTracking = True\<rparr>),
    (''club'',
      \<lparr>MaxQSOs = -1, MaxLogbooks = -1, MaxSyncServices = -1, APIAccess = True, MobileAccess = True,
       DesktopCapture = True, PrioritySync = True, ContestLogging = True, AdvancedStats = True, AwardsTracking = True\<rparr>)]"

definition LimitsForTier :: "string \<Rightarrow> Limits" where
  "LimitsForTier tier = (case map_of TierLimits tier of Some l \<Rightarrow> l | None \<Rightarrow> Unlimited)"

datatype Resource =
    ResourceQSOCreate | ResourceLogbookCreate | ResourceSyncService | ResourceAPIAccess | ResourceMobileAccess
  | ResourceDesktopCapture | ResourceContestLog | ResourceAdvancedStats | ResourceAwardsTracking

record PlanLimitError =
  pe_Resource :: Resource
  pe_Tier :: string
  pe_Limit :: int
  pe_Current :: int
  pe_Message :: string

definition PlanLimitError_Error :: "PlanLimitError \<Rightarrow> string" where
  "PlanLimitError_Error e =
     (if pe_Message e \<noteq> [] then pe_Message e
      else ''plan limit reached: '' @ pe_Tier e @ '' tier allows '' @ show_int (pe_Limit e)
           @ '', currently at '' @ show_int (pe_Current e))"

datatype plan_error = LimitReached PlanLimitError | WrappedErr string plan_error | OtherErr string

fun as_limit_error :: "plan_error \<Rightarrow> PlanLimitError option" where
  "as_limit_error (LimitReached e) = Some e"
| "as_limit_error (WrappedErr _ e) = as_limit_error e"
| "as_limit_error (OtherErr _) = None"

definition IsPlanLimitError :: "plan_error option \<Rightarrow> bool" where
  "IsPlanLimitError err = (case err of None \<Rightarrow> False | Some e \<Rightarrow> as_limit_error e \<noteq> None)"

record Plan =
  pl_Tier :: string
  pl_ExpiresAt :: "int option"
  pl_Limits :: Limits
  pl_UpgradeURL :: string

text \<open>
  \<open>GetPlan\<close> of the default provider: \<^const>\<open>None\<close> for the pool is the nil pool; otherwise the
  pool says whether a connection can be acquired and holds the tiers.
\<close>

definition DefaultProvider_GetPlan :: "(bool \<times> (int \<rightharpoonup> string)) option \<Rightarrow> int \<Rightarrow> plan_error + Plan" where
  "DefaultProvider_GetPlan pool userID =
     (case pool of
        None \<Rightarrow> Inr \<lparr>pl_Tier = ''free'', pl_ExpiresAt = None, pl_Limits = Unlimited, pl_UpgradeURL = []\<rparr>
      | Some (acquire_ok, tiers) \<Rightarrow>
          if \<not> acquire_ok then Inl (WrappedErr ''plan: acquire conn'' (OtherErr ''pool''))
          else (case tiers userID of
                  None \<Rightarrow> Inl (WrappedErr ''plan: query user tier'' (OtherErr ''no rows''))
                | Some tier \<Rightarrow> Inr \<lparr>pl_Tier = tier, pl_ExpiresAt = None, pl_Limits = Unlimited, pl_UpgradeURL = []\<rparr>))"

definition DefaultProvider_CheckLimit :: "int \<Rightarrow> Resource \<Rightarrow> plan_error option" where
  "DefaultProvider_CheckLimit userID resource = None"


section \<open>Comparing limits\<close>

text \<open>A cap of \<open>-1\<close> is no cap.\<close>

definition cap_le :: "int \<Rightarrow> int \<Rightarrow> bool" where
  "cap_le a b \<longleftrightarrow> b = -1 \<or> (a \<noteq> -1 \<and> a \<le> b)"

definition limits_le :: "Limits \<Rightarrow> Limits \<Rightarrow> bool" where
  "limits_le a b \<longleftrightarrow>
     cap_le (MaxQSOs a) (MaxQSOs b) \<and> cap_le (MaxLogbooks a) (MaxLogbooks b)
     \<and> cap_le (MaxSyncServices a) (MaxSyncServices b)
     \<and> APIAccess a \<le> APIAccess b \<and> MobileAccess a \<le> MobileAccess b \<and> DesktopCapture a \<le> DesktopCapture b
     \<and> PrioritySync a \<le> PrioritySync b \<and> ContestLogging a \<le> ContestLogging b
     \<and> AdvancedStats a \<le> AdvancedStats b \<and> AwardsTracking a \<le> AwardsTracking b"

definition tier_order :: "string list" where
  "tier_order = [''free'', ''standard'', ''premium'', ''club'']"

lemma limits_le_Unlimited: "limits_le l Unlimited"
  by (simp add: limits_le_def cap_le_def Unlimited_def)


section \<open>Properties\<close>

text \<open>
  Tiers only ever add: every tier of the ladder free, standard, premium, club allows at
  least what the tiers below it allow, in every cap and every feature; no tier allows more
  than \<open>Unlimited\<close>, which is also what every unknown tier gets; and the default provider
  reports \<open>Unlimited\<close> whatever the tier and never blocks a resource.
\<close>

theorem tier_ladder:
  "sorted_wrt (\<lambda>a b. limits_le (LimitsForTier a) (LimitsForTier b)) tier_order
   \<and> limits_le (LimitsForTier t) Unlimited
   \<and> (if t \<in> set tier_order then True else LimitsForTier t = Unlimited)
   \<and> (case DefaultProvider_GetPlan pool u of Inl e \<Rightarrow> \<not> IsPlanLimitError (Some e) | Inr p \<Rightarrow> pl_Limits p = Unlimited)
   \<and> DefaultProvider_CheckLimit u res = None"
proof -
  have "sorted_wrt (\<lambda>a b. limits_le (LimitsForTier a) (LimitsForTier b)) tier_order"
    by (simp add: tier_order_def LimitsForTier_def TierLimits_def limits_le_def cap_le_def)
  moreover have "if t \<in> set tier_order then True else LimitsForTier t = Unlimited"
    by (simp add: tier_order_def LimitsForTier_def TierLimits_def)
  moreover have "case DefaultProvider_GetPlan pool u of Inl e \<Rightarrow> \<not> IsPlanLimitError (Some e) | Inr p \<Rightarrow> pl_Limits p = Unlimited"
    by (auto simp: DefaultProvider_GetPlan_def IsPlanLimitError_def split: option.splits)
  ultimately show ?thesis by (simp add: limits_le_Unlimited DefaultProvider_CheckLimit_def)
qed

end
