(* ===== verification/Stream_Token.thy ===== *)
theory Stream_Token
  imports Go_Prelude
begin

text \<open>
  \<open>api/internal/middleware/stream_token.go\<close>: the one-time tokens that let a browser's
  \<open>EventSource\<close>, which cannot send an \<open>Authorization\<close> header, open a stream.  The \<open>sync.Map\<close> is a
  map from tokens to records (it never holds another type of value); each of its methods
  is atomic, and each operation of the source calls at most one that changes it, so an
  operation is one step of an interleaving.  Times are nanoseconds.
\<close>

record streamToken =
  st_UserID :: int
  st_StreamPath :: string
  st_ExpiresAt :: int

type_synonym token_store = "string \<rightharpoonup> streamToken"

datatype StreamErr = errInvalidStreamToken | errExpiredStreamToken | errRand

text \<open>\<open>strings.IndexAny(path, "?#")\<close> and the cut there.\<close>

definition before_query :: "string \<Rightarrow> string" where
  "before_query p = takeWhile (\<lambda>c. c \<noteq> CHR ''?'' \<and> c \<noteq> CHR ''#'') p"

definition normalizeStreamPath :: "string \<Rightarrow> string" where
  "normalizeStreamPath path0 =
     (let path = TrimSpace path0 in
      if path = [] then []
      else
        let path1 = before_query path in
        if path1 = [] then []
        else
          let path2 = (if HasPrefix path1 ''/'' then path1 else CHR ''/'' # path1) in
          CHR ''/'' # dropWhile (\<lambda>c. c = CHR ''/'') path2)"

text \<open>The random token, or the failure of the random source, is the argument \<open>rnd\<close>.\<close>

definition IssueStreamToken ::
  "StreamErr + string \<Rightarrow> int \<Rightarrow> token_store \<Rightarrow> int \<Rightarrow> string \<Rightarrow> int \<Rightarrow> token_store \<times> (StreamErr + string)" where
  "IssueStreamToken rnd now store userID streamPath0 ttl =
     (let streamPath = normalizeStreamPath streamPath0 in
      if userID \<le> 0 \<or> streamPath = [] \<or> ttl \<le> 0 then (store, Inl errInvalidStreamToken)
      else (case rnd of
              Inl e \<Rightarrow> (store, Inl e)
            | Inr token \<Rightarrow>
                (store(token \<mapsto> \<lparr>st_UserID = userID, st_StreamPath = streamPath, st_ExpiresAt = now + ttl\<rparr>), Inr token)))"

definition ConsumeStreamToken :: "token_store \<Rightarrow> string \<Rightarrow> string \<Rightarrow> int \<Rightarrow> token_store \<times> (StreamErr + int)" where
  "ConsumeStreamToken store token0 streamPath0 now =
     (let token = TrimSpace token0; streamPath = normalizeStreamPath streamPath0 in
      if token = [] then (store, Inl errInvalidStreamToken)
      else if streamPath = [] then (store, Inl errInvalidStreamToken)
      else (case store token of
              None \<Rightarrow> (store, Inl errInvalidStreamToken)
            | Some rec \<Rightarrow>
                (store(token := None),
                 if st_ExpiresAt rec < now then Inl errExpiredStreamToken
                 else if st_StreamPath rec \<noteq> streamPath then Inl errInvalidStreamToken
                 else if st_UserID rec \<le> 0 then Inl errInvalidStreamToken
                 else Inr (st_UserID rec))))"

text \<open>One pass of the cleanup goroutine.\<close>

definition cleanup :: "token_store \<Rightarrow> int \<Rightarrow> token_store" where
  "cleanup store now = (\<lambda>k. case store k of None \<Rightarrow> None | Some rec \<Rightarrow> if st_ExpiresAt rec < now then None else Some rec)"


section \<open>Steps of the server\<close>

datatype token_event =
    Issue "StreamErr + string" int int string int
  | Consume string string int
  | Cleanup int

text \<open>The step relation: the user id that a step lets through, if any.\<close>

inductive token_step :: "token_store \<Rightarrow> token_event \<Rightarrow> token_store \<Rightarrow> int option \<Rightarrow> bool" where
  issue: "IssueStreamToken rnd now store u p ttl = (store', r) \<Longrightarrow> token_step store (Issue rnd now u p ttl) store' None"
| consume_ok: "ConsumeStreamToken store t p now = (store', Inr u) \<Longrightarrow> token_step store (Consume t p now) store' (Some u)"
| consume_err: "ConsumeStreamToken store t p now = (store', Inl e) \<Longrightarrow> token_step store (Consume t p now) store' None"
| cleanup: "token_step store (Cleanup now) (Stream_Token.cleanup store now) None"

inductive_cases token_step_IssueE: "token_step store (Issue rnd now u p ttl) store' r"
inductive_cases token_step_ConsumeE: "token_step store (Consume t p now) store' r"
inductive_cases token_step_CleanupE: "token_step store (Cleanup now) store' r"

inductive token_steps :: "token_store \<Rightarrow> (token_event \<times> int option) list \<Rightarrow> token_store \<Rightarrow> bool" where
  none: "token_steps store [] store"
| more: "token_step store e store1 r \<Longrightarrow> token_steps store1 es store' \<Longrightarrow> token_steps store ((e, r) # es) store'"

inductive_cases token_steps_ConsE: "token_steps store (er # es) store'"

text \<open>No step issues the token again (the random source does not repeat itself).\<close>

definition issues :: "string \<Rightarrow> token_event \<Rightarrow> bool" where
  "issues t e \<longleftrightarrow> (case e of Issue (Inr t') now u p ttl \<Rightarrow> t' = t | _ \<Rightarrow> False)"

definition accepts :: "string \<Rightarrow> token_event \<times> int option \<Rightarrow> bool" where
  "accepts t er \<longleftrightarrow> (case er of (Consume t' p now, Some u) \<Rightarrow> TrimSpace t' = t | _ \<Rightarrow> False)"

lemma token_step_absent:
  "token_step store e store' r \<Longrightarrow> store t = None \<Longrightarrow> \<not> issues t e \<Longrightarrow> store' t = None \<and> \<not> accepts t (e, r)"
  by (erule token_step.cases)
     (auto simp: IssueStreamToken_def ConsumeStreamToken_def Stream_Token.cleanup_def issues_def accepts_def Let_def
       split: if_splits option.splits sum.splits)

lemma token_step_accept:
  "token_step store e store' r \<Longrightarrow> accepts t (e, r) \<Longrightarrow> store' t = None"
  by (erule token_step.cases)
     (auto simp: ConsumeStreamToken_def accepts_def Let_def split: if_splits option.splits)

lemma token_steps_absent:
  "token_steps store es store' \<Longrightarrow> store t = None \<Longrightarrow> list_all (\<lambda>(e, r). \<not> issues t e) es \<Longrightarrow>
   filter (accepts t) es = []"
  by (induction rule: token_steps.induct) (auto dest: token_step_absent)

lemma token_steps_once:
  "token_steps store es store' \<Longrightarrow> list_all (\<lambda>(e, r). \<not> issues t e) es \<Longrightarrow> length (filter (accepts t) es) \<le> 1"
proof (induction rule: token_steps.induct)
  case (more store e store1 r es store')
  then show ?case
    using token_step_accept [of store e store1 r t] token_steps_absent [OF more.hyps(2), of t] by auto
qed simp


section \<open>Properties\<close>

text \<open>
  C31. A stream token is used at most once.  In every interleaving of issues, consumptions
  and cleanup passes in which the token is not issued again, it lets at most one request
  through, also when several requests present it.
\<close>

theorem stream_token_single_use:
  assumes "token_steps store es store'" "list_all (\<lambda>(e, r). \<not> issues t e) es"
  shows "length (filter (accepts t) es) \<le> 1"
  using token_steps_once [OF assms] .

definition one_token :: token_store where
  "one_token = [''ab'' \<mapsto> \<lparr>st_UserID = 7, st_StreamPath = ''/imports/1/stream'', st_ExpiresAt = 100\<rparr>]"

definition replay :: "(token_event \<times> int option) list" where
  "replay = [(Consume ''ab'' ''/imports/1/stream'' 50, Some 7), (Consume ''ab'' ''/imports/1/stream'' 51, None)]"

lemma consume_replay:
  "ConsumeStreamToken one_token ''ab'' ''/imports/1/stream'' 50 = (Map.empty, Inr 7)"
  "ConsumeStreamToken Map.empty ''ab'' ''/imports/1/stream'' 51 = (Map.empty, Inl errInvalidStreamToken)"
  by (auto simp: ConsumeStreamToken_def one_token_def Let_def normalizeStreamPath_def before_query_def go_defs)

lemma replay_steps: "token_steps one_token replay Map.empty"
  unfolding replay_def
  by (rule token_steps.more [OF token_step.consume_ok [OF consume_replay(1)]
        token_steps.more [OF token_step.consume_err [OF consume_replay(2)] token_steps.none]])

theorem stream_token_single_use_witness: "length (filter (accepts ''ab'') replay) \<le> 1"
  using stream_token_single_use [OF replay_steps, of "''ab''"] by (simp add: replay_def issues_def)

text \<open>
  Issue and consume.  A token issued for a user, a path and a lifetime lets exactly that
  user through, for the same normalised path, until it expires; every other path and every
  later time is refused; and in each of these cases the token is gone afterwards.
\<close>

theorem stream_token_roundtrip:
  assumes "0 < u" "normalizeStreamPath p \<noteq> []" "0 < ttl" "tok \<noteq> []" "trimmed tok" "normalizeStreamPath q \<noteq> []"
  shows "case IssueStreamToken (Inr tok) now store u p ttl of (store1, r) \<Rightarrow>
     r = Inr tok
     \<and> (case ConsumeStreamToken store1 tok q later of (store2, x) \<Rightarrow>
          store2 tok = None
          \<and> x = (if now + ttl < later then Inl errExpiredStreamToken
                 else if normalizeStreamPath q = normalizeStreamPath p then Inr u else Inl errInvalidStreamToken))"
  using assms by (auto simp: IssueStreamToken_def ConsumeStreamToken_def Let_def TrimSpace_trimmed)

theorem stream_token_roundtrip_witness:
  "snd (ConsumeStreamToken (fst (IssueStreamToken (Inr ''ab'') 0 Map.empty 7 ''imports/1/stream?x=1'' 100)) ''ab'' ''//imports/1/stream'' 100)
     = Inr 7"
proof -
  have n: "normalizeStreamPath ''imports/1/stream?x=1'' = ''/imports/1/stream''" "normalizeStreamPath ''//imports/1/stream'' = ''/imports/1/stream''"
    by (simp_all add: normalizeStreamPath_def before_query_def go_defs)
  have "trimmed ''ab''" by (simp add: trimmed_def go_defs)
  then show ?thesis
    using stream_token_roundtrip [of 7 "''imports/1/stream?x=1''" 100 "''ab''" "''//imports/1/stream''" 0 100 Map.empty]
    by (simp add: n split: prod.splits)
qed

end
