(* ===== verification/Middleware.thy ===== *)
theory Middleware
  imports Auth_Rbac Plan Stream_Token
begin

text \<open>
  \<open>api/internal/middleware\<close>: the guards in front of the handlers - authentication, API key
  scopes, logbook permissions, plan limits, administrators and the tenant transaction -
  and the QSO routes of \<open>api/internal/router/router.go\<close> that chain them.

  A handler is a function from the request to what it serves.  A middleware either answers
  itself (\<open>Reject\<close> with the status and the texts of the JSON envelope) or calls the next
  handler with the request whose context it has extended.  The parts of the context that
  middlewares set are fields of the request.  Logging and metrics are left out.
\<close>

section \<open>Requests and outcomes\<close>

record tx =
  tx_role :: string
  tx_current_user_id :: string

record 'u Request =
  rq_Path :: string
  rq_Authorization :: string
  rq_stream_token :: string
  rq_stream_ticket :: string
  rq_RemoteAddr :: string
  rq_XForwardedFor :: string
  rq_XRealIP :: string
  rq_logbookUUID :: string
  rq_user :: "'u UserInfo option"
  rq_logbookRole :: "Role option"
  rq_tx :: "tx option"

datatype 'r outcome = Reject nat string string | Served 'r

type_synonym ('u, 'r) handler = "'u Request \<Rightarrow> 'r outcome"


section \<open>The client address\<close>

text \<open>
  What the source uses of \<open>net\<close> and \<open>net/netip\<close>: \<open>SplitHostPort\<close> (the host), \<open>ParseAddr\<close>,
  \<open>Addr.String\<close> and \<open>Prefix.Contains\<close>.  The results below hold for every choice of them.
\<close>

record ('a, 'p) netlib =
  SplitHost :: "string \<Rightarrow> string option"
  ParseAddr :: "string \<Rightarrow> 'a option"
  AddrString :: "'a \<Rightarrow> string"
  Contains :: "'p \<Rightarrow> 'a \<Rightarrow> bool"

definition remoteIPFromAddr :: "('a, 'p) netlib \<Rightarrow> string \<Rightarrow> string" where
  "remoteIPFromAddr net remoteAddr0 =
     (let remoteAddr = TrimSpace remoteAddr0;
          plain = (case ParseAddr net remoteAddr of Some a \<Rightarrow> AddrString net a | None \<Rightarrow> remoteAddr) in
      if remoteAddr = [] then []
      else (case SplitHost net remoteAddr of
              Some host \<Rightarrow>
                if host \<noteq> [] then (case ParseAddr net host of Some a \<Rightarrow> AddrString net a | None \<Rightarrow> host) else plain
            | None \<Rightarrow> plain))"

definition isTrustedProxy :: "('a, 'p) netlib \<Rightarrow> 'p list \<Rightarrow> string \<Rightarrow> bool" where
  "isTrustedProxy net cidrs ip =
     (if cidrs = [] then False
      else (case ParseAddr net ip of None \<Rightarrow> False | Some a \<Rightarrow> list_ex (\<lambda>p. Contains net p a) cidrs))"

fun first_addr :: "('a, 'p) netlib \<Rightarrow> string list \<Rightarrow> string option" where
  "first_addr net [] = None"
| "first_addr net (part # parts) =
     (let candidate = TrimSpace part in
      if candidate = [] then first_addr net parts
      else (case ParseAddr net candidate of Some a \<Rightarrow> Some (AddrString net a) | None \<Rightarrow> first_addr net parts))"

definition ClientIP :: "('a, 'p) netlib \<Rightarrow> 'p list \<Rightarrow> 'u Request \<Rightarrow> string" where
  "ClientIP net trusted r =
     (let remoteIP = remoteIPFromAddr net (rq_RemoteAddr r);
          xff = TrimSpace (rq_XForwardedFor r); xrip = TrimSpace (rq_XRealIP r);
          real = (if xrip = [] then remoteIP
                  else (case ParseAddr net xrip of Some a \<Rightarrow> AddrString net a | None \<Rightarrow> remoteIP)) in
      if remoteIP = [] then TrimSpace (rq_RemoteAddr r)
      else if \<not> isTrustedProxy net trusted remoteIP then remoteIP
      else if xff = [] then real
      else (case first_addr net (Split (CHR '','') xff) of Some ip \<Rightarrow> ip | None \<Rightarrow> real))"


section \<open>Authentication\<close>

record 'a api_key =
  ak_ID :: int
  ak_UserID :: int
  ak_KeyHash :: string
  ak_Scopes :: "string list"
  ak_AllowedIps :: "'a list"
  ak_ExpiresAt :: "int option"
  ak_RevokedAt :: "int option"

text \<open>The database as the authentication sees it: the API keys and the users that are not deleted.\<close>

record ('u, 'a) auth_db =
  db_api_keys :: "'a api_key list"
  db_users :: "int \<rightharpoonup> 'u \<times> string"

definition live_key :: "int \<Rightarrow> 'a api_key \<Rightarrow> bool" where
  "live_key dbnow k \<longleftrightarrow> ak_RevokedAt k = None \<and> (case ak_ExpiresAt k of None \<Rightarrow> True | Some t \<Rightarrow> dbnow < t)"

definition GetAPIKeyByHash :: "('u, 'a) auth_db \<Rightarrow> int \<Rightarrow> string \<Rightarrow> 'a api_key option" where
  "GetAPIKeyByHash db dbnow h = List.find (\<lambda>k. ak_KeyHash k = h \<and> live_key dbnow k) (db_api_keys db)"

datatype auth_error = AuthFailed | errIPNotAllowed | MissingHeader | StreamFailed StreamErr

definition extractBearerToken :: "'u Request \<Rightarrow> string \<times> bool" where
  "extractBearerToken r =
     (let authHeader = TrimSpace (rq_Authorization r) in
      if authHeader = [] then ([], False)
      else if \<not> HasPrefix authHeader ''Bearer '' then ([], False)
      else
        let token = TrimSpace (drop 7 authHeader) in
        if token = [] then ([], False) else (token, True))"

definition isAPIKeyToken :: "string \<Rightarrow> bool" where
  "isAPIKeyToken token = HasPrefix token ''rl_''"

text \<open>
  The key of a successful authentication is also returned: its \<open>last_used_at\<close> and
  \<open>last_used_ip\<close> are updated in the background.  \<open>hash\<close> is \<open>crypto.HashAPIKey\<close> (SHA-256 in
  hexadecimal); a nil pool is \<^const>\<open>None\<close>.
\<close>

definition authenticateAPIKey ::
  "('a, 'p) netlib \<Rightarrow> 'p list \<Rightarrow> (string \<Rightarrow> string) \<Rightarrow> ('u, 'a) auth_db option \<Rightarrow> int \<Rightarrow> 'u Request \<Rightarrow> string
   \<Rightarrow> auth_error + ('u UserInfo \<times> int \<times> string)" where
  "authenticateAPIKey net trusted hash pool dbnow r token =
     (case pool of
        None \<Rightarrow> Inl AuthFailed
      | Some db \<Rightarrow>
          (case GetAPIKeyByHash db dbnow (hash token) of
             None \<Rightarrow> Inl AuthFailed
           | Some apiKey \<Rightarrow>
               let clientIP = ClientIP net trusted r;
                   ipOK = (if ak_AllowedIps apiKey = [] then True
                           else (case ParseAddr net clientIP of None \<Rightarrow> False | Some a \<Rightarrow> a \<in> set (ak_AllowedIps apiKey))) in
               if \<not> ipOK then Inl errIPNotAllowed
               else (case db_users db (ak_UserID apiKey) of
                       None \<Rightarrow> Inl AuthFailed
                     | Some (uuid, email) \<Rightarrow>
                         Inr (\<lparr>ui_UserID = ak_UserID apiKey, ui_UserUUID = uuid, ui_Email = email, ui_ExternalID = [],
                               ui_APIKeyScopes = Some (ak_Scopes apiKey)\<rparr>, ak_ID apiKey, clientIP))))"

text \<open>
  The identity that \<open>Auth\<close> puts into the context: by JWT (\<open>validate\<close> is the configured
  authenticator), by API key, or by a one-time stream token.  \<open>nil_uuid\<close> is the zero UUID.
\<close>

definition authenticate ::
  "('a, 'p) netlib \<Rightarrow> 'p list \<Rightarrow> (string \<Rightarrow> string) \<Rightarrow> ('u, 'a) auth_db option \<Rightarrow> (string \<Rightarrow> 'u UserInfo option) \<Rightarrow> 'u
   \<Rightarrow> int \<Rightarrow> int \<Rightarrow> token_store \<Rightarrow> 'u Request \<Rightarrow> token_store \<times> (auth_error + 'u UserInfo)" where
  "authenticate net trusted hash pool validate nil_uuid now dbnow store r =
     (case extractBearerToken r of (token, ok) \<Rightarrow>
        if ok then
          (store,
           if isAPIKeyToken token then map_sum id fst (authenticateAPIKey net trusted hash pool dbnow r token)
           else (case validate token of None \<Rightarrow> Inl AuthFailed | Some info \<Rightarrow> Inr info))
        else
          let t1 = TrimSpace (rq_stream_token r);
              streamToken = (if t1 = [] then TrimSpace (rq_stream_ticket r) else t1) in
          if streamToken \<noteq> [] \<and> HasSuffix (rq_Path r) ''/stream'' then
            (case ConsumeStreamToken store streamToken (rq_Path r) now of
               (store', Inr userID) \<Rightarrow>
                 (store', Inr \<lparr>ui_UserID = userID, ui_UserUUID = nil_uuid, ui_Email = [], ui_ExternalID = [], ui_APIKeyScopes = None\<rparr>)
             | (store', Inl e) \<Rightarrow> (store', Inl (StreamFailed e)))
          else (store, Inl MissingHeader))"

definition Auth ::
  "('a, 'p) netlib \<Rightarrow> 'p list \<Rightarrow> (string \<Rightarrow> string) \<Rightarrow> ('u, 'a) auth_db option \<Rightarrow> (string \<Rightarrow> 'u UserInfo option) \<Rightarrow> 'u
   \<Rightarrow> int \<Rightarrow> int \<Rightarrow> token_store \<Rightarrow> ('u, 'r) handler \<Rightarrow> 'u Request \<Rightarrow> token_store \<times> 'r outcome" where
  "Auth net trusted hash pool validate nil_uuid now dbnow store next r =
     (case authenticate net trusted hash pool validate nil_uuid now dbnow store r of
        (store', Inl e) \<Rightarrow>
          (store', if e = errIPNotAllowed then Reject 403 ''forbidden'' ''client IP not in allowed list''
                   else Reject 401 ''unauthorized'' ''invalid or expired token'')
      | (store', Inr userInfo) \<Rightarrow> (store', next (r\<lparr>rq_user := Some userInfo\<rparr>)))"


section \<open>Authorisation\<close>

definition RequireAPIKeyScope :: "string \<Rightarrow> ('u, 'r) handler \<Rightarrow> ('u, 'r) handler" where
  "RequireAPIKeyScope scope next r =
     (case rq_user r of
        None \<Rightarrow> Reject 401 ''unauthorized'' ''missing authenticated user''
      | Some info \<Rightarrow>
          (case ui_APIKeyScopes info of
             None \<Rightarrow> next r
           | Some scopes \<Rightarrow>
               if scope \<in> set scopes then next r
               else Reject 403 ''forbidden'' (''api key is missing required scope: '' @ scope)))"

definition IsAdminEmail :: "string \<Rightarrow> string \<Rightarrow> bool" where
  "IsAdminEmail email0 adminEmails =
     (let email = ToLower (TrimSpace email0); raw = TrimSpace adminEmails in
      if email = [] then False
      else if raw = [] then False
      else list_ex (\<lambda>part. ToLower (TrimSpace part) = email) (Split (CHR '','') raw))"

definition RequireAdmin :: "string \<Rightarrow> ('u, 'r) handler \<Rightarrow> ('u, 'r) handler" where
  "RequireAdmin adminEmails next r =
     (case rq_user r of
        None \<Rightarrow> Reject 401 ''unauthorized'' ''missing authenticated user''
      | Some info \<Rightarrow>
          if \<not> IsAdminEmail (ui_Email info) adminEmails then Reject 403 ''forbidden'' ''admin access required''
          else next r)"

definition EnforcePlan :: "(int \<Rightarrow> Resource \<Rightarrow> plan_error option) \<Rightarrow> Resource \<Rightarrow> ('u, 'r) handler \<Rightarrow> ('u, 'r) handler" where
  "EnforcePlan CheckLimit resource next r =
     (case UserIDFromContext (rq_user r) of (userID, ok) \<Rightarrow>
        if \<not> ok \<or> userID = 0 then Reject 401 ''unauthorized'' ''unauthenticated request''
        else (case CheckLimit userID resource of
                None \<Rightarrow> next r
              | Some err \<Rightarrow>
                  (case as_limit_error err of
                     Some limitErr \<Rightarrow> Reject 403 ''plan limit reached'' (PlanLimitError_Error limitErr)
                   | None \<Rightarrow> next r)))"

text \<open>The transaction of \<open>RequireLogbookPermission\<close>: which of its statements succeed, and the role it reads.\<close>

datatype role_lookup = RoleIs string | RoleNoRows | RoleDbError

record 'l rbac_db =
  rd_begin_ok :: bool
  rd_role_ok :: bool
  rd_config_ok :: bool
  rd_GetUserRole :: "'l \<Rightarrow> int \<Rightarrow> role_lookup"

definition RequireLogbookPermission ::
  "(string \<Rightarrow> 'l option) \<Rightarrow> 'l rbac_db option \<Rightarrow> Permission \<Rightarrow> ('u, 'r) handler \<Rightarrow> ('u, 'r) handler" where
  "RequireLogbookPermission uuid_Parse pool permission next r =
     (case pool of
        None \<Rightarrow> Reject 503 ''database unavailable'' ''authorization is unavailable''
      | Some db \<Rightarrow>
          (case UserIDFromContext (rq_user r) of (userID, ok) \<Rightarrow>
             if \<not> ok \<or> userID \<le> 0 then Reject 401 ''unauthorized'' ''missing authenticated user''
             else (case uuid_Parse (rq_logbookUUID r) of
                     None \<Rightarrow> Reject 400 ''invalid request'' ''invalid logbook UUID''
                   | Some logbookUUID \<Rightarrow>
                       if \<not> rd_begin_ok db then Reject 503 ''database unavailable'' ''could not begin transaction''
                       else if \<not> rd_role_ok db then Reject 500 ''authorization failed'' ''could not set role''
                       else if \<not> rd_config_ok db then Reject 500 ''authorization failed'' ''could not set tenant context''
                       else (case rd_GetUserRole db logbookUUID userID of
                               RoleNoRows \<Rightarrow> Reject 403 ''forbidden'' ''insufficient permissions''
                             | RoleDbError \<Rightarrow> Reject 500 ''authorization failed'' ''could not resolve role''
                             | RoleIs roleValue \<Rightarrow>
                                 (case ParseRole roleValue of (role, valid) \<Rightarrow>
                                    if \<not> valid \<or> \<not> Role_HasPermission role permission
                                    then Reject 403 ''forbidden'' ''insufficient permissions''
                                    else next (r\<lparr>rq_logbookRole := Some role\<rparr>))))))"

text \<open>\<open>beginTenantTransaction\<close>: \<^const>\<open>None\<close> when one of its statements fails (the transaction is rolled back).\<close>

definition beginTenantTransaction :: "bool \<Rightarrow> bool \<Rightarrow> bool \<Rightarrow> int \<Rightarrow> tx option" where
  "beginTenantTransaction begin_ok role_ok config_ok userID =
     (if \<not> begin_ok then None
      else if \<not> role_ok then None
      else if \<not> config_ok then None
      else Some \<lparr>tx_role = ''radioledger_api'', tx_current_user_id = show_int userID\<rparr>)"

definition Tenant :: "bool \<Rightarrow> bool \<Rightarrow> bool \<Rightarrow> ('u, 'r) handler \<Rightarrow> ('u, 'r) handler" where
  "Tenant begin_ok role_ok config_ok next r =
     (case UserIDFromContext (rq_user r) of (userID, ok) \<Rightarrow>
        if \<not> ok then Reject 503 ''service unavailable'' ''tenant context unavailable''
        else (case beginTenantTransaction begin_ok role_ok config_ok userID of
                None \<Rightarrow> Reject 503 ''database unavailable'' ''failed to prepare tenant context''
              | Some tx \<Rightarrow> next (r\<lparr>rq_tx := Some tx\<rparr>)))"


section \<open>The QSO routes\<close>

datatype qso_op = QsoList | QsoCreate | QsoGet | QsoUpdate | QsoPatch | QsoDelete

fun qso_scope :: "qso_op \<Rightarrow> string" where
  "qso_scope QsoList = ''qsos:read''"
| "qso_scope QsoCreate = ''qsos:write''"
| "qso_scope QsoGet = ''qsos:read''"
| "qso_scope QsoUpdate = ''qsos:write''"
| "qso_scope QsoPatch = ''qsos:write''"
| "qso_scope QsoDelete = ''qsos:delete''"

fun qso_permission :: "qso_op \<Rightarrow> Permission" where
  "qso_permission QsoList = PermissionQSORead"
| "qso_permission QsoCreate = PermissionQSOCreate"
| "qso_permission QsoGet = PermissionQSORead"
| "qso_permission QsoUpdate = PermissionQSOUpdate"
| "qso_permission QsoPatch = PermissionQSOUpdate"
| "qso_permission QsoDelete = PermissionQSODelete"

definition qso_route ::
  "(string \<Rightarrow> 'l option) \<Rightarrow> 'l rbac_db option \<Rightarrow> (int \<Rightarrow> Resource \<Rightarrow> plan_error option) \<Rightarrow> qso_op
   \<Rightarrow> ('u, 'r) handler \<Rightarrow> ('u, 'r) handler" where
  "qso_route uuid_Parse pool CheckLimit op handler =
     RequireAPIKeyScope (qso_scope op)
       (RequireLogbookPermission uuid_Parse pool (qso_permission op)
          (if op = QsoCreate then EnforcePlan CheckLimit ResourceQSOCreate handler else handler))"

end
