(* ===== verification/Middleware_Guards.thy ===== *)
theory Middleware_Guards
  imports Middleware
begin

text \<open>
  What the middleware chain guarantees.  The contract every guard satisfies is a locale;
  two guards in a row are a guard again, so the contract of a route follows from those of
  its middlewares.
\<close>

section \<open>The contract of a guard\<close>

locale guard =
  fixes mw :: "('u Request \<Rightarrow> 'r outcome) \<Rightarrow> 'u Request \<Rightarrow> 'r outcome"
    and admits :: "'u Request \<Rightarrow> bool"
    and extend :: "'u Request \<Rightarrow> 'u Request"
  assumes pass: "admits r \<Longrightarrow> mw h r = h (extend r)"
    and stop: "\<not> admits r \<Longrightarrow> \<exists>s m e. mw h r = Reject s m e \<and> 400 \<le> s"
begin

lemma served_iff: "mw h r = Served x \<longleftrightarrow> admits r \<and> h (extend r) = Served x"
  using pass [of r h] stop [of r h] by (cases "admits r") auto

lemma refused: "\<not> admits r \<Longrightarrow> mw h r \<noteq> Served x"
  by (simp add: served_iff)

end

locale guard_chain = outer: guard mw1 admits1 extend1 + inner: guard mw2 admits2 extend2
  for mw1 :: "('u Request \<Rightarrow> 'r outcome) \<Rightarrow> 'u Request \<Rightarrow> 'r outcome" and admits1 extend1
    and mw2 :: "('u Request \<Rightarrow> 'r outcome) \<Rightarrow> 'u Request \<Rightarrow> 'r outcome" and admits2 extend2

sublocale guard_chain \<subseteq> chain: guard "\<lambda>h. mw1 (mw2 h)" "\<lambda>r. admits1 r \<and> admits2 (extend1 r)" "\<lambda>r. extend2 (extend1 r)"
proof
  fix r h
  show "admits1 r \<and> admits2 (extend1 r) \<Longrightarrow> mw1 (mw2 h) r = h (extend2 (extend1 r))"
    by (simp add: outer.pass inner.pass)
  show "\<not> (admits1 r \<and> admits2 (extend1 r)) \<Longrightarrow> \<exists>s m e. mw1 (mw2 h) r = Reject s m e \<and> 400 \<le> s"
    using outer.stop [of r "mw2 h"] outer.pass [of r "mw2 h"] inner.stop [of "extend1 r" h]
    by (cases "admits1 r") auto
qed


section \<open>The middlewares are guards\<close>

definition scope_ok :: "string \<Rightarrow> 'u UserInfo \<Rightarrow> bool" where
  "scope_ok scope info \<longleftrightarrow> (case ui_APIKeyScopes info of None \<Rightarrow> True | Some scopes \<Rightarrow> scope \<in> set scopes)"

definition scope_admits :: "string \<Rightarrow> 'u Request \<Rightarrow> bool" where
  "scope_admits scope r \<longleftrightarrow> (case rq_user r of None \<Rightarrow> False | Some info \<Rightarrow> scope_ok scope info)"

interpretation scope_guard: guard "RequireAPIKeyScope scope" "scope_admits scope" id for scope
  by unfold_locales (auto simp: RequireAPIKeyScope_def scope_admits_def scope_ok_def split: option.splits)

definition admin_admits :: "string \<Rightarrow> 'u Request \<Rightarrow> bool" where
  "admin_admits adminEmails r \<longleftrightarrow> (case rq_user r of None \<Rightarrow> False | Some info \<Rightarrow> IsAdminEmail (ui_Email info) adminEmails)"

interpretation admin_guard: guard "RequireAdmin adminEmails" "admin_admits adminEmails" id for adminEmails
  by unfold_locales (auto simp: RequireAdmin_def admin_admits_def split: option.splits)

definition plan_admits :: "(int \<Rightarrow> Resource \<Rightarrow> plan_error option) \<Rightarrow> Resource \<Rightarrow> 'u Request \<Rightarrow> bool" where
  "plan_admits CheckLimit resource r \<longleftrightarrow>
     (case rq_user r of None \<Rightarrow> False | Some info \<Rightarrow> ui_UserID info \<noteq> 0 \<and> \<not> IsPlanLimitError (CheckLimit (ui_UserID info) resource))"

interpretation plan_guard: guard "EnforcePlan CheckLimit resource" "plan_admits CheckLimit resource" id for CheckLimit resource
  by unfold_locales
     (auto simp: EnforcePlan_def plan_admits_def UserIDFromContext_def IsPlanLimitError_def split: option.splits if_splits)

text \<open>The role that the transaction of \<open>RequireLogbookPermission\<close> resolves for the caller.\<close>

definition resolved_role :: "(string \<Rightarrow> 'l option) \<Rightarrow> 'l rbac_db option \<Rightarrow> 'u Request \<Rightarrow> role_level option" where
  "resolved_role uuid_Parse pool r =
     (case (pool, rq_user r, uuid_Parse (rq_logbookUUID r)) of
        (Some db, Some info, Some l) \<Rightarrow>
          if 0 < ui_UserID info \<and> rd_begin_ok db \<and> rd_role_ok db \<and> rd_config_ok db
          then (case rd_GetUserRole db l (ui_UserID info) of
                  RoleIs v \<Rightarrow> List.find (\<lambda>x. role_name x = fst (ParseRole v)) [Viewer, Contributor, Operator, Admin, Owner]
                | _ \<Rightarrow> None)
          else None
      | _ \<Rightarrow> None)"

definition perm_admits :: "(string \<Rightarrow> 'l option) \<Rightarrow> 'l rbac_db option \<Rightarrow> Permission \<Rightarrow> 'u Request \<Rightarrow> bool" where
  "perm_admits uuid_Parse pool p r \<longleftrightarrow>
     (case resolved_role uuid_Parse pool r of None \<Rightarrow> False | Some x \<Rightarrow> required_level p \<le> x)"

definition perm_extend :: "(string \<Rightarrow> 'l option) \<Rightarrow> 'l rbac_db option \<Rightarrow> 'u Request \<Rightarrow> 'u Request" where
  "perm_extend uuid_Parse pool r = r\<lparr>rq_logbookRole := map_option role_name (resolved_role uuid_Parse pool r)\<rparr>"

lemma find_role:
  "List.find (\<lambda>x. role_name x = r) [Viewer, Contributor, Operator, Admin, Owner] = Some l \<longleftrightarrow> r = role_name l"
  by (cases l) (auto simp: role_defs)

lemma find_role_None:
  "List.find (\<lambda>x. role_name x = fst (ParseRole v)) [Viewer, Contributor, Operator, Admin, Owner] = None \<longleftrightarrow> \<not> snd (ParseRole v)"
  using find_role [of "fst (ParseRole v)"] ParseRole_valid [of v]
  by (metis not_None_eq)

text \<open>\<open>RequireLogbookPermission\<close> in terms of the resolved role.\<close>

lemma RequireLogbookPermission_pass:
  assumes "resolved_role uuid_Parse pool r = Some l"
  shows "RequireLogbookPermission uuid_Parse pool p h r =
    (if required_level p \<le> l then h (perm_extend uuid_Parse pool r)
     else Reject 403 ''forbidden'' ''insufficient permissions'')"
proof -
  obtain db info lid v where *: "pool = Some db" "rq_user r = Some info" "uuid_Parse (rq_logbookUUID r) = Some lid"
      "0 < ui_UserID info" "rd_begin_ok db" "rd_role_ok db" "rd_config_ok db" "rd_GetUserRole db lid (ui_UserID info) = RoleIs v"
      "List.find (\<lambda>x. role_name x = fst (ParseRole v)) [Viewer, Contributor, Operator, Admin, Owner] = Some l"
    using assms by (auto simp: resolved_role_def simp del: List.find.simps split: option.splits if_splits role_lookup.splits)
  have "fst (ParseRole v) = role_name l" using *(9) find_role by metis
  moreover have "snd (ParseRole v)" using *(9) find_role_None [of v] by fastforce
  ultimately have "ParseRole v = (role_name l, True)" by (metis prod.collapse)
  with * assms show ?thesis
    by (simp add: RequireLogbookPermission_def UserIDFromContext_def HasPermission_level perm_extend_def)
qed

lemma RequireLogbookPermission_stop:
  assumes "resolved_role uuid_Parse pool r = None"
  shows "\<exists>s m e. RequireLogbookPermission uuid_Parse pool p h r = Reject s m e \<and> 400 \<le> s"
proof -
  have "\<not> snd (ParseRole v)" if "pool = Some db" "rq_user r = Some info" "uuid_Parse (rq_logbookUUID r) = Some lid"
      "0 < ui_UserID info" "rd_begin_ok db" "rd_role_ok db" "rd_config_ok db" "rd_GetUserRole db lid (ui_UserID info) = RoleIs v"
    for db info lid v
    using assms that find_role_None [of v] by (simp add: resolved_role_def del: List.find.simps)
  then show ?thesis
    by (auto simp: RequireLogbookPermission_def UserIDFromContext_def not_le
        split: option.splits role_lookup.splits prod.splits) (metis snd_conv)
qed

interpretation perm_guard: guard "RequireLogbookPermission uuid_Parse pool p" "perm_admits uuid_Parse pool p"
    "perm_extend uuid_Parse pool" for uuid_Parse pool p
proof
  fix r h
  show "perm_admits uuid_Parse pool p r \<Longrightarrow> RequireLogbookPermission uuid_Parse pool p h r = h (perm_extend uuid_Parse pool r)"
    by (auto simp: perm_admits_def RequireLogbookPermission_pass split: option.splits)
  show "\<not> perm_admits uuid_Parse pool p r \<Longrightarrow> \<exists>s m e. RequireLogbookPermission uuid_Parse pool p h r = Reject s m e \<and> 400 \<le> s"
    using RequireLogbookPermission_stop [of uuid_Parse pool r p h]
    by (cases "resolved_role uuid_Parse pool r") (simp_all add: perm_admits_def RequireLogbookPermission_pass)
qed

definition tenant_admits :: "bool \<Rightarrow> bool \<Rightarrow> bool \<Rightarrow> 'u Request \<Rightarrow> bool" where
  "tenant_admits b s c r \<longleftrightarrow> b \<and> s \<and> c \<and> (case rq_user r of None \<Rightarrow> False | Some info \<Rightarrow> ui_UserID info \<noteq> 0)"

definition tenant_extend :: "'u Request \<Rightarrow> 'u Request" where
  "tenant_extend r =
     r\<lparr>rq_tx := Some \<lparr>tx_role = ''radioledger_api'', tx_current_user_id = show_int (fst (UserIDFromContext (rq_user r)))\<rparr>\<rparr>"

interpretation tenant_guard: guard "Tenant b s c" "tenant_admits b s c" tenant_extend for b s c
  by unfold_locales
     (auto simp: Tenant_def tenant_admits_def tenant_extend_def UserIDFromContext_def beginTenantTransaction_def
       split: option.splits if_splits)

interpretation read_route: guard_chain "RequireAPIKeyScope scope" "scope_admits scope" id
    "RequireLogbookPermission uuid_Parse pool p" "perm_admits uuid_Parse pool p" "perm_extend uuid_Parse pool"
  for scope uuid_Parse pool p
  by unfold_locales

interpretation create_tail: guard_chain "RequireLogbookPermission uuid_Parse pool p" "perm_admits uuid_Parse pool p"
    "perm_extend uuid_Parse pool" "EnforcePlan CheckLimit res" "plan_admits CheckLimit res" id
  for uuid_Parse pool p CheckLimit res
  by unfold_locales

interpretation create_route: guard_chain "RequireAPIKeyScope scope" "scope_admits scope" id
    "\<lambda>h. RequireLogbookPermission uuid_Parse pool p (EnforcePlan CheckLimit res h)"
    "\<lambda>r. perm_admits uuid_Parse pool p r \<and> plan_admits CheckLimit res (perm_extend uuid_Parse pool r)"
    "\<lambda>r. id (perm_extend uuid_Parse pool r)"
  for scope uuid_Parse pool p CheckLimit res
  by unfold_locales


section \<open>Lemmas for the properties\<close>

lemma qso_route_served:
  "qso_route uuid_Parse pool CheckLimit op h r = Served x \<longleftrightarrow>
     scope_admits (qso_scope op) r \<and> perm_admits uuid_Parse pool (qso_permission op) r
     \<and> (if op = QsoCreate then plan_admits CheckLimit ResourceQSOCreate r else True)
     \<and> h (perm_extend uuid_Parse pool r) = Served x"
proof (cases "op = QsoCreate")
  case True
  have "plan_admits CheckLimit ResourceQSOCreate (perm_extend uuid_Parse pool r) = plan_admits CheckLimit ResourceQSOCreate r"
    by (simp add: plan_admits_def perm_extend_def)
  with True show ?thesis
    using create_route.chain.served_iff [of "qso_scope op" uuid_Parse pool "qso_permission op" CheckLimit ResourceQSOCreate h r x]
    by (auto simp: qso_route_def)
next
  case False
  then show ?thesis
    using read_route.chain.served_iff [of "qso_scope op" uuid_Parse pool "qso_permission op" h r x]
    by (auto simp: qso_route_def)
qed

lemma resolved_role_SomeD:
  assumes "resolved_role uuid_Parse pool r = Some l"
  shows "\<exists>db info lid v. pool = Some db \<and> rq_user r = Some info \<and> uuid_Parse (rq_logbookUUID r) = Some lid
    \<and> 0 < ui_UserID info \<and> rd_GetUserRole db lid (ui_UserID info) = RoleIs v \<and> ToLower (TrimSpace v) = role_name l"
proof -
  obtain db info lid v where "pool = Some db" "rq_user r = Some info" "uuid_Parse (rq_logbookUUID r) = Some lid"
      "0 < ui_UserID info" "rd_GetUserRole db lid (ui_UserID info) = RoleIs v"
      "List.find (\<lambda>x. role_name x = fst (ParseRole v)) [Viewer, Contributor, Operator, Admin, Owner] = Some l"
    using assms by (auto simp: resolved_role_def simp del: List.find.simps split: option.splits if_splits role_lookup.splits)
  moreover from this(6) have "fst (ParseRole v) = role_name l" using find_role by metis
  ultimately show ?thesis by (auto simp: ParseRole_def Let_def)
qed

lemma ParseInt_show_int: "MinInt64 \<le> i \<Longrightarrow> i \<le> MaxInt64 \<Longrightarrow> ParseInt (show_int i) = Some i"
proof (cases "i < 0")
  case False
  then show "MinInt64 \<le> i \<Longrightarrow> i \<le> MaxInt64 \<Longrightarrow> ParseInt (show_int i) = Some i"
    using ParseInt_show_nat [of "nat i"] by (simp add: show_int_def)
next
  case True
  then show "MinInt64 \<le> i \<Longrightarrow> i \<le> MaxInt64 \<Longrightarrow> ParseInt (show_int i) = Some i"
    by (simp add: show_int_def ParseInt_def)
qed


section \<open>Properties\<close>

text \<open>
  C7. Access to the QSO routes.  A QSO handler runs exactly when all of this holds: the
  request is authenticated, by a JWT or by an API key that carries the scope of the route;
  the database has a role for this user in the logbook of the URL, it is at least the
  role that the route's permission requires, and the transaction that reads it succeeds;
  and, for the creation of a QSO, the plan does not report a reached limit.  The handler
  then sees the request with this role, and nothing else changed.
\<close>

theorem qso_route_access:
  "qso_route uuid_Parse pool CheckLimit op h r = Served x \<longleftrightarrow>
     (\<exists>info l. rq_user r = Some info \<and> scope_ok (qso_scope op) info
        \<and> resolved_role uuid_Parse pool r = Some l \<and> required_level (qso_permission op) \<le> l
        \<and> (if op = QsoCreate then \<not> IsPlanLimitError (CheckLimit (ui_UserID info) ResourceQSOCreate) else True)
        \<and> h (r\<lparr>rq_logbookRole := Some (role_name l)\<rparr>) = Served x)"
proof -
  have "ui_UserID info \<noteq> 0" if "resolved_role uuid_Parse pool r = Some l" "rq_user r = Some info" for l info
    using resolved_role_SomeD [OF that(1)] that(2) by auto
  then show ?thesis
    unfolding qso_route_served by (auto simp: scope_admits_def perm_admits_def plan_admits_def perm_extend_def split: option.splits if_splits)
qed


text \<open>
  C36. API keys.  The authentication by API key succeeds only with a key that is stored under
  the hash of the presented token, is neither revoked nor expired, belongs to a user that
  is not deleted, and - when it has an address list - was presented from one of its
  addresses; the identity is that user's, limited to the scopes of the key.
\<close>

theorem api_key_authentication:
  assumes "authenticateAPIKey net trusted hash (Some db) dbnow r token = Inr (info, keyID, ip)"
  shows "\<exists>k \<in> set (db_api_keys db).
     ak_KeyHash k = hash token \<and> ak_RevokedAt k = None \<and> (case ak_ExpiresAt k of None \<Rightarrow> True | Some t \<Rightarrow> dbnow < t)
     \<and> keyID = ak_ID k \<and> ui_UserID info = ak_UserID k \<and> db_users db (ak_UserID k) = Some (ui_UserUUID info, ui_Email info)
     \<and> ui_APIKeyScopes info = Some (ak_Scopes k)
     \<and> (if ak_AllowedIps k = [] then True else \<exists>a \<in> set (ak_AllowedIps k). ParseAddr net (ClientIP net trusted r) = Some a)"
proof -
  obtain k where k: "GetAPIKeyByHash db dbnow (hash token) = Some k"
    using assms by (auto simp: authenticateAPIKey_def split: option.splits)
  then have "k \<in> set (db_api_keys db) \<and> ak_KeyHash k = hash token \<and> live_key dbnow k"
    by (auto simp: GetAPIKeyByHash_def find_Some_iff)
  then show ?thesis
    using assms k by (auto simp: authenticateAPIKey_def live_key_def Let_def split: option.splits if_splits intro!: bexI [of _ k])
qed

text \<open>
  Forwarding headers cannot be forged.  Unless the connection comes from a configured
  proxy, the client address depends on the connection alone: two requests that differ in
  any header have the same one.  Without configured proxies this holds for all requests.
\<close>

theorem client_ip_not_spoofable:
  assumes "\<not> isTrustedProxy net trusted (remoteIPFromAddr net (rq_RemoteAddr r))" "rq_RemoteAddr r' = rq_RemoteAddr r"
  shows "ClientIP net trusted r' = ClientIP net trusted r \<and> ClientIP net [] r' = ClientIP net [] r"
  using assms by (simp add: ClientIP_def isTrustedProxy_def Let_def)


section \<open>Concrete requests\<close>

definition sample_user :: "unit UserInfo" where
  "sample_user = \<lparr>ui_UserID = 42, ui_UserUUID = (), ui_Email = ''op@example.org'', ui_ExternalID = [], ui_APIKeyScopes = None\<rparr>"

definition sample_request :: "unit Request" where
  "sample_request =
     \<lparr>rq_Path = ''/v1/qsos'', rq_Authorization = ''Bearer rl_x'', rq_stream_token = [], rq_stream_ticket = [],
      rq_RemoteAddr = ''10.0.0.1'', rq_XForwardedFor = ''1.2.3.4'', rq_XRealIP = [], rq_logbookUUID = ''lb'',
      rq_user = Some sample_user, rq_logbookRole = None, rq_tx = None\<rparr>"

text \<open>Addresses compared as text.\<close>

definition sample_net :: "(string, string) netlib" where
  "sample_net = \<lparr>SplitHost = (\<lambda>_. None), ParseAddr = (\<lambda>s. Some s), AddrString = id, Contains = (=)\<rparr>"

definition sample_key :: "string api_key" where
  "sample_key =
     \<lparr>ak_ID = 1, ak_UserID = 42, ak_KeyHash = ''rl_x'', ak_Scopes = [''qsos:read''], ak_AllowedIps = [''10.0.0.1''],
      ak_ExpiresAt = Some 100, ak_RevokedAt = None\<rparr>"

definition sample_db :: "(unit, string) auth_db" where
  "sample_db =
     \<lparr>db_api_keys = [sample_key],
      db_users = [42 \<mapsto> ((), ''op@example.org'')]\<rparr>"

lemma sample_ip: "ClientIP sample_net [] sample_request = ''10.0.0.1''"
  by (simp add: ClientIP_def remoteIPFromAddr_def isTrustedProxy_def sample_net_def sample_request_def go_defs)


theorem api_key_authentication_witness:
  "\<exists>k \<in> set (db_api_keys sample_db). ak_KeyHash k = ''rl_x'' \<and> ak_RevokedAt k = None \<and> ak_ID k = 1"
proof -
  have k: "GetAPIKeyByHash sample_db 50 ''rl_x'' = Some sample_key"
    by (simp add: GetAPIKeyByHash_def live_key_def sample_db_def) (simp add: sample_key_def)
  have a: "ParseAddr sample_net s = Some s" for s by (simp add: sample_net_def)
  have u: "db_users sample_db 42 = Some ((), ''op@example.org'')" by (simp add: sample_db_def)
  have "authenticateAPIKey sample_net [] id (Some sample_db) 50 sample_request ''rl_x'' =
      Inr (\<lparr>ui_UserID = 42, ui_UserUUID = (), ui_Email = ''op@example.org'', ui_ExternalID = [],
            ui_APIKeyScopes = Some [''qsos:read'']\<rparr>, 1, ''10.0.0.1'')"
    using k a u by (simp add: authenticateAPIKey_def sample_ip) (simp add: sample_key_def)
  from api_key_authentication [OF this] show ?thesis by auto
qed

theorem client_ip_not_spoofable_witness:
  "ClientIP sample_net [''192.168.0.1''] (sample_request\<lparr>rq_XForwardedFor := ''6.6.6.6''\<rparr>) =
   ClientIP sample_net [''192.168.0.1''] sample_request"
proof -
  have "\<not> isTrustedProxy sample_net [''192.168.0.1''] (remoteIPFromAddr sample_net (rq_RemoteAddr sample_request))"
    by (simp add: isTrustedProxy_def remoteIPFromAddr_def sample_net_def sample_request_def go_defs)
  from client_ip_not_spoofable [OF this, of "sample_request\<lparr>rq_XForwardedFor := ''6.6.6.6''\<rparr>"] show ?thesis by simp
qed

end
