(* ===== verification/Vault_Adif.thy ===== *)
theory Vault_Adif
  imports Go_Prelude "HOL-Library.AList"
begin

text \<open>
  \<open>lotw-vault/internal/adif/parser.go\<close>: the strict ADIF parser of the signing service, with
  the field encoders.  The parser indexes into its input with machine integers: the sum of
  a position and a declared length wraps around at 64 bits, and slicing with a bound below
  the start is a run-time panic, which is a result of the model of its own (\<open>Panic\<close>).
  A Go map is an association list without duplicate keys.
\<close>

datatype 'a go_result = Ret 'a | Panic

datatype VErr =
    Unterminated nat
  | EmptyName nat string
  | NonNumericLength nat string string
  | NegativeLength nat string int
  | LengthExceeds nat string int int
  | IncompleteRecord nat

type_synonym VRecord = "(string \<times> string) list"

record VParser =
  vp_input :: string
  vp_pos :: nat

definition VNewParser :: "string \<Rightarrow> VParser" where
  "VNewParser input = \<lparr>vp_input = input, vp_pos = 0\<rparr>"

text \<open>\<open>strings.Index(s, c)\<close> for a one-byte \<open>c\<close>.\<close>

definition Index :: "char \<Rightarrow> string \<Rightarrow> nat option" where
  "Index c s = (if c \<in> set s then Some (length (takeWhile (\<lambda>x. x \<noteq> c) s)) else None)"

text \<open>\<open>strings.TrimRight(s, " \t\r\n")\<close>\<close>

definition is_blank :: "char \<Rightarrow> bool" where
  "is_blank c \<longleftrightarrow> byte c \<in> {32, 9, 13, 10}"

definition TrimRight :: "string \<Rightarrow> string" where
  "TrimRight s = rev (dropWhile is_blank (rev s))"

datatype tag_result = TagEOF | TagErr VErr | Tag string string string

definition VparseTag :: "VParser \<Rightarrow> (VParser \<times> tag_result) go_result" where
  "VparseTag p =
     (case Index (CHR ''<'') (drop (vp_pos p) (vp_input p)) of
        None \<Rightarrow> Ret (p, TagEOF)
      | Some start \<Rightarrow>
          let tagStart = vp_pos p + start; pos1 = tagStart + 1 in
          (case Index (CHR ''>'') (drop pos1 (vp_input p)) of
             None \<Rightarrow> Ret (p\<lparr>vp_pos := pos1\<rparr>, TagErr (Unterminated tagStart))
           | Some e \<Rightarrow>
               let tag = take e (drop pos1 (vp_input p));
                   pos2 = pos1 + e + 1;
                   p2 = p\<lparr>vp_pos := pos2\<rparr>;
                   parts = SplitN (CHR '':'') 3 tag;
                   name = ToUpper (TrimSpace (parts ! 0)) in
               if name = [] then Ret (p2, TagErr (EmptyName tagStart tag))
               else if length parts = 1 then Ret (p2, Tag name [] [])
               else
                 let lenStr = TrimSpace (parts ! 1) in
                 (case Atoi lenStr of
                    None \<Rightarrow> Ret (p2, TagErr (NonNumericLength tagStart name lenStr))
                  | Some len \<Rightarrow>
                      if len < 0 then Ret (p2, TagErr (NegativeLength tagStart name len))
                      else
                        let stop = wrap64 (int pos2 + len) in
                        if int (length (vp_input p)) < stop then
                          Ret (p2, TagErr (LengthExceeds tagStart name len (int (length (vp_input p)) - int pos2)))
                        else if stop < int pos2 then Panic
                        else
                          let typSpec = (if length parts = 3 then TrimSpace (parts ! 2) else []);
                              value = TrimRight (slice pos2 (nat stop) (vp_input p)) in
                          Ret (p\<lparr>vp_pos := nat stop\<rparr>, Tag name value typSpec))))"

text \<open>One round of the loop of \<open>NextRecord\<close>: \<^const>\<open>Inl\<close> returns, \<^const>\<open>Inr\<close> goes round again.\<close>

definition Vnext_step ::
  "VParser \<Rightarrow> VRecord \<Rightarrow> (VParser \<times> (VErr + VRecord option)) go_result + (VParser \<times> VRecord)" where
  "Vnext_step p rec =
     (case VparseTag p of
        Panic \<Rightarrow> Inl Panic
      | Ret (p', TagEOF) \<Rightarrow>
          Inl (Ret (p', if rec \<noteq> [] then Inl (IncompleteRecord (length rec)) else Inr None))
      | Ret (p', TagErr e) \<Rightarrow> Inl (Ret (p', Inl e))
      | Ret (p', Tag name value _) \<Rightarrow>
          if name = ''EOH'' then Inr (p', [])
          else if name = ''EOR'' then (if rec \<noteq> [] then Inl (Ret (p', Inr (Some rec))) else Inr (p', rec))
          else Inr (p', AList.update name value rec))"

definition left :: "VParser \<Rightarrow> nat" where
  "left p = length (vp_input p) - vp_pos p"

lemma Index_less: "Index c s = Some i \<Longrightarrow> i < length s"
proof -
  assume *: "Index c s = Some i"
  then have "c \<in> set s" by (auto simp: Index_def split: if_splits)
  then obtain a b where "s = a @ c # b" "c \<notin> set a" by (meson split_list_first)
  with * show ?thesis by (auto simp: Index_def takeWhile_append)
qed

lemma VparseTag_progress:
  assumes "VparseTag p = Ret (p', Tag n v t)"
  shows "left p' < left p \<and> vp_input p' = vp_input p"
proof -
  obtain s where s: "Index (CHR ''<'') (drop (vp_pos p) (vp_input p)) = Some s"
    using assms by (auto simp: VparseTag_def split: option.splits)
  then have "s < length (vp_input p) - vp_pos p" using Index_less by fastforce
  with assms s show ?thesis
    by (auto simp: VparseTag_def Let_def left_def split: option.splits if_splits)
qed

lemma Vnext_step_progress:
  "Vnext_step p rec = Inr (p', rec') \<Longrightarrow> left p' < left p \<and> vp_input p' = vp_input p"
  by (auto simp: Vnext_step_def split: go_result.splits prod.splits tag_result.splits if_splits
      dest: VparseTag_progress)

function Vnext_loop :: "VParser \<Rightarrow> VRecord \<Rightarrow> (VParser \<times> (VErr + VRecord option)) go_result" where
  "Vnext_loop p rec = (case Vnext_step p rec of Inl r \<Rightarrow> r | Inr (p', rec') \<Rightarrow> Vnext_loop p' rec')"
  by pat_completeness auto
termination
  by (relation "measure (\<lambda>(p, _). left p)") (auto dest: Vnext_step_progress)

declare Vnext_loop.simps [simp del]

definition NextRecord :: "VParser \<Rightarrow> (VParser \<times> (VErr + VRecord option)) go_result" where
  "NextRecord p = Vnext_loop p []"

lemma Vnext_step_record:
  "Vnext_step p rec = Inl (Ret (p', Inr (Some r))) \<Longrightarrow> left p' < left p \<and> vp_input p' = vp_input p"
  by (auto simp: Vnext_step_def split: go_result.splits prod.splits tag_result.splits if_splits
      dest: VparseTag_progress)

lemma Vnext_loop_record:
  "Vnext_loop p rec = Ret (p', Inr (Some r)) \<Longrightarrow> left p' < left p \<and> vp_input p' = vp_input p"
proof (induction p rec rule: Vnext_loop.induct)
  case (1 p rec)
  show ?case
  proof (cases "Vnext_step p rec")
    case (Inl x)
    with 1 show ?thesis by (auto simp: Vnext_loop.simps [of p rec] dest: Vnext_step_record)
  next
    case (Inr y)
    obtain p1 r1 where y: "y = (p1, r1)" by (cases y)
    have "left p' < left p1 \<and> vp_input p' = vp_input p1"
      using 1(1) [OF Inr y [symmetric]] 1(2) Inr y by (simp add: Vnext_loop.simps [of p rec])
    then show ?thesis using Vnext_step_progress [of p rec p1 r1] Inr y by simp
  qed
qed

function Vparse_loop :: "VParser \<Rightarrow> VRecord list \<Rightarrow> (VRecord list \<times> VErr option) go_result" where
  "Vparse_loop p records =
     (case NextRecord p of
        Panic \<Rightarrow> Panic
      | Ret (p', Inl e) \<Rightarrow> Ret (records, Some e)
      | Ret (p', Inr None) \<Rightarrow> Ret (records, None)
      | Ret (p', Inr (Some rec)) \<Rightarrow> Vparse_loop p' (records @ [rec]))"
  by pat_completeness auto
termination
  by (relation "measure (\<lambda>(p, _). left p)") (auto simp: NextRecord_def dest!: Vnext_loop_record)

declare Vparse_loop.simps [simp del]

definition VParseAll :: "string \<Rightarrow> (VRecord list \<times> VErr option) go_result" where
  "VParseAll input = Vparse_loop (VNewParser input) []"

definition EncodeField :: "string \<Rightarrow> string \<Rightarrow> string" where
  "EncodeField name value =
     (if value = [] then [] else ''<'' @ name @ '':'' @ show_nat (length value) @ ''>'' @ value @ [char_of (10 :: nat)])"

definition EncodeFieldWithType :: "string \<Rightarrow> string \<Rightarrow> string \<Rightarrow> string" where
  "EncodeFieldWithType name value typSpec =
     (if value = [] then []
      else ''<'' @ name @ '':'' @ show_nat (length value) @ '':'' @ typSpec @ ''>'' @ value @ [char_of (10 :: nat)])"


section \<open>Reading what was encoded\<close>

lemma Index_hit: "c \<notin> set a \<Longrightarrow> Index c (a @ c # b) = Some (length a)"
  by (auto simp: Index_def takeWhile_append)

lemma Index_miss: "c \<notin> set a \<Longrightarrow> Index c a = None"
  by (simp add: Index_def)

definition wf_pair :: "string \<times> string \<Rightarrow> bool" where
  "wf_pair nv \<longleftrightarrow>
     (case nv of (n, v) \<Rightarrow>
        n \<noteq> [] \<and> upper n \<and> trimmed n \<and> CHR '':'' \<notin> set n \<and> CHR ''>'' \<notin> set n \<and> n \<noteq> ''EOR'' \<and> n \<noteq> ''EOH''
        \<and> v \<noteq> [] \<and> TrimRight v = v)"

lemma not_digit_gt: "CHR ''>'' \<notin> set (show_nat k)" "CHR '':'' \<notin> set (show_nat k)"
  using all_digits_notin [OF all_digits_show_nat, of "CHR ''>''"] all_digits_notin [OF all_digits_show_nat, of "CHR '':''"]
  by (simp_all add: IsDigit_def)

lemma SplitN_tag: "CHR '':'' \<notin> set n \<Longrightarrow> SplitN (CHR '':'') 3 (n @ CHR '':'' # show_nat k) = [n, show_nat k]"
  using not_digit_gt by (simp add: numeral_3_eq_3 cut_hit cut_miss)

text \<open>A position in an input: \<open>done\<close> was read and \<open>rest\<close> is still to be read.\<close>

definition at :: "string \<Rightarrow> string \<Rightarrow> VParser" where
  "at d rest = \<lparr>vp_input = d @ rest, vp_pos = length d\<rparr>"

lemma VparseTag_field:
  assumes nv: "wf_pair (n, v)" and pre: "CHR ''<'' \<notin> set pre"
    and fit: "int (length (d @ pre @ ''<'' @ n @ '':'' @ show_nat (length v) @ ''>'' @ v @ rest)) \<le> MaxInt64"
  shows "VparseTag (at d (pre @ ''<'' @ n @ '':'' @ show_nat (length v) @ ''>'' @ v @ rest)) =
    Ret (at (d @ pre @ ''<'' @ n @ '':'' @ show_nat (length v) @ ''>'' @ v) rest, Tag n v [])"
proof -
  define tag where "tag = n @ CHR '':'' # show_nat (length v)"
  have gt: "CHR ''>'' \<notin> set tag" using nv not_digit_gt by (simp add: tag_def wf_pair_def)
  have split: "SplitN (CHR '':'') 3 tag = [n, show_nat (length v)]" using nv by (simp add: tag_def wf_pair_def SplitN_tag)
  have name: "TrimSpace n = n" "ToUpper n = n" "n \<noteq> []" using nv by (simp_all add: wf_pair_def TrimSpace_trimmed upper_def)
  have len: "Atoi (TrimSpace (show_nat (length v))) = Some (int (length v))"
    using fit by (subst TrimSpace_trimmed) (auto intro!: all_digits_trimmed ParseInt_show_nat simp: MaxInt64_def)
  define q where "q = length d + length pre + length tag"
  have wrap: "wrap64 (int (Suc (Suc q)) + int (length v)) = int (Suc (Suc q) + length v)"
    using fit by (intro trans [OF wrap64_id]) (simp_all add: q_def tag_def MinInt64_def)
  have i1: "Index (CHR ''<'') (pre @ CHR ''<'' # tag @ CHR ''>'' # v @ rest) = Some (length pre)"
    using pre by (rule Index_hit)
  have i2: "Index (CHR ''>'') (tag @ CHR ''>'' # v @ rest) = Some (length tag)" using gt by (rule Index_hit)
  have v: "TrimRight v = v" using nv by (simp add: wf_pair_def)
  have e: "pre @ ''<'' @ n @ '':'' @ show_nat (length v) @ ''>'' @ v @ rest = pre @ CHR ''<'' # tag @ CHR ''>'' # v @ rest"
    by (simp add: tag_def)
  have slice: "slice (Suc (Suc q)) (Suc (Suc q) + length v) (d @ pre @ CHR ''<'' # tag @ CHR ''>'' # v @ rest) = v"
    by (simp add: slice_def q_def)
  have "VparseTag (at d (pre @ CHR ''<'' # tag @ CHR ''>'' # v @ rest)) =
      Ret (\<lparr>vp_input = d @ pre @ CHR ''<'' # tag @ CHR ''>'' # v @ rest, vp_pos = Suc (Suc q) + length v\<rparr>, Tag n v [])"
    using i1 i2 split name len wrap v slice unfolding q_def
    by (simp add: VparseTag_def at_def Let_def del: of_nat_Suc of_nat_add)
  then show ?thesis unfolding e by (simp add: at_def tag_def q_def)
qed

lemma VparseTag_EOR:
  assumes "CHR ''<'' \<notin> set pre"
  shows "VparseTag (at d (pre @ ''<EOR>'' @ rest)) = Ret (at (d @ pre @ ''<EOR>'') rest, Tag ''EOR'' [] [])"
proof -
  have i1: "Index (CHR ''<'') (pre @ CHR ''<'' # ''EOR>'' @ rest) = Some (length pre)" using assms by (rule Index_hit)
  have i2: "Index (CHR ''>'') (''EOR'' @ CHR ''>'' # rest) = Some (length ''EOR'')" by (rule Index_hit) simp
  have s: "SplitN (CHR '':'') 3 ''EOR'' = [''EOR'']" and u: "TrimSpace ''EOR'' = ''EOR''" "ToUpper ''EOR'' = ''EOR''"
    by code_simp+
  show ?thesis using i1 i2 s u by (simp add: VparseTag_def at_def Let_def)
qed

lemma VparseTag_end: "CHR ''<'' \<notin> set pre \<Longrightarrow> VparseTag (at d pre) = Ret (at d pre, TagEOF)"
  by (simp add: VparseTag_def at_def Index_miss)

definition vfield_text :: "string \<times> string \<Rightarrow> string" where
  "vfield_text nv = EncodeField (fst nv) (snd nv)"

definition vrecord_text :: "VRecord \<Rightarrow> string" where
  "vrecord_text r = concat (map vfield_text r) @ ''<EOR>'' @ [char_of (10 :: nat)]"

lemma newline_blank: "CHR ''<'' \<notin> set [char_of (10 :: nat)]"
  by (simp add: eval_char)

lemma update_new: "n \<notin> fst ` set rec \<Longrightarrow> AList.update n v rec = rec @ [(n, v)]"
  by (induction rec) auto

lemma Vnext_loop_step:
  "VparseTag p = Ret (p', Tag n v t) \<Longrightarrow> n \<noteq> ''EOH'' \<Longrightarrow> n \<noteq> ''EOR'' \<Longrightarrow>
   Vnext_loop p rec = Vnext_loop p' (AList.update n v rec)"
  by (simp add: Vnext_loop.simps [of p rec] Vnext_step_def)

lemma Vnext_loop_EOR:
  "VparseTag p = Ret (p', Tag ''EOR'' v t) \<Longrightarrow> rec \<noteq> [] \<Longrightarrow> Vnext_loop p rec = Ret (p', Inr (Some rec))"
  by (simp add: Vnext_loop.simps [of p rec] Vnext_step_def)

lemma Vnext_loop_fields:
  assumes "list_all wf_pair fs" "distinct (map fst (acc @ fs))" "CHR ''<'' \<notin> set pre"
    "int (length (d @ pre @ concat (map vfield_text fs) @ rest)) \<le> MaxInt64"
  shows "\<exists>d' pre'. CHR ''<'' \<notin> set pre' \<and> d' @ pre' @ rest = d @ pre @ concat (map vfield_text fs) @ rest
     \<and> Vnext_loop (at d (pre @ concat (map vfield_text fs) @ rest)) acc = Vnext_loop (at d' (pre' @ rest)) (acc @ fs)"
  using assms
proof (induction fs arbitrary: acc d pre)
  case Nil
  then show ?case by (intro exI [of _ d] exI [of _ pre]) simp
next
  case (Cons nv fs)
  obtain n v where nv: "nv = (n, v)" by (cases nv)
  have wf: "wf_pair (n, v)" "v \<noteq> []" using Cons.prems(1) nv by (simp_all add: wf_pair_def)
  let ?tail = "[char_of (10 :: nat)] @ concat (map vfield_text fs) @ rest"
    and ?tag = "''<'' @ n @ '':'' @ show_nat (length v) @ ''>'' @ v"
  have whole: "pre @ concat (map vfield_text (nv # fs)) @ rest = pre @ ?tag @ ?tail"
    using wf(2) by (simp add: nv vfield_text_def EncodeField_def)
  have fit: "int (length (d @ pre @ ?tag @ ?tail)) \<le> MaxInt64" using Cons.prems(4) whole by simp
  have tag: "VparseTag (at d (pre @ ?tag @ ?tail)) = Ret (at (d @ pre @ ?tag) ?tail, Tag n v [])"
    using VparseTag_field [OF wf(1) Cons.prems(3), of d ?tail] fit by simp
  have n: "n \<noteq> ''EOH''" "n \<noteq> ''EOR''" "n \<notin> fst ` set acc"
    using wf(1) Cons.prems(2) nv by (auto simp: wf_pair_def)
  have step: "Vnext_loop (at d (pre @ ?tag @ ?tail)) acc = Vnext_loop (at (d @ pre @ ?tag) ?tail) (acc @ [(n, v)])"
    using Vnext_loop_step [OF tag n(1,2), of acc] update_new [OF n(3)] by simp
  obtain d' pre' where "CHR ''<'' \<notin> set pre'" "d' @ pre' @ rest = (d @ pre @ ?tag) @ ?tail"
      "Vnext_loop (at (d @ pre @ ?tag) ?tail) (acc @ [(n, v)]) = Vnext_loop (at d' (pre' @ rest)) ((acc @ [(n, v)]) @ fs)"
    using Cons.IH [of "acc @ [(n, v)]" "[char_of (10 :: nat)]" "d @ pre @ ?tag"] Cons.prems nv fit newline_blank by auto
  then show ?case unfolding whole using step nv by (intro exI [of _ d'] exI [of _ pre']) simp
qed

lemma NextRecord_encoded:
  assumes r: "r \<noteq> []" "list_all wf_pair r" "distinct (map fst r)" and pre: "CHR ''<'' \<notin> set pre"
    and fit: "int (length (d @ pre @ vrecord_text r @ rest)) \<le> MaxInt64"
  shows "\<exists>d'. NextRecord (at d (pre @ vrecord_text r @ rest)) = Ret (at d' ([char_of (10 :: nat)] @ rest), Inr (Some r))
     \<and> d' @ [char_of (10 :: nat)] @ rest = d @ pre @ vrecord_text r @ rest"
proof -
  let ?rest = "''<EOR>'' @ [char_of (10 :: nat)] @ rest"
  obtain d' pre' where d': "CHR ''<'' \<notin> set pre'" "d' @ pre' @ ?rest = d @ pre @ vrecord_text r @ rest"
      "NextRecord (at d (pre @ vrecord_text r @ rest)) = Vnext_loop (at d' (pre' @ ?rest)) r"
    using Vnext_loop_fields [of r "[]" pre d ?rest] assms by (auto simp: NextRecord_def vrecord_text_def)
  have "Vnext_loop (at d' (pre' @ ?rest)) r = Ret (at (d' @ pre' @ ''<EOR>'') ([char_of (10 :: nat)] @ rest), Inr (Some r))"
    using Vnext_loop_EOR [OF VparseTag_EOR [OF d'(1)] r(1)] by simp
  with d' show ?thesis by (intro exI [of _ "d' @ pre' @ ''<EOR>''"]) simp
qed

lemma Vparse_loop_encoded:
  assumes "list_all (\<lambda>r. r \<noteq> [] \<and> list_all wf_pair r \<and> distinct (map fst r)) rs" "CHR ''<'' \<notin> set pre"
    "int (length (d @ pre @ concat (map vrecord_text rs))) \<le> MaxInt64"
  shows "Vparse_loop (at d (pre @ concat (map vrecord_text rs))) acc = Ret (acc @ rs, None)"
  using assms
proof (induction rs arbitrary: acc d pre)
  case Nil
  then have "NextRecord (at d pre) = Ret (at d pre, Inr None)"
    by (simp add: NextRecord_def Vnext_loop.simps [of "at d pre"] Vnext_step_def VparseTag_end)
  then show ?case by (simp add: Vparse_loop.simps [of "at d pre" acc])
next
  case (Cons r rs)
  let ?nl = "[char_of (10 :: nat)]" and ?tl = "concat (map vrecord_text rs)"
  obtain d' where d': "NextRecord (at d (pre @ vrecord_text r @ ?tl)) = Ret (at d' (?nl @ ?tl), Inr (Some r))"
      "d' @ ?nl @ ?tl = d @ pre @ vrecord_text r @ ?tl"
    using NextRecord_encoded [of r pre d ?tl] Cons.prems by auto
  have "int (length (d' @ ?nl @ ?tl)) \<le> MaxInt64" unfolding d'(2) using Cons.prems(3) by simp
  then have "Vparse_loop (at d' (?nl @ ?tl)) (acc @ [r]) = Ret ((acc @ [r]) @ rs, None)"
    using Cons.prems newline_blank by (intro Cons.IH) simp_all
  with d'(1) show ?case by (simp add: Vparse_loop.simps [of "at d (pre @ vrecord_text r @ ?tl)"])
qed


section \<open>Overflow\<close>

lemma wrap64_over: "MaxInt64 < i \<Longrightarrow> i \<le> 2 * MaxInt64 \<Longrightarrow> wrap64 i < 0"
proof -
  assume i: "MaxInt64 < i" "i \<le> 2 * MaxInt64"
  have "(i + 9223372036854775808) mod 18446744073709551616 = (i + 9223372036854775808 - 18446744073709551616) mod 18446744073709551616"
    by (rule minus_mod_self2 [symmetric])
  also have "\<dots> = i + 9223372036854775808 - 18446744073709551616"
    using i by (intro mod_pos_pos_trivial) (simp_all add: MaxInt64_def)
  finally show ?thesis using i by (simp add: wrap64_def MaxInt64_def)
qed


section \<open>Properties\<close>

text \<open>
  C33. The vault reads what it encodes.  For records with distinct well-formed names and
  values without trailing blanks, whose text is shorter than the largest machine integer,
  parsing the encoded records returns exactly them, in order, without an error or a panic.
\<close>

theorem vault_encode_parse:
  assumes "list_all (\<lambda>r. r \<noteq> [] \<and> list_all wf_pair r \<and> distinct (map fst r)) rs"
    and "int (length (concat (map vrecord_text rs))) \<le> MaxInt64"
  shows "VParseAll (concat (map vrecord_text rs)) = Ret (rs, None)"
  using Vparse_loop_encoded [of rs "[]" "[]" "[]"] assms by (simp add: VParseAll_def VNewParser_def at_def)

theorem vault_encode_parse_witness:
  "VParseAll (vrecord_text [(''CALL'', ''W1AW''), (''BAND'', ''20M'')]) = Ret ([[(''CALL'', ''W1AW''), (''BAND'', ''20M'')]], None)"
proof -
  have "list_all wf_pair [(''CALL'', ''W1AW''), (''BAND'', ''20M'')]"
    by (simp add: wf_pair_def upper_def trimmed_def TrimRight_def is_blank_def go_defs)
  moreover have "length (vrecord_text [(''CALL'', ''W1AW''), (''BAND'', ''20M'')]) = 31"
    by (simp add: vrecord_text_def vfield_text_def EncodeField_def show_nat.simps)
  ultimately show ?thesis
    using vault_encode_parse [of "[[(''CALL'', ''W1AW''), (''BAND'', ''20M'')]]"] by (simp add: MaxInt64_def)
qed

text \<open>
  A declared length can crash the vault.  The check of a declared length against the
  remaining input adds it to the position in 64-bit arithmetic.  A length that is close
  enough to the largest integer wraps the sum around, passes the check, and the slice that
  follows panics - whatever the name of the field and the rest of the input.
\<close>

theorem vault_length_overflow_panics:
  assumes "n \<noteq> []" "trimmed n" "CHR '':'' \<notin> set n" "CHR ''>'' \<notin> set n"
    and "int k \<le> MaxInt64" "int (length n + length (show_nat k) + 3) \<le> MaxInt64"
    and "MaxInt64 < int (length n + length (show_nat k) + 3) + int k"
  shows "VParseAll (''<'' @ n @ '':'' @ show_nat k @ ''>'' @ rest) = Panic"
proof -
  define tag where "tag = n @ CHR '':'' # show_nat k"
  let ?in = "CHR ''<'' # tag @ CHR ''>'' # rest"
  have i1: "Index (CHR ''<'') ?in = Some 0" using Index_hit [of "CHR ''<''" "[]" "tag @ CHR ''>'' # rest"] by simp
  have i2: "Index (CHR ''>'') (tag @ CHR ''>'' # rest) = Some (length tag)"
    using assms(4) not_digit_gt by (intro Index_hit) (simp add: tag_def)
  have s: "SplitN (CHR '':'') 3 tag = [n, show_nat k]" using assms(3) by (simp add: tag_def SplitN_tag)
  have name: "TrimSpace n = n" "ToUpper n \<noteq> []" using assms(1,2) by (simp_all add: TrimSpace_trimmed)
  have a: "Atoi (TrimSpace (show_nat k)) = Some (int k)"
    using assms(5) by (subst TrimSpace_trimmed) (auto intro!: all_digits_trimmed ParseInt_show_nat)
  have w: "wrap64 (int (Suc (Suc (length tag))) + int k) < 0"
    using assms(5-7) by (intro wrap64_over) (simp_all add: tag_def)
  then have w2: "\<not> int (length ?in) < wrap64 (int (Suc (Suc (length tag))) + int k)"
    "wrap64 (int (Suc (Suc (length tag))) + int k) < int (Suc (Suc (length tag)))" by linarith+
  have "VparseTag (VNewParser ?in) = Panic"
    using i1 i2 s name a w2 by (simp add: VparseTag_def VNewParser_def Let_def del: of_nat_Suc of_nat_add)
  then have "VParseAll ?in = Panic"
    by (simp add: VParseAll_def Vparse_loop.simps [of "VNewParser ?in"] NextRecord_def
        Vnext_loop.simps [of "VNewParser ?in" "[]"] Vnext_step_def)
  then show ?thesis by (simp add: tag_def)
qed

theorem vault_length_overflow_panics_witness:
  "VParseAll (''<'' @ ''CALL'' @ '':'' @ show_nat 9223372036854775807 @ ''>'' @ ''W1AW<EOR>'') = Panic"
proof -
  have "length (show_nat 9223372036854775807) = 19" by (simp add: show_nat.simps)
  then show ?thesis
    by (intro vault_length_overflow_panics) (simp_all add: trimmed_def go_defs MaxInt64_def)
qed

end
