(* ===== verification/Awards.thy ===== *)
theory Awards
  imports Go_Prelude
begin

text \<open>
  \<open>api/internal/services/awards\<close>: the award programs with their milestones and targets, the
  normalisation of US state names and the WPX prefix rule of the award counter.
\<close>

section \<open>Award types and milestones\<close>

type_synonym AwardType = string

definition AwardDXCC :: AwardType where "AwardDXCC = ''dxcc''"
definition AwardWAS :: AwardType where "AwardWAS = ''was''"
definition AwardVUCC :: AwardType where "AwardVUCC = ''vucc''"
definition AwardWAZ :: AwardType where "AwardWAZ = ''waz''"
definition AwardWPX :: AwardType where "AwardWPX = ''wpx''"
definition AwardPOTAHunter :: AwardType where "AwardPOTAHunter = ''pota_hunter''"
definition AwardPOTAActivator :: AwardType where "AwardPOTAActivator = ''pota_activator''"
definition AwardSOTAChaser :: AwardType where "AwardSOTAChaser = ''sota_chaser''"
definition AwardSOTAActivator :: AwardType where "AwardSOTAActivator = ''sota_activator''"

lemmas award_defs = AwardDXCC_def AwardWAS_def AwardVUCC_def AwardWAZ_def AwardWPX_def AwardPOTAHunter_def
  AwardPOTAActivator_def AwardSOTAChaser_def AwardSOTAActivator_def

definition ValidAwardTypes :: "AwardType list" where
  "ValidAwardTypes =
     [AwardDXCC, AwardWAS, AwardVUCC, AwardWAZ, AwardWPX, AwardPOTAHunter, AwardPOTAActivator,
      AwardSOTAChaser, AwardSOTAActivator]"

definition IsValidAwardType :: "string \<Rightarrow> bool" where
  "IsValidAwardType s = list_ex (\<lambda>at. at = s) ValidAwardTypes"

datatype Milestone = Milestone (ms_Count: int) (ms_Label: string)

text \<open>A label in two parts, joined by a dash (U+2014 in UTF-8).\<close>

definition dash :: "string \<Rightarrow> string \<Rightarrow> string" where
  "dash a b = a @ '' '' @ map char_of [0xE2, 0x80, 0x94 :: nat] @ '' '' @ b"

definition MilestonesFor :: "AwardType \<Rightarrow> Milestone list" where
  "MilestonesFor at =
     (if at = AwardDXCC then
       [Milestone 100 (dash ''DXCC'' ''100 entities worked''),
        Milestone 200 (dash ''DXCC'' ''200 entities worked''),
        Milestone 300 (dash ''DXCC'' ''Honor Roll (300+)''),
        Milestone 330 (dash ''DXCC'' ''Near-complete (330+)'')]
      else if at = AwardWAS then
       [Milestone 10 (dash ''WAS'' ''10 states''),
        Milestone 25 (dash ''WAS'' ''25 states''),
        Milestone 50 (dash ''WAS'' ''All 50 states!'')]
      else if at = AwardVUCC then
       [Milestone 100 (dash ''VUCC'' ''Basic (100 grids)''),
        Milestone 500 (dash ''VUCC'' ''500 grids''),
        Milestone 1000 (dash ''VUCC'' ''1000 grids'')]
      else if at = AwardWAZ then
       [Milestone 10 (dash ''WAZ'' ''10 zones''),
        Milestone 20 (dash ''WAZ'' ''20 zones''),
        Milestone 40 (dash ''WAZ'' ''All 40 zones!'')]
      else if at = AwardWPX then
       [Milestone 100 (dash ''WPX'' ''100 prefixes''),
        Milestone 300 (dash ''WPX'' ''300 prefixes''),
        Milestone 600 (dash ''WPX'' ''600 prefixes''),
        Milestone 1000 (dash ''WPX'' ''1000 prefixes'')]
      else if at = AwardPOTAHunter then
       [Milestone 10 (dash ''POTA Hunter'' ''10 parks''),
        Milestone 100 (dash ''POTA Hunter'' ''100 parks''),
        Milestone 500 (dash ''POTA Hunter'' ''500 parks''),
        Milestone 1000 (dash ''POTA Hunter'' ''1000 parks'')]
      else if at = AwardPOTAActivator then
       [Milestone 1 (dash ''POTA Activator'' ''First activation!''),
        Milestone 10 (dash ''POTA Activator'' ''10 activations''),
        Milestone 50 (dash ''POTA Activator'' ''50 activations''),
        Milestone 100 (dash ''POTA Activator'' ''100 activations'')]
      else if at = AwardSOTAChaser then
       [Milestone 1 (dash ''SOTA Chaser'' ''First summit chased!''),
        Milestone 100 (dash ''SOTA Chaser'' ''100 summits''),
        Milestone 500 (dash ''SOTA Chaser'' ''Shack Sloth (500+)''),
        Milestone 1000 (dash ''SOTA Chaser'' ''1000 summits'')]
      else if at = AwardSOTAActivator then
       [Milestone 1 (dash ''SOTA Activator'' ''First summit activated!''),
        Milestone 100 (dash ''SOTA Activator'' ''Mountain Goat (100+)''),
        Milestone 250 (dash ''SOTA Activator'' ''250 summits''),
        Milestone 500 (dash ''SOTA Activator'' ''500 summits'')]
      else [])"

definition TotalTarget :: "AwardType \<Rightarrow> int" where
  "TotalTarget at =
     (if at = AwardDXCC then 340
      else if at = AwardWAS then 50
      else if at = AwardVUCC then 100
      else if at = AwardWAZ then 40
      else 0)"


section \<open>US states\<close>

definition usStateCodes :: "string list" where
  "usStateCodes =
    [''AL'', ''AK'', ''AZ'', ''AR'', ''CA'', ''CO'', ''CT'', ''DE'', ''FL'', ''GA'',
     ''HI'', ''ID'', ''IL'', ''IN'', ''IA'', ''KS'', ''KY'', ''LA'', ''ME'', ''MD'',
     ''MA'', ''MI'', ''MN'', ''MS'', ''MO'', ''MT'', ''NE'', ''NV'', ''NH'', ''NJ'',
     ''NM'', ''NY'', ''NC'', ''ND'', ''OH'', ''OK'', ''OR'', ''PA'', ''RI'', ''SC'',
     ''SD'', ''TN'', ''TX'', ''UT'', ''VT'', ''VA'', ''WA'', ''WV'', ''WI'', ''WY'']"

definition usStateNames :: "(string \<times> string) list" where
  "usStateNames =
    [(''ALABAMA'', ''AL''), (''ALASKA'', ''AK''), (''ARIZONA'', ''AZ''), (''ARKANSAS'', ''AR''),
     (''CALIFORNIA'', ''CA''), (''COLORADO'', ''CO''), (''CONNECTICUT'', ''CT''), (''DELAWARE'', ''DE''),
     (''FLORIDA'', ''FL''), (''GEORGIA'', ''GA''), (''HAWAII'', ''HI''), (''IDAHO'', ''ID''),
     (''ILLINOIS'', ''IL''), (''INDIANA'', ''IN''), (''IOWA'', ''IA''), (''KANSAS'', ''KS''),
     (''KENTUCKY'', ''KY''), (''LOUISIANA'', ''LA''), (''MAINE'', ''ME''), (''MARYLAND'', ''MD''),
     (''MASSACHUSETTS'', ''MA''), (''MICHIGAN'', ''MI''), (''MINNESOTA'', ''MN''), (''MISSISSIPPI'', ''MS''),
     (''MISSOURI'', ''MO''), (''MONTANA'', ''MT''), (''NEBRASKA'', ''NE''), (''NEVADA'', ''NV''),
     (''NEW HAMPSHIRE'', ''NH''), (''NEW JERSEY'', ''NJ''), (''NEW MEXICO'', ''NM''), (''NEW YORK'', ''NY''),
     (''NORTH CAROLINA'', ''NC''), (''NORTH DAKOTA'', ''ND''), (''OHIO'', ''OH''), (''OKLAHOMA'', ''OK''),
     (''OREGON'', ''OR''), (''PENNSYLVANIA'', ''PA''), (''RHODE ISLAND'', ''RI''), (''SOUTH CAROLINA'', ''SC''),
     (''SOUTH DAKOTA'', ''SD''), (''TENNESSEE'', ''TN''), (''TEXAS'', ''TX''), (''UTAH'', ''UT''),
     (''VERMONT'', ''VT''), (''VIRGINIA'', ''VA''), (''WASHINGTON'', ''WA''), (''WEST VIRGINIA'', ''WV''),
     (''WISCONSIN'', ''WI''), (''WYOMING'', ''WY''), (''DISTRICT OF COLUMBIA'', ''DC''), (''WASHINGTON DC'', ''DC''),
     (''WASHINGTON D C'', ''DC''), (''D C'', ''DC'')]"

definition NormalizeUSState :: "string \<Rightarrow> string \<times> bool" where
  "NormalizeUSState value =
     (let normalized = Join '' '' (Fields (RemoveAll (CHR ''.'') (ToUpper (TrimSpace value)))) in
      if normalized = [] then ([], False)
      else if length normalized = 2 then (normalized, normalized \<in> set usStateCodes)
      else (case map_of usStateNames normalized of
              None \<Rightarrow> ([], False)
            | Some code \<Rightarrow> (code, code \<in> set usStateCodes)))"


section \<open>The WPX prefix\<close>

definition isPortableSuffix :: "string \<Rightarrow> bool" where
  "isPortableSuffix s \<longleftrightarrow> s \<in> {''P'', ''M'', ''AM'', ''MM'', ''QRP'', ''QRPP'', ''LGT'', ''A'', ''B'', ''C''}"

definition WPXPrefix :: "string \<Rightarrow> string" where
  "WPXPrefix callsign =
     (if callsign = [] then []
      else
        let cs0 = ToUpper (TrimSpace callsign);
            cs = (case cut (CHR ''/'') cs0 of
                    (_, None) \<Rightarrow> cs0
                  | (left, Some right) \<Rightarrow>
                      if isPortableSuffix right then left
                      else if isPortableSuffix left then right
                      else left) in
        if list_ex IsDigit cs then takeWhile (\<lambda>c. \<not> IsDigit c) cs @ take 1 (dropWhile (\<lambda>c. \<not> IsDigit c) cs)
        else cs)"

end
