(* ===== verification/Award_Refresh.thy ===== *)
theory Award_Refresh
  imports Awards "HOL-Library.AList"
begin

text \<open>
  \<open>api/internal/jobs/award_refresh_worker.go\<close>: the background job that recalculates the award
  progress of a user and sends milestone notifications.

  The rows that the progress queries return are an argument of the model (\<^const>\<open>None\<close>: the query
  fails).  The table \<open>award_progress\<close> is a map on its unique key (the worker leaves \<open>band\<close> and
  \<open>mode\<close> NULL), the notifications of type \<open>award_milestone\<close> are a list; statements are committed one by one, and the
  argument \<open>env\<close> says which of them succeed.  Where the source iterates over a Go map, whose
  order is unspecified, the model uses the order of insertion.
\<close>

section \<open>Tables and queries\<close>

record progress =
  pr_worked :: bool
  pr_confirmed :: bool
  pr_qso_count :: int
  pr_last_qso_at :: "int option"

type_synonym progress_table = "int \<times> AwardType \<times> string \<rightharpoonup> progress"

record notif =
  nt_user :: int
  nt_award :: AwardType
  nt_milestone :: int
  nt_label :: string
  nt_worked :: int
  nt_created_at :: int

record award_db =
  ad_progress :: progress_table
  ad_notes :: "notif list"

record 'k award_row =
  aw_id :: 'k
  aw_worked :: bool
  aw_confirmed :: bool
  aw_count :: int
  aw_time :: "int option"

record award_queries =
  q_DXCC :: "int award_row list option"
  q_States :: "string award_row list option"
  q_Grids :: "string award_row list option"
  q_Zones :: "int award_row list option"
  q_WPX :: "string award_row list option"
  q_HuntedParks :: "string award_row list option"
  q_ActivatedParks :: "string award_row list option"
  q_WorkedSummits :: "string award_row list option"
  q_ActivatedSummits :: "string award_row list option"

record env =
  en_delete_ok :: "AwardType \<Rightarrow> bool"
  en_upsert_ok :: "AwardType \<Rightarrow> string \<Rightarrow> bool"
  en_count_ok :: "AwardType \<Rightarrow> int \<Rightarrow> bool"
  en_note_ok :: "AwardType \<Rightarrow> int \<Rightarrow> bool"

definition DeleteAwardProgressByType :: "int \<Rightarrow> AwardType \<Rightarrow> progress_table \<Rightarrow> progress_table" where
  "DeleteAwardProgressByType u at tbl = (\<lambda>(u', at', k). if u' = u \<and> at' = at then None else tbl (u', at', k))"

fun upsert_entries ::
  "env \<Rightarrow> int \<Rightarrow> AwardType \<Rightarrow> (string \<times> progress) list \<Rightarrow> int \<Rightarrow> progress_table \<Rightarrow> progress_table \<times> int option" where
  "upsert_entries env u at [] worked tbl = (tbl, Some worked)"
| "upsert_entries env u at ((k, p) # es) worked tbl =
     (if en_upsert_ok env at k then upsert_entries env u at es (worked + 1) (tbl((u, at, k) \<mapsto> p)) else (tbl, None))"

definition entry :: "string \<Rightarrow> bool \<Rightarrow> bool \<Rightarrow> int \<Rightarrow> int option \<Rightarrow> string \<times> progress" where
  "entry k w c n t = (k, \<lparr>pr_worked = w, pr_confirmed = c, pr_qso_count = n, pr_last_qso_at = t\<rparr>)"


section \<open>Aggregation\<close>

record agg =
  ag_count :: int
  ag_confirmed :: bool
  ag_first :: "int option"

definition earlier :: "int option \<Rightarrow> int option \<Rightarrow> int option" where
  "earlier old new =
     (case new of
        None \<Rightarrow> old
      | Some t \<Rightarrow> (case old of None \<Rightarrow> Some t | Some t0 \<Rightarrow> if t < t0 then Some t else old))"

definition agg_add :: "(string \<times> agg) list \<Rightarrow> string \<Rightarrow> 'k award_row \<Rightarrow> (string \<times> agg) list" where
  "agg_add m k row =
     (let a = (case map_of m k of Some a \<Rightarrow> a | None \<Rightarrow> \<lparr>ag_count = 0, ag_confirmed = False, ag_first = None\<rparr>) in
      AList.update k
        \<lparr>ag_count = ag_count a + aw_count row, ag_confirmed = (aw_confirmed row \<or> ag_confirmed a),
         ag_first = earlier (ag_first a) (aw_time row)\<rparr> m)"

fun states_loop :: "(string \<times> agg) list \<Rightarrow> string award_row list \<Rightarrow> (string \<times> agg) list" where
  "states_loop m [] = m"
| "states_loop m (row # rows) =
     (case NormalizeUSState (aw_id row) of
        (code, ok) \<Rightarrow> if \<not> ok then states_loop m rows else states_loop (agg_add m code row) rows)"

fun wpx_loop :: "(string \<times> agg) list \<Rightarrow> string award_row list \<Rightarrow> (string \<times> agg) list" where
  "wpx_loop m [] = m"
| "wpx_loop m (row # rows) =
     (let pfx = WPXPrefix (aw_id row) in
      if pfx = [] then wpx_loop m rows else wpx_loop (agg_add m pfx row) rows)"


section \<open>The refresh functions\<close>

text \<open>The entries each function upserts, in order; a failing query is \<^const>\<open>None\<close>.\<close>

definition refreshDXCC :: "award_queries \<Rightarrow> (string \<times> progress) list option" where
  "refreshDXCC q = map_option (\<lambda>rows.
     map (\<lambda>r. entry (show_int (aw_id r)) (aw_worked r) (aw_confirmed r) (aw_count r) (aw_time r)) (filter aw_worked rows)) (q_DXCC q)"

definition refreshWAS :: "award_queries \<Rightarrow> (string \<times> progress) list option" where
  "refreshWAS q = map_option (\<lambda>rows.
     map (\<lambda>(code, a). entry code True False (ag_count a) (ag_first a)) (states_loop [] rows)) (q_States q)"

definition refreshVUCC :: "award_queries \<Rightarrow> (string \<times> progress) list option" where
  "refreshVUCC q = map_option (map (\<lambda>r. entry (aw_id r) True False (aw_count r) (aw_time r))) (q_Grids q)"

definition refreshWAZ :: "award_queries \<Rightarrow> (string \<times> progress) list option" where
  "refreshWAZ q = map_option (map (\<lambda>r. entry (show_int (aw_id r)) True (aw_confirmed r) (aw_count r) (aw_time r))) (q_Zones q)"

definition refreshWPX :: "award_queries \<Rightarrow> (string \<times> progress) list option" where
  "refreshWPX q = map_option (\<lambda>rows.
     map (\<lambda>(pfx, a). entry pfx True (ag_confirmed a) (ag_count a) (ag_first a)) (wpx_loop [] rows)) (q_WPX q)"

definition refreshPOTAHunter :: "award_queries \<Rightarrow> (string \<times> progress) list option" where
  "refreshPOTAHunter q = map_option (map (\<lambda>r. entry (aw_id r) True (aw_confirmed r) (aw_count r) (aw_time r))) (q_HuntedParks q)"

definition refreshPOTAActivator :: "award_queries \<Rightarrow> (string \<times> progress) list option" where
  "refreshPOTAActivator q = map_option (map (\<lambda>r. entry (aw_id r) True False (aw_count r) (aw_time r))) (q_ActivatedParks q)"

definition refreshSOTAChaser :: "award_queries \<Rightarrow> (string \<times> progress) list option" where
  "refreshSOTAChaser q = map_option (map (\<lambda>r. entry (aw_id r) True (aw_confirmed r) (aw_count r) (aw_time r))) (q_WorkedSummits q)"

definition refreshSOTAActivator :: "award_queries \<Rightarrow> (string \<times> progress) list option" where
  "refreshSOTAActivator q = map_option (map (\<lambda>r. entry (aw_id r) True False (aw_count r) (aw_time r))) (q_ActivatedSummits q)"

datatype refresh_error = DeleteFailed | QueryOrUpsertFailed | UnknownAwardType

definition award_entries :: "award_queries \<Rightarrow> AwardType \<Rightarrow> refresh_error + (string \<times> progress) list option" where
  "award_entries q at =
     (if at = AwardDXCC then Inr (refreshDXCC q)
      else if at = AwardWAS then Inr (refreshWAS q)
      else if at = AwardVUCC then Inr (refreshVUCC q)
      else if at = AwardWAZ then Inr (refreshWAZ q)
      else if at = AwardWPX then Inr (refreshWPX q)
      else if at = AwardPOTAHunter then Inr (refreshPOTAHunter q)
      else if at = AwardPOTAActivator then Inr (refreshPOTAActivator q)
      else if at = AwardSOTAChaser then Inr (refreshSOTAChaser q)
      else if at = AwardSOTAActivator then Inr (refreshSOTAActivator q)
      else Inl UnknownAwardType)"


section \<open>Milestones\<close>

definition Days365 :: int where "Days365 = 365 * 24 * 60 * 60 * 1000000000"

definition already_sent :: "int \<Rightarrow> int \<Rightarrow> AwardType \<Rightarrow> int \<Rightarrow> notif list \<Rightarrow> int" where
  "already_sent now u at m notes =
     int (length (filter (\<lambda>n. nt_user n = u \<and> nt_award n = at \<and> nt_milestone n = m \<and> now - Days365 < nt_created_at n) notes))"

fun milestones_loop :: "env \<Rightarrow> int \<Rightarrow> int \<Rightarrow> AwardType \<Rightarrow> int \<Rightarrow> Milestone list \<Rightarrow> notif list \<Rightarrow> notif list" where
  "milestones_loop env now u at worked [] notes = notes"
| "milestones_loop env now u at worked (m # ms) notes =
     (if worked < ms_Count m then milestones_loop env now u at worked ms notes
      else if \<not> en_count_ok env at (ms_Count m) \<or> 0 < already_sent now u at (ms_Count m) notes
      then milestones_loop env now u at worked ms notes
      else if \<not> en_note_ok env at (ms_Count m) then milestones_loop env now u at worked ms notes
      else milestones_loop env now u at worked ms
             (notes @ [\<lparr>nt_user = u, nt_award = at, nt_milestone = ms_Count m, nt_label = ms_Label m,
                        nt_worked = worked, nt_created_at = now\<rparr>]))"

definition checkMilestones :: "env \<Rightarrow> int \<Rightarrow> int \<Rightarrow> AwardType \<Rightarrow> int \<Rightarrow> notif list \<Rightarrow> notif list" where
  "checkMilestones env now u at worked notes = milestones_loop env now u at worked (MilestonesFor at) notes"


section \<open>The worker\<close>

definition refreshAwardType ::
  "env \<Rightarrow> award_queries \<Rightarrow> int \<Rightarrow> int \<Rightarrow> AwardType \<Rightarrow> award_db \<Rightarrow> award_db \<times> refresh_error option" where
  "refreshAwardType env q now u at db =
     (if \<not> en_delete_ok env at then (db, Some DeleteFailed)
      else
        let db1 = db\<lparr>ad_progress := DeleteAwardProgressByType u at (ad_progress db)\<rparr> in
        (case award_entries q at of
           Inl e \<Rightarrow> (db1, Some e)
         | Inr None \<Rightarrow> (db1, Some QueryOrUpsertFailed)
         | Inr (Some es) \<Rightarrow>
             (case upsert_entries env u at es 0 (ad_progress db1) of
                (tbl, None) \<Rightarrow> (db1\<lparr>ad_progress := tbl\<rparr>, Some QueryOrUpsertFailed)
              | (tbl, Some worked) \<Rightarrow>
                  (db1\<lparr>ad_progress := tbl, ad_notes := checkMilestones env now u at worked (ad_notes db1)\<rparr>, None))))"

fun refresh_types :: "env \<Rightarrow> award_queries \<Rightarrow> int \<Rightarrow> int \<Rightarrow> AwardType list \<Rightarrow> award_db \<Rightarrow> award_db" where
  "refresh_types env q now u [] db = db"
| "refresh_types env q now u (at # ats) db =
     refresh_types env q now u ats (fst (refreshAwardType env q now u at db))"

text \<open>\<open>RefreshUser\<close>; the arguments say whether a connection, the role and the user context can be set.\<close>

definition RefreshUser ::
  "bool \<Rightarrow> bool \<Rightarrow> bool \<Rightarrow> env \<Rightarrow> award_queries \<Rightarrow> int \<Rightarrow> int \<Rightarrow> string \<Rightarrow> award_db \<Rightarrow> award_db \<times> bool" where
  "RefreshUser acquire_ok role_ok config_ok env q now userID awardType db =
     (if \<not> acquire_ok \<or> \<not> role_ok \<or> \<not> config_ok then (db, False)
      else (refresh_types env q now userID (if awardType \<noteq> [] then [awardType] else ValidAwardTypes) db, True))"


section \<open>What a refresh leaves in the table\<close>

lemma upsert_entries_other:
  "upsert_entries env u at es w tbl = (tbl', r) \<Longrightarrow> (u', at') \<noteq> (u, at) \<Longrightarrow> tbl' (u', at', k) = tbl (u', at', k)"
  by (induction es arbitrary: w tbl) (auto split: if_splits)

lemma upsert_entries_ok:
  "upsert_entries env u at es w tbl = (tbl', Some w') \<Longrightarrow> distinct (map fst es) \<Longrightarrow>
   w' = w + int (length es) \<and> tbl' (u, at, k) = (case map_of es k of Some p \<Rightarrow> Some p | None \<Rightarrow> tbl (u, at, k))"
proof (induction es arbitrary: w tbl)
  case (Cons kp es)
  obtain k' p where kp: "kp = (k', p)" by (cases kp)
  have "upsert_entries env u at es (w + 1) (tbl((u, at, k') \<mapsto> p)) = (tbl', Some w')"
    using Cons.prems(1) kp by (auto split: if_splits)
  then have ih: "w' = w + 1 + int (length es)" "tbl' (u, at, k) =
      (case map_of es k of Some q \<Rightarrow> Some q | None \<Rightarrow> (tbl((u, at, k') \<mapsto> p)) (u, at, k))"
    using Cons.IH Cons.prems(2) by auto
  have "map_of es k' = None" using Cons.prems(2) kp by (simp add: map_of_eq_None_iff)
  with ih kp show ?case by (auto split: option.splits)
qed simp

lemma refreshAwardType_other:
  assumes "(u', at') \<noteq> (u, at)"
  shows "ad_progress (fst (refreshAwardType env q now u at db)) (u', at', k) = ad_progress db (u', at', k)"
proof -
  have d: "DeleteAwardProgressByType u at (ad_progress db) (u', at', k) = ad_progress db (u', at', k)"
    using assms by (auto simp: DeleteAwardProgressByType_def)
  have up: "upsert_entries env u at es 0 (DeleteAwardProgressByType u at (ad_progress db)) = (tbl, r) \<Longrightarrow>
      tbl (u', at', k) = ad_progress db (u', at', k)" for es tbl r
    using upsert_entries_other assms d by metis
  show ?thesis
    by (simp add: refreshAwardType_def Let_def d up split: sum.splits option.splits prod.splits)
qed

lemma refreshAwardType_done:
  assumes "refreshAwardType env q now u at db = (db', None)" "award_entries q at = Inr (Some es)" "distinct (map fst es)"
  shows "ad_progress db' (u, at, k) = map_of es k"
    and "ad_notes db' = checkMilestones env now u at (int (length es)) (ad_notes db)"
proof -
  let ?tbl0 = "DeleteAwardProgressByType u at (ad_progress db)"
  obtain tbl w where up: "upsert_entries env u at es 0 ?tbl0 = (tbl, Some w)"
      and db': "ad_progress db' = tbl" "ad_notes db' = checkMilestones env now u at w (ad_notes db)"
    using assms(1,2) by (auto simp: refreshAwardType_def Let_def split: if_splits prod.splits option.splits)
  have "w = int (length es) \<and> tbl (u, at, k) = (case map_of es k of Some p \<Rightarrow> Some p | None \<Rightarrow> ?tbl0 (u, at, k))"
    using upsert_entries_ok [OF up assms(3)] by simp
  with db' show "ad_progress db' (u, at, k) = map_of es k"
    and "ad_notes db' = checkMilestones env now u at (int (length es)) (ad_notes db)"
    by (auto simp: DeleteAwardProgressByType_def split: option.splits)
qed


section \<open>Aggregates\<close>

lemma agg_add_keys: "fst ` set (agg_add m k row) = insert k (fst ` set m)"
  by (simp add: agg_add_def Let_def dom_update)

lemma agg_add_distinct: "distinct (map fst m) \<Longrightarrow> distinct (map fst (agg_add m k row))"
  by (simp add: agg_add_def Let_def distinct_update)

definition count_of :: "(string \<times> agg) list \<Rightarrow> string \<Rightarrow> int" where
  "count_of m c = (case map_of m c of Some a \<Rightarrow> ag_count a | None \<Rightarrow> 0)"

lemma count_of_agg_add: "count_of (agg_add m k row) c = count_of m c + (if c = k then aw_count row else 0)"
  by (simp add: count_of_def agg_add_def Let_def update_conv split: option.splits)

definition in_state :: "string \<Rightarrow> string award_row \<Rightarrow> bool" where
  "in_state c row \<longleftrightarrow> NormalizeUSState (aw_id row) = (c, True)"

lemma states_loop_count:
  "count_of (states_loop m rows) c = count_of m c + sum_list (map aw_count (filter (in_state c) rows))"
proof (induction rows arbitrary: m)
  case (Cons row rows)
  then show ?case
    by (cases "NormalizeUSState (aw_id row)") (auto simp: in_state_def count_of_agg_add)
qed simp

lemma states_loop_keys:
  "fst ` set (states_loop m rows) = fst ` set m \<union> {c. \<exists>row \<in> set rows. in_state c row}"
proof (induction rows arbitrary: m)
  case (Cons row rows)
  then show ?case
    by (cases "NormalizeUSState (aw_id row)") (auto simp: in_state_def agg_add_keys)
qed simp

lemma states_loop_distinct: "distinct (map fst m) \<Longrightarrow> distinct (map fst (states_loop m rows))"
  by (induction rows arbitrary: m) (auto simp: agg_add_distinct split: prod.splits)

lemma in_state_code: "in_state c row \<Longrightarrow> c \<in> set usStateCodes"
  by (auto simp: in_state_def NormalizeUSState_def Let_def split: if_splits option.splits)

lemma length_codes: "length usStateCodes = 50"
  by (simp add: usStateCodes_def)

lemma states_loop_length: "length (states_loop [] rows) \<le> 50"
proof -
  have d: "distinct (map fst (states_loop [] rows))" by (rule states_loop_distinct) simp
  have "set (map fst (states_loop [] rows)) \<subseteq> set usStateCodes"
    using states_loop_keys [of "[]" rows] in_state_code by fastforce
  then have "card (set (map fst (states_loop [] rows))) \<le> length usStateCodes"
    by (meson List.finite_set card_length card_mono le_trans)
  with distinct_card [OF d] show ?thesis by (simp add: length_codes)
qed

lemma was_entries:
  "award_entries q AwardWAS = Inr (refreshWAS q)"
  by (simp add: award_entries_def award_defs)

lemma map_of_was:
  "map_option pr_qso_count (map_of (map (\<lambda>(code, a). entry code True False (ag_count a) (ag_first a)) m) c) =
   map_option ag_count (map_of m c)"
  by (induction m) (auto simp: entry_def)

lemma was_keys: "map fst (map (\<lambda>(code, a). entry code True False (ag_count a) (ag_first a)) m) = map fst m"
  by (induction m) (auto simp: entry_def)


section \<open>Notifications\<close>

definition sent :: "int \<Rightarrow> int \<Rightarrow> AwardType \<Rightarrow> int \<Rightarrow> notif list \<Rightarrow> bool" where
  "sent now u at m ns \<longleftrightarrow> 0 < already_sent now u at m ns"

lemma sent_iff:
  "sent now u at m ns \<longleftrightarrow>
     (\<exists>n \<in> set ns. nt_user n = u \<and> nt_award n = at \<and> nt_milestone n = m \<and> now - Days365 < nt_created_at n)"
  by (auto simp: sent_def already_sent_def filter_empty_conv)

lemma milestones_loop_quiet:
  "list_all (\<lambda>m. ms_Count m \<le> worked \<longrightarrow> sent now u at (ms_Count m) ns) ms \<Longrightarrow>
   milestones_loop env now u at worked ms ns = ns"
  by (induction ms) (auto simp: sent_def)

lemma milestones_loop_mono: "set ns \<subseteq> set (milestones_loop env now u at worked ms ns)"
  by (induction env now u at worked ms ns rule: milestones_loop.induct) auto

lemma milestones_loop_sends:
  assumes "\<And>m. en_count_ok env at m" "\<And>m. en_note_ok env at m" "m \<in> set ms" "ms_Count m \<le> worked"
  shows "sent now u at (ms_Count m) (milestones_loop env now u at worked ms ns)"
  using assms
proof (induction env now u at worked ms ns rule: milestones_loop.induct)
  case (2 env now u at worked m' ms ns)
  show ?case
  proof (cases "m \<in> set ms")
    case True
    with 2 show ?thesis by (auto simp del: One_nat_def)
  next
    case False
    with "2.prems" have m: "m = m'" by simp
    show ?thesis
    proof (cases "0 < already_sent now u at (ms_Count m') ns")
      case True
      then show ?thesis
        using "2.prems" m milestones_loop_mono [of ns env now u at worked ms] by (auto simp: sent_iff [unfolded sent_def] sent_iff)
    next
      case False
      let ?n = "\<lparr>nt_user = u, nt_award = at, nt_milestone = ms_Count m', nt_label = ms_Label m', nt_worked = worked, nt_created_at = now\<rparr>"
      have "?n \<in> set (milestones_loop env now u at worked ms (ns @ [?n]))"
        using milestones_loop_mono [of "ns @ [?n]" env now u at worked ms] by auto
      then show ?thesis
        using "2.prems" m False by (auto simp: sent_iff Days365_def intro!: bexI [of _ ?n])
    qed
  qed
qed simp

lemma milestones_loop_new:
  "set (milestones_loop env now u at worked ms ns) \<subseteq>
   set ns \<union> {n. nt_created_at n = now \<and> nt_user n = u \<and> nt_award n = at \<and>
                  (\<exists>m \<in> set ms. nt_milestone n = ms_Count m \<and> ms_Count m \<le> worked)}"
proof (induction ms arbitrary: ns)
  case (Cons m ms)
  let ?n = "\<lparr>nt_user = u, nt_award = at, nt_milestone = ms_Count m, nt_label = ms_Label m, nt_worked = worked, nt_created_at = now\<rparr>"
  show ?case
    using Cons.IH [of ns] Cons.IH [of "ns @ [?n]"] by (simp only: milestones_loop.simps) (auto split: if_splits)
qed simp

lemma milestones_loop_idem:
  assumes ok: "\<And>m. en_count_ok env at m" "\<And>m. en_note_ok env at m"
    and t: "now' - Days365 < now" and w: "worked' \<le> worked"
    and recent: "\<forall>n \<in> set ns. now' - Days365 < nt_created_at n"
  shows "milestones_loop env' now' u at worked' ms (milestones_loop env now u at worked ms ns) =
         milestones_loop env now u at worked ms ns"
proof (rule milestones_loop_quiet, unfold list_all_iff, intro ballI impI)
  let ?L = "milestones_loop env now u at worked ms ns"
  fix m assume m: "m \<in> set ms" "ms_Count m \<le> worked'"
  obtain n where n: "n \<in> set ?L" "nt_user n = u" "nt_award n = at" "nt_milestone n = ms_Count m"
    using milestones_loop_sends [of env at m ms worked now u ns] ok m w by (auto simp: sent_iff)
  have "now' - Days365 < nt_created_at n"
    using milestones_loop_new [of env now u at worked ms ns] n(1) recent t by auto
  with n show "sent now' u at (ms_Count m) ?L" by (force simp: sent_iff)
qed


section \<open>Properties\<close>

definition all_ok :: env where
  "all_ok = \<lparr>en_delete_ok = \<lambda>_. True, en_upsert_ok = \<lambda>_ _. True, en_count_ok = \<lambda>_ _. True, en_note_ok = \<lambda>_ _. True\<rparr>"

lemma upsert_all_ok: "\<exists>tbl' w'. upsert_entries all_ok u at es w tbl = (tbl', Some w')"
  by (induction es arbitrary: w tbl) (auto simp: all_ok_def)

lemma refresh_all_ok:
  assumes "award_entries q at = Inr (Some es)"
  shows "snd (refreshAwardType all_ok q now u at db) = None"
proof -
  obtain tbl w where "upsert_entries all_ok u at es 0 (DeleteAwardProgressByType u at (ad_progress db)) = (tbl, Some w)"
    using upsert_all_ok by blast
  moreover have "en_delete_ok all_ok at" by (simp add: all_ok_def)
  ultimately show ?thesis using assms by (simp add: refreshAwardType_def)
qed

definition state_row :: "string \<Rightarrow> int \<Rightarrow> int \<Rightarrow> string award_row" where
  "state_row s n t = \<lparr>aw_id = s, aw_worked = True, aw_confirmed = False, aw_count = n, aw_time = Some t\<rparr>"

definition sample_queries :: award_queries where
  "sample_queries =
     \<lparr>q_DXCC = Some [], q_States = Some [state_row ''tx'' 3 50, state_row ''Texas'' 2 40, state_row ''Bavaria'' 7 30],
      q_Grids = Some [], q_Zones = Some [], q_WPX = Some [], q_HuntedParks = Some [],
      q_ActivatedParks = Some [state_row ''US-0001'' 4 60, state_row ''US-0002'' 5 70],
      q_WorkedSummits = None, q_ActivatedSummits = Some []\<rparr>"


definition park_entries :: "(string \<times> progress) list" where
  "park_entries = [entry ''US-0001'' True False 4 (Some 60), entry ''US-0002'' True False 5 (Some 70)]"

definition old_db :: award_db where
  "old_db = \<lparr>ad_progress = [(1, AwardPOTAActivator, ''US-0009'') \<mapsto> snd (entry [] True False 1 None),
                            (2, AwardPOTAActivator, ''US-0009'') \<mapsto> snd (entry [] True False 1 None)], ad_notes = []\<rparr>"


text \<open>
  Worked All States: after a successful refresh the row of a state holds the sum of the QSO counts of all query
  rows whose free-text state value normalises to that state, a state has a row exactly when such a query row exists, every
  row belongs to one of the 50 states, and the number of states counted for the milestones is the number of
  rows, hence at most 50.
\<close>

theorem was_progress_sums:
  assumes "q_States q = Some rows" "refreshAwardType env q now u AwardWAS db = (db', None)"
  shows "map_option pr_qso_count (ad_progress db' (u, AwardWAS, c)) =
           (if \<exists>row \<in> set rows. in_state c row then Some (sum_list (map aw_count (filter (in_state c) rows))) else None) \<and>
         (ad_progress db' (u, AwardWAS, c) \<noteq> None \<longrightarrow> c \<in> set usStateCodes) \<and>
         (\<exists>n \<le> 50. n = card {c. ad_progress db' (u, AwardWAS, c) \<noteq> None} \<and>
            ad_notes db' = checkMilestones env now u AwardWAS (int n) (ad_notes db))"
proof -
  let ?m = "states_loop [] rows"
  let ?es = "map (\<lambda>(code, a). entry code True False (ag_count a) (ag_first a)) ?m"
  have d: "distinct (map fst ?m)" by (rule states_loop_distinct) simp
  have es: "award_entries q AwardWAS = Inr (Some ?es)" using assms(1) by (simp add: was_entries refreshWAS_def)
  note r = refreshAwardType_done [OF assms(2) es, unfolded was_keys, OF d]
  have keys: "set (map fst ?m) = {c. \<exists>row \<in> set rows. in_state c row}" using states_loop_keys [of "[]" rows] by simp
  have dom: "map_of ?m c \<noteq> None \<longleftrightarrow> (\<exists>row \<in> set rows. in_state c row)" for c
    using keys by (auto simp: map_of_eq_None_iff)
  have es_dom: "map_of ?es c \<noteq> None \<longleftrightarrow> (\<exists>row \<in> set rows. in_state c row)" for c
    using map_of_was [of ?m c] dom [of c] by (cases "map_of ?es c"; cases "map_of ?m c") auto
  have cnt: "map_option ag_count (map_of ?m c) =
      (if \<exists>row \<in> set rows. in_state c row then Some (sum_list (map aw_count (filter (in_state c) rows))) else None)" for c
    using states_loop_count [of "[]" rows c] dom [of c] by (auto simp: count_of_def split: option.splits)
  have "{c. ad_progress db' (u, AwardWAS, c) \<noteq> None} = set (map fst ?m)"
    using es_dom keys by (simp add: r(1))
  then have card: "card {c. ad_progress db' (u, AwardWAS, c) \<noteq> None} = length ?m"
    using distinct_card [OF d] by simp
  show ?thesis
    unfolding card using es_dom [of c] in_state_code [of c] states_loop_length [of rows]
    by (auto simp: r map_of_was cnt)
qed

theorem was_progress_sums_witness:
  "map_option pr_qso_count (ad_progress (fst (refreshAwardType all_ok sample_queries 1000 1 AwardWAS old_db)) (1, AwardWAS, ''TX'')) = Some 5"
proof -
  let ?r = "refreshAwardType all_ok sample_queries 1000 1 AwardWAS old_db"
  let ?rows = "[state_row ''tx'' 3 50, state_row ''Texas'' 2 40, state_row ''Bavaria'' 7 30]"
  have q: "q_States sample_queries = Some ?rows" by (simp add: sample_queries_def)
  have rows: "NormalizeUSState ''tx'' = (''TX'', True)" "NormalizeUSState ''Texas'' = (''TX'', True)"
      "NormalizeUSState ''Bavaria'' = ([], False)"
    by code_simp+
  have "award_entries sample_queries AwardWAS = Inr (refreshWAS sample_queries)" by (rule was_entries)
  then have "snd ?r = None" by (auto simp: refreshWAS_def q intro!: refresh_all_ok)
  then have "?r = (fst ?r, None)" by (metis prod.collapse)
  from was_progress_sums [OF q this, of "''TX''"] show ?thesis
    by (simp add: in_state_def rows state_row_def)
qed

text \<open>
  Milestones: when all statements succeed, every milestone of the award type up to the number worked has been announced to the user
  within the last 365 days, every announcement that was added is for a reached milestone of this user and award and dated now, and
  no old one is lost; checking again within 365 days, before any
  earlier announcement is that old, and with the same or a smaller count, announces nothing.
\<close>

theorem milestones_announced_once:
  assumes "\<And>m. en_count_ok env at m" "\<And>m. en_note_ok env at m"
    and "later - Days365 < now" "worked' \<le> worked" "\<forall>n \<in> set ns. later - Days365 < nt_created_at n"
  shows "let out = checkMilestones env now u at worked ns in
         (\<forall>m \<in> set (MilestonesFor at). ms_Count m \<le> worked \<longrightarrow> 0 < already_sent now u at (ms_Count m) out) \<and>
         set ns \<subseteq> set out \<and>
         (\<forall>n \<in> set out - set ns. nt_created_at n = now \<and> nt_user n = u \<and> nt_award n = at \<and>
            (\<exists>m \<in> set (MilestonesFor at). nt_milestone n = ms_Count m \<and> ms_Count m \<le> worked)) \<and>
         checkMilestones env' later u at worked' out = out"
  unfolding Let_def checkMilestones_def
proof (intro conjI)
  let ?out = "milestones_loop env now u at worked (MilestonesFor at) ns"
  show "\<forall>m \<in> set (MilestonesFor at). ms_Count m \<le> worked \<longrightarrow> 0 < already_sent now u at (ms_Count m) ?out"
    using milestones_loop_sends [OF assms(1,2)] by (simp add: sent_def)
  show "set ns \<subseteq> set ?out" by (rule milestones_loop_mono)
  show "\<forall>n \<in> set ?out - set ns. nt_created_at n = now \<and> nt_user n = u \<and> nt_award n = at \<and>
      (\<exists>m \<in> set (MilestonesFor at). nt_milestone n = ms_Count m \<and> ms_Count m \<le> worked)"
    using milestones_loop_new [of env now u at worked "MilestonesFor at" ns] by blast
  show "milestones_loop env' later u at worked' (MilestonesFor at) ?out = ?out"
    using assms by (intro milestones_loop_idem) auto
qed

theorem milestones_announced_once_witness:
  "let out = checkMilestones all_ok 0 1 AwardWAS 30 [] in
   0 < already_sent 0 1 AwardWAS 25 out \<and> checkMilestones all_ok 5 1 AwardWAS 30 out = out"
proof -
  have "Milestone 25 (dash ''WAS'' ''25 states'') \<in> set (MilestonesFor AwardWAS)"
    by (simp add: MilestonesFor_def award_defs)
  then show ?thesis
    using milestones_announced_once [of all_ok AwardWAS 5 0 30 30 "[]" 1 all_ok]
    by (force simp: Let_def all_ok_def Days365_def)
qed

end
