(* ===== verification/Confirmation.thy ===== *)
theory Confirmation
  imports Complex_Main Go_Prelude
begin

text \<open>
  \<open>api/internal/services/confirmation/matcher.go\<close> and the SQL function \<open>find_qso_matches\<close> of
  \<open>database/migrations/001_initial_schema.sql\<close>: the search for the other side of a contact
  in the logs of all users, and the verification levels of operators.

  Tables are lists of rows.  Times are microseconds, the resolution of the database, durations are nanoseconds as in
  Go.  The confidence of a match is a rational number: the code only compares it.  Rows that the database may return in any
  order come in the order of the table.
\<close>

section \<open>Tables\<close>

record qso_row =
  qs_id :: int
  qs_logbook_id :: int
  qs_callsign :: string
  qs_station_callsign :: "string option"
  qs_band :: string
  qs_mode :: string
  qs_datetime_on :: int
  qs_deleted_at :: "int option"

record user_callsign =
  uc_user_id :: int
  uc_callsign :: string
  uc_is_primary :: bool
  uc_valid_to :: "int option"

record verification =
  vf_user_id :: int
  vf_callsign :: string
  vf_method :: string
  vf_status :: string
  vf_expires_at :: "int option"

record world =
  w_qsos :: "qso_row list"
  w_logbooks :: "(int \<times> int) list"
  w_user_callsigns :: "user_callsign list"
  w_verifications :: "verification list"

abbreviation owner :: "world \<Rightarrow> qso_row \<Rightarrow> int option" where
  "owner w q \<equiv> map_of (w_logbooks w) (qs_logbook_id q)"


section \<open>Matching\<close>

definition DefaultTimeWindow :: int where "DefaultTimeWindow = 30 * 60 * 1000000000"

record MatchCandidate =
  mc_QSOID :: int
  mc_UserID :: int
  mc_TheirCallsign :: string
  mc_OurCallsign :: string
  mc_Band :: string
  mc_Mode :: string
  mc_DatetimeOn :: int
  mc_Confidence :: rat

record MatchRequest =
  mr_QSOID :: int
  mr_UserID :: int
  mr_OurCallsign :: string
  mr_TheirCallsign :: string
  mr_Band :: string
  mr_Mode :: string
  mr_DatetimeOn :: int
  mr_TimeWindow :: int

definition NormalizeModeGroup :: "string \<Rightarrow> string" where
  "NormalizeModeGroup mode =
     (let m = ToUpper (TrimSpace mode) in
      if m \<in> {''USB'', ''LSB'', ''AM'', ''SSB''} then ''SSB''
      else if m \<in> {''CW'', ''CWR''} then ''CW''
      else if m \<in> {''RTTY'', ''BAUDOT''} then ''RTTY''
      else m)"

text \<open>The condition on the mode and the whole \<open>WHERE\<close> clause of \<open>find_qso_matches\<close>.\<close>

definition mode_matches :: "string \<Rightarrow> string \<Rightarrow> bool" where
  "mode_matches grp mode \<longleftrightarrow>
     ToUpper mode = ToUpper grp
     \<or> grp = ''SSB'' \<and> ToUpper mode \<in> {''USB'', ''LSB'', ''AM'', ''SSB''}
     \<or> grp = ''CW'' \<and> ToUpper mode \<in> {''CW'', ''CWR''}
     \<or> grp = ''RTTY'' \<and> ToUpper mode \<in> {''RTTY'', ''BAUDOT''}"

definition match_where ::
  "string \<Rightarrow> string \<Rightarrow> string \<Rightarrow> string \<Rightarrow> int \<Rightarrow> int \<Rightarrow> int \<Rightarrow> qso_row \<Rightarrow> int \<Rightarrow> bool" where
  "match_where our their band grp t window excl q user \<longleftrightarrow>
     ToUpper (qs_callsign q) = ToUpper our
     \<and> (case qs_station_callsign q of Some s \<Rightarrow> ToUpper s = ToUpper their | None \<Rightarrow> True)
     \<and> ToLower (qs_band q) = ToLower band
     \<and> mode_matches grp (qs_mode q)
     \<and> t - window \<le> qs_datetime_on q \<and> qs_datetime_on q \<le> t + window
     \<and> qs_deleted_at q = None
     \<and> user \<noteq> excl"

definition to_candidate :: "string \<Rightarrow> qso_row \<Rightarrow> int \<Rightarrow> MatchCandidate" where
  "to_candidate grp q user =
     \<lparr>mc_QSOID = qs_id q, mc_UserID = user, mc_TheirCallsign = qs_callsign q,
      mc_OurCallsign = (case qs_station_callsign q of Some s \<Rightarrow> s | None \<Rightarrow> []),
      mc_Band = qs_band q, mc_Mode = qs_mode q, mc_DatetimeOn = qs_datetime_on q,
      mc_Confidence = (if ToUpper (qs_mode q) = ToUpper grp then 1 else 9 / 10)\<rparr>"

definition find_qso_matches ::
  "world \<Rightarrow> string \<Rightarrow> string \<Rightarrow> string \<Rightarrow> string \<Rightarrow> int \<Rightarrow> int \<Rightarrow> int \<Rightarrow> MatchCandidate list" where
  "find_qso_matches w our their band grp t window excl =
     sort_key (\<lambda>c. \<bar>mc_DatetimeOn c - t\<bar>)
       (sort_key (\<lambda>c. - mc_Confidence c)
         (concat (map (\<lambda>q. case owner w q of
                             None \<Rightarrow> []
                           | Some user \<Rightarrow>
                               if match_where our their band grp t window excl q user
                               then [to_candidate grp q user] else [])
                      (w_qsos w))))"

definition FindMatches :: "world \<Rightarrow> MatchRequest \<Rightarrow> MatchCandidate list" where
  "FindMatches w req =
     (let window = (if mr_TimeWindow req \<le> 0 then DefaultTimeWindow else mr_TimeWindow req);
          modeGroup = NormalizeModeGroup (mr_Mode req) in
      find_qso_matches w (mr_OurCallsign req) (mr_TheirCallsign req) (mr_Band req) modeGroup (mr_DatetimeOn req)
        (window div 1000000000 * 1000000) (mr_UserID req))"

fun best_loop :: "MatchCandidate \<Rightarrow> MatchCandidate list \<Rightarrow> MatchCandidate" where
  "best_loop best [] = best"
| "best_loop best (c # cs) = best_loop (if mc_Confidence best < mc_Confidence c then c else best) cs"

definition BestMatch :: "MatchCandidate list \<Rightarrow> MatchCandidate option" where
  "BestMatch candidates = (case candidates of [] \<Rightarrow> None | c # cs \<Rightarrow> Some (best_loop c cs))"


section \<open>Verification levels\<close>

definition levelToMethod :: "string \<Rightarrow> string" where
  "levelToMethod level =
     (if level = ''cross_verified'' then ''lotw_cross''
      else if level = ''email'' then ''email''
      else if level = ''address'' then ''address''
      else if level = ''vouched'' then ''vouch''
      else level)"

definition verified_by :: "world \<Rightarrow> int \<Rightarrow> int \<Rightarrow> string \<Rightarrow> string list \<Rightarrow> bool" where
  "verified_by w now user callsign ms \<longleftrightarrow>
     list_ex (\<lambda>v. vf_user_id v = user \<and> ToUpper (vf_callsign v) = ToUpper callsign \<and> vf_method v \<in> set ms \<and>
                  vf_status v = ''verified'' \<and> (case vf_expires_at v of None \<Rightarrow> True | Some e \<Rightarrow> now < e))
       (w_verifications w)"

definition verification_levels :: "string list" where
  "verification_levels = [''cross_verified'', ''vouched'', ''address'', ''email'']"

text \<open>The result and whether an error is returned with it; \<open>ok level\<close> says that the query for that level succeeds.\<close>

fun level_loop :: "(string \<Rightarrow> bool) \<Rightarrow> world \<Rightarrow> int \<Rightarrow> int \<Rightarrow> string \<Rightarrow> string list \<Rightarrow> string \<times> bool" where
  "level_loop ok w now user callsign [] = (''none'', False)"
| "level_loop ok w now user callsign (level # levels) =
     (if \<not> ok level then (''none'', True)
      else if verified_by w now user callsign [levelToMethod level] then (level, False)
      else level_loop ok w now user callsign levels)"

definition OperatorVerificationLevel :: "(string \<Rightarrow> bool) \<Rightarrow> world \<Rightarrow> int \<Rightarrow> int \<Rightarrow> string \<Rightarrow> string \<times> bool" where
  "OperatorVerificationLevel ok w now user callsign = level_loop ok w now user callsign verification_levels"

definition HasCrossVerification :: "world \<Rightarrow> int \<Rightarrow> int \<Rightarrow> string \<Rightarrow> bool" where
  "HasCrossVerification w now user callsign = verified_by w now user callsign [''lotw_cross'', ''qrz_cross'']"

definition DetermineConfirmationStatus :: "string \<Rightarrow> string \<Rightarrow> bool \<Rightarrow> string" where
  "DetermineConfirmationStatus ourVerification theirVerification matched =
     (if \<not> matched then ''unconfirmed''
      else if ourVerification \<noteq> ''none'' \<and> theirVerification \<noteq> ''none'' then ''confirmed''
      else ''matched'')"


section \<open>Lemmas\<close>

lemma set_find_qso_matches:
  "c \<in> set (find_qso_matches w our their band grp t window excl) \<longleftrightarrow>
   (\<exists>q user. q \<in> set (w_qsos w) \<and> owner w q = Some user \<and> match_where our their band grp t window excl q user \<and>
             c = to_candidate grp q user)"
  by (force simp: find_qso_matches_def split: option.splits)

lemma NormalizeModeGroup_idem: "NormalizeModeGroup (NormalizeModeGroup m) = NormalizeModeGroup m"
proof -
  have t: "ToUpper (TrimSpace (ToUpper (TrimSpace m))) = ToUpper (TrimSpace m)" by (simp add: TrimSpace_ToUpper)
  have "NormalizeModeGroup ''SSB'' = ''SSB''" "NormalizeModeGroup ''CW'' = ''CW''" "NormalizeModeGroup ''RTTY'' = ''RTTY''"
    by code_simp+
  then show ?thesis by (auto simp: NormalizeModeGroup_def [of m] Let_def) (auto simp: NormalizeModeGroup_def t)
qed

lemma NormalizeModeGroup_upper [simp]: "ToUpper (NormalizeModeGroup m) = NormalizeModeGroup m"
proof -
  have "ToUpper ''SSB'' = ''SSB''" "ToUpper ''CW'' = ''CW''" "ToUpper ''RTTY'' = ''RTTY''" by code_simp+
  then show ?thesis by (simp add: NormalizeModeGroup_def Let_def)
qed

text \<open>For a mode without surrounding blanks the SQL condition is equality of the mode groups.\<close>

lemma mode_matches_group:
  assumes "TrimSpace mode = mode"
  shows "mode_matches (NormalizeModeGroup m) mode \<longleftrightarrow> NormalizeModeGroup mode = NormalizeModeGroup m"
proof
  have mode: "NormalizeModeGroup mode = NormalizeModeGroup (ToUpper mode)"
    by (simp add: NormalizeModeGroup_def TrimSpace_ToUpper)
  {
    assume "mode_matches (NormalizeModeGroup m) mode"
    then consider "ToUpper mode = NormalizeModeGroup m"
      | "NormalizeModeGroup m = ''SSB''" "ToUpper mode \<in> {''USB'', ''LSB'', ''AM'', ''SSB''}"
      | "NormalizeModeGroup m = ''CW''" "ToUpper mode \<in> {''CW'', ''CWR''}"
      | "NormalizeModeGroup m = ''RTTY''" "ToUpper mode \<in> {''RTTY'', ''BAUDOT''}"
      unfolding mode_matches_def NormalizeModeGroup_upper by blast
    then show "NormalizeModeGroup mode = NormalizeModeGroup m"
    proof cases
      case 1 then show ?thesis by (simp add: mode NormalizeModeGroup_idem)
    qed (auto simp: NormalizeModeGroup_def [of mode] assms Let_def)
  }
  assume "NormalizeModeGroup mode = NormalizeModeGroup m"
  moreover have "mode_matches (NormalizeModeGroup mode) mode"
    unfolding mode_matches_def NormalizeModeGroup_upper by (simp add: NormalizeModeGroup_def Let_def assms)
  ultimately show "mode_matches (NormalizeModeGroup m) mode" by simp
qed

lemma best_loop_max:
  "best_loop b cs \<in> set (b # cs) \<and> (\<forall>c \<in> set (b # cs). mc_Confidence c \<le> mc_Confidence (best_loop b cs))"
  by (induction b cs rule: best_loop.induct) (auto intro: order_trans)

text \<open>The loop keeps the first of the best candidates.\<close>

lemma best_loop_first:
  "\<exists>pre post. b # cs = pre @ best_loop b cs # post \<and> (\<forall>c \<in> set pre. mc_Confidence c < mc_Confidence (best_loop b cs))"
proof (induction b cs rule: best_loop.induct)
  case (2 best c cs)
  let ?b = "if mc_Confidence best < mc_Confidence c then c else best"
  obtain pre post where p: "?b # cs = pre @ best_loop ?b cs # post"
      "\<forall>d \<in> set pre. mc_Confidence d < mc_Confidence (best_loop ?b cs)"
    using 2 by blast
  have ge: "mc_Confidence ?b \<le> mc_Confidence (best_loop ?b cs)" using best_loop_max by simp
  have B: "best_loop best (c # cs) = best_loop ?b cs" by simp
  show ?case
  proof (cases "mc_Confidence best < mc_Confidence c")
    case True
    with p ge have "best # c # cs = (best # pre) @ best_loop ?b cs # post \<and>
        (\<forall>d \<in> set (best # pre). mc_Confidence d < mc_Confidence (best_loop ?b cs))"
      by auto
    then show ?thesis unfolding B by blast
  next
    case False
    show ?thesis
    proof (cases pre)
      case Nil
      with p False have "best_loop ?b cs = best" by auto
      then have "best # c # cs = [] @ best_loop ?b cs # c # cs" by simp
      then show ?thesis unfolding B by force
    next
      case (Cons d pre')
      with p False have "best # c # cs = (best # c # pre') @ best_loop ?b cs # post \<and>
          (\<forall>d \<in> set (best # c # pre'). mc_Confidence d < mc_Confidence (best_loop ?b cs))"
        by auto
      then show ?thesis unfolding B by blast
    qed
  qed
qed (intro exI [of _ "[]"], simp)

lemma BestMatch_first:
  assumes "BestMatch cs = Some b"
  obtains pre post where "cs = pre @ b # post" "\<forall>c \<in> set pre. mc_Confidence c < mc_Confidence b"
    "\<forall>c \<in> set cs. mc_Confidence c \<le> mc_Confidence b"
proof (cases cs)
  case (Cons d ds)
  then have b: "b = best_loop d ds" using assms by (simp add: BestMatch_def)
  obtain pre post where "cs = pre @ b # post" "\<forall>c \<in> set pre. mc_Confidence c < mc_Confidence b"
    using best_loop_first [of d ds] Cons b by auto
  with best_loop_max [of d ds] Cons b show thesis by (intro that [of pre post]) simp_all
qed (use assms in \<open>simp add: BestMatch_def\<close>)

lemma BestMatch_None: "BestMatch cs = None \<longleftrightarrow> cs = []"
  by (simp add: BestMatch_def split: list.splits)

lemma BestMatch_closest:
  assumes "BestMatch (find_qso_matches w our their band grp t window excl) = Some b"
    and "c \<in> set (find_qso_matches w our their band grp t window excl)"
  shows "mc_Confidence c < mc_Confidence b \<or>
         mc_Confidence c = mc_Confidence b \<and> \<bar>mc_DatetimeOn b - t\<bar> \<le> \<bar>mc_DatetimeOn c - t\<bar>"
proof -
  let ?cs = "find_qso_matches w our their band grp t window excl"
  obtain pre post where p: "?cs = pre @ b # post" "\<forall>c \<in> set pre. mc_Confidence c < mc_Confidence b"
      "\<forall>c \<in> set ?cs. mc_Confidence c \<le> mc_Confidence b"
    using BestMatch_first [OF assms(1)] by blast
  have "sorted (map (\<lambda>c. \<bar>mc_DatetimeOn c - t\<bar>) ?cs)" by (simp add: find_qso_matches_def)
  then have "\<forall>c \<in> set post. \<bar>mc_DatetimeOn b - t\<bar> \<le> \<bar>mc_DatetimeOn c - t\<bar>" unfolding p(1) by (simp add: sorted_append)
  with p assms(2) show ?thesis by fastforce
qed

end
