(* ===== verification/Confirmation_Store.thy ===== *)
theory Confirmation_Store
  imports Confirmation
begin

text \<open>
  The table \<open>qso_confirmations\<close> and everything that writes to it:
  \<open>upsertConfirmation\<close>, \<open>QSOMatchWorker\<close> and \<open>CascadeConfirmationWorker\<close> of
  \<open>api/internal/services/confirmation/match_worker.go\<close>, the handlers \<open>Confirm\<close> and \<open>Reject\<close> of
  \<open>api/internal/handler/confirmations.go\<close>, and the statements that the LoTW and eQSL pull workers of
  \<open>api/internal/services/sync\<close> apply to it.

  The table is a list of rows; its columns \<open>qso_date\<close> and \<open>qso_time\<close> are one time stamp.  The serial
  \<open>id\<close> is drawn for every insert, also for one that ends in the update of an existing row.
\<close>

section \<open>The table\<close>

record conf_row =
  cf_id :: int
  cf_qso_id :: int
  cf_matched_qso_id :: "int option"
  cf_our_callsign :: string
  cf_their_callsign :: string
  cf_band :: string
  cf_mode :: string
  cf_qso_time :: int
  cf_status :: string
  cf_our_verification :: string
  cf_their_verification :: string
  cf_lotw_confirmed :: bool
  cf_lotw_confirmed_at :: "int option"
  cf_eqsl_confirmed :: bool
  cf_eqsl_confirmed_at :: "int option"
  cf_eqsl_ag :: bool
  cf_rl_confirmed :: bool
  cf_rl_confirmed_at :: "int option"
  cf_confirmed_at :: "int option"
  cf_created_at :: int
  cf_updated_at :: int

record conf_db =
  cd_rows :: "conf_row list"
  cd_next_id :: int

definition coalesce :: "'a option \<Rightarrow> 'a option \<Rightarrow> 'a option" where
  "coalesce a b = (case a of Some _ \<Rightarrow> a | None \<Rightarrow> b)"

text \<open>\<open>INSERT ... ON CONFLICT (qso_id) DO UPDATE\<close> and \<open>UPDATE ... WHERE\<close> with the number of rows.\<close>

definition insert_or_update :: "int \<Rightarrow> (int \<Rightarrow> conf_row) \<Rightarrow> (conf_row \<Rightarrow> conf_row) \<Rightarrow> conf_db \<Rightarrow> conf_db" where
  "insert_or_update qso new upd db =
     (let db1 = db\<lparr>cd_next_id := cd_next_id db + 1\<rparr> in
      if list_ex (\<lambda>r. cf_qso_id r = qso) (cd_rows db)
      then db1\<lparr>cd_rows := map (\<lambda>r. if cf_qso_id r = qso then upd r else r) (cd_rows db)\<rparr>
      else db1\<lparr>cd_rows := cd_rows db @ [new (cd_next_id db)]\<rparr>)"

definition update_where :: "(conf_row \<Rightarrow> bool) \<Rightarrow> (conf_row \<Rightarrow> conf_row) \<Rightarrow> conf_db \<Rightarrow> conf_db \<times> nat" where
  "update_where P upd db =
     (db\<lparr>cd_rows := map (\<lambda>r. if P r then upd r else r) (cd_rows db)\<rparr>, length (filter P (cd_rows db)))"

definition fresh_row ::
  "int \<Rightarrow> int \<Rightarrow> int option \<Rightarrow> string \<Rightarrow> string \<Rightarrow> string \<Rightarrow> string \<Rightarrow> int \<Rightarrow> string \<Rightarrow> string \<Rightarrow> string \<Rightarrow> int \<Rightarrow> conf_row" where
  "fresh_row i qso matched our their band mode t status ourv theirv now =
     \<lparr>cf_id = i, cf_qso_id = qso, cf_matched_qso_id = matched, cf_our_callsign = ToUpper our,
      cf_their_callsign = ToUpper their, cf_band = band, cf_mode = mode, cf_qso_time = t, cf_status = status,
      cf_our_verification = ourv, cf_their_verification = theirv, cf_lotw_confirmed = False, cf_lotw_confirmed_at = None,
      cf_eqsl_confirmed = False, cf_eqsl_confirmed_at = None, cf_eqsl_ag = False, cf_rl_confirmed = False,
      cf_rl_confirmed_at = None, cf_confirmed_at = None, cf_created_at = now, cf_updated_at = now\<rparr>"


section \<open>The match worker\<close>

record upsertConfirmationParams =
  up_QSOID :: int
  up_MatchedQSOID :: "int option"
  up_OurCallsign :: string
  up_TheirCallsign :: string
  up_Band :: string
  up_Mode :: string
  up_QSODate :: int
  up_Status :: string
  up_OurVerification :: string
  up_TheirVerification :: string

definition upsert_row :: "int \<Rightarrow> upsertConfirmationParams \<Rightarrow> int \<Rightarrow> conf_row" where
  "upsert_row now p i =
     (fresh_row i (up_QSOID p) (up_MatchedQSOID p) (up_OurCallsign p) (up_TheirCallsign p) (up_Band p)
        (NormalizeModeGroup (up_Mode p)) (up_QSODate p) (up_Status p) (up_OurVerification p) (up_TheirVerification p) now)
     \<lparr>cf_confirmed_at := (if up_Status p = ''confirmed'' then Some now else None)\<rparr>"

definition upsert_merge :: "int \<Rightarrow> upsertConfirmationParams \<Rightarrow> conf_row \<Rightarrow> conf_row" where
  "upsert_merge now p r =
     r\<lparr>cf_matched_qso_id := up_MatchedQSOID p,
       cf_status := (if cf_status r = ''confirmed'' then ''confirmed''
                     else if up_Status p = ''confirmed'' then ''confirmed'' else up_Status p),
       cf_our_verification := up_OurVerification p, cf_their_verification := up_TheirVerification p,
       cf_confirmed_at := coalesce (cf_confirmed_at r) (if up_Status p = ''confirmed'' then Some now else None),
       cf_updated_at := now\<rparr>"

definition upsertConfirmation :: "int \<Rightarrow> upsertConfirmationParams \<Rightarrow> conf_db \<Rightarrow> conf_db" where
  "upsertConfirmation now p db = insert_or_update (up_QSOID p) (upsert_row now p) (upsert_merge now p) db"

record qsoForConfirmation =
  qc_ID :: int
  qc_StationCallsign :: string
  qc_Callsign :: string
  qc_Band :: string
  qc_Mode :: string
  qc_DatetimeOn :: int

definition primary_callsign :: "world \<Rightarrow> int \<Rightarrow> string option" where
  "primary_callsign w user =
     map_option uc_callsign
       (find (\<lambda>u. uc_user_id u = user \<and> uc_is_primary u \<and> uc_valid_to u = None) (w_user_callsigns w))"

definition live_qso :: "world \<Rightarrow> int \<Rightarrow> qso_row option" where
  "live_qso w qsoID = find (\<lambda>q. qs_id q = qsoID \<and> qs_deleted_at q = None \<and> owner w q \<noteq> None) (w_qsos w)"

text \<open>\<^term>\<open>Inl ()\<close> is the error of a query without a row.\<close>

definition loadQSOForConfirmation :: "world \<Rightarrow> int \<Rightarrow> unit + qsoForConfirmation option" where
  "loadQSOForConfirmation w qsoID =
     (case live_qso w qsoID of
        None \<Rightarrow> Inl ()
      | Some q \<Rightarrow>
          let station = the (coalesce (coalesce (qs_station_callsign q) (primary_callsign w (the (owner w q)))) (Some [])) in
          if station = [] then Inr None
          else Inr (Some \<lparr>qc_ID = qs_id q, qc_StationCallsign = station, qc_Callsign = qs_callsign q, qc_Band = qs_band q,
                          qc_Mode = qs_mode q, qc_DatetimeOn = qs_datetime_on q\<rparr>))"

record match_env =
  me_load_ok :: bool
  me_find_ok :: bool
  me_our_level_ok :: "string \<Rightarrow> bool"
  me_their_level_ok :: "string \<Rightarrow> bool"
  me_upsert_ok :: bool
  me_upsert_their_ok :: bool

datatype match_error = LoadQSO | FindMatchesFailed | UpsertOurs

definition match_request :: "int \<Rightarrow> int \<Rightarrow> qsoForConfirmation \<Rightarrow> MatchRequest" where
  "match_request qsoID userID qso =
     \<lparr>mr_QSOID = qsoID, mr_UserID = userID, mr_OurCallsign = qc_StationCallsign qso, mr_TheirCallsign = qc_Callsign qso,
      mr_Band = qc_Band qso, mr_Mode = qc_Mode qso, mr_DatetimeOn = qc_DatetimeOn qso, mr_TimeWindow = 0\<rparr>"

definition our_params :: "int \<Rightarrow> qsoForConfirmation \<Rightarrow> int option \<Rightarrow> string \<Rightarrow> string \<Rightarrow> string \<Rightarrow> upsertConfirmationParams" where
  "our_params qsoID qso matched status ourv theirv =
     \<lparr>up_QSOID = qsoID, up_MatchedQSOID = matched, up_OurCallsign = qc_StationCallsign qso,
      up_TheirCallsign = qc_Callsign qso, up_Band = qc_Band qso, up_Mode = qc_Mode qso, up_QSODate = qc_DatetimeOn qso,
      up_Status = status, up_OurVerification = ourv, up_TheirVerification = theirv\<rparr>"

definition their_params :: "int \<Rightarrow> qsoForConfirmation \<Rightarrow> MatchCandidate \<Rightarrow> string \<Rightarrow> string \<Rightarrow> string \<Rightarrow> upsertConfirmationParams" where
  "their_params qsoID qso best status ourv theirv =
     \<lparr>up_QSOID = mc_QSOID best, up_MatchedQSOID = Some qsoID, up_OurCallsign = qc_Callsign qso,
      up_TheirCallsign = qc_StationCallsign qso, up_Band = qc_Band qso, up_Mode = qc_Mode qso,
      up_QSODate = mc_DatetimeOn best, up_Status = status, up_OurVerification = theirv, up_TheirVerification = ourv\<rparr>"

definition QSOMatchWorker_Work ::
  "match_env \<Rightarrow> int \<Rightarrow> world \<Rightarrow> int \<Rightarrow> int \<Rightarrow> conf_db \<Rightarrow> conf_db \<times> match_error option" where
  "QSOMatchWorker_Work env now w qsoID userID db =
     (if \<not> me_load_ok env then (db, Some LoadQSO)
      else case loadQSOForConfirmation w qsoID of
        Inl _ \<Rightarrow> (db, Some LoadQSO)
      | Inr None \<Rightarrow> (db, None)
      | Inr (Some qso) \<Rightarrow>
          if \<not> me_find_ok env then (db, Some FindMatchesFailed)
          else
            let best = BestMatch (FindMatches w (match_request qsoID userID qso));
                ourv = fst (OperatorVerificationLevel (me_our_level_ok env) w now userID (qc_StationCallsign qso)) in
            (case best of
               None \<Rightarrow>
                 if me_upsert_ok env
                 then (upsertConfirmation now (our_params qsoID qso None ''unconfirmed'' ourv ''none'') db, None)
                 else (db, Some UpsertOurs)
             | Some b \<Rightarrow>
                 let theirv = fst (OperatorVerificationLevel (me_their_level_ok env) w now (mc_UserID b) (qc_Callsign qso));
                     status = DetermineConfirmationStatus ourv theirv True in
                 if \<not> me_upsert_ok env then (db, Some UpsertOurs)
                 else
                   let db1 = upsertConfirmation now (our_params qsoID qso (Some (mc_QSOID b)) status ourv theirv) db;
                       theirStatus = DetermineConfirmationStatus theirv ourv True in
                   if me_upsert_their_ok env
                   then (upsertConfirmation now (their_params qsoID qso b theirStatus ourv theirv) db1, None)
                   else (db1, None)))"


section \<open>The cascade worker\<close>

definition cascade_refs :: "world \<Rightarrow> string \<Rightarrow> (int \<times> int) list" where
  "cascade_refs w callsign =
     take 5000
       (concat (map (\<lambda>q. case owner w q of None \<Rightarrow> [] | Some u \<Rightarrow> [(qs_id q, u)])
         (sort_key (\<lambda>q. - qs_datetime_on q)
           (filter (\<lambda>q. (case qs_station_callsign q of Some s \<Rightarrow> ToUpper s = ToUpper callsign | None \<Rightarrow> False)
                        \<or> ToUpper (qs_callsign q) = ToUpper callsign)
             (filter (\<lambda>q. qs_deleted_at q = None) (w_qsos w))))))"

fun cascade_inline :: "(int \<Rightarrow> match_env) \<Rightarrow> int \<Rightarrow> world \<Rightarrow> (int \<times> int) list \<Rightarrow> conf_db \<Rightarrow> conf_db" where
  "cascade_inline envs now w [] db = db"
| "cascade_inline envs now w ((qsoID, userID) # refs) db =
     cascade_inline envs now w refs (fst (QSOMatchWorker_Work (envs qsoID) now w qsoID userID db))"

text \<open>
  The database, the queue of match jobs and whether the job fails.  \<open>client\<close> is \<^const>\<open>None\<close> for a nil River client,
  otherwise it says which inserts succeed.
\<close>

definition CascadeConfirmationWorker_Work ::
  "bool \<Rightarrow> (int \<Rightarrow> bool) option \<Rightarrow> (int \<Rightarrow> match_env) \<Rightarrow> int \<Rightarrow> world \<Rightarrow> string \<Rightarrow> conf_db \<Rightarrow> (int \<times> int) list \<Rightarrow>
   conf_db \<times> (int \<times> int) list \<times> bool" where
  "CascadeConfirmationWorker_Work query_ok client envs now w callsign db jobs =
     (if \<not> query_ok then (db, jobs, False)
      else case client of
        None \<Rightarrow> (cascade_inline envs now w (cascade_refs w callsign) db, jobs, True)
      | Some ok \<Rightarrow> (db, jobs @ filter (\<lambda>(qsoID, _). ok qsoID) (cascade_refs w callsign), True))"


section \<open>The handlers\<close>

datatype conf_response = Unauthorized | InvalidRequest | UpdateFailed | NotChanged | Changed int

definition parseConfirmationID :: "string \<Rightarrow> int option" where
  "parseConfirmationID idStr = (case ParseInt idStr of None \<Rightarrow> None | Some i \<Rightarrow> if i \<le> 0 then None else Some i)"

definition owns :: "world \<Rightarrow> int \<Rightarrow> conf_row \<Rightarrow> bool" where
  "owns w userID r = list_ex (\<lambda>q. qs_id q = cf_qso_id r \<and> owner w q = Some userID) (w_qsos w)"

definition confirmable :: "world \<Rightarrow> int \<Rightarrow> int \<Rightarrow> conf_row \<Rightarrow> bool" where
  "confirmable w confID userID r \<longleftrightarrow> cf_id r = confID \<and> owns w userID r \<and> cf_status r \<in> {''matched'', ''pending''}"

definition confirm_row :: "int \<Rightarrow> conf_row \<Rightarrow> conf_row" where
  "confirm_row now r =
     r\<lparr>cf_status := ''confirmed'', cf_rl_confirmed := True, cf_rl_confirmed_at := Some now,
       cf_confirmed_at := coalesce (cf_confirmed_at r) (Some now), cf_updated_at := now\<rparr>"

definition rejectable :: "world \<Rightarrow> int \<Rightarrow> int \<Rightarrow> conf_row \<Rightarrow> bool" where
  "rejectable w confID userID r \<longleftrightarrow> cf_id r = confID \<and> owns w userID r \<and> cf_status r \<notin> {''rejected'', ''confirmed''}"

definition reject_row :: "int \<Rightarrow> conf_row \<Rightarrow> conf_row" where
  "reject_row now r = r\<lparr>cf_status := ''rejected'', cf_updated_at := now\<rparr>"

definition handler_update ::
  "bool \<Rightarrow> (int \<Rightarrow> conf_row \<Rightarrow> bool) \<Rightarrow> (conf_row \<Rightarrow> conf_row) \<Rightarrow> string \<Rightarrow> conf_db \<Rightarrow> conf_db \<times> conf_response" where
  "handler_update exec_ok cond upd idStr db =
     (case parseConfirmationID idStr of
        None \<Rightarrow> (db, InvalidRequest)
      | Some confID \<Rightarrow>
          if \<not> exec_ok then (db, UpdateFailed)
          else case update_where (cond confID) upd db of
                 (db', n) \<Rightarrow> if n = 0 then (db', NotChanged) else (db', Changed confID))"

text \<open>\<open>user\<close> is the authenticated user of the request (\<open>requestUserID\<close>).\<close>

definition ConfirmationHandler_Confirm :: "bool \<Rightarrow> int \<Rightarrow> world \<Rightarrow> int option \<Rightarrow> string \<Rightarrow> conf_db \<Rightarrow> conf_db \<times> conf_response" where
  "ConfirmationHandler_Confirm exec_ok now w user idStr db =
     (case user of
        None \<Rightarrow> (db, Unauthorized)
      | Some userID \<Rightarrow> handler_update exec_ok (\<lambda>confID. confirmable w confID userID) (confirm_row now) idStr db)"

definition ConfirmationHandler_Reject :: "bool \<Rightarrow> int \<Rightarrow> world \<Rightarrow> int option \<Rightarrow> string \<Rightarrow> conf_db \<Rightarrow> conf_db \<times> conf_response" where
  "ConfirmationHandler_Reject exec_ok now w user idStr db =
     (case user of
        None \<Rightarrow> (db, Unauthorized)
      | Some userID \<Rightarrow> handler_update exec_ok (\<lambda>confID. rejectable w confID userID) (reject_row now) idStr db)"


section \<open>Confirmations from LoTW and eQSL\<close>

record pull_candidate =
  pc_QSOID :: int
  pc_OurCallsign :: string
  pc_TheirCallsign :: string
  pc_Band :: string
  pc_Mode :: string
  pc_DatetimeOn :: int

definition raise_none :: "string \<Rightarrow> string" where
  "raise_none v = (if v = ''none'' then ''cross_verified'' else v)"

definition pulled_row :: "int \<Rightarrow> pull_candidate \<Rightarrow> int \<Rightarrow> int \<Rightarrow> conf_row" where
  "pulled_row now c t i =
     (fresh_row i (pc_QSOID c) None (pc_OurCallsign c) (pc_TheirCallsign c) (pc_Band c) (NormalizeModeGroup (pc_Mode c))
        (pc_DatetimeOn c) ''confirmed'' ''cross_verified'' ''cross_verified'' now)\<lparr>cf_confirmed_at := Some t\<rparr>"

definition pulled_merge :: "int \<Rightarrow> int \<Rightarrow> conf_row \<Rightarrow> conf_row" where
  "pulled_merge now t r =
     r\<lparr>cf_status := ''confirmed'', cf_confirmed_at := coalesce (cf_confirmed_at r) (Some t),
       cf_our_verification := raise_none (cf_our_verification r),
       cf_their_verification := raise_none (cf_their_verification r), cf_updated_at := now\<rparr>"

definition lotw_row :: "int \<Rightarrow> pull_candidate \<Rightarrow> int \<Rightarrow> int \<Rightarrow> conf_row" where
  "lotw_row now c t i = (pulled_row now c t i)\<lparr>cf_lotw_confirmed := True, cf_lotw_confirmed_at := Some t\<rparr>"

definition lotw_merge :: "int \<Rightarrow> int \<Rightarrow> conf_row \<Rightarrow> conf_row" where
  "lotw_merge now t r =
     (pulled_merge now t r)\<lparr>cf_lotw_confirmed := True, cf_lotw_confirmed_at := coalesce (cf_lotw_confirmed_at r) (Some t)\<rparr>"

definition eqsl_row :: "int \<Rightarrow> pull_candidate \<Rightarrow> int \<Rightarrow> bool \<Rightarrow> int \<Rightarrow> conf_row" where
  "eqsl_row now c t ag i =
     (pulled_row now c t i)\<lparr>cf_eqsl_confirmed := True, cf_eqsl_confirmed_at := Some t, cf_eqsl_ag := ag\<rparr>"

definition eqsl_merge :: "int \<Rightarrow> int \<Rightarrow> bool \<Rightarrow> conf_row \<Rightarrow> conf_row" where
  "eqsl_merge now t ag r =
     (pulled_merge now t r)
     \<lparr>cf_eqsl_confirmed := True, cf_eqsl_confirmed_at := coalesce (cf_eqsl_confirmed_at r) (Some t),
      cf_eqsl_ag := (if ag then True else cf_eqsl_ag r)\<rparr>"

text \<open>
  The transaction of \<open>applyConfirmation\<close> updates three tables: the QSL columns of the QSO for the service, the row of
  \<open>sync_status\<close>, and the confirmation.  \<open>env\<close> says which statement succeeds; after an error everything is rolled back.
\<close>

record qsl_columns =
  ql_rcvd :: string
  ql_rcvd_date :: "int option"

record sync_row =
  sy_status :: string
  sy_last_synced_at :: "int option"
  sy_error_message :: "string option"
  sy_last_error_code :: "string option"
  sy_retry_count :: int
  sy_next_retry_at :: "int option"
  sy_updated_at :: int

record pull_db =
  pd_qsl :: "int \<times> string \<rightharpoonup> qsl_columns"
  pd_sync :: "int \<times> string \<rightharpoonup> sync_row"
  pd_conf :: conf_db

record apply_env =
  ae_begin :: bool
  ae_qso :: bool
  ae_sync :: bool
  ae_conf :: bool
  ae_commit :: bool

definition date_of :: "int \<Rightarrow> int" where
  "date_of t = t div (24 * 60 * 60 * 1000000)"

definition mark_received :: "string \<Rightarrow> int \<Rightarrow> int \<Rightarrow> (int \<times> string \<rightharpoonup> qsl_columns) \<Rightarrow> (int \<times> string \<rightharpoonup> qsl_columns)" where
  "mark_received service qso t tbl =
     (case tbl (qso, service) of
        None \<Rightarrow> tbl
      | Some q \<Rightarrow> tbl((qso, service) \<mapsto> \<lparr>ql_rcvd = ''Y'', ql_rcvd_date = coalesce (ql_rcvd_date q) (Some (date_of t))\<rparr>))"

definition mark_synced :: "int \<Rightarrow> string \<Rightarrow> int \<Rightarrow> int \<Rightarrow> (int \<times> string \<rightharpoonup> sync_row) \<Rightarrow> (int \<times> string \<rightharpoonup> sync_row)" where
  "mark_synced now service qso t tbl =
     tbl((qso, service) \<mapsto>
       \<lparr>sy_status = ''confirmed'', sy_last_synced_at = Some t, sy_error_message = None, sy_last_error_code = None,
        sy_retry_count = 0, sy_next_retry_at = None, sy_updated_at = now\<rparr>)"

definition apply_tx ::
  "apply_env \<Rightarrow> int \<Rightarrow> string \<Rightarrow> int \<Rightarrow> int \<Rightarrow> (conf_db \<Rightarrow> conf_db) \<Rightarrow> pull_db \<Rightarrow> pull_db \<times> bool" where
  "apply_tx env now service qso t upsert db =
     (if \<not> ae_begin env then (db, False)
      else if \<not> ae_qso env then (db, False)
      else if \<not> ae_sync env then (db, False)
      else if \<not> ae_conf env then (db, False)
      else if \<not> ae_commit env then (db, False)
      else (\<lparr>pd_qsl = mark_received service qso t (pd_qsl db), pd_sync = mark_synced now service qso t (pd_sync db),
             pd_conf = upsert (pd_conf db)\<rparr>, True))"

definition LoTW_applyConfirmation :: "apply_env \<Rightarrow> int \<Rightarrow> pull_candidate \<Rightarrow> int \<Rightarrow> pull_db \<Rightarrow> pull_db \<times> bool" where
  "LoTW_applyConfirmation env now c confirmedAt db =
     apply_tx env now ''lotw'' (pc_QSOID c) confirmedAt
       (insert_or_update (pc_QSOID c) (lotw_row now c confirmedAt) (lotw_merge now confirmedAt)) db"

text \<open>The dates of an inbox record: of the QSO, and the two optional receipt dates.\<close>

definition eqsl_confirmed_at :: "int \<Rightarrow> int option \<Rightarrow> int option \<Rightarrow> int" where
  "eqsl_confirmed_at datetimeOn qslRDate eqslQSLRDate =
     (case qslRDate of Some t \<Rightarrow> t | None \<Rightarrow> (case eqslQSLRDate of Some t \<Rightarrow> t | None \<Rightarrow> datetimeOn))"

definition EQSL_applyConfirmation ::
  "apply_env \<Rightarrow> int \<Rightarrow> pull_candidate \<Rightarrow> int \<Rightarrow> int option \<Rightarrow> int option \<Rightarrow> bool \<Rightarrow> pull_db \<Rightarrow> pull_db \<times> bool" where
  "EQSL_applyConfirmation env now c datetimeOn qslRDate eqslQSLRDate ag db =
     (let confirmedAt = eqsl_confirmed_at datetimeOn qslRDate eqslQSLRDate in
      apply_tx env now ''eqsl'' (pc_QSOID c) confirmedAt
        (insert_or_update (pc_QSOID c) (eqsl_row now c confirmedAt ag) (eqsl_merge now confirmedAt ag)) db)"

end
