(* ===== verification/Confirmation_Inv.thy ===== *)
theory Confirmation_Inv
  imports Confirmation_Store
begin

text \<open>
  Properties of the confirmation engine: what a match is, that matching is symmetric, and the invariant of
  \<open>qso_confirmations\<close> under all its writers in any order.

  The locale \<open>row_update\<close> is the contract of an update of one row; every writer's update is an interpretation, and the
  facts on whole tables are proved once from the contract.
\<close>

section \<open>Rows and tables\<close>

text \<open>
  A row is consistent when it has a confirmation time exactly if it is confirmed, when every source that confirmed it made it
  confirmed, and when each source has a time exactly if it confirmed.
\<close>

definition row_ok :: "conf_row \<Rightarrow> bool" where
  "row_ok r \<longleftrightarrow>
     (cf_confirmed_at r \<noteq> None \<longleftrightarrow> cf_status r = ''confirmed'') \<and>
     (cf_lotw_confirmed r \<or> cf_eqsl_confirmed r \<or> cf_rl_confirmed r \<longrightarrow> cf_status r = ''confirmed'') \<and>
     (cf_lotw_confirmed r \<longleftrightarrow> cf_lotw_confirmed_at r \<noteq> None) \<and>
     (cf_eqsl_confirmed r \<longleftrightarrow> cf_eqsl_confirmed_at r \<noteq> None) \<and>
     (cf_rl_confirmed r \<longleftrightarrow> cf_rl_confirmed_at r \<noteq> None) \<and>
     (cf_eqsl_ag r \<longrightarrow> cf_eqsl_confirmed r)"

definition db_ok :: "conf_db \<Rightarrow> bool" where
  "db_ok db \<longleftrightarrow>
     distinct (map cf_qso_id (cd_rows db)) \<and> distinct (map cf_id (cd_rows db)) \<and>
     (\<forall>r \<in> set (cd_rows db). row_ok r \<and> cf_id r < cd_next_id db)"

text \<open>What a row keeps: its identity, the contact it describes, and a confirmation with its time and its sources.\<close>

definition row_le :: "conf_row \<Rightarrow> conf_row \<Rightarrow> bool" where
  "row_le r r' \<longleftrightarrow>
     cf_id r' = cf_id r \<and> cf_qso_id r' = cf_qso_id r \<and> cf_our_callsign r' = cf_our_callsign r \<and>
     cf_their_callsign r' = cf_their_callsign r \<and> cf_band r' = cf_band r \<and> cf_mode r' = cf_mode r \<and>
     cf_qso_time r' = cf_qso_time r \<and> cf_created_at r' = cf_created_at r \<and>
     (cf_status r = ''confirmed'' \<longrightarrow> cf_status r' = ''confirmed'' \<and> cf_confirmed_at r' = cf_confirmed_at r) \<and>
     (cf_lotw_confirmed r \<longrightarrow> cf_lotw_confirmed r' \<and> cf_lotw_confirmed_at r' = cf_lotw_confirmed_at r) \<and>
     (cf_eqsl_confirmed r \<longrightarrow> cf_eqsl_confirmed r' \<and> cf_eqsl_confirmed_at r' = cf_eqsl_confirmed_at r) \<and>
     (cf_rl_confirmed r \<longrightarrow> cf_rl_confirmed r' \<and> cf_rl_confirmed_at r' = cf_rl_confirmed_at r)"

definition db_le :: "conf_db \<Rightarrow> conf_db \<Rightarrow> bool" where
  "db_le db db' \<longleftrightarrow> (\<forall>r \<in> set (cd_rows db). \<exists>r' \<in> set (cd_rows db'). row_le r r')"

lemma row_le_refl [simp]: "row_le r r"
  by (simp add: row_le_def)

lemma row_le_trans: "row_le r s \<Longrightarrow> row_le s t \<Longrightarrow> row_le r t"
  by (simp add: row_le_def)

lemma db_le_refl [simp]: "db_le db db"
  by (auto simp: db_le_def intro: row_le_refl)

lemma db_le_trans: "db_le a b \<Longrightarrow> db_le b c \<Longrightarrow> db_le a c"
  unfolding db_le_def by (meson row_le_trans)

locale row_update =
  fixes guard :: "conf_row \<Rightarrow> bool" and upd :: "conf_row \<Rightarrow> conf_row"
  assumes upd_ok: "row_ok r \<Longrightarrow> guard r \<Longrightarrow> row_ok (upd r)"
    and upd_le: "row_ok r \<Longrightarrow> guard r \<Longrightarrow> row_le r (upd r)"
begin

lemma apply_keeps:
  assumes "row_ok r"
  shows "row_ok (if guard r then upd r else r)" and "row_le r (if guard r then upd r else r)"
  using assms upd_ok upd_le by auto

lemma map_keeps:
  assumes "db_ok db" "cd_next_id db \<le> n"
  shows "db_ok \<lparr>cd_rows = map (\<lambda>r. if guard r then upd r else r) (cd_rows db), cd_next_id = n\<rparr>"
    and "db_le db \<lparr>cd_rows = map (\<lambda>r. if guard r then upd r else r) (cd_rows db), cd_next_id = n\<rparr>"
proof -
  let ?f = "\<lambda>r. if guard r then upd r else r"
  have ok: "row_ok (?f r)" "row_le r (?f r)" "cf_id r < n" if "r \<in> set (cd_rows db)" for r
    using apply_keeps [of r] that assms by (auto simp: db_ok_def)
  have keys: "map cf_id (map ?f (cd_rows db)) = map cf_id (cd_rows db)"
    "map cf_qso_id (map ?f (cd_rows db)) = map cf_qso_id (cd_rows db)"
    using ok(2) by (simp_all add: row_le_def)
  have id: "cf_id (?f r) < n" if "r \<in> set (cd_rows db)" for r using ok [OF that] by (simp add: row_le_def)
  show "db_ok \<lparr>cd_rows = map ?f (cd_rows db), cd_next_id = n\<rparr>"
    unfolding db_ok_def conf_db.select_convs keys set_map using assms(1) [unfolded db_ok_def] ok(1) id by blast
  show "db_le db \<lparr>cd_rows = map ?f (cd_rows db), cd_next_id = n\<rparr>"
    unfolding db_le_def conf_db.select_convs set_map using ok(2) by blast
qed

lemma update_where_keeps:
  assumes "db_ok db"
  shows "db_ok (fst (update_where guard upd db))" and "db_le db (fst (update_where guard upd db))"
proof -
  have e: "fst (update_where guard upd db) =
      \<lparr>cd_rows = map (\<lambda>r. if guard r then upd r else r) (cd_rows db), cd_next_id = cd_next_id db\<rparr>"
    by (simp add: update_where_def)
  show "db_ok (fst (update_where guard upd db))" and "db_le db (fst (update_where guard upd db))"
    unfolding e using map_keeps [OF assms] by blast+
qed

end

text \<open>An upsert: the update is guarded by the key, and the inserted row is consistent.\<close>

locale row_upsert = row_update "\<lambda>r. cf_qso_id r = qso" upd for qso :: int and upd +
  fixes new :: "int \<Rightarrow> conf_row"
  assumes new_ok: "row_ok (new i)" and new_key: "cf_qso_id (new i) = qso" "cf_id (new i) = i"
begin

lemma upsert_keeps:
  assumes "db_ok db"
  shows "db_ok (insert_or_update qso new upd db)" and "db_le db (insert_or_update qso new upd db)"
proof -
  let ?db = "insert_or_update qso new upd db"
  have "db_ok ?db \<and> db_le db ?db"
  proof (cases "list_ex (\<lambda>r. cf_qso_id r = qso) (cd_rows db)")
    case True
    then have "?db = \<lparr>cd_rows = map (\<lambda>r. if cf_qso_id r = qso then upd r else r) (cd_rows db), cd_next_id = cd_next_id db + 1\<rparr>"
      by (simp add: insert_or_update_def)
    then show ?thesis using map_keeps [OF assms] by simp
  next
    case False
    then have e: "?db = \<lparr>cd_rows = cd_rows db @ [new (cd_next_id db)], cd_next_id = cd_next_id db + 1\<rparr>"
      by (simp add: insert_or_update_def)
    have "db_ok ?db" unfolding e using assms False new_ok new_key by (fastforce simp: db_ok_def list_ex_iff)
    then show ?thesis unfolding e by (auto simp: db_le_def intro: row_le_refl)
  qed
  then show "db_ok ?db" and "db_le db ?db" by auto
qed

lemma upsert_has_row:
  assumes "db_ok db"
  shows "\<exists>r \<in> set (cd_rows (insert_or_update qso new upd db)).
           cf_qso_id r = qso \<and> (r = new (cd_next_id db) \<or> (\<exists>r0 \<in> set (cd_rows db). cf_qso_id r0 = qso \<and> row_ok r0 \<and> r = upd r0))"
proof (cases "list_ex (\<lambda>r. cf_qso_id r = qso) (cd_rows db)")
  case True
  then obtain r0 where r0: "r0 \<in> set (cd_rows db)" "cf_qso_id r0 = qso" by (auto simp: list_ex_iff)
  with assms have "row_ok r0" by (simp add: db_ok_def)
  with r0 upd_le [of r0] True show ?thesis by (intro bexI [of _ "upd r0"]) (auto simp: insert_or_update_def row_le_def)
qed (simp add: insert_or_update_def new_key)

end


section \<open>The writers\<close>

lemmas row_defs = row_ok_def row_le_def coalesce_def fresh_row_def

interpretation match_upsert: row_upsert "up_QSOID p" "upsert_merge now p" "upsert_row now p" for now p
  by unfold_locales (auto simp: row_defs upsert_merge_def upsert_row_def split: option.splits)

interpretation lotw_upsert: row_upsert "pc_QSOID c" "lotw_merge now t" "lotw_row now c t" for now c t
  by unfold_locales (auto simp: row_defs lotw_merge_def lotw_row_def pulled_merge_def pulled_row_def split: option.splits)

interpretation eqsl_upsert: row_upsert "pc_QSOID c" "eqsl_merge now t ag" "eqsl_row now c t ag" for now c t ag
  by unfold_locales (auto simp: row_defs eqsl_merge_def eqsl_row_def pulled_merge_def pulled_row_def split: option.splits)

interpretation confirm_update: row_update "confirmable w confID userID" "confirm_row now" for w confID userID now
  by unfold_locales (auto simp: row_defs confirmable_def confirm_row_def split: option.splits)

interpretation reject_update: row_update "rejectable w confID userID" "reject_row now" for w confID userID now
  by unfold_locales (auto simp: row_defs rejectable_def reject_row_def split: option.splits)

text \<open>
  One step of the system: a statement of the match worker, a request to one of the handlers, or a committed or
  failed transaction of a pull worker.
\<close>

inductive conf_step :: "conf_db \<Rightarrow> conf_db \<Rightarrow> bool" where
  match: "conf_step db (upsertConfirmation now p db)"
| confirm: "conf_step db (fst (ConfirmationHandler_Confirm exec_ok now w user idStr db))"
| reject: "conf_step db (fst (ConfirmationHandler_Reject exec_ok now w user idStr db))"
| lotw: "pd_conf s = db \<Longrightarrow> conf_step db (pd_conf (fst (LoTW_applyConfirmation env now c t s)))"
| eqsl: "pd_conf s = db \<Longrightarrow> conf_step db (pd_conf (fst (EQSL_applyConfirmation env now c t t1 t2 ag s)))"

lemma handler_update_cases:
  "fst (handler_update exec_ok cond upd idStr db) = db \<or>
   (\<exists>confID. fst (handler_update exec_ok cond upd idStr db) = fst (update_where (cond confID) upd db))"
proof (cases "parseConfirmationID idStr")
  case (Some i)
  then show ?thesis
    by (cases "update_where (cond i) upd db") (auto simp: handler_update_def intro!: exI [of _ i])
qed (simp add: handler_update_def)

lemma apply_tx_cases:
  "pd_conf (fst (apply_tx env now service qso t upsert s)) \<in> {pd_conf s, upsert (pd_conf s)}"
  by (simp add: apply_tx_def)

lemma conf_step_keeps:
  assumes "conf_step db db'" "db_ok db"
  shows "db_ok db' \<and> db_le db db'"
  using assms(1)
proof (cases rule: conf_step.cases)
  case (match now p)
  then show ?thesis using match_upsert.upsert_keeps [OF assms(2)] by (simp add: upsertConfirmation_def)
next
  case (confirm exec_ok now w user idStr)
  show ?thesis
  proof (cases user)
    case (Some u)
    then show ?thesis
      using handler_update_cases [of exec_ok "\<lambda>confID. confirmable w confID u" "confirm_row now" idStr db] confirm assms(2)
        confirm_update.update_where_keeps [OF assms(2)]
      by (auto simp: ConfirmationHandler_Confirm_def)
  qed (use confirm assms(2) in \<open>simp add: ConfirmationHandler_Confirm_def\<close>)
next
  case (reject exec_ok now w user idStr)
  show ?thesis
  proof (cases user)
    case (Some u)
    then show ?thesis
      using handler_update_cases [of exec_ok "\<lambda>confID. rejectable w confID u" "reject_row now" idStr db] reject assms(2)
        reject_update.update_where_keeps [OF assms(2)]
      by (auto simp: ConfirmationHandler_Reject_def)
  qed (use reject assms(2) in \<open>simp add: ConfirmationHandler_Reject_def\<close>)
next
  case (lotw s env now c t)
  then show ?thesis
    using apply_tx_cases lotw_upsert.upsert_keeps [OF assms(2)] assms(2)
    unfolding LoTW_applyConfirmation_def by (metis db_le_refl insertE singletonD)
next
  case (eqsl s env now c t t1 t2 ag)
  then show ?thesis
    using apply_tx_cases eqsl_upsert.upsert_keeps [OF assms(2)] assms(2)
    unfolding EQSL_applyConfirmation_def Let_def by (metis db_le_refl insertE singletonD)
qed

lemma conf_steps_keep: "conf_step\<^sup>*\<^sup>* db db' \<Longrightarrow> db_ok db \<Longrightarrow> db_ok db' \<and> db_le db db'"
  by (induction rule: rtranclp_induct) (use conf_step_keeps db_le_trans in auto)

text \<open>The match worker is one or two of these steps.\<close>

lemma QSOMatchWorker_Work_steps: "conf_step\<^sup>*\<^sup>* db (fst (QSOMatchWorker_Work env now w qsoID userID db))"
  by (auto simp: QSOMatchWorker_Work_def Let_def intro: conf_step.match converse_rtranclp_into_rtranclp
      split: sum.splits option.splits)

lemma cascade_inline_steps: "conf_step\<^sup>*\<^sup>* db (cascade_inline envs now w refs db)"
  by (induction envs now w refs db rule: cascade_inline.induct)
     (auto intro: QSOMatchWorker_Work_steps rtranclp_trans)


section \<open>Matches\<close>

text \<open>The contract of the search: the row of another user describes the same contact.\<close>

definition same_contact :: "MatchRequest \<Rightarrow> qso_row \<Rightarrow> int \<Rightarrow> bool" where
  "same_contact req q user \<longleftrightarrow>
     user \<noteq> mr_UserID req \<and> qs_deleted_at q = None \<and>
     ToUpper (qs_callsign q) = ToUpper (mr_OurCallsign req) \<and>
     (qs_station_callsign q = None \<or> map_option ToUpper (qs_station_callsign q) = Some (ToUpper (mr_TheirCallsign req))) \<and>
     ToLower (qs_band q) = ToLower (mr_Band req) \<and>
     NormalizeModeGroup (qs_mode q) = NormalizeModeGroup (mr_Mode req) \<and>
     \<bar>qs_datetime_on q - mr_DatetimeOn req\<bar> \<le> 30 * 60 * 1000000"

definition modes_trimmed :: "world \<Rightarrow> bool" where
  "modes_trimmed w = list_all (\<lambda>q. TrimSpace (qs_mode q) = qs_mode q) (w_qsos w)"

lemma set_FindMatches:
  assumes "modes_trimmed w" "mr_TimeWindow req \<le> 0"
  shows "set (FindMatches w req) =
    {to_candidate (NormalizeModeGroup (mr_Mode req)) q user | q user.
       q \<in> set (w_qsos w) \<and> owner w q = Some user \<and> same_contact req q user}"
proof -
  let ?W = "\<lambda>q user. match_where (mr_OurCallsign req) (mr_TheirCallsign req) (mr_Band req) (NormalizeModeGroup (mr_Mode req))
      (mr_DatetimeOn req) (30 * 60 * 1000000) (mr_UserID req) q user"
  have W: "?W q user \<longleftrightarrow> same_contact req q user" if "q \<in> set (w_qsos w)" for q user
  proof -
    have "TrimSpace (qs_mode q) = qs_mode q" using assms(1) that by (simp add: modes_trimmed_def list_all_iff)
    from mode_matches_group [OF this, of "mr_Mode req"] show ?thesis
      by (auto simp: match_where_def same_contact_def split: option.splits)
  qed
  have "FindMatches w req = find_qso_matches w (mr_OurCallsign req) (mr_TheirCallsign req) (mr_Band req)
      (NormalizeModeGroup (mr_Mode req)) (mr_DatetimeOn req) (30 * 60 * 1000000) (mr_UserID req)"
    using assms(2) by (simp add: FindMatches_def DefaultTimeWindow_def)
  then have "c \<in> set (FindMatches w req) \<longleftrightarrow>
      (\<exists>q user. q \<in> set (w_qsos w) \<and> owner w q = Some user \<and> ?W q user \<and> c = to_candidate (NormalizeModeGroup (mr_Mode req)) q user)" for c
    by (simp only: set_find_qso_matches)
  then show ?thesis using W by blast
qed

definition request_of :: "qso_row \<Rightarrow> string \<Rightarrow> int \<Rightarrow> MatchRequest" where
  "request_of q station user =
     match_request (qs_id q) user
       \<lparr>qc_ID = qs_id q, qc_StationCallsign = station, qc_Callsign = qs_callsign q, qc_Band = qs_band q,
        qc_Mode = qs_mode q, qc_DatetimeOn = qs_datetime_on q\<rparr>"

lemmas request_simps = request_of_def match_request_def

lemma FindMatches_id:
  assumes "modes_trimmed w" "distinct (map qs_id (w_qsos w))" "b \<in> set (w_qsos w)" "owner w b = Some ub" "mr_TimeWindow req \<le> 0"
  shows "qs_id b \<in> mc_QSOID ` set (FindMatches w req) \<longleftrightarrow> same_contact req b ub"
proof -
  have inj: "q = b" if "q \<in> set (w_qsos w)" "qs_id q = qs_id b" for q
    using assms(2,3) that by (auto simp: distinct_map inj_on_def)
  have id: "mc_QSOID (to_candidate g q u) = qs_id q" for g q u by (simp add: to_candidate_def)
  let ?c = "\<lambda>q u. to_candidate (NormalizeModeGroup (mr_Mode req)) q u"
  show ?thesis
  proof
    assume "qs_id b \<in> mc_QSOID ` set (FindMatches w req)"
    then obtain q user where q: "q \<in> set (w_qsos w)" "owner w q = Some user" "same_contact req q user" "qs_id b = mc_QSOID (?c q user)"
      unfolding set_FindMatches [OF assms(1,5)] by blast
    then have "q = b" by (intro inj) (simp_all add: id)
    with q assms(4) show "same_contact req b ub" by simp
  next
    assume "same_contact req b ub"
    then have "?c b ub \<in> set (FindMatches w req)" unfolding set_FindMatches [OF assms(1,5)] using assms(3,4) by blast
    then show "qs_id b \<in> mc_QSOID ` set (FindMatches w req)" using id by (metis imageI)
  qed
qed


section \<open>Upserts of other rows\<close>

lemma insert_or_update_other:
  "r \<in> set (cd_rows db) \<Longrightarrow> cf_qso_id r \<noteq> k \<Longrightarrow> r \<in> set (cd_rows (insert_or_update k new upd db))"
  by (auto simp: insert_or_update_def Let_def image_iff intro!: bexI [of _ r])

lemma matched_other:
  assumes "live_qso w qsoID = Some q" "owner w q = Some userID" "distinct (map qs_id (w_qsos w))"
    and "BestMatch (FindMatches w (match_request qsoID userID qso)) = Some b"
  shows "mc_QSOID b \<noteq> qsoID"
proof
  assume id: "mc_QSOID b = qsoID"
  have "b \<in> set (FindMatches w (match_request qsoID userID qso))" by (rule BestMatch_first [OF assms(4)]) simp
  then obtain q' u where q': "q' \<in> set (w_qsos w)" "owner w q' = Some u" "u \<noteq> userID" "qs_id q' = mc_QSOID b"
    by (auto simp: FindMatches_def set_find_qso_matches match_where_def match_request_def to_candidate_def Let_def)
  have "q \<in> set (w_qsos w)" "qs_id q = qsoID" using assms(1) by (auto simp: live_qso_def find_Some_iff)
  with q' id assms(3) have "q' = q" by (auto simp: distinct_map inj_on_def)
  with q' assms(2) show False by simp
qed

lemma upsertConfirmation_row:
  assumes "db_ok db"
  shows "\<exists>r \<in> set (cd_rows (upsertConfirmation now p db)). cf_qso_id r = up_QSOID p \<and> cf_matched_qso_id r = up_MatchedQSOID p \<and>
           (cf_status r = up_Status p \<or> cf_status r = ''confirmed'')"
proof -
  have ins: "cf_qso_id (upsert_row now p i) = up_QSOID p \<and> cf_matched_qso_id (upsert_row now p i) = up_MatchedQSOID p \<and>
      cf_status (upsert_row now p i) = up_Status p" for i
    by (simp add: upsert_row_def fresh_row_def)
  have upd: "cf_matched_qso_id (upsert_merge now p r) = up_MatchedQSOID p \<and>
      (cf_status (upsert_merge now p r) = up_Status p \<or> cf_status (upsert_merge now p r) = ''confirmed'')" for r
    by (simp add: upsert_merge_def)
  show ?thesis
    unfolding upsertConfirmation_def using match_upsert.upsert_has_row [OF assms, of p now] ins upd by metis
qed


lemma verified_by_two: "verified_by w now u cs [a, b] \<longleftrightarrow> verified_by w now u cs [a] \<or> verified_by w now u cs [b]"
  by (auto simp: verified_by_def list_ex_iff)


section \<open>Properties\<close>

text \<open>
  C29. The search is exact.  With the default window, and modes stored without surrounding blanks, a QSO has no match
  exactly when no other user has a row for the same contact: our callsign and theirs crossed (a row without a station callsign
  counts), same band, same mode group, at most 30 minutes apart, not deleted.  Otherwise the match is such a row, and no other such
  row has a higher confidence, or the same confidence and a smaller distance in time.
\<close>

theorem best_match_is_contact:
  assumes "modes_trimmed w" "mr_TimeWindow req \<le> 0"
  shows "let contacts = {(q, user). q \<in> set (w_qsos w) \<and> owner w q = Some user \<and> same_contact req q user};
             candidate = (\<lambda>(q, user). to_candidate (NormalizeModeGroup (mr_Mode req)) q user);
             distance = (\<lambda>c. \<bar>mc_DatetimeOn c - mr_DatetimeOn req\<bar>) in
         case BestMatch (FindMatches w req) of
           None \<Rightarrow> contacts = {}
         | Some b \<Rightarrow> b \<in> candidate ` contacts \<and>
             (\<forall>c \<in> candidate ` contacts. mc_Confidence c < mc_Confidence b \<or>
                mc_Confidence c = mc_Confidence b \<and> distance b \<le> distance c)"
proof -
  let ?C = "{(q, user). q \<in> set (w_qsos w) \<and> owner w q = Some user \<and> same_contact req q user}"
  let ?f = "\<lambda>(q, user). to_candidate (NormalizeModeGroup (mr_Mode req)) q user"
  have set: "set (FindMatches w req) = ?f ` ?C"
    unfolding set_FindMatches [OF assms] by (auto simp: image_iff)
  show ?thesis
  proof (cases "BestMatch (FindMatches w req)")
    case None
    then have "?C = {}" using set by (simp add: BestMatch_None)
    then show ?thesis unfolding Let_def None option.case .
  next
    case (Some b)
    have "b \<in> set (FindMatches w req)" by (rule BestMatch_first [OF Some]) simp
    then have "b \<in> ?f ` ?C" unfolding set .
    moreover have "mc_Confidence c < mc_Confidence b \<or>
        mc_Confidence c = mc_Confidence b \<and> \<bar>mc_DatetimeOn b - mr_DatetimeOn req\<bar> \<le> \<bar>mc_DatetimeOn c - mr_DatetimeOn req\<bar>"
      if "c \<in> ?f ` ?C" for c
      using BestMatch_closest Some that unfolding set [symmetric] FindMatches_def Let_def by blast
    ultimately show ?thesis unfolding Let_def Some option.case by blast
  qed
qed

definition qso_K1 :: qso_row where
  "qso_K1 = \<lparr>qs_id = 1, qs_logbook_id = 10, qs_callsign = ''W2B'', qs_station_callsign = Some ''K1A'', qs_band = ''20m'',
             qs_mode = ''USB'', qs_datetime_on = 0, qs_deleted_at = None\<rparr>"

definition qso_W2 :: qso_row where
  "qso_W2 = \<lparr>qs_id = 2, qs_logbook_id = 20, qs_callsign = ''k1a'', qs_station_callsign = Some ''W2B'', qs_band = ''20M'',
             qs_mode = ''SSB'', qs_datetime_on = 60000000, qs_deleted_at = None\<rparr>"

definition two_logs :: world where
  "two_logs =
     \<lparr>w_qsos = [qso_K1, qso_W2], w_logbooks = [(10, 100), (20, 200)], w_user_callsigns = [],
      w_verifications =
        [\<lparr>vf_user_id = 100, vf_callsign = ''K1A'', vf_method = ''vouch'', vf_status = ''verified'', vf_expires_at = None\<rparr>,
         \<lparr>vf_user_id = 200, vf_callsign = ''W2B'', vf_method = ''lotw_cross'', vf_status = ''verified'', vf_expires_at = None\<rparr>]\<rparr>"

theorem best_match_is_contact_witness:
  "map_option mc_QSOID (BestMatch (FindMatches two_logs (request_of qso_K1 ''K1A'' 100))) = Some 2"
proof -
  let ?req = "request_of qso_K1 ''K1A'' 100"
  have "modes_trimmed two_logs" "same_contact ?req qso_W2 200" "\<not> same_contact ?req qso_K1 100"
    "owner two_logs qso_W2 = Some 200" "owner two_logs qso_K1 = Some 100" "mr_TimeWindow ?req \<le> 0"
    by code_simp+
  note facts = this
  have "w_qsos two_logs = [qso_K1, qso_W2]" by (simp add: two_logs_def)
  with facts have "{(q, user). q \<in> set (w_qsos two_logs) \<and> owner two_logs q = Some user \<and> same_contact ?req q user} = {(qso_W2, 200)}"
    by auto
  with best_match_is_contact [OF facts(1,6)]
  have "case BestMatch (FindMatches two_logs ?req) of
      None \<Rightarrow> False | Some b \<Rightarrow> b = to_candidate (NormalizeModeGroup (mr_Mode ?req)) qso_W2 200"
    by (simp add: Let_def split: option.splits)
  then show ?thesis by (simp add: to_candidate_def qso_W2_def split: option.splits)
qed

text \<open>
  Matching is symmetric: for two QSOs of different users that both carry their station callsign, the
  second is among the matches of the first exactly when the first is among the matches of the second, so both sides of
  a contact find each other.
\<close>

theorem matching_symmetric:
  assumes "modes_trimmed w" "distinct (map qs_id (w_qsos w))" "a \<in> set (w_qsos w)" "b \<in> set (w_qsos w)"
    and "owner w a = Some ua" "owner w b = Some ub" "ua \<noteq> ub"
    and "qs_station_callsign a = Some sa" "qs_station_callsign b = Some sb"
    and "qs_deleted_at a = None" "qs_deleted_at b = None"
  shows "qs_id b \<in> mc_QSOID ` set (FindMatches w (request_of a sa ua)) \<longleftrightarrow>
         qs_id a \<in> mc_QSOID ` set (FindMatches w (request_of b sb ub))"
proof -
  have z: "mr_TimeWindow (request_of q s u) \<le> 0" for q s u by (simp add: request_simps)
  show ?thesis
    unfolding FindMatches_id [OF assms(1,2,4,6) z] FindMatches_id [OF assms(1,2,3,5) z]
    using assms(7-) by (auto simp: same_contact_def request_simps abs_minus_commute)
qed

theorem matching_symmetric_witness:
  "1 \<in> mc_QSOID ` set (FindMatches two_logs (request_of qso_W2 ''W2B'' 200))"
proof -
  have "map mc_QSOID (FindMatches two_logs (request_of qso_K1 ''K1A'' 100)) = [2]" by code_simp
  then have "2 \<in> mc_QSOID ` set (FindMatches two_logs (request_of qso_K1 ''K1A'' 100))" by (metis list.set_intros(1) set_map)
  moreover have "modes_trimmed two_logs" by code_simp
  ultimately show ?thesis
    using matching_symmetric [of two_logs qso_K1 qso_W2 100 200 "''K1A''" "''W2B''"]
    by (simp add: two_logs_def qso_K1_def qso_W2_def)
qed

text \<open>
  C8. The confirmation record.  Under every interleaving of match workers, manual confirmations, rejections and pulls from LoTW and eQSL,
  with any failures, a consistent table stays consistent: one row per QSO and per id, a confirmation time exactly on the confirmed
  rows, and no row that a source confirmed without the status.  Rows are never lost, the contact they describe never changes, and a
  confirmed row stays confirmed with its confirmation time and its sources.
\<close>

theorem confirmations_monotone:
  assumes "conf_step\<^sup>*\<^sup>* db db'" "db_ok db"
  shows "db_ok db' \<and> db_le db db'"
  using assms by (rule conf_steps_keep)

definition no_rows :: conf_db where
  "no_rows = \<lparr>cd_rows = [], cd_next_id = 1\<rparr>"

definition work_ok :: match_env where
  "work_ok = \<lparr>me_load_ok = True, me_find_ok = True, me_our_level_ok = \<lambda>_. True, me_their_level_ok = \<lambda>_. True,
              me_upsert_ok = True, me_upsert_their_ok = True\<rparr>"

lemma no_rows_ok: "db_ok no_rows"
  by (simp add: no_rows_def db_ok_def)

theorem confirmations_monotone_witness:
  "let db = fst (QSOMatchWorker_Work work_ok 7 two_logs 1 100 no_rows) in
   map cf_status (cd_rows db) = [''confirmed'', ''confirmed''] \<and>
   db_ok (fst (ConfirmationHandler_Reject True 8 two_logs (Some 100) ''1'' db)) \<and> db_le db (fst (ConfirmationHandler_Reject True 8 two_logs (Some 100) ''1'' db))"
proof -
  let ?db = "fst (QSOMatchWorker_Work work_ok 7 two_logs 1 100 no_rows)"
  have ok: "db_ok ?db" using confirmations_monotone [OF QSOMatchWorker_Work_steps no_rows_ok] by blast
  have "conf_step\<^sup>*\<^sup>* ?db (fst (ConfirmationHandler_Reject True 8 two_logs (Some 100) ''1'' ?db))" by (blast intro: conf_step.reject)
  moreover have "map cf_status (cd_rows ?db) = [''confirmed'', ''confirmed'']" by code_simp
  ultimately show ?thesis unfolding Let_def using confirmations_monotone [OF _ ok] by blast
qed

text \<open>
  A match is recorded on both sides.  When the match worker succeeds for a QSO of its user and finds a match, the row of the QSO names the
  matched QSO and the row of the matched QSO names ours; both are at least matched, and both are confirmed
  when both operators are verified.
\<close>

theorem match_links_both_sides:
  assumes "db_ok db" "QSOMatchWorker_Work env now w qsoID userID db = (db', None)" "me_upsert_their_ok env"
    and "live_qso w qsoID = Some q" "owner w q = Some userID" "distinct (map qs_id (w_qsos w))"
    and "loadQSOForConfirmation w qsoID = Inr (Some qso)"
    and "BestMatch (FindMatches w (match_request qsoID userID qso)) = Some b"
  shows "\<exists>r \<in> set (cd_rows db'). \<exists>r' \<in> set (cd_rows db').
           cf_qso_id r = qsoID \<and> cf_matched_qso_id r = Some (mc_QSOID b) \<and>
           cf_qso_id r' = mc_QSOID b \<and> cf_matched_qso_id r' = Some qsoID \<and>
           {cf_status r, cf_status r'} \<subseteq> {''matched'', ''confirmed''} \<and>
           (fst (OperatorVerificationLevel (me_our_level_ok env) w now userID (qc_StationCallsign qso)) \<noteq> ''none'' \<and>
            fst (OperatorVerificationLevel (me_their_level_ok env) w now (mc_UserID b) (qc_Callsign qso)) \<noteq> ''none'' \<longrightarrow>
              cf_status r = ''confirmed'' \<and> cf_status r' = ''confirmed'')"
proof -
  let ?ov = "fst (OperatorVerificationLevel (me_our_level_ok env) w now userID (qc_StationCallsign qso))"
  let ?tv = "fst (OperatorVerificationLevel (me_their_level_ok env) w now (mc_UserID b) (qc_Callsign qso))"
  let ?p = "our_params qsoID qso (Some (mc_QSOID b)) (DetermineConfirmationStatus ?ov ?tv True) ?ov ?tv"
  let ?p' = "their_params qsoID qso b (DetermineConfirmationStatus ?tv ?ov True) ?ov ?tv"
  let ?db1 = "upsertConfirmation now ?p db"
  have db': "db' = upsertConfirmation now ?p' ?db1"
    using assms(2,3) by (auto simp: QSOMatchWorker_Work_def assms(7,8) Let_def split: if_splits)
  have ok1: "db_ok ?db1" using conf_step_keeps [OF conf_step.match assms(1)] by blast
  obtain r where r: "r \<in> set (cd_rows ?db1)" "cf_qso_id r = qsoID" "cf_matched_qso_id r = Some (mc_QSOID b)"
      "cf_status r = DetermineConfirmationStatus ?ov ?tv True \<or> cf_status r = ''confirmed''"
    using upsertConfirmation_row [OF assms(1), of now ?p] by (auto simp: our_params_def)
  obtain r' where r': "r' \<in> set (cd_rows db')" "cf_qso_id r' = mc_QSOID b" "cf_matched_qso_id r' = Some qsoID"
      "cf_status r' = DetermineConfirmationStatus ?tv ?ov True \<or> cf_status r' = ''confirmed''"
    using upsertConfirmation_row [OF ok1, of now ?p'] unfolding db' by (auto simp: their_params_def)
  have "mc_QSOID b \<noteq> qsoID" using matched_other [OF assms(4-6,8)] .
  then have "r \<in> set (cd_rows db')"
    unfolding db' upsertConfirmation_def [of now ?p'] using r(1,2) by (intro insert_or_update_other) (simp_all add: their_params_def)
  with r r' show ?thesis
    by (intro bexI [of _ r] bexI [of _ r']) (auto simp: DetermineConfirmationStatus_def split: if_splits)
qed

theorem match_links_both_sides_witness:
  "\<exists>r \<in> set (cd_rows (fst (QSOMatchWorker_Work work_ok 7 two_logs 1 100 no_rows))). cf_qso_id r = 2 \<and> cf_matched_qso_id r = Some 1"
proof -
  let ?W = "QSOMatchWorker_Work work_ok 7 two_logs 1 100 no_rows"
  let ?qso = "\<lparr>qc_ID = 1, qc_StationCallsign = ''K1A'', qc_Callsign = ''W2B'', qc_Band = ''20m'', qc_Mode = ''USB'', qc_DatetimeOn = 0\<rparr>"
  have f: "snd ?W = None" "me_upsert_their_ok work_ok" "live_qso two_logs 1 = Some qso_K1" "owner two_logs qso_K1 = Some 100"
    "distinct (map qs_id (w_qsos two_logs))" "loadQSOForConfirmation two_logs 1 = Inr (Some ?qso)"
    "BestMatch (FindMatches two_logs (match_request 1 100 ?qso)) = Some (to_candidate ''SSB'' qso_W2 200)"
    by code_simp+
  have "?W = (fst ?W, None)" using f(1) by (metis prod.collapse)
  from match_links_both_sides [OF no_rows_ok this f(2-)] show ?thesis
    by (auto simp: to_candidate_def qso_W2_def)
qed

text \<open>
  What a repeated match does to an existing row.  A confirmed row keeps its status and its confirmation time but takes the new matched
  QSO, so a later search without a match clears the link of a confirmed QSO.  A row that its owner rejected takes the new
  status: a rejected match becomes matched or confirmed again at the next run.
\<close>

theorem rematch_overrides:
  assumes "db_ok db" "r \<in> set (cd_rows db)" "cf_qso_id r = up_QSOID p"
  shows "upsert_merge now p r \<in> set (cd_rows (upsertConfirmation now p db)) \<and>
         cf_matched_qso_id (upsert_merge now p r) = up_MatchedQSOID p \<and>
         (cf_status r = ''confirmed'' \<longrightarrow>
            cf_status (upsert_merge now p r) = ''confirmed'' \<and> cf_confirmed_at (upsert_merge now p r) = cf_confirmed_at r) \<and>
         (cf_status r = ''rejected'' \<longrightarrow> cf_status (upsert_merge now p r) = up_Status p)"
proof -
  have "row_ok r" using assms by (simp add: db_ok_def)
  moreover have "upsert_merge now p r \<in> set (cd_rows (upsertConfirmation now p db))"
    using assms(2,3) by (auto simp: upsertConfirmation_def insert_or_update_def Let_def list_ex_iff image_iff intro!: bexI [of _ r])
  ultimately show ?thesis
    by (auto simp: row_ok_def upsert_merge_def coalesce_def split: option.splits)
qed

definition unverified_logs :: world where
  "unverified_logs = two_logs\<lparr>w_verifications := []\<rparr>"

theorem rematch_overrides_witness:
  "let matched = fst (QSOMatchWorker_Work work_ok 7 unverified_logs 1 100 no_rows);
       rejected = fst (ConfirmationHandler_Reject True 8 unverified_logs (Some 100) ''1'' matched);
       p = our_params 1 \<lparr>qc_ID = 1, qc_StationCallsign = ''K1A'', qc_Callsign = ''W2B'', qc_Band = ''20m'', qc_Mode = ''USB'', qc_DatetimeOn = 0\<rparr>
             (Some 2) ''matched'' ''none'' ''none'' in
   map cf_status (cd_rows rejected) = [''rejected'', ''matched''] \<and>
   (\<exists>r \<in> set (cd_rows (upsertConfirmation 9 p rejected)). cf_qso_id r = 1 \<and> cf_status r = ''matched'')"
proof -
  let ?m = "fst (QSOMatchWorker_Work work_ok 7 unverified_logs 1 100 no_rows)"
  let ?rej = "fst (ConfirmationHandler_Reject True 8 unverified_logs (Some 100) ''1'' ?m)"
  let ?p = "our_params 1 \<lparr>qc_ID = 1, qc_StationCallsign = ''K1A'', qc_Callsign = ''W2B'', qc_Band = ''20m'', qc_Mode = ''USB'', qc_DatetimeOn = 0\<rparr>
             (Some 2) ''matched'' ''none'' ''none''"
  have "conf_step\<^sup>*\<^sup>* no_rows ?rej" using QSOMatchWorker_Work_steps conf_step.reject by (rule rtranclp.rtrancl_into_rtrancl)
  then have ok: "db_ok ?rej" using conf_steps_keep no_rows_ok by blast
  have st: "map cf_status (cd_rows ?rej) = [''rejected'', ''matched'']" "map cf_qso_id (cd_rows ?rej) = [1, 2]" by code_simp+
  then obtain r where r: "r \<in> set (cd_rows ?rej)" "cf_status r = ''rejected''" "cf_qso_id r = 1" by (cases "cd_rows ?rej") auto
  then have k: "cf_qso_id r = up_QSOID ?p" by (simp add: our_params_def)
  have "cf_qso_id (upsert_merge 9 ?p r) = 1" using r(3) by (simp add: upsert_merge_def)
  with rematch_overrides [OF ok r(1) k, of 9] r(2) st(1) show ?thesis unfolding Let_def by (auto simp: our_params_def)
qed

text \<open>
  The verification level of an operator is the highest of cross verified, vouched, address and email for which an unexpired
  verified record exists, and \<open>none\<close> without one; a cross verification by QRZ alone gives \<open>none\<close>, although
  \<open>HasCrossVerification\<close> holds.
\<close>

theorem verification_level_highest:
  assumes "\<And>l. ok l"
  shows "OperatorVerificationLevel ok w now u cs =
      (if verified_by w now u cs [''lotw_cross''] then ''cross_verified''
       else if verified_by w now u cs [''vouch''] then ''vouched''
       else if verified_by w now u cs [''address''] then ''address''
       else if verified_by w now u cs [''email''] then ''email''
       else ''none'', False) \<and>
    (HasCrossVerification w now u cs \<longleftrightarrow>
       verified_by w now u cs [''lotw_cross''] \<or> verified_by w now u cs [''qrz_cross''])"
  using assms
  by (simp add: OperatorVerificationLevel_def verification_levels_def levelToMethod_def HasCrossVerification_def verified_by_two)

definition qrz_only :: world where
  "qrz_only = two_logs\<lparr>w_verifications :=
     [\<lparr>vf_user_id = 1, vf_callsign = ''k1a'', vf_method = ''qrz_cross'', vf_status = ''verified'', vf_expires_at = None\<rparr>]\<rparr>"

theorem verification_level_highest_witness:
  "OperatorVerificationLevel (\<lambda>_. True) qrz_only 5 1 ''K1A'' = (''none'', False) \<and> HasCrossVerification qrz_only 5 1 ''K1A''"
proof -
  have "\<not> verified_by qrz_only 5 1 ''K1A'' [''lotw_cross'']" "\<not> verified_by qrz_only 5 1 ''K1A'' [''vouch'']"
    "\<not> verified_by qrz_only 5 1 ''K1A'' [''address'']" "\<not> verified_by qrz_only 5 1 ''K1A'' [''email'']"
    "verified_by qrz_only 5 1 ''K1A'' [''qrz_cross'']"
    by code_simp+
  then show ?thesis using verification_level_highest [of "\<lambda>_. True" qrz_only 5 1 "''K1A''"] by simp
qed

end
