(* ===== verification/Base64.thy ===== *)
theory Base64
  imports Go_Prelude
begin

text \<open>
  \<open>encoding/base64\<close> as the program uses it: \<open>StdEncoding\<close> with padding and \<open>RawURLEncoding\<close> without.  Decoding skips
  carriage returns and newlines, rejects anything after the padding, and does not check that the unused bits of the last
  character are zero.
\<close>

definition std_alphabet :: string where
  "std_alphabet = ''ABCDEFGHIJKLMNOPQRSTUVWXYZabcdefghijklmnopqrstuvwxyz0123456789+/''"

definition url_alphabet :: string where
  "url_alphabet = ''ABCDEFGHIJKLMNOPQRSTUVWXYZabcdefghijklmnopqrstuvwxyz0123456789-_''"

fun position :: "nat \<Rightarrow> string \<Rightarrow> char \<Rightarrow> nat option" where
  "position i [] c = None"
| "position i (a # as) c = (if a = c then Some i else position (i + 1) as c)"

fun b64_encode :: "string \<Rightarrow> string \<Rightarrow> string" where
  "b64_encode al (a # b # c # rest) =
     (let v = byte a * 65536 + byte b * 256 + byte c in
      al ! (v div 262144) # al ! (v div 4096 mod 64) # al ! (v div 64 mod 64) # al ! (v mod 64) # b64_encode al rest)"
| "b64_encode al [a, b] =
     (let v = byte a * 65536 + byte b * 256 in
      [al ! (v div 262144), al ! (v div 4096 mod 64), al ! (v div 64 mod 64), CHR ''=''])"
| "b64_encode al [a] =
     (let v = byte a * 65536 in [al ! (v div 262144), al ! (v div 4096 mod 64), CHR ''='', CHR ''=''])"
| "b64_encode al [] = []"

definition quantum :: "nat \<Rightarrow> nat \<Rightarrow> nat \<Rightarrow> nat \<Rightarrow> char list" where
  "quantum p q r s =
     (let v = p * 262144 + q * 4096 + r * 64 + s in
      [char_of (v div 65536), char_of (v div 256 mod 256), char_of (v mod 256)])"

text \<open>\<open>padded\<close> tells the two encodings apart; \<^const>\<open>None\<close> is a \<open>CorruptInputError\<close>.\<close>

fun b64_quanta :: "bool \<Rightarrow> string \<Rightarrow> string \<Rightarrow> string option" where
  "b64_quanta padded al [] = Some []"
| "b64_quanta padded al [p] = None"
| "b64_quanta padded al [p, q] =
     (case (position 0 al p, position 0 al q) of
        (Some i, Some j) \<Rightarrow> if padded then None else Some (take 1 (quantum i j 0 0))
      | _ \<Rightarrow> None)"
| "b64_quanta padded al [p, q, r] =
     (case (position 0 al p, position 0 al q, position 0 al r) of
        (Some i, Some j, Some k) \<Rightarrow> if padded then None else Some (take 2 (quantum i j k 0))
      | _ \<Rightarrow> None)"
| "b64_quanta padded al (p # q # r # s # rest) =
     (case (position 0 al p, position 0 al q) of
        (Some i, Some j) \<Rightarrow>
          (if padded \<and> r = CHR ''='' then (if s = CHR ''='' \<and> rest = [] then Some (take 1 (quantum i j 0 0)) else None)
           else case position 0 al r of
             None \<Rightarrow> None
           | Some k \<Rightarrow>
               if padded \<and> s = CHR ''='' then (if rest = [] then Some (take 2 (quantum i j k 0)) else None)
               else (case position 0 al s of
                       None \<Rightarrow> None
                     | Some l \<Rightarrow> map_option ((@) (quantum i j k l)) (b64_quanta padded al rest)))
      | _ \<Rightarrow> None)"

definition StdEncoding_EncodeToString :: "string \<Rightarrow> string" where
  "StdEncoding_EncodeToString raw = b64_encode std_alphabet raw"

definition StdEncoding_DecodeString :: "string \<Rightarrow> string option" where
  "StdEncoding_DecodeString s = b64_quanta True std_alphabet (filter (\<lambda>c. byte c \<noteq> 10 \<and> byte c \<noteq> 13) s)"

definition RawURLEncoding_DecodeString :: "string \<Rightarrow> string option" where
  "RawURLEncoding_DecodeString s = b64_quanta False url_alphabet (filter (\<lambda>c. byte c \<noteq> 10 \<and> byte c \<noteq> 13) s)"


section \<open>Decoding inverts encoding\<close>

lemma std_positions: "list_all (\<lambda>n. position 0 std_alphabet (std_alphabet ! n) = Some n \<and>
    std_alphabet ! n \<noteq> CHR ''='' \<and> byte (std_alphabet ! n) \<noteq> 10 \<and> byte (std_alphabet ! n) \<noteq> 13) [0..<64]"
  by code_simp

lemma std_position [simp]:
  assumes "n < 64"
  shows "position 0 std_alphabet (std_alphabet ! n) = Some n" "std_alphabet ! n \<noteq> CHR ''=''"
    "byte (std_alphabet ! n) \<noteq> 10" "byte (std_alphabet ! n) \<noteq> 13"
  using std_positions assms by (auto simp: list_all_iff)

lemma sextets:
  fixes a b c :: nat
  assumes "a < 256" "b < 256" "c < 256"
  defines "v \<equiv> a * 65536 + b * 256 + c"
  shows "v div 262144 < 64" "v div 4096 mod 64 < 64" "v div 64 mod 64 < 64" "v mod 64 < 64"
    and "v div 262144 * 262144 + v div 4096 mod 64 * 4096 + v div 64 mod 64 * 64 + v mod 64 = v"
    and "v div 65536 = a" "v div 256 mod 256 = b" "v mod 256 = c"
proof -
  have v: "v < 16777216" using assms by simp
  then show "v div 262144 < 64" by (intro less_mult_imp_div_less) simp
  have d: "v div 4096 = v div 64 div 64" "v div 262144 = v div 64 div 64 div 64" by (simp_all add: div_mult2_eq [symmetric])
  show "v div 262144 * 262144 + v div 4096 mod 64 * 4096 + v div 64 mod 64 * 64 + v mod 64 = v"
    unfolding d using div_mult_mod_eq [of v 64] div_mult_mod_eq [of "v div 64" 64] div_mult_mod_eq [of "v div 64 div 64" 64]
    by linarith
  show "v div 65536 = a" using assms by (intro div_nat_eqI) simp_all
  have q: "v div 256 = a * 256 + b" using assms by (intro div_nat_eqI) simp_all
  then show "v div 256 mod 256 = b" using assms(2) by simp
  show "v mod 256 = c" using q div_mult_mod_eq [of v 256] assms(3) unfolding v_def by linarith
qed simp_all

lemma byte_less: "byte c < 256"
  by (rule nat_of_char_less_256)

lemma char_of_byte [simp]: "char_of (byte c) = c"
  by (rule char_of_char)

lemma quantum_encode:
  fixes a b c
  defines "v \<equiv> byte a * 65536 + byte b * 256 + byte c"
  shows "quantum (v div 262144) (v div 4096 mod 64) (v div 64 mod 64) (v mod 64) = [a, b, c]"
proof -
  note s = sextets [OF byte_less byte_less byte_less, of a b c, folded v_def]
  show ?thesis unfolding quantum_def Let_def s(5-8) by (simp only: char_of_char)
qed

lemma quanta_full:
  assumes "i < 64" "j < 64" "k < 64" "l < 64"
  shows "b64_quanta True std_alphabet (std_alphabet ! i # std_alphabet ! j # std_alphabet ! k # std_alphabet ! l # rest) =
    map_option ((@) (quantum i j k l)) (b64_quanta True std_alphabet rest)"
    and "b64_quanta True std_alphabet [std_alphabet ! i, std_alphabet ! j, std_alphabet ! k, CHR ''=''] = Some (take 2 (quantum i j k 0))"
    and "b64_quanta True std_alphabet [std_alphabet ! i, std_alphabet ! j, CHR ''='', CHR ''=''] = Some (take 1 (quantum i j 0 0))"
  using assms by simp_all

lemma zero_byte: "byte CHR 0x00 = 0"
  by simp

lemma low_zero:
  fixes a b :: nat
  shows "(a * 65536 + b * 256) mod 64 = 0" "(a * 65536) div 64 mod 64 = 0" "(a * 65536) mod 64 = 0"
proof -
  have e: "a * 65536 + b * 256 = (a * 1024 + b * 4) * 64" "a * 65536 = (a * 1024) * 64" "a * 1024 = a * 16 * 64" by simp_all
  show "(a * 65536 + b * 256) mod 64 = 0" unfolding e(1) by (rule mod_mult_self2_is_0)
  show "(a * 65536) mod 64 = 0" unfolding e(2) by (rule mod_mult_self2_is_0)
  have "(a * 65536) div 64 = a * 16 * 64" unfolding e(2) e(3) [symmetric] by (rule nonzero_mult_div_cancel_right) simp
  then show "(a * 65536) div 64 mod 64 = 0" by (simp only: mod_mult_self2_is_0)
qed

lemma b64_quanta_encode: "b64_quanta True std_alphabet (b64_encode std_alphabet raw) = Some raw"
proof (induction std_alphabet raw rule: b64_encode.induct)
  case (1 a b c rest)
  note s = sextets [OF byte_less byte_less byte_less, of a b c]
  show ?case
    unfolding b64_encode.simps Let_def quanta_full(1) [OF s(1-4)] quantum_encode 1 [OF refl] by simp
next
  case (2 a b)
  note s = sextets [OF byte_less byte_less byte_less, of a b "CHR 0x00", unfolded zero_byte add_0_right]
  note q = quantum_encode [of a b "CHR 0x00", unfolded zero_byte add_0_right low_zero]
  show ?case unfolding b64_encode.simps Let_def quanta_full(2) [OF s(1-4)] q by simp
next
  case (3 a)
  note s = sextets [OF byte_less byte_less byte_less, of a "CHR 0x00" "CHR 0x00", unfolded zero_byte mult_0 add_0_right]
  note q = quantum_encode [of a "CHR 0x00" "CHR 0x00", unfolded zero_byte mult_0 add_0_right low_zero]
  show ?case unfolding b64_encode.simps Let_def quanta_full(3) [OF s(1-4)] q by simp
qed simp

lemma std_no_newline: "i < 64 \<Longrightarrow> (\<lambda>c. byte c \<noteq> 10 \<and> byte c \<noteq> 13) (std_alphabet ! i)"
  by simp

lemma b64_encode_no_newline: "list_all (\<lambda>c. byte c \<noteq> 10 \<and> byte c \<noteq> 13) (b64_encode std_alphabet raw)"
proof (induction std_alphabet raw rule: b64_encode.induct)
  case (1 a b c rest)
  note s = sextets(1-4) [OF byte_less byte_less byte_less, of a b c]
  show ?case unfolding b64_encode.simps Let_def list.pred_inject using s [THEN std_no_newline] 1 by blast
next
  case (2 a b)
  note s = sextets(1-4) [OF byte_less byte_less byte_less, of a b "CHR 0x00", unfolded zero_byte add_0_right]
  have "byte CHR ''='' = 61" by simp
  then show ?case unfolding b64_encode.simps Let_def list.pred_inject using s [THEN std_no_newline] by simp
next
  case (3 a)
  note s = sextets(1-4) [OF byte_less byte_less byte_less, of a "CHR 0x00" "CHR 0x00", unfolded zero_byte mult_0 add_0_right]
  have "byte CHR ''='' = 61" by simp
  then show ?case unfolding b64_encode.simps Let_def list.pred_inject using s [THEN std_no_newline] by simp
qed simp

lemma Std_Decode_Encode [simp]: "StdEncoding_DecodeString (StdEncoding_EncodeToString raw) = Some raw"
proof -
  have "filter (\<lambda>c. byte c \<noteq> 10 \<and> byte c \<noteq> 13) (b64_encode std_alphabet raw) = b64_encode std_alphabet raw"
    using b64_encode_no_newline [of raw] by (intro filter_True) (auto simp: list_all_iff)
  then show ?thesis
    unfolding StdEncoding_DecodeString_def StdEncoding_EncodeToString_def by (simp only: b64_quanta_encode)
qed

end
