(* ===== verification/Keyring.thy ===== *)
theory Keyring
  imports Base64
begin

text \<open>
  \<open>api/internal/crypto/crypto.go\<close>: versioned master keys and the encryption of credentials.

  The primitives are an argument, the record \<open>cipher\<close>: HKDF-SHA256 of a master key and an info string (the first 32 bytes of
  its output), and sealing and opening with AES-256-GCM under a key and a nonce.  \<open>gcm_ok\<close> states what their documentation
  promises and the program relies on.  The random nonce is an argument too; \<^const>\<open>None\<close> is a failing random source.
\<close>

record cipher =
  c_hkdf :: "string \<Rightarrow> string \<Rightarrow> string"
  c_seal :: "string \<Rightarrow> string \<Rightarrow> string \<Rightarrow> string"
  c_open :: "string \<Rightarrow> string \<Rightarrow> string \<Rightarrow> string option"

definition gcm_ok :: "cipher \<Rightarrow> bool" where
  "gcm_ok c \<longleftrightarrow>
     (\<forall>k n p. c_open c k n (c_seal c k n p) = Some p) \<and> (\<forall>k n p. length (c_seal c k n p) = length p + 16)"

definition keySize :: nat where "keySize = 32"

definition nonceSize :: nat where "nonceSize = 12"

record Keyring =
  kr_keys :: "int \<rightharpoonup> string"
  kr_currentVersion :: int

datatype KErr = BadKeySize nat | VersionNotGreater int int | UnknownVersion int | NoNonce | TooShort | OpenFailed | NotBase64

definition NewKeyring :: "string \<Rightarrow> KErr + Keyring" where
  "NewKeyring masterKey =
     (if length masterKey \<noteq> keySize then Inl (BadKeySize (length masterKey))
      else Inr \<lparr>kr_keys = [1 \<mapsto> masterKey], kr_currentVersion = 1\<rparr>)"

definition NewKeyringFromBase64 :: "string \<Rightarrow> KErr + Keyring" where
  "NewKeyringFromBase64 b64 =
     (case StdEncoding_DecodeString b64 of
        Some raw \<Rightarrow> NewKeyring raw
      | None \<Rightarrow> (case RawURLEncoding_DecodeString b64 of Some raw \<Rightarrow> NewKeyring raw | None \<Rightarrow> Inl NotBase64))"

definition AddKey :: "Keyring \<Rightarrow> int \<Rightarrow> string \<Rightarrow> KErr + Keyring" where
  "AddKey kr newVersion newKey =
     (if newVersion \<le> kr_currentVersion kr then Inl (VersionNotGreater newVersion (kr_currentVersion kr))
      else if length newKey \<noteq> keySize then Inl (BadKeySize (length newKey))
      else Inr \<lparr>kr_keys = (kr_keys kr)(newVersion \<mapsto> newKey), kr_currentVersion = newVersion\<rparr>)"

definition CurrentVersion :: "Keyring \<Rightarrow> int" where
  "CurrentVersion kr = kr_currentVersion kr"

definition user_info :: "int \<Rightarrow> int \<Rightarrow> string" where
  "user_info userID keyVersion = ''user:'' @ show_int userID @ '':v'' @ show_int keyVersion"

definition deriveUserKey :: "cipher \<Rightarrow> Keyring \<Rightarrow> int \<Rightarrow> int \<Rightarrow> KErr + string" where
  "deriveUserKey c kr userID keyVersion =
     (case kr_keys kr keyVersion of
        None \<Rightarrow> Inl (UnknownVersion keyVersion)
      | Some masterKey \<Rightarrow> Inr (c_hkdf c masterKey (user_info userID keyVersion)))"

definition Encrypt :: "cipher \<Rightarrow> Keyring \<Rightarrow> string option \<Rightarrow> int \<Rightarrow> string \<Rightarrow> KErr + string \<times> int" where
  "Encrypt c kr rand userID plaintext =
     (let keyVersion = kr_currentVersion kr in
      case deriveUserKey c kr userID keyVersion of
        Inl e \<Rightarrow> Inl e
      | Inr userKey \<Rightarrow>
          (case rand of
             None \<Rightarrow> Inl NoNonce
           | Some nonce \<Rightarrow> Inr (nonce @ c_seal c userKey nonce plaintext, keyVersion)))"

definition Decrypt :: "cipher \<Rightarrow> Keyring \<Rightarrow> int \<Rightarrow> int \<Rightarrow> string \<Rightarrow> KErr + string" where
  "Decrypt c kr userID keyVersion ciphertext =
     (if length ciphertext < nonceSize + 16 then Inl TooShort
      else case deriveUserKey c kr userID keyVersion of
        Inl e \<Rightarrow> Inl e
      | Inr userKey \<Rightarrow>
          (case c_open c userKey (take nonceSize ciphertext) (drop nonceSize ciphertext) of
             None \<Rightarrow> Inl OpenFailed
           | Some plaintext \<Rightarrow> Inr plaintext))"

definition GenerateMasterKey :: "string option \<Rightarrow> KErr + string" where
  "GenerateMasterKey rand = (case rand of None \<Rightarrow> Inl NoNonce | Some raw \<Rightarrow> Inr (StdEncoding_EncodeToString raw))"


section \<open>Keyrings\<close>

definition keyring_ok :: "Keyring \<Rightarrow> bool" where
  "keyring_ok kr \<longleftrightarrow> kr_keys kr (kr_currentVersion kr) \<noteq> None \<and> (\<forall>v. kr_keys kr v \<noteq> None \<longrightarrow> v \<le> kr_currentVersion kr)"

lemma NewKeyring_ok: "NewKeyring mk = Inr kr \<Longrightarrow> keyring_ok kr \<and> CurrentVersion kr = 1"
  by (auto simp: NewKeyring_def keyring_ok_def CurrentVersion_def split: if_splits)

lemma AddKey_ok:
  assumes "AddKey kr v key = Inr kr'" "keyring_ok kr"
  shows "keyring_ok kr'" and "CurrentVersion kr' = v" and "CurrentVersion kr < v"
    and "u \<le> CurrentVersion kr \<Longrightarrow> kr_keys kr' u = kr_keys kr u" and "kr_keys kr' v = Some key"
  using assms by (auto simp: AddKey_def keyring_ok_def CurrentVersion_def split: if_splits) (meson le_cases order_trans)

definition nonces_ok :: "string option \<Rightarrow> bool" where
  "nonces_ok rand \<longleftrightarrow> (case rand of None \<Rightarrow> True | Some n \<Rightarrow> length n = nonceSize)"

lemma Encrypt_version: "Encrypt c kr rand u p = Inr (ct, v) \<Longrightarrow> v = CurrentVersion kr"
  by (auto simp: Encrypt_def CurrentVersion_def Let_def split: sum.splits option.splits)

lemma Decrypt_Encrypt:
  assumes "gcm_ok c" "Encrypt c kr rand u p = Inr (ct, v)" "nonces_ok rand" "kr_keys kr' v = kr_keys kr v"
  shows "Decrypt c kr' u v ct = Inr p"
  using assms
  by (auto simp: Encrypt_def Decrypt_def Let_def deriveUserKey_def gcm_ok_def nonces_ok_def split: sum.splits option.splits)

lemma Decrypt_version_only:
  "kr_keys kr v = kr_keys kr' v \<Longrightarrow> Decrypt c kr u v ct = Decrypt c kr' u v ct"
  by (simp add: Decrypt_def deriveUserKey_def)

lemma Encrypt_succeeds:
  assumes "keyring_ok kr" "rand \<noteq> None"
  shows "\<exists>ct. Encrypt c kr rand u p = Inr (ct, CurrentVersion kr)"
  using assms by (auto simp: Encrypt_def deriveUserKey_def keyring_ok_def CurrentVersion_def Let_def)


section \<open>Properties\<close>

text \<open>
  A generated master key can be loaded: the text that \<open>GenerateMasterKey\<close> returns is accepted by
  \<open>NewKeyringFromBase64\<close> and gives the keyring of the same 32 bytes.
\<close>

theorem master_key_roundtrip:
  assumes "length raw = keySize" "GenerateMasterKey (Some raw) = Inr s"
  shows "NewKeyringFromBase64 s = Inr \<lparr>kr_keys = [1 \<mapsto> raw], kr_currentVersion = 1\<rparr>"
  using assms by (auto simp: GenerateMasterKey_def NewKeyringFromBase64_def NewKeyring_def)

theorem master_key_roundtrip_witness:
  "NewKeyringFromBase64 (StdEncoding_EncodeToString (replicate 32 CHR ''k'')) =
   Inr \<lparr>kr_keys = [1 \<mapsto> replicate 32 CHR ''k''], kr_currentVersion = 1\<rparr>"
  by (rule master_key_roundtrip) (simp_all add: keySize_def GenerateMasterKey_def)

end
