(* ===== verification/Cred_Store.thy ===== *)
theory Cred_Store
  imports Keyring "HOL-Library.Monad_Syntax"
begin

text \<open>
  \<open>api/internal/services/sync/postgres_store.go\<close> and \<open>credential_store.go\<close>: the encrypted credentials of external
  services, and \<open>api/cmd/rotate-credentials-key\<close>, the tool that moves them to a new master key.

  The table \<open>user_service_credentials\<close> is a list of rows.  The calls that verify a credential against its service (HTTP)
  are the argument \<open>verify\<close>, an optional error text.  Records of booleans say which statements succeed; a failed
  statement rolls its transaction back.
\<close>

section \<open>The table\<close>

record cred_row =
  cr_id :: int
  cr_user_id :: int
  cr_service :: string
  cr_credential_type :: string
  cr_credentials :: string
  cr_key_version :: int
  cr_expires_at :: "int option"
  cr_last_used_at :: "int option"
  cr_last_verified_at :: "int option"
  cr_is_active :: bool
  cr_created_at :: int
  cr_row_updated_at :: int

record cred_db =
  ct_rows :: "cred_row list"
  ct_next_id :: int

definition is_cred :: "int \<Rightarrow> string \<Rightarrow> cred_row \<Rightarrow> bool" where
  "is_cred userID service r \<longleftrightarrow> cr_user_id r = userID \<and> cr_service r = service"

definition UpsertCredential ::
  "int \<Rightarrow> int \<Rightarrow> string \<Rightarrow> string \<Rightarrow> string \<Rightarrow> int \<Rightarrow> int option \<Rightarrow> cred_db \<Rightarrow> cred_db" where
  "UpsertCredential now userID service ctype ciphertext version expires db =
     (let upd = (\<lambda>r. r\<lparr>cr_credential_type := ctype, cr_credentials := ciphertext, cr_key_version := version,
                       cr_expires_at := expires, cr_is_active := True, cr_row_updated_at := now\<rparr>);
          db1 = db\<lparr>ct_next_id := ct_next_id db + 1\<rparr> in
      if list_ex (is_cred userID service) (ct_rows db)
      then db1\<lparr>ct_rows := map (\<lambda>r. if is_cred userID service r then upd r else r) (ct_rows db)\<rparr>
      else db1\<lparr>ct_rows := ct_rows db @
             [\<lparr>cr_id = ct_next_id db, cr_user_id = userID, cr_service = service, cr_credential_type = ctype,
               cr_credentials = ciphertext, cr_key_version = version, cr_expires_at = expires, cr_last_used_at = None,
               cr_last_verified_at = None, cr_is_active = True, cr_created_at = now, cr_row_updated_at = now\<rparr>]\<rparr>)"

definition GetCredential :: "int \<Rightarrow> string \<Rightarrow> cred_db \<Rightarrow> cred_row option" where
  "GetCredential userID service db = find (\<lambda>r. is_cred userID service r \<and> cr_is_active r) (ct_rows db)"

definition DeleteCredential :: "int \<Rightarrow> string \<Rightarrow> cred_db \<Rightarrow> cred_db \<times> nat" where
  "DeleteCredential userID service db =
     (db\<lparr>ct_rows := filter (\<lambda>r. \<not> is_cred userID service r) (ct_rows db)\<rparr>,
      length (filter (is_cred userID service) (ct_rows db)))"

definition set_verified_at :: "int \<Rightarrow> int option \<Rightarrow> int \<Rightarrow> string \<Rightarrow> cred_db \<Rightarrow> cred_db" where
  "set_verified_at now t userID service db =
     db\<lparr>ct_rows := map (\<lambda>r. if is_cred userID service r
                            then r\<lparr>cr_last_verified_at := t, cr_row_updated_at := now\<rparr> else r) (ct_rows db)\<rparr>"


section \<open>The operations\<close>

datatype SErr = EncryptErr KErr | BeginErr | StatementErr | CommitErr | NoCredentials string | DecryptErr KErr | VerifyErr string

record StoreParams =
  sp_UserID :: int
  sp_Service :: string
  sp_CredentialType :: string
  sp_Plaintext :: string
  sp_SkipVerify :: bool
  sp_ExpiresAt :: "int option"

record StoredCredential =
  sc_Service :: string
  sc_CredentialType :: string
  sc_KeyVersion :: int
  sc_IsActive :: bool
  sc_LastVerifiedAt :: "int option"
  sc_Verified :: bool
  sc_VerificationError :: string
  sc_CreatedAt :: int
  sc_UpdatedAt :: int

record tx_env =
  te_begin :: bool
  te_exec :: bool
  te_commit :: bool

definition tx_error :: "tx_env \<Rightarrow> SErr option" where
  "tx_error e = (if \<not> te_begin e then Some BeginErr else if \<not> te_exec e then Some StatementErr
                 else if \<not> te_commit e then Some CommitErr else None)"

record save_env =
  se_nonce :: "string option"
  se_tx :: tx_env
  se_verified_tx :: tx_env
  se_now :: int
  se_dbnow :: int

definition serviceRequiresVerification :: "string \<Rightarrow> bool" where
  "serviceRequiresVerification service \<longleftrightarrow> service \<in> {''qrz'', ''eqsl'', ''clublog'', ''sota''}"

definition verify_outcome :: "(string \<Rightarrow> string \<Rightarrow> string option) \<Rightarrow> StoreParams \<Rightarrow> bool \<times> string" where
  "verify_outcome verify p =
     (if \<not> sp_SkipVerify p \<and> serviceRequiresVerification (sp_Service p)
      then (case verify (sp_Service p) (sp_Plaintext p) of Some err \<Rightarrow> (False, err) | None \<Rightarrow> (True, []))
      else (sp_SkipVerify p \<or> \<not> serviceRequiresVerification (sp_Service p), []))"

definition updateVerifiedAt :: "tx_env \<Rightarrow> int \<Rightarrow> int \<Rightarrow> string \<Rightarrow> cred_db \<Rightarrow> cred_db \<times> SErr option" where
  "updateVerifiedAt e dbnow userID service db =
     (case tx_error e of Some err \<Rightarrow> (db, Some err) | None \<Rightarrow> (set_verified_at dbnow (Some dbnow) userID service db, None))"

definition clearVerifiedAt :: "tx_env \<Rightarrow> int \<Rightarrow> int \<Rightarrow> string \<Rightarrow> cred_db \<Rightarrow> cred_db \<times> SErr option" where
  "clearVerifiedAt e dbnow userID service db =
     (case tx_error e of Some err \<Rightarrow> (db, Some err) | None \<Rightarrow> (set_verified_at dbnow None userID service db, None))"

definition Save ::
  "cipher \<Rightarrow> Keyring \<Rightarrow> (string \<Rightarrow> string \<Rightarrow> string option) \<Rightarrow> save_env \<Rightarrow> StoreParams \<Rightarrow> cred_db \<Rightarrow>
   cred_db \<times> (SErr + StoredCredential)" where
  "Save c kr verify env p db =
     (case verify_outcome verify p of (verified, verificationErr) \<Rightarrow>
      case Encrypt c kr (se_nonce env) (sp_UserID p) (sp_Plaintext p) of
        Inl e \<Rightarrow> (db, Inl (EncryptErr e))
      | Inr (ciphertext, keyVersion) \<Rightarrow>
          (case tx_error (se_tx env) of
             Some e \<Rightarrow> (db, Inl e)
           | None \<Rightarrow>
               let db1 = UpsertCredential (se_dbnow env) (sp_UserID p) (sp_Service p) (sp_CredentialType p) ciphertext
                           keyVersion (sp_ExpiresAt p) db;
                   row = the (find (is_cred (sp_UserID p) (sp_Service p)) (ct_rows db1));
                   (db2, verr) = (if verified
                                  then updateVerifiedAt (se_verified_tx env) (se_dbnow env) (sp_UserID p) (sp_Service p) db1
                                  else clearVerifiedAt (se_verified_tx env) (se_dbnow env) (sp_UserID p) (sp_Service p) db1);
                   lastVerifiedAt = (if \<not> verified then None
                                     else if verr = None then Some (se_now env) else cr_last_verified_at row) in
               (db2, Inr \<lparr>sc_Service = cr_service row, sc_CredentialType = cr_credential_type row,
                          sc_KeyVersion = cr_key_version row, sc_IsActive = cr_is_active row,
                          sc_LastVerifiedAt = lastVerifiedAt, sc_Verified = verified,
                          sc_VerificationError = verificationErr, sc_CreatedAt = cr_created_at row,
                          sc_UpdatedAt = cr_row_updated_at row\<rparr>)))"

definition Get :: "cipher \<Rightarrow> Keyring \<Rightarrow> tx_env \<Rightarrow> int \<Rightarrow> string \<Rightarrow> cred_db \<Rightarrow> SErr + string" where
  "Get c kr e userID service db =
     (if \<not> te_begin e then Inl BeginErr
      else if \<not> te_exec e then Inl StatementErr
      else case GetCredential userID service db of
        None \<Rightarrow> Inl (NoCredentials service)
      | Some row \<Rightarrow>
          if \<not> te_commit e then Inl CommitErr
          else (case Decrypt c kr userID (cr_key_version row) (cr_credentials row) of
                  Inl err \<Rightarrow> Inl (DecryptErr err)
                | Inr plaintext \<Rightarrow> Inr plaintext))"

definition Delete :: "tx_env \<Rightarrow> int \<Rightarrow> string \<Rightarrow> cred_db \<Rightarrow> cred_db \<times> (SErr + bool)" where
  "Delete e userID service db =
     (case tx_error e of
        Some err \<Rightarrow> (db, Inl err)
      | None \<Rightarrow> (case DeleteCredential userID service db of (db', affected) \<Rightarrow> (db', Inr (0 < affected))))"

definition Verify ::
  "cipher \<Rightarrow> Keyring \<Rightarrow> (string \<Rightarrow> string \<Rightarrow> string option) \<Rightarrow> tx_env \<Rightarrow> tx_env \<Rightarrow> int \<Rightarrow> int \<Rightarrow> string \<Rightarrow> cred_db \<Rightarrow>
   cred_db \<times> SErr option" where
  "Verify c kr verify get_tx upd_tx dbnow userID service db =
     (case Get c kr get_tx userID service db of
        Inl e \<Rightarrow> (db, Some e)
      | Inr plaintext \<Rightarrow>
          (case verify service plaintext of
             Some err \<Rightarrow> (db, Some (VerifyErr err))
           | None \<Rightarrow> (fst (updateVerifiedAt upd_tx dbnow userID service db), None)))"

record CredentialSummary =
  cs_Service :: string
  cs_CredentialType :: string
  cs_KeyVersion :: int
  cs_IsActive :: bool
  cs_LastVerifiedAt :: "int option"
  cs_LastUsedAt :: "int option"
  cs_CreatedAt :: int
  cs_UpdatedAt :: int

text \<open>The collation of the database is taken to be the order of bytes.\<close>

definition cred_List :: "tx_env \<Rightarrow> int \<Rightarrow> cred_db \<Rightarrow> SErr + CredentialSummary list" where
  "cred_List e userID db =
     (case tx_error e of
        Some err \<Rightarrow> Inl err
      | None \<Rightarrow>
          Inr (map (\<lambda>r. \<lparr>cs_Service = cr_service r, cs_CredentialType = cr_credential_type r, cs_KeyVersion = cr_key_version r,
                        cs_IsActive = cr_is_active r, cs_LastVerifiedAt = cr_last_verified_at r,
                        cs_LastUsedAt = cr_last_used_at r, cs_CreatedAt = cr_created_at r,
                        cs_UpdatedAt = cr_row_updated_at r\<rparr>)
                 (sort_key cr_service (filter (\<lambda>r. cr_user_id r = userID \<and> cr_is_active r) (ct_rows db)))))"


section \<open>Key rotation\<close>

text \<open>
  One batch: the rows with an old key version, at most \<open>batchSize\<close> of them, each read with its own version and written with
  the current one.  A row that cannot be decrypted or encrypted is skipped; a failed update aborts the transaction,
  so the later updates and the commit fail too.
\<close>

record rotate_env =
  re_nonce :: "int \<Rightarrow> string option"
  re_update :: "int \<Rightarrow> bool"
  re_begin :: bool
  re_select :: bool
  re_commit :: bool
  re_now :: int

definition rotate_row :: "cipher \<Rightarrow> Keyring \<Rightarrow> rotate_env \<Rightarrow> cred_row \<Rightarrow> cred_row option" where
  "rotate_row c kr env r =
     (case Decrypt c kr (cr_user_id r) (cr_key_version r) (cr_credentials r) of
        Inl _ \<Rightarrow> None
      | Inr plaintext \<Rightarrow>
          (case Encrypt c kr (re_nonce env (cr_id r)) (cr_user_id r) plaintext of
             Inl _ \<Rightarrow> None
           | Inr (newCiphertext, newVersion) \<Rightarrow>
               Some (r\<lparr>cr_credentials := newCiphertext, cr_key_version := newVersion, cr_row_updated_at := re_now env\<rparr>)))"

fun rotate_rows ::
  "cipher \<Rightarrow> Keyring \<Rightarrow> rotate_env \<Rightarrow> cred_row list \<Rightarrow> bool \<times> nat \<times> cred_row list \<Rightarrow> bool \<times> nat \<times> cred_row list" where
  "rotate_rows c kr env [] (aborted, rotated, rows) = (aborted, rotated, rows)"
| "rotate_rows c kr env (r # batch) (aborted, rotated, rows) =
     (case rotate_row c kr env r of
        None \<Rightarrow> rotate_rows c kr env batch (aborted, rotated, rows)
      | Some r' \<Rightarrow>
          if aborted \<or> \<not> re_update env (cr_id r) then rotate_rows c kr env batch (True, rotated, rows)
          else rotate_rows c kr env batch (aborted, rotated + 1, map (\<lambda>x. if cr_id x = cr_id r then r' else x) rows))"

definition outdated :: "int \<Rightarrow> cred_row \<Rightarrow> bool" where
  "outdated currentVersion r \<longleftrightarrow> cr_key_version r < currentVersion"

definition rotateBatch :: "cipher \<Rightarrow> Keyring \<Rightarrow> rotate_env \<Rightarrow> int \<Rightarrow> nat \<Rightarrow> cred_db \<Rightarrow> cred_db \<times> (SErr + nat)" where
  "rotateBatch c kr env currentVersion batchSize db =
     (if \<not> re_begin env then (db, Inl BeginErr)
      else if \<not> re_select env then (db, Inl StatementErr)
      else
        let batch = take batchSize (filter (outdated currentVersion) (ct_rows db)) in
        if batch = [] then (db, Inr 0)
        else case rotate_rows c kr env batch (False, 0, ct_rows db) of
               (aborted, rotated, rows) \<Rightarrow>
                 if aborted \<or> \<not> re_commit env then (db, Inl CommitErr) else (db\<lparr>ct_rows := rows\<rparr>, Inr rotated))"

text \<open>The loop of \<open>RotateKey\<close>; \<open>envs i\<close> is the environment of its \<open>i\<close>-th batch.\<close>

partial_function (option) rotate_loop ::
  "cipher \<Rightarrow> Keyring \<Rightarrow> (nat \<Rightarrow> rotate_env) \<Rightarrow> nat \<Rightarrow> nat \<Rightarrow> nat \<Rightarrow> cred_db \<Rightarrow> (cred_db \<times> nat \<times> SErr option) option" where
  "rotate_loop c kr envs batchSize i count db =
     (case rotateBatch c kr (envs i) (CurrentVersion kr) batchSize db of
        (db', Inl e) \<Rightarrow> Some (db', count, Some e)
      | (db', Inr n) \<Rightarrow>
          if n < batchSize then Some (db', count + n, None)
          else rotate_loop c kr envs batchSize (i + 1) (count + n) db')"

definition RotateKey ::
  "cipher \<Rightarrow> Keyring \<Rightarrow> (nat \<Rightarrow> rotate_env) \<Rightarrow> int \<Rightarrow> cred_db \<Rightarrow> (cred_db \<times> nat \<times> SErr option) option" where
  "RotateKey c kr envs batchSize db = rotate_loop c kr envs (nat (if batchSize \<le> 0 then 50 else batchSize)) 0 0 db"

text \<open>\<open>run\<close> of \<open>rotate-credentials-key\<close>, from the two keys on; \<open>Inl\<close> is an error before the database is touched.\<close>

definition rotate_tool ::
  "cipher \<Rightarrow> string \<Rightarrow> string \<Rightarrow> (nat \<Rightarrow> rotate_env) \<Rightarrow> int \<Rightarrow> cred_db \<Rightarrow> KErr + (cred_db \<times> nat \<times> SErr option) option" where
  "rotate_tool c masterKey newKeyB64 envs batchSize db =
     (case NewKeyringFromBase64 masterKey of
        Inl e \<Rightarrow> Inl e
      | Inr current \<Rightarrow>
          (case (case StdEncoding_DecodeString newKeyB64 of
                   Some raw \<Rightarrow> Some raw | None \<Rightarrow> RawURLEncoding_DecodeString newKeyB64) of
             None \<Rightarrow> Inl NotBase64
           | Some newRaw \<Rightarrow>
               (case AddKey current (CurrentVersion current + 1) newRaw of
                  Inl e \<Rightarrow> Inl e
                | Inr current' \<Rightarrow> Inr (RotateKey c current' envs batchSize db))))"

end
