(* ===== verification/Cred_Rotation.thy ===== *)
theory Cred_Rotation
  imports Cred_Store
begin

text \<open>
  The key rotation of the credential store: it ends, it keeps every credential readable under its keyring, it is complete when nothing
  fails, and what it leaves behind when a row cannot be read or the server restarts with the new key alone.
\<close>

section \<open>Rows\<close>

definition cred_ok :: "cred_db \<Rightarrow> bool" where
  "cred_ok db \<longleftrightarrow>
     distinct (map cr_id (ct_rows db)) \<and> distinct (map (\<lambda>r. (cr_user_id r, cr_service r)) (ct_rows db)) \<and>
     (\<forall>r \<in> set (ct_rows db). cr_id r < ct_next_id db)"

definition row_plain :: "cipher \<Rightarrow> Keyring \<Rightarrow> cred_row \<Rightarrow> KErr + string" where
  "row_plain c kr r = Decrypt c kr (cr_user_id r) (cr_key_version r) (cr_credentials r)"

definition same_key :: "cred_row \<Rightarrow> cred_row \<Rightarrow> bool" where
  "same_key r r' \<longleftrightarrow>
     cr_id r' = cr_id r \<and> cr_user_id r' = cr_user_id r \<and> cr_service r' = cr_service r \<and> cr_is_active r' = cr_is_active r"

definition same_cred :: "cipher \<Rightarrow> Keyring \<Rightarrow> cred_row \<Rightarrow> cred_row \<Rightarrow> bool" where
  "same_cred c kr r r' \<longleftrightarrow> same_key r r' \<and> row_plain c kr r' = row_plain c kr r"

lemma same_key_refl [simp]: "same_key r r"
  by (simp add: same_key_def)

lemma same_key_trans: "same_key r s \<Longrightarrow> same_key s t \<Longrightarrow> same_key r t"
  by (simp add: same_key_def)

lemma same_cred_refl [simp]: "same_cred c kr r r"
  by (simp add: same_cred_def)

lemma same_cred_trans: "same_cred c kr r s \<Longrightarrow> same_cred c kr s t \<Longrightarrow> same_cred c kr r t"
  by (auto simp: same_cred_def intro: same_key_trans)

lemma same_key_list_trans: "list_all2 same_key xs ys \<Longrightarrow> list_all2 same_key ys zs \<Longrightarrow> list_all2 same_key xs zs"
  by (rule list_all2_trans [OF same_key_trans])

lemma same_cred_list_trans:
  "list_all2 (same_cred c kr) xs ys \<Longrightarrow> list_all2 (same_cred c kr) ys zs \<Longrightarrow> list_all2 (same_cred c kr) xs zs"
  by (rule list_all2_trans [OF same_cred_trans])

lemma same_keys:
  assumes "list_all2 same_key rows rows'"
  shows "map cr_id rows' = map cr_id rows"
    and "map (\<lambda>r. (cr_user_id r, cr_service r)) rows' = map (\<lambda>r. (cr_user_id r, cr_service r)) rows"
  using assms by (induction rows rows' rule: list_all2_induct) (simp_all add: same_key_def)

lemma cred_ok_maps:
  assumes "map cr_id (ct_rows db') = map cr_id (ct_rows db)"
    and "map (\<lambda>r. (cr_user_id r, cr_service r)) (ct_rows db') = map (\<lambda>r. (cr_user_id r, cr_service r)) (ct_rows db)"
    and "ct_next_id db \<le> ct_next_id db'" "cred_ok db"
  shows "cred_ok db'"
proof -
  have "\<forall>i \<in> set (map cr_id (ct_rows db)). i < ct_next_id db'" using assms(3,4) by (auto simp: cred_ok_def)
  then have "\<forall>i \<in> set (map cr_id (ct_rows db')). i < ct_next_id db'" by (simp only: assms(1))
  then have "\<forall>r \<in> set (ct_rows db'). cr_id r < ct_next_id db'" by simp
  then show ?thesis using assms unfolding cred_ok_def by simp
qed

lemma cred_ok_keys:
  "list_all2 same_key (ct_rows db) (ct_rows db') \<Longrightarrow> ct_next_id db \<le> ct_next_id db' \<Longrightarrow> cred_ok db \<Longrightarrow> cred_ok db'"
  using cred_ok_maps same_keys by blast

lemma same_cred_keys: "list_all2 (same_cred c kr) rows rows' \<Longrightarrow> list_all2 same_key rows rows'"
  by (erule list_all2_mono) (simp add: same_cred_def)

definition tx_ok :: tx_env where "tx_ok = \<lparr>te_begin = True, te_exec = True, te_commit = True\<rparr>"

lemma GetCredential_user: "GetCredential u s db = Some r \<Longrightarrow> cr_user_id r = u \<and> cr_service r = s \<and> cr_is_active r"
  by (auto simp: GetCredential_def find_Some_iff is_cred_def)

lemma Get_alt:
  "Get c kr tx_ok u s db =
     (case GetCredential u s db of None \<Rightarrow> Inl (NoCredentials s)
      | Some r \<Rightarrow> (case row_plain c kr r of Inl e \<Rightarrow> Inl (DecryptErr e) | Inr p \<Rightarrow> Inr p))"
  by (auto simp: Get_def tx_ok_def row_plain_def dest: GetCredential_user split: option.splits sum.splits)

lemma find_same:
  assumes "list_all2 (same_cred c kr) rows rows'"
  shows "rel_option (same_cred c kr) (find (\<lambda>r. is_cred u s r \<and> cr_is_active r) rows)
           (find (\<lambda>r. is_cred u s r \<and> cr_is_active r) rows')"
  using assms by (induction rows rows' rule: list_all2_induct) (auto simp: same_cred_def same_key_def is_cred_def)

lemma Get_same:
  assumes "list_all2 (same_cred c kr) (ct_rows db) (ct_rows db')"
  shows "Get c kr tx_ok u s db' = Get c kr tx_ok u s db"
  using find_same [OF assms, of u s]
  by (auto simp: Get_alt GetCredential_def same_cred_def elim!: option.rel_cases split: option.splits sum.splits)


section \<open>One batch\<close>

lemma rotate_row_Some:
  assumes "rotate_row c kr env r = Some r'"
  shows "same_key r r'" "\<not> outdated (CurrentVersion kr) r'"
    and "gcm_ok c \<Longrightarrow> nonces_ok (re_nonce env (cr_id r)) \<Longrightarrow> same_cred c kr r r'"
proof -
  obtain p ct v where *: "row_plain c kr r = Inr p" "Encrypt c kr (re_nonce env (cr_id r)) (cr_user_id r) p = Inr (ct, v)"
      "r' = r\<lparr>cr_credentials := ct, cr_key_version := v, cr_row_updated_at := re_now env\<rparr>"
    using assms by (auto simp: rotate_row_def row_plain_def split: sum.splits)
  have v: "v = CurrentVersion kr" by (rule Encrypt_version [OF *(2)])
  show "same_key r r'" "\<not> outdated (CurrentVersion kr) r'" using * v by (simp_all add: outdated_def same_key_def)
  show "same_cred c kr r r'" if "gcm_ok c" "nonces_ok (re_nonce env (cr_id r))"
    using Decrypt_Encrypt [OF that(1) *(2) that(2) refl] * by (simp add: same_cred_def same_key_def row_plain_def)
qed

definition replace_row :: "cred_row \<Rightarrow> cred_row \<Rightarrow> cred_row list \<Rightarrow> cred_row list" where
  "replace_row r r' rows = map (\<lambda>x. if cr_id x = cr_id r then r' else x) rows"

lemma replace_notin: "cr_id r \<notin> cr_id ` set rows \<Longrightarrow> replace_row r r' rows = rows"
  by (induction rows) (auto simp: replace_row_def)

lemma count_replace:
  "distinct (map cr_id rows) \<Longrightarrow> r \<in> set rows \<Longrightarrow> P r \<Longrightarrow> \<not> P r' \<Longrightarrow>
   Suc (length (filter P (replace_row r r' rows))) = length (filter P rows)"
proof (induction rows)
  case (Cons x rows)
  show ?case
  proof (cases "x = r")
    case True
    with Cons.prems have "cr_id r \<notin> cr_id ` set rows" by auto
    then have "map (\<lambda>x. if cr_id x = cr_id r then r' else x) rows = rows" using replace_notin by (simp add: replace_row_def)
    with Cons.prems True show ?thesis by (simp add: replace_row_def)
  next
    case False
    with Cons.prems have "cr_id x \<noteq> cr_id r" by auto
    with Cons False show ?thesis by (auto simp: replace_row_def)
  qed
qed simp

lemma in_replace: "x \<in> set rows \<Longrightarrow> cr_id x \<noteq> cr_id r \<Longrightarrow> x \<in> set (replace_row r r' rows)"
  by (force simp: replace_row_def image_iff)

lemma replace_rel:
  assumes "distinct (map cr_id rows)" "r \<in> set rows" "R r r'" "\<And>x. R x x"
  shows "list_all2 R rows (replace_row r r' rows)"
proof -
  have "R x (if cr_id x = cr_id r then r' else x)" if "x \<in> set rows" for x
  proof (cases "cr_id x = cr_id r")
    case True
    then have "x = r" using assms(1,2) that by (auto simp: distinct_map inj_on_def)
    with assms(3) show ?thesis by simp
  qed (simp add: assms(4))
  then show ?thesis unfolding replace_row_def list_all2_map2 by (intro list.rel_refl_strong)
qed

definition nonces_all :: "rotate_env \<Rightarrow> bool" where
  "nonces_all env \<longleftrightarrow> (\<forall>i. nonces_ok (re_nonce env i))"

lemma rotate_rows_spec:
  assumes "rotate_rows c kr env batch (ab, n, rows) = (ab', n', rows')"
    and "distinct (map cr_id rows)" "set batch \<subseteq> set rows" "distinct (map cr_id batch)"
    and "\<forall>r \<in> set batch. outdated (CurrentVersion kr) r"
  shows "list_all2 same_key rows rows' \<and>
         length (filter (outdated (CurrentVersion kr)) rows') + n' = length (filter (outdated (CurrentVersion kr)) rows) + n \<and>
         n \<le> n' \<and> n' \<le> n + length (filter (\<lambda>r. rotate_row c kr env r \<noteq> None) batch) \<and>
         (gcm_ok c \<and> nonces_all env \<longrightarrow> list_all2 (same_cred c kr) rows rows') \<and>
         (\<forall>r \<in> set rows. r \<notin> set batch \<longrightarrow> r \<in> set rows')"
  using assms
proof (induction batch arbitrary: ab n rows)
  case (Cons r batch)
  let ?P = "outdated (CurrentVersion kr)"
  show ?case
  proof (cases "rotate_row c kr env r")
    case None
    then show ?thesis using Cons.IH [of ab n rows] Cons.prems by auto
  next
    case (Some r')
    note r' = rotate_row_Some [OF Some]
    show ?thesis
    proof (cases "ab \<or> \<not> re_update env (cr_id r)")
      case True
      then show ?thesis using Cons.IH [of True n rows] Cons.prems Some by auto
    next
      case False
      let ?rows = "replace_row r r' rows"
      have run: "rotate_rows c kr env batch (ab, n + 1, ?rows) = (ab', n', rows')"
        using Cons.prems(1) Some False by (simp add: replace_row_def)
      have r: "r \<in> set rows" "?P r" using Cons.prems by auto
      have keys: "list_all2 same_key rows ?rows" by (rule replace_rel [OF Cons.prems(2) r(1) r'(1) same_key_refl])
      note ids = same_keys(1) [OF keys]
      have other: "cr_id x \<noteq> cr_id r" if "x \<in> set batch" for x using Cons.prems(4) that by (auto simp: image_iff)
      then have sub: "set batch \<subseteq> set ?rows" using Cons.prems(3) in_replace by auto
      have "distinct (map cr_id ?rows)" "distinct (map cr_id batch)" "\<forall>r \<in> set batch. ?P r"
        using Cons.prems ids by auto
      note ih = Cons.IH [OF run this(1) sub this(2,3)]
      have cnt: "Suc (length (filter ?P ?rows)) = length (filter ?P rows)"
        using count_replace [OF Cons.prems(2) r(1), of ?P r'] r(2) r'(2) by simp
      have same: "list_all2 (same_cred c kr) rows ?rows" if "gcm_ok c" "nonces_all env"
        using replace_rel [OF Cons.prems(2) r(1) r'(3) same_cred_refl] that by (simp add: nonces_all_def)
      have keep: "x \<in> set ?rows" if "x \<in> set rows" "x \<noteq> r" for x
        using in_replace [OF that(1)] that Cons.prems(2) r(1) by (auto simp: distinct_map inj_on_def)
      have "list_all2 (same_cred c kr) rows rows'" if "gcm_ok c" "nonces_all env"
        using same_cred_list_trans [OF same [OF that]] ih that by blast
      moreover have "list_all2 same_key rows rows'"
        using same_key_list_trans [OF keys] ih by blast
      ultimately show ?thesis using ih cnt keep Some by auto
    qed
  qed
qed (auto intro: list.rel_refl)

lemma rotateBatch_spec:
  assumes "rotateBatch c kr env (CurrentVersion kr) bs db = (db', Inr n)" "cred_ok db"
  shows "cred_ok db' \<and>
    n \<le> length (filter (\<lambda>r. rotate_row c kr env r \<noteq> None) (take bs (filter (outdated (CurrentVersion kr)) (ct_rows db)))) \<and>
    length (filter (outdated (CurrentVersion kr)) (ct_rows db')) + n = length (filter (outdated (CurrentVersion kr)) (ct_rows db)) \<and>
    (gcm_ok c \<and> nonces_all env \<longrightarrow> list_all2 (same_cred c kr) (ct_rows db) (ct_rows db')) \<and>
    set (drop bs (filter (outdated (CurrentVersion kr)) (ct_rows db))) \<subseteq> set (ct_rows db')"
proof (cases "take bs (filter (outdated (CurrentVersion kr)) (ct_rows db)) = []")
  case True
  then show ?thesis
    using assms by (auto simp: rotateBatch_def list.rel_refl dest: in_set_dropD split: if_splits)
next
  case False
  let ?F = "filter (outdated (CurrentVersion kr)) (ct_rows db)"
  obtain rows where run: "rotate_rows c kr env (take bs ?F) (False, 0, ct_rows db) = (False, n, rows)"
      and db': "db' = db\<lparr>ct_rows := rows\<rparr>"
    using assms(1) False by (auto simp: rotateBatch_def Let_def split: if_splits prod.splits)
  have d: "distinct (map cr_id ?F)" "distinct (map cr_id (ct_rows db))" using assms(2) by (auto simp: cred_ok_def distinct_map_filter)
  then have dt: "distinct (map cr_id (take bs ?F))" by (simp add: take_map [symmetric])
  have sub: "set (take bs ?F) \<subseteq> set (ct_rows db)" "\<forall>r \<in> set (take bs ?F). outdated (CurrentVersion kr) r"
    by (auto dest: in_set_takeD)
  note s = rotate_rows_spec [OF run d(2) sub(1) dt sub(2)]
  have disj: "set (take bs ?F) \<inter> set (drop bs ?F) = {}"
    using d(1) by (intro set_take_disj_set_drop_if_distinct) (auto simp: distinct_map)
  have "set (drop bs ?F) \<subseteq> set rows"
  proof
    fix x assume "x \<in> set (drop bs ?F)"
    moreover from this have "x \<in> set (ct_rows db)" by (auto dest: in_set_dropD)
    ultimately show "x \<in> set rows" using s disj by blast
  qed
  moreover have "cred_ok db'"
    using cred_ok_keys [of db db'] s assms(2) unfolding db' by simp
  ultimately show ?thesis using s unfolding db' by simp
qed

lemma rotateBatch_error: "rotateBatch c kr env v bs db = (db', Inl e) \<Longrightarrow> db' = db"
  by (auto simp: rotateBatch_def Let_def split: if_splits prod.splits)


section \<open>The loop\<close>

definition old_rows :: "Keyring \<Rightarrow> cred_db \<Rightarrow> cred_row list" where
  "old_rows kr db = filter (outdated (CurrentVersion kr)) (ct_rows db)"

text \<open>Every full batch leaves fewer outdated rows, which bounds the number of batches.\<close>

lemma rotate_loop_returns:
  assumes "0 < bs" "cred_ok db"
  shows "\<exists>db' n err. rotate_loop c kr envs bs i count db = Some (db', n, err) \<and> cred_ok db' \<and>
    n + length (old_rows kr db') = count + length (old_rows kr db) \<and>
    (gcm_ok c \<and> (\<forall>j. nonces_all (envs j)) \<longrightarrow> list_all2 (same_cred c kr) (ct_rows db) (ct_rows db'))"
  using assms(2)
proof (induction "length (old_rows kr db)" arbitrary: db i count rule: less_induct)
  case less
  obtain db1 res where b: "rotateBatch c kr (envs i) (CurrentVersion kr) bs db = (db1, res)" by fastforce
  show ?case
  proof (cases res)
    case (Inl e)
    then have "rotate_loop c kr envs bs i count db = Some (db, count, Some e)"
      using b rotateBatch_error by (subst rotate_loop.simps) fastforce
    then show ?thesis using less.prems by (auto intro: list.rel_refl)
  next
    case (Inr n)
    note s = rotateBatch_spec [OF b [unfolded Inr] less.prems]
    show ?thesis
    proof (cases "n < bs")
      case True
      then have "rotate_loop c kr envs bs i count db = Some (db1, count + n, None)"
        using b Inr by (subst rotate_loop.simps) simp
      then show ?thesis using s by (auto simp: old_rows_def)
    next
      case False
      have run: "rotate_loop c kr envs bs i count db = rotate_loop c kr envs bs (i + 1) (count + n) db1"
        using b Inr False by (subst rotate_loop.simps) simp
      have len: "length (old_rows kr db1) + n = length (old_rows kr db)" using s by (simp add: old_rows_def)
      with False assms(1) have "length (old_rows kr db1) < length (old_rows kr db)" by simp
      from less.hyps [OF this, of "i + 1" "count + n"] s obtain db' m err where
        "rotate_loop c kr envs bs (i + 1) (count + n) db1 = Some (db', m, err)" "cred_ok db'"
        "m + length (old_rows kr db') = count + n + length (old_rows kr db1)"
        "gcm_ok c \<and> (\<forall>j. nonces_all (envs j)) \<longrightarrow> list_all2 (same_cred c kr) (ct_rows db1) (ct_rows db')"
        by blast
      with run len s show ?thesis using same_cred_list_trans by auto
    qed
  qed
qed

text \<open>When nothing fails every outdated row is rotated.\<close>

definition smooth :: "rotate_env \<Rightarrow> bool" where
  "smooth env \<longleftrightarrow> re_begin env \<and> re_select env \<and> re_commit env \<and> (\<forall>i. re_update env i) \<and>
     (\<forall>i. \<exists>n. re_nonce env i = Some n \<and> length n = nonceSize)"

definition readable :: "cipher \<Rightarrow> Keyring \<Rightarrow> cred_db \<Rightarrow> bool" where
  "readable c kr db \<longleftrightarrow> (\<forall>r \<in> set (ct_rows db). \<exists>p. row_plain c kr r = Inr p)"

lemma smooth_nonces:
  assumes "smooth env"
  shows "nonces_all env"
  unfolding nonces_all_def
proof
  fix i
  obtain n where "re_nonce env i = Some n" "length n = nonceSize" using assms unfolding smooth_def by blast
  then show "nonces_ok (re_nonce env i)" by (simp add: nonces_ok_def)
qed

lemma rotate_row_smooth:
  assumes "keyring_ok kr" "smooth env" "row_plain c kr r = Inr p"
  shows "rotate_row c kr env r \<noteq> None"
proof -
  have "re_nonce env (cr_id r) \<noteq> None" using assms(2) unfolding smooth_def by (metis option.distinct(1))
  then obtain ct where "Encrypt c kr (re_nonce env (cr_id r)) (cr_user_id r) p = Inr (ct, CurrentVersion kr)"
    using Encrypt_succeeds [OF assms(1)] by blast
  then show ?thesis using assms(3) by (simp add: rotate_row_def row_plain_def)
qed

lemma rotate_rows_smooth:
  assumes "\<forall>r \<in> set batch. rotate_row c kr env r \<noteq> None" "smooth env"
  shows "\<exists>rows'. rotate_rows c kr env batch (False, n, rows) = (False, n + length batch, rows')"
  using assms
proof (induction batch arbitrary: n rows)
  case (Cons r batch)
  then obtain r' where r': "rotate_row c kr env r = Some r'" by auto
  moreover have "re_update env (cr_id r)" using Cons.prems by (simp add: smooth_def)
  ultimately have "rotate_rows c kr env (r # batch) (False, n, rows) =
      rotate_rows c kr env batch (False, n + 1, map (\<lambda>x. if cr_id x = cr_id r then r' else x) rows)"
    by simp
  moreover have "\<exists>rows'. rotate_rows c kr env batch (False, n + 1, map (\<lambda>x. if cr_id x = cr_id r then r' else x) rows) =
      (False, n + 1 + length batch, rows')"
    using Cons.prems by (intro Cons.IH) simp_all
  ultimately show ?case by auto
qed simp

lemma rotateBatch_smooth:
  assumes "keyring_ok kr" "smooth env" "readable c kr db"
  shows "\<exists>db'. rotateBatch c kr env (CurrentVersion kr) bs db = (db', Inr (length (take bs (old_rows kr db))))"
proof (cases "take bs (old_rows kr db) = []")
  case True
  then show ?thesis using assms(2) by (auto simp: rotateBatch_def old_rows_def smooth_def)
next
  case False
  have "\<forall>r \<in> set (take bs (old_rows kr db)). rotate_row c kr env r \<noteq> None"
  proof
    fix r assume "r \<in> set (take bs (old_rows kr db))"
    then have "r \<in> set (ct_rows db)" unfolding old_rows_def by (meson filter_is_subset in_set_takeD subsetD)
    then show "rotate_row c kr env r \<noteq> None" using assms rotate_row_smooth by (auto simp: readable_def)
  qed
  from rotate_rows_smooth [OF this assms(2), of 0 "ct_rows db"]
  obtain rows where "rotate_rows c kr env (take bs (old_rows kr db)) (False, 0, ct_rows db) =
      (False, length (take bs (old_rows kr db)), rows)"
    by auto
  with False assms(2) show ?thesis by (auto simp: rotateBatch_def old_rows_def smooth_def Let_def)
qed

lemma readable_same:
  assumes "list_all2 (same_cred c kr) (ct_rows db) (ct_rows db')" "readable c kr db"
  shows "readable c kr db'"
proof -
  have "\<forall>r' \<in> set (ct_rows db'). \<exists>r \<in> set (ct_rows db). same_cred c kr r r'"
    using assms(1) by (metis in_set_conv_nth list_all2_conv_all_nth)
  with assms(2) show ?thesis unfolding readable_def same_cred_def by metis
qed

lemma rotate_loop_smooth:
  assumes "0 < bs" "gcm_ok c" "keyring_ok kr" "\<forall>j. smooth (envs j)" "cred_ok db" "readable c kr db"
  shows "\<exists>db'. rotate_loop c kr envs bs i count db = Some (db', count + length (old_rows kr db), None) \<and> old_rows kr db' = []"
  using assms(5,6)
proof (induction "length (old_rows kr db)" arbitrary: db i count rule: less_induct)
  case less
  let ?n = "length (take bs (old_rows kr db))"
  obtain db1 where b: "rotateBatch c kr (envs i) (CurrentVersion kr) bs db = (db1, Inr ?n)"
    using rotateBatch_smooth assms less.prems by blast
  note s = rotateBatch_spec [OF b less.prems(1)]
  have len: "length (old_rows kr db1) + ?n = length (old_rows kr db)" using s by (simp add: old_rows_def)
  show ?case
  proof (cases "?n < bs")
    case True
    then have "?n = length (old_rows kr db)" by simp
    with True have "length (old_rows kr db) < bs" "rotateBatch c kr (envs i) (CurrentVersion kr) bs db = (db1, Inr (length (old_rows kr db)))"
      using b by simp_all
    then have "rotate_loop c kr envs bs i count db = Some (db1, count + length (old_rows kr db), None)"
      by (subst rotate_loop.simps) simp
    with len \<open>?n = length (old_rows kr db)\<close> show ?thesis by simp
  next
    case False
    then have n: "?n = bs" by simp
    have run: "rotate_loop c kr envs bs i count db = rotate_loop c kr envs bs (i + 1) (count + ?n) db1"
      using b False by (subst rotate_loop.simps) simp
    have "readable c kr db1" using readable_same less.prems(2) s assms(2,4) smooth_nonces by blast
    moreover have "length (old_rows kr db1) < length (old_rows kr db)" using len n assms(1) by simp
    ultimately obtain db' where "rotate_loop c kr envs bs (i + 1) (count + ?n) db1 =
        Some (db', count + ?n + length (old_rows kr db1), None)" "old_rows kr db' = []"
      using less.hyps s by blast
    then show ?thesis using run len by (auto simp: algebra_simps)
  qed
qed


section \<open>Facts on keyrings and batches\<close>

lemma NewKeyringFromBase64_Inr:
  assumes "NewKeyringFromBase64 s = Inr kr"
  obtains raw where "kr = \<lparr>kr_keys = [1 \<mapsto> raw], kr_currentVersion = 1\<rparr>" "length raw = keySize"
    "(case StdEncoding_DecodeString s of Some raw \<Rightarrow> Some raw | None \<Rightarrow> RawURLEncoding_DecodeString s) = Some raw"
  using assms by (auto simp: NewKeyringFromBase64_def NewKeyring_def split: option.splits if_splits)

lemma known_version: "row_plain c kr r = Inr p \<Longrightarrow> kr_keys kr (cr_key_version r) \<noteq> None"
  by (auto simp: row_plain_def Decrypt_def deriveUserKey_def split: if_splits option.splits sum.splits)

lemma rotate_rows_not_aborted:
  "rotate_rows c kr env batch (False, n, rows) = (ab, n', rows') \<Longrightarrow> smooth env \<Longrightarrow> \<not> ab"
proof (induction batch arbitrary: n rows)
  case (Cons r batch)
  then show ?case by (auto simp: smooth_def split: option.splits)
qed simp

section \<open>Properties\<close>

definition batch_size :: "int \<Rightarrow> nat" where
  "batch_size batchSize = nat (if batchSize \<le> 0 then 50 else batchSize)"

lemma batch_size_pos: "0 < batch_size b"
  by (simp add: batch_size_def)

lemma RotateKey_loop: "RotateKey c kr envs batchSize db = rotate_loop c kr envs (batch_size batchSize) 0 0 db"
  by (simp add: RotateKey_def batch_size_def)

lemma RotateKey_done:
  assumes "gcm_ok c" "keyring_ok kr" "\<forall>j. smooth (envs j)" "cred_ok db" "readable c kr db"
  shows "\<exists>db'. RotateKey c kr envs batchSize db = Some (db', length (old_rows kr db), None) \<and> old_rows kr db' = []"
  using rotate_loop_smooth [OF batch_size_pos [of batchSize] assms, of 0 0] unfolding RotateKey_loop by simp

text \<open>
  C17. Key rotation ends and loses nothing.  Whatever the batch size, the failures of statements and the rows, \<open>RotateKey\<close> returns; it
  has rotated exactly as many rows as are no longer outdated; and with a correct cipher every credential has the same plaintext
  afterwards, read with the same keyring, also when the rotation stops with an error.
\<close>

theorem RotateKey_returns:
  assumes "cred_ok db"
  shows "\<exists>db' n err. RotateKey c kr envs batchSize db = Some (db', n, err) \<and> cred_ok db' \<and>
           n + length (old_rows kr db') = length (old_rows kr db) \<and>
           (gcm_ok c \<and> (\<forall>j. nonces_all (envs j)) \<longrightarrow>
              (\<forall>u s. Get c kr tx_ok u s db' = Get c kr tx_ok u s db))"
  using rotate_loop_returns [OF batch_size_pos [of batchSize] assms, of c kr envs 0 0] Get_same
  unfolding RotateKey_loop by fastforce

definition plain_cipher :: cipher where
  "plain_cipher = \<lparr>c_hkdf = \<lambda>mk info. mk, c_seal = \<lambda>k n p. p @ replicate 16 CHR ''0'', c_open = \<lambda>k n s. Some (take (length s - 16) s)\<rparr>"

definition key_of :: "char \<Rightarrow> string" where "key_of ch = replicate 32 ch"

definition two_keys :: Keyring where
  "two_keys = \<lparr>kr_keys = [1 \<mapsto> key_of CHR ''a'', 2 \<mapsto> key_of CHR ''b''], kr_currentVersion = 2\<rparr>"

definition cred_sample :: "int \<Rightarrow> string \<Rightarrow> string \<Rightarrow> cred_row" where
  "cred_sample i service ct =
     \<lparr>cr_id = i, cr_user_id = 7, cr_service = service, cr_credential_type = ''api_key'', cr_credentials = ct, cr_key_version = 1,
      cr_expires_at = None, cr_last_used_at = None, cr_last_verified_at = None, cr_is_active = True, cr_created_at = 0,
      cr_row_updated_at = 0\<rparr>"

definition stored :: "string \<Rightarrow> string" where
  "stored p = replicate 12 CHR ''n'' @ p @ replicate 16 CHR ''0''"

definition sample_creds :: cred_db where
  "sample_creds = \<lparr>ct_rows = [cred_sample 1 ''qrz'' (stored ''secret''), cred_sample 2 ''eqsl'' (stored ''other'')], ct_next_id = 3\<rparr>"

definition smooth_env :: "nat \<Rightarrow> rotate_env" where
  "smooth_env j = \<lparr>re_nonce = \<lambda>i. Some (replicate 12 CHR ''m''), re_update = \<lambda>i. True, re_begin = True, re_select = True,
                   re_commit = True, re_now = 9\<rparr>"

lemma sample_facts:
  "gcm_ok plain_cipher" "cred_ok sample_creds" "smooth (smooth_env j)" "nonces_all (smooth_env j)" "keyring_ok two_keys"
  by (auto simp: gcm_ok_def plain_cipher_def cred_ok_def sample_creds_def cred_sample_def smooth_def smooth_env_def
      nonces_all_def nonces_ok_def nonceSize_def keyring_ok_def two_keys_def)

theorem RotateKey_returns_witness:
  "\<exists>db' n err. RotateKey plain_cipher two_keys smooth_env 1 sample_creds = Some (db', n, err) \<and>
     Get plain_cipher two_keys tx_ok 7 ''qrz'' db' = Inr ''secret''"
proof -
  have "Get plain_cipher two_keys tx_ok 7 ''qrz'' sample_creds = Inr ''secret''" by code_simp
  then show ?thesis
    using RotateKey_returns [OF sample_facts(2), of plain_cipher two_keys smooth_env 1] sample_facts by auto
qed


lemma sample_readable: "readable plain_cipher two_keys sample_creds"
proof -
  have "list_all (\<lambda>r. \<not> isl (row_plain plain_cipher two_keys r)) (ct_rows sample_creds)" by code_simp
  then show ?thesis unfolding readable_def list_all_iff by (metis sum.collapse(2))
qed


text \<open>
  A row that cannot be read stops the rotation.  When one of the rows of the first batch is skipped, \<open>RotateKey\<close> ends after
  that batch and reports no error, and every outdated row after the first batch keeps its old key version, however many
  there are.
\<close>

theorem RotateKey_stops_at_unreadable:
  assumes "cred_ok db" "r \<in> set (take (batch_size batchSize) (old_rows kr db))" "row_plain c kr r = Inl e"
    and "smooth (envs 0)"
  shows "\<exists>db' n. RotateKey c kr envs batchSize db = Some (db', n, None) \<and> n < batch_size batchSize \<and>
           set (drop (batch_size batchSize) (old_rows kr db)) \<subseteq> set (old_rows kr db')"
proof -
  let ?bs = "batch_size batchSize"
  let ?T = "take ?bs (old_rows kr db)"
  let ?ok = "\<lambda>r. rotate_row c kr (envs 0) r \<noteq> None"
  have bad: "\<not> ?ok r" using assms(3) by (simp add: rotate_row_def row_plain_def)
  have "length (filter ?ok ?T) < length ?T" using assms(2) bad by (intro length_filter_less) auto
  then have lt: "length (filter ?ok ?T) < ?bs" by simp
  obtain ab n rows where run: "rotate_rows c kr (envs 0) ?T (False, 0, ct_rows db) = (ab, n, rows)" by (metis prod_cases3)
  have "\<not> ab" using rotate_rows_not_aborted [OF run assms(4)] by simp
  then have b: "rotateBatch c kr (envs 0) (CurrentVersion kr) ?bs db = (db\<lparr>ct_rows := rows\<rparr>, Inr n)"
    using run assms(2,4) by (auto simp: rotateBatch_def old_rows_def smooth_def Let_def)
  note s = rotateBatch_spec [OF b assms(1)]
  have n: "n < ?bs" using s lt by (simp add: old_rows_def)
  then have "RotateKey c kr envs batchSize db = Some (db\<lparr>ct_rows := rows\<rparr>, n, None)"
    unfolding RotateKey_loop using b by (subst rotate_loop.simps) simp
  moreover have "set (drop ?bs (old_rows kr db)) \<subseteq> set (old_rows kr (db\<lparr>ct_rows := rows\<rparr>))"
    using s by (auto simp: old_rows_def dest: in_set_dropD)
  ultimately show ?thesis using n by blast
qed

definition damaged_creds :: cred_db where
  "damaged_creds = \<lparr>ct_rows = [cred_sample 1 ''qrz'' ''damaged'', cred_sample 2 ''eqsl'' (stored ''other'')], ct_next_id = 3\<rparr>"

theorem RotateKey_stops_at_unreadable_witness:
  "\<exists>db'. RotateKey plain_cipher two_keys smooth_env 1 damaged_creds = Some (db', 0, None) \<and>
     cred_sample 2 ''eqsl'' (stored ''other'') \<in> set (old_rows two_keys db')"
proof -
  have ok: "cred_ok damaged_creds" by (simp add: cred_ok_def damaged_creds_def cred_sample_def)
  have bs: "batch_size 1 = 1" by (simp add: batch_size_def)
  have old: "old_rows two_keys damaged_creds = [cred_sample 1 ''qrz'' ''damaged'', cred_sample 2 ''eqsl'' (stored ''other'')]"
    by (simp add: old_rows_def damaged_creds_def cred_sample_def outdated_def two_keys_def CurrentVersion_def)
  have "row_plain plain_cipher two_keys (cred_sample 1 ''qrz'' ''damaged'') = Inl TooShort" by code_simp
  from RotateKey_stops_at_unreadable [OF ok _ this sample_facts(3), of 1] show ?thesis unfolding bs old by auto
qed

text \<open>
  C37. Rotation with the command line tool.  The tool re-encrypts all credentials under key version 2; the keyring it built still reads
  them.  A server that is then restarted with the new master key, as the tool asks, knows that key as version 1 only: it
  answers every request for a stored credential with an unknown key version.
\<close>

theorem rotation_breaks_restart:
  assumes "gcm_ok c" "cred_ok db" "\<forall>j. smooth (envs j)"
    and "NewKeyringFromBase64 oldKey = Inr kr1" "readable c kr1 db" "NewKeyringFromBase64 newKey = Inr kr2"
    and "GetCredential u s db \<noteq> None"
  shows "\<exists>db' n. rotate_tool c oldKey newKey envs batchSize db = Inr (Some (db', n, None)) \<and>
           n = length (ct_rows db) \<and> Get c kr2 tx_ok u s db' = Inl (DecryptErr (UnknownVersion 2))"
proof -
  obtain mk where kr1: "kr1 = \<lparr>kr_keys = [1 \<mapsto> mk], kr_currentVersion = 1\<rparr>" "length mk = keySize"
    by (rule NewKeyringFromBase64_Inr [OF assms(4)])
  obtain nk where kr2: "kr2 = \<lparr>kr_keys = [1 \<mapsto> nk], kr_currentVersion = 1\<rparr>" "length nk = keySize"
      "(case StdEncoding_DecodeString newKey of Some raw \<Rightarrow> Some raw | None \<Rightarrow> RawURLEncoding_DecodeString newKey) = Some nk"
    by (rule NewKeyringFromBase64_Inr [OF assms(6)])
  let ?kr = "\<lparr>kr_keys = [1 \<mapsto> mk, 2 \<mapsto> nk], kr_currentVersion = 2\<rparr>"
  have kr_ok: "keyring_ok ?kr" by (auto simp: keyring_ok_def)
  have tool: "rotate_tool c oldKey newKey envs batchSize db = Inr (RotateKey c ?kr envs batchSize db)"
    using assms(4) kr1 kr2 by (simp add: rotate_tool_def AddKey_def CurrentVersion_def)
  have v1: "cr_key_version r = 1" if "r \<in> set (ct_rows db)" for r
    using assms(5) that known_version [of c kr1 r] by (fastforce simp: readable_def kr1 split: if_splits)
  have "row_plain c ?kr r = row_plain c kr1 r" if "r \<in> set (ct_rows db)" for r
    unfolding row_plain_def using v1 [OF that] by (intro Decrypt_version_only) (simp add: kr1)
  then have rd: "readable c ?kr db" using assms(5) by (simp add: readable_def)
  have old: "old_rows ?kr db = ct_rows db" unfolding old_rows_def using v1 by (simp add: filter_id_conv outdated_def CurrentVersion_def)
  obtain db' where db': "RotateKey c ?kr envs batchSize db = Some (db', length (ct_rows db), None)" "old_rows ?kr db' = []"
    using RotateKey_done [OF assms(1) kr_ok assms(3,2) rd, of batchSize] unfolding old by blast
  have same: "list_all2 (same_cred c ?kr) (ct_rows db) (ct_rows db')"
    using rotate_loop_returns [OF batch_size_pos [of batchSize] assms(2), of c ?kr envs 0 0] db'(1) assms(1,3) smooth_nonces
    unfolding RotateKey_loop by auto
  obtain r where r: "GetCredential u s db' = Some r"
    using find_same [OF same, of u s] assms(7) by (auto simp: GetCredential_def elim: option.rel_cases)
  have "r \<in> set (ct_rows db')" using r by (auto simp: GetCredential_def find_Some_iff)
  moreover from this obtain p where p: "row_plain c ?kr r = Inr p"
    using readable_same [OF same rd] by (auto simp: readable_def)
  ultimately have v2: "cr_key_version r = 2"
    using known_version [OF p] db'(2) by (auto simp: old_rows_def filter_empty_conv outdated_def CurrentVersion_def split: if_splits)
  have "row_plain c kr2 r = Inl (UnknownVersion 2)"
    using p v2 unfolding row_plain_def by (auto simp: Decrypt_def deriveUserKey_def kr2 split: if_splits)
  then show ?thesis using tool db'(1) r by (simp add: Get_alt)
qed

theorem rotation_breaks_restart_witness:
  "\<exists>db' n. rotate_tool plain_cipher (StdEncoding_EncodeToString (key_of CHR ''a'')) (StdEncoding_EncodeToString (key_of CHR ''b''))
       smooth_env 100 sample_creds = Inr (Some (db', n, None)) \<and>
     Get plain_cipher \<lparr>kr_keys = [1 \<mapsto> key_of CHR ''b''], kr_currentVersion = 1\<rparr> tx_ok 7 ''qrz'' db' = Inl (DecryptErr (UnknownVersion 2))"
proof -
  have k: "NewKeyringFromBase64 (StdEncoding_EncodeToString (key_of ch)) = Inr \<lparr>kr_keys = [1 \<mapsto> key_of ch], kr_currentVersion = 1\<rparr>" for ch
    by (simp add: NewKeyringFromBase64_def NewKeyring_def key_of_def keySize_def)
  have "list_all (\<lambda>r. \<not> isl (row_plain plain_cipher \<lparr>kr_keys = [1 \<mapsto> key_of CHR ''a''], kr_currentVersion = 1\<rparr> r)) (ct_rows sample_creds)"
    by code_simp
  then have rd: "readable plain_cipher \<lparr>kr_keys = [1 \<mapsto> key_of CHR ''a''], kr_currentVersion = 1\<rparr> sample_creds"
    unfolding readable_def list_all_iff by (metis sum.collapse(2))
  have "GetCredential 7 ''qrz'' sample_creds \<noteq> None"
    by (simp add: GetCredential_def sample_creds_def cred_sample_def is_cred_def)
  from rotation_breaks_restart [OF sample_facts(1,2) _ k rd k this] sample_facts(3) show ?thesis by blast
qed

end
