(* ===== verification/Cred_Contract.thy ===== *)
theory Cred_Contract
  imports Cred_Rotation
begin

text \<open>
  The interface \<open>CredentialStore\<close> as a contract: the store behaves as a map from a user and a service to a plaintext.  The locale
  states the laws of the single operations, the lemma on histories follows once, and the PostgreSQL store
  is the interpretation.
\<close>

datatype ('e, 'd, 'm) cred_op =
  OpSave 'e int string string
| OpDelete 'd int string
| OpMaintain 'm

type_synonym cred_map = "int \<Rightarrow> string \<Rightarrow> string option"

definition map_set :: "int \<Rightarrow> string \<Rightarrow> string option \<Rightarrow> cred_map \<Rightarrow> cred_map" where
  "map_set u s v m = (\<lambda>u' s'. if u' = u \<and> s' = s then v else m u' s')"

fun spec_op :: "('e, 'd, 'm) cred_op \<Rightarrow> bool \<Rightarrow> cred_map \<Rightarrow> cred_map" where
  "spec_op (OpSave e u s p) ok m = (if ok then map_set u s (Some p) m else m)"
| "spec_op (OpDelete d u s) ok m = (if ok then map_set u s None m else m)"
| "spec_op (OpMaintain x) ok m = m"

fun spec_ops :: "(('e, 'd, 'm) cred_op \<times> bool) list \<Rightarrow> cred_map \<Rightarrow> cred_map" where
  "spec_ops [] m = m"
| "spec_ops ((op, ok) # h) m = spec_ops h (spec_op op ok m)"

locale credential_store =
  fixes inv :: "'s \<Rightarrow> bool"
    and get :: "'s \<Rightarrow> cred_map"
    and save :: "'e \<Rightarrow> int \<Rightarrow> string \<Rightarrow> string \<Rightarrow> 's \<Rightarrow> 's \<times> bool"
    and delete :: "'d \<Rightarrow> int \<Rightarrow> string \<Rightarrow> 's \<Rightarrow> 's \<times> bool"
    and maintain :: "'m \<Rightarrow> 's \<Rightarrow> 's \<times> bool"
    and env_ok :: "'e \<Rightarrow> bool" and maint_ok :: "'m \<Rightarrow> bool"
  assumes save_law: "inv s \<Longrightarrow> env_ok e \<Longrightarrow> save e u sv p s = (s', ok) \<Longrightarrow>
      inv s' \<and> get s' = (if ok then map_set u sv (Some p) (get s) else get s)"
    and delete_law: "inv s \<Longrightarrow> delete d u sv s = (s', ok) \<Longrightarrow>
      inv s' \<and> get s' = (if ok then map_set u sv None (get s) else get s)"
    and maintain_law: "inv s \<Longrightarrow> maint_ok m \<Longrightarrow> maintain m s = (s', ok) \<Longrightarrow> inv s' \<and> get s' = get s"
begin

fun exec_op :: "('e, 'd, 'm) cred_op \<Rightarrow> 's \<Rightarrow> 's \<times> bool" where
  "exec_op (OpSave e u sv p) s = save e u sv p s"
| "exec_op (OpDelete d u sv) s = delete d u sv s"
| "exec_op (OpMaintain m) s = maintain m s"

fun op_ok :: "('e, 'd, 'm) cred_op \<Rightarrow> bool" where
  "op_ok (OpSave e u sv p) = env_ok e"
| "op_ok (OpDelete d u sv) = True"
| "op_ok (OpMaintain m) = maint_ok m"

fun history :: "('e, 'd, 'm) cred_op list \<Rightarrow> 's \<Rightarrow> (('e, 'd, 'm) cred_op \<times> bool) list \<times> 's" where
  "history [] s = ([], s)"
| "history (op # ops) s =
     (case exec_op op s of (s', ok) \<Rightarrow> case history ops s' of (h, s'') \<Rightarrow> ((op, ok) # h, s''))"

lemma exec_op_law:
  "inv s \<Longrightarrow> op_ok op \<Longrightarrow> exec_op op s = (s', ok) \<Longrightarrow> inv s' \<and> get s' = spec_op op ok (get s)"
proof (cases op)
  case (OpSave e u sv p)
  then show "inv s \<Longrightarrow> op_ok op \<Longrightarrow> exec_op op s = (s', ok) \<Longrightarrow> ?thesis" using save_law [of s e u sv p s' ok] by simp
next
  case (OpDelete d u sv)
  then show "inv s \<Longrightarrow> op_ok op \<Longrightarrow> exec_op op s = (s', ok) \<Longrightarrow> ?thesis" using delete_law [of s d u sv s' ok] by simp
next
  case (OpMaintain m)
  then show "inv s \<Longrightarrow> op_ok op \<Longrightarrow> exec_op op s = (s', ok) \<Longrightarrow> ?thesis" using maintain_law [of s m s' ok] by simp
qed

lemma history_law:
  "inv s \<Longrightarrow> list_all op_ok ops \<Longrightarrow> history ops s = (h, s') \<Longrightarrow>
   inv s' \<and> get s' = spec_ops h (get s) \<and> map fst h = ops"
proof (induction ops arbitrary: s h)
  case (Cons op ops)
  obtain s1 ok where e: "exec_op op s = (s1, ok)" by fastforce
  obtain h' where h: "history ops s1 = (h', s')" "h = (op, ok) # h'"
    using Cons.prems(3) e by (auto split: prod.splits)
  have "inv s1 \<and> get s1 = spec_op op ok (get s)" using exec_op_law Cons.prems e by auto
  with Cons.IH [of s1 h'] Cons.prems h show ?case by auto
qed simp

end


section \<open>The PostgreSQL store\<close>

record pg_env =
  pe_verify :: "string \<Rightarrow> string \<Rightarrow> string option"
  pe_env :: save_env
  pe_type :: string
  pe_skip :: bool
  pe_expires :: "int option"

definition pg_save :: "cipher \<Rightarrow> Keyring \<Rightarrow> pg_env \<Rightarrow> int \<Rightarrow> string \<Rightarrow> string \<Rightarrow> cred_db \<Rightarrow> cred_db \<times> bool" where
  "pg_save c kr e u s p db =
     (case Save c kr (pe_verify e) (pe_env e)
             \<lparr>sp_UserID = u, sp_Service = s, sp_CredentialType = pe_type e, sp_Plaintext = p, sp_SkipVerify = pe_skip e,
              sp_ExpiresAt = pe_expires e\<rparr> db of
        (db', r) \<Rightarrow> (db', \<not> isl r))"

definition pg_delete :: "tx_env \<Rightarrow> int \<Rightarrow> string \<Rightarrow> cred_db \<Rightarrow> cred_db \<times> bool" where
  "pg_delete e u s db = (case Delete e u s db of (db', r) \<Rightarrow> (db', \<not> isl r))"

datatype maintenance =
  DoVerify "string \<Rightarrow> string \<Rightarrow> string option" tx_env tx_env int int string
| DoRotate "nat \<Rightarrow> rotate_env" int

fun pg_maintain :: "cipher \<Rightarrow> Keyring \<Rightarrow> maintenance \<Rightarrow> cred_db \<Rightarrow> cred_db \<times> bool" where
  "pg_maintain c kr (DoVerify verify t1 t2 now u s) db = (case Verify c kr verify t1 t2 now u s db of (db', r) \<Rightarrow> (db', r = None))"
| "pg_maintain c kr (DoRotate envs bs) db =
     (case RotateKey c kr envs bs db of None \<Rightarrow> (db, False) | Some (db', n, err) \<Rightarrow> (db', err = None))"

definition pg_get :: "cipher \<Rightarrow> Keyring \<Rightarrow> cred_db \<Rightarrow> cred_map" where
  "pg_get c kr db u s = (case Get c kr tx_ok u s db of Inl _ \<Rightarrow> None | Inr p \<Rightarrow> Some p)"

definition pg_inv :: "cipher \<Rightarrow> cred_db \<Rightarrow> bool" where
  "pg_inv c db \<longleftrightarrow> gcm_ok c \<and> cred_ok db"

definition pg_env_ok :: "pg_env \<Rightarrow> bool" where
  "pg_env_ok e = nonces_ok (se_nonce (pe_env e))"

fun maint_env_ok :: "maintenance \<Rightarrow> bool" where
  "maint_env_ok (DoVerify verify t1 t2 now u s) = True"
| "maint_env_ok (DoRotate envs bs) = (\<forall>j. nonces_all (envs j))"

lemma pg_get_alt:
  "pg_get c kr db u s =
     (case GetCredential u s db of None \<Rightarrow> None | Some r \<Rightarrow> (case row_plain c kr r of Inl _ \<Rightarrow> None | Inr p \<Rightarrow> Some p))"
  by (simp add: pg_get_def Get_alt split: option.splits sum.splits)

lemma pg_get_same: "list_all2 (same_cred c kr) (ct_rows db) (ct_rows db') \<Longrightarrow> pg_get c kr db' = pg_get c kr db"
  by (intro ext) (simp add: pg_get_def Get_same)

lemma set_verified_keeps:
  "list_all2 (same_cred c kr) (ct_rows db) (ct_rows (set_verified_at now t u s db))"
  by (simp add: set_verified_at_def list_all2_map2 list.rel_refl_strong same_cred_def same_key_def row_plain_def)

lemma same_cred_keeps:
  assumes "list_all2 (same_cred c kr) (ct_rows db) (ct_rows db')" "ct_next_id db' = ct_next_id db" "cred_ok db"
  shows "cred_ok db' \<and> pg_get c kr db' = pg_get c kr db"
  using cred_ok_keys [OF same_cred_keys [OF assms(1)]] assms pg_get_same by simp

lemma set_verified_ok:
  "cred_ok db \<Longrightarrow> cred_ok (set_verified_at now t u s db) \<and> pg_get c kr (set_verified_at now t u s db) = pg_get c kr db"
  by (rule same_cred_keeps [OF set_verified_keeps]) (simp_all add: set_verified_at_def)

lemma verified_keeps:
  assumes "cred_ok db"
  shows "cred_ok (fst (updateVerifiedAt e now u s db)) \<and> pg_get c kr (fst (updateVerifiedAt e now u s db)) = pg_get c kr db"
    and "cred_ok (fst (clearVerifiedAt e now u s db)) \<and> pg_get c kr (fst (clearVerifiedAt e now u s db)) = pg_get c kr db"
  using assms set_verified_ok [OF assms]
  by (auto simp: updateVerifiedAt_def clearVerifiedAt_def split: option.splits)

definition upsert_row_update :: "int \<Rightarrow> string \<Rightarrow> string \<Rightarrow> int \<Rightarrow> int option \<Rightarrow> cred_row \<Rightarrow> cred_row" where
  "upsert_row_update now ctype ct v ex r =
     r\<lparr>cr_credential_type := ctype, cr_credentials := ct, cr_key_version := v, cr_expires_at := ex, cr_is_active := True,
       cr_row_updated_at := now\<rparr>"

lemma is_cred_upsert [simp]: "is_cred u s (upsert_row_update now ctype ct v ex r) = is_cred u s r"
  by (simp add: is_cred_def upsert_row_update_def)

lemma is_cred_fun: "is_cred u s r \<Longrightarrow> is_cred u' s' r \<longleftrightarrow> u' = u \<and> s' = s"
  by (auto simp: is_cred_def)

lemma find_upsert:
  "find (\<lambda>r. is_cred u' s' r \<and> cr_is_active r) (map (\<lambda>r. if is_cred u s r then upsert_row_update now ctype ct v ex r else r) rows) =
   (if u' = u \<and> s' = s then map_option (upsert_row_update now ctype ct v ex) (find (is_cred u s) rows)
    else find (\<lambda>r. is_cred u' s' r \<and> cr_is_active r) rows)"
  by (induction rows) (auto simp: is_cred_fun, auto simp: upsert_row_update_def is_cred_def)

lemma find_snoc: "find P (xs @ [x]) = (case find P xs of Some y \<Rightarrow> Some y | None \<Rightarrow> if P x then Some x else None)"
  by (induction xs) auto

lemma find_not_cred: "\<not> list_ex (is_cred u s) rows \<Longrightarrow> find (\<lambda>r. is_cred u s r \<and> cr_is_active r) rows = None"
  by (auto simp: find_None_iff list_ex_iff)

lemma UpsertCredential_Get:
  fixes now u s ctype ct v ex
  assumes "cred_ok db"
  defines "db' \<equiv> UpsertCredential now u s ctype ct v ex db"
  shows "cred_ok db'"
    and "\<exists>r. GetCredential u s db' = Some r \<and> cr_user_id r = u \<and> cr_credentials r = ct \<and> cr_key_version r = v"
    and "u' \<noteq> u \<or> s' \<noteq> s \<Longrightarrow> GetCredential u' s' db' = GetCredential u' s' db"
proof -
  let ?f = "upsert_row_update now ctype ct v ex"
  have "cred_ok db' \<and> (\<exists>r. GetCredential u s db' = Some r \<and> cr_user_id r = u \<and> cr_credentials r = ct \<and> cr_key_version r = v) \<and>
    (u' \<noteq> u \<or> s' \<noteq> s \<longrightarrow> GetCredential u' s' db' = GetCredential u' s' db)"
  proof (cases "list_ex (is_cred u s) (ct_rows db)")
    case True
    then have db': "db' = \<lparr>ct_rows = map (\<lambda>r. if is_cred u s r then ?f r else r) (ct_rows db), ct_next_id = ct_next_id db + 1\<rparr>"
      by (simp add: db'_def UpsertCredential_def upsert_row_update_def)
    have "cred_ok db'"
      by (rule cred_ok_maps [OF _ _ _ assms(1)]) (simp_all add: db' upsert_row_update_def)
    moreover obtain r where r: "find (is_cred u s) (ct_rows db) = Some r"
      using True by (cases "find (is_cred u s) (ct_rows db)") (auto simp: find_None_iff list_ex_iff)
    moreover from this have "is_cred u s r" by (auto simp: find_Some_iff)
    ultimately show ?thesis
      unfolding db' GetCredential_def by (simp add: find_upsert) (simp add: upsert_row_update_def is_cred_def)
  next
    case False
    then obtain r where "db' = db\<lparr>ct_next_id := ct_next_id db + 1, ct_rows := ct_rows db @ [r]\<rparr>"
      and r: "cr_id r = ct_next_id db" "cr_user_id r = u" "cr_service r = s" "cr_credentials r = ct" "cr_key_version r = v" "cr_is_active r"
      unfolding db'_def UpsertCredential_def Let_def by (simp del: cred_db.update_convs)
    then have db': "db' = \<lparr>ct_rows = ct_rows db @ [r], ct_next_id = ct_next_id db + 1\<rparr>" by simp
    have "cred_ok db'"
      using assms(1) r False by (auto simp: db' cred_ok_def list_ex_iff is_cred_def)
    with find_not_cred [OF False] r show ?thesis
      unfolding db' GetCredential_def by (auto simp: find_snoc is_cred_def split: option.splits)
  qed
  then show "cred_ok db'"
    and "\<exists>r. GetCredential u s db' = Some r \<and> cr_user_id r = u \<and> cr_credentials r = ct \<and> cr_key_version r = v"
    and "u' \<noteq> u \<or> s' \<noteq> s \<Longrightarrow> GetCredential u' s' db' = GetCredential u' s' db"
    by blast+
qed

lemma Save_stored:
  assumes "Encrypt c kr (se_nonce env) (sp_UserID p) (sp_Plaintext p) = Inr (ct, v)" "tx_error (se_tx env) = None"
  shows "\<exists>b row. Save c kr verify env p db =
    (fst ((if b then updateVerifiedAt else clearVerifiedAt) (se_verified_tx env) (se_dbnow env) (sp_UserID p) (sp_Service p)
       (UpsertCredential (se_dbnow env) (sp_UserID p) (sp_Service p) (sp_CredentialType p) ct v (sp_ExpiresAt p) db)), Inr row)"
proof -
  obtain b err where "verify_outcome verify p = (b, err)" by fastforce
  with assms show ?thesis
    by (cases b) (force simp: Save_def Let_def split: prod.splits)+
qed

lemma pg_save_law:
  assumes "pg_inv c db" "pg_env_ok e" "pg_save c kr e u s p db = (db', ok)"
  shows "pg_inv c db' \<and> pg_get c kr db' = (if ok then map_set u s (Some p) (pg_get c kr db) else pg_get c kr db)"
proof (cases "Encrypt c kr (se_nonce (pe_env e)) u p")
  case (Inl err)
  then show ?thesis using assms by (auto simp: pg_save_def Save_def split: prod.splits)
next
  case (Inr x)
  obtain ct v where x: "x = (ct, v)" by fastforce
  show ?thesis
  proof (cases "tx_error (se_tx (pe_env e))")
    case (Some err)
    then show ?thesis using assms Inr x by (auto simp: pg_save_def Save_def split: prod.splits)
  next
    case None
    let ?db1 = "UpsertCredential (se_dbnow (pe_env e)) u s (pe_type e) ct v (pe_expires e) db"
    have db: "cred_ok db" and gcm: "gcm_ok c" using assms(1) by (simp_all add: pg_inv_def)
    let ?f = "\<lambda>b. if b then updateVerifiedAt else clearVerifiedAt"
    obtain b where "ok" "db' = fst (?f b (se_verified_tx (pe_env e)) (se_dbnow (pe_env e)) u s ?db1)"
      using assms(3) Inr x None
        Save_stored [of c kr "pe_env e" "\<lparr>sp_UserID = u, sp_Service = s, sp_CredentialType = pe_type e, sp_Plaintext = p,
          sp_SkipVerify = pe_skip e, sp_ExpiresAt = pe_expires e\<rparr>" ct v "pe_verify e" db]
      by (auto simp: pg_save_def)
    then have "ok \<and> cred_ok db' \<and> pg_get c kr db' = pg_get c kr ?db1"
      using verified_keeps [OF UpsertCredential_Get(1) [OF db], of "se_verified_tx (pe_env e)" "se_dbnow (pe_env e)" u s
          "se_dbnow (pe_env e)" u s "pe_type e" ct v "pe_expires e" c kr] by auto
    moreover have "Decrypt c kr u v ct = Inr p"
      using Decrypt_Encrypt [OF gcm Inr [unfolded x]] assms(2) by (simp add: pg_env_ok_def)
    then have "pg_get c kr ?db1 = map_set u s (Some p) (pg_get c kr db)"
      using UpsertCredential_Get(2) [OF db, of u s "se_dbnow (pe_env e)" "pe_type e" ct v "pe_expires e"]
        UpsertCredential_Get(3) [OF db, of _ u _ s "se_dbnow (pe_env e)" "pe_type e" ct v "pe_expires e"]
      by (intro ext) (auto simp: pg_get_alt map_set_def row_plain_def)
    ultimately show ?thesis using gcm by (simp add: pg_inv_def)
  qed
qed

lemma find_filter_not:
  "find (\<lambda>r. is_cred u' s' r \<and> cr_is_active r) (filter (\<lambda>r. \<not> is_cred u s r) rows) =
   (if u' = u \<and> s' = s then None else find (\<lambda>r. is_cred u' s' r \<and> cr_is_active r) rows)"
  by (induction rows) (auto simp: is_cred_def)

lemma cred_ok_filter: "cred_ok db \<Longrightarrow> cred_ok (db\<lparr>ct_rows := filter P (ct_rows db)\<rparr>)"
  by (simp add: cred_ok_def distinct_map_filter)

lemma pg_delete_law:
  assumes "pg_inv c db" "pg_delete e u s db = (db', ok)"
  shows "pg_inv c db' \<and> pg_get c kr db' = (if ok then map_set u s None (pg_get c kr db) else pg_get c kr db)"
proof (cases "tx_error e")
  case None
  then have "db' = db\<lparr>ct_rows := filter (\<lambda>r. \<not> is_cred u s r) (ct_rows db)\<rparr>" "ok"
    using assms(2) by (auto simp: pg_delete_def Delete_def DeleteCredential_def)
  then show ?thesis
    using assms(1) cred_ok_filter by (auto simp: pg_inv_def pg_get_alt GetCredential_def find_filter_not map_set_def fun_eq_iff)
qed (use assms in \<open>simp add: pg_delete_def Delete_def\<close>)

lemma pg_maintain_law:
  assumes "pg_inv c db" "maint_env_ok m" "pg_maintain c kr m db = (db', ok)"
  shows "pg_inv c db' \<and> pg_get c kr db' = pg_get c kr db"
proof (cases m)
  case (DoVerify verify t1 t2 now u s)
  then show ?thesis
    using assms verified_keeps(1) [of db t2 now u s c kr]
    by (auto simp: pg_inv_def Verify_def split: sum.splits option.splits)
next
  case (DoRotate envs bs)
  then obtain n err where "RotateKey c kr envs bs db = Some (db', n, err)" "cred_ok db'"
      "list_all2 (same_cred c kr) (ct_rows db) (ct_rows db')"
    using rotate_loop_returns [OF batch_size_pos [of bs], of db c kr envs 0 0] assms
    by (auto simp: RotateKey_loop pg_inv_def)
  then show ?thesis using assms(1) pg_get_same by (simp add: pg_inv_def)
qed

interpretation pg: credential_store "pg_inv c" "pg_get c kr" "pg_save c kr" pg_delete "pg_maintain c kr" pg_env_ok maint_env_ok
  for c kr
  using pg_save_law pg_delete_law pg_maintain_law by unfold_locales blast+

definition pg_run :: "cipher \<Rightarrow> Keyring \<Rightarrow> (pg_env, tx_env, maintenance) cred_op list \<Rightarrow> cred_db \<Rightarrow>
    ((pg_env, tx_env, maintenance) cred_op \<times> bool) list \<times> cred_db" where
  "pg_run = pg.history"

definition pg_ops_ok :: "(pg_env, tx_env, maintenance) cred_op list \<Rightarrow> bool" where
  "pg_ops_ok ops = list_all pg.op_ok ops"

text \<open>
  C15. The credential store is a map from users and services to plaintexts.  After any sequence of \<open>Save\<close>, \<open>Delete\<close>,
  \<open>Verify\<close> and \<open>RotateKey\<close>, whatever of them failed, \<open>Get\<close> returns exactly what the map gives that records the saves and
  deletes that reported success: a failed operation, a verification and a rotation change no plaintext, and no operation reaches the
  credentials of another user or service.
\<close>

theorem credential_store_refines_map:
  assumes "gcm_ok c" "cred_ok db" "pg_ops_ok ops" "pg_run c kr ops db = (h, db')"
  shows "cred_ok db' \<and> map fst h = ops \<and> pg_get c kr db' = spec_ops h (pg_get c kr db)"
  using pg.history_law [of c db ops kr h db'] assms by (auto simp: pg_run_def pg_ops_ok_def pg_inv_def)

definition sample_save :: pg_env where
  "sample_save =
     \<lparr>pe_verify = \<lambda>s p. None,
      pe_env = \<lparr>se_nonce = Some (replicate 12 CHR ''n''), se_tx = tx_ok, se_verified_tx = tx_ok, se_now = 1, se_dbnow = 1\<rparr>,
      pe_type = ''api_key'', pe_skip = False, pe_expires = None\<rparr>"

theorem credential_store_refines_map_witness:
  "\<exists>h db'. pg_run plain_cipher two_keys [OpSave sample_save 7 ''qrz'' ''new'', OpMaintain (DoRotate smooth_env 1), OpDelete tx_ok 7 ''eqsl'']
       sample_creds = (h, db') \<and>
     pg_get plain_cipher two_keys db' = spec_ops h (pg_get plain_cipher two_keys sample_creds)"
proof -
  let ?ops = "[OpSave sample_save 7 ''qrz'' ''new'', OpMaintain (DoRotate smooth_env 1), OpDelete tx_ok 7 ''eqsl'']"
  have "pg_ops_ok ?ops"
    using sample_facts(4) by (simp add: pg_ops_ok_def pg_env_ok_def sample_save_def nonces_ok_def nonceSize_def)
  moreover obtain h db' where "pg_run plain_cipher two_keys ?ops sample_creds = (h, db')" by fastforce
  ultimately show ?thesis
    using credential_store_refines_map [OF sample_facts(1,2), of ?ops two_keys h db'] by blast
qed

end
