(* ===== verification/Go_Time.thy ===== *)
theory Go_Time
  imports Go_Float
begin

text \<open>
  The part of Go's \<open>time\<close> and \<open>fmt\<close> packages that the sync workers use: dates of the proleptic Gregorian calendar in UTC, the
  layouts \<open>20060102\<close>, \<open>1504\<close> and \<open>150405\<close> for formatting, \<open>20060102\<close> and \<open>200601021504\<close> for parsing, and \<open>%.6f\<close>.

  A time is the number of microseconds since 1970-01-01 00:00 UTC, the resolution of the database.
\<close>

section \<open>The calendar\<close>

definition leap :: "int \<Rightarrow> bool" where
  "leap y \<longleftrightarrow> y mod 4 = 0 \<and> (y mod 100 \<noteq> 0 \<or> y mod 400 = 0)"

definition month_lengths :: "int \<Rightarrow> int list" where
  "month_lengths y = [31, if leap y then 29 else 28, 31, 30, 31, 30, 31, 31, 30, 31, 30, 31]"

definition year_length :: "int \<Rightarrow> int" where
  "year_length y = (if leap y then 366 else 365)"

text \<open>Days from 0001-01-01 to the first day of a year; 1970-01-01 is day 719162.\<close>

definition days_before_year :: "int \<Rightarrow> int" where
  "days_before_year y = 365 * (y - 1) + (y - 1) div 4 - (y - 1) div 100 + (y - 1) div 400"

definition epoch_days :: int where "epoch_days = 719162"

definition days_from_civil :: "int \<times> nat \<times> int \<Rightarrow> int" where
  "days_from_civil ymd =
     (case ymd of (y, m, d) \<Rightarrow> days_before_year y + sum_list (take (m - 1) (month_lengths y)) + (d - 1) - epoch_days)"

fun month_scan :: "nat \<Rightarrow> int list \<Rightarrow> int \<Rightarrow> nat \<times> int" where
  "month_scan m [] yday = (m, yday + 1)"
| "month_scan m (l # ls) yday = (if yday < l then (m, yday + 1) else month_scan (m + 1) ls (yday - l))"

definition year_day :: "int \<Rightarrow> int \<times> int" where
  "year_day n =
     (let d = n + epoch_days; n400 = d div 146097; r = d mod 146097;
          n100 = min 3 (r div 36524); r1 = r - 36524 * n100;
          n4 = r1 div 1461; r2 = r1 mod 1461;
          n1 = min 3 (r2 div 365) in
      (400 * n400 + 100 * n100 + 4 * n4 + n1 + 1, r2 - 365 * n1))"

definition civil_from_days :: "int \<Rightarrow> int \<times> nat \<times> int" where
  "civil_from_days n = (case year_day n of (y, yday) \<Rightarrow> case month_scan 1 (month_lengths y) yday of (m, d) \<Rightarrow> (y, m, d))"

definition valid_civil :: "int \<times> nat \<times> int \<Rightarrow> bool" where
  "valid_civil ymd \<longleftrightarrow>
     (case ymd of (y, m, d) \<Rightarrow> 1 \<le> m \<and> m \<le> 12 \<and> 1 \<le> d \<and> d \<le> month_lengths y ! (m - 1))"

lemma year_day_split:
  assumes "year_day n = (y, yd)"
  shows "n + epoch_days = days_before_year y + yd" and "0 \<le> yd" and "yd < year_length y"
proof -
  define d where "d = n + epoch_days"
  define a where "a = d div 146097"
  define r where "r = d mod 146097"
  define b where "b = min 3 (r div 36524)"
  define r1 where "r1 = r - 36524 * b"
  define c where "c = r1 div 1461"
  define r2 where "r2 = r1 mod 1461"
  define e where "e = min 3 (r2 div 365)"
  have "year_day n = (400 * a + 100 * b + 4 * c + e + 1, r2 - 365 * e)"
    by (simp only: year_day_def Let_def d_def a_def r_def b_def r1_def c_def r2_def e_def)
  with assms have y: "y = 400 * a + 100 * b + 4 * c + e + 1" and yd: "yd = r2 - 365 * e" by (simp_all only: prod.inject)
  have d: "d = 146097 * a + r" "0 \<le> r" "r < 146097" by (simp_all add: a_def r_def)
  have cut: "0 \<le> min 3 (x div k) \<and> 0 \<le> x - k * min 3 (x div k) \<and> x - k * min 3 (x div k) \<le> k \<and>
      (min 3 (x div k) < 3 \<longrightarrow> x - k * min 3 (x div k) < k)" if "0 \<le> x" "x \<le> 4 * k" "0 < k" for x k :: int
  proof (cases "x div k \<le> 3")
    case True
    then have "min 3 (x div k) = x div k" by simp
    then show ?thesis using that by (simp add: minus_mult_div_eq_mod less_imp_le pos_imp_zdiv_nonneg_iff)
  next
    case False
    then have "min 3 (x div k) = 3" by simp
    moreover have "4 * k \<le> x div k * k" using False that by (intro mult_right_mono) auto
    then have "4 * k \<le> x" using div_mult_mod_eq [of x k] pos_mod_sign [OF that(3), of x] by linarith
    ultimately show ?thesis using that by simp
  qed
  have b: "0 \<le> b" "b \<le> 3" "0 \<le> r1" "b < 3 \<Longrightarrow> r1 < 36524" "r1 \<le> 36524"
    using cut [of r 36524] d(2,3) by (simp_all add: b_def r1_def)
  have c: "r1 = 1461 * c + r2" "0 \<le> r2" "r2 < 1461" by (simp_all add: c_def r2_def)
  have c': "0 \<le> c" "c \<le> 24" using b(3,5) c by linarith+
  have e: "0 \<le> e" "e \<le> 3" "0 \<le> yd" "yd \<le> 365" "e < 3 \<Longrightarrow> yd < 365"
    using cut [of r2 365] c(2,3) by (simp_all add: e_def yd)
  have div4: "(y - 1) div 4 = 100 * a + 25 * b + c" using e(1,2) by (intro int_div_pos_eq [where r = e]) (simp_all add: y)
  have div100: "(y - 1) div 100 = 4 * a + b" using e(1,2) c' by (intro int_div_pos_eq [where r = "4 * c + e"]) (simp_all add: y)
  have div400: "(y - 1) div 400 = a" using e(1,2) c' b(1,2) by (intro int_div_pos_eq [where r = "100 * b + 4 * c + e"]) (simp_all add: y)
  have "days_before_year y = 146097 * a + 36524 * b + 1461 * c + 365 * e"
    unfolding days_before_year_def div4 div100 div400 by (simp add: y)
  then have "d = days_before_year y + yd" using d(1) c(1) by (simp add: yd r1_def)
  then show "n + epoch_days = days_before_year y + yd" by (simp add: d_def)
  show "0 \<le> yd" by (rule e(3))
  show "yd < year_length y"
  proof (cases "yd = 365")
    case True
    then have "e = 3" using e by force
    moreover have "r2 = 1460" using True \<open>e = 3\<close> by (simp add: yd)
    then have "c = 24 \<Longrightarrow> b = 3" using b c by linarith
    moreover have m4: "y mod 4 = 0" using \<open>e = 3\<close> unfolding y by simp
    moreover have "y mod 100 \<noteq> 0" if "c \<noteq> 24"
    proof -
      have "y = 100 * (4 * a + b) + (4 * c + 4)" using \<open>e = 3\<close> by (simp add: y)
      then have "y mod 100 = (4 * c + 4) mod 100" by (simp only: mod_mult_self4)
      also have "\<dots> = 4 * c + 4" using that c' by (intro mod_pos_pos_trivial) auto
      finally show ?thesis using c' by simp
    qed
    moreover have "y mod 400 = 0" if "b = 3" "c = 24"
    proof -
      have "y = 400 * (a + 1)" using \<open>e = 3\<close> that by (simp add: y)
      then show ?thesis by simp
    qed
    ultimately have "leap y" unfolding leap_def by (cases "c = 24") auto
    with True show ?thesis by (simp add: year_length_def)
  next
    case False
    with e(4) show ?thesis by (simp add: year_length_def)
  qed
qed

lemma month_scan_bounds:
  assumes "month_scan m ls yd = (m', d)" "0 \<le> yd" "yd < sum_list ls"
  shows "m \<le> m' \<and> m' - m < length ls \<and> 1 \<le> d \<and> d \<le> ls ! (m' - m) \<and> yd = sum_list (take (m' - m) ls) + (d - 1)"
  using assms
proof (induction m ls yd rule: month_scan.induct)
  case (2 m l ls yday)
  show ?case
  proof (cases "yday < l")
    case True
    with 2 show ?thesis by auto
  next
    case False
    with 2 have "m + 1 \<le> m' \<and> m' - (m + 1) < length ls \<and> 1 \<le> d \<and> d \<le> ls ! (m' - (m + 1)) \<and>
        yday - l = sum_list (take (m' - (m + 1)) ls) + (d - 1)" by auto
    moreover from this have "m' - m = Suc (m' - (m + 1))" by auto
    ultimately show ?thesis by auto
  qed
qed simp

lemma sum_month_lengths: "sum_list (month_lengths y) = year_length y" and length_month_lengths [simp]: "length (month_lengths y) = 12"
  by (simp_all add: month_lengths_def year_length_def)

lemma civil_from_days:
  shows days_from_civil_inverse: "days_from_civil (civil_from_days n) = n" and valid_civil_from_days: "valid_civil (civil_from_days n)"
proof -
  obtain y yd where yd: "year_day n = (y, yd)" by fastforce
  obtain m d where md: "month_scan 1 (month_lengths y) yd = (m, d)" by fastforce
  have s: "1 \<le> m \<and> m - 1 < 12 \<and> 1 \<le> d \<and> d \<le> month_lengths y ! (m - 1) \<and> yd = sum_list (take (m - 1) (month_lengths y)) + (d - 1)"
    using month_scan_bounds [OF md] year_day_split [OF yd] by (simp add: sum_month_lengths)
  have c: "civil_from_days n = (y, m, d)" by (simp only: civil_from_days_def yd md prod.case)
  show "days_from_civil (civil_from_days n) = n"
    using year_day_split(1) [OF yd] s by (simp add: c days_from_civil_def)
  show "valid_civil (civil_from_days n)" using s by (auto simp: c valid_civil_def)
qed


section \<open>Formatting\<close>

definition pad_left :: "nat \<Rightarrow> string \<Rightarrow> string" where
  "pad_left w s = replicate (w - length s) CHR ''0'' @ s"

definition appendInt :: "int \<Rightarrow> nat \<Rightarrow> string" where
  "appendInt x w = (if x < 0 then CHR ''-'' # pad_left w (show_nat (nat (- x))) else pad_left w (show_nat (nat x)))"

abbreviation usec :: int where "usec \<equiv> 1000000"

definition day_of :: "int \<Rightarrow> int" where "day_of t = t div (86400 * usec)"

definition sec_of :: "int \<Rightarrow> int" where "sec_of t = t div usec mod 86400"

definition Format_20060102 :: "int \<Rightarrow> string" where
  "Format_20060102 t = (case civil_from_days (day_of t) of (y, m, d) \<Rightarrow> appendInt y 4 @ appendInt (int m) 2 @ appendInt d 2)"

definition Format_1504 :: "int \<Rightarrow> string" where
  "Format_1504 t = appendInt (sec_of t div 3600) 2 @ appendInt (sec_of t div 60 mod 60) 2"

definition Format_150405 :: "int \<Rightarrow> string" where
  "Format_150405 t = Format_1504 t @ appendInt (sec_of t mod 60) 2"


section \<open>Parsing\<close>

text \<open>\<open>getnum\<close> of the package: one or two digits, exactly two when \<open>fixed\<close>.\<close>

definition getnum :: "bool \<Rightarrow> string \<Rightarrow> (int \<times> string) option" where
  "getnum fixed s =
     (case s of
        [] \<Rightarrow> None
      | [a] \<Rightarrow> if IsDigit a \<and> \<not> fixed then Some (int (byte a - 48), []) else None
      | a # b # r \<Rightarrow>
          if \<not> IsDigit a then None
          else if \<not> IsDigit b then (if fixed then None else Some (int (byte a - 48), b # r))
          else Some (int (byte a - 48) * 10 + int (byte b - 48), r))"

definition get_year :: "string \<Rightarrow> (int \<times> string) option" where
  "get_year s = (if 4 \<le> length s \<and> all_digits (take 4 s) then Some (int (digits_val (take 4 s)), drop 4 s) else None)"

definition parse_date :: "string \<Rightarrow> (int \<times> string) option" where
  "parse_date s =
     (case get_year s of
        None \<Rightarrow> None
      | Some (y, s1) \<Rightarrow>
          (case getnum True s1 of
             None \<Rightarrow> None
           | Some (m, s2) \<Rightarrow>
               if m \<le> 0 \<or> 12 < m then None
               else (case getnum True s2 of
                       None \<Rightarrow> None
                     | Some (d, s3) \<Rightarrow>
                         if valid_civil (y, nat m, d) then Some (days_from_civil (y, nat m, d), s3) else None)))"

definition Parse_20060102 :: "string \<Rightarrow> int option" where
  "Parse_20060102 s = (case parse_date s of Some (n, []) \<Rightarrow> Some (n * 86400 * usec) | _ \<Rightarrow> None)"

definition Parse_200601021504 :: "string \<Rightarrow> int option" where
  "Parse_200601021504 s =
     (case parse_date s of
        None \<Rightarrow> None
      | Some (n, s1) \<Rightarrow>
          (case getnum False s1 of
             None \<Rightarrow> None
           | Some (hour, s2) \<Rightarrow>
               if 24 \<le> hour then None
               else (case getnum True s2 of
                       Some (minute, []) \<Rightarrow> if 60 \<le> minute then None else Some ((n * 86400 + hour * 3600 + minute * 60) * usec)
                     | _ \<Rightarrow> None)))"



section \<open>Formatted dates parse back\<close>

lemma show_nat_bound: "n < 10 ^ k \<Longrightarrow> 0 < k \<Longrightarrow> length (show_nat n) \<le> k"
proof (induction n arbitrary: k rule: show_nat.induct)
  case (1 n)
  show ?case
  proof (cases "n < 10")
    case True
    with 1 show ?thesis by (simp add: show_nat.simps [of n])
  next
    case False
    obtain k' where k: "k = Suc k'" using 1 by (cases k) auto
    with False 1 have "n div 10 < 10 ^ k'" "0 < k'" by (auto intro: gr0I)
    with 1 False k show ?thesis by (simp add: show_nat.simps [of n])
  qed
qed

lemma length_pad_left: "n < 10 ^ w \<Longrightarrow> 0 < w \<Longrightarrow> length (pad_left w (show_nat n)) = w"
  using show_nat_bound [of n w] by (simp add: pad_left_def)

lemma digits_val_zeros: "digits_val (replicate k CHR ''0'' @ s) = digits_val s"
  by (induction k) (simp_all add: digits_val_def)

lemma digits_val_pad_left [simp]: "digits_val (pad_left w (show_nat n)) = n"
  by (simp add: pad_left_def digits_val_zeros)

lemma all_digits_pad_left [simp]: "all_digits (pad_left w (show_nat n))"
  using all_digits_show_nat [of n] by (auto simp: pad_left_def all_digits_def IsDigit_def list_all_iff)

lemma appendInt_nat: "0 \<le> x \<Longrightarrow> appendInt x w = pad_left w (show_nat (nat x))"
  by (simp add: appendInt_def)

lemma get_year_pad:
  assumes "0 \<le> y" "y < 10000"
  shows "get_year (appendInt y 4 @ r) = Some (y, r)"
proof -
  have "length (pad_left 4 (show_nat (nat y))) = 4" using assms by (intro length_pad_left) auto
  with assms show ?thesis by (simp add: appendInt_nat get_year_def)
qed

lemma getnum_pad:
  assumes "0 \<le> x" "x < 100"
  shows "getnum fixed (appendInt x 2 @ r) = Some (x, r)"
proof -
  let ?s = "pad_left 2 (show_nat (nat x))"
  have "length ?s = 2" using assms by (intro length_pad_left) auto
  then obtain a b where s: "?s = [a, b]" by (metis (no_types, opaque_lifting) One_nat_def Suc_1 length_0_conv length_Suc_conv)
  have d: "IsDigit a" "IsDigit b" using all_digits_pad_left [of 2 "nat x"] by (simp_all add: s all_digits_def)
  have "digits_val [a, b] = nat x" using digits_val_pad_left [of 2 "nat x"] by (simp add: s)
  then have "10 * (byte a - 48) + (byte b - 48) = nat x" by (simp add: digits_val_def)
  then have "int (byte a - 48) * 10 + int (byte b - 48) = x" using assms by linarith
  with d s show ?thesis using assms by (simp add: appendInt_nat getnum_def)
qed

lemma month_lengths_le: "m < 12 \<Longrightarrow> month_lengths y ! m \<le> 31"
  by (cases m) (auto simp: month_lengths_def nth_Cons split: nat.splits)

lemma parse_date_Format:
  assumes "0 \<le> fst (civil_from_days (day_of t))" "fst (civil_from_days (day_of t)) < 10000"
  shows "parse_date (Format_20060102 t @ r) = Some (day_of t, r)"
proof -
  obtain y m d where c: "civil_from_days (day_of t) = (y, m, d)" by (metis surj_pair)
  have v: "valid_civil (y, m, d)" using valid_civil_from_days [of "day_of t"] by (simp add: c)
  then have m: "1 \<le> m" "m \<le> 12" and d: "0 \<le> d" "d \<le> month_lengths y ! (m - 1)" by (auto simp: valid_civil_def)
  have "m - 1 < 12" using m by linarith
  from month_lengths_le [OF this, of y] have "d < 100" using d by linarith
  moreover have "days_from_civil (y, m, d) = day_of t" using days_from_civil_inverse [of "day_of t"] by (simp add: c)
  ultimately show ?thesis
    using assms c v m d(1)
    by (simp add: Format_20060102_def parse_date_def get_year_pad getnum_pad)
qed

text \<open>A time truncated to the minute.\<close>

definition to_minute :: "int \<Rightarrow> int" where
  "to_minute t = t - t mod (60 * usec)"

lemma to_minute_parts:
  "(day_of t * 86400 + sec_of t div 3600 * 3600 + sec_of t div 60 mod 60 * 60) * usec = to_minute t"
proof -
  define s where "s = t div usec"
  define e where "e = t mod usec"
  have t: "t = s * usec + e" "0 \<le> e" "e < usec" by (simp_all add: s_def e_def)
  have day: "day_of t = s div 86400" by (simp add: day_of_def s_def flip: zdiv_zmult2_eq)
  have sec: "sec_of t = s mod 86400" by (simp add: sec_of_def s_def)
  have h: "x div 3600 * 3600 + x div 60 mod 60 * 60 = x - x mod 60" for x :: int
  proof -
    have "x div 3600 = x div 60 div 60" by (simp flip: zdiv_zmult2_eq)
    moreover have "x div 60 = x div 60 div 60 * 60 + x div 60 mod 60" by (simp only: div_mult_mod_eq)
    moreover have "x = x div 60 * 60 + x mod 60" by (simp only: div_mult_mod_eq)
    ultimately show ?thesis by linarith
  qed
  have m: "s mod 86400 mod 60 = s mod 60" by (rule mod_mod_cancel) simp
  have "t mod (60 * usec) = s mod 60 * usec + e"
    using zmod_zmult2_eq [of 60 t usec] by (simp add: s_def e_def mult.commute)
  then have "to_minute t = (s - s mod 60) * usec" unfolding to_minute_def using t(1) by (simp add: algebra_simps)
  moreover have "day_of t * 86400 + sec_of t div 3600 * 3600 + sec_of t div 60 mod 60 * 60 = s - s mod 60"
    using h [of "s mod 86400"] m div_mult_mod_eq [of s 86400] unfolding day sec by linarith
  ultimately show ?thesis by simp
qed

lemma Parse_Format:
  assumes "0 \<le> fst (civil_from_days (day_of t))" "fst (civil_from_days (day_of t)) < 10000"
  shows "Parse_200601021504 (Format_20060102 t @ Format_1504 t) = Some (to_minute t)"
proof -
  have s: "0 \<le> sec_of t" "sec_of t < 86400" by (simp_all add: sec_of_def)
  then have h: "0 \<le> sec_of t div 3600" "sec_of t div 3600 < 24" and mi: "0 \<le> sec_of t div 60 mod 60" "sec_of t div 60 mod 60 < 60"
    by auto
  show ?thesis
    using h mi getnum_pad [of "sec_of t div 60 mod 60" True "[]"] to_minute_parts [of t]
    by (simp add: Parse_200601021504_def parse_date_Format [OF assms] Format_1504_def getnum_pad)
qed



section \<open>Formatting with six decimals\<close>

fun Sprintf_f6 :: "float64 \<Rightarrow> string" where
  "Sprintf_f6 (Finite q) =
     (let n = nat (round_half_even (\<bar>q\<bar> * 1000000)) in
      (if q < 0 then ''-'' else []) @ show_nat (n div 1000000) @ ''.'' @ pad_left 6 (show_nat (n mod 1000000)))"
| "Sprintf_f6 (Inf neg) = (if neg then ''-Inf'' else ''+Inf'')"
| "Sprintf_f6 NaN = ''NaN''"

text \<open>\<open>float64(hz) / 1_000_000.0\<close>\<close>

definition hz_to_mhz :: "int \<Rightarrow> float64" where
  "hz_to_mhz hz = (case to_float (of_int hz) of Finite q \<Rightarrow> to_float (q / 1000000) | f \<Rightarrow> f)"

lemma pow2_add: "pow2 (a + b) = pow2 a * pow2 b"
proof -
  have "pow2 k = 2 powi k" for k by (simp add: pow2_def power_int_def inverse_eq_divide power_one_over)
  then show ?thesis by (simp add: power_int_add)
qed

lemma bit_length_bounds:
  "0 < n \<Longrightarrow> n < 2 ^ bit_length n \<and> 2 ^ bit_length n \<le> 2 * n"
proof (induction n rule: bit_length.induct)
  case (1 n)
  show ?case
  proof (cases "n div 2 = 0")
    case True
    with 1 have "n = 1" by auto
    then show ?thesis by (simp add: bit_length.simps)
  next
    case False
    with 1 have "n div 2 < 2 ^ bit_length (n div 2) \<and> 2 ^ bit_length (n div 2) \<le> 2 * (n div 2)" by auto
    moreover have "bit_length n = Suc (bit_length (n div 2))" using 1 by (simp add: bit_length.simps [of n])
    ultimately show ?thesis by auto
  qed
qed

lemma pow2_int: "pow2 (int n) = 2 ^ n"
  by (simp add: pow2_def)

lemma log2_floor_le:
  assumes "0 < q"
  shows "pow2 (log2_floor q) \<le> q"
proof -
  obtain a b where ab: "quotient_of q = (a, b)" by fastforce
  have b: "0 < b" and q: "q = of_int a / of_int b" using quotient_of_denom_pos [OF ab] quotient_of_div [OF ab] by simp_all
  with assms have a: "0 < a" by (simp add: zero_less_divide_iff)
  define la where "la = bit_length (nat a)"
  define lb where "lb = bit_length (nat b)"
  have la: "2 ^ la \<le> 2 * nat a" and lb: "nat b < 2 ^ lb"
    using bit_length_bounds [of "nat a"] bit_length_bounds [of "nat b"] a b by (simp_all add: la_def lb_def)
  have "rat_of_nat (2 ^ la) \<le> rat_of_nat (2 * nat a)" using la by (simp only: of_nat_le_iff)
  then have la': "(2::rat) ^ la \<le> 2 * of_int a" using a by simp
  have "rat_of_nat (nat b) < rat_of_nat (2 ^ lb)" using lb by (simp only: of_nat_less_iff)
  then have lb': "of_int b < (2::rat) ^ lb" using b by simp
  define k where "k = int la - int lb"
  have "pow2 (k - 1) * 2 * 2 ^ lb = 2 ^ la"
    using pow2_add [of "k - 1" "1 + int lb"] pow2_add [of 1 "int lb"] by (simp add: k_def pow2_int pow2_def [of 1] mult.assoc)
  then have "pow2 (k - 1) * 2 ^ lb \<le> of_int a" using la' by linarith
  moreover have "pow2 (k - 1) * of_int b \<le> pow2 (k - 1) * 2 ^ lb" using lb' by (simp add: mult_left_mono)
  ultimately have "pow2 (k - 1) * of_int b \<le> of_int a" by linarith
  then have "pow2 (k - 1) \<le> q" using b by (simp add: q pos_le_divide_eq)
  then show ?thesis by (auto simp: log2_floor_def ab Let_def la_def lb_def k_def)
qed

lemma to_float_error:
  assumes "0 \<le> q" "q < 2 ^ n" "n \<le> 1000"
  shows "\<exists>r. to_float q = Finite r \<and> \<bar>r - q\<bar> \<le> 2 ^ n / 2 ^ 53"
proof (cases "q = 0")
  case True
  then show ?thesis by (auto simp: to_float_def round64_def)
next
  case False
  with assms have q: "0 < q" by simp
  let ?e = "max (log2_floor q - 52) (- 1074)"
  have "log2_floor q < int n"
  proof (rule ccontr)
    assume "\<not> log2_floor q < int n"
    then obtain k where "log2_floor q = int n + int k" using zero_le_imp_eq_int [of "log2_floor q - int n"] by (auto simp: algebra_simps)
    then have "(2::rat) ^ n * 2 ^ k \<le> q" using log2_floor_le [OF q] by (simp add: pow2_add pow2_int)
    moreover have "(2::rat) ^ n * 1 \<le> 2 ^ n * 2 ^ k" by (rule mult_left_mono) simp_all
    ultimately show False using assms(2) by linarith
  qed
  then have "?e \<le> int n - 52" by auto
  then obtain k where k: "int n - 52 = ?e + int k" using zero_le_imp_eq_int [of "int n - 52 - ?e"] by (auto simp: algebra_simps)
  have "pow2 (int n - 52) = pow2 ?e * 2 ^ k" by (simp only: k pow2_add pow2_int)
  moreover have "pow2 ?e * 1 \<le> pow2 ?e * 2 ^ k" by (rule mult_left_mono) (simp_all add: less_imp_le)
  ultimately have ulp: "pow2 ?e \<le> pow2 (int n - 52)" by simp
  have n52: "pow2 (int n - 52) * 2 ^ 52 = 2 ^ n"
    using pow2_add [of "int n - 52" 52] by (simp add: pow2_int) (simp add: pow2_def [of 52])
  define u where "u = pow2 ?e"
  define m where "m = of_int (round_half_even (q / u)) * u"
  have u: "0 < u" "u * 2 ^ 52 \<le> 2 ^ n" using ulp n52 by (simp_all add: u_def mult_right_mono flip: n52)
  have err: "\<bar>m - q\<bar> \<le> u / 2"
    using mult_right_mono [OF round_half_even_bounds [of "q / u"], of u] u(1) scale_abs [of u "of_int (round_half_even (q / u))" q]
    by (simp add: m_def)
  define b :: rat where "b = 2 ^ n"
  have b: "b \<le> 2 ^ 1000" using assms(3) unfolding b_def by (intro power_increasing) auto
  have ub: "u * 4503599627370496 \<le> b" using u(2) by (simp add: b_def)
  have "m < 3 * b" using err ub u(1) assms(2) unfolding b_def [symmetric] by linarith
  also have "3 * b < 2 ^ 1024" using b by simp
  finally have "\<not> 2 ^ 1024 \<le> m" by simp
  with False q have "to_float q = Finite m" by (simp add: to_float_def round64_def Let_def m_def u_def)
  moreover have "\<bar>m - q\<bar> \<le> 2 ^ n / 2 ^ 53" using err ub by (simp add: b_def)
  ultimately show ?thesis by blast
qed

lemma round_half_even_near: "\<bar>q - of_int n\<bar> < 1 / 2 \<Longrightarrow> round_half_even q = n"
proof -
  assume a: "\<bar>q - of_int n\<bar> < 1 / 2"
  have "\<bar>of_int (round_half_even q) - of_int n\<bar> < (1 :: rat)" using round_half_even_bounds [of q] a by linarith
  then have "\<bar>of_int (round_half_even q - n)\<bar> < (1 :: rat)" by simp
  then show ?thesis by linarith
qed

text \<open>Every frequency below 1.09 THz is printed exactly, to the hertz.\<close>

lemma Sprintf_mhz:
  assumes "0 \<le> hz" "hz < 2 ^ 40"
  shows "Sprintf_f6 (hz_to_mhz hz) = show_nat (nat hz div 1000000) @ ''.'' @ pad_left 6 (show_nat (nat hz mod 1000000))"
proof -
  have "rat_of_int hz < of_int (2 ^ 40)" using assms(2) by (simp only: of_int_less_iff)
  then have "rat_of_int hz < 2 ^ 40" by simp
  then obtain r where r: "to_float (of_int hz) = Finite r" "\<bar>r - of_int hz\<bar> \<le> 1 / 8192"
    using to_float_error [of "of_int hz" 40] assms(1) by auto
  have r': "- 1 / 1000 \<le> r - of_int hz" "r - of_int hz \<le> 1 / 1000" using r(2) by linarith+
  have nn: "0 \<le> r"
  proof (cases "hz = 0")
    case True
    then show ?thesis using r(1) by (simp add: to_float_def round64_def)
  next
    case False
    then have "(1 :: rat) \<le> of_int hz" using assms(1) by simp
    with r' show ?thesis by linarith
  qed
  have "r / 1000000 < 2 ^ 21" using r' \<open>rat_of_int hz < 2 ^ 40\<close> by simp
  then obtain s where s: "to_float (r / 1000000) = Finite s" "\<bar>s - r / 1000000\<bar> \<le> 1 / 4294967296"
    using to_float_error [of "r / 1000000" 21] nn by auto
  have s': "- 1 / 1000 \<le> s * 1000000 - r" "s * 1000000 - r \<le> 1 / 1000" using s(2) by linarith+
  have near: "\<bar>s * 1000000 - of_int hz\<bar> < 1 / 2" using r' s' by linarith
  have "\<bar>\<bar>s\<bar> * 1000000 - of_int hz\<bar> < 1 / 2"
  proof (cases "s < 0")
    case True
    then have "of_int hz < (1 / 2 :: rat)" using near by linarith
    then have "hz = 0" using assms(1) by linarith
    with near True show ?thesis by simp
  next
    case False
    with near show ?thesis by simp
  qed
  then have n: "round_half_even (\<bar>s\<bar> * 1000000) = hz" by (rule round_half_even_near)
  have "\<not> s < 0"
  proof (cases "hz = 0")
    case True
    then have "r = 0" using r(1) by (simp add: to_float_def round64_def)
    then show ?thesis using s(1) by (simp add: to_float_def round64_def)
  next
    case False
    then have "(1 :: rat) \<le> of_int hz" using assms(1) by simp
    with near show ?thesis by linarith
  qed
  with r s n show ?thesis by (simp add: hz_to_mhz_def Let_def)
qed
end
