(* ===== verification/Sync_Status.thy ===== *)
theory Sync_Status
  imports Sync_Infra Cred_Store Go_Time
begin

text \<open>
  \<open>api/internal/services/sync/orchestrator.go\<close>: the table \<open>sync_status\<close>, which holds one row for every contact and external service, and
  the statements that read and write it; \<open>resetQSOSyncStatus\<close> of \<open>handler/qso.go\<close> and the trigger \<open>mark_sync_dirty_on_qso_edit\<close> of the schema.

  The database is a record of tables, each a list of rows.  The \<open>CHECK\<close> constraint on the column \<open>status\<close> makes it a datatype.
  Clock times are nanoseconds as in \<open>Sync_Infra\<close> (the rounding of a stored time to microseconds is left out), the time
  of a contact is in microseconds.  Columns that are only passed through (\<open>extra\<close>, the UUID of a contact) are left out.  Rows that the database may return in any order come in the order of the table.
\<close>

section \<open>Tables\<close>

datatype status = StPending | StDirty | StUploaded | StConfirmed | StError | StRejected | StNotApplicable | StSkipped

record sync_row =
  ss_id :: int
  ss_qso_id :: int
  ss_service :: string
  ss_status :: status
  ss_last_synced_at :: "int option"
  ss_remote_id :: "string option"
  ss_error_message :: "string option"
  ss_retry_count :: int
  ss_next_retry_at :: "int option"
  ss_last_error_code :: "string option"
  ss_created_at :: int
  ss_updated_at :: int

record sync_qso =
  sq_id :: int
  sq_logbook_id :: int
  sq_callsign :: string
  sq_band :: string
  sq_mode :: string
  sq_datetime_on :: int
  sq_rst_sent :: "string option"
  sq_rst_rcvd :: "string option"
  sq_gridsquare :: "string option"
  sq_my_gridsquare :: "string option"
  sq_name :: "string option"
  sq_station_callsign :: "string option"
  sq_frequency_hz :: "int option"
  sq_dxcc :: "int option"
  sq_sota_ref :: "string option"
  sq_my_sota_ref :: "string option"
  sq_pota_refs :: "string list option"
  sq_my_pota_refs :: "string list option"
  sq_sig :: "string option"
  sq_sig_info :: "string option"
  sq_lotw_qsl_rcvd :: "string option"
  sq_lotw_qsl_rcvd_date :: "int option"
  sq_lotw_sent_at :: "int option"
  sq_eqsl_qsl_rcvd :: "string option"
  sq_eqsl_qsl_rcvd_date :: "int option"
  sq_qsl_rcvd :: "string option"
  sq_qsl_rcvd_date :: "int option"
  sq_qrz_qsl_rcvd :: "string option"
  sq_qrz_qsl_rcvd_date :: "int option"
  sq_deleted_at :: "int option"
  sq_updated_at :: int

text \<open>The columns of \<open>award_progress\<close> that the Club Log poll reads or writes.\<close>

record award_prog =
  ap_user_id :: int
  ap_award_type :: string
  ap_entity_key :: string
  ap_band :: "string option"
  ap_mode :: "string option"
  ap_confirmed :: bool
  ap_confirmation_method :: "string option"
  ap_confirmed_via :: "string option"
  ap_confirmed_at :: "int option"
  ap_worked :: bool
  ap_dirty :: bool
  ap_updated_at :: int

record sync_db =
  sd_sync :: "sync_row list"
  sd_next_id :: int
  sd_qsos :: "sync_qso list"
  sd_logbooks :: "(int \<times> int) list"
  sd_creds :: cred_db
  sd_circuit :: cb_table
  sd_rates :: rl_table
  sd_awards :: "award_prog list"

text \<open>\<open>JOIN qsos\<close> on the primary key, and the owner of a contact through its logbook.\<close>

definition qso_of :: "sync_db \<Rightarrow> int \<Rightarrow> sync_qso option" where
  "qso_of db qsoID = find (\<lambda>q. sq_id q = qsoID) (sd_qsos db)"

definition qso_user :: "sync_db \<Rightarrow> sync_qso \<Rightarrow> int option" where
  "qso_user db q = map_of (sd_logbooks db) (sq_logbook_id q)"

definition row_user :: "sync_db \<Rightarrow> sync_row \<Rightarrow> int option" where
  "row_user db r = (case qso_of db (ss_qso_id r) of None \<Rightarrow> None | Some q \<Rightarrow> qso_user db q)"

definition row_live :: "sync_db \<Rightarrow> sync_row \<Rightarrow> bool" where
  "row_live db r \<longleftrightarrow> (case qso_of db (ss_qso_id r) of None \<Rightarrow> False | Some q \<Rightarrow> sq_deleted_at q = None)"

text \<open>\<open>UPDATE sync_status SET f WHERE P\<close> and the number of rows it changes.\<close>

definition update_sync :: "(sync_row \<Rightarrow> bool) \<Rightarrow> (sync_row \<Rightarrow> sync_row) \<Rightarrow> sync_db \<Rightarrow> sync_db" where
  "update_sync P f db = db\<lparr>sd_sync := map (\<lambda>r. if P r then f r else r) (sd_sync db)\<rparr>"

definition affected :: "(sync_row \<Rightarrow> bool) \<Rightarrow> sync_db \<Rightarrow> nat" where
  "affected P db = length (filter P (sd_sync db))"


section \<open>Pending rows\<close>

definition due :: "int \<Rightarrow> sync_row \<Rightarrow> bool" where
  "due now r \<longleftrightarrow> ss_status r \<in> {StPending, StDirty, StError} \<and> (case ss_next_retry_at r of None \<Rightarrow> True | Some t \<Rightarrow> t \<le> now)"

record pendingQSORow =
  p_SyncID :: int
  p_QSOID :: int
  p_RetryCount :: int
  p_SyncStatus :: status
  p_RemoteID :: "string option"
  p_QSO :: sync_qso

text \<open>The columns of the contact that the query selects are kept as the contact; \<open>Submode\<close> is not among them, so it stays nil.\<close>

definition pending_row :: "sync_db \<Rightarrow> sync_row \<Rightarrow> pendingQSORow" where
  "pending_row db r =
     \<lparr>p_SyncID = ss_id r, p_QSOID = ss_qso_id r, p_RetryCount = ss_retry_count r, p_SyncStatus = ss_status r,
      p_RemoteID = ss_remote_id r, p_QSO = the (qso_of db (ss_qso_id r))\<rparr>"

definition fetchable :: "int \<Rightarrow> string \<Rightarrow> int \<Rightarrow> sync_db \<Rightarrow> sync_row \<Rightarrow> bool" where
  "fetchable now service userID db r \<longleftrightarrow> ss_service r = service \<and> row_user db r = Some userID \<and> due now r \<and> row_live db r"

definition fetchPendingQSOs :: "int \<Rightarrow> sync_db \<Rightarrow> string \<Rightarrow> int \<Rightarrow> nat \<Rightarrow> pendingQSORow list" where
  "fetchPendingQSOs now db service userID limit =
     map (pending_row db) (take limit (sort_key ss_created_at (filter (fetchable now service userID db) (sd_sync db))))"


section \<open>Marking rows\<close>

definition markUploaded :: "bool \<Rightarrow> int \<Rightarrow> int \<Rightarrow> string \<Rightarrow> sync_db \<Rightarrow> sync_db" where
  "markUploaded ok now syncID remoteID db =
     (if ok then
        update_sync (\<lambda>r. ss_id r = syncID)
          (\<lambda>r. r\<lparr>ss_status := StUploaded, ss_last_synced_at := Some now, ss_remote_id := Some remoteID, ss_error_message := None,
                 ss_last_error_code := None, ss_retry_count := 0, ss_next_retry_at := None, ss_updated_at := now\<rparr>) db
      else db)"

text \<open>The largest value of the column type \<open>SMALLINT\<close> of \<open>retry_count\<close>; a larger one fails the statement.\<close>

definition MaxInt16 :: int where "MaxInt16 = 32767"

definition error_retry_at :: "InfraConfig \<Rightarrow> int \<Rightarrow> float64 \<Rightarrow> int \<Rightarrow> string \<Rightarrow> int \<Rightarrow> int" where
  "error_retry_at cfg undef rnd now service retryCount =
     (case NextRetryAt cfg undef rnd now service retryCount of Some t \<Rightarrow> t | None \<Rightarrow> now + 5 * 60 * Second)"

record retry_env =
  rt_cfg :: InfraConfig
  rt_undef :: int
  rt_rnd :: float64
  rt_now :: int

definition markSyncError :: "retry_env \<Rightarrow> bool \<Rightarrow> int \<Rightarrow> string \<Rightarrow> int \<Rightarrow> int \<Rightarrow> string \<Rightarrow> string \<Rightarrow> sync_db \<Rightarrow> sync_db" where
  "markSyncError e ok dbnow service syncID retryCount errMsg errCode db =
     (if ok \<and> \<not> list_ex (\<lambda>r. ss_id r = syncID \<and> MaxInt16 < ss_retry_count r + 1) (sd_sync db) then
        update_sync (\<lambda>r. ss_id r = syncID)
          (\<lambda>r. r\<lparr>ss_status := StError, ss_error_message := Some errMsg, ss_last_error_code := Some errCode,
                 ss_retry_count := ss_retry_count r + 1,
                 ss_next_retry_at := Some (error_retry_at (rt_cfg e) (rt_undef e) (rt_rnd e) (rt_now e) service retryCount),
                 ss_updated_at := dbnow\<rparr>) db
      else db)"

definition open_row :: "string \<Rightarrow> int \<Rightarrow> sync_db \<Rightarrow> sync_row \<Rightarrow> bool" where
  "open_row service userID db r \<longleftrightarrow>
     ss_service r = service \<and> row_user db r = Some userID \<and> ss_status r \<in> {StPending, StDirty}"

definition markAllPendingFailed :: "bool \<Rightarrow> int \<Rightarrow> string \<Rightarrow> int \<Rightarrow> string \<Rightarrow> sync_db \<Rightarrow> sync_db \<times> nat" where
  "markAllPendingFailed ok now service userID errMsg db =
     (if ok then
        (update_sync (open_row service userID db)
           (\<lambda>r. r\<lparr>ss_status := StError, ss_error_message := Some errMsg, ss_last_error_code := Some ''permanent_failure'',
                  ss_next_retry_at := None, ss_updated_at := now\<rparr>) db,
         affected (open_row service userID db) db)
      else (db, 0))"

definition CancelPendingSync :: "bool \<Rightarrow> int \<Rightarrow> int \<Rightarrow> string \<Rightarrow> sync_db \<Rightarrow> sync_db \<times> nat" where
  "CancelPendingSync ok now userID service db =
     (let P = (\<lambda>r. open_row service userID db r \<and> row_live db r) in
      if ok then
        (update_sync P
           (\<lambda>r. r\<lparr>ss_status := StSkipped, ss_error_message := Some ''cancelled by user'',
                  ss_last_error_code := Some ''cancelled_by_user'', ss_next_retry_at := None, ss_updated_at := now\<rparr>) db,
         affected P db)
      else (db, 0))"

definition confirm_row :: "int \<Rightarrow> sync_row \<Rightarrow> sync_row" where
  "confirm_row now r = r\<lparr>ss_status := StConfirmed, ss_last_synced_at := Some now, ss_error_message := None, ss_updated_at := now\<rparr>"

definition markSyncConfirmed :: "bool \<Rightarrow> int \<Rightarrow> int \<Rightarrow> string \<Rightarrow> sync_db \<Rightarrow> sync_db" where
  "markSyncConfirmed ok now qsoID service db =
     (if ok then update_sync (\<lambda>r. ss_qso_id r = qsoID \<and> ss_service r = service) (confirm_row now) db else db)"

definition markClubLogDXCCConfirmed :: "bool \<Rightarrow> int \<Rightarrow> int \<Rightarrow> int \<Rightarrow> sync_db \<Rightarrow> sync_db" where
  "markClubLogDXCCConfirmed ok now userID entityID db =
     (if ok then
        update_sync (\<lambda>r. ss_service r = ''clublog'' \<and> ss_status r \<noteq> StConfirmed \<and> row_user db r = Some userID \<and> row_live db r \<and>
                         (case qso_of db (ss_qso_id r) of Some q \<Rightarrow> sq_dxcc q = Some entityID | None \<Rightarrow> False))
          (confirm_row now) db
      else db)"

definition markLongUploadedAsConfirmed :: "bool \<Rightarrow> int \<Rightarrow> int \<Rightarrow> int \<Rightarrow> int \<Rightarrow> sync_db \<Rightarrow> sync_db \<times> (unit + nat)" where
  "markLongUploadedAsConfirmed ok now dbnow userID gracePeriod db =
     (let cutoff = now - gracePeriod;
          P = (\<lambda>r. ss_service r = ''hamqth'' \<and> ss_status r = StUploaded \<and>
                   (case ss_last_synced_at r of Some t \<Rightarrow> t < cutoff | None \<Rightarrow> False) \<and> row_user db r = Some userID \<and> row_live db r) in
      if ok then (update_sync P (confirm_row dbnow) db, Inr (affected P db)) else (db, Inl ()))"

text \<open>\<open>resetQSOSyncStatus\<close>, run by the handlers that update a contact.\<close>

definition resetQSOSyncStatus :: "int \<Rightarrow> int \<Rightarrow> sync_db \<Rightarrow> sync_db \<times> string list" where
  "resetQSOSyncStatus now qsoID db =
     (update_sync (\<lambda>r. ss_qso_id r = qsoID)
        (\<lambda>r. r\<lparr>ss_status := StPending, ss_last_synced_at := None, ss_remote_id := None, ss_error_message := None,
               ss_last_error_code := None, ss_retry_count := 0, ss_next_retry_at := None, ss_updated_at := now\<rparr>) db,
      sort (remdups (map ss_service (filter (\<lambda>r. ss_qso_id r = qsoID) (sd_sync db)))))"

text \<open>The trigger on an edit of a contact that changes a field of its ADIF record.\<close>

definition mark_sync_dirty_on_qso_edit :: "int \<Rightarrow> int \<Rightarrow> sync_db \<Rightarrow> sync_db" where
  "mark_sync_dirty_on_qso_edit now qsoID db =
     update_sync (\<lambda>r. ss_qso_id r = qsoID \<and> ss_status r \<in> {StUploaded, StConfirmed})
       (\<lambda>r. r\<lparr>ss_status := StDirty, ss_updated_at := now\<rparr>) db"


section \<open>Inserting rows\<close>

definition has_row :: "int \<Rightarrow> string \<Rightarrow> sync_db \<Rightarrow> bool" where
  "has_row qsoID service db \<longleftrightarrow> list_ex (\<lambda>r. ss_qso_id r = qsoID \<and> ss_service r = service) (sd_sync db)"

text \<open>\<open>INSERT ... ON CONFLICT (qso_id, service) DO NOTHING\<close>; the sequence of \<open>id\<close> moves on in any case.\<close>

definition insert_row :: "int \<Rightarrow> int \<Rightarrow> string \<Rightarrow> status \<Rightarrow> sync_db \<Rightarrow> sync_db" where
  "insert_row now qsoID service st db =
     (let db1 = db\<lparr>sd_next_id := sd_next_id db + 1\<rparr> in
      if has_row qsoID service db then db1
      else db1\<lparr>sd_sync := sd_sync db @
             [\<lparr>ss_id = sd_next_id db, ss_qso_id = qsoID, ss_service = service, ss_status = st, ss_last_synced_at = None,
               ss_remote_id = None, ss_error_message = None, ss_retry_count = 0, ss_next_retry_at = None,
               ss_last_error_code = None, ss_created_at = now, ss_updated_at = now\<rparr>]\<rparr>)"

text \<open>\<open>NULLIF(TRIM(ref), '') IS NOT NULL\<close>, where \<open>TRIM\<close> removes blanks, and the test for a park reference.\<close>

definition sql_trim :: "string \<Rightarrow> string" where
  "sql_trim s = TrimRightFunc (\<lambda>c. c = CHR '' '') (TrimLeftFunc (\<lambda>c. c = CHR '' '') s)"

definition has_sota :: "sync_qso \<Rightarrow> bool" where
  "has_sota q \<longleftrightarrow> (case sq_my_sota_ref q of None \<Rightarrow> False | Some s \<Rightarrow> sql_trim s \<noteq> [])"

definition has_pota :: "sync_qso \<Rightarrow> bool" where
  "has_pota q \<longleftrightarrow> (case sq_my_pota_refs q of None \<Rightarrow> False | Some refs \<Rightarrow> refs \<noteq> [])"

definition KnownServices :: "string list" where
  "KnownServices = [''lotw'', ''qrz'', ''eqsl'', ''clublog'', ''hamqth'', ''pota'', ''sota'', ''radioledger'']"

text \<open>
  \<open>InsertPendingSyncForQSO\<close>: \<open>ok\<close> says which statements succeed.  A service outside the \<open>CHECK\<close> constraint and a contact that
  does not exist (foreign key) fail the statement; the first failure is returned and the caller rolls back.
\<close>

definition insert_pending_one :: "(string \<Rightarrow> bool) \<Rightarrow> int \<Rightarrow> int \<Rightarrow> string \<Rightarrow> sync_db \<Rightarrow> sync_db option" where
  "insert_pending_one ok now qsoID svc db =
     (if \<not> ok svc then None
      else if svc = ''sota'' then
        Some (case qso_of db qsoID of
                Some q \<Rightarrow> if has_sota q then insert_row now qsoID ''sota'' StPending db else db
              | None \<Rightarrow> db)
      else if svc = ''pota'' then
        Some (case qso_of db qsoID of
                Some q \<Rightarrow> if sq_deleted_at q = None \<and> has_pota q then insert_row now qsoID svc StPending db else db
              | None \<Rightarrow> db)
      else if svc \<notin> set KnownServices \<or> qso_of db qsoID = None then None
      else Some (insert_row now qsoID svc StPending db))"

fun InsertPendingSyncForQSO :: "(string \<Rightarrow> bool) \<Rightarrow> int \<Rightarrow> int \<Rightarrow> string list \<Rightarrow> sync_db \<Rightarrow> sync_db option" where
  "InsertPendingSyncForQSO ok now qsoID [] db = Some db"
| "InsertPendingSyncForQSO ok now qsoID (svc # svcs) db =
     (case insert_pending_one ok now qsoID svc db of
        None \<Rightarrow> None
      | Some db1 \<Rightarrow> InsertPendingSyncForQSO ok now qsoID svcs db1)"

text \<open>\<open>BackfillSyncStatusForService\<close>: the contacts it selects, the status of their new rows, and the insertion.\<close>

definition backfill_status :: "string \<Rightarrow> sync_qso \<Rightarrow> status" where
  "backfill_status service q =
     (if service = ''eqsl'' then (if sq_eqsl_qsl_rcvd q = Some ''Y'' then StConfirmed else StPending)
      else if service = ''lotw'' then
        (if sq_lotw_qsl_rcvd q = Some ''Y'' \<or> sq_lotw_sent_at q \<noteq> None then StConfirmed else StPending)
      else if service = ''qrz'' then (if sq_qrz_qsl_rcvd q = Some ''Y'' then StConfirmed else StPending)
      else StPending)"

definition backfill_selects :: "int \<Rightarrow> string \<Rightarrow> sync_db \<Rightarrow> sync_qso \<Rightarrow> bool" where
  "backfill_selects userID service db q \<longleftrightarrow>
     qso_user db q = Some userID \<and> sq_deleted_at q = None \<and>
     (service = ''sota'' \<longrightarrow> has_sota q) \<and> (service = ''pota'' \<longrightarrow> has_pota q) \<and>
     \<not> has_row (sq_id q) service db"

definition BackfillSyncStatusForService ::
  "bool \<Rightarrow> int \<Rightarrow> int \<Rightarrow> string \<Rightarrow> sync_db \<Rightarrow> sync_db \<times> (unit + nat \<times> nat)" where
  "BackfillSyncStatusForService ok now userID service db =
     (let chosen = filter (backfill_selects userID service db) (sd_qsos db) in
      if \<not> ok \<or> (service \<notin> set KnownServices \<and> chosen \<noteq> []) then (db, Inl ())
      else (fold (\<lambda>q. insert_row now (sq_id q) service (backfill_status service q)) chosen db,
            Inr (length (filter (\<lambda>q. backfill_status service q = StConfirmed) chosen),
                 length (filter (\<lambda>q. backfill_status service q = StPending) chosen))))"


section \<open>Reading\<close>

definition CountPendingEQSLQSOs :: "sync_db \<Rightarrow> int \<Rightarrow> nat" where
  "CountPendingEQSLQSOs db userID =
     length (filter (\<lambda>r. open_row ''eqsl'' userID db r \<and> row_live db r) (sd_sync db))"

definition active_services :: "sync_db \<Rightarrow> int \<Rightarrow> string list" where
  "active_services db userID =
     map cr_service (filter (\<lambda>c. cr_user_id c = userID \<and> cr_is_active c) (ct_rows (sd_creds db)))"

definition EnabledServicesForUser :: "sync_db \<Rightarrow> int \<Rightarrow> string list" where
  "EnabledServicesForUser db userID =
     filter (\<lambda>s. s \<in> {''eqsl'', ''clublog'', ''qrz'', ''sota'', ''pota'', ''hamqth'', ''lotw''}) (active_services db userID)"

record ServiceSummary =
  sm_Service :: string
  sm_PendingCount :: nat
  sm_ErrorCount :: nat
  sm_LastSyncAt :: "int option"
  sm_Enabled :: bool

fun max_time :: "int option list \<Rightarrow> int option" where
  "max_time [] = None"
| "max_time (None # ts) = max_time ts"
| "max_time (Some t # ts) = (case max_time ts of None \<Rightarrow> Some t | Some u \<Rightarrow> Some (max t u))"

definition GetSyncStatusForUser :: "sync_db \<Rightarrow> int \<Rightarrow> ServiceSummary list" where
  "GetSyncStatusForUser db userID =
     map (\<lambda>svc. let rows = filter (\<lambda>r. row_user db r = Some userID \<and> ss_service r = svc) (sd_sync db) in
            \<lparr>sm_Service = svc,
             sm_PendingCount = length (filter (\<lambda>r. ss_status r \<in> {StPending, StDirty, StError}) rows),
             sm_ErrorCount = length (filter (\<lambda>r. ss_status r = StError) rows),
             sm_LastSyncAt = max_time (map ss_last_synced_at rows),
             sm_Enabled = (svc \<in> set (active_services db userID))\<rparr>)
       [''eqsl'', ''clublog'', ''lotw'', ''qrz'', ''hamqth'', ''sota'', ''pota'']"

record SyncHistoryRow =
  sh_ID :: int
  sh_Service :: string
  sh_Status :: status
  sh_LastSyncedAt :: int
  sh_ErrorMessage :: "string option"
  sh_ErrorCode :: "string option"
  sh_RetryCount :: int
  sh_Callsign :: string
  sh_Band :: string
  sh_Mode :: string
  sh_DatetimeOn :: int

definition history_row :: "sync_row \<Rightarrow> int \<Rightarrow> sync_qso \<Rightarrow> SyncHistoryRow" where
  "history_row r t q =
     \<lparr>sh_ID = ss_id r, sh_Service = ss_service r, sh_Status = ss_status r, sh_LastSyncedAt = t,
      sh_ErrorMessage = ss_error_message r, sh_ErrorCode = ss_last_error_code r, sh_RetryCount = ss_retry_count r,
      sh_Callsign = sq_callsign q, sh_Band = sq_band q, sh_Mode = sq_mode q, sh_DatetimeOn = sq_datetime_on q\<rparr>"

definition GetSyncHistory :: "sync_db \<Rightarrow> int \<Rightarrow> nat \<Rightarrow> SyncHistoryRow list" where
  "GetSyncHistory db userID limit =
     take limit (sort_key (\<lambda>h. - sh_LastSyncedAt h)
       (concat (map (\<lambda>r. case (ss_last_synced_at r, qso_of db (ss_qso_id r)) of
                           (Some t, Some q) \<Rightarrow> if qso_user db q = Some userID then [history_row r t q] else []
                         | _ \<Rightarrow> []) (sd_sync db))))"

end
