(* ===== verification/Sync_Format.thy ===== *)
theory Sync_Format
  imports Sync_Status Adif_Roundtrip
begin

text \<open>
  The formatters of the upload workers (\<open>qsosToADIF\<close> of \<open>orchestrator.go\<close>, \<open>qsoRowToSingleADIF\<close> of \<open>qrz_worker.go\<close>,
  \<open>potaQSOsToADIF\<close>, \<open>buildSOTACSV\<close> with the helpers of \<open>services/sota\<close>), and the classifiers of error texts.
  The buffer behind the ADIF writer never fails, so the only writer is the one with no limit.
\<close>

section \<open>ADIF batches\<close>

definition opt_field :: "string \<Rightarrow> string option \<Rightarrow> Field list" where
  "opt_field name v = (case v of None \<Rightarrow> [] | Some s \<Rightarrow> [mk_field name s])"

definition freq_field :: "int option \<Rightarrow> Field list" where
  "freq_field f = (case f of None \<Rightarrow> [] | Some hz \<Rightarrow> [mk_field ''FREQ'' (Sprintf_f6 (hz_to_mhz hz))])"

definition batch_record :: "pendingQSORow \<Rightarrow> Record" where
  "batch_record row =
     (let q = p_QSO row in
      fst (CanonicalizeRecordMode \<lparr>r_Fields =
        [mk_field ''CALL'' (sq_callsign q), mk_field ''BAND'' (sq_band q), mk_field ''MODE'' (sq_mode q),
         mk_field ''QSO_DATE'' (Format_20060102 (sq_datetime_on q)), mk_field ''TIME_ON'' (Format_1504 (sq_datetime_on q))]
        @ opt_field ''RST_SENT'' (sq_rst_sent q) @ opt_field ''RST_RCVD'' (sq_rst_rcvd q)
        @ opt_field ''GRIDSQUARE'' (sq_gridsquare q) @ opt_field ''MY_GRIDSQUARE'' (sq_my_gridsquare q)
        @ opt_field ''STATION_CALLSIGN'' (sq_station_callsign q) @ freq_field (sq_frequency_hz q)\<rparr>))"

definition qsosToADIF :: "pendingQSORow list \<Rightarrow> WriteErr + string" where
  "qsosToADIF rows =
     (case WriteRecords (NewWriter None) (map batch_record rows) of
        (w, Some e) \<Rightarrow> Inl e
      | (w, None) \<Rightarrow> Inr (w_out w))"


section \<open>The QRZ record\<close>

definition adifField :: "string \<Rightarrow> string \<Rightarrow> string" where
  "adifField name v = (if v = [] then [] else ''<'' @ name @ '':'' @ show_nat (length v) @ ''>'' @ v)"

definition qsoRowToSingleADIF :: "pendingQSORow \<Rightarrow> string" where
  "qsoRowToSingleADIF row =
     (let q = p_QSO row;
          rec = fst (CanonicalizeRecordMode (Record_Set \<lparr>r_Fields = []\<rparr> ''MODE'' (sq_mode q)));
          opt = (\<lambda>n v. case v of None \<Rightarrow> [] | Some s \<Rightarrow> adifField n s) in
      adifField ''CALL'' (sq_callsign q) @ adifField ''BAND'' (sq_band q) @
      adifField ''MODE'' (Record_Get rec ''MODE'') @ adifField ''SUBMODE'' (Record_Get rec ''SUBMODE'') @
      adifField ''QSO_DATE'' (Format_20060102 (sq_datetime_on q)) @ adifField ''TIME_ON'' (Format_150405 (sq_datetime_on q)) @
      opt ''RST_SENT'' (sq_rst_sent q) @ opt ''RST_RCVD'' (sq_rst_rcvd q) @ opt ''GRIDSQUARE'' (sq_gridsquare q) @
      opt ''MY_GRIDSQUARE'' (sq_my_gridsquare q) @ opt ''STATION_CALLSIGN'' (sq_station_callsign q) @
      opt ''FREQ'' (map_option (\<lambda>hz. Sprintf_f6 (hz_to_mhz hz)) (sq_frequency_hz q)) @ ''<eor>'')"


section \<open>POTA\<close>

definition coalesce_refs :: "string list option \<Rightarrow> string list" where
  "coalesce_refs r = (case r of None \<Rightarrow> [] | Some refs \<Rightarrow> refs)"

definition trimmed_opt :: "string option \<Rightarrow> string option" where
  "trimmed_opt v = (case v of None \<Rightarrow> None | Some s \<Rightarrow> if TrimSpace s = [] then None else Some (TrimSpace s))"

definition pota_record :: "pendingQSORow \<Rightarrow> Record" where
  "pota_record row =
     (let q = p_QSO row;
          myRef = Join '','' (coalesce_refs (sq_my_pota_refs q));
          refs = coalesce_refs (sq_pota_refs q);
          theirRef = Join '','' refs in
      fst (CanonicalizeRecordMode \<lparr>r_Fields =
        [mk_field ''CALL'' (sq_callsign q), mk_field ''BAND'' (sq_band q), mk_field ''MODE'' (sq_mode q),
         mk_field ''QSO_DATE'' (Format_20060102 (sq_datetime_on q)), mk_field ''TIME_ON'' (Format_150405 (sq_datetime_on q)),
         mk_field ''MY_SIG'' ''POTA'']
        @ (if myRef \<noteq> [] then [mk_field ''MY_SIG_INFO'' myRef, mk_field ''MY_POTA_REF'' myRef] else [])
        @ (if refs \<noteq> [] then
             [mk_field ''SIG'' (case trimmed_opt (sq_sig q) of None \<Rightarrow> ''POTA'' | Some s \<Rightarrow> s),
              mk_field ''SIG_INFO'' theirRef, mk_field ''POTA_REF'' theirRef]
           else opt_field ''SIG'' (trimmed_opt (sq_sig q)))
        @ opt_field ''SIG_INFO'' (trimmed_opt (sq_sig_info q))
        @ opt_field ''RST_SENT'' (sq_rst_sent q) @ opt_field ''RST_RCVD'' (sq_rst_rcvd q)
        @ opt_field ''GRIDSQUARE'' (sq_gridsquare q) @ opt_field ''MY_GRIDSQUARE'' (sq_my_gridsquare q)
        @ opt_field ''STATION_CALLSIGN'' (sq_station_callsign q) @ freq_field (sq_frequency_hz q)\<rparr>))"

definition potaQSOsToADIF :: "pendingQSORow list \<Rightarrow> WriteErr + string" where
  "potaQSOsToADIF rows =
     (case WriteRecords (NewWriter None) (map pota_record rows) of
        (w, Some e) \<Rightarrow> Inl e
      | (w, None) \<Rightarrow> Inr (w_out w))"

definition fetchPendingPOTAQSOs :: "int \<Rightarrow> sync_db \<Rightarrow> int \<Rightarrow> nat \<Rightarrow> pendingQSORow list" where
  "fetchPendingPOTAQSOs now db userID limit =
     map (pending_row db) (take limit (sort_key ss_created_at
       (filter (\<lambda>r. fetchable now ''pota'' userID db r \<and>
                    (case qso_of db (ss_qso_id r) of Some q \<Rightarrow> has_pota q | None \<Rightarrow> False)) (sd_sync db))))"


section \<open>SOTA\<close>

definition fetchPendingSOTAQSOs :: "int \<Rightarrow> sync_db \<Rightarrow> int \<Rightarrow> nat \<Rightarrow> pendingQSORow list" where
  "fetchPendingSOTAQSOs now db userID limit =
     map (pending_row db) (take limit (sort_key ss_created_at
       (filter (\<lambda>r. fetchable now ''sota'' userID db r \<and>
                    (case qso_of db (ss_qso_id r) of Some q \<Rightarrow> has_sota q | None \<Rightarrow> False)) (sd_sync db))))"

definition BandToSOTAMHz :: "string \<Rightarrow> string" where
  "BandToSOTAMHz band =
     (case map_of [(''160m'', ''1.8MHz''), (''80m'', ''3.5MHz''), (''60m'', ''5MHz''), (''40m'', ''7MHz''), (''30m'', ''10MHz''),
                   (''20m'', ''14MHz''), (''17m'', ''18MHz''), (''15m'', ''21MHz''), (''12m'', ''24MHz''), (''10m'', ''28MHz''),
                   (''6m'', ''50MHz''), (''4m'', ''70MHz''), (''2m'', ''144MHz''), (''1.25m'', ''222MHz''),
                   (''70cm'', ''430MHz''), (''33cm'', ''900MHz''), (''23cm'', ''1240MHz'')] (ToLower (TrimSpace band)) of
        Some f \<Rightarrow> f
      | None \<Rightarrow> band)"

definition FormatSOTADate :: "int \<Rightarrow> string" where
  "FormatSOTADate t =
     (case civil_from_days (day_of t) of (y, m, d) \<Rightarrow> appendInt y 4 @ ''/'' @ appendInt (int m) 2 @ ''/'' @ appendInt d 2)"

definition FormatSOTATime :: "int \<Rightarrow> string" where
  "FormatSOTATime t = appendInt (sec_of t div 3600) 2 @ '':'' @ appendInt (sec_of t div 60 mod 60) 2"

text \<open>\<open>UPPER(TRIM(q.my_sota_ref))\<close>\<close>

definition my_sota_ref :: "sync_qso \<Rightarrow> string" where
  "my_sota_ref q = (case sq_my_sota_ref q of None \<Rightarrow> [] | Some s \<Rightarrow> ToUpper (sql_trim s))"

definition sota_line :: "pendingQSORow \<Rightarrow> string option" where
  "sota_line row =
     (let q = p_QSO row;
          myCallsign = (case sq_station_callsign q of None \<Rightarrow> [] | Some s \<Rightarrow> TrimSpace s);
          theirCallsign = ToUpper (TrimSpace (sq_callsign q)) in
      if my_sota_ref q = [] then None
      else if myCallsign = [] then None
      else if theirCallsign = [] then None
      else Some (''V2,'' @ myCallsign @ '','' @ my_sota_ref q @ '','' @ FormatSOTADate (sq_datetime_on q) @ '','' @
             FormatSOTATime (sq_datetime_on q) @ '','' @ BandToSOTAMHz (sq_band q) @ '','' @ ToUpper (TrimSpace (sq_mode q)) @ '','' @
             theirCallsign @ '','' @ (case sq_sota_ref q of None \<Rightarrow> [] | Some s \<Rightarrow> ToUpper (TrimSpace s)) @ '','' @ newline))"

fun buildSOTACSV :: "pendingQSORow list \<Rightarrow> string \<times> int list" where
  "buildSOTACSV [] = ([], [])"
| "buildSOTACSV (row # rows) =
     (case buildSOTACSV rows of (csv, ids) \<Rightarrow>
        (case sota_line row of None \<Rightarrow> (csv, ids) | Some l \<Rightarrow> (l @ csv, p_SyncID row # ids)))"


section \<open>Classification of errors\<close>

definition mentions :: "string list \<Rightarrow> string \<Rightarrow> bool" where
  "mentions words errMsg = (let s = ToLower (TrimSpace errMsg) in list_ex (Contains_str s) words)"

definition isClubLogAuthOrPermanentError :: "string \<Rightarrow> bool" where
  "isClubLogAuthOrPermanentError = mentions
     [''invalid'', ''authentication failed'', ''unauthorized'', ''forbidden'', ''invalid login'', ''credentials'', ''password'']"

definition isEQSLAuthOrPermanentError :: "string \<Rightarrow> bool" where
  "isEQSLAuthOrPermanentError = mentions
     [''authentication failed'', ''invalid username'', ''invalid user'', ''invalid password'', ''credentials missing'',
      ''suspended'', ''banned'']"

definition isQRZAuthOrPermanentError :: "string \<Rightarrow> bool" where
  "isQRZAuthOrPermanentError = mentions
     [''api key is invalid'', ''authentication failed'', ''invalid key'', ''subscription required'', ''lacks insert privileges'',
      ''credentials missing'', ''suspended'', ''banned'']"

definition hamqth_IsAuthOrPermanentError :: "string \<Rightarrow> bool" where
  "hamqth_IsAuthOrPermanentError = mentions
     [''wrong username'', ''wrong password'', ''invalid user'', ''authentication failed'', ''incorrect'', ''suspended'', ''banned'',
      ''credentials missing'']"

definition isHamQTHAuthOrPermanentError :: "string \<Rightarrow> bool" where
  "isHamQTHAuthOrPermanentError errMsg \<longleftrightarrow>
     mentions [''wrong username'', ''wrong password'', ''invalid user'', ''authentication failed'', ''incorrect'', ''suspended'',
               ''banned'', ''credentials missing''] errMsg
     \<or> hamqth_IsAuthOrPermanentError errMsg"

definition isPOTAAuthOrPermanentError :: "string \<Rightarrow> bool" where
  "isPOTAAuthOrPermanentError = mentions
     [''http 401'', ''http 403'', ''unauthorized'', ''forbidden'', ''invalid token'', ''missing token'', ''pota_auth_url'']"

definition isSOTAAuthOrPermanentError :: "string \<Rightarrow> bool" where
  "isSOTAAuthOrPermanentError = mentions
     [''authentication failed'', ''unauthorized'', ''forbidden'', ''invalid api key'', ''invalid token'', ''token is invalid'',
      ''401'', ''403'']"

definition isTransientSyncError :: "string \<Rightarrow> bool" where
  "isTransientSyncError = mentions
     [''timeout'', ''deadline exceeded'', ''connection refused'', ''connection reset'', ''temporary'', ''rate limit'',
      ''too many requests'', '' 429'', ''status 429'', ''status 500'', ''status 502'', ''status 503'', ''status 504'']"

end
