(* ===== verification/Sync_Workers.thy ===== *)
theory Sync_Workers
  imports Sync_Format
begin

text \<open>
  The upload workers of \<open>api/internal/services/sync\<close>: Club Log (\<open>orchestrator.go\<close>), eQSL, HamQTH, QRZ, POTA and SOTA, with
  \<open>BaseSyncWorker\<close> and the health report.

  A job is a function of the database and of an environment that holds everything from outside: the clocks, which
  statements succeed, and the answers of the external service.  It returns the database, a trace of its calls of the rate limiter and of the
  requests it sent, and what it tells the job queue.
  Decoding a credential is \<open>json.Unmarshal\<close> and a check for empty fields; its success is an argument.
\<close>

section \<open>Environments\<close>

datatype request = ReqADIF string | ReqInsert string | ReqReplace string string | ReqCSV string

text \<open>A call of \<open>ConsumeRateLimit\<close> with its result, and a request sent right after a call that was admitted, both with the time of that call.\<close>

datatype wk_event = RateCall string bool int "DbErr + bool" | Sent string int request

datatype job_result = JobDone | JobSnooze int | JobErr string

text \<open>One round of a loop.  An answer is an error text or the identifier that the service assigned.\<close>

record step_env =
  st_now :: int
  st_dbnow :: int
  st_rate_ok :: bool
  st_send :: "request \<Rightarrow> string + string"
  st_record_ok :: bool
  st_mark_ok :: "int \<Rightarrow> bool"
  st_fail_ok :: bool
  st_rnd :: float64

record work_env =
  we_cipher :: cipher
  we_keyring :: "Keyring option"
  we_cfg :: InfraConfig
  we_undef :: int
  we_now :: int
  we_dbnow :: int
  we_circuit_ok :: bool
  we_creds_ok :: bool
  we_decode :: "string \<Rightarrow> bool"
  we_mark_ok :: bool
  we_fetch_ok :: bool
  we_apikey :: string
  we_step :: "nat \<Rightarrow> step_env"


section \<open>Shared steps\<close>

text \<open>
  \<open>decryptServiceCredentials\<close>: \<open>Inl\<close> is an error, \<open>Inr None\<close> means not configured.  Opening an empty message gives a nil slice, which the callers
  take for a missing credential.
\<close>

definition decryptServiceCredentials :: "work_env \<Rightarrow> int \<Rightarrow> string \<Rightarrow> sync_db \<Rightarrow> unit + string option" where
  "decryptServiceCredentials e userID service db =
     (if \<not> we_creds_ok e then Inl ()
      else case GetCredential userID service (sd_creds db) of
        None \<Rightarrow> Inr None
      | Some row \<Rightarrow>
          (case we_keyring e of
             None \<Rightarrow> Inl ()
           | Some kr \<Rightarrow>
               (case Decrypt (we_cipher e) kr userID (cr_key_version row) (cr_credentials row) of
                  Inl _ \<Rightarrow> Inl ()
                | Inr p \<Rightarrow> Inr (if p = [] then None else Some p))))"

definition check_circuit :: "work_env \<Rightarrow> string \<Rightarrow> sync_db \<Rightarrow> sync_db \<times> job_result option" where
  "check_circuit e service db =
     (case AllowCircuit (we_cfg e) (we_circuit_ok e) (we_now e) (we_dbnow e) (sd_circuit db) service of
        (tbl, Inl _) \<Rightarrow> (db\<lparr>sd_circuit := tbl\<rparr>, Some (JobErr (service @ '' circuit check'')))
      | (tbl, Inr (ok, retryAfter)) \<Rightarrow>
          (db\<lparr>sd_circuit := tbl\<rparr>, if ok then None else Some (JobSnooze retryAfter)))"

definition check_rate :: "work_env \<Rightarrow> step_env \<Rightarrow> string \<Rightarrow> int \<Rightarrow> sync_db \<Rightarrow> sync_db \<times> wk_event \<times> job_result option" where
  "check_rate e s service snooze db =
     (case ConsumeRateLimit (we_cfg e) (st_rate_ok s) (st_dbnow s) (sd_rates db) service of
        (tbl, res) \<Rightarrow>
          (db\<lparr>sd_rates := tbl\<rparr>, RateCall service (st_rate_ok s) (st_dbnow s) res,
           case res of
             Inl _ \<Rightarrow> Some (JobErr (service @ '' rate limit check''))
           | Inr ok \<Rightarrow> if ok then None else Some (JobSnooze snooze)))"

definition record_failure :: "work_env \<Rightarrow> step_env \<Rightarrow> string \<Rightarrow> string \<Rightarrow> sync_db \<Rightarrow> sync_db" where
  "record_failure e s service errText db =
     db\<lparr>sd_circuit := fst (RecordFailure (we_cfg e) (st_record_ok s) (st_dbnow s) (sd_circuit db) service errText)\<rparr>"

definition record_success :: "step_env \<Rightarrow> string \<Rightarrow> sync_db \<Rightarrow> sync_db" where
  "record_success s service db =
     db\<lparr>sd_circuit := fst (RecordSuccess (st_record_ok s) (st_dbnow s) (sd_circuit db) service)\<rparr>"

record messages =
  ms_undecryptable :: string
  ms_missing :: string
  ms_invalid :: string

text \<open>The beginning of every upload worker; \<open>None\<close> means that the job goes on.\<close>

definition upload_prologue :: "work_env \<Rightarrow> string \<Rightarrow> messages \<Rightarrow> int \<Rightarrow> sync_db \<Rightarrow> sync_db \<times> job_result option" where
  "upload_prologue e service ms userID db =
     (let give_up = (\<lambda>msg db1. (fst (markAllPendingFailed (we_mark_ok e) (we_dbnow e) service userID msg db1), Some JobDone)) in
      case check_circuit e service db of
        (db1, Some r) \<Rightarrow> (db1, Some r)
      | (db1, None) \<Rightarrow>
          (case decryptServiceCredentials e userID service db1 of
             Inl _ \<Rightarrow> give_up (ms_undecryptable ms) db1
           | Inr None \<Rightarrow> give_up (ms_missing ms) db1
           | Inr (Some plaintext) \<Rightarrow> if we_decode e plaintext then (db1, None) else give_up (ms_invalid ms) db1))"

definition mark_errors :: "work_env \<Rightarrow> step_env \<Rightarrow> string \<Rightarrow> string \<Rightarrow> string \<Rightarrow> pendingQSORow list \<Rightarrow> sync_db \<Rightarrow> sync_db" where
  "mark_errors e s service errText code rows db =
     fold (\<lambda>row. markSyncError \<lparr>rt_cfg = we_cfg e, rt_undef = we_undef e, rt_rnd = st_rnd s, rt_now = st_now s\<rparr> (st_mark_ok s (p_SyncID row)) (st_dbnow s)
                   service (p_SyncID row) (p_RetryCount row) errText code) rows db"

definition mark_uploads :: "step_env \<Rightarrow> int list \<Rightarrow> sync_db \<Rightarrow> sync_db" where
  "mark_uploads s ids db = fold (\<lambda>i. markUploaded (st_mark_ok s i) (st_dbnow s) i []) ids db"

text \<open>What a failed request leads to: the job ends (\<open>Inl\<close>), or the rows are marked and it goes on.\<close>

record service =
  sv_name :: string
  sv_permanent :: "string \<Rightarrow> bool"
  sv_auth_msg :: string
  sv_code :: string
  sv_what :: string

definition failed_request ::
  "service \<Rightarrow> work_env \<Rightarrow> step_env \<Rightarrow> int \<Rightarrow> pendingQSORow list \<Rightarrow> string \<Rightarrow> sync_db \<Rightarrow> sync_db \<times> job_result option" where
  "failed_request sv e s userID rows errText db =
     (if sv_permanent sv errText then
        (fst (markAllPendingFailed (st_fail_ok s) (st_dbnow s) (sv_name sv) userID (sv_auth_msg sv) db), Some JobDone)
      else if isTransientSyncError errText then
        (record_failure e s (sv_name sv) errText db, Some (JobErr (sv_name sv @ '' transient '' @ sv_what sv @ '' failure: '' @ errText)))
      else
        (mark_errors e s (sv_name sv) errText (sv_code sv) rows (record_failure e s (sv_name sv) errText db), None))"


section \<open>Batch uploads\<close>

function chunks :: "nat \<Rightarrow> 'a list \<Rightarrow> 'a list list" where
  "chunks n [] = []"
| "chunks n (x # xs) = take (Suc n) (x # xs) # chunks n (drop n xs)"
  by pat_completeness auto
termination
  by (relation "measure (\<lambda>(_, xs). length xs)") auto

fun upload_batches ::
  "service \<Rightarrow> work_env \<Rightarrow> int \<Rightarrow> nat \<Rightarrow> pendingQSORow list list \<Rightarrow> sync_db \<Rightarrow> sync_db \<times> wk_event list \<times> job_result" where
  "upload_batches sv e userID i [] db = (db, [], JobDone)"
| "upload_batches sv e userID i (batch # batches) db =
     (let s = we_step e i in
      case check_rate e s (sv_name sv) Second db of
        (db1, ev, Some r) \<Rightarrow> (db1, [ev], r)
      | (db1, ev, None) \<Rightarrow>
          (case qsosToADIF batch of
             Inl _ \<Rightarrow> (case upload_batches sv e userID (i + 1) batches db1 of (db', tr, r) \<Rightarrow> (db', ev # tr, r))
           | Inr adifData \<Rightarrow>
               (case st_send s (ReqADIF adifData) of
                  Inl errText \<Rightarrow>
                    (case failed_request sv e s userID batch errText db1 of
                       (db2, Some r) \<Rightarrow> (db2, [ev, Sent (sv_name sv) (st_dbnow s) (ReqADIF adifData)], r)
                     | (db2, None) \<Rightarrow>
                         (case upload_batches sv e userID (i + 1) batches db2 of
                            (db', tr, r) \<Rightarrow> (db', ev # Sent (sv_name sv) (st_dbnow s) (ReqADIF adifData) # tr, r)))
                | Inr _ \<Rightarrow>
                    (case upload_batches sv e userID (i + 1) batches
                            (mark_uploads s (map p_SyncID batch) (record_success s (sv_name sv) db1)) of
                       (db', tr, r) \<Rightarrow> (db', ev # Sent (sv_name sv) (st_dbnow s) (ReqADIF adifData) # tr, r)))))"

definition clublog_service :: service where
  "clublog_service =
     \<lparr>sv_name = ''clublog'', sv_permanent = isClubLogAuthOrPermanentError,
      sv_auth_msg = ''Invalid Club Log credentials. Re-save your email/password/callsign in Settings.'', sv_code = ''upload_failed'',
      sv_what = ''upload''\<rparr>"

definition clublog_messages :: messages where
  "clublog_messages =
     \<lparr>ms_undecryptable = ''Club Log credentials could not be decrypted. Re-save in Settings.'',
      ms_missing = ''No Club Log credentials configured. Add credentials in Settings to sync.'',
      ms_invalid = ''Invalid Club Log credentials. Re-save your email/password/callsign in Settings.''\<rparr>"

definition ClubLogUploadWorker_Work :: "work_env \<Rightarrow> int \<Rightarrow> sync_db \<Rightarrow> sync_db \<times> wk_event list \<times> job_result" where
  "ClubLogUploadWorker_Work e userID db =
     (case upload_prologue e ''clublog'' clublog_messages userID db of
        (db1, Some r) \<Rightarrow> (db1, [], r)
      | (db1, None) \<Rightarrow>
          if \<not> we_fetch_ok e then (db1, [], JobErr ''fetch pending clublog qsos'')
          else
            let pending = fetchPendingQSOs (we_dbnow e) db1 ''clublog'' userID 500 in
            if pending = [] then (db1, [], JobDone)
            else if TrimSpace (we_apikey e) = [] then
              (fst (markAllPendingFailed (we_mark_ok e) (we_dbnow e) ''clublog'' userID
                      ''Club Log sync is unavailable: server missing CLUBLOG_API_KEY configuration.'' db1), [], JobDone)
            else upload_batches clublog_service e userID 0 (chunks 99 pending) db1)"

definition eqsl_service :: service where
  "eqsl_service =
     \<lparr>sv_name = ''eqsl'', sv_permanent = isEQSLAuthOrPermanentError,
      sv_auth_msg = ''Invalid eQSL credentials. Re-save your username/password in Settings.'', sv_code = ''upload_failed'',
      sv_what = ''upload''\<rparr>"

definition eqsl_messages :: messages where
  "eqsl_messages =
     \<lparr>ms_undecryptable = ''eQSL credentials could not be decrypted. Re-save in Settings.'',
      ms_missing = ''No eQSL credentials configured. Add credentials in Settings to sync.'',
      ms_invalid = ''Invalid eQSL credentials. Re-save your username/password in Settings.''\<rparr>"

definition EQSLUploadWorker_Work :: "work_env \<Rightarrow> int \<Rightarrow> sync_db \<Rightarrow> sync_db \<times> wk_event list \<times> job_result" where
  "EQSLUploadWorker_Work e userID db =
     (case upload_prologue e ''eqsl'' eqsl_messages userID db of
        (db1, Some r) \<Rightarrow> (db1, [], r)
      | (db1, None) \<Rightarrow>
          if \<not> we_fetch_ok e then (db1, [], JobErr ''fetch pending eqsl qsos'')
          else
            let pending = fetchPendingQSOs (we_dbnow e) db1 ''eqsl'' userID 500 in
            if pending = [] then (db1, [], JobDone)
            else upload_batches eqsl_service e userID 0 (chunks 99 pending) db1)"

definition hamqth_service :: service where
  "hamqth_service =
     \<lparr>sv_name = ''hamqth'', sv_permanent = isHamQTHAuthOrPermanentError,
      sv_auth_msg = ''Invalid HamQTH credentials. Re-save your username/password in Settings.'', sv_code = ''upload_failed'',
      sv_what = ''upload''\<rparr>"

definition hamqth_messages :: messages where
  "hamqth_messages =
     \<lparr>ms_undecryptable = ''HamQTH credentials could not be decrypted. Re-save in Settings.'',
      ms_missing = ''No HamQTH credentials configured. Add your username/password in Settings to sync.'',
      ms_invalid = ''Invalid HamQTH credentials. Re-save your username/password in Settings.''\<rparr>"

definition HamQTHUploadWorker_Work :: "work_env \<Rightarrow> int \<Rightarrow> sync_db \<Rightarrow> sync_db \<times> wk_event list \<times> job_result" where
  "HamQTHUploadWorker_Work e userID db =
     (case upload_prologue e ''hamqth'' hamqth_messages userID db of
        (db1, Some r) \<Rightarrow> (db1, [], r)
      | (db1, None) \<Rightarrow>
          if \<not> we_fetch_ok e then (db1, [], JobErr ''fetch pending hamqth qsos'')
          else
            let pending = fetchPendingQSOs (we_dbnow e) db1 ''hamqth'' userID 500 in
            if pending = [] then (db1, [], JobDone)
            else upload_batches hamqth_service e userID 0 (chunks 49 pending) db1)"


section \<open>QRZ: one request per contact\<close>

definition qrz_service :: service where
  "qrz_service =
     \<lparr>sv_name = ''qrz'', sv_permanent = isQRZAuthOrPermanentError,
      sv_auth_msg = ''Invalid QRZ credentials. Re-save your API key in Settings.'', sv_code = ''insert_failed'',
      sv_what = ''insert''\<rparr>"

definition qrz_messages :: messages where
  "qrz_messages =
     \<lparr>ms_undecryptable = ''QRZ credentials could not be decrypted. Re-save in Settings.'',
      ms_missing = ''No QRZ credentials configured. Add your API key in Settings to sync.'',
      ms_invalid = ''Invalid QRZ credentials. Re-save your API key in Settings.''\<rparr>"

definition qrz_request :: "pendingQSORow \<Rightarrow> request" where
  "qrz_request row =
     (let adif = qsoRowToSingleADIF row in
      case p_RemoteID row of
        Some rid \<Rightarrow> if p_SyncStatus row = StDirty \<and> TrimSpace rid \<noteq> [] then ReqReplace (TrimSpace rid) adif else ReqInsert adif
      | None \<Rightarrow> ReqInsert adif)"

fun qrz_rows :: "work_env \<Rightarrow> int \<Rightarrow> nat \<Rightarrow> pendingQSORow list \<Rightarrow> sync_db \<Rightarrow> sync_db \<times> wk_event list \<times> job_result" where
  "qrz_rows e userID i [] db = (db, [], JobDone)"
| "qrz_rows e userID i (row # rows) db =
     (let s = we_step e i; req = qrz_request row in
      case check_rate e s ''qrz'' (Second div 2) db of
        (db1, ev, Some r) \<Rightarrow> (db1, [ev], r)
      | (db1, ev, None) \<Rightarrow>
          (case st_send s req of
             Inl errText \<Rightarrow>
               if Contains_str (ToLower errText) ''duplicate'' then
                 (case qrz_rows e userID (i + 1) rows (mark_uploads s [p_SyncID row] db1) of
                    (db', tr, r) \<Rightarrow> (db', ev # Sent ''qrz'' (st_dbnow s) req # tr, r))
               else
                 (case failed_request qrz_service e s userID [row] errText db1 of
                    (db2, Some r) \<Rightarrow> (db2, [ev, Sent ''qrz'' (st_dbnow s) req], r)
                  | (db2, None) \<Rightarrow>
                      (case qrz_rows e userID (i + 1) rows db2 of (db', tr, r) \<Rightarrow> (db', ev # Sent ''qrz'' (st_dbnow s) req # tr, r)))
           | Inr logID \<Rightarrow>
               (case qrz_rows e userID (i + 1) rows
                       (markUploaded (st_mark_ok s (p_SyncID row)) (st_dbnow s) (p_SyncID row) logID (record_success s ''qrz'' db1)) of
                  (db', tr, r) \<Rightarrow> (db', ev # Sent ''qrz'' (st_dbnow s) req # tr, r))))"

definition QRZUploadWorker_Work :: "work_env \<Rightarrow> int \<Rightarrow> sync_db \<Rightarrow> sync_db \<times> wk_event list \<times> job_result" where
  "QRZUploadWorker_Work e userID db =
     (case upload_prologue e ''qrz'' qrz_messages userID db of
        (db1, Some r) \<Rightarrow> (db1, [], r)
      | (db1, None) \<Rightarrow>
          if \<not> we_fetch_ok e then (db1, [], JobErr ''fetch pending qrz qsos'')
          else qrz_rows e userID 0 (fetchPendingQSOs (we_dbnow e) db1 ''qrz'' userID 200) db1)"


section \<open>POTA and SOTA: one request per job\<close>

text \<open>One request for all pending rows; \<open>ids\<close> are the rows to mark when it succeeds.\<close>

definition upload_once ::
  "service \<Rightarrow> work_env \<Rightarrow> int \<Rightarrow> pendingQSORow list \<Rightarrow> request \<Rightarrow> int list \<Rightarrow> wk_event \<Rightarrow> sync_db \<Rightarrow> sync_db \<times> wk_event list \<times> job_result" where
  "upload_once sv e userID pending req ids ev db =
     (let s = we_step e 0 in
      case st_send s req of
        Inl errText \<Rightarrow>
          (case failed_request sv e s userID pending errText db of
             (db2, r) \<Rightarrow> (db2, [ev, Sent (sv_name sv) (st_dbnow s) req], case r of Some x \<Rightarrow> x | None \<Rightarrow> JobDone))
      | Inr _ \<Rightarrow> (mark_uploads s ids (record_success s (sv_name sv) db), [ev, Sent (sv_name sv) (st_dbnow s) req], JobDone))"

definition pota_service :: service where
  "pota_service =
     \<lparr>sv_name = ''pota'', sv_permanent = isPOTAAuthOrPermanentError,
      sv_auth_msg = ''POTA authentication failed. Re-save your POTA JWT token in Settings.'', sv_code = ''upload_failed'',
      sv_what = ''upload''\<rparr>"

definition pota_messages :: messages where
  "pota_messages =
     \<lparr>ms_undecryptable = ''POTA credentials could not be decrypted. Re-save in Settings.'',
      ms_missing = ''No POTA credentials configured. Add your POTA JWT token in Settings to sync.'',
      ms_invalid = ''Invalid POTA credentials. Re-save your POTA JWT token in Settings.''\<rparr>"

definition POTAUploadWorker_Work :: "work_env \<Rightarrow> int \<Rightarrow> sync_db \<Rightarrow> sync_db \<times> wk_event list \<times> job_result" where
  "POTAUploadWorker_Work e userID db =
     (case upload_prologue e ''pota'' pota_messages userID db of
        (db1, Some r) \<Rightarrow> (db1, [], r)
      | (db1, None) \<Rightarrow>
          if \<not> we_fetch_ok e then (db1, [], JobErr ''fetch pending pota qsos'')
          else
            let pending = fetchPendingPOTAQSOs (we_dbnow e) db1 userID 1000 in
            if pending = [] then (db1, [], JobDone)
            else (case check_rate e (we_step e 0) ''pota'' Second db1 of
                    (db2, ev, Some r) \<Rightarrow> (db2, [ev], r)
                  | (db2, ev, None) \<Rightarrow>
                      (case potaQSOsToADIF pending of
                         Inl _ \<Rightarrow> (db2, [ev], JobErr ''format pota adif'')
                       | Inr adif \<Rightarrow> upload_once pota_service e userID pending (ReqADIF adif) (map p_SyncID pending) ev db2)))"

definition sota_service :: service where
  "sota_service =
     \<lparr>sv_name = ''sota'', sv_permanent = isSOTAAuthOrPermanentError,
      sv_auth_msg = ''Invalid SOTA API key. Re-save your API key in Settings.'', sv_code = ''upload_failed'',
      sv_what = ''upload''\<rparr>"

definition sota_messages :: messages where
  "sota_messages =
     \<lparr>ms_undecryptable = ''SOTA credentials could not be decrypted. Re-save your API key in Settings.'',
      ms_missing = ''No SOTA credentials configured. Add your SOTA API key in Settings to sync.'',
      ms_invalid = ''Invalid SOTA credentials. Re-save your API key in Settings.''\<rparr>"

definition SOTAUploadWorker_Work :: "work_env \<Rightarrow> int \<Rightarrow> sync_db \<Rightarrow> sync_db \<times> wk_event list \<times> job_result" where
  "SOTAUploadWorker_Work e userID db =
     (case upload_prologue e ''sota'' sota_messages userID db of
        (db1, Some r) \<Rightarrow> (db1, [], r)
      | (db1, None) \<Rightarrow>
          if \<not> we_fetch_ok e then (db1, [], JobErr ''fetch pending sota qsos'')
          else
            let pending = fetchPendingSOTAQSOs (we_dbnow e) db1 userID 200 in
            if pending = [] then (db1, [], JobDone)
            else (case check_rate e (we_step e 0) ''sota'' Second db1 of
                    (db2, ev, Some r) \<Rightarrow> (db2, [ev], r)
                  | (db2, ev, None) \<Rightarrow>
                      (case buildSOTACSV pending of
                         (csv, ids) \<Rightarrow>
                           if csv = [] then (db2, [ev], JobDone)
                           else upload_once sota_service e userID pending (ReqCSV csv) ids ev db2)))"


section \<open>The shared workflow and the health report\<close>

definition BaseSyncWorker_Handle ::
  "work_env \<Rightarrow> string \<Rightarrow> (sync_db \<Rightarrow> sync_db \<times> string option) \<Rightarrow> sync_db \<Rightarrow> sync_db \<times> job_result" where
  "BaseSyncWorker_Handle e service execute db =
     (let s = we_step e 0 in
      case check_circuit e service db of
        (db1, Some r) \<Rightarrow> (db1, r)
      | (db1, None) \<Rightarrow>
          (case check_rate e s service Second db1 of
             (db2, _, Some r) \<Rightarrow> (db2, r)
           | (db2, _, None) \<Rightarrow>
               (case execute db2 of
                  (db3, Some err) \<Rightarrow> (record_failure e s service err db3, JobErr err)
                | (db3, None) \<Rightarrow>
                    (record_success s service db3, if st_record_ok s then JobDone else JobErr ''record success''))))"

definition service_health :: "InfraConfig \<Rightarrow> (string \<Rightarrow> bool) \<Rightarrow> int \<Rightarrow> sync_db \<Rightarrow> string \<Rightarrow> string" where
  "service_health cfg ok dbnow db svc =
     (if Infra_CircuitState (ok svc) (sd_circuit db) svc = (CircuitOpen, None) then ''circuit_open''
      else if IsRateLimitedNow cfg (ok svc) dbnow (sd_rates db) svc = Inr True then ''rate_limited''
      else ''ok'')"

definition GetGlobalServiceHealth :: "InfraConfig \<Rightarrow> (string \<Rightarrow> bool) \<Rightarrow> int \<Rightarrow> sync_db \<Rightarrow> (string \<times> string) list" where
  "GetGlobalServiceHealth cfg ok dbnow db =
     map (\<lambda>svc. (svc, service_health cfg ok dbnow db svc)) [''eqsl'', ''clublog'', ''lotw'', ''qrz'']"

definition GetServiceHealthForUser :: "InfraConfig \<Rightarrow> (string \<Rightarrow> bool) \<Rightarrow> int \<Rightarrow> sync_db \<Rightarrow> int \<Rightarrow> (string \<times> string) list" where
  "GetServiceHealthForUser cfg ok dbnow db userID =
     map (\<lambda>svc. (svc, if svc \<in> set (active_services db userID) then service_health cfg ok dbnow db svc else ''not_configured''))
       [''eqsl'', ''clublog'', ''lotw'', ''qrz'', ''pota'']"

end
