(* ===== verification/Sync_Jobs.thy ===== *)
theory Sync_Jobs
  imports Sync_Workers Sync_Limits
begin

text \<open>
  What every upload job keeps: the invariant of \<open>sync_status\<close>, the rows of other users and services, the state machine of a row, and the rate limit.
  The locale \<open>sync_jobs\<close> states the contract of a family of jobs and draws its consequences for sequences of jobs; the six
  upload workers are its interpretation.
\<close>

section \<open>The invariant of the table\<close>

definition row_ok :: "sync_row \<Rightarrow> bool" where
  "row_ok r \<longleftrightarrow>
     0 \<le> ss_retry_count r \<and> ss_retry_count r \<le> MaxInt16 \<and>
     (ss_status r = StUploaded \<longrightarrow> ss_remote_id r \<noteq> None \<and> ss_last_synced_at r \<noteq> None \<and> ss_retry_count r = 0 \<and>
        ss_next_retry_at r = None \<and> ss_error_message r = None) \<and>
     (ss_status r = StError \<longrightarrow> ss_error_message r \<noteq> None \<and> ss_last_error_code r \<noteq> None)"

definition ident :: "sync_row \<Rightarrow> int \<times> int \<times> string \<times> int" where
  "ident r = (ss_id r, ss_qso_id r, ss_service r, ss_created_at r)"

definition sync_ok :: "sync_db \<Rightarrow> bool" where
  "sync_ok db \<longleftrightarrow>
     distinct (map ss_id (sd_sync db)) \<and> distinct (map (\<lambda>r. (ss_qso_id r, ss_service r)) (sd_sync db)) \<and>
     (\<forall>r \<in> set (sd_sync db). ss_id r < sd_next_id db \<and> row_ok r)"


section \<open>Steps\<close>

abbreviation open_status :: "status \<Rightarrow> bool" where
  "open_status s \<equiv> s \<in> {StPending, StDirty, StError}"

definition owned :: "string \<Rightarrow> int \<Rightarrow> sync_db \<Rightarrow> sync_row \<Rightarrow> bool" where
  "owned svc u db r \<longleftrightarrow> ss_service r = svc \<and> row_user db r = Some u"

text \<open>A row keeps its identity; it changes only if it is owned and open, and then it is uploaded or an error.\<close>

definition row_step :: "(sync_row \<Rightarrow> bool) \<Rightarrow> sync_row \<Rightarrow> sync_row \<Rightarrow> bool" where
  "row_step own r r' \<longleftrightarrow>
     ident r' = ident r \<and> (row_ok r \<longrightarrow> row_ok r') \<and>
     (r' = r \<or> own r \<and> open_status (ss_status r) \<and> ss_status r' \<in> {StUploaded, StError})"

definition same_tables :: "sync_db \<Rightarrow> sync_db \<Rightarrow> bool" where
  "same_tables db db' \<longleftrightarrow>
     sd_qsos db' = sd_qsos db \<and> sd_logbooks db' = sd_logbooks db \<and> sd_creds db' = sd_creds db \<and>
     sd_awards db' = sd_awards db \<and> sd_next_id db' = sd_next_id db"

definition job_step :: "string \<Rightarrow> int \<Rightarrow> sync_db \<Rightarrow> sync_db \<Rightarrow> bool" where
  "job_step svc u db db' \<longleftrightarrow>
     same_tables db db' \<and>
     (\<forall>s. s \<noteq> svc \<longrightarrow> sd_circuit db' s = sd_circuit db s) \<and>
     (\<forall>s b. s \<noteq> svc \<longrightarrow> sd_rates db' (s, b) = sd_rates db (s, b)) \<and>
     list_all2 (row_step (owned svc u db)) (sd_sync db) (sd_sync db')"

lemma row_user_cong: "same_tables db db' \<Longrightarrow> row_user db' r = row_user db r"
  by (simp add: same_tables_def row_user_def qso_of_def qso_user_def split: option.splits)

lemma owned_cong: "same_tables db db' \<Longrightarrow> owned svc u db' r = owned svc u db r"
  by (simp add: owned_def row_user_cong)

lemma owned_ident: "ident r' = ident r \<Longrightarrow> owned svc u db r' = owned svc u db r"
  by (simp add: owned_def ident_def row_user_def)

lemma row_step_refl [simp]: "row_step own r r"
  by (simp add: row_step_def)

lemma row_step_trans:
  "(\<And>x y. ident x = ident y \<Longrightarrow> own x = own y) \<Longrightarrow> row_step own r s \<Longrightarrow> row_step own s t \<Longrightarrow> row_step own r t"
  unfolding row_step_def by (metis (no_types, opaque_lifting))

lemma job_step_refl [simp]: "job_step svc u db db"
  by (simp add: job_step_def same_tables_def list.rel_refl_strong)

lemma job_step_trans:
  assumes "job_step svc u a b" "job_step svc u b c"
  shows "job_step svc u a c"
proof -
  have st: "same_tables a b" using assms(1) by (simp add: job_step_def)
  then have own: "owned svc u b = owned svc u a" by (intro ext) (rule owned_cong)
  have "list_all2 (row_step (owned svc u a)) (sd_sync a) (sd_sync c)"
  proof (rule list_all2_trans)
    show "row_step (owned svc u a) r s \<Longrightarrow> row_step (owned svc u a) s t \<Longrightarrow> row_step (owned svc u a) r t" for r s t
      by (rule row_step_trans [OF owned_ident])
  qed (use assms own in \<open>auto simp: job_step_def\<close>)
  with assms st show ?thesis by (auto simp: job_step_def same_tables_def)
qed

lemma job_step_update:
  assumes "\<And>r. r \<in> set (sd_sync db) \<Longrightarrow> P r \<Longrightarrow> row_step (owned svc u db) r (f r)"
  shows "job_step svc u db (update_sync P f db)"
  using assms by (auto simp: job_step_def same_tables_def update_sync_def list_all2_map2 intro!: list.rel_refl_strong)

lemma job_step_circuit:
  assumes "\<And>s. s \<noteq> svc \<Longrightarrow> tbl s = sd_circuit db s"
  shows "job_step svc u db (db\<lparr>sd_circuit := tbl\<rparr>)"
  using assms by (auto simp: job_step_def same_tables_def intro!: list.rel_refl_strong)

lemma job_step_rates:
  assumes "\<And>s b. s \<noteq> svc \<Longrightarrow> tbl (s, b) = sd_rates db (s, b)"
  shows "job_step svc u db (db\<lparr>sd_rates := tbl\<rparr>)"
  using assms by (auto simp: job_step_def same_tables_def intro!: list.rel_refl_strong)

lemma job_step_ident: "job_step svc u db db' \<Longrightarrow> map ident (sd_sync db') = map ident (sd_sync db)"
  by (auto simp: job_step_def row_step_def list_all2_conv_all_nth intro!: nth_equalityI)

lemma job_step_ok:
  assumes "job_step svc u db db'" "sync_ok db"
  shows "sync_ok db'"
proof -
  have id: "map ident (sd_sync db') = map ident (sd_sync db)" by (rule job_step_ident [OF assms(1)])
  have e: "map ss_id (sd_sync db') = map ss_id (sd_sync db)"
    using arg_cong [OF id, of "map fst"] by (simp add: ident_def comp_def)
  have e': "map (\<lambda>r. (ss_qso_id r, ss_service r)) (sd_sync db') = map (\<lambda>r. (ss_qso_id r, ss_service r)) (sd_sync db)"
    using arg_cong [OF id, of "map (\<lambda>(i, q, s, c). (q, s))"] by (simp add: ident_def comp_def)
  have n: "sd_next_id db' = sd_next_id db" using assms(1) by (simp add: job_step_def same_tables_def)
  have "ss_id r' < sd_next_id db' \<and> row_ok r'" if "r' \<in> set (sd_sync db')" for r'
  proof -
    obtain i where i: "i < length (sd_sync db')" "r' = sd_sync db' ! i" using \<open>r' \<in> _\<close> by (auto simp: in_set_conv_nth)
    have l: "list_all2 (row_step (owned svc u db)) (sd_sync db) (sd_sync db')" using assms(1) by (simp add: job_step_def)
    then have "sd_sync db ! i \<in> set (sd_sync db)" "row_step (owned svc u db) (sd_sync db ! i) r'"
      using i list_all2_nthD2 [OF l i(1)] by (simp_all add: list_all2_lengthD)
    then show ?thesis using assms(2) n by (auto simp: sync_ok_def row_step_def ident_def)
  qed
  with e e' assms(2) show ?thesis by (simp add: sync_ok_def)
qed


section \<open>The shared steps of the workers\<close>

lemma check_circuit_step: "check_circuit e svc db = (db', r) \<Longrightarrow> job_step svc u db db' \<and> sd_sync db' = sd_sync db \<and> sd_rates db' = sd_rates db"
  by (auto simp: check_circuit_def AllowCircuit_def Let_def split: prod.splits sum.splits if_splits CircuitState.splits option.splits
      intro!: job_step_circuit)

lemma ConsumeRateLimit_other: "ConsumeRateLimit cfg ok t tbl svc = (tbl', r) \<Longrightarrow> s \<noteq> svc \<Longrightarrow> tbl' (s, b) = tbl (s, b)"
  by (auto simp: ConsumeRateLimit_def Let_def split: if_splits)

lemma check_rate_step:
  "check_rate e s svc d db = (db', ev, r) \<Longrightarrow> job_step svc u db db' \<and> sd_sync db' = sd_sync db"
  by (auto simp: check_rate_def split: prod.splits intro!: job_step_rates dest: ConsumeRateLimit_other)

lemma record_failure_step: "job_step svc u db (record_failure e s svc err db)"
  unfolding record_failure_def by (rule job_step_circuit) (auto simp: RecordFailure_def Let_def)

lemma record_success_step: "job_step svc u db (record_success s svc db)"
  unfolding record_success_def by (rule job_step_circuit) (auto simp: RecordSuccess_def)

lemma record_frame [simp]:
  "sd_sync (record_failure e s svc err db) = sd_sync db" "sd_sync (record_success s svc db) = sd_sync db"
  "sd_rates (record_failure e s svc err db) = sd_rates db" "sd_rates (record_success s svc db) = sd_rates db"
  by (simp_all add: record_failure_def record_success_def)

lemma markAllPendingFailed_step: "job_step svc u db (fst (markAllPendingFailed ok now svc u msg db))"
  by (auto simp: markAllPendingFailed_def open_row_def owned_def row_step_def ident_def row_ok_def intro!: job_step_update)

text \<open>The rows that a job may still mark: their identifiers and the state they must be in.\<close>

definition eligible :: "string \<Rightarrow> int \<Rightarrow> sync_db \<Rightarrow> int \<Rightarrow> bool" where
  "eligible svc u db i \<longleftrightarrow> (\<forall>r \<in> set (sd_sync db). ss_id r = i \<longrightarrow> owned svc u db r \<and> open_status (ss_status r))"

lemma markUploaded_step: "eligible svc u db i \<Longrightarrow> job_step svc u db (markUploaded ok now i rid db)"
  by (auto simp: markUploaded_def eligible_def row_step_def ident_def row_ok_def MaxInt16_def intro!: job_step_update)

lemma markSyncError_step: "eligible svc u db i \<Longrightarrow> job_step svc u db (markSyncError re ok now svc i rc msg code db)"
  by (auto simp: markSyncError_def eligible_def row_step_def ident_def row_ok_def list_ex_iff not_less intro!: job_step_update)

lemma eligible_update:
  "eligible svc u db j \<Longrightarrow> (\<And>r. ident (f r) = ident r) \<Longrightarrow> j \<noteq> i \<Longrightarrow> eligible svc u (update_sync (\<lambda>r. ss_id r = i) f db) j"
proof -
  assume e: "eligible svc u db j" and f: "\<And>r. ident (f r) = ident r" and j: "j \<noteq> i"
  let ?db = "update_sync (\<lambda>r. ss_id r = i) f db"
  have "same_tables db ?db" by (simp add: same_tables_def update_sync_def)
  moreover have "ss_id (f r) = ss_id r" for r using f [of r] by (simp add: ident_def)
  ultimately show ?thesis
    using e j by (auto simp: eligible_def owned_cong) (auto simp: update_sync_def split: if_splits)
qed

lemma eligible_mark:
  "eligible svc u db j \<Longrightarrow> j \<noteq> i \<Longrightarrow> eligible svc u (markUploaded ok now i rid db) j"
  "eligible svc u db j \<Longrightarrow> j \<noteq> i \<Longrightarrow> eligible svc u (markSyncError re ok now svc' i rc msg code db) j"
  unfolding markUploaded_def markSyncError_def
  by (auto split: if_splits intro!: eligible_update simp: ident_def)

lemma eligible_frame:
  "eligible svc u db i \<Longrightarrow> sd_sync db' = sd_sync db \<Longrightarrow> same_tables db db' \<Longrightarrow> eligible svc u db' i"
  by (simp add: eligible_def owned_cong)

lemma fold_marks:
  assumes "\<And>x db. eligible svc u db (g x) \<Longrightarrow> job_step svc u db (m x db)"
    and "\<And>x db j. eligible svc u db j \<Longrightarrow> j \<noteq> g x \<Longrightarrow> eligible svc u (m x db) j"
    and "distinct (map g xs @ js)" "\<forall>i \<in> set (map g xs @ js). eligible svc u db i"
  shows "job_step svc u db (fold m xs db) \<and> (\<forall>j \<in> set js. eligible svc u (fold m xs db) j)"
  using assms(3,4)
proof (induction xs arbitrary: db)
  case (Cons x xs)
  have "job_step svc u db (m x db)" using assms(1) Cons.prems by simp
  moreover have "\<forall>i \<in> set (map g xs @ js). eligible svc u (m x db) i"
  proof
    fix i
    assume i: "i \<in> set (map g xs @ js)"
    then have "i \<noteq> g x" using Cons.prems(1) by auto
    with i Cons.prems(2) show "eligible svc u (m x db) i" by (intro assms(2)) auto
  qed
  ultimately show ?case using Cons.IH [of "m x db"] Cons.prems job_step_trans by fastforce
qed simp

lemma mark_uploads_step:
  assumes "distinct (ids @ js)" "\<forall>i \<in> set (ids @ js). eligible svc u db i"
  shows "job_step svc u db (mark_uploads s ids db) \<and> (\<forall>j \<in> set js. eligible svc u (mark_uploads s ids db) j)"
  unfolding mark_uploads_def using assms
  by (intro fold_marks [where g = id]) (auto intro: markUploaded_step eligible_mark)

lemma mark_errors_step:
  assumes "distinct (map p_SyncID rows @ js)" "\<forall>i \<in> set (map p_SyncID rows @ js). eligible svc u db i"
  shows "job_step svc u db (mark_errors e s svc err code rows db) \<and> (\<forall>j \<in> set js. eligible svc u (mark_errors e s svc err code rows db) j)"
  unfolding mark_errors_def using assms
  by (intro fold_marks [where g = p_SyncID]) (auto intro: markSyncError_step eligible_mark)



section \<open>Traces\<close>

text \<open>The calls of the rate limiter in a trace, replayed on the table they started from.\<close>

fun replay :: "InfraConfig \<Rightarrow> rl_table \<Rightarrow> wk_event list \<Rightarrow> rl_table option" where
  "replay cfg tbl [] = Some tbl"
| "replay cfg tbl (Sent s t q # tr) = replay cfg tbl tr"
| "replay cfg tbl (RateCall s ok t r # tr) =
     (case ConsumeRateLimit cfg ok t tbl s of (tbl', r') \<Rightarrow> if r' = r then replay cfg tbl' tr else None)"

text \<open>Every request follows an admitted call for its service, with the time of that call.\<close>

fun sends_ok :: "wk_event list \<Rightarrow> bool" where
  "sends_ok [] = True"
| "sends_ok (Sent s t q # tr) = False"
| "sends_ok (RateCall s ok t r # Sent s' t' q # tr) = (s' = s \<and> t' = t \<and> r = Inr True \<and> sends_ok tr)"
| "sends_ok (RateCall s ok t r # tr) = sends_ok tr"

lemma replay_append: "replay cfg tbl (a @ b) = (case replay cfg tbl a of None \<Rightarrow> None | Some tbl' \<Rightarrow> replay cfg tbl' b)"
  by (induction cfg tbl a rule: replay.induct) (auto split: prod.splits)

lemma sends_ok_Cons: "sends_ok tr \<Longrightarrow> sends_ok (RateCall s ok t r # tr)"
  by (cases tr; cases "hd tr") auto

lemma sends_ok_append: "sends_ok a \<Longrightarrow> sends_ok b \<Longrightarrow> sends_ok (a @ b)"
  by (induction a rule: sends_ok.induct) (auto intro: sends_ok_Cons)

definition job_law :: "string \<Rightarrow> int \<Rightarrow> InfraConfig \<Rightarrow> sync_db \<Rightarrow> sync_db \<times> wk_event list \<times> job_result \<Rightarrow> bool" where
  "job_law svc u cfg db out \<longleftrightarrow>
     (case out of (db', tr, r) \<Rightarrow> job_step svc u db db' \<and> replay cfg (sd_rates db) tr = Some (sd_rates db') \<and> sends_ok tr)"

lemma job_law_quiet: "job_step svc u db db' \<Longrightarrow> sd_rates db' = sd_rates db \<Longrightarrow> job_law svc u cfg db (db', [], r)"
  by (simp add: job_law_def)

lemma job_law_after:
  "job_step svc u db db1 \<Longrightarrow> sd_rates db1 = sd_rates db \<Longrightarrow> job_law svc u cfg db1 out \<Longrightarrow> job_law svc u cfg db out"
  by (auto simp: job_law_def intro: job_step_trans)

lemma check_rate_event:
  assumes "check_rate e s svc d db = (db1, ev, r)"
  obtains res where "ev = RateCall svc (st_rate_ok s) (st_dbnow s) res" "r = None \<Longrightarrow> res = Inr True"
    "ConsumeRateLimit (we_cfg e) (st_rate_ok s) (st_dbnow s) (sd_rates db) svc = (sd_rates db1, res)"
  using assms by (auto simp: check_rate_def split: prod.splits sum.splits if_splits)

lemma job_law_refused:
  assumes "check_rate e s svc d db = (db1, ev, r)"
  shows "job_law svc u (we_cfg e) db (db1, [ev], x)"
proof -
  obtain res where "ev = RateCall svc (st_rate_ok s) (st_dbnow s) res"
    "ConsumeRateLimit (we_cfg e) (st_rate_ok s) (st_dbnow s) (sd_rates db) svc = (sd_rates db1, res)"
    by (rule check_rate_event [OF assms])
  then show ?thesis using check_rate_step [OF assms, of u] by (simp add: job_law_def)
qed

lemma job_law_sent:
  assumes "check_rate e s svc d db = (db1, ev, None)" "job_step svc u db1 db2" "sd_rates db2 = sd_rates db1"
    and "job_law svc u (we_cfg e) db2 (db', tr, x)"
  shows "job_law svc u (we_cfg e) db (db', ev # tr, x)" and "job_law svc u (we_cfg e) db (db', ev # Sent svc (st_dbnow s) q # tr, x)"
proof -
  obtain res where ev: "ev = RateCall svc (st_rate_ok s) (st_dbnow s) res" "res = Inr True"
    "ConsumeRateLimit (we_cfg e) (st_rate_ok s) (st_dbnow s) (sd_rates db) svc = (sd_rates db1, res)"
    by (rule check_rate_event [OF assms(1)]) simp
  have "job_step svc u db db'"
    using check_rate_step [OF assms(1), of u] assms(2,4) by (auto simp: job_law_def intro: job_step_trans)
  with ev assms(3,4) show "job_law svc u (we_cfg e) db (db', ev # tr, x)"
    and "job_law svc u (we_cfg e) db (db', ev # Sent svc (st_dbnow s) q # tr, x)"
    by (auto simp: job_law_def intro: sends_ok_Cons)
qed

lemma fold_rates: "(\<And>x db. sd_rates (m x db) = sd_rates db) \<Longrightarrow> sd_rates (fold m xs db) = sd_rates db"
  by (induction xs arbitrary: db) auto

lemma marks_rates [simp]:
  "sd_rates (markUploaded ok now i rid db) = sd_rates db" "sd_rates (mark_uploads s ids db) = sd_rates db"
  "sd_rates (mark_errors e s svc err code rows db) = sd_rates db" "sd_rates (fst (markAllPendingFailed ok now svc u msg db)) = sd_rates db"
  by (simp_all add: mark_uploads_def mark_errors_def fold_rates markUploaded_def markSyncError_def markAllPendingFailed_def update_sync_def)

text \<open>A failed request: either the job ends, or only the rows of the request were marked.\<close>

lemma failed_request_step:
  assumes "failed_request sv e s u rows err db = (db', r)" "sv_name sv = svc"
    and "distinct (map p_SyncID rows @ js)" "\<forall>i \<in> set (map p_SyncID rows @ js). eligible svc u db i"
  shows "job_step svc u db db' \<and> sd_rates db' = sd_rates db \<and> (r = None \<longrightarrow> (\<forall>j \<in> set js. eligible svc u db' j))"
proof -
  let ?db1 = "record_failure e s svc err db"
  have "same_tables db ?db1" by (simp add: record_failure_def same_tables_def)
  then have "eligible svc u ?db1 i" if "eligible svc u db i" for i by (rule eligible_frame [OF that record_frame(1)])
  with assms(4) have "\<forall>i \<in> set (map p_SyncID rows @ js). eligible svc u ?db1 i" by blast
  note m = mark_errors_step [OF assms(3) this, of e s err "sv_code sv"]
  note f = record_failure_step [of svc u db e s err]
  note a = markAllPendingFailed_step [of svc u db "st_fail_ok s" "st_dbnow s" "sv_auth_msg sv"]
  consider "sv_permanent sv err" | "\<not> sv_permanent sv err" "isTransientSyncError err" | "\<not> sv_permanent sv err" "\<not> isTransientSyncError err"
    by blast
  then show ?thesis
  proof cases
    case 1
    then have "db' = fst (markAllPendingFailed (st_fail_ok s) (st_dbnow s) svc u (sv_auth_msg sv) db)" "r = Some JobDone"
      using assms(1,2) by (simp_all add: failed_request_def)
    then show ?thesis using a by simp
  next
    case 2
    then show ?thesis using assms(1,2) f by (auto simp: failed_request_def)
  next
    case 3
    then have "db' = mark_errors e s svc err (sv_code sv) rows ?db1" using assms(1,2) by (simp add: failed_request_def)
    then show ?thesis using m job_step_trans [OF f] by simp
  qed
qed



section \<open>The loops\<close>

lemma eligible_after:
  "check_rate e s svc d db = (db1, ev, r) \<Longrightarrow> eligible svc u db i \<Longrightarrow> eligible svc u db1 i"
  using check_rate_step [of e s svc d db db1 ev r u] by (auto simp: job_step_def intro: eligible_frame)

lemma upload_success_step:
  assumes "distinct (ids @ js)" "\<forall>i \<in> set (ids @ js). eligible svc u db i"
  shows "job_step svc u db (mark_uploads s ids (record_success s svc db)) \<and>
         (\<forall>j \<in> set js. eligible svc u (mark_uploads s ids (record_success s svc db)) j)"
proof -
  let ?db1 = "record_success s svc db"
  have "same_tables db ?db1" by (simp add: record_success_def same_tables_def)
  then have "eligible svc u ?db1 i" if "eligible svc u db i" for i by (rule eligible_frame [OF that record_frame(2)])
  with assms(2) have "\<forall>i \<in> set (ids @ js). eligible svc u ?db1 i" by blast
  from mark_uploads_step [OF assms(1) this, of s] show ?thesis
    using job_step_trans [OF record_success_step] by blast
qed

lemma upload_batches_law:
  assumes "sv_name sv = svc" "distinct (map p_SyncID (concat batches))" "\<forall>i \<in> set (map p_SyncID (concat batches)). eligible svc u db i"
  shows "job_law svc u (we_cfg e) db (upload_batches sv e u k batches db)"
  using assms(2,3)
proof (induction batches arbitrary: db k)
  case Nil
  then show ?case by (simp add: job_law_def)
next
  case (Cons batch batches)
  let ?s = "we_step e k" and ?js = "map p_SyncID (concat batches)"
  obtain db1 ev g where g: "check_rate e ?s svc Second db = (db1, ev, g)" by (metis prod_cases3)
  have d: "distinct (map p_SyncID batch @ ?js)" "distinct ?js" using Cons.prems(1) by simp_all
  have el: "\<forall>i \<in> set (map p_SyncID batch @ ?js). eligible svc u db1 i" using Cons.prems(2) eligible_after [OF g] by simp
  show ?case
  proof (cases g)
    case (Some r)
    then show ?thesis using job_law_refused [OF g] g assms(1) by (simp add: Let_def)
  next
    case None
    note g = g [unfolded None]
    show ?thesis
    proof (cases "qsosToADIF batch")
      case (Inl err)
      obtain db' tr x where rec: "upload_batches sv e u (k + 1) batches db1 = (db', tr, x)" by (metis prod_cases3)
      have "job_law svc u (we_cfg e) db1 (db', tr, x)" using Cons.IH [OF d(2), of db1 "k + 1"] el rec by simp
      from job_law_sent(1) [OF g _ _ this] show ?thesis using g Inl rec assms(1) by simp
    next
      case (Inr adif)
      show ?thesis
      proof (cases "st_send ?s (ReqADIF adif)")
        case (Inl errText)
        obtain db2 f where f: "failed_request sv e ?s u batch errText db1 = (db2, f)" by fastforce
        note fs = failed_request_step [OF f assms(1) d(1) el]
        show ?thesis
        proof (cases f)
          case (Some r)
          have "job_law svc u (we_cfg e) db2 (db2, [], r)" by (simp add: job_law_quiet)
          from job_law_sent(2) [OF g _ _ this, of "ReqADIF adif"] show ?thesis
            using g Inr Inl f fs Some assms(1) by simp
        next
          case N: None
          obtain db' tr x where rec: "upload_batches sv e u (k + 1) batches db2 = (db', tr, x)" by (metis prod_cases3)
          have "job_law svc u (we_cfg e) db2 (db', tr, x)" using Cons.IH [OF d(2), of db2 "k + 1"] fs N rec by simp
          from job_law_sent(2) [OF g _ _ this, of "ReqADIF adif"] show ?thesis
            using g Inr Inl f fs N rec assms(1) by simp
        qed
      next
        case ok: (Inr logID)
        let ?db2 = "mark_uploads ?s (map p_SyncID batch) (record_success ?s svc db1)"
        note us = upload_success_step [OF d(1) el, of ?s]
        obtain db' tr x where rec: "upload_batches sv e u (k + 1) batches ?db2 = (db', tr, x)" by (metis prod_cases3)
        have "job_law svc u (we_cfg e) ?db2 (db', tr, x)" using Cons.IH [OF d(2), of ?db2 "k + 1"] us rec by simp
        from job_law_sent(2) [OF g _ _ this, of "ReqADIF adif"] show ?thesis
          using g Inr ok us rec assms(1) by simp
      qed
    qed
  qed
qed

lemma mark_one: "mark_uploads s [i] db = markUploaded (st_mark_ok s i) (st_dbnow s) i [] db"
  by (simp add: mark_uploads_def)

lemma qrz_stored_step:
  assumes "distinct (i # js)" "\<forall>j \<in> set (i # js). eligible svc u db j"
  shows "job_step svc u db (markUploaded ok now i rid (record_success s svc db)) \<and>
         (\<forall>j \<in> set js. eligible svc u (markUploaded ok now i rid (record_success s svc db)) j)"
proof -
  let ?db1 = "record_success s svc db"
  have "same_tables db ?db1" by (simp add: record_success_def same_tables_def)
  then have el: "eligible svc u ?db1 j" if "j \<in> set (i # js)" for j
    using that assms(2) by (auto intro: eligible_frame [OF _ record_frame(2)])
  then have "job_step svc u db (markUploaded ok now i rid ?db1)"
    using job_step_trans [OF record_success_step markUploaded_step] by simp
  moreover have "eligible svc u (markUploaded ok now i rid ?db1) j" if "j \<in> set js" for j
    using that el assms(1) by (auto intro: eligible_mark)
  ultimately show ?thesis by blast
qed

lemma qrz_rows_law:
  assumes "distinct (map p_SyncID rows)" "\<forall>i \<in> set (map p_SyncID rows). eligible ''qrz'' u db i"
  shows "job_law ''qrz'' u (we_cfg e) db (qrz_rows e u k rows db)"
  using assms
proof (induction rows arbitrary: db k)
  case Nil
  then show ?case by (simp add: job_law_def)
next
  case (Cons row rows)
  let ?s = "we_step e k" and ?js = "map p_SyncID rows" and ?q = "qrz_request row"
  obtain db1 ev g where g: "check_rate e ?s ''qrz'' (Second div 2) db = (db1, ev, g)" by (metis prod_cases3)
  have d: "distinct (map p_SyncID [row] @ ?js)" using Cons.prems(1) by simp
  have el: "\<forall>i \<in> set (map p_SyncID [row] @ ?js). eligible ''qrz'' u db1 i" using Cons.prems(2) eligible_after [OF g] by simp
  have continue: "job_law ''qrz'' u (we_cfg e) db (db', ev # Sent ''qrz'' (st_dbnow ?s) ?q # tr, x)"
    if "g = None" "job_step ''qrz'' u db1 db2" "sd_rates db2 = sd_rates db1" "\<forall>j \<in> set ?js. eligible ''qrz'' u db2 j"
      "qrz_rows e u (k + 1) rows db2 = (db', tr, x)" for db2 db' tr x
    using job_law_sent(2) [OF g [unfolded that(1)] that(2,3), of db' tr x ?q] Cons.IH [of db2 "k + 1"] that(4,5) d by simp
  show ?case
  proof (cases g)
    case (Some r)
    then show ?thesis using job_law_refused [OF g] g by (simp add: Let_def)
  next
    case N: None
    show ?thesis
    proof (cases "st_send ?s ?q")
      case (Inl err)
      show ?thesis
      proof (cases "Contains_str (ToLower err) ''duplicate''")
        case True
        have ms: "job_step ''qrz'' u db1 (mark_uploads ?s [p_SyncID row] db1) \<and> (\<forall>j \<in> set ?js. eligible ''qrz'' u (mark_uploads ?s [p_SyncID row] db1) j)"
          using mark_uploads_step [of "[p_SyncID row]" ?js "''qrz''" u db1 ?s] d el by simp
        obtain db' tr x where rec: "qrz_rows e u (k + 1) rows (mark_uploads ?s [p_SyncID row] db1) = (db', tr, x)" by (metis prod_cases3)
        from continue [OF N _ _ _ rec] show ?thesis using ms True Inl rec g N by (simp add: Let_def)
      next
        case False
        obtain db2 f where f: "failed_request qrz_service e ?s u [row] err db1 = (db2, f)" by fastforce
        have "sv_name qrz_service = ''qrz''" by (simp add: qrz_service_def)
        note fs = failed_request_step [OF f this d el]
        show ?thesis
        proof (cases f)
          case (Some r)
          have "job_law ''qrz'' u (we_cfg e) db2 (db2, [], r)" by (simp add: job_law_quiet)
          from job_law_sent(2) [OF g [unfolded N] _ _ this, of ?q] show ?thesis
            using fs False Inl f Some g N by (simp add: Let_def)
        next
          case None
          obtain db' tr x where rec: "qrz_rows e u (k + 1) rows db2 = (db', tr, x)" by (metis prod_cases3)
          from continue [OF N _ _ _ rec] show ?thesis using fs False Inl f None rec g N by (simp add: Let_def)
        qed
      qed
    next
      case (Inr logID)
      let ?db2 = "markUploaded (st_mark_ok ?s (p_SyncID row)) (st_dbnow ?s) (p_SyncID row) logID (record_success ?s ''qrz'' db1)"
      have qs: "job_step ''qrz'' u db1 ?db2 \<and> (\<forall>j \<in> set ?js. eligible ''qrz'' u ?db2 j)"
        using qrz_stored_step [of "p_SyncID row" ?js "''qrz''" u db1] d el by simp
      obtain db' tr x where rec: "qrz_rows e u (k + 1) rows ?db2 = (db', tr, x)" by (metis prod_cases3)
      from continue [OF N _ _ _ rec] show ?thesis using qs Inr rec g N by (simp add: Let_def)
    qed
  qed
qed

lemma upload_once_law:
  assumes "check_rate e (we_step e 0) svc d db = (db1, ev, None)" "sv_name sv = svc"
    and "distinct (map p_SyncID pending)" "\<forall>i \<in> set (map p_SyncID pending). eligible svc u db i"
    and "distinct ids" "set ids \<subseteq> set (map p_SyncID pending)"
  shows "job_law svc u (we_cfg e) db (upload_once sv e u pending req ids ev db1)"
proof -
  let ?s = "we_step e 0"
  have el: "\<forall>i \<in> set (map p_SyncID pending @ []). eligible svc u db1 i" using assms(4) eligible_after [OF assms(1)] by simp
  show ?thesis
  proof (cases "st_send ?s req")
    case (Inl err)
    obtain db2 f where f: "failed_request sv e ?s u pending err db1 = (db2, f)" by fastforce
    have "distinct (map p_SyncID pending @ [])" using assms(3) by simp
    note fs = failed_request_step [OF f assms(2) this el]
    have "job_law svc u (we_cfg e) db2 (db2, [], x)" for x by (simp add: job_law_quiet)
    from job_law_sent(2) [OF assms(1) _ _ this, of req] show ?thesis
      using fs Inl f assms(2) by (simp add: upload_once_def Let_def)
  next
    case (Inr x)
    have "\<forall>i \<in> set (ids @ []). eligible svc u db1 i" using el assms(6) by auto
    from upload_success_step [of ids "[]", OF _ this, of ?s]
    have us: "job_step svc u db1 (mark_uploads ?s ids (record_success ?s svc db1))" using assms(5) by simp
    have "job_law svc u (we_cfg e) db' (db', [], x)" for db' x by (simp add: job_law_quiet)
    from job_law_sent(2) [OF assms(1) us _ this, of req] show ?thesis
      using Inr assms(2) by (simp add: upload_once_def Let_def)
  qed
qed



section \<open>The workers\<close>

lemma concat_chunks: "concat (chunks n xs) = xs"
  by (induction n xs rule: chunks.induct) simp_all

lemma give_up_step:
  assumes "job_step svc u db db1" "sd_rates db1 = sd_rates db"
  shows "job_step svc u db (fst (markAllPendingFailed ok now svc u msg db1)) \<and> sd_rates (fst (markAllPendingFailed ok now svc u msg db1)) = sd_rates db"
  using job_step_trans [OF assms(1) markAllPendingFailed_step] assms(2) by simp

lemma upload_prologue_step:
  assumes "upload_prologue e svc ms u db = (db', r)"
  shows "job_step svc u db db' \<and> sd_rates db' = sd_rates db"
proof -
  obtain db1 r1 where c: "check_circuit e svc db = (db1, r1)" by fastforce
  note cs = check_circuit_step [OF c, of u]
  show ?thesis
  proof (cases r1)
    case (Some x)
    then show ?thesis using assms c cs by (simp add: upload_prologue_def)
  next
    case None
    then have "db' = db1 \<or> (\<exists>msg. db' = fst (markAllPendingFailed (we_mark_ok e) (we_dbnow e) svc u msg db1))"
      using assms c by (auto simp: upload_prologue_def Let_def split: sum.splits option.splits if_splits)
    then show ?thesis using cs give_up_step [of svc u db db1] by auto
  qed
qed

text \<open>The rows a query fetches have distinct identifiers and may be marked.\<close>

lemma fetched_eligible:
  assumes "sync_ok db" "\<And>r. P r \<Longrightarrow> fetchable now svc u db r"
    and "pending = map (pending_row db) (take limit (sort_key ss_created_at (filter P (sd_sync db))))"
  shows "distinct (map p_SyncID pending)" and "\<forall>i \<in> set (map p_SyncID pending). eligible svc u db i"
proof -
  let ?rows = "take limit (sort_key ss_created_at (filter P (sd_sync db)))"
  have ids: "map p_SyncID pending = map ss_id ?rows" by (simp add: assms(3) pending_row_def)
  have "mset (map ss_id (sort_key ss_created_at (filter P (sd_sync db)))) = mset (map ss_id (filter P (sd_sync db)))"
    by (simp only: mset_map mset_sort)
  moreover have "distinct (map ss_id (filter P (sd_sync db)))" using assms(1) by (simp add: sync_ok_def distinct_map_filter)
  ultimately have "distinct (map ss_id (sort_key ss_created_at (filter P (sd_sync db))))" by (metis mset_eq_imp_distinct_iff)
  then show "distinct (map p_SyncID pending)" unfolding ids by (simp add: distinct_take flip: take_map)
  show "\<forall>i \<in> set (map p_SyncID pending). eligible svc u db i"
  proof
    fix i
    assume "i \<in> set (map p_SyncID pending)"
    then obtain r where "r \<in> set ?rows" and i: "ss_id r = i" unfolding ids by auto
    then have "r \<in> set (sort_key ss_created_at (filter P (sd_sync db)))" by (blast dest: in_set_takeD)
    with i have r: "r \<in> set (sd_sync db)" "P r" "ss_id r = i" by simp_all
    have "r' = r" if "r' \<in> set (sd_sync db)" "ss_id r' = i" for r'
      using that r assms(1) by (auto simp: sync_ok_def distinct_map inj_on_def)
    moreover have "owned svc u db r \<and> open_status (ss_status r)"
      using assms(2) [OF r(2)] by (simp add: fetchable_def owned_def due_def)
    ultimately show "eligible svc u db i" by (auto simp: eligible_def)
  qed
qed

lemma fetch_facts:
  assumes "sync_ok db"
  shows "distinct (map p_SyncID (fetchPendingQSOs now db svc u limit))"
    and "\<forall>i \<in> set (map p_SyncID (fetchPendingQSOs now db svc u limit)). eligible svc u db i"
    and "distinct (map p_SyncID (fetchPendingPOTAQSOs now db u limit))"
    and "\<forall>i \<in> set (map p_SyncID (fetchPendingPOTAQSOs now db u limit)). eligible ''pota'' u db i"
    and "distinct (map p_SyncID (fetchPendingSOTAQSOs now db u limit))"
    and "\<forall>i \<in> set (map p_SyncID (fetchPendingSOTAQSOs now db u limit)). eligible ''sota'' u db i"
  by (rule fetched_eligible [OF assms _ fetchPendingQSOs_def] fetched_eligible [OF assms _ fetchPendingPOTAQSOs_def]
        fetched_eligible [OF assms _ fetchPendingSOTAQSOs_def], (assumption | erule conjunct1))+

lemma prologue_then:
  assumes "upload_prologue e svc ms u db = (db1, p)" "sync_ok db"
    and "\<And>r. p = Some r \<Longrightarrow> out = (db1, [], r)" and "p = None \<Longrightarrow> sync_ok db1 \<Longrightarrow> job_law svc u (we_cfg e) db1 out"
  shows "job_law svc u (we_cfg e) db out"
proof -
  note ps = upload_prologue_step [OF assms(1)]
  have "job_law svc u (we_cfg e) db1 out"
    using assms(3,4) job_step_ok [of svc u db db1] ps assms(2) by (cases p) (auto intro: job_law_quiet)
  with ps show ?thesis by (blast intro: job_law_after)
qed

lemma batch_worker_law:
  assumes "sync_ok db" "sv_name sv = svc" "pending = fetchPendingQSOs now db svc u limit"
  shows "job_law svc u (we_cfg e) db (upload_batches sv e u 0 (chunks n pending) db)"
  using upload_batches_law [OF assms(2), of "chunks n pending" u db e 0] fetch_facts(1,2) [OF assms(1)] assms(3)
  by (simp add: concat_chunks)

lemma ClubLog_law: "sync_ok db \<Longrightarrow> job_law ''clublog'' u (we_cfg e) db (ClubLogUploadWorker_Work e u db)"
proof -
  assume ok: "sync_ok db"
  obtain db1 p where p: "upload_prologue e ''clublog'' clublog_messages u db = (db1, p)" by fastforce
  show ?thesis
    by (rule prologue_then [OF p ok])
       (auto simp: ClubLogUploadWorker_Work_def p Let_def clublog_service_def intro!: batch_worker_law job_law_quiet markAllPendingFailed_step)
qed

lemma EQSL_law: "sync_ok db \<Longrightarrow> job_law ''eqsl'' u (we_cfg e) db (EQSLUploadWorker_Work e u db)"
proof -
  assume ok: "sync_ok db"
  obtain db1 p where p: "upload_prologue e ''eqsl'' eqsl_messages u db = (db1, p)" by fastforce
  show ?thesis
    by (rule prologue_then [OF p ok])
       (auto simp: EQSLUploadWorker_Work_def p Let_def eqsl_service_def intro!: batch_worker_law job_law_quiet)
qed

lemma HamQTH_law: "sync_ok db \<Longrightarrow> job_law ''hamqth'' u (we_cfg e) db (HamQTHUploadWorker_Work e u db)"
proof -
  assume ok: "sync_ok db"
  obtain db1 p where p: "upload_prologue e ''hamqth'' hamqth_messages u db = (db1, p)" by fastforce
  show ?thesis
    by (rule prologue_then [OF p ok])
       (auto simp: HamQTHUploadWorker_Work_def p Let_def hamqth_service_def intro!: batch_worker_law job_law_quiet)
qed

lemma QRZ_law: "sync_ok db \<Longrightarrow> job_law ''qrz'' u (we_cfg e) db (QRZUploadWorker_Work e u db)"
proof -
  assume ok: "sync_ok db"
  obtain db1 p where p: "upload_prologue e ''qrz'' qrz_messages u db = (db1, p)" by fastforce
  show ?thesis
    by (rule prologue_then [OF p ok])
       (simp_all add: QRZUploadWorker_Work_def p qrz_rows_law job_law_quiet fetch_facts)
qed

lemma POTA_law: "sync_ok db \<Longrightarrow> job_law ''pota'' u (we_cfg e) db (POTAUploadWorker_Work e u db)"
proof -
  assume ok: "sync_ok db"
  obtain db1 p where p: "upload_prologue e ''pota'' pota_messages u db = (db1, p)" by fastforce
  let ?pending = "fetchPendingPOTAQSOs (we_dbnow e) db1 u 1000"
  obtain db2 ev g where g: "check_rate e (we_step e 0) ''pota'' Second db1 = (db2, ev, g)" by (metis prod_cases3)
  show ?thesis
  proof (rule prologue_then [OF p ok])
    assume N: "p = None" and ok1: "sync_ok db1"
    have f: "distinct (map p_SyncID ?pending)" "\<forall>i \<in> set (map p_SyncID ?pending). eligible ''pota'' u db1 i"
      by (rule fetch_facts [OF ok1])+
    have "job_law ''pota'' u (we_cfg e) db1 (upload_once pota_service e u ?pending req (map p_SyncID ?pending) ev db2)" if "g = None" for req
      using g that f by (intro upload_once_law) (simp_all add: pota_service_def)
    then show "job_law ''pota'' u (we_cfg e) db1 (POTAUploadWorker_Work e u db)"
      using job_law_refused [OF g] by (auto simp: POTAUploadWorker_Work_def p N Let_def g intro!: job_law_quiet split: option.splits sum.splits)
  qed (simp add: POTAUploadWorker_Work_def p)
qed

lemma buildSOTACSV_ids: "buildSOTACSV rows = (csv, ids) \<Longrightarrow> set ids \<subseteq> set (map p_SyncID rows) \<and> (distinct (map p_SyncID rows) \<longrightarrow> distinct ids)"
  by (induction rows arbitrary: csv ids) (force split: prod.splits option.splits)+

lemma SOTA_law: "sync_ok db \<Longrightarrow> job_law ''sota'' u (we_cfg e) db (SOTAUploadWorker_Work e u db)"
proof -
  assume ok: "sync_ok db"
  obtain db1 p where p: "upload_prologue e ''sota'' sota_messages u db = (db1, p)" by fastforce
  let ?pending = "fetchPendingSOTAQSOs (we_dbnow e) db1 u 200"
  obtain db2 ev g where g: "check_rate e (we_step e 0) ''sota'' Second db1 = (db2, ev, g)" by (metis prod_cases3)
  obtain csv ids where c: "buildSOTACSV ?pending = (csv, ids)" by fastforce
  show ?thesis
  proof (rule prologue_then [OF p ok])
    assume N: "p = None" and ok1: "sync_ok db1"
    have f: "distinct (map p_SyncID ?pending)" "\<forall>i \<in> set (map p_SyncID ?pending). eligible ''sota'' u db1 i"
      by (rule fetch_facts [OF ok1])+
    have "job_law ''sota'' u (we_cfg e) db1 (upload_once sota_service e u ?pending (ReqCSV csv) ids ev db2)" if "g = None"
      using g that f buildSOTACSV_ids [OF c] by (intro upload_once_law) (simp_all add: sota_service_def)
    then show "job_law ''sota'' u (we_cfg e) db1 (SOTAUploadWorker_Work e u db)"
      using job_law_refused [OF g] by (auto simp: SOTAUploadWorker_Work_def p N Let_def g c intro!: job_law_quiet split: option.splits)
  qed (simp add: SOTAUploadWorker_Work_def p)
qed



section \<open>Sequences of jobs\<close>

text \<open>How many requests a trace sends to a service in the second that starts at \<open>b\<close>.\<close>

definition sent_in :: "string \<Rightarrow> int \<Rightarrow> wk_event list \<Rightarrow> nat" where
  "sent_in k b tr = length (filter (\<lambda>ev. case ev of Sent s t q \<Rightarrow> s = k \<and> trunc_second t = b | _ \<Rightarrow> False) tr)"

fun rate_calls :: "wk_event list \<Rightarrow> rl_call list" where
  "rate_calls [] = []"
| "rate_calls (RateCall s ok t r # tr) = (s, ok, t) # rate_calls tr"
| "rate_calls (Sent s t q # tr) = rate_calls tr"

text \<open>The database clock does not run backwards.\<close>

definition clock_ok :: "wk_event list \<Rightarrow> bool" where
  "clock_ok tr \<longleftrightarrow> sorted (map (snd \<circ> snd) (rate_calls tr))"

lemma sent_in_le_admitted:
  "sends_ok tr \<Longrightarrow> replay cfg tbl tr = Some tbl' \<Longrightarrow> sent_in k b tr \<le> admitted cfg k b tbl (rate_calls tr)"
proof (induction tr arbitrary: tbl rule: sends_ok.induct, goal_cases)
  case (3 s ok t r s' t' q tr tbl)
  then obtain tbl1 where c: "ConsumeRateLimit cfg ok t tbl s = (tbl1, Inr True)" "replay cfg tbl1 tr = Some tbl'" "s' = s" "t' = t"
    by (auto split: prod.splits if_splits)
  have "sent_in k b tr \<le> admitted cfg k b tbl1 (rate_calls tr)" using 3 c by simp
  then show ?case using c by (auto simp: sent_in_def admitted_Cons in_bucket_def)
next
  case (5 s ok t r s2 ok2 t2 r2 tr tbl)
  then obtain tbl1 where c: "ConsumeRateLimit cfg ok t tbl s = (tbl1, r)" "replay cfg tbl1 (RateCall s2 ok2 t2 r2 # tr) = Some tbl'"
    by (auto split: prod.splits if_splits)
  have "sent_in k b (RateCall s2 ok2 t2 r2 # tr) \<le> admitted cfg k b tbl1 (rate_calls (RateCall s2 ok2 t2 r2 # tr))"
    using 5 c by simp
  then show ?case using c by (auto simp: sent_in_def admitted_Cons [of cfg k b tbl s ok t])
qed (auto simp: sent_in_def)

text \<open>The contract of a family of jobs, and what follows for every sequence of them.\<close>

locale sync_jobs =
  fixes work :: "'j \<Rightarrow> work_env \<Rightarrow> int \<Rightarrow> sync_db \<Rightarrow> sync_db \<times> wk_event list \<times> job_result"
    and service :: "'j \<Rightarrow> string"
  assumes work_law: "sync_ok db \<Longrightarrow> job_law (service j) u (we_cfg e) db (work j e u db)"
begin

fun run :: "('j \<times> work_env \<times> int) list \<Rightarrow> sync_db \<Rightarrow> sync_db \<times> wk_event list" where
  "run [] db = (db, [])"
| "run ((j, e, u) # jobs) db =
     (case work j e u db of (db1, tr, r) \<Rightarrow> case run jobs db1 of (db2, tr2) \<Rightarrow> (db2, tr @ tr2))"

lemma run_ok: "sync_ok db \<Longrightarrow> run jobs db = (db', tr) \<Longrightarrow> sync_ok db'"
proof (induction jobs arbitrary: db tr)
  case (Cons job jobs)
  obtain j e u where job: "job = (j, e, u)" by (cases job)
  obtain db1 tr1 r where w: "work j e u db = (db1, tr1, r)" by (metis prod_cases3)
  have "sync_ok db1" using work_law [OF Cons.prems(1), of j u e] job_step_ok Cons.prems(1) w by (fastforce simp: job_law_def)
  with Cons w job show ?case by (auto split: prod.splits)
qed simp

lemma run_trace:
  assumes "sync_ok db" "run jobs db = (db', tr)" "\<forall>(j, e, u) \<in> set jobs. we_cfg e = cfg"
  shows "replay cfg (sd_rates db) tr = Some (sd_rates db') \<and> sends_ok tr"
  using assms
proof (induction jobs arbitrary: db tr)
  case (Cons job jobs)
  obtain j e u where job: "job = (j, e, u)" by (cases job)
  obtain db1 tr1 r where w: "work j e u db = (db1, tr1, r)" by (metis prod_cases3)
  obtain tr2 where r: "run jobs db1 = (db', tr2)" "tr = tr1 @ tr2" using Cons.prems(2) job w by (auto split: prod.splits)
  have law: "job_step (service j) u db db1" "replay cfg (sd_rates db) tr1 = Some (sd_rates db1)" "sends_ok tr1"
    using work_law [OF Cons.prems(1), of j u e] w Cons.prems(3) job by (auto simp: job_law_def)
  then have "sync_ok db1" using job_step_ok Cons.prems(1) by blast
  then have "replay cfg (sd_rates db1) tr2 = Some (sd_rates db') \<and> sends_ok tr2" using Cons.IH r(1) Cons.prems(3) by auto
  with law r(2) show ?case by (simp add: replay_append sends_ok_append)
qed simp

text \<open>The rate limit holds for the requests of all jobs together.\<close>

lemma run_rate:
  assumes "sync_ok db" "run jobs db = (db', tr)" "\<forall>(j, e, u) \<in> set jobs. we_cfg e = cfg" "clock_ok tr"
  shows "int (sent_in k b tr) \<le> max 0 (RateLimitRPS (policy cfg k) - count_at (sd_rates db) k b)"
proof -
  have "sent_in k b tr \<le> admitted cfg k b (sd_rates db) (rate_calls tr)"
    using run_trace [OF assms(1-3)] sent_in_le_admitted by blast
  also have "int \<dots> \<le> max 0 (RateLimitRPS (policy cfg k) - count_at (sd_rates db) k b)"
    using admitted_bound assms(4) by (simp add: clock_ok_def)
  finally show ?thesis by simp
qed

text \<open>A row that no job of the sequence is about stays as it is, and so does a row that is not open.\<close>

lemma run_frame:
  assumes "sync_ok db" "run jobs db = (db', tr)"
    and "\<forall>(j, e, u) \<in> set jobs. \<not> owned (service j) u db r" "r \<in> set (sd_sync db)"
  shows "r \<in> set (sd_sync db')"
  using assms
proof (induction jobs arbitrary: db tr)
  case (Cons job jobs)
  obtain j e u where job: "job = (j, e, u)" by (cases job)
  obtain db1 tr1 x where w: "work j e u db = (db1, tr1, x)" by (metis prod_cases3)
  obtain tr2 where r: "run jobs db1 = (db', tr2)" using Cons.prems(2) job w by (auto split: prod.splits)
  have step: "job_step (service j) u db db1" using work_law [OF Cons.prems(1), of j u e] w by (simp add: job_law_def)
  then have st: "same_tables db db1" and rows: "list_all2 (row_step (owned (service j) u db)) (sd_sync db) (sd_sync db1)"
    by (simp_all add: job_step_def)
  obtain i where i: "i < length (sd_sync db)" "sd_sync db ! i = r" using Cons.prems(4) by (auto simp: in_set_conv_nth)
  have "sd_sync db1 ! i = r" using list_all2_nthD [OF rows i(1)] i(2) Cons.prems(3) job by (simp add: row_step_def)
  then have "r \<in> set (sd_sync db1)" using i(1) list_all2_lengthD [OF rows] by (metis nth_mem)
  moreover have "\<forall>(j, e, u) \<in> set jobs. \<not> owned (service j) u db1 r" using Cons.prems(3) owned_cong [OF st] by auto
  ultimately show ?case using Cons.IH [OF _ r] job_step_ok [OF step Cons.prems(1)] by blast
qed simp

end

datatype upload_job = UpClubLog | UpEQSL | UpHamQTH | UpQRZ | UpPOTA | UpSOTA

fun upload_work :: "upload_job \<Rightarrow> work_env \<Rightarrow> int \<Rightarrow> sync_db \<Rightarrow> sync_db \<times> wk_event list \<times> job_result" where
  "upload_work UpClubLog = ClubLogUploadWorker_Work"
| "upload_work UpEQSL = EQSLUploadWorker_Work"
| "upload_work UpHamQTH = HamQTHUploadWorker_Work"
| "upload_work UpQRZ = QRZUploadWorker_Work"
| "upload_work UpPOTA = POTAUploadWorker_Work"
| "upload_work UpSOTA = SOTAUploadWorker_Work"

fun upload_service :: "upload_job \<Rightarrow> string" where
  "upload_service UpClubLog = ''clublog''"
| "upload_service UpEQSL = ''eqsl''"
| "upload_service UpHamQTH = ''hamqth''"
| "upload_service UpQRZ = ''qrz''"
| "upload_service UpPOTA = ''pota''"
| "upload_service UpSOTA = ''sota''"

interpretation uploads: sync_jobs upload_work upload_service
proof
  fix db j u e
  assume "sync_ok db"
  then show "job_law (upload_service j) u (we_cfg e) db (upload_work j e u db)"
    by (cases j) (simp_all add: ClubLog_law EQSL_law HamQTH_law QRZ_law POTA_law SOTA_law)
qed

fun run_uploads :: "(upload_job \<times> work_env \<times> int) list \<Rightarrow> sync_db \<Rightarrow> sync_db \<times> wk_event list" where
  "run_uploads [] db = (db, [])"
| "run_uploads ((j, e, u) # jobs) db =
     (case upload_work j e u db of (db1, tr, r) \<Rightarrow> case run_uploads jobs db1 of (db2, tr2) \<Rightarrow> (db2, tr @ tr2))"

lemma run_uploads_run: "run_uploads jobs db = uploads.run jobs db"
  by (induction jobs db rule: run_uploads.induct) (auto split: prod.splits)

end
