(* ===== verification/Sync_Poll.thy ===== *)
theory Sync_Poll
  imports Sync_Jobs
begin

text \<open>
  The other workers of \<open>api/internal/services/sync\<close>: the eQSL inbox download (\<open>eqsl_worker.go\<close>), the QRZ poll (\<open>qrz_worker.go\<close>), the Club Log delete and
  poll workers (\<open>orchestrator.go\<close>) and the HamQTH poll (\<open>hamqth_worker.go\<close>).

  The answer of the external service is an argument.  Where the code iterates over a Go map, the list gives the order.
\<close>

section \<open>Beginning of a job\<close>

text \<open>
  Circuit, credentials, decoding and rate limit, in the order of the code.  A credential that cannot be read is an error, a missing one ends the job.
\<close>

definition poll_prologue :: "work_env \<Rightarrow> string \<Rightarrow> int \<Rightarrow> int \<Rightarrow> sync_db \<Rightarrow> sync_db \<times> job_result option" where
  "poll_prologue e service snooze userID db =
     (case check_circuit e service db of
        (db1, Some r) \<Rightarrow> (db1, Some r)
      | (db1, None) \<Rightarrow>
          (case decryptServiceCredentials e userID service db1 of
             Inl _ \<Rightarrow> (db1, Some (JobErr (service @ '' credentials'')))
           | Inr None \<Rightarrow> (db1, Some JobDone)
           | Inr (Some plaintext) \<Rightarrow>
               if \<not> we_decode e plaintext then (db1, Some (JobErr (service @ '' decode credentials'')))
               else (case check_rate e (we_step e 0) service snooze db1 of (db2, _, r) \<Rightarrow> (db2, r))))"


section \<open>eQSL inbox\<close>

definition fifteen_min :: int where "fifteen_min = 15 * 60 * usec"

record inbox_rec =
  ib_TheirCallsign :: string
  ib_Band :: string
  ib_Mode :: string
  ib_DatetimeOn :: "int option"

definition eqsl_matches :: "int \<Rightarrow> inbox_rec \<Rightarrow> int \<Rightarrow> sync_db \<Rightarrow> sync_qso \<Rightarrow> bool" where
  "eqsl_matches userID rec t db q \<longleftrightarrow>
     ToUpper (sq_callsign q) = ToUpper (ib_TheirCallsign rec) \<and> sq_band q = ib_Band rec \<and> sq_mode q = ib_Mode rec \<and>
     t - fifteen_min \<le> sq_datetime_on q \<and> sq_datetime_on q \<le> t + fifteen_min \<and> qso_user db q = Some userID \<and> sq_deleted_at q = None"

definition update_qso :: "int \<Rightarrow> (sync_qso \<Rightarrow> sync_qso) \<Rightarrow> sync_db \<Rightarrow> sync_db" where
  "update_qso qsoID f db = db\<lparr>sd_qsos := map (\<lambda>q. if sq_id q = qsoID then f q else q) (sd_qsos db)\<rparr>"

text \<open>\<open>$2::date\<close>: midnight of the day.\<close>

definition to_date :: "int \<Rightarrow> int" where "to_date t = day_of t * (86400 * usec)"

definition set_eqsl_rcvd :: "int \<Rightarrow> int \<Rightarrow> sync_qso \<Rightarrow> sync_qso" where
  "set_eqsl_rcvd now t q =
     (if sq_eqsl_qsl_rcvd q = Some ''Y'' then q
      else q\<lparr>sq_eqsl_qsl_rcvd := Some ''Y'',
             sq_eqsl_qsl_rcvd_date := (case sq_eqsl_qsl_rcvd_date q of Some d \<Rightarrow> Some d | None \<Rightarrow> Some (to_date t)), sq_updated_at := now\<rparr>)"

text \<open>One record of the inbox; \<open>ie_query\<close>, \<open>ie_update\<close> and \<open>ie_mark\<close> say whether the query and the two updates succeed.\<close>

record inbox_env =
  ie_query :: bool
  ie_update :: bool
  ie_mark :: bool
  ie_now :: int

definition inbox_one :: "inbox_env \<Rightarrow> int \<Rightarrow> inbox_rec \<Rightarrow> sync_db \<Rightarrow> sync_db" where
  "inbox_one ie userID rec db =
     (case ib_DatetimeOn rec of
        None \<Rightarrow> db
      | Some t \<Rightarrow>
          if \<not> ie_query ie then db
          else (case find (eqsl_matches userID rec t db) (sd_qsos db) of
                  None \<Rightarrow> db
                | Some q \<Rightarrow>
                    markSyncConfirmed (ie_mark ie) (ie_now ie) (sq_id q) ''eqsl''
                      (if ie_update ie then update_qso (sq_id q) (set_eqsl_rcvd (ie_now ie) t) db else db)))"

definition EQSLDownloadWorker_Work ::
  "work_env \<Rightarrow> (nat \<Rightarrow> inbox_env) \<Rightarrow> (string + inbox_rec list) \<Rightarrow> int \<Rightarrow> sync_db \<Rightarrow> sync_db \<times> job_result" where
  "EQSLDownloadWorker_Work e ies answer userID db =
     (case poll_prologue e ''eqsl'' Second userID db of
        (db1, Some r) \<Rightarrow> (db1, r)
      | (db1, None) \<Rightarrow>
          (case answer of
             Inl err \<Rightarrow> (record_failure e (we_step e 0) ''eqsl'' err db1, JobErr (''eqsl inbox download: '' @ err))
           | Inr inbox \<Rightarrow>
               (fold (\<lambda>(i, rec). inbox_one (ies i) userID rec) (List.enumerate 0 inbox) (record_success (we_step e 0) ''eqsl'' db1), JobDone)))"


section \<open>QRZ confirmations\<close>

record qrzConfirmationRecord =
  qc_Callsign :: string
  qc_Band :: string
  qc_Mode :: string
  qc_DatetimeOn :: int
  qc_LotwQSLRcvd :: string
  qc_LotwQSLDate :: "int option"
  qc_EQSLQSLRcvd :: string
  qc_EQSLQSLDate :: "int option"
  qc_PaperQSLRcvd :: string
  qc_PaperQSLDate :: "int option"
  qc_QRZQSLRcvd :: string

definition HasAnyConfirmation :: "qrzConfirmationRecord \<Rightarrow> bool" where
  "HasAnyConfirmation r \<longleftrightarrow>
     EqualFold (qc_LotwQSLRcvd r) ''Y'' \<or> EqualFold (qc_EQSLQSLRcvd r) ''Y'' \<or> EqualFold (qc_PaperQSLRcvd r) ''Y'' \<or>
     EqualFold (qc_QRZQSLRcvd r) ''Y''"

text \<open>\<open>time.Time{}\<close>, for which \<open>IsZero\<close> holds: 0001-01-01.\<close>

definition zero_time :: int where "zero_time = - epoch_days * 86400 * usec"

definition parseADIFDateTime :: "string \<Rightarrow> string \<Rightarrow> int" where
  "parseADIFDateTime qsoDate0 timeOn0 =
     (let qsoDate = TrimSpace qsoDate0; timeOn1 = TrimSpace timeOn0 in
      if length qsoDate \<noteq> 8 then zero_time
      else
        let timeOn = (if length timeOn1 < 4 then timeOn1 @ replicate (4 - length timeOn1) CHR ''0'' else timeOn1) in
        case Parse_200601021504 (qsoDate @ take 4 timeOn) of None \<Rightarrow> zero_time | Some t \<Rightarrow> t)"

fun parseADIFDate :: "string list \<Rightarrow> int option" where
  "parseADIFDate [] = None"
| "parseADIFDate (v0 # vs) =
     (let v = TrimSpace v0 in
      if length v \<noteq> 8 then parseADIFDate vs
      else case Parse_20060102 v of Some t \<Rightarrow> Some t | None \<Rightarrow> parseADIFDate vs)"

definition qrz_record :: "Record \<Rightarrow> qrzConfirmationRecord option" where
  "qrz_record rec =
     (let callsign = ToUpper (TrimSpace (Record_Get rec ''CALL'')); band = ToLower (TrimSpace (Record_Get rec ''BAND''));
          mode = ToUpper (TrimSpace (Record_Get rec ''MODE''));
          dt = parseADIFDateTime (Record_Get rec ''QSO_DATE'') (Record_Get rec ''TIME_ON'') in
      if callsign = [] \<or> band = [] \<or> mode = [] then None
      else if dt = zero_time then None
      else Some
        \<lparr>qc_Callsign = callsign, qc_Band = band, qc_Mode = mode, qc_DatetimeOn = dt,
         qc_LotwQSLRcvd = ToUpper (TrimSpace (Record_Get rec ''LOTW_QSL_RCVD'')),
         qc_LotwQSLDate = parseADIFDate [Record_Get rec ''LOTW_QSLRDATE'', Record_Get rec ''LOTW_QSL_RCVD_DATE''],
         qc_EQSLQSLRcvd = ToUpper (TrimSpace (Record_Get rec ''EQSL_QSL_RCVD'')),
         qc_EQSLQSLDate = parseADIFDate [Record_Get rec ''EQSL_QSLRDATE'', Record_Get rec ''EQSL_QSL_RCVD_DATE''],
         qc_PaperQSLRcvd = ToUpper (TrimSpace (Record_Get rec ''QSL_RCVD'')),
         qc_PaperQSLDate = parseADIFDate [Record_Get rec ''QSLRDATE'', Record_Get rec ''QSL_RCVD_DATE''],
         qc_QRZQSLRcvd = ToUpper (TrimSpace (Record_Get rec ''QRZ_QSL_RCVD''))\<rparr>)"

definition parseQRZConfirmationADIF :: "(string \<Rightarrow> string option) \<Rightarrow> string \<Rightarrow> Err + qrzConfirmationRecord list" where
  "parseQRZConfirmationADIF decode adifText =
     (if TrimSpace adifText = [] then Inr []
      else case ParseString decode None adifText of
        (_, recs, Some err) \<Rightarrow> Inl err
      | (_, recs, None) \<Rightarrow> Inr (List.map_filter qrz_record recs))"

definition qrz_matches :: "int \<Rightarrow> qrzConfirmationRecord \<Rightarrow> sync_db \<Rightarrow> sync_qso \<Rightarrow> bool" where
  "qrz_matches userID rec db q \<longleftrightarrow>
     ToUpper (sq_callsign q) = ToUpper (qc_Callsign rec) \<and> ToLower (sq_band q) = ToLower (qc_Band rec) \<and>
     ToUpper (sq_mode q) = ToUpper (qc_Mode rec) \<and>
     qc_DatetimeOn rec - fifteen_min \<le> sq_datetime_on q \<and> sq_datetime_on q \<le> qc_DatetimeOn rec + fifteen_min \<and>
     qso_user db q = Some userID \<and> sq_deleted_at q = None"

definition findMatchingQSOForConfirmation :: "int \<Rightarrow> qrzConfirmationRecord \<Rightarrow> sync_db \<Rightarrow> int" where
  "findMatchingQSOForConfirmation userID rec db =
     (case sort_key (\<lambda>q. \<bar>sq_datetime_on q - qc_DatetimeOn rec\<bar>) (filter (qrz_matches userID rec db) (sd_qsos db)) of
        [] \<Rightarrow> 0
      | q # _ \<Rightarrow> sq_id q)"

definition set_rcvd :: "string \<Rightarrow> string option \<Rightarrow> string option" where
  "set_rcvd flag old = (if flag = ''Y'' then Some ''Y'' else old)"

definition set_rcvd_date :: "int \<Rightarrow> string \<Rightarrow> int option \<Rightarrow> int option \<Rightarrow> int option" where
  "set_rcvd_date today flag date old =
     (if flag = ''Y'' \<and> old = None then (case date of Some d \<Rightarrow> Some (to_date d) | None \<Rightarrow> Some today) else old)"

definition qrz_confirm_qso :: "int \<Rightarrow> qrzConfirmationRecord \<Rightarrow> sync_qso \<Rightarrow> sync_qso" where
  "qrz_confirm_qso now rec q =
     (let today = to_date now;
          lotw = ToUpper (TrimSpace (qc_LotwQSLRcvd rec)); eqsl = ToUpper (TrimSpace (qc_EQSLQSLRcvd rec));
          paper = ToUpper (TrimSpace (qc_PaperQSLRcvd rec)); qrz = ToUpper (TrimSpace (qc_QRZQSLRcvd rec)) in
      q\<lparr>sq_lotw_qsl_rcvd := set_rcvd lotw (sq_lotw_qsl_rcvd q),
        sq_lotw_qsl_rcvd_date := set_rcvd_date today lotw (qc_LotwQSLDate rec) (sq_lotw_qsl_rcvd_date q),
        sq_eqsl_qsl_rcvd := set_rcvd eqsl (sq_eqsl_qsl_rcvd q),
        sq_eqsl_qsl_rcvd_date := set_rcvd_date today eqsl (qc_EQSLQSLDate rec) (sq_eqsl_qsl_rcvd_date q),
        sq_qsl_rcvd := set_rcvd paper (sq_qsl_rcvd q),
        sq_qsl_rcvd_date := set_rcvd_date today paper (qc_PaperQSLDate rec) (sq_qsl_rcvd_date q),
        sq_qrz_qsl_rcvd := set_rcvd qrz (sq_qrz_qsl_rcvd q),
        sq_qrz_qsl_rcvd_date :=
          (if (qrz = ''Y'' \<or> lotw = ''Y'' \<or> eqsl = ''Y'' \<or> paper = ''Y'') \<and> sq_qrz_qsl_rcvd_date q = None then Some today
           else sq_qrz_qsl_rcvd_date q),
        sq_updated_at := now\<rparr>)"

definition applyQRZConfirmation :: "bool \<Rightarrow> int \<Rightarrow> int \<Rightarrow> qrzConfirmationRecord \<Rightarrow> sync_db \<Rightarrow> sync_db option" where
  "applyQRZConfirmation ok now qsoID rec db = (if ok then Some (update_qso qsoID (qrz_confirm_qso now rec) db) else None)"

definition qrz_poll_one :: "inbox_env \<Rightarrow> int \<Rightarrow> qrzConfirmationRecord \<Rightarrow> sync_db \<Rightarrow> sync_db" where
  "qrz_poll_one ie userID rec db =
     (if \<not> ie_query ie then db
      else
        let qsoID = findMatchingQSOForConfirmation userID rec db in
        if qsoID = 0 then db
        else case applyQRZConfirmation (ie_update ie) (ie_now ie) qsoID rec db of
               None \<Rightarrow> db
             | Some db1 \<Rightarrow>
                 if HasAnyConfirmation rec then markSyncConfirmed (ie_mark ie) (ie_now ie) qsoID ''qrz'' db1 else db1)"

text \<open>The look-back of the request, from the environment variable.\<close>

definition qrz_lookback_days :: "string \<Rightarrow> int" where
  "qrz_lookback_days env =
     (let s = TrimSpace env in
      if s = [] then 30 else case Atoi s of Some n \<Rightarrow> if 0 < n then n else 30 | None \<Rightarrow> 30)"

definition QRZPollWorker_Work ::
  "work_env \<Rightarrow> (nat \<Rightarrow> inbox_env) \<Rightarrow> string \<Rightarrow> (int \<Rightarrow> string + string) \<Rightarrow> (string \<Rightarrow> string option) \<Rightarrow> int \<Rightarrow> sync_db \<Rightarrow>
   sync_db \<times> job_result" where
  "QRZPollWorker_Work e ies lookback fetch decode userID db =
     (case poll_prologue e ''qrz'' (Second div 2) userID db of
        (db1, Some r) \<Rightarrow> (db1, r)
      | (db1, None) \<Rightarrow>
          (case fetch (we_now e - qrz_lookback_days lookback * (86400 * Second)) of
             Inl err \<Rightarrow> (record_failure e (we_step e 0) ''qrz'' err db1, JobErr (''qrz logbook fetch poll: '' @ err))
           | Inr adif \<Rightarrow>
               let db2 = record_success (we_step e 0) ''qrz'' db1 in
               (case parseQRZConfirmationADIF decode adif of
                  Inl _ \<Rightarrow> (db2, JobErr ''qrz poll parse adif'')
                | Inr records \<Rightarrow> (fold (\<lambda>(i, rec). qrz_poll_one (ies i) userID rec) (List.enumerate 0 records) db2, JobDone))))"


section \<open>Club Log\<close>

text \<open>
  \<open>ClubLogDeleteWorker\<close>: \<open>dt\<close> is the result of parsing the time of the contact.  The result tells whether the request was sent.
\<close>

definition ClubLogDeleteWorker_Work ::
  "work_env \<Rightarrow> int option \<Rightarrow> string option \<Rightarrow> int \<Rightarrow> sync_db \<Rightarrow> sync_db \<times> bool \<times> job_result" where
  "ClubLogDeleteWorker_Work e dt answer userID db =
     (case check_circuit e ''clublog'' db of
        (db1, Some r) \<Rightarrow> (db1, False, r)
      | (db1, None) \<Rightarrow>
          (case decryptServiceCredentials e userID ''clublog'' db1 of
             Inl _ \<Rightarrow> (db1, False, JobErr ''credentials'')
           | Inr None \<Rightarrow> (db1, False, JobDone)
           | Inr (Some plaintext) \<Rightarrow>
               if \<not> we_decode e plaintext then (db1, False, JobErr ''decode clublog credentials'')
               else if dt = None then (db1, False, JobErr ''parse datetime_on'')
               else (case check_rate e (we_step e 0) ''clublog'' Second db1 of
                       (db2, _, Some r) \<Rightarrow> (db2, False, r)
                     | (db2, _, None) \<Rightarrow>
                         if TrimSpace (we_apikey e) = [] then (db2, False, JobDone)
                         else (case answer of
                                 Some err \<Rightarrow> (record_failure e (we_step e 0) ''clublog'' err db2, True, JobErr (''clublog delete: '' @ err))
                               | None \<Rightarrow> (record_success (we_step e 0) ''clublog'' db2, True, JobDone)))))"

record dxcc_status =
  dx_entity :: int
  dx_confirmed :: bool
  dx_worked :: bool

definition is_dxcc :: "int \<Rightarrow> string \<Rightarrow> award_prog \<Rightarrow> bool" where
  "is_dxcc userID key a \<longleftrightarrow>
     ap_user_id a = userID \<and> ap_award_type a = ''dxcc'' \<and> ap_entity_key a = key \<and> ap_band a = None \<and> ap_mode a = None"

definition new_dxcc :: "int \<Rightarrow> int \<Rightarrow> string \<Rightarrow> bool \<Rightarrow> string option \<Rightarrow> award_prog" where
  "new_dxcc now userID key confirmed method =
     \<lparr>ap_user_id = userID, ap_award_type = ''dxcc'', ap_entity_key = key, ap_band = None, ap_mode = None, ap_confirmed = confirmed,
      ap_confirmation_method = method, ap_confirmed_via = (if confirmed then Some ''clublog'' else None),
      ap_confirmed_at = (if confirmed then Some now else None), ap_worked = False, ap_dirty = False, ap_updated_at = now\<rparr>"

definition confirm_dxcc :: "int \<Rightarrow> string \<Rightarrow> award_prog \<Rightarrow> award_prog" where
  "confirm_dxcc now method a =
     a\<lparr>ap_confirmed := True, ap_confirmation_method := Some method, ap_confirmed_via := Some ''clublog'',
       ap_confirmed_at := (case ap_confirmed_at a of Some t \<Rightarrow> Some t | None \<Rightarrow> Some now), ap_dirty := False, ap_updated_at := now\<rparr>"

text \<open>\<open>ok1\<close> and \<open>ok2\<close>: the update and the insertion succeed.\<close>

definition upsertDXCCAwardProgress :: "bool \<Rightarrow> bool \<Rightarrow> int \<Rightarrow> int \<Rightarrow> int \<Rightarrow> bool \<Rightarrow> string \<Rightarrow> sync_db \<Rightarrow> sync_db" where
  "upsertDXCCAwardProgress ok1 ok2 now userID entityID confirmed method db =
     (let key = show_int entityID in
      if \<not> ok1 then db
      else if list_ex (is_dxcc userID key) (sd_awards db) then
        (if confirmed
         then db\<lparr>sd_awards := map (\<lambda>a. if is_dxcc userID key a then confirm_dxcc now method a else a) (sd_awards db)\<rparr>
         else db)
      else if \<not> ok2 then db
      else db\<lparr>sd_awards := sd_awards db @ [new_dxcc now userID key confirmed (if confirmed then Some method else None)]\<rparr>)"

record dxcc_env =
  de_mark :: bool
  de_update :: bool
  de_insert :: bool
  de_now :: int

definition dxcc_one :: "dxcc_env \<Rightarrow> int \<Rightarrow> dxcc_status \<Rightarrow> sync_db \<Rightarrow> sync_db" where
  "dxcc_one de userID st db =
     (if dx_confirmed st then
        upsertDXCCAwardProgress (de_update de) (de_insert de) (de_now de) userID (dx_entity st) True ''clublog''
          (markClubLogDXCCConfirmed (de_mark de) (de_now de) userID (dx_entity st) db)
      else if dx_worked st then
        upsertDXCCAwardProgress (de_update de) (de_insert de) (de_now de) userID (dx_entity st) False [] db
      else db)"

definition ClubLogPollWorker_Work ::
  "work_env \<Rightarrow> (nat \<Rightarrow> dxcc_env) \<Rightarrow> (string + dxcc_status list) \<Rightarrow> int \<Rightarrow> sync_db \<Rightarrow> sync_db \<times> job_result" where
  "ClubLogPollWorker_Work e des answer userID db =
     (case poll_prologue e ''clublog'' Second userID db of
        (db1, Some r) \<Rightarrow> (db1, r)
      | (db1, None) \<Rightarrow>
          if TrimSpace (we_apikey e) = [] then (db1, JobDone)
          else (case answer of
                  Inl err \<Rightarrow> (record_failure e (we_step e 0) ''clublog'' err db1, JobErr (''clublog poll: get dxcc status: '' @ err))
                | Inr sts \<Rightarrow>
                    (fold (\<lambda>(i, st). dxcc_one (des i) userID st) (List.enumerate 0 sts) (record_success (we_step e 0) ''clublog'' db1), JobDone)))"


section \<open>HamQTH\<close>

text \<open>\<open>pingSession\<close>: an error of the empty upload counts only if it is about the credentials.\<close>

definition pingSession :: "(string + unit) \<Rightarrow> string option" where
  "pingSession answer =
     (case answer of Inl err \<Rightarrow> if isHamQTHAuthOrPermanentError err then Some err else None | Inr _ \<Rightarrow> None)"

definition confirmationGracePeriod :: int where "confirmationGracePeriod = 30 * 24 * 3600 * Second"

definition HamQTHPollWorker_Work ::
  "work_env \<Rightarrow> bool \<Rightarrow> (string + unit) \<Rightarrow> int \<Rightarrow> sync_db \<Rightarrow> sync_db \<times> job_result" where
  "HamQTHPollWorker_Work e mark_ok answer userID db =
     (case poll_prologue e ''hamqth'' (Second div 2) userID db of
        (db1, Some r) \<Rightarrow> (db1, r)
      | (db1, None) \<Rightarrow>
          (case pingSession answer of
             Some err \<Rightarrow> (record_failure e (we_step e 0) ''hamqth'' err db1, JobErr (''hamqth poll: session ping failed: '' @ err))
           | None \<Rightarrow>
               (fst (markLongUploadedAsConfirmed mark_ok (st_now (we_step e 0)) (st_dbnow (we_step e 0)) userID confirmationGracePeriod
                       (record_success (we_step e 0) ''hamqth'' db1)), JobDone)))"


section \<open>What a poll changes\<close>

text \<open>A contact without the columns that a confirmation writes.\<close>

definition qso_core :: "sync_qso \<Rightarrow> sync_qso" where
  "qso_core q = q\<lparr>sq_lotw_qsl_rcvd := None, sq_lotw_qsl_rcvd_date := None, sq_eqsl_qsl_rcvd := None, sq_eqsl_qsl_rcvd_date := None,
     sq_qsl_rcvd := None, sq_qsl_rcvd_date := None, sq_qrz_qsl_rcvd := None, sq_qrz_qsl_rcvd_date := None, sq_updated_at := 0\<rparr>"

text \<open>A flag stays or becomes \<open>Y\<close>; a date is written once.\<close>

definition flag_step :: "string option \<Rightarrow> string option \<Rightarrow> bool" where
  "flag_step a b \<longleftrightarrow> b = a \<or> b = Some ''Y''"

definition date_step :: "int option \<Rightarrow> int option \<Rightarrow> bool" where
  "date_step a b \<longleftrightarrow> b = a \<or> a = None"

definition qso_step :: "(sync_qso \<Rightarrow> bool) \<Rightarrow> sync_qso \<Rightarrow> sync_qso \<Rightarrow> bool" where
  "qso_step own q q' \<longleftrightarrow>
     qso_core q' = qso_core q \<and> (q' = q \<or> own q \<and> sq_deleted_at q = None) \<and>
     flag_step (sq_lotw_qsl_rcvd q) (sq_lotw_qsl_rcvd q') \<and> date_step (sq_lotw_qsl_rcvd_date q) (sq_lotw_qsl_rcvd_date q') \<and>
     flag_step (sq_eqsl_qsl_rcvd q) (sq_eqsl_qsl_rcvd q') \<and> date_step (sq_eqsl_qsl_rcvd_date q) (sq_eqsl_qsl_rcvd_date q') \<and>
     flag_step (sq_qsl_rcvd q) (sq_qsl_rcvd q') \<and> date_step (sq_qsl_rcvd_date q) (sq_qsl_rcvd_date q') \<and>
     flag_step (sq_qrz_qsl_rcvd q) (sq_qrz_qsl_rcvd q') \<and> date_step (sq_qrz_qsl_rcvd_date q) (sq_qrz_qsl_rcvd_date q')"

definition confirm_step :: "(sync_row \<Rightarrow> bool) \<Rightarrow> sync_row \<Rightarrow> sync_row \<Rightarrow> bool" where
  "confirm_step own r r' \<longleftrightarrow> r' = r \<or> own r \<and> (\<exists>now. r' = confirm_row now r)"

definition award_key :: "award_prog \<Rightarrow> int \<times> string \<times> string \<times> string option \<times> string option" where
  "award_key a = (ap_user_id a, ap_award_type a, ap_entity_key a, ap_band a, ap_mode a)"

definition award_step :: "int set \<Rightarrow> award_prog \<Rightarrow> award_prog \<Rightarrow> bool" where
  "award_step U a a' \<longleftrightarrow>
     a' = a \<or> ap_user_id a \<in> U \<and> ap_award_type a = ''dxcc'' \<and> award_key a' = award_key a \<and> ap_confirmed a' \<and> ap_worked a' = ap_worked a \<and>
       date_step (ap_confirmed_at a) (ap_confirmed_at a')"

definition awards_step :: "int set \<Rightarrow> award_prog list \<Rightarrow> award_prog list \<Rightarrow> bool" where
  "awards_step U as bs \<longleftrightarrow>
     (\<exists>as' new. bs = as' @ new \<and> list_all2 (award_step U) as as' \<and> (\<forall>a \<in> set new. ap_user_id a \<in> U \<and> ap_award_type a = ''dxcc'')) \<and>
     (distinct (map award_key as) \<longrightarrow> distinct (map award_key bs))"

text \<open>The step of jobs for the services and users in \<open>J\<close>.\<close>

definition polled :: "(string \<times> int) set \<Rightarrow> sync_db \<Rightarrow> sync_db \<Rightarrow> bool" where
  "polled J db db' \<longleftrightarrow>
     sd_logbooks db' = sd_logbooks db \<and> sd_creds db' = sd_creds db \<and> sd_next_id db' = sd_next_id db \<and>
     list_all2 (confirm_step (\<lambda>r. \<exists>u. row_user db r = Some u \<and> (ss_service r, u) \<in> J)) (sd_sync db) (sd_sync db') \<and>
     list_all2 (qso_step (\<lambda>q. \<exists>u. qso_user db q = Some u \<and> u \<in> snd ` J)) (sd_qsos db) (sd_qsos db') \<and>
     awards_step (snd ` J) (sd_awards db) (sd_awards db')"

lemma flag_step_refl [simp]: "flag_step a a" and date_step_refl [simp]: "date_step d d"
  by (simp_all add: flag_step_def date_step_def)

lemma flag_step_trans: "flag_step a b \<Longrightarrow> flag_step b c \<Longrightarrow> flag_step a c"
  by (auto simp: flag_step_def)

lemma date_step_trans: "date_step a b \<Longrightarrow> date_step b c \<Longrightarrow> date_step a c"
  by (auto simp: date_step_def)

lemma qso_step_refl [simp]: "qso_step own q q" and confirm_step_refl [simp]: "confirm_step own' r r" and award_step_refl [simp]: "award_step U a a"
  by (simp_all add: qso_step_def confirm_step_def award_step_def)

lemma core_fields:
  assumes "qso_core q' = qso_core q"
  shows "sq_id q' = sq_id q" "sq_logbook_id q' = sq_logbook_id q" "sq_deleted_at q' = sq_deleted_at q"
  using arg_cong [OF assms, of sq_id] arg_cong [OF assms, of sq_logbook_id] arg_cong [OF assms, of sq_deleted_at]
  by (simp_all add: qso_core_def)

lemma qso_step_trans:
  assumes "\<And>x y. qso_core x = qso_core y \<Longrightarrow> own x = own y" "qso_step own q r" "qso_step own r s"
  shows "qso_step own q s"
proof -
  have c: "qso_core r = qso_core q" "qso_core s = qso_core q" using assms(2,3) by (simp_all add: qso_step_def)
  then have "own r = own q" "sq_deleted_at r = sq_deleted_at q" using assms(1) by (blast, intro core_fields)
  then have "s = q \<or> own q \<and> sq_deleted_at q = None" using assms(2,3) by (simp only: qso_step_def) blast
  then show ?thesis using assms(2,3) c(2) unfolding qso_step_def by (blast intro: flag_step_trans date_step_trans)
qed

lemma confirm_row_twice: "confirm_row n (confirm_row m r) = confirm_row n r"
  by (simp add: confirm_row_def)

lemma confirm_step_trans:
  assumes "\<And>n r. own (confirm_row n r) = own r" "confirm_step own r s" "confirm_step own s t"
  shows "confirm_step own r t"
  using assms(2,3) unfolding confirm_step_def by (elim disjE conjE exE) (auto simp: confirm_row_twice assms(1))

lemma award_step_trans: "award_step U a b \<Longrightarrow> award_step U b c \<Longrightarrow> award_step U a c"
  unfolding award_step_def
  by (elim disjE conjE) (simp_all add: award_key_def date_step_def, metis)

lemma awards_step_refl [simp]: "awards_step U as as"
  unfolding awards_step_def by (intro conjI exI [of _ as] exI [of _ "[]"]) (auto intro: list.rel_refl_strong)

lemma awards_step_trans:
  assumes "awards_step U as bs" "awards_step U bs cs"
  shows "awards_step U as cs"
proof -
  obtain as' n1 where 1: "bs = as' @ n1" "list_all2 (award_step U) as as'" "\<forall>a \<in> set n1. ap_user_id a \<in> U \<and> ap_award_type a = ''dxcc''"
    using assms(1) unfolding awards_step_def by blast
  obtain bs' n2 where 2: "cs = bs' @ n2" "list_all2 (award_step U) bs bs'" "\<forall>a \<in> set n2. ap_user_id a \<in> U \<and> ap_award_type a = ''dxcc''"
    using assms(2) unfolding awards_step_def by blast
  obtain as'' n1' where 3: "bs' = as'' @ n1'" "list_all2 (award_step U) as' as''" "list_all2 (award_step U) n1 n1'"
    using 2(2) unfolding 1(1) by (auto simp: list_all2_append1)
  have "list_all2 (award_step U) as as''" by (rule list_all2_trans [OF award_step_trans 1(2) 3(2)])
  moreover have "\<forall>a \<in> set n1'. ap_user_id a \<in> U \<and> ap_award_type a = ''dxcc''"
  proof
    fix a assume "a \<in> set n1'"
    then obtain b where "b \<in> set n1" "award_step U b a" using 3(3) by (metis in_set_conv_nth list_all2_conv_all_nth)
    then show "ap_user_id a \<in> U \<and> ap_award_type a = ''dxcc''" using 1(3) by (auto simp: award_step_def award_key_def)
  qed
  ultimately show ?thesis
    using 2(1,3) 3(1) assms unfolding awards_step_def by (intro conjI exI [of _ as''] exI [of _ "n1' @ n2"]) auto
qed


lemma find_core:
  "list_all2 (qso_step own) xs ys \<Longrightarrow>
   map_option qso_core (find (\<lambda>q. sq_id q = i) ys) = map_option qso_core (find (\<lambda>q. sq_id q = i) xs)"
proof (induction rule: list_all2_induct)
  case (Cons x xs y ys)
  then have "qso_core y = qso_core x" by (simp add: qso_step_def)
  with Cons core_fields(1) [OF this] show ?case by simp
qed simp

lemma polledD:
  assumes "polled J db db'"
  shows "sd_logbooks db' = sd_logbooks db" "sd_creds db' = sd_creds db" "sd_next_id db' = sd_next_id db"
    and "list_all2 (confirm_step (\<lambda>r. \<exists>u. row_user db r = Some u \<and> (ss_service r, u) \<in> J)) (sd_sync db) (sd_sync db')"
    and "list_all2 (qso_step (\<lambda>q. \<exists>u. qso_user db q = Some u \<and> u \<in> snd ` J)) (sd_qsos db) (sd_qsos db')"
    and "awards_step (snd ` J) (sd_awards db) (sd_awards db')"
  using assms unfolding polled_def by blast+

lemma polled_user:
  assumes "polled J db db'"
  shows "qso_user db' = qso_user db" and "row_user db' r = row_user db r"
proof -
  note lb = polledD(1) [OF assms]
  show q: "qso_user db' = qso_user db" by (intro ext) (simp add: lb qso_user_def)
  have "map_option qso_core (qso_of db' i) = map_option qso_core (qso_of db i)" for i
    unfolding qso_of_def by (rule find_core [OF polledD(5) [OF assms]])
  from arg_cong [OF this, of "map_option sq_logbook_id"]
  have "map_option sq_logbook_id (qso_of db' i) = map_option sq_logbook_id (qso_of db i)" for i
    by (simp add: option.map_comp comp_def qso_core_def)
  from this [of "ss_qso_id r"] show "row_user db' r = row_user db r"
    by (cases "qso_of db' (ss_qso_id r)"; cases "qso_of db (ss_qso_id r)") (simp_all add: row_user_def qso_user_def lb)
qed

lemma polled_ids:
  assumes "polled J db db'"
  shows "map sq_id (sd_qsos db') = map sq_id (sd_qsos db)"
  using polledD(5) [OF assms]
proof (induction rule: list_all2_induct)
  case (Cons x xs y ys)
  then have "qso_core y = qso_core x" by (simp only: qso_step_def)
  from core_fields(1) [OF this] Cons show ?case by simp
qed simp

lemma polled_refl [simp]: "polled J db db"
  by (simp add: polled_def list.rel_refl_strong)

lemma polled_trans:
  assumes "polled J a b" "polled J b c"
  shows "polled J a c"
proof -
  define own where "own = (\<lambda>r. \<exists>u. row_user a r = Some u \<and> (ss_service r, u) \<in> J)"
  define mine where "mine = (\<lambda>q. \<exists>u. qso_user a q = Some u \<and> u \<in> snd ` J)"
  note p1 = polledD [OF assms(1), folded own_def mine_def]
  note p2 = polledD [OF assms(2), unfolded polled_user [OF assms(1)], folded own_def mine_def]
  have "own (confirm_row n r) = own r" for n r by (simp add: own_def confirm_row_def row_user_def)
  note ct = confirm_step_trans [of own, OF this]
  have "mine x = mine y" if "qso_core x = qso_core y" for x y using core_fields(2) [OF that] by (simp add: mine_def qso_user_def)
  note qt = qso_step_trans [of mine, OF this]
  have "list_all2 (confirm_step own) (sd_sync a) (sd_sync c)" by (rule list_all2_trans [OF ct p1(4) p2(4)])
  moreover have "list_all2 (qso_step mine) (sd_qsos a) (sd_qsos c)" by (rule list_all2_trans [OF qt p1(5) p2(5)])
  moreover have "awards_step (snd ` J) (sd_awards a) (sd_awards c)" by (rule awards_step_trans [OF p1(6) p2(6)])
  ultimately show ?thesis using p1(1-3) p2(1-3) by (simp add: polled_def own_def mine_def)
qed

lemma steps_mono:
  "(\<And>x. own x \<Longrightarrow> own' x) \<Longrightarrow> confirm_step own r s \<Longrightarrow> confirm_step own' r s"
  "(\<And>x. mine x \<Longrightarrow> mine' x) \<Longrightarrow> qso_step mine q q' \<Longrightarrow> qso_step mine' q q'"
  "U \<subseteq> V \<Longrightarrow> award_step U a b \<Longrightarrow> award_step V a b"
  unfolding confirm_step_def qso_step_def award_step_def by blast+

lemma polled_mono:
  assumes "polled J db db'" "J \<subseteq> K"
  shows "polled K db db'"
proof -
  note p = polledD [OF assms(1)]
  have u: "snd ` J \<subseteq> snd ` K" using assms(2) by blast
  have "list_all2 (confirm_step (\<lambda>r. \<exists>u. row_user db r = Some u \<and> (ss_service r, u) \<in> K)) (sd_sync db) (sd_sync db')"
    by (rule list_all2_mono [OF p(4)], erule steps_mono(1) [rotated]) (use assms(2) in blast)
  moreover have "list_all2 (qso_step (\<lambda>q. \<exists>u. qso_user db q = Some u \<and> u \<in> snd ` K)) (sd_qsos db) (sd_qsos db')"
    by (rule list_all2_mono [OF p(5)], erule steps_mono(2) [rotated]) (use u in blast)
  moreover have "awards_step (snd ` K) (sd_awards db) (sd_awards db')"
  proof -
    obtain as' new where n: "sd_awards db' = as' @ new" "list_all2 (award_step (snd ` J)) (sd_awards db) as'"
      "\<forall>a \<in> set new. ap_user_id a \<in> snd ` J \<and> ap_award_type a = ''dxcc''"
      using p(6) unfolding awards_step_def by blast
    have "list_all2 (award_step (snd ` K)) (sd_awards db) as'" by (rule list_all2_mono [OF n(2)]) (rule steps_mono(3) [OF u])
    moreover have "\<forall>a \<in> set new. ap_user_id a \<in> snd ` K \<and> ap_award_type a = ''dxcc''" using n(3) u by blast
    ultimately show ?thesis using n(1) p(6) unfolding awards_step_def by blast
  qed
  ultimately show ?thesis using p(1-3) by (simp add: polled_def)
qed

lemma polled_job_step: "job_step svc u db db' \<Longrightarrow> sd_sync db' = sd_sync db \<Longrightarrow> polled J db db'"
  by (simp add: polled_def job_step_def same_tables_def list.rel_refl_strong)

lemma poll_prologue_polled: "poll_prologue e svc snooze u db = (db', r) \<Longrightarrow> polled J db db'"
  unfolding poll_prologue_def
  by (auto split: prod.splits option.splits sum.splits if_splits
      dest!: check_circuit_step [where u = u] check_rate_step [where u = u]
      intro: polled_job_step job_step_trans)

lemma polled_record [simp]: "polled J db (record_failure e s svc err db)" "polled J db (record_success s svc db)"
  using polled_job_step [OF record_failure_step] polled_job_step [OF record_success_step]
  by (simp_all add: record_failure_def record_success_def)


lemma polled_update_sync:
  assumes "\<And>r. r \<in> set (sd_sync db) \<Longrightarrow> P r \<Longrightarrow> ss_service r = svc \<and> row_user db r = Some u"
  shows "polled {(svc, u)} db (update_sync P (confirm_row now) db)"
proof -
  have "list_all2 (confirm_step (\<lambda>r. \<exists>v. row_user db r = Some v \<and> (ss_service r, v) \<in> {(svc, u)})) (sd_sync db)
          (sd_sync (update_sync P (confirm_row now) db))"
    using assms by (auto simp: update_sync_def list_all2_map2 confirm_step_def intro!: list.rel_refl_strong)
  then show ?thesis by (simp add: polled_def update_sync_def list.rel_refl_strong)
qed

lemma find_unique: "x \<in> set xs \<Longrightarrow> distinct (map f xs) \<Longrightarrow> find (\<lambda>y. f y = f x) xs = Some x"
  by (induction xs) auto

lemma unique_qso: "q \<in> set (sd_qsos db) \<Longrightarrow> distinct (map sq_id (sd_qsos db)) \<Longrightarrow> qso_of db (sq_id q) = Some q"
  unfolding qso_of_def by (rule find_unique)


lemma polled_update_qso:
  assumes "q \<in> set (sd_qsos db)" "distinct (map sq_id (sd_qsos db))" "qso_user db q = Some u" "sq_deleted_at q = None"
    and "qso_step (\<lambda>_. True) q (f q)"
  shows "polled {(svc, u)} db (update_qso (sq_id q) f db)"
proof -
  let ?own = "\<lambda>q. \<exists>v. qso_user db q = Some v \<and> v \<in> snd ` {(svc, u)}"
  have own: "?own q" using assms(3) by simp
  have step: "qso_step ?own q (f q)" using assms(4,5) own unfolding qso_step_def by blast
  have "qso_step ?own x (if sq_id x = sq_id q then f x else x)" if x: "x \<in> set (sd_qsos db)" for x
  proof (cases "sq_id x = sq_id q")
    case True
    then have "qso_of db (sq_id q) = Some x" using unique_qso [OF x assms(2)] by (simp only:)
    then have "x = q" using unique_qso [OF assms(1,2)] by (simp only: option.inject)
    then show ?thesis using step by (simp only: refl if_True)
  next
    case False
    then show ?thesis by (simp only: if_False qso_step_refl)
  qed
  then have "list_all2 (qso_step ?own) (sd_qsos db) (map (\<lambda>x. if sq_id x = sq_id q then f x else x) (sd_qsos db))"
    unfolding list_all2_map2 by (rule list.rel_refl_strong)
  then show ?thesis by (simp add: polled_def update_qso_def list.rel_refl_strong)
qed

lemma polled_markSyncConfirmed:
  assumes "q \<in> set (sd_qsos db)" "distinct (map sq_id (sd_qsos db))" "qso_user db q = Some u"
  shows "polled {(svc, u)} db (markSyncConfirmed ok now (sq_id q) svc db)"
proof -
  have "row_user db r = Some u" if "ss_qso_id r = sq_id q" for r
    using unique_qso [OF assms(1,2)] that assms(3) by (simp add: row_user_def)
  then show ?thesis by (auto simp: markSyncConfirmed_def intro!: polled_update_sync)
qed

text \<open>A contact that a confirmation names: the update of its columns, then the update of its row.\<close>

lemma polled_confirm:
  assumes q: "q \<in> set (sd_qsos db)" "distinct (map sq_id (sd_qsos db))" "qso_user db q = Some u" "sq_deleted_at q = None"
    and f: "qso_step (\<lambda>_. True) q (f q)"
  shows "polled {(svc, u)} db (markSyncConfirmed ok now (sq_id q) svc (update_qso (sq_id q) f db))"
proof -
  let ?db = "update_qso (sq_id q) f db"
  have p: "polled {(svc, u)} db ?db" by (rule polled_update_qso [where f = f, OF q f])
  have d: "distinct (map sq_id (sd_qsos ?db))" using polled_ids [OF p] q(2) by simp
  have c: "qso_core (f q) = qso_core q" using f by (simp add: qso_step_def)
  have "f q \<in> set (sd_qsos ?db)" using q(1) by (auto simp: update_qso_def)
  moreover have "qso_user ?db (f q) = Some u" using q(3) core_fields(2) [OF c] by (simp add: qso_user_def update_qso_def)
  ultimately have "polled {(svc, u)} ?db (markSyncConfirmed ok now (sq_id (f q)) svc ?db)" by (intro polled_markSyncConfirmed d)
  then show ?thesis using polled_trans [OF p] core_fields(1) [OF c] by simp
qed

lemma inbox_one_polled:
  assumes "distinct (map sq_id (sd_qsos db))"
  shows "polled {(''eqsl'', u)} db (inbox_one ie u rec db)"
proof (cases "ib_DatetimeOn rec")
  case (Some t)
  show ?thesis
  proof (cases "find (eqsl_matches u rec t db) (sd_qsos db)")
    case m: (Some q)
    then have q: "q \<in> set (sd_qsos db)" "qso_user db q = Some u" "sq_deleted_at q = None"
      by (auto simp: find_Some_iff eqsl_matches_def)
    have "qso_step (\<lambda>_. True) q (set_eqsl_rcvd (ie_now ie) t q)"
      by (simp add: set_eqsl_rcvd_def qso_step_def qso_core_def flag_step_def date_step_def q(3) split: option.splits)
    from polled_confirm [where f = "set_eqsl_rcvd (ie_now ie) t", OF q(1) assms q(2,3) this] polled_markSyncConfirmed [OF q(1) assms q(2)]
    show ?thesis by (simp add: inbox_one_def Some m)
  qed (simp add: inbox_one_def Some)
qed (simp add: inbox_one_def)

lemma find_match_in:
  assumes "findMatchingQSOForConfirmation u rec db \<noteq> 0"
  obtains q where "q \<in> set (sd_qsos db)" "qso_user db q = Some u" "sq_deleted_at q = None" "findMatchingQSOForConfirmation u rec db = sq_id q"
proof -
  let ?xs = "sort_key (\<lambda>q. \<bar>sq_datetime_on q - qc_DatetimeOn rec\<bar>) (filter (qrz_matches u rec db) (sd_qsos db))"
  obtain q xs where xs: "?xs = q # xs" using assms by (cases ?xs) (auto simp: findMatchingQSOForConfirmation_def)
  then have "q \<in> set ?xs" by (simp only: list.set_intros)
  then have "q \<in> set (sd_qsos db)" "qrz_matches u rec db q" by simp_all
  then show thesis using that [of q] xs by (simp add: qrz_matches_def findMatchingQSOForConfirmation_def)
qed

lemma set_rcvd_steps: "flag_step old (set_rcvd flag old)" "date_step d (set_rcvd_date today flag date d)"
  by (simp_all add: flag_step_def date_step_def set_rcvd_def set_rcvd_date_def)

lemma qrz_confirm_core: "qso_core (qrz_confirm_qso now rec q) = qso_core q"
  unfolding qrz_confirm_qso_def Let_def qso_core_def by (cases q) (simp only: sync_qso.update_convs)

lemma qrz_confirm_qso_step:
  assumes "sq_deleted_at q = None"
  shows "qso_step (\<lambda>_. True) q (qrz_confirm_qso now rec q)"
  unfolding qso_step_def
  by (intro conjI) (simp_all add: qrz_confirm_core assms, simp_all add: qrz_confirm_qso_def set_rcvd_steps set_rcvd_date_def Let_def date_step_def)

lemma qrz_poll_one_polled:
  assumes "distinct (map sq_id (sd_qsos db))"
  shows "polled {(''qrz'', u)} db (qrz_poll_one ie u rec db)"
proof (cases "findMatchingQSOForConfirmation u rec db = 0")
  case False
  then obtain q where q: "q \<in> set (sd_qsos db)" "qso_user db q = Some u" "sq_deleted_at q = None" "findMatchingQSOForConfirmation u rec db = sq_id q"
    by (rule find_match_in)
  have "sq_id q \<noteq> 0" using False q(4) by simp
  then show ?thesis
    using polled_confirm [where f = "qrz_confirm_qso (ie_now ie) rec", OF q(1) assms q(2,3) qrz_confirm_qso_step [OF q(3)]]
      polled_update_qso [where f = "qrz_confirm_qso (ie_now ie) rec", OF q(1) assms q(2,3) qrz_confirm_qso_step [OF q(3)]]
    by (simp add: qrz_poll_one_def q(4) applyQRZConfirmation_def Let_def)
qed (simp add: qrz_poll_one_def)

lemma polled_fold:
  assumes "\<And>x db. distinct (map sq_id (sd_qsos db)) \<Longrightarrow> polled J db (f x db)" "distinct (map sq_id (sd_qsos db))"
  shows "polled J db (fold f xs db)"
  using assms(2)
proof (induction xs arbitrary: db)
  case (Cons x xs)
  from assms(1) [OF Cons.prems] have p: "polled J db (f x db)" .
  then have "distinct (map sq_id (sd_qsos (f x db)))" using polled_ids Cons.prems by metis
  from polled_trans [OF p Cons.IH [OF this]] show ?case by simp
qed simp


lemma awards_step_map:
  assumes "\<And>a. a \<in> set as \<Longrightarrow> award_step U a (f a)" "\<And>a. award_key (f a) = award_key a"
  shows "awards_step U as (map f as)"
proof -
  have "list_all2 (award_step U) as (map f as)" unfolding list_all2_map2 by (rule list.rel_refl_strong) (rule assms(1))
  then show ?thesis unfolding awards_step_def using assms(2) by (intro conjI exI [of _ "map f as"] exI [of _ "[]"]) (simp_all add: comp_def)
qed

lemma awards_step_new:
  assumes "ap_user_id a \<in> U" "ap_award_type a = ''dxcc''" "award_key a \<notin> award_key ` set as"
  shows "awards_step U as (as @ [a])"
  unfolding awards_step_def using assms
  by (intro conjI exI [of _ as] exI [of _ "[a]"]) (simp_all add: list.rel_refl_strong)

lemma confirm_dxcc_key [simp]: "award_key (confirm_dxcc now m a) = award_key a"
  by (simp add: confirm_dxcc_def award_key_def)

lemma confirm_dxcc_step: "is_dxcc u key a \<Longrightarrow> award_step {u} a (confirm_dxcc now m a)"
  by (simp add: award_step_def is_dxcc_def) (simp add: confirm_dxcc_def award_key_def date_step_def split: option.splits)

lemma polled_awards: "awards_step {u} (sd_awards db) as \<Longrightarrow> polled {(svc, u)} db (db\<lparr>sd_awards := as\<rparr>)"
  by (simp add: polled_def list.rel_refl_strong row_user_def qso_of_def qso_user_def)

lemma upsertDXCC_polled: "polled {(svc, u)} db (upsertDXCCAwardProgress ok1 ok2 now u ent confirmed m db)"
proof -
  let ?key = "show_int ent"
  have a: "awards_step {u} (sd_awards db) (map (\<lambda>a. if is_dxcc u ?key a then confirm_dxcc now m a else a) (sd_awards db))"
    by (rule awards_step_map) (simp_all add: confirm_dxcc_step)
  have b: "awards_step {u} (sd_awards db) (sd_awards db @ [new_dxcc now u ?key confirmed mm])"
    if "\<not> list_ex (is_dxcc u ?key) (sd_awards db)" for mm
    using that by (intro awards_step_new) (auto simp: new_dxcc_def award_key_def is_dxcc_def list_ex_iff)
  show ?thesis using polled_awards [OF a, of svc] polled_awards [OF b]
    by (simp add: upsertDXCCAwardProgress_def Let_def)
qed

lemma dxcc_one_polled: "polled {(''clublog'', u)} db (dxcc_one de u st db)"
proof -
  have "polled {(''clublog'', u)} db (markClubLogDXCCConfirmed (de_mark de) (de_now de) u (dx_entity st) db)"
    by (auto simp: markClubLogDXCCConfirmed_def intro!: polled_update_sync)
  from polled_trans [OF this upsertDXCC_polled] upsertDXCC_polled show ?thesis by (simp add: dxcc_one_def)
qed

lemma hamqth_polled: "polled {(''hamqth'', u)} db (fst (markLongUploadedAsConfirmed ok now dbnow u grace db))"
  by (auto simp: markLongUploadedAsConfirmed_def Let_def intro!: polled_update_sync)

text \<open>The four workers that poll, each with the answers that it gets.\<close>

datatype poll_job =
    EQSLDownload "nat \<Rightarrow> inbox_env" "string + inbox_rec list"
  | QRZPoll "nat \<Rightarrow> inbox_env" string "int \<Rightarrow> string + string" "string \<Rightarrow> string option"
  | ClubLogPoll "nat \<Rightarrow> dxcc_env" "string + dxcc_status list"
  | HamQTHPoll bool "string + unit"

fun poll_service :: "poll_job \<Rightarrow> string" where
  "poll_service (EQSLDownload _ _) = ''eqsl''"
| "poll_service (QRZPoll _ _ _ _) = ''qrz''"
| "poll_service (ClubLogPoll _ _) = ''clublog''"
| "poll_service (HamQTHPoll _ _) = ''hamqth''"

fun poll_work :: "poll_job \<Rightarrow> work_env \<Rightarrow> int \<Rightarrow> sync_db \<Rightarrow> sync_db \<times> job_result" where
  "poll_work (EQSLDownload ies answer) e u db = EQSLDownloadWorker_Work e ies answer u db"
| "poll_work (QRZPoll ies lookback fetch decode) e u db = QRZPollWorker_Work e ies lookback fetch decode u db"
| "poll_work (ClubLogPoll des answer) e u db = ClubLogPollWorker_Work e des answer u db"
| "poll_work (HamQTHPoll mark_ok answer) e u db = HamQTHPollWorker_Work e mark_ok answer u db"

lemma prologue_polled:
  assumes "distinct (map sq_id (sd_qsos db))" and k: "\<And>db1. distinct (map sq_id (sd_qsos db1)) \<Longrightarrow> polled {(svc, u)} db1 (fst (k db1))"
  shows "polled {(svc, u)} db (fst (case poll_prologue e svc snooze u db of (db1, Some r) \<Rightarrow> (db1, r) | (db1, None) \<Rightarrow> k db1))"
proof (cases "poll_prologue e svc snooze u db")
  case (Pair db1 r)
  note p = poll_prologue_polled [OF Pair, of "{(svc, u)}"]
  have "distinct (map sq_id (sd_qsos db1))" using polled_ids [OF p] assms(1) by simp
  from polled_trans [OF p k [OF this]] p Pair show ?thesis by (simp split: option.split)
qed

lemma success_fold:
  assumes "\<And>x db. distinct (map sq_id (sd_qsos db)) \<Longrightarrow> polled J db (f x db)" "distinct (map sq_id (sd_qsos db))"
  shows "polled J db (fold f xs (record_success s svc db))"
  by (rule polled_trans [OF polled_record(2) polled_fold [OF assms(1)]]) (simp_all add: record_success_def assms(2))

lemma poll_work_polled:
  assumes "distinct (map sq_id (sd_qsos db))"
  shows "polled {(poll_service j, u)} db (fst (poll_work j e u db))"
proof (cases j)
  case (EQSLDownload ies answer)
  show ?thesis unfolding EQSLDownload poll_work.simps poll_service.simps EQSLDownloadWorker_Work_def
    by (rule prologue_polled [OF assms]) (auto split: sum.split intro!: success_fold inbox_one_polled)
next
  case (QRZPoll ies lookback fetch decode)
  show ?thesis unfolding QRZPoll poll_work.simps poll_service.simps QRZPollWorker_Work_def
    by (rule prologue_polled [OF assms]) (auto simp: Let_def split: sum.split intro!: success_fold qrz_poll_one_polled)
next
  case (ClubLogPoll des answer)
  show ?thesis unfolding ClubLogPoll poll_work.simps poll_service.simps ClubLogPollWorker_Work_def
    by (rule prologue_polled [OF assms]) (auto split: sum.split intro!: success_fold dxcc_one_polled)
next
  case (HamQTHPoll mark_ok answer)
  show ?thesis unfolding HamQTHPoll poll_work.simps poll_service.simps HamQTHPollWorker_Work_def
    by (rule prologue_polled [OF assms])
      (auto split: option.split intro!: polled_trans [OF polled_record(2) hamqth_polled])
qed


section \<open>Sequences of polls\<close>

locale polls =
  fixes work :: "'j \<Rightarrow> work_env \<Rightarrow> int \<Rightarrow> sync_db \<Rightarrow> sync_db \<times> job_result" and svc :: "'j \<Rightarrow> string"
  assumes work_polled: "distinct (map sq_id (sd_qsos db)) \<Longrightarrow> polled {(svc j, u)} db (fst (work j e u db))"
begin

definition run :: "('j \<times> work_env \<times> int) list \<Rightarrow> sync_db \<Rightarrow> sync_db" where
  "run jobs db = fold (\<lambda>(j, e, u) db. fst (work j e u db)) jobs db"

lemma run_polled:
  assumes "distinct (map sq_id (sd_qsos db))"
  shows "polled ((\<lambda>(j, e, u). (svc j, u)) ` set jobs) db (run jobs db)"
  using assms
proof (induction jobs arbitrary: db)
  case (Cons x jobs)
  obtain j e u where x: "x = (j, e, u)" by (cases x)
  let ?J = "(\<lambda>(j, e, u). (svc j, u)) ` set (x # jobs)"
  have p: "polled ?J db (fst (work j e u db))" by (rule polled_mono [OF work_polled [OF Cons.prems, of j u e]]) (simp add: x)
  have "distinct (map sq_id (sd_qsos (fst (work j e u db))))" using polled_ids [OF p] Cons.prems by simp
  from polled_mono [OF Cons.IH [OF this], of ?J] have "polled ?J (fst (work j e u db)) (run jobs (fst (work j e u db)))" by auto
  from polled_trans [OF p this] show ?case by (simp add: run_def x)
qed (simp add: run_def)

end

interpretation poll_workers: polls poll_work poll_service
  by unfold_locales (rule poll_work_polled)

definition run_polls :: "(poll_job \<times> work_env \<times> int) list \<Rightarrow> sync_db \<Rightarrow> sync_db" where
  "run_polls jobs db = fold (\<lambda>(j, e, u) db. fst (poll_work j e u db)) jobs db"

lemma run_polls_polled:
  "distinct (map sq_id (sd_qsos db)) \<Longrightarrow> polled ((\<lambda>(j, e, u). (poll_service j, u)) ` set jobs) db (run_polls jobs db)"
  using poll_workers.run_polled [of db jobs] by (simp add: poll_workers.run_def run_polls_def)
end
