(* ===== verification/Sync_Upload.thy ===== *)
theory Sync_Upload
  imports Sync_Jobs Cred_Rotation
begin

text \<open>
  Properties of the upload workers and of the statements on \<open>sync_status\<close>.
\<close>

section \<open>A healthy service\<close>

lemma qsosToADIF_Inr: "\<exists>t. qsosToADIF rows = Inr t"
proof (cases rows)
  case Nil
  then show ?thesis by (simp add: qsosToADIF_def)
next
  case (Cons row rows')
  have w: "WriteRecord (NewWriter None) rec = (w', err) \<Longrightarrow> err = None \<and> w_left w' = None \<and> w_headerWritten w'" for rec w' err
    by (auto simp: WriteRecord_def WriteHeader_def NewWriter_def NewWriterWithOptions_def Fprintf_unlimited write_fields_unlimited Let_def)
  obtain w' err where e: "WriteRecord (NewWriter None) (batch_record row) = (w', err)" by fastforce
  with w [OF e] show ?thesis by (simp add: qsosToADIF_def Cons WriteRecords_unlimited)
qed

definition bucket :: "work_env \<Rightarrow> nat \<Rightarrow> int" where
  "bucket e i = trunc_second (st_dbnow (we_step e i))"

text \<open>Every statement succeeds, the service accepts every request, and every round of the loop falls into a second of its own.\<close>

definition healthy :: "work_env \<Rightarrow> string \<Rightarrow> bool" where
  "healthy e svc \<longleftrightarrow>
     we_circuit_ok e \<and> we_creds_ok e \<and> we_fetch_ok e \<and> 1 \<le> RateLimitRPS (policy (we_cfg e) svc) \<and> inj (bucket e) \<and>
     (\<forall>i. st_rate_ok (we_step e i) \<and> (\<forall>q. \<not> isl (st_send (we_step e i) q)) \<and> (\<forall>k. st_mark_ok (we_step e i) k))"

definition free_from :: "work_env \<Rightarrow> string \<Rightarrow> nat \<Rightarrow> rl_table \<Rightarrow> bool" where
  "free_from e svc k tbl \<longleftrightarrow> (\<forall>i \<ge> k. tbl (svc, bucket e i) = None)"

lemma check_rate_free:
  assumes "healthy e svc" "free_from e svc k (sd_rates db)"
  shows "\<exists>db1 ev. check_rate e (we_step e k) svc d db = (db1, ev, None) \<and> free_from e svc (Suc k) (sd_rates db1) \<and> sd_sync db1 = sd_sync db"
proof -
  obtain tbl res where c: "ConsumeRateLimit (we_cfg e) (st_rate_ok (we_step e k)) (st_dbnow (we_step e k)) (sd_rates db) svc = (tbl, res)" by fastforce
  have "sd_rates db (svc, bucket e k) = None" "st_rate_ok (we_step e k)" "1 \<le> RateLimitRPS (policy (we_cfg e) svc)"
    using assms by (simp_all add: healthy_def free_from_def)
  then have res: "res = Inr True" using c by (auto simp: ConsumeRateLimit_def Let_def bucket_def MaxInt32_def)
  have "tbl (svc, bucket e i) = None" if "Suc k \<le> i" for i
  proof -
    have "bucket e i \<noteq> bucket e k" using assms(1) that by (auto simp: healthy_def dest: injD)
    moreover have "sd_rates db (svc, bucket e i) = None" using assms(2) that by (simp add: free_from_def)
    ultimately show ?thesis using c by (auto simp: ConsumeRateLimit_def Let_def bucket_def split: if_splits)
  qed
  with c res show ?thesis by (simp add: check_rate_def free_from_def)
qed

text \<open>The rows with the given identifiers are uploaded, all others are unchanged.\<close>

definition uploaded_only :: "int set \<Rightarrow> sync_row list \<Rightarrow> sync_row list \<Rightarrow> bool" where
  "uploaded_only ids = list_all2 (\<lambda>r r'. ident r' = ident r \<and> (if ss_id r \<in> ids then ss_status r' = StUploaded else r' = r))"

lemma uploaded_only_empty [simp]: "uploaded_only {} rows rows"
  by (simp add: uploaded_only_def list.rel_refl_strong)

lemma uploaded_only_trans:
  assumes "uploaded_only A rows rows1" "uploaded_only B rows1 rows2"
  shows "uploaded_only (A \<union> B) rows rows2"
  using assms unfolding uploaded_only_def
  by (auto simp: list_all2_conv_all_nth ident_def split: if_splits)

lemma mark_uploads_only:
  assumes "\<forall>k. st_mark_ok s k"
  shows "uploaded_only (set ids) (sd_sync db) (sd_sync (mark_uploads s ids db))"
  unfolding mark_uploads_def
proof (induction ids arbitrary: db)
  case (Cons i ids)
  let ?m = "\<lambda>i. markUploaded (st_mark_ok s i) (st_dbnow s) i []"
  have "uploaded_only {i} (sd_sync db) (sd_sync (?m i db))"
    using assms by (auto simp: uploaded_only_def markUploaded_def update_sync_def list_all2_map2 ident_def intro!: list.rel_refl_strong)
  from uploaded_only_trans [OF this Cons.IH] show ?case by simp
qed simp

lemma upload_batches_healthy:
  assumes "healthy e (sv_name sv)" "free_from e (sv_name sv) k (sd_rates db)"
  shows "\<exists>db' tr. upload_batches sv e u k batches db = (db', tr, JobDone) \<and>
           uploaded_only (set (map p_SyncID (concat batches))) (sd_sync db) (sd_sync db')"
  using assms(2)
proof (induction batches arbitrary: k db)
  case (Cons batch batches)
  let ?s = "we_step e k"
  obtain db1 ev where g: "check_rate e ?s (sv_name sv) Second db = (db1, ev, None)" "free_from e (sv_name sv) (Suc k) (sd_rates db1)"
      "sd_sync db1 = sd_sync db"
    using check_rate_free [OF assms(1) Cons.prems] by blast
  obtain adif where a: "qsosToADIF batch = Inr adif" using qsosToADIF_Inr by blast
  obtain x where x: "st_send ?s (ReqADIF adif) = Inr x" using assms(1) by (metis healthy_def sum.collapse(2))
  let ?db2 = "mark_uploads ?s (map p_SyncID batch) (record_success ?s (sv_name sv) db1)"
  have "\<forall>k. st_mark_ok ?s k" using assms(1) by (simp add: healthy_def)
  from mark_uploads_only [OF this, of "map p_SyncID batch" "record_success ?s (sv_name sv) db1"]
  have "uploaded_only (set (map p_SyncID batch)) (sd_sync db) (sd_sync ?db2)" using g(3) by simp
  moreover obtain db' tr where r: "upload_batches sv e u (Suc k) batches ?db2 = (db', tr, JobDone)"
      "uploaded_only (set (map p_SyncID (concat batches))) (sd_sync ?db2) (sd_sync db')"
    using Cons.IH [of "Suc k" ?db2] g(2) by auto
  ultimately have "uploaded_only (set (map p_SyncID (concat (batch # batches)))) (sd_sync db) (sd_sync db')"
    using uploaded_only_trans by fastforce
  with g a x r(1) show ?case by simp
qed simp

text \<open>The number of rows that a job would fetch, were it not for its limit.\<close>

definition due_count :: "int \<Rightarrow> string \<Rightarrow> int \<Rightarrow> sync_db \<Rightarrow> nat" where
  "due_count now svc u db = length (filter (fetchable now svc u db) (sd_sync db))"

lemma fetchable_cong: "same_tables db db' \<Longrightarrow> fetchable now svc u db' r = fetchable now svc u db r"
  by (simp add: fetchable_def row_user_cong) (simp add: row_live_def qso_of_def same_tables_def)

lemma filter_take_out:
  assumes "distinct (map f xs)"
  shows "length (filter (\<lambda>x. f x \<notin> f ` set (take n xs)) xs) = length xs - n"
proof -
  have d: "f ` set (take n xs) \<inter> f ` set (drop n xs) = {}"
    using assms by (metis append_take_drop_id distinct_append map_append set_map)
  have "filter (\<lambda>x. f x \<notin> f ` set (take n xs)) (take n xs) = []" by (auto simp: filter_empty_conv)
  moreover have "filter (\<lambda>x. f x \<notin> f ` set (take n xs)) (drop n xs) = drop n xs" using d by (auto simp: filter_id_conv)
  ultimately have "filter (\<lambda>x. f x \<notin> f ` set (take n xs)) xs = drop n xs"
    by (metis append_take_drop_id filter_append self_append_conv2)
  then show ?thesis by simp
qed

lemma uploaded_not_due: "ss_status r = StUploaded \<Longrightarrow> \<not> fetchable now svc u db r"
  by (simp add: fetchable_def due_def)

lemma filter_uploaded_only:
  assumes "uploaded_only ids xs ys" "\<And>r. ss_status r = StUploaded \<Longrightarrow> \<not> F r"
  shows "length (filter F ys) = length (filter (\<lambda>r. F r \<and> ss_id r \<notin> ids) xs)"
  using assms(1) unfolding uploaded_only_def
  by (induction xs ys rule: list_all2_induct) (use assms(2) in \<open>auto split: if_splits\<close>)

lemma due_count_after:
  assumes "sync_ok db" "same_tables db db'"
    and "uploaded_only (set (map p_SyncID (fetchPendingQSOs now db svc u n))) (sd_sync db) (sd_sync db')"
  shows "due_count now svc u db' = due_count now svc u db - n"
proof -
  let ?F = "fetchable now svc u db" and ?ids = "set (map p_SyncID (fetchPendingQSOs now db svc u n))"
  let ?S = "sort_key ss_created_at (filter ?F (sd_sync db))"
  have ids: "?ids = ss_id ` set (take n ?S)" by (auto simp: fetchPendingQSOs_def pending_row_def)
  have "mset (map ss_id ?S) = mset (map ss_id (filter ?F (sd_sync db)))" by (simp only: mset_map mset_sort)
  moreover have "distinct (map ss_id (filter ?F (sd_sync db)))" using assms(1) by (simp add: sync_ok_def distinct_map_filter)
  ultimately have d: "distinct (map ss_id ?S)" by (metis mset_eq_imp_distinct_iff)
  have "due_count now svc u db' = length (filter ?F (sd_sync db'))"
    using fetchable_cong [OF assms(2)] by (simp add: due_count_def cong: filter_cong)
  also have "\<dots> = length (filter (\<lambda>r. ss_id r \<notin> ?ids) (filter ?F (sd_sync db)))"
    by (subst filter_uploaded_only [OF assms(3) uploaded_not_due]) (simp_all add: conj_commute)
  also have "\<dots> = length (filter (\<lambda>r. ss_id r \<notin> ?ids) ?S)"
    by (metis mset_filter mset_sort size_mset)
  also have "\<dots> = length ?S - n" unfolding ids by (rule filter_take_out [OF d])
  finally show ?thesis by (simp add: due_count_def)
qed

definition closed_circuit :: "sync_db \<Rightarrow> string \<Rightarrow> bool" where
  "closed_circuit db svc \<longleftrightarrow> (case sd_circuit db svc of None \<Rightarrow> True | Some r \<Rightarrow> cr_state r = CircuitClosed)"

lemma prologue_healthy:
  assumes "healthy e svc" "closed_circuit db svc" "decryptServiceCredentials e u svc db = Inr (Some p)" "we_decode e p"
  shows "\<exists>db1. upload_prologue e svc ms u db = (db1, None) \<and> sd_sync db1 = sd_sync db \<and> sd_rates db1 = sd_rates db \<and> same_tables db db1"
proof -
  have "AllowCircuit (we_cfg e) (we_circuit_ok e) (we_now e) (we_dbnow e) (sd_circuit db) svc =
      ((sd_circuit db)(svc \<mapsto> ensure_row (we_dbnow e) (sd_circuit db) svc), Inr (True, 0))"
    using assms(1,2) by (auto simp: AllowCircuit_def Let_def healthy_def closed_circuit_def ensure_row_def default_row_def split: option.splits)
  then obtain tbl where c: "check_circuit e svc db = (db\<lparr>sd_circuit := tbl\<rparr>, None)" by (simp add: check_circuit_def)
  have "decryptServiceCredentials e u svc (db\<lparr>sd_circuit := tbl\<rparr>) = Inr (Some p)"
    using assms(3) by (auto simp: decryptServiceCredentials_def split: if_splits)
  with c assms(4) show ?thesis by (simp add: upload_prologue_def same_tables_def)
qed

lemma same_tables_fetch:
  assumes "same_tables db db1" "sd_sync db1 = sd_sync db"
  shows "fetchPendingQSOs now db1 svc u n = fetchPendingQSOs now db svc u n"
proof -
  have "pending_row db1 = pending_row db" using assms(1) by (intro ext) (simp add: pending_row_def qso_of_def same_tables_def)
  moreover have "fetchable now svc u db1 = fetchable now svc u db" using fetchable_cong [OF assms(1)] by (intro ext) simp
  ultimately show ?thesis using assms(2) by (simp add: fetchPendingQSOs_def)
qed

definition batch_jobs :: "upload_job set" where "batch_jobs = {UpClubLog, UpEQSL, UpHamQTH}"

lemma batch_job_healthy:
  assumes "j \<in> batch_jobs" "svc = upload_service j" "sync_ok db" "healthy e svc" "closed_circuit db svc"
    and "decryptServiceCredentials e u svc db = Inr (Some p)" "we_decode e p" "TrimSpace (we_apikey e) \<noteq> []"
    and "free_from e svc 0 (sd_rates db)"
  shows "\<exists>db' tr. upload_work j e u db = (db', tr, JobDone) \<and>
    uploaded_only (set (map p_SyncID (fetchPendingQSOs (we_dbnow e) db svc u 500))) (sd_sync db) (sd_sync db')"
proof -
  obtain ms sv n where w: "sv_name sv = svc"
      "\<And>db1. upload_prologue e svc ms u db = (db1, None) \<Longrightarrow>
         (let pending = fetchPendingQSOs (we_dbnow e) db1 svc u 500 in
          upload_work j e u db = (if pending = [] then (db1, [], JobDone) else upload_batches sv e u 0 (chunks n pending) db1))"
  proof -
    consider "j = UpClubLog" | "j = UpEQSL" | "j = UpHamQTH" using assms(1) by (auto simp: batch_jobs_def)
    then show ?thesis
    proof cases
      case 1
      then show ?thesis using assms(2,4,8)
        by (intro that [of clublog_service clublog_messages 99])
           (simp_all add: clublog_service_def ClubLogUploadWorker_Work_def Let_def healthy_def)
    next
      case 2
      then show ?thesis using assms(2,4)
        by (intro that [of eqsl_service eqsl_messages 99]) (simp_all add: eqsl_service_def EQSLUploadWorker_Work_def Let_def healthy_def)
    next
      case 3
      then show ?thesis using assms(2,4)
        by (intro that [of hamqth_service hamqth_messages 49]) (simp_all add: hamqth_service_def HamQTHUploadWorker_Work_def Let_def healthy_def)
    qed
  qed
  obtain db1 where p: "upload_prologue e svc ms u db = (db1, None)" "sd_sync db1 = sd_sync db" "sd_rates db1 = sd_rates db" "same_tables db db1"
    using prologue_healthy [OF assms(4-7)] by blast
  let ?pending = "fetchPendingQSOs (we_dbnow e) db svc u 500"
  have f: "fetchPendingQSOs (we_dbnow e) db1 svc u 500 = ?pending" by (rule same_tables_fetch [OF p(4,2)])
  obtain db' tr where b: "upload_batches sv e u 0 (chunks n ?pending) db1 = (db', tr, JobDone)"
      "uploaded_only (set (map p_SyncID (concat (chunks n ?pending)))) (sd_sync db1) (sd_sync db')"
    using upload_batches_healthy [of e sv 0 db1] assms(4,9) w(1) p(3) by metis
  show ?thesis
  proof (cases "?pending = []")
    case True
    then show ?thesis using w(2) [OF p(1)] f p(2) by (simp add: Let_def)
  next
    case False
    then show ?thesis using w(2) [OF p(1)] f b p(2) by (simp add: Let_def concat_chunks)
  qed
qed



section \<open>Requests of the QRZ worker\<close>

lemma qrz_rows_requests:
  "qrz_rows e u k rows db = (db', tr, r) \<Longrightarrow> Sent s t req \<in> set tr \<Longrightarrow> \<exists>row \<in> set rows. req = qrz_request row"
proof (induction rows arbitrary: k db db' tr)
  case (Cons row rows)
  let ?s = "we_step e k"
  obtain db1 ev g where g: "check_rate e ?s ''qrz'' (Second div 2) db = (db1, ev, g)" by (metis prod_cases3)
  have ev: "ev \<noteq> Sent s t req" using check_rate_event [OF g] by (metis wk_event.distinct(1))
  have "tr = [ev] \<or> tr = [ev, Sent ''qrz'' (st_dbnow ?s) (qrz_request row)] \<or>
      (\<exists>db2 tr'. qrz_rows e u (k + 1) rows db2 = (db', tr', r) \<and> tr = ev # Sent ''qrz'' (st_dbnow ?s) (qrz_request row) # tr')"
    using Cons.prems(1) g by (auto simp: Let_def split: option.splits sum.splits if_splits prod.splits)
  then consider "Sent s t req = Sent ''qrz'' (st_dbnow ?s) (qrz_request row)"
    | db2 tr' where "qrz_rows e u (k + 1) rows db2 = (db', tr', r)" "Sent s t req \<in> set tr'"
    using Cons.prems(2) ev by auto
  then show ?case
  proof cases
    case 1
    then show ?thesis by simp
  next
    case (2 db2 tr')
    from Cons.IH [OF this] show ?thesis by simp
  qed
qed simp

lemma fetched_origin:
  assumes "row \<in> set (fetchPendingQSOs now db svc u n)"
  shows "\<exists>r \<in> set (sd_sync db). fetchable now svc u db r \<and> row = pending_row db r"
proof -
  obtain r where r: "r \<in> set (take n (sort_key ss_created_at (filter (fetchable now svc u db) (sd_sync db))))" "row = pending_row db r"
    using assms by (auto simp: fetchPendingQSOs_def)
  from in_set_takeD [OF r(1)] r(2) show ?thesis by auto
qed

lemma qrz_request_insert: "p_SyncStatus row \<noteq> StDirty \<or> p_RemoteID row = None \<Longrightarrow> qrz_request row = ReqInsert (qsoRowToSingleADIF row)"
  by (auto simp: qrz_request_def Let_def split: option.splits)

lemma reset_forgets:
  assumes "r \<in> set (sd_sync (fst (resetQSOSyncStatus now q db)))" "ss_qso_id r = q"
  shows "ss_remote_id r = None"
  using assms unfolding resetQSOSyncStatus_def update_sync_def by simp (elim disjE imageE; simp)

lemma prologue_rows:
  assumes "upload_prologue e svc ms u db = (db1, None)"
  shows "sd_sync db1 = sd_sync db \<and> same_tables db db1"
proof -
  obtain db2 r where c: "check_circuit e svc db = (db2, r)" by fastforce
  have "db1 = db2" using assms c by (auto simp: upload_prologue_def Let_def split: option.splits sum.splits if_splits)
  then show ?thesis using check_circuit_step [OF c, of u] by (simp add: job_step_def)
qed


section \<open>Backfill\<close>

lemma insert_row_new:
  assumes "\<not> has_row q svc db"
  obtains r where "sd_sync (insert_row now q svc st db) = sd_sync db @ [r]" "ss_id r = sd_next_id db" "ss_qso_id r = q" "ss_service r = svc"
    "ss_status r = st" "ss_retry_count r = 0" "ss_error_message r = None" "ss_remote_id r = None"
  using assms by (auto simp: insert_row_def Let_def)

lemma insert_row_frame [simp]:
  "sd_qsos (insert_row now q svc st db) = sd_qsos db" "sd_logbooks (insert_row now q svc st db) = sd_logbooks db"
  "sd_next_id (insert_row now q svc st db) = sd_next_id db + 1"
  by (simp_all add: insert_row_def Let_def)

lemma has_row_insert:
  "has_row q' svc' (insert_row now q svc st db) \<longleftrightarrow> has_row q' svc' db \<or> q' = q \<and> svc' = svc"
  by (auto simp: has_row_def insert_row_def Let_def)

lemma insert_row_ok:
  assumes "sync_ok db" "st \<noteq> StUploaded" "st \<noteq> StError"
  shows "sync_ok (insert_row now q svc st db)"
proof (cases "has_row q svc db")
  case True
  then show ?thesis using assms(1) by (auto simp: insert_row_def sync_ok_def)
next
  case False
  with assms show ?thesis
    by (auto simp: insert_row_def Let_def sync_ok_def has_row_def list_ex_iff row_ok_def MaxInt16_def)
qed

lemma fold_insert:
  fixes now :: int
  assumes "sync_ok db" "distinct (map sq_id qs)" "\<forall>q \<in> set qs. \<not> has_row (sq_id q) svc db"
    and "\<And>q. f q \<noteq> StUploaded \<and> f q \<noteq> StError"
  defines "db' \<equiv> fold (\<lambda>q. insert_row now (sq_id q) svc (f q)) qs db"
  shows "sync_ok db' \<and> sd_qsos db' = sd_qsos db \<and> sd_logbooks db' = sd_logbooks db \<and>
    (\<exists>new. sd_sync db' = sd_sync db @ new \<and> map (\<lambda>r. (ss_qso_id r, ss_status r)) new = map (\<lambda>q. (sq_id q, f q)) qs) \<and>
    (\<forall>q s. has_row q s db' \<longleftrightarrow> has_row q s db \<or> s = svc \<and> q \<in> sq_id ` set qs)"
  using assms(1-3) unfolding db'_def
proof (induction qs arbitrary: db)
  case (Cons x qs)
  let ?db1 = "insert_row now (sq_id x) svc (f x) db"
  have ok: "sync_ok ?db1" using insert_row_ok Cons.prems(1) assms(4) by blast
  obtain r where r: "sd_sync ?db1 = sd_sync db @ [r]" "ss_qso_id r = sq_id x" "ss_status r = f x"
    using insert_row_new [of "sq_id x" svc db now "f x"] Cons.prems(3) by (metis list.set_intros(1))
  have "\<forall>q \<in> set qs. \<not> has_row (sq_id q) svc ?db1"
  proof
    fix q
    assume q: "q \<in> set qs"
    then have "sq_id q \<noteq> sq_id x" using Cons.prems(2) by (metis distinct.simps(2) image_eqI list.simps(9) list.set_map)
    with q Cons.prems(3) show "\<not> has_row (sq_id q) svc ?db1" by (simp add: has_row_insert)
  qed
  from Cons.IH [OF ok _ this] Cons.prems(2) r show ?case by (auto simp: has_row_insert)
qed simp

lemma Backfill_result:
  assumes "sync_ok db" "distinct (map sq_id (sd_qsos db))" "BackfillSyncStatusForService ok now u svc db = (db', Inr (c, p))"
  shows "sync_ok db' \<and> (\<exists>new. sd_sync db' = sd_sync db @ new \<and> length new = c + p) \<and>
    (\<forall>q \<in> set (sd_qsos db). qso_user db q = Some u \<and> sq_deleted_at q = None \<and> (svc = ''sota'' \<longrightarrow> has_sota q) \<and> (svc = ''pota'' \<longrightarrow> has_pota q) \<longrightarrow>
       has_row (sq_id q) svc db') \<and>
    BackfillSyncStatusForService ok now' u svc db' = (db', Inr (0, 0))"
proof -
  let ?chosen = "filter (backfill_selects u svc db) (sd_qsos db)"
  have st: "backfill_status svc q = StConfirmed \<or> backfill_status svc q = StPending" for q by (simp add: backfill_status_def)
  have db': "db' = fold (\<lambda>q. insert_row now (sq_id q) svc (backfill_status svc q)) ?chosen db"
    and c: "c = length (filter (\<lambda>q. backfill_status svc q = StConfirmed) ?chosen)"
    and p: "p = length (filter (\<lambda>q. backfill_status svc q = StPending) ?chosen)"
    and ok: "ok" "svc \<in> set KnownServices \<or> ?chosen = []"
    using assms(3) by (auto simp: BackfillSyncStatusForService_def Let_def split: if_splits)
  have "distinct (map sq_id ?chosen)" using assms(2) by (simp add: distinct_map_filter)
  moreover have "\<forall>q \<in> set ?chosen. \<not> has_row (sq_id q) svc db" by (simp add: backfill_selects_def)
  moreover have "\<And>q. backfill_status svc q \<noteq> StUploaded \<and> backfill_status svc q \<noteq> StError" using st by (metis status.distinct)
  ultimately have f: "sync_ok db'" "sd_qsos db' = sd_qsos db" "sd_logbooks db' = sd_logbooks db"
      "\<exists>new. sd_sync db' = sd_sync db @ new \<and> map (\<lambda>r. (ss_qso_id r, ss_status r)) new = map (\<lambda>q. (sq_id q, backfill_status svc q)) ?chosen"
      "\<And>q s. has_row q s db' \<longleftrightarrow> has_row q s db \<or> s = svc \<and> q \<in> sq_id ` set ?chosen"
    using fold_insert [OF assms(1), of ?chosen svc "backfill_status svc" now] unfolding db' by blast+
  have "length ?chosen = c + p"
  proof -
    have "(\<lambda>q. backfill_status svc q = StPending) = (\<lambda>q. backfill_status svc q \<noteq> StConfirmed)" using st by fastforce
    then show ?thesis unfolding c p by (simp only: sum_length_filter_compl)
  qed
  then have new: "\<exists>new. sd_sync db' = sd_sync db @ new \<and> length new = c + p" using f(4) by (metis length_map)
  have has: "has_row (sq_id q) svc db'" if "q \<in> set (sd_qsos db)" "qso_user db q = Some u" "sq_deleted_at q = None"
      "svc = ''sota'' \<longrightarrow> has_sota q" "svc = ''pota'' \<longrightarrow> has_pota q" for q
    using that f(5) by (auto simp: backfill_selects_def)
  have "qso_user db' q = qso_user db q" for q using f(3) by (simp add: qso_user_def)
  then have "filter (backfill_selects u svc db') (sd_qsos db') = []"
    using has f(2) by (auto simp: filter_empty_conv backfill_selects_def)
  with ok(1) have "BackfillSyncStatusForService ok now' u svc db' = (db', Inr (0, 0))" by (simp add: BackfillSyncStatusForService_def Let_def)
  with f(1) new has show ?thesis by blast
qed



section \<open>A sample database\<close>

definition sample_qso :: "int \<Rightarrow> string option \<Rightarrow> sync_qso" where
  "sample_qso i station =
     \<lparr>sq_id = i, sq_logbook_id = 1, sq_callsign = ''K1ABC'', sq_band = ''20m'', sq_mode = ''CW'', sq_datetime_on = 0, sq_rst_sent = None,
      sq_rst_rcvd = None, sq_gridsquare = None, sq_my_gridsquare = None, sq_name = None, sq_station_callsign = station, sq_frequency_hz = None,
      sq_dxcc = None, sq_sota_ref = None, sq_my_sota_ref = Some ''W7W/LC-001'', sq_pota_refs = None, sq_my_pota_refs = None, sq_sig = None,
      sq_sig_info = None, sq_lotw_qsl_rcvd = None, sq_lotw_qsl_rcvd_date = None, sq_lotw_sent_at = None, sq_eqsl_qsl_rcvd = None,
      sq_eqsl_qsl_rcvd_date = None, sq_qsl_rcvd = None, sq_qsl_rcvd_date = None, sq_qrz_qsl_rcvd = None, sq_qrz_qsl_rcvd_date = None,
      sq_deleted_at = None, sq_updated_at = 0\<rparr>"

definition sample_row :: "int \<Rightarrow> int \<Rightarrow> string \<Rightarrow> status \<Rightarrow> string option \<Rightarrow> sync_row" where
  "sample_row i q svc st rid =
     \<lparr>ss_id = i, ss_qso_id = q, ss_service = svc, ss_status = st, ss_last_synced_at = Some 0, ss_remote_id = rid, ss_error_message = None,
      ss_retry_count = 0, ss_next_retry_at = None, ss_last_error_code = None, ss_created_at = i, ss_updated_at = 0\<rparr>"

definition sample_sync :: "sync_row list \<Rightarrow> sync_db" where
  "sample_sync rows =
     \<lparr>sd_sync = rows, sd_next_id = 100, sd_qsos = [sample_qso 1 None, sample_qso 2 None], sd_logbooks = [(1, 7)], sd_creds = sample_creds,
      sd_circuit = Map.empty, sd_rates = Map.empty, sd_awards = []\<rparr>"

definition eqsl_db :: sync_db where
  "eqsl_db = sample_sync [sample_row 1 1 ''eqsl'' StPending None, sample_row 2 2 ''clublog'' StPending None]"

definition qrz_db :: sync_db where
  "qrz_db = sample_sync [sample_row 1 1 ''eqsl'' StUploaded (Some ''111''), sample_row 2 2 ''qrz'' StDirty (Some ''222'')]"

definition sample_cfg :: InfraConfig where
  "sample_cfg =
     \<lparr>Services = [''eqsl'' \<mapsto> rps_policy 1, ''qrz'' \<mapsto> rps_policy 2, ''sota'' \<mapsto> rps_policy 1], RetryBaseDelay = Second,
      RetryMaxDelay = 300 * Second, RetryJitter = Finite 0, QueueWarnDepth = 1000, QueueCritDepth = 10000\<rparr>"

definition sample_work :: work_env where
  "sample_work =
     \<lparr>we_cipher = plain_cipher, we_keyring = Some two_keys, we_cfg = sample_cfg, we_undef = 0, we_now = 0, we_dbnow = 0,
      we_circuit_ok = True, we_creds_ok = True, we_decode = (\<lambda>_. True), we_mark_ok = True, we_fetch_ok = True, we_apikey = ''key'',
      we_step = (\<lambda>i. \<lparr>st_now = 0, st_dbnow = int i * Second, st_rate_ok = True, st_send = (\<lambda>q. Inr ''9''), st_record_ok = True,
                      st_mark_ok = (\<lambda>_. True), st_fail_ok = True, st_rnd = Finite 0\<rparr>)\<rparr>"


definition sota_db :: "string option \<Rightarrow> sync_db" where
  "sota_db station = (sample_sync [sample_row 1 1 ''sota'' StPending None])
     \<lparr>sd_qsos := [sample_qso 1 station],
      sd_creds := \<lparr>ct_rows = [cred_sample 1 ''sota'' (stored ''secret'')], ct_next_id = 2\<rparr>\<rparr>"

lemma sample_sync_ok: "sync_ok eqsl_db" "sync_ok qrz_db" "sync_ok (sota_db station)"
  by (simp_all add: sync_ok_def eqsl_db_def qrz_db_def sota_db_def sample_sync_def sample_row_def row_ok_def MaxInt16_def)

lemma sample_healthy: "healthy sample_work ''eqsl''"
proof -
  have b: "bucket sample_work i = int i * Second" for i by (simp add: bucket_def sample_work_def trunc_second_def)
  have "inj (bucket sample_work)" by (rule injI) (simp add: b)
  moreover have "1 \<le> RateLimitRPS (policy (we_cfg sample_work) ''eqsl'')"
    by (simp add: sample_work_def policy_def sample_cfg_def rps_policy_def)
  ultimately show ?thesis by (simp add: healthy_def) (simp add: sample_work_def)
qed

fun is_replace :: "wk_event \<Rightarrow> bool" where
  "is_replace (Sent s t (ReqReplace rid adif)) = True"
| "is_replace ev = False"

lemma sample_credential: "decryptServiceCredentials sample_work 7 ''eqsl'' eqsl_db = Inr (Some ''other'')"
  by code_simp


section \<open>Properties\<close>

text \<open>
  C9. Upload jobs keep to their own rows.  For every sequence of jobs of the six upload workers, for any users, whatever fails and whatever
  the services answer: the invariant of \<open>sync_status\<close> holds afterwards (unique keys; an uploaded row has a remote identifier, a time of upload and no pending
  retry; a row in error has its message; the retry counter fits its column), and a row that belongs to no job of the sequence, by user or by
  service, is exactly as before.
\<close>

theorem uploads_isolated:
  assumes "sync_ok db" "run_uploads jobs db = (db', tr)"
  shows "sync_ok db' \<and>
    (\<forall>r \<in> set (sd_sync db). (\<forall>(j, e, u) \<in> set jobs. \<not> owned (upload_service j) u db r) \<longrightarrow> r \<in> set (sd_sync db'))"
  using assms uploads.run_ok uploads.run_frame unfolding run_uploads_run by blast

theorem uploads_isolated_witness:
  "\<exists>db' tr. run_uploads [(UpEQSL, sample_work, 7), (UpSOTA, sample_work, 7)] eqsl_db = (db', tr) \<and> sync_ok db' \<and>
     sample_row 2 2 ''clublog'' StPending None \<in> set (sd_sync db')"
proof -
  let ?jobs = "[(UpEQSL, sample_work, 7), (UpSOTA, sample_work, 7)]" and ?r = "sample_row 2 2 ''clublog'' StPending None"
  obtain db' tr where r: "run_uploads ?jobs eqsl_db = (db', tr)" by fastforce
  have "?r \<in> set (sd_sync eqsl_db)" by (simp add: eqsl_db_def sample_sync_def)
  moreover have "\<forall>(j, e, u) \<in> set ?jobs. \<not> owned (upload_service j) u eqsl_db ?r" by (simp add: owned_def sample_row_def)
  ultimately show ?thesis using uploads_isolated [OF sample_sync_ok(1) r] r by blast
qed

text \<open>
  The state machine of a row.  One upload job of a user changes a row only if the row is due to that user and service and is pending,
  dirty or in error, and leaves it uploaded or in error; a confirmed, skipped, rejected or uploaded row is never touched, no
  row is added or removed, and contacts, logbooks, credentials, award progress and the circuit breakers of other services stay as they are.
\<close>

theorem upload_transitions:
  assumes "sync_ok db" "upload_work j e u db = (db', tr, res)"
  shows "same_tables db db' \<and> (\<forall>s. s \<noteq> upload_service j \<longrightarrow> sd_circuit db' s = sd_circuit db s) \<and>
    list_all2 (\<lambda>r r'. ident r' = ident r \<and>
        (r' = r \<or> owned (upload_service j) u db r \<and> ss_status r \<in> {StPending, StDirty, StError} \<and> ss_status r' \<in> {StUploaded, StError}))
      (sd_sync db) (sd_sync db')"
proof -
  have "job_step (upload_service j) u db db'" using uploads.work_law [OF assms(1), of j u e] assms(2) by (simp add: job_law_def)
  then show ?thesis unfolding job_step_def by (auto simp: row_step_def elim!: list_all2_mono)
qed

theorem upload_transitions_witness:
  "\<exists>db' tr res. upload_work UpEQSL sample_work 7 eqsl_db = (db', tr, res) \<and> same_tables eqsl_db db' \<and> length (sd_sync db') = 2"
proof -
  obtain db' tr res where r: "upload_work UpEQSL sample_work 7 eqsl_db = (db', tr, res)" by (metis prod_cases3)
  from upload_transitions [OF sample_sync_ok(1) r] have "same_tables eqsl_db db'" "length (sd_sync eqsl_db) = length (sd_sync db')"
    by (auto dest: list_all2_lengthD)
  with r show ?thesis by (simp add: eqsl_db_def sample_sync_def)
qed





text \<open>
  An edit through the API is never sent to QRZ as a replacement.  Updating a contact marks its uploaded rows dirty (the trigger), but the handler then resets
  them to pending and forgets the remote identifier; the next job of the QRZ worker sends no \<open>REPLACE\<close> for that contact, only an \<open>INSERT\<close>.
\<close>

theorem api_edit_never_replaces:
  assumes "db1 = fst (resetQSOSyncStatus now q (mark_sync_dirty_on_qso_edit now q db))"
    and "QRZUploadWorker_Work e u db1 = (db', tr, res)" "Sent s t (ReqReplace rid adif) \<in> set tr"
  shows "\<exists>row \<in> set (fetchPendingQSOs (we_dbnow e) db1 ''qrz'' u 200). p_QSOID row \<noteq> q \<and> qrz_request row = ReqReplace rid adif"
proof -
  obtain db2 p where p: "upload_prologue e ''qrz'' qrz_messages u db1 = (db2, p)" by fastforce
  have N: "p = None" "we_fetch_ok e" using assms(2,3) p by (auto simp: QRZUploadWorker_Work_def split: option.splits if_splits)
  note pr = prologue_rows [OF p [unfolded N(1)]]
  have f: "fetchPendingQSOs (we_dbnow e) db2 ''qrz'' u 200 = fetchPendingQSOs (we_dbnow e) db1 ''qrz'' u 200"
    using pr by (intro same_tables_fetch) simp_all
  have "qrz_rows e u 0 (fetchPendingQSOs (we_dbnow e) db1 ''qrz'' u 200) db2 = (db', tr, res)"
    using assms(2) p N f by (simp add: QRZUploadWorker_Work_def)
  from qrz_rows_requests [OF this assms(3)]
  obtain row where row: "row \<in> set (fetchPendingQSOs (we_dbnow e) db1 ''qrz'' u 200)" "qrz_request row = ReqReplace rid adif" by metis
  obtain r where r: "r \<in> set (sd_sync db1)" "row = pending_row db1 r" using fetched_origin [OF row(1)] by blast
  have "p_QSOID row \<noteq> q"
  proof
    assume "p_QSOID row = q"
    then have "ss_qso_id r = q" by (simp add: r(2) pending_row_def)
    then have "ss_remote_id r = None" by (rule reset_forgets [OF r(1) [unfolded assms(1)]])
    then have "qrz_request row = ReqInsert (qsoRowToSingleADIF row)" by (intro qrz_request_insert) (simp add: r pending_row_def)
    with row(2) show False by simp
  qed
  with row show ?thesis by blast
qed

theorem api_edit_never_replaces_witness:
  "\<exists>row rid adif. p_QSOID row \<noteq> 1 \<and> qrz_request row = ReqReplace rid adif"
proof -
  let ?db1 = "fst (resetQSOSyncStatus 5 1 (mark_sync_dirty_on_qso_edit 5 1 qrz_db))"
  obtain db' tr res where w: "QRZUploadWorker_Work sample_work 7 ?db1 = (db', tr, res)" by (metis prod_cases3)
  have "list_ex is_replace (fst (snd (QRZUploadWorker_Work sample_work 7 ?db1)))"
    by code_simp
  then obtain s t rid adif where "Sent s t (ReqReplace rid adif) \<in> set tr"
    unfolding w list_ex_iff by (auto elim: is_replace.elims)
  from api_edit_never_replaces [OF refl w this] show ?thesis by blast
qed

text \<open>
  Permanent failures are not permanent.  A row that \<open>markAllPendingFailed\<close> gives up (no credential, wrong password) is fetched again by the
  very next job, at any time, if its contact is not deleted.
\<close>

theorem permanent_failure_refetched:
  assumes "r \<in> set (sd_sync db)" "open_row svc u db r" "row_live db r" "markAllPendingFailed True now svc u msg db = (db', n)"
  shows "\<exists>r' \<in> set (sd_sync db'). ident r' = ident r \<and> ss_last_error_code r' = Some ''permanent_failure'' \<and> fetchable t svc u db' r'"
proof -
  let ?f = "\<lambda>r. r\<lparr>ss_status := StError, ss_error_message := Some msg, ss_last_error_code := Some ''permanent_failure'', ss_next_retry_at := None,
      ss_updated_at := now\<rparr>"
  have db': "db' = update_sync (open_row svc u db) ?f db" using assms(4) by (simp add: markAllPendingFailed_def)
  then have st: "same_tables db db'" by (simp add: same_tables_def update_sync_def)
  have "?f r \<in> set (sd_sync db')" using assms(1,2) by (force simp: db' update_sync_def)
  moreover have "fetchable t svc u db (?f r)"
    using assms(2,3) by (simp add: fetchable_def open_row_def due_def row_user_def row_live_def)
  ultimately show ?thesis using fetchable_cong [OF st] by (intro bexI [of _ "?f r"]) (simp_all add: ident_def)
qed

theorem permanent_failure_refetched_witness:
  "\<exists>db' n r'. markAllPendingFailed True 3 ''eqsl'' 7 ''no credential'' eqsl_db = (db', n) \<and> r' \<in> set (sd_sync db') \<and>
     ss_last_error_code r' = Some ''permanent_failure'' \<and> fetchable 4 ''eqsl'' 7 db' r'"
proof -
  let ?r = "sample_row 1 1 ''eqsl'' StPending None"
  obtain db' n where m: "markAllPendingFailed True 3 ''eqsl'' 7 ''no credential'' eqsl_db = (db', n)" by fastforce
  have "?r \<in> set (sd_sync eqsl_db)" "open_row ''eqsl'' 7 eqsl_db ?r" "row_live eqsl_db ?r" by code_simp+
  from permanent_failure_refetched [OF this m, of 4] m show ?thesis by blast
qed

text \<open>
  C19. Backfill is complete and idempotent.  After \<open>BackfillSyncStatusForService\<close> every live contact of the user that the service takes has a row, the rows
  that were there are unchanged, the two counts add up to the rows added, the table keeps its invariant, and a second call adds nothing and reports zeros.
\<close>

theorem backfill_complete:
  assumes "sync_ok db" "distinct (map sq_id (sd_qsos db))" "BackfillSyncStatusForService ok now u svc db = (db', Inr (c, p))"
  shows "sync_ok db' \<and> (\<exists>new. sd_sync db' = sd_sync db @ new \<and> length new = c + p) \<and>
    (\<forall>q \<in> set (sd_qsos db). qso_user db q = Some u \<and> sq_deleted_at q = None \<and> (svc = ''sota'' \<longrightarrow> has_sota q) \<and> (svc = ''pota'' \<longrightarrow> has_pota q) \<longrightarrow>
       has_row (sq_id q) svc db') \<and>
    BackfillSyncStatusForService ok now' u svc db' = (db', Inr (0, 0))"
  by (rule Backfill_result [OF assms])

theorem backfill_complete_witness:
  "\<exists>db'. BackfillSyncStatusForService True 3 7 ''lotw'' eqsl_db = (db', Inr (0, 2)) \<and> has_row 1 ''lotw'' db' \<and>
     BackfillSyncStatusForService True 4 7 ''lotw'' db' = (db', Inr (0, 0))"
proof -
  have "snd (BackfillSyncStatusForService True 3 7 ''lotw'' eqsl_db) = Inr (0, 2)" by code_simp
  then obtain db' where b: "BackfillSyncStatusForService True 3 7 ''lotw'' eqsl_db = (db', Inr (0, 2))" by (metis prod.collapse)
  have "distinct (map sq_id (sd_qsos eqsl_db))" "sample_qso 1 None \<in> set (sd_qsos eqsl_db)" "qso_user eqsl_db (sample_qso 1 None) = Some 7"
      "sq_deleted_at (sample_qso 1 None) = None" "sq_id (sample_qso 1 None) = 1"
    by (simp_all add: eqsl_db_def sample_sync_def sample_qso_def qso_user_def)
  with backfill_complete [OF sample_sync_ok(1) this(1) b, of 4] b show ?thesis by fastforce
qed

text \<open>
  SOTA uploads can starve.  When the 200 oldest due SOTA rows of a user have no station callsign, a job of the SOTA worker that gets past the circuit, the
  credentials and the query sends nothing and changes no row; the next job fetches the same 200 rows, so newer rows are never uploaded.
\<close>

theorem sota_starved:
  assumes "upload_prologue e ''sota'' sota_messages u db = (db1, None)" "we_fetch_ok e"
    and "\<forall>row \<in> set (fetchPendingSOTAQSOs (we_dbnow e) db u 200). case sq_station_callsign (p_QSO row) of None \<Rightarrow> True | Some s \<Rightarrow> TrimSpace s = []"
    and "SOTAUploadWorker_Work e u db = (db', tr, res)"
  shows "sd_sync db' = sd_sync db \<and> sent_in ''sota'' b tr = 0 \<and> fetchPendingSOTAQSOs t db' u 200 = fetchPendingSOTAQSOs t db u 200"
proof -
  let ?pending = "\<lambda>db t. fetchPendingSOTAQSOs t db u 200"
  have d1: "sd_sync db1 = sd_sync db" "same_tables db db1" using prologue_rows [OF assms(1)] by simp_all
  have fetch: "?pending db2 t = ?pending db t" if "sd_sync db2 = sd_sync db" "same_tables db db2" for db2 t
  proof -
    have "qso_of db2 = qso_of db" using that(2) by (intro ext) (simp add: qso_of_def same_tables_def)
    then have "pending_row db2 = pending_row db" by (intro ext) (simp add: pending_row_def)
    moreover have "fetchable t s u db2 = fetchable t s u db" for s using fetchable_cong [OF that(2)] by (intro ext) simp
    ultimately show ?thesis using that(1) \<open>qso_of db2 = qso_of db\<close> by (simp add: fetchPendingSOTAQSOs_def)
  qed
  have csv: "buildSOTACSV rows = ([], [])"
    if "\<forall>row \<in> set rows. case sq_station_callsign (p_QSO row) of None \<Rightarrow> True | Some s \<Rightarrow> TrimSpace s = []" for rows
    using that by (induction rows) (auto simp: sota_line_def Let_def split: option.splits)
  obtain db2 ev g where g: "check_rate e (we_step e 0) ''sota'' Second db1 = (db2, ev, g)" by (metis prod_cases3)
  have cr: "sd_sync db2 = sd_sync db1" "same_tables db1 db2" using check_rate_step [OF g, of u] by (simp_all add: job_step_def)
  obtain x where ev: "ev = RateCall ''sota'' (st_rate_ok (we_step e 0)) (st_dbnow (we_step e 0)) x" by (rule check_rate_event [OF g])
  have out: "db' = db1 \<and> tr = [] \<or> db' = db2 \<and> tr = [ev]"
    using assms(2,4) csv [OF assms(3)] fetch [OF d1] g
    by (auto simp: SOTAUploadWorker_Work_def assms(1) Let_def split: if_splits option.splits)
  then have "sd_sync db' = sd_sync db" "same_tables db db'" using d1 cr by (auto simp: same_tables_def)
  with out fetch ev show ?thesis by (auto simp: sent_in_def)
qed

theorem sota_starved_witness:
  "\<exists>db' tr res. SOTAUploadWorker_Work sample_work 7 (sota_db None) = (db', tr, res) \<and> sd_sync db' = sd_sync (sota_db None) \<and>
     length (fetchPendingSOTAQSOs 0 db' 7 200) = 1"
proof -
  have "snd (upload_prologue sample_work ''sota'' sota_messages 7 (sota_db None)) = None" by code_simp
  then obtain db1 where p: "upload_prologue sample_work ''sota'' sota_messages 7 (sota_db None) = (db1, None)" by (metis prod.collapse)
  obtain db' tr res where w: "SOTAUploadWorker_Work sample_work 7 (sota_db None) = (db', tr, res)" by (metis prod_cases3)
  have "\<forall>row \<in> set (fetchPendingSOTAQSOs (we_dbnow sample_work) (sota_db None) 7 200).
      case sq_station_callsign (p_QSO row) of None \<Rightarrow> True | Some s \<Rightarrow> TrimSpace s = []" by code_simp
  moreover have "length (fetchPendingSOTAQSOs 0 (sota_db None) 7 200) = 1" "we_fetch_ok sample_work" by code_simp+
  ultimately show ?thesis using sota_starved [OF p _ _ w, of 0 0] w by auto
qed

end
