(* ===== verification/Sync_Confirm.thy ===== *)
theory Sync_Confirm
  imports Sync_Poll Sync_Upload
begin

text \<open>
  The poll workers as a whole, and the way of a contact through an upload and back: what a batch contains, what the QRZ poll reads from it,
  and which contact it then finds.
\<close>

section \<open>A batch read back\<close>

lemma qsosToADIF_FormatAll:
  assumes "rows \<noteq> []"
  shows "qsosToADIF rows = FormatAll None (map batch_record rows) ''1.0.0''"
proof -
  obtain r rs where r: "rows = r # rs" using assms by (cases rows) auto
  show ?thesis
    unfolding r FormatAll_eq
    by (simp add: qsosToADIF_def NewWriter_def NewWriterWithOptions_def WriteRecord_def WriteHeader_def Fprintf_unlimited write_fields_unlimited
        WriteRecords_unlimited effective_version_def header_text_def extra_header_fields_def record_text_def Let_def comp_def)
qed

text \<open>The record before its mode is normalised; the writer normalises it anyway.\<close>

definition plain_record :: "sync_qso \<Rightarrow> Record" where
  "plain_record q = \<lparr>r_Fields =
     [mk_field ''CALL'' (sq_callsign q), mk_field ''BAND'' (sq_band q), mk_field ''MODE'' (sq_mode q),
      mk_field ''QSO_DATE'' (Format_20060102 (sq_datetime_on q)), mk_field ''TIME_ON'' (Format_1504 (sq_datetime_on q))]
     @ opt_field ''RST_SENT'' (sq_rst_sent q) @ opt_field ''RST_RCVD'' (sq_rst_rcvd q)
     @ opt_field ''GRIDSQUARE'' (sq_gridsquare q) @ opt_field ''MY_GRIDSQUARE'' (sq_my_gridsquare q)
     @ opt_field ''STATION_CALLSIGN'' (sq_station_callsign q) @ freq_field (sq_frequency_hz q)\<rparr>"

lemma batch_record_alt: "batch_record row = fst (CanonicalizeRecordMode (plain_record (p_QSO row)))"
  by (simp add: batch_record_def plain_record_def Let_def)

lemma export_canonical: "export_fields (fst (CanonicalizeRecordMode rec)) = export_fields rec"
proof -
  have clone: "Record_Clone r = r" for r by (simp add: Record_Clone_def)
  show ?thesis by (simp only: export_fields_def clone CanonicalizeRecordMode_idem)
qed

text \<open>The texts of a contact that go into a batch, and the contacts that ADIF can carry.\<close>

definition sent_texts :: "sync_qso \<Rightarrow> string list" where
  "sent_texts q =
     [sq_callsign q, sq_band q, sq_mode q] @
     concat (map (\<lambda>v. case v of None \<Rightarrow> [] | Some s \<Rightarrow> [s])
       [sq_rst_sent q, sq_rst_rcvd q, sq_gridsquare q, sq_my_gridsquare q, sq_station_callsign q])"

definition year_of :: "int \<Rightarrow> int" where
  "year_of t = fst (civil_from_days (day_of t))"

definition sendable :: "sync_qso \<Rightarrow> bool" where
  "sendable q \<longleftrightarrow>
     list_all (\<lambda>s. ValidString s \<and> length s \<le> 10485760) (sent_texts q) \<and>
     0 \<le> year_of (sq_datetime_on q) \<and> year_of (sq_datetime_on q) < 10000 \<and>
     (case sq_frequency_hz q of None \<Rightarrow> True | Some hz \<Rightarrow> 0 \<le> hz \<and> hz < 2 ^ 40)"

lemma digits_ascii: "all_digits s \<Longrightarrow> list_all (\<lambda>c. byte c < 128) s"
  by (auto simp: all_digits_def IsDigit_def list_all_iff)

lemma all_digits_append: "all_digits a \<Longrightarrow> all_digits b \<Longrightarrow> all_digits (a @ b)"
  by (simp add: all_digits_def)

lemma appendInt_digits: "0 \<le> x \<Longrightarrow> all_digits (appendInt x w)"
  by (simp add: appendInt_nat)

lemma length_appendInt: "0 \<le> x \<Longrightarrow> x < 10 ^ w \<Longrightarrow> 0 < w \<Longrightarrow> length (appendInt x w) = w"
  by (simp add: appendInt_nat length_pad_left nat_less_iff)

lemma Format_date_shape:
  assumes "0 \<le> year_of t" "year_of t < 10000"
  shows "all_digits (Format_20060102 t)" "length (Format_20060102 t) = 8"
proof -
  obtain y m d where c: "civil_from_days (day_of t) = (y, m, d)" by (metis surj_pair)
  have v: "valid_civil (y, m, d)" using valid_civil_from_days [of "day_of t"] by (simp add: c)
  then have m: "1 \<le> m" "m \<le> 12" and d: "0 \<le> d" "d \<le> month_lengths y ! (m - 1)" by (auto simp: valid_civil_def)
  have "m - 1 < 12" using m by linarith
  from month_lengths_le [OF this, of y] have "d < 100" using d by linarith
  moreover have "0 \<le> y" "y < 10000" using assms by (simp_all add: year_of_def c)
  ultimately show "all_digits (Format_20060102 t)" "length (Format_20060102 t) = 8"
    using m d(1) by (simp_all add: Format_20060102_def c all_digits_append appendInt_digits length_appendInt)
qed

lemma Format_time_shape: "all_digits (Format_1504 t)" "length (Format_1504 t) = 4"
proof -
  have s: "0 \<le> sec_of t" "sec_of t < 86400" by (simp_all add: sec_of_def)
  then have "0 \<le> sec_of t div 3600" "sec_of t div 3600 < 100" "0 \<le> sec_of t div 60 mod 60" "sec_of t div 60 mod 60 < 100"
    by (auto intro: order_less_trans [of _ 60])
  then show "all_digits (Format_1504 t)" "length (Format_1504 t) = 4"
    by (simp_all add: Format_1504_def all_digits_append appendInt_digits length_appendInt)
qed

lemma parseADIFDateTime_Format:
  assumes "0 \<le> year_of t" "year_of t < 10000"
  shows "parseADIFDateTime (Format_20060102 t) (Format_1504 t) = to_minute t"
proof -
  have "TrimSpace (Format_20060102 t) = Format_20060102 t" "TrimSpace (Format_1504 t) = Format_1504 t"
    using Format_date_shape [OF assms] Format_time_shape [of t] by (auto intro!: TrimSpace_trimmed all_digits_trimmed)
  then show ?thesis
    using Format_date_shape [OF assms] Format_time_shape [of t] Parse_Format [of t] assms
    by (simp add: parseADIFDateTime_def year_of_def)
qed

definition mhz_text :: "int \<Rightarrow> string" where
  "mhz_text hz = show_nat (nat hz div 1000000) @ ''.'' @ pad_left 6 (show_nat (nat hz mod 1000000))"

lemma mhz_text_ok:
  assumes "0 \<le> hz" "hz < 2 ^ 40"
  shows "ValidString (mhz_text hz)" "length (mhz_text hz) \<le> 20"
proof -
  have "list_all (\<lambda>c. byte c < 128) (mhz_text hz)"
    by (simp add: mhz_text_def digits_ascii)
  then show "ValidString (mhz_text hz)" by (rule ValidString_ascii)
  have "nat hz < 2 ^ 40" using assms by (simp add: nat_less_iff)
  then have "nat hz div 1000000 < 10 ^ 10" by simp
  from show_nat_bound [OF this] have "length (show_nat (nat hz div 1000000)) \<le> 10" by simp
  moreover have "length (pad_left 6 (show_nat (nat hz mod 1000000))) = 6" by (rule length_pad_left) simp_all
  ultimately show "length (mhz_text hz) \<le> 20" by (simp add: mhz_text_def)
qed


lemma batch_names:
  "list_all wf_name [''CALL'', ''BAND'', ''MODE'', ''QSO_DATE'', ''TIME_ON'', ''RST_SENT'', ''RST_RCVD'', ''GRIDSQUARE'', ''MY_GRIDSQUARE'',
     ''STATION_CALLSIGN'', ''FREQ'']"
  by code_simp

lemma wf_mk_field: "wf_name n \<Longrightarrow> ValidString v \<Longrightarrow> wf_field (mk_field n v)"
  by (simp add: wf_field_def wf_type_def)

lemma plain_record_fits:
  assumes "sendable q"
  shows "wf_record (plain_record q)" "short_values (r_Fields (plain_record q))"
proof -
  let ?ok = "\<lambda>f. wf_field f \<and> length (f_Value f) \<le> 10485760"
  have tx: "ValidString s \<and> length s \<le> 10485760" if "s \<in> set (sent_texts q)" for s
    using assms that by (auto simp: sendable_def list_all_iff)
  have n: "wf_name n" if "n \<in> {''CALL'', ''BAND'', ''MODE'', ''QSO_DATE'', ''TIME_ON'', ''RST_SENT'', ''RST_RCVD'', ''GRIDSQUARE'', ''MY_GRIDSQUARE'',
     ''STATION_CALLSIGN'', ''FREQ''}" for n
    using batch_names that by (auto simp: list_all_iff)
  have f: "?ok (mk_field n s)" if "wf_name n" "ValidString s \<and> length s \<le> 10485760" for n s
    using that by (simp add: wf_mk_field)
  have o: "list_all ?ok (opt_field n v)" if "wf_name n" "v \<in> {sq_rst_sent q, sq_rst_rcvd q, sq_gridsquare q, sq_my_gridsquare q, sq_station_callsign q}" for n v
    using that f [OF that(1) tx] by (auto simp: opt_field_def sent_texts_def split: option.splits)
  have d: "ValidString s \<and> length s \<le> 10485760" if "s \<in> {Format_20060102 (sq_datetime_on q), Format_1504 (sq_datetime_on q)}" for s
    using that assms Format_date_shape [of "sq_datetime_on q"] Format_time_shape [of "sq_datetime_on q"]
    by (auto simp: sendable_def intro!: ValidString_ascii digits_ascii)
  have h: "list_all ?ok (freq_field (sq_frequency_hz q))"
  proof (cases "sq_frequency_hz q")
    case (Some hz)
    then have "0 \<le> hz" "hz < 2 ^ 40" using assms by (simp_all add: sendable_def)
    with Some f [of "''FREQ''" "mhz_text hz"] n [of "''FREQ''"] mhz_text_ok [of hz] show ?thesis
      by (simp add: freq_field_def Sprintf_mhz mhz_text_def)
  qed (simp add: freq_field_def)
  have "list_all ?ok (r_Fields (plain_record q))"
    unfolding plain_record_def by (simp add: list_all_append f n o d h tx sent_texts_def)
  then show "wf_record (plain_record q)" "short_values (r_Fields (plain_record q))"
    by (auto simp: wf_record_def short_values_def list_all_iff plain_record_def)
qed


lemma batch_names_upper:
  "ToUpper ''CALL'' = ''CALL''" "ToUpper ''BAND'' = ''BAND''" "ToUpper ''QSO_DATE'' = ''QSO_DATE''" "ToUpper ''TIME_ON'' = ''TIME_ON''"
  by code_simp+

lemma Record_Get_plain:
  "Record_Get (plain_record q) ''CALL'' = sq_callsign q" "Record_Get (plain_record q) ''BAND'' = sq_band q"
  "Record_Get (plain_record q) ''MODE'' = sq_mode q" "Record_Get (plain_record q) ''SUBMODE'' = []"
  "Record_Get (plain_record q) ''QSO_DATE'' = Format_20060102 (sq_datetime_on q)"
  "Record_Get (plain_record q) ''TIME_ON'' = Format_1504 (sq_datetime_on q)"
  by (simp_all add: Record_Get_def plain_record_def opt_field_def freq_field_def batch_names_upper split: option.splits)

lemma batch_read_back:
  assumes "rows \<noteq> []" "length rows < 500000" "list_all (sendable \<circ> p_QSO) rows"
  obtains t where "qsosToADIF rows = Inr t"
    "ParseString decode None t =
       (Some \<lparr>h_Fields = standardFields ''1.0.0''\<rparr>, map (\<lambda>row. \<lparr>r_Fields = export_fields (plain_record (p_QSO row))\<rparr>) rows, None)"
proof -
  let ?recs = "map (plain_record \<circ> p_QSO) rows"
  obtain t where t: "FormatAll None ?recs ''1.0.0'' = Inr t" by (simp add: FormatAll_eq)
  moreover have "FormatAll None (map batch_record rows) ''1.0.0'' = FormatAll None ?recs ''1.0.0''"
    by (simp add: FormatAll_eq batch_record_alt export_canonical comp_def)
  ultimately have "qsosToADIF rows = Inr t" using qsosToADIF_FormatAll [OF assms(1)] by simp
  moreover have "ParseString decode None t = (Some \<lparr>h_Fields = standardFields (effective_version ''1.0.0'') @ extra_header_fields None\<rparr>,
      map (\<lambda>r. \<lparr>r_Fields = export_fields r\<rparr>) ?recs, None)"
  proof (rule parse_FormatAll [OF _ _ _ _ _ _ t])
    show "list_all wf_record ?recs" "list_all (short_values \<circ> r_Fields) ?recs"
      using assms(3) plain_record_fits by (auto simp: list_all_iff)
  qed (use assms(2) in \<open>simp_all add: extra_header_fields_def ValidString_ascii\<close>)
  ultimately show thesis using that by (simp add: effective_version_def extra_header_fields_def comp_def)
qed

text \<open>The mode that is sent, and the contacts whose texts survive trimming.\<close>

definition sent_mode :: "sync_qso \<Rightarrow> string" where
  "sent_mode q = (case NormalizeModePair (sq_mode q) [] of None \<Rightarrow> sq_mode q | Some v \<Rightarrow> mv_Mode v)"

definition plain_texts :: "sync_qso \<Rightarrow> bool" where
  "plain_texts q \<longleftrightarrow> list_all (\<lambda>s. s \<noteq> [] \<and> trimmed s) [sq_callsign q, sq_band q, sq_mode q] \<and> zero_time + 60 * usec \<le> sq_datetime_on q"

lemma sent_mode_ne:
  assumes "plain_texts q"
  shows "TrimSpace (sent_mode q) = sent_mode q \<and> sent_mode q \<noteq> []"
proof (cases "NormalizeModePair (sq_mode q) []")
  case None
  with assms show ?thesis by (simp add: sent_mode_def plain_texts_def TrimSpace_trimmed)
next
  case (Some v)
  have "mv_Mode v \<in> set CanonicalADIFModes" using NormalizeModePair_nf [OF Some] by blast
  with modes_normal have "ToUpper (TrimSpace (mv_Mode v)) = mv_Mode v" "mv_Mode v \<noteq> []" by (simp_all add: list_all_iff)
  then have "trimmed (mv_Mode v)" by (metis trimmed_ToUpper trimmed_TrimSpace)
  with Some \<open>mv_Mode v \<noteq> []\<close> show ?thesis by (simp add: sent_mode_def TrimSpace_trimmed)
qed

lemma to_minute_near: "to_minute t \<le> t" "t < to_minute t + 60 * usec"
  using pos_mod_sign [of "60 * usec" t] pos_mod_bound [of "60 * usec" t] by (simp_all add: to_minute_def)

lemma read_back_get:
  "Record_Get \<lparr>r_Fields = export_fields (plain_record q)\<rparr> n =
     (if ToUpper n = ''MODE'' then sent_mode q
      else if ToUpper n = ''SUBMODE'' then (case NormalizeModePair (sq_mode q) [] of None \<Rightarrow> Record_Get (plain_record q) n | Some v \<Rightarrow> mv_Submode v)
      else Record_Get (plain_record q) n)"
proof -
  have "ToUpper n = ''MODE'' \<Longrightarrow> Record_Get (plain_record q) n = Record_Get (plain_record q) ''MODE''"
    by (simp add: Record_Get_def)
  then show ?thesis by (simp add: Record_Get_export Record_Get_plain sent_mode_def split: option.split)
qed

lemma qrz_record_read_back:
  assumes "sendable q" "plain_texts q"
  obtains rec where "qrz_record \<lparr>r_Fields = export_fields (plain_record q)\<rparr> = Some rec"
    "qc_Callsign rec = ToUpper (sq_callsign q)" "qc_Band rec = ToLower (sq_band q)" "qc_Mode rec = ToUpper (sent_mode q)"
    "qc_DatetimeOn rec = to_minute (sq_datetime_on q)"
proof -
  have dt: "parseADIFDateTime (Format_20060102 (sq_datetime_on q)) (Format_1504 (sq_datetime_on q)) = to_minute (sq_datetime_on q)"
    using assms(1) by (intro parseADIFDateTime_Format) (simp_all add: sendable_def)
  have nz: "to_minute (sq_datetime_on q) \<noteq> zero_time"
    using assms(2) to_minute_near(2) [of "sq_datetime_on q"] by (auto simp: plain_texts_def)
  have tr: "TrimSpace (sq_callsign q) = sq_callsign q" "TrimSpace (sq_band q) = sq_band q" "sq_callsign q \<noteq> []" "sq_band q \<noteq> []"
    using assms(2) by (simp_all add: plain_texts_def TrimSpace_trimmed)
  let ?r = "\<lparr>r_Fields = export_fields (plain_record q)\<rparr> :: Record"
  have g: "Record_Get ?r ''CALL'' = sq_callsign q" "Record_Get ?r ''BAND'' = sq_band q" "Record_Get ?r ''MODE'' = sent_mode q"
    "Record_Get ?r ''QSO_DATE'' = Format_20060102 (sq_datetime_on q)" "Record_Get ?r ''TIME_ON'' = Format_1504 (sq_datetime_on q)"
    by (simp_all add: read_back_get batch_names_upper Record_Get_plain)
  have l: "ToLower (sq_band q) \<noteq> []" using tr(4) by (simp add: ToLower_def)
  show thesis
    by (rule that [of "the (qrz_record ?r)"])
       (simp_all add: qrz_record_def g dt nz tr l sent_mode_ne [OF assms(2)] Let_def del: parseADIFDate.simps)
qed


section \<open>Properties\<close>




definition hamqth_db :: sync_db where
  "hamqth_db = (sample_sync [sample_row 1 1 ''hamqth'' StUploaded (Some []), sample_row 2 2 ''clublog'' StPending None])
     \<lparr>sd_creds := \<lparr>ct_rows = [cred_sample 1 ''hamqth'' (stored ''secret'')], ct_next_id = 2\<rparr>\<rparr>"

text \<open>The clock thirty-one days later.\<close>

definition later_work :: work_env where
  "later_work = sample_work\<lparr>we_step := (\<lambda>i. we_step sample_work i\<lparr>st_now := 31 * 24 * 3600 * Second\<rparr>)\<rparr>"


end
