(* ===== verification/Adif_Import.thy ===== *)
theory Adif_Import
  imports Adif_Parser Adif_Fields Adif_Mode Adif_Validate Go_Time "HOL-Library.AList"
begin

text \<open>
  \<open>api/internal/jobs/adif_import.go\<close>: the job that imports an ADIF file into a logbook.

  A row holds the columns that identify a contact as fields of their own; the other columns come in groups of one type, each a list of column
  name and value in the order of the code.  Messages are constructors with the values they print.  Times are microseconds.
  The rows of \<open>qsos\<close> have no identifiers here: nothing in the import reads them.
\<close>

section \<open>Times and frequencies\<close>

datatype DateErr = DateFormat string | InYear string | InMonth string | InDay string | Implausible string

text \<open>\<open>time.Date\<close> with its normalisation, in UTC.\<close>

definition time_Date_UTC :: "int \<Rightarrow> int \<Rightarrow> int \<Rightarrow> int \<Rightarrow> int \<Rightarrow> int \<Rightarrow> int" where
  "time_Date_UTC year month day hour mi sec =
     ((days_from_civil (year + (month - 1) div 12, nat ((month - 1) mod 12) + 1, 1) + (day - 1)) * 86400 + hour * 3600 + mi * 60 + sec) * usec"

definition go_zero_time :: int where "go_zero_time = - epoch_days * 86400 * usec"

definition time_parts :: "string \<Rightarrow> int \<times> int \<times> int" where
  "time_parts timeStr =
     (if length timeStr = 6 then (atoi0 (slice 0 2 timeStr), atoi0 (slice 2 4 timeStr), atoi0 (slice 4 6 timeStr))
      else if 4 \<le> length timeStr then (atoi0 (slice 0 2 timeStr), atoi0 (slice 2 4 timeStr), 0)
      else (0, 0, 0))"

definition parseADIFDateTime :: "string \<Rightarrow> string \<Rightarrow> DateErr + int" where
  "parseADIFDateTime date0 timeStr0 =
     (let date = TrimSpace date0; timeStr = TrimSpace timeStr0 in
      if length date \<noteq> 8 then Inl (DateFormat date)
      else case Atoi (slice 0 4 date) of
        None \<Rightarrow> Inl (InYear date)
      | Some year \<Rightarrow>
          (case Atoi (slice 4 6 date) of
             None \<Rightarrow> Inl (InMonth date)
           | Some month \<Rightarrow>
               (case Atoi (slice 6 8 date) of
                  None \<Rightarrow> Inl (InDay date)
                | Some day \<Rightarrow>
                    (case time_parts timeStr of
                       (hour, mi, sec) \<Rightarrow>
                         (let t = time_Date_UTC year month day hour mi sec in
                          if t = go_zero_time \<or> year < 1900 \<or> 2100 < year then Inl (Implausible date) else Inr t)))))"

definition parseADIFDate :: "string \<Rightarrow> DateErr + int" where
  "parseADIFDate s = parseADIFDateTime s []"

text \<open>\<open>math.Round\<close> and the conversion to \<open>int64\<close>, whose value is not specified for an argument that is not finite.\<close>

definition round_away :: "rat \<Rightarrow> int" where
  "round_away q = (if q < 0 then - \<lfloor>- q + 1 / 2\<rfloor> else \<lfloor>q + 1 / 2\<rfloor>)"

definition mhz_to_hz :: "int \<Rightarrow> float64 \<Rightarrow> int" where
  "mhz_to_hz undef f =
     (case f of
        Finite q \<Rightarrow> (case to_float (q * 1000000) of Finite r \<Rightarrow> round_away r | _ \<Rightarrow> undef)
      | _ \<Rightarrow> undef)"

datatype FreqErr = FreqSyntax string | FreqRange float64

definition parseMHzToHz :: "int \<Rightarrow> string \<Rightarrow> FreqErr + int" where
  "parseMHzToHz undef s =
     (case ParseFloat (TrimSpace s) of
        None \<Rightarrow> Inl (FreqSyntax s)
      | Some f \<Rightarrow> if le64 f (Finite 0) \<or> le64 (Finite 300000) f then Inl (FreqRange f) else Inr (mhz_to_hz undef f))"

text \<open>The loop over the map \<open>KnownBands\<close>, in the order of the table.\<close>

definition in_band :: "float64 \<Rightarrow> BandDef \<Rightarrow> bool" where
  "in_band f bd \<longleftrightarrow> le64 (to_float (bd_LowerMHz bd)) f \<and> le64 f (to_float (bd_UpperMHz bd))"

definition inferBandFromFreq :: "string \<Rightarrow> string" where
  "inferBandFromFreq freqStr =
     (case ParseFloat (TrimSpace freqStr) of
        None \<Rightarrow> []
      | Some f \<Rightarrow> (case find (\<lambda>(name, bd). in_band f bd) KnownBands of None \<Rightarrow> [] | Some (name, _) \<Rightarrow> name))"


section \<open>Mapping a record\<close>

definition optStr :: "string \<Rightarrow> string option" where
  "optStr s = (if TrimSpace s = [] then None else Some (TrimSpace s))"

definition parseReferenceList :: "string \<Rightarrow> string list" where
  "parseReferenceList raw =
     (let trimmed = TrimSpace raw in
      if trimmed = [] then [] else filter (\<lambda>r. r \<noteq> []) (map (\<lambda>p. ToUpper (TrimSpace p)) (Split (CHR '','') trimmed)))"

text \<open>\<open>strconv.ParseInt(v, 10, bits)\<close>\<close>

definition ParseInt_bits :: "nat \<Rightarrow> string \<Rightarrow> int option" where
  "ParseInt_bits bits s =
     (case ParseInt s of None \<Rightarrow> None | Some n \<Rightarrow> if - (2 ^ (bits - 1)) \<le> n \<and> n < 2 ^ (bits - 1) then Some n else None)"

record qsoRow =
  qr_Callsign :: string
  qr_Band :: string
  qr_Mode :: string
  qr_Submode :: "string option"
  qr_FrequencyHz :: "int option"
  qr_FreqRxHz :: "int option"
  qr_DatetimeOn :: int
  qr_DatetimeOff :: "int option"
  qr_TimeSource :: string
  qr_Texts :: "(string \<times> string option) list"
  qr_Ints :: "(string \<times> int option) list"
  qr_Floats :: "(string \<times> float64 option) list"
  qr_Dates :: "(string \<times> int option) list"
  qr_PotaRefs :: "string list"
  qr_MyPotaRefs :: "string list"
  qr_Extra :: "(string \<times> string) list"
  qr_Source :: string
  qr_SourceID :: "string option"

text \<open>The text columns: the column, the ADIF field it comes from, and whether it is put in upper case.\<close>

definition text_columns :: "(string \<times> string \<times> bool) list" where
  "text_columns = [
     (''name'', ''NAME'', False), (''qth'', ''QTH'', False), (''rst_sent'', ''RST_SENT'', False), (''rst_rcvd'', ''RST_RCVD'', False),
     (''gridsquare'', ''GRIDSQUARE'', True), (''country'', ''COUNTRY'', False), (''state'', ''STATE'', False), (''county'', ''COUNTY'', False),
     (''continent'', ''CONT'', True), (''my_gridsquare'', ''MY_GRIDSQUARE'', True), (''my_city'', ''MY_CITY'', False),
     (''my_state'', ''MY_STATE'', False), (''my_country'', ''MY_COUNTRY'', False), (''my_antenna'', ''MY_ANTENNA'', False),
     (''my_rig'', ''MY_RIG'', False), (''operator'', ''OPERATOR'', True), (''station_callsign'', ''STATION_CALLSIGN'', True),
     (''contest_id'', ''CONTEST_ID'', False), (''srx'', ''SRX'', False), (''stx'', ''STX'', False), (''srx_string'', ''SRX_STRING'', False),
     (''stx_string'', ''STX_STRING'', False), (''sat_name'', ''SAT_NAME'', False), (''sat_mode'', ''SAT_MODE'', False),
     (''prop_mode'', ''PROP_MODE'', False), (''sota_ref'', ''SOTA_REF'', False), (''my_sota_ref'', ''MY_SOTA_REF'', False),
     (''wwff_ref'', ''WWFF_REF'', False), (''my_wwff_ref'', ''MY_WWFF_REF'', False), (''iota'', ''IOTA'', False), (''sig'', ''SIG'', False),
     (''sig_info'', ''SIG_INFO'', False), (''qsl_sent'', ''QSL_SENT'', True), (''qsl_rcvd'', ''QSL_RCVD'', True), (''qsl_via'', ''QSL_VIA'', True),
     (''lotw_qsl_sent'', ''LOTW_QSL_SENT'', True), (''lotw_qsl_rcvd'', ''LOTW_QSL_RCVD'', True),
     (''eqsl_qsl_sent'', ''EQSL_QSL_SENT'', True), (''eqsl_qsl_rcvd'', ''EQSL_QSL_RCVD'', True),
     (''comment'', ''COMMENT'', False), (''notes'', ''NOTES'', False)]"

definition int_columns :: "(string \<times> string \<times> nat) list" where
  "int_columns = [(''dxcc'', ''DXCC'', 32), (''my_dxcc'', ''MY_DXCC'', 32), (''cq_zone'', ''CQZ'', 16), (''itu_zone'', ''ITUZ'', 16),
     (''sfi'', ''SFI'', 16), (''a_index'', ''A_INDEX'', 16), (''k_index'', ''K_INDEX'', 16)]"

definition float_columns :: "(string \<times> string) list" where
  "float_columns = [(''tx_power'', ''TX_PWR''), (''rx_pwr'', ''RX_PWR'')]"

definition date_columns :: "(string \<times> string) list" where
  "date_columns = [(''qsl_sent_date'', ''QSLSDATE''), (''qsl_rcvd_date'', ''QSLRDATE''), (''lotw_qsl_sent_date'', ''LOTW_QSLSDATE''),
     (''lotw_qsl_rcvd_date'', ''LOTW_QSLRDATE''), (''eqsl_qsl_sent_date'', ''EQSL_QSLSDATE''), (''eqsl_qsl_rcvd_date'', ''EQSL_QSLRDATE'')]"

definition knownMappedFields :: "string list" where
  "knownMappedFields = [
     ''CALL'', ''BAND'', ''MODE'', ''SUBMODE'', ''FREQ'', ''FREQ_RX'', ''BAND_RX'', ''QSO_DATE'', ''TIME_ON'', ''QSO_DATE_OFF'', ''TIME_OFF'',
     ''RST_SENT'', ''RST_RCVD'', ''NAME'', ''QTH'', ''TX_PWR'', ''RX_PWR'', ''MY_ANTENNA'', ''MY_RIG'', ''ANTENNA'',
     ''GRIDSQUARE'', ''DXCC'', ''COUNTRY'', ''STATE'', ''COUNTY'', ''CQZ'', ''ITUZ'', ''CONT'', ''MY_GRIDSQUARE'', ''MY_CITY'', ''MY_STATE'',
     ''MY_COUNTRY'', ''MY_DXCC'', ''SFI'', ''A_INDEX'', ''K_INDEX'', ''PROP_MODE'', ''OPERATOR'', ''STATION_CALLSIGN'',
     ''CONTEST_ID'', ''SRX'', ''STX'', ''SRX_STRING'', ''STX_STRING'', ''SAT_NAME'', ''SAT_MODE'', ''SOTA_REF'', ''MY_SOTA_REF'',
     ''POTA_REF'', ''MY_POTA_REF'', ''WWFF_REF'', ''MY_WWFF_REF'', ''IOTA'', ''SIG'', ''SIG_INFO'',
     ''QSL_SENT'', ''QSL_SENT_VIA'', ''QSL_RCVD'', ''QSL_RCVD_VIA'', ''QSL_VIA'', ''QSLSDATE'', ''QSLRDATE'',
     ''LOTW_QSL_SENT'', ''LOTW_QSLSDATE'', ''LOTW_QSL_RCVD'', ''LOTW_QSLRDATE'',
     ''EQSL_QSL_SENT'', ''EQSL_QSLSDATE'', ''EQSL_QSL_RCVD'', ''EQSL_QSLRDATE'', ''COMMENT'', ''NOTES'']"

datatype mapError =
    MissingCallsign | MissingDate | InvalidDate DateErr | MissingBand | MissingMode | InvalidModeSubmode string string | InvalidMode string

fun mapError_Code :: "mapError \<Rightarrow> string" where
  "mapError_Code MissingCallsign = ''MISSING_CALLSIGN''"
| "mapError_Code MissingDate = ''MISSING_DATE''"
| "mapError_Code (InvalidDate _) = ''INVALID_DATE''"
| "mapError_Code MissingBand = ''MISSING_BAND''"
| "mapError_Code MissingMode = ''MISSING_MODE''"
| "mapError_Code (InvalidModeSubmode _ _) = ''INVALID_MODE_SUBMODE''"
| "mapError_Code (InvalidMode _) = ''INVALID_MODE''"

fun mapError_Field :: "mapError \<Rightarrow> string" where
  "mapError_Field MissingCallsign = ''CALL''"
| "mapError_Field MissingDate = ''QSO_DATE''"
| "mapError_Field (InvalidDate _) = ''QSO_DATE''"
| "mapError_Field MissingBand = ''BAND''"
| "mapError_Field MissingMode = ''MODE''"
| "mapError_Field (InvalidModeSubmode _ _) = ''MODE''"
| "mapError_Field (InvalidMode _) = ''MODE''"

datatype importWarning = BandInferred string string | InvalidFreq string FreqErr

fun warning_Code :: "importWarning \<Rightarrow> string" where
  "warning_Code (BandInferred _ _) = ''BAND_INFERRED''"
| "warning_Code (InvalidFreq _ _) = ''INVALID_FREQ''"

fun warning_Field :: "importWarning \<Rightarrow> string" where
  "warning_Field (BandInferred _ _) = ''BAND''"
| "warning_Field (InvalidFreq _ _) = ''FREQ''"

definition map_band :: "Record \<Rightarrow> (string \<times> importWarning list) option" where
  "map_band rec =
     (let band = ToLower (TrimSpace (Record_Get rec ''BAND'')); freqStr = TrimSpace (Record_Get rec ''FREQ'') in
      if band \<noteq> [] then Some (band, [])
      else if freqStr \<noteq> [] \<and> inferBandFromFreq freqStr \<noteq> [] then
        Some (inferBandFromFreq freqStr, [BandInferred (inferBandFromFreq freqStr) freqStr])
      else None)"

definition map_freq :: "int \<Rightarrow> Record \<Rightarrow> int option \<times> importWarning list" where
  "map_freq undef rec =
     (let freqStr = TrimSpace (Record_Get rec ''FREQ'') in
      if freqStr = [] then (None, [])
      else case parseMHzToHz undef freqStr of Inr hz \<Rightarrow> (Some hz, []) | Inl e \<Rightarrow> (None, [InvalidFreq freqStr e]))"

definition map_opt :: "(string \<Rightarrow> 'a option) \<Rightarrow> Record \<Rightarrow> string \<Rightarrow> 'a option" where
  "map_opt p rec field = (let v = TrimSpace (Record_Get rec field) in if v = [] then None else p v)"

definition ok_value :: "'e + 'a \<Rightarrow> 'a option" where
  "ok_value x = (case x of Inr v \<Rightarrow> Some v | Inl _ \<Rightarrow> None)"

definition collect_extra :: "Field list \<Rightarrow> (string \<times> string) list" where
  "collect_extra flds =
     fold (\<lambda>f extra.
       let val = TrimSpace (f_Value f) in
       if val = [] then extra
       else if HasPrefix (f_Name f) ''APP_'' then AList.update (f_Name f) val extra
       else if f_Name f \<notin> set knownMappedFields then AList.update (f_Name f) val extra
       else extra) flds []"

definition mapADIFRecord :: "int \<Rightarrow> Record \<Rightarrow> mapError + (qsoRow \<times> importWarning list)" where
  "mapADIFRecord undef rec =
     (let callsign = ToUpper (TrimSpace (Record_Get rec ''CALL'')); qsoDate = TrimSpace (Record_Get rec ''QSO_DATE'');
          timeOn = TrimSpace (Record_Get rec ''TIME_ON'') in
      if callsign = [] then Inl MissingCallsign
      else if qsoDate = [] then Inl MissingDate
      else case parseADIFDateTime qsoDate timeOn of
        Inl e \<Rightarrow> Inl (InvalidDate e)
      | Inr datetimeOn \<Rightarrow>
          (case map_band rec of
             None \<Rightarrow> Inl MissingBand
           | Some (band, w1) \<Rightarrow>
               (let rawMode = ToUpper (TrimSpace (Record_Get rec ''MODE'')); rawSubmode = ToUpper (TrimSpace (Record_Get rec ''SUBMODE'')) in
                if rawMode = [] then Inl MissingMode
                else case NormalizeModePair rawMode rawSubmode of
                  None \<Rightarrow> Inl (if rawSubmode \<noteq> [] then InvalidModeSubmode rawMode rawSubmode else InvalidMode rawMode)
                | Some normalizedMode \<Rightarrow>
                    (case map_freq undef rec of
                       (freq, w2) \<Rightarrow>
                         Inr (\<lparr>qr_Callsign = callsign, qr_Band = band, qr_Mode = mv_Mode normalizedMode,
                               qr_Submode = (if mv_Submode normalizedMode \<noteq> [] then Some (mv_Submode normalizedMode) else None),
                               qr_FrequencyHz = freq,
                               qr_FreqRxHz = map_opt (\<lambda>v. ok_value (parseMHzToHz undef v)) rec ''FREQ_RX'',
                               qr_DatetimeOn = datetimeOn,
                               qr_DatetimeOff =
                                 map_opt (\<lambda>v. ok_value (parseADIFDateTime v (TrimSpace (Record_Get rec ''TIME_OFF'')))) rec ''QSO_DATE_OFF'',
                               qr_TimeSource = ''assumed_utc'',
                               qr_Texts = map (\<lambda>(col, field, up). (col, optStr (if up then ToUpper (Record_Get rec field) else Record_Get rec field)))
                                 text_columns,
                               qr_Ints = map (\<lambda>(col, field, bits). (col, map_opt (ParseInt_bits bits) rec field)) int_columns,
                               qr_Floats = map (\<lambda>(col, field). (col, map_opt ParseFloat rec field)) float_columns,
                               qr_Dates = map (\<lambda>(col, field). (col, map_opt (\<lambda>v. ok_value (parseADIFDate v)) rec field)) date_columns,
                               qr_PotaRefs = parseReferenceList (Record_Get rec ''POTA_REF''),
                               qr_MyPotaRefs = parseReferenceList (Record_Get rec ''MY_POTA_REF''),
                               qr_Extra = collect_extra (r_Fields rec), qr_Source = ''adif_import'', qr_SourceID = None\<rparr>,
                              w1 @ w2)))))"


section \<open>Stored contacts\<close>

text \<open>A row of the table \<open>qsos\<close>, and access to a column of one of the groups.\<close>

record storedQSO =
  st_id :: int
  st_logbook :: int
  st_deleted :: bool
  st_row :: qsoRow

definition get_col :: "(string \<times> 'a option) list \<Rightarrow> string \<Rightarrow> 'a option" where
  "get_col cols c = Option.bind (map_of cols c) id"

lemma get_col_update [simp]: "get_col (AList.update c v cols) c' = (if c' = c then v else get_col cols c')"
  by (simp add: get_col_def update_conv')

end
