(* ===== verification/Qso_Enrich.thy ===== *)
theory Qso_Enrich
  imports Adif_Import
begin

text \<open>
  \<open>api/internal/services/qsoenrich/enrichment.go\<close>: the statements that fill missing fields of contacts.

  The tables the statements read are lists of rows.  A lateral subquery with \<open>ORDER BY ... LIMIT 1\<close> takes the best row of an order.
\<close>

section \<open>The tables\<close>

record dxccEntity =
  de_entity_id :: int
  de_name :: string
  de_lotw_entity_name :: "string option"
  de_cq_zone :: "int option"
  de_itu_zone :: "int option"
  de_continent :: "string option"

record callsignRecord =
  cr_id :: int
  cr_callsign :: string
  cr_dxcc_entity_id :: "int option"
  cr_country :: "string option"
  cr_state_province :: "string option"
  cr_grid_square :: "string option"
  cr_full_name :: "string option"
  cr_first_name :: "string option"
  cr_last_name :: "string option"
  cr_updated_at :: "int option"
  cr_fetched_at :: "int option"

text \<open>\<open>prefixes\<close> is \<^const>\<open>None\<close> where the table \<open>dxcc_prefixes\<close> does not exist yet.\<close>

record dxccTables =
  dt_entities :: "dxccEntity list"
  dt_records :: "callsignRecord list"
  dt_prefixes :: "(string \<times> int) list option"

text \<open>\<open>NULLIF(BTRIM(s), '''')\<close>\<close>

definition filled :: "string option \<Rightarrow> string option" where
  "filled v = (case v of None \<Rightarrow> None | Some s \<Rightarrow> if BTRIM s = [] then None else Some (BTRIM s))"

fun coalesce :: "'a option list \<Rightarrow> 'a option" where
  "coalesce [] = None"
| "coalesce (Some x # vs) = Some x"
| "coalesce (None # vs) = coalesce vs"

fun best :: "('a \<Rightarrow> 'a \<Rightarrow> bool) \<Rightarrow> 'a list \<Rightarrow> 'a option" where
  "best better [] = None"
| "best better (x # xs) = (case best better xs of None \<Rightarrow> Some x | Some y \<Rightarrow> if better y x then Some y else Some x)"

text \<open>\<open>DESC NULLS LAST\<close>\<close>

fun later :: "int option \<Rightarrow> int option \<Rightarrow> bool" where
  "later (Some a) (Some b) = (b < a)"
| "later (Some a) None = True"
| "later None _ = False"

definition newer_record :: "callsignRecord \<Rightarrow> callsignRecord \<Rightarrow> bool" where
  "newer_record a b \<longleftrightarrow>
     later (cr_updated_at a) (cr_updated_at b)
     \<or> cr_updated_at a = cr_updated_at b \<and>
         (later (cr_fetched_at a) (cr_fetched_at b) \<or> cr_fetched_at a = cr_fetched_at b \<and> cr_id b < cr_id a)"

text \<open>Strings are compared by their bytes.\<close>

fun str_less :: "string \<Rightarrow> string \<Rightarrow> bool" where
  "str_less [] (_ # _) = True"
| "str_less (a # s) (b # t) = (byte a < byte b \<or> a = b \<and> str_less s t)"
| "str_less _ [] = False"

definition better_prefix :: "string \<times> dxccEntity \<Rightarrow> string \<times> dxccEntity \<Rightarrow> bool" where
  "better_prefix a b \<longleftrightarrow> length (fst b) < length (fst a) \<or> length (fst a) = length (fst b) \<and> str_less (fst a) (fst b)"

definition entity_by_id :: "dxccTables \<Rightarrow> int option \<Rightarrow> dxccEntity option" where
  "entity_by_id tabs i = (case i of None \<Rightarrow> None | Some i \<Rightarrow> find (\<lambda>e. de_entity_id e = i) (dt_entities tabs))"

definition entity_by_country :: "dxccTables \<Rightarrow> string option \<Rightarrow> dxccEntity option" where
  "entity_by_country tabs country =
     (case filled country of
        None \<Rightarrow> None
      | Some c \<Rightarrow>
          best (\<lambda>a b. de_entity_id a < de_entity_id b)
            (filter (\<lambda>e. ToUpper (BTRIM (de_name e)) = ToUpper c
               \<or> (case de_lotw_entity_name e of None \<Rightarrow> False | Some n \<Rightarrow> ToUpper (BTRIM n) = ToUpper c)) (dt_entities tabs)))"

definition record_by_callsign :: "dxccTables \<Rightarrow> string \<Rightarrow> callsignRecord option" where
  "record_by_callsign tabs callsign =
     best newer_record (filter (\<lambda>c. cr_callsign c = ToUpper (BTRIM callsign)) (dt_records tabs))"

text \<open>\<open>prefixJoinSQL\<close>, and \<open>prefixJoinNullSQL\<close> for a missing table.\<close>

definition entity_by_prefix :: "dxccTables \<Rightarrow> string \<Rightarrow> dxccEntity option" where
  "entity_by_prefix tabs callsign =
     (case dt_prefixes tabs of
        None \<Rightarrow> None
      | Some pfxs \<Rightarrow>
          map_option snd (best better_prefix
            (List.map_filter (\<lambda>(prefix, i). if HasPrefix (ToUpper (BTRIM callsign)) prefix
               then map_option (Pair prefix) (entity_by_id tabs (Some i)) else None) pfxs)))"


section \<open>enrichmentUpdateSQL\<close>

record resolved =
  rs_dxcc :: "int option"
  rs_country :: "string option"
  rs_cq_zone :: "int option"
  rs_itu_zone :: "int option"
  rs_continent :: "string option"

definition resolve :: "dxccTables \<Rightarrow> qsoRow \<Rightarrow> resolved" where
  "resolve tabs r =
     (let cr = record_by_callsign tabs (qr_Callsign r);
          d_current = entity_by_id tabs (get_col (qr_Ints r) ''dxcc'');
          d_country = entity_by_country tabs (get_col (qr_Texts r) ''country'');
          d_callsign = entity_by_id tabs (Option.bind cr cr_dxcc_entity_id);
          d_prefix = entity_by_prefix tabs (qr_Callsign r) in
      \<lparr>rs_dxcc = coalesce [get_col (qr_Ints r) ''dxcc'', map_option de_entity_id d_country, Option.bind cr cr_dxcc_entity_id,
                           map_option de_entity_id d_prefix],
       rs_country = coalesce [filled (get_col (qr_Texts r) ''country''), filled (Option.bind cr cr_country), map_option de_name d_current,
                              map_option de_name d_country, map_option de_name d_callsign, map_option de_name d_prefix],
       rs_cq_zone = coalesce [get_col (qr_Ints r) ''cq_zone'', Option.bind d_current de_cq_zone, Option.bind d_country de_cq_zone,
                              Option.bind d_callsign de_cq_zone, Option.bind d_prefix de_cq_zone],
       rs_itu_zone = coalesce [get_col (qr_Ints r) ''itu_zone'', Option.bind d_current de_itu_zone, Option.bind d_country de_itu_zone,
                               Option.bind d_callsign de_itu_zone, Option.bind d_prefix de_itu_zone],
       rs_continent = coalesce [filled (get_col (qr_Texts r) ''continent''), Option.bind d_current de_continent, Option.bind d_country de_continent,
                                Option.bind d_callsign de_continent, Option.bind d_prefix de_continent]\<rparr>)"

definition needs_enrichment :: "resolved \<Rightarrow> qsoRow \<Rightarrow> bool" where
  "needs_enrichment c r \<longleftrightarrow>
     get_col (qr_Ints r) ''dxcc'' = None \<and> rs_dxcc c \<noteq> None
     \<or> filled (get_col (qr_Texts r) ''country'') = None \<and> rs_country c \<noteq> None
     \<or> get_col (qr_Ints r) ''cq_zone'' = None \<and> rs_cq_zone c \<noteq> None
     \<or> get_col (qr_Ints r) ''itu_zone'' = None \<and> rs_itu_zone c \<noteq> None
     \<or> filled (get_col (qr_Texts r) ''continent'') = None \<and> rs_continent c \<noteq> None"

definition fill_int :: "string \<Rightarrow> int option \<Rightarrow> qsoRow \<Rightarrow> qsoRow" where
  "fill_int col v r = r\<lparr>qr_Ints := AList.update col (coalesce [get_col (qr_Ints r) col, v]) (qr_Ints r)\<rparr>"

definition fill_text :: "string \<Rightarrow> string option \<Rightarrow> qsoRow \<Rightarrow> qsoRow" where
  "fill_text col v r = r\<lparr>qr_Texts := AList.update col (coalesce [filled (get_col (qr_Texts r) col), v]) (qr_Texts r)\<rparr>"

definition apply_resolved :: "resolved \<Rightarrow> qsoRow \<Rightarrow> qsoRow" where
  "apply_resolved c r =
     fill_text ''continent'' (rs_continent c) (fill_int ''itu_zone'' (rs_itu_zone c) (fill_int ''cq_zone'' (rs_cq_zone c)
       (fill_text ''country'' (rs_country c) (fill_int ''dxcc'' (rs_dxcc c) r))))"

text \<open>An \<open>UPDATE\<close> of the rows in the scope whose new value is not \<^const>\<open>None\<close>, and the number of rows it changed.\<close>

definition update_rows :: "(storedQSO \<Rightarrow> qsoRow option) \<Rightarrow> storedQSO list \<Rightarrow> storedQSO list \<times> int" where
  "update_rows f qsos =
     (map (\<lambda>q. case f q of None \<Rightarrow> q | Some r \<Rightarrow> q\<lparr>st_row := r\<rparr>) qsos, int (length (filter (\<lambda>q. f q \<noteq> None) qsos)))"

definition enrichmentUpdateSQL :: "dxccTables \<Rightarrow> (storedQSO \<Rightarrow> bool) \<Rightarrow> storedQSO list \<Rightarrow> storedQSO list \<times> int" where
  "enrichmentUpdateSQL tabs scope =
     update_rows (\<lambda>q. let c = resolve tabs (st_row q) in
       if scope q \<and> needs_enrichment c (st_row q) then Some (apply_resolved c (st_row q)) else None)"

text \<open>
  \<open>ok1\<close> and \<open>ok2\<close>: the statement and its fallback run without an error of the database.  A missing table is an error of the statement
  as written, and the fallback does without the table.
\<close>

definition runEnrichmentExec :: "bool \<Rightarrow> bool \<Rightarrow> dxccTables \<Rightarrow> (storedQSO \<Rightarrow> bool) \<Rightarrow> storedQSO list \<Rightarrow> (storedQSO list \<times> int) option" where
  "runEnrichmentExec ok1 ok2 tabs scope qsos =
     (if \<not> ok1 then None
      else case dt_prefixes tabs of
        Some _ \<Rightarrow> Some (enrichmentUpdateSQL tabs scope qsos)
      | None \<Rightarrow> if ok2 then Some (enrichmentUpdateSQL tabs scope qsos) else None)"

definition EnrichLogbook :: "bool \<Rightarrow> bool \<Rightarrow> dxccTables \<Rightarrow> int \<Rightarrow> storedQSO list \<Rightarrow> (storedQSO list \<times> int) option" where
  "EnrichLogbook ok1 ok2 tabs logbookID = runEnrichmentExec ok1 ok2 tabs (\<lambda>q. st_logbook q = logbookID \<and> \<not> st_deleted q)"

text \<open>\<open>accessible\<close>: the logbooks that are not deleted and in which the current user is at least an operator; \<open>logbook\<close>: the one asked for.\<close>

definition EnrichAccessible :: "bool \<Rightarrow> bool \<Rightarrow> dxccTables \<Rightarrow> (int \<Rightarrow> bool) \<Rightarrow> int option \<Rightarrow> storedQSO list \<Rightarrow> (storedQSO list \<times> int) option" where
  "EnrichAccessible ok1 ok2 tabs accessible logbook =
     runEnrichmentExec ok1 ok2 tabs
       (\<lambda>q. \<not> st_deleted q \<and> accessible (st_logbook q) \<and> (case logbook of None \<Rightarrow> True | Some l \<Rightarrow> st_logbook q = l))"


section \<open>callsignEnrichmentSQL\<close>

record callsignFill =
  cf_state :: "string option"
  cf_country :: "string option"
  cf_cq_zone :: "int option"
  cf_itu_zone :: "int option"
  cf_grid :: "string option"
  cf_name :: "string option"

text \<open>\<open>CONCAT_WS\<close> of the two names that are not null.\<close>

definition full_name :: "callsignRecord \<Rightarrow> string option" where
  "full_name c =
     coalesce [filled (cr_full_name c),
       filled (Some (Join '' '' (List.map_filter id [filled (cr_first_name c), filled (cr_last_name c)])))]"

definition callsign_fill :: "dxccTables \<Rightarrow> qsoRow \<Rightarrow> callsignFill" where
  "callsign_fill tabs r =
     (case best newer_record (filter (\<lambda>c. ToUpper (BTRIM (cr_callsign c)) = ToUpper (BTRIM (qr_Callsign r))) (dt_records tabs)) of
        None \<Rightarrow> \<lparr>cf_state = None, cf_country = None, cf_cq_zone = None, cf_itu_zone = None, cf_grid = None, cf_name = None\<rparr>
      | Some c \<Rightarrow>
          (let dx = entity_by_id tabs (cr_dxcc_entity_id c) in
           \<lparr>cf_state = filled (cr_state_province c), cf_country = filled (cr_country c), cf_cq_zone = Option.bind dx de_cq_zone,
            cf_itu_zone = Option.bind dx de_itu_zone, cf_grid = map_option ToUpper (filled (cr_grid_square c)), cf_name = full_name c\<rparr>))"

definition needs_callsign_fill :: "callsignFill \<Rightarrow> qsoRow \<Rightarrow> bool" where
  "needs_callsign_fill c r \<longleftrightarrow>
     filled (get_col (qr_Texts r) ''state'') = None \<and> cf_state c \<noteq> None
     \<or> filled (get_col (qr_Texts r) ''country'') = None \<and> cf_country c \<noteq> None
     \<or> get_col (qr_Ints r) ''cq_zone'' = None \<and> cf_cq_zone c \<noteq> None
     \<or> get_col (qr_Ints r) ''itu_zone'' = None \<and> cf_itu_zone c \<noteq> None
     \<or> filled (get_col (qr_Texts r) ''gridsquare'') = None \<and> cf_grid c \<noteq> None
     \<or> filled (get_col (qr_Texts r) ''name'') = None \<and> cf_name c \<noteq> None"

definition apply_callsign_fill :: "callsignFill \<Rightarrow> qsoRow \<Rightarrow> qsoRow" where
  "apply_callsign_fill c r =
     fill_text ''name'' (cf_name c) (fill_text ''gridsquare'' (cf_grid c) (fill_int ''itu_zone'' (cf_itu_zone c)
       (fill_int ''cq_zone'' (cf_cq_zone c) (fill_text ''country'' (cf_country c) (fill_text ''state'' (cf_state c) r)))))"

text \<open>The identifiers of the first \<open>limit\<close> candidates by identifier.\<close>

definition ranked_ids :: "dxccTables \<Rightarrow> (storedQSO \<Rightarrow> bool) \<Rightarrow> nat \<Rightarrow> storedQSO list \<Rightarrow> int list" where
  "ranked_ids tabs scope limit qsos =
     take limit (sort (map st_id (filter (\<lambda>q. scope q \<and> needs_callsign_fill (callsign_fill tabs (st_row q)) (st_row q)) qsos)))"

definition callsignEnrichmentSQL :: "dxccTables \<Rightarrow> (storedQSO \<Rightarrow> bool) \<Rightarrow> nat \<Rightarrow> storedQSO list \<Rightarrow> storedQSO list \<times> int" where
  "callsignEnrichmentSQL tabs scope limit qsos =
     update_rows (\<lambda>q. if st_id q \<in> set (ranked_ids tabs scope limit qsos) \<and> \<not> st_deleted q
       then Some (apply_callsign_fill (callsign_fill tabs (st_row q)) (st_row q)) else None) qsos"

definition EnrichOneFromCallsignRecords :: "bool \<Rightarrow> dxccTables \<Rightarrow> int \<Rightarrow> storedQSO list \<Rightarrow> (storedQSO list \<times> bool) option" where
  "EnrichOneFromCallsignRecords ok tabs qsoID qsos =
     (if \<not> ok then None
      else case callsignEnrichmentSQL tabs (\<lambda>q. st_id q = qsoID) 1 qsos of (qsos', n) \<Rightarrow> Some (qsos', 0 < n))"

record CallsignBackfillChange =
  bc_QSOID :: int
  bc_UserID :: int
  bc_Texts :: "(string \<times> string option \<times> string option) list"
  bc_Ints :: "(string \<times> int option \<times> int option) list"

definition backfill_change :: "(int \<Rightarrow> int) \<Rightarrow> storedQSO \<Rightarrow> storedQSO \<Rightarrow> CallsignBackfillChange" where
  "backfill_change owner old new =
     \<lparr>bc_QSOID = st_id old, bc_UserID = owner (st_logbook old),
      bc_Texts = map (\<lambda>c. (c, get_col (qr_Texts (st_row old)) c, get_col (qr_Texts (st_row new)) c)) [''state'', ''country'', ''gridsquare'', ''name''],
      bc_Ints = map (\<lambda>c. (c, get_col (qr_Ints (st_row old)) c, get_col (qr_Ints (st_row new)) c)) [''cq_zone'', ''itu_zone'']\<rparr>"

text \<open>
  \<open>callsignBackfillBatchSQL\<close>: \<open>operates\<close> says in which logbooks (not deleted) the user has the role owner, admin or operator, and \<open>owner\<close>
  gives the user of a logbook.  The changes are returned in the order of the identifiers.
\<close>

definition EnrichAccessibleBatchFromCallsignRecords ::
    "bool \<Rightarrow> dxccTables \<Rightarrow> (int \<Rightarrow> bool) \<Rightarrow> (int \<Rightarrow> int) \<Rightarrow> int option \<Rightarrow> int \<Rightarrow> storedQSO list
     \<Rightarrow> (storedQSO list \<times> CallsignBackfillChange list) option" where
  "EnrichAccessibleBatchFromCallsignRecords ok tabs operates owner logbook batchSize0 qsos =
     (let batchSize = (if batchSize0 \<le> 0 then 500 else batchSize0);
          scope = (\<lambda>q. \<not> st_deleted q \<and> operates (st_logbook q) \<and> (case logbook of None \<Rightarrow> True | Some l \<Rightarrow> st_logbook q = l));
          qsos' = fst (callsignEnrichmentSQL tabs scope (nat batchSize) qsos) in
      if \<not> ok then None
      else Some (qsos', map (\<lambda>(old, new). backfill_change owner old new)
             (sort_key (\<lambda>(old, _). st_id old)
                (filter (\<lambda>(old, new). st_id old \<in> set (ranked_ids tabs scope (nat batchSize) qsos) \<and> \<not> st_deleted old) (zip qsos qsos')))))"


section \<open>What an enrichment changes\<close>

lemma trim_idem:
  fixes P :: "'a \<Rightarrow> bool" and s :: "'a list"
  defines "u \<equiv> rev (dropWhile P (rev (dropWhile P s)))"
  shows "rev (dropWhile P (rev (dropWhile P u))) = u"
proof (cases "u = []")
  case False
  then have "dropWhile P s \<noteq> []" unfolding u_def by (metis dropWhile.simps(1) rev.simps(1))
  then have "\<not> P (hd u)" using hd_dropWhile [of P s] hd_rev_dropWhile_rev [of P "dropWhile P s"] False unfolding u_def by metis
  then have "dropWhile P u = u" by (simp add: dropWhile_eq_self_iff)
  moreover have "\<not> P (hd (rev u))" using False hd_dropWhile [of P "rev (dropWhile P s)"] by (simp add: u_def)
  ultimately show ?thesis by (metis False Nil_is_rev_conv dropWhile_eq_self_iff rev_rev_ident)
qed simp

lemma BTRIM_eq: "BTRIM s = rev (dropWhile is_space32 (rev (dropWhile is_space32 s)))"
  by (simp add: BTRIM_def TrimLeftFunc_def TrimRightFunc_def)

lemma BTRIM_idem [simp]: "BTRIM (BTRIM s) = BTRIM s"
  unfolding BTRIM_eq by (rule trim_idem)

lemma is_space32_upper_char [simp]: "is_space32 (upper_char c) = is_space32 c"
  by (auto simp: upper_char_def is_lower_def is_space32_def)

lemma BTRIM_ToUpper: "BTRIM (ToUpper s) = ToUpper (BTRIM s)"
  by (simp add: BTRIM_eq ToUpper_def dropWhile_map_pred rev_map)

lemma filled_idem [simp]: "filled (filled v) = filled v"
  by (auto simp: filled_def split: option.splits)

lemma filled_upper [simp]: "filled (map_option ToUpper (filled v)) = map_option ToUpper (filled v)"
  by (auto simp: filled_def BTRIM_ToUpper split: option.splits)

lemma coalesce_eq_None [simp]: "coalesce vs = None \<longleftrightarrow> (\<forall>v\<in>set vs. v = None)"
  by (induction vs rule: coalesce.induct) auto

lemma coalesce_pair: "coalesce [a, b] = (case a of None \<Rightarrow> b | Some x \<Rightarrow> Some x)"
  by (cases a; cases b) auto

lemma filled_coalesce: "filled v = v \<Longrightarrow> filled (coalesce [filled u, v]) = coalesce [filled u, v]"
  by (cases "filled u") (simp_all add: coalesce_pair, metis filled_idem)

lemma fill_simps [simp]:
  "get_col (qr_Ints (fill_int c v r)) c' = (if c' = c then coalesce [get_col (qr_Ints r) c, v] else get_col (qr_Ints r) c')"
  "qr_Texts (fill_int c v r) = qr_Texts r"
  "get_col (qr_Texts (fill_text c u r)) c' = (if c' = c then coalesce [filled (get_col (qr_Texts r) c), u] else get_col (qr_Texts r) c')"
  "qr_Ints (fill_text c u r) = qr_Ints r"
  by (simp_all add: fill_int_def fill_text_def)

text \<open>
  \<open>only_fills ints texts r r'\<close>: \<open>r'\<close> differs from \<open>r\<close> in the given columns only, and there only where \<open>r\<close> has no value; a text that is not
  blank keeps its value, without the blanks around it.
\<close>

definition only_fills :: "string set \<Rightarrow> string set \<Rightarrow> qsoRow \<Rightarrow> qsoRow \<Rightarrow> bool" where
  "only_fills ints texts r r' \<longleftrightarrow>
     r'\<lparr>qr_Ints := [], qr_Texts := []\<rparr> = r\<lparr>qr_Ints := [], qr_Texts := []\<rparr>
     \<and> (\<forall>c. get_col (qr_Ints r') c = get_col (qr_Ints r) c \<or> c \<in> ints \<and> get_col (qr_Ints r) c = None)
     \<and> (\<forall>c. get_col (qr_Texts r') c = get_col (qr_Texts r) c
            \<or> c \<in> texts \<and> (filled (get_col (qr_Texts r) c) = None \<or> get_col (qr_Texts r') c = filled (get_col (qr_Texts r) c)))"

lemma only_fills_refl: "only_fills ints texts r r"
  by (simp add: only_fills_def)

lemma only_fills_fill_int:
  assumes "only_fills ints texts r r'" "c \<in> ints"
  shows "only_fills ints texts r (fill_int c v r')"
proof -
  have "get_col (qr_Ints r) c = None \<or> coalesce [get_col (qr_Ints r') c, v] = get_col (qr_Ints r) c"
    using assms(1) unfolding only_fills_def
    by (cases "get_col (qr_Ints r) c") (metis coalesce.simps(2))+
  then show ?thesis
    using assms unfolding only_fills_def by (auto simp: fill_int_def)
qed

lemma only_fills_fill_text:
  assumes "only_fills ints texts r r'" "c \<in> texts"
  shows "only_fills ints texts r (fill_text c v r')"
proof -
  have "filled (get_col (qr_Texts r) c) = None \<or> coalesce [filled (get_col (qr_Texts r') c), v] = filled (get_col (qr_Texts r) c)"
    using assms(1) unfolding only_fills_def
    by (cases "filled (get_col (qr_Texts r) c)") (metis coalesce.simps(2) filled_idem)+
  then show ?thesis
    using assms unfolding only_fills_def by (auto simp: fill_text_def)
qed

lemma apply_resolved_only_fills:
  "only_fills {''dxcc'', ''cq_zone'', ''itu_zone''} {''country'', ''continent''} r (apply_resolved c r)"
  unfolding apply_resolved_def by (intro only_fills_fill_int only_fills_fill_text only_fills_refl) simp_all

lemma apply_callsign_fill_only_fills:
  "only_fills {''cq_zone'', ''itu_zone''} {''state'', ''country'', ''gridsquare'', ''name''} r (apply_callsign_fill c r)"
  unfolding apply_callsign_fill_def by (intro only_fills_fill_int only_fills_fill_text only_fills_refl) simp_all


lemma list_all2_update_rows:
  "list_all2 P qsos (fst (update_rows f qsos)) \<longleftrightarrow> (\<forall>q\<in>set qsos. P q (case f q of None \<Rightarrow> q | Some r \<Rightarrow> q\<lparr>st_row := r\<rparr>))"
  by (simp add: update_rows_def list.rel_map list_all2_same)

lemma needs_enrichment_complete:
  assumes "\<not> needs_enrichment c r" 
  shows "get_col (qr_Ints r) ''dxcc'' = None \<Longrightarrow> rs_dxcc c = None"
    "get_col (qr_Texts r) ''country'' = None \<Longrightarrow> rs_country c = None"
    "get_col (qr_Ints r) ''cq_zone'' = None \<Longrightarrow> rs_cq_zone c = None"
    "get_col (qr_Ints r) ''itu_zone'' = None \<Longrightarrow> rs_itu_zone c = None"
    "get_col (qr_Texts r) ''continent'' = None \<Longrightarrow> rs_continent c = None"
  using assms by (auto simp: needs_enrichment_def filled_def)

lemma apply_resolved_complete:
  "get_col (qr_Ints (apply_resolved c r)) ''dxcc'' = None \<Longrightarrow> rs_dxcc c = None"
  "get_col (qr_Texts (apply_resolved c r)) ''country'' = None \<Longrightarrow> rs_country c = None"
  "get_col (qr_Ints (apply_resolved c r)) ''cq_zone'' = None \<Longrightarrow> rs_cq_zone c = None"
  "get_col (qr_Ints (apply_resolved c r)) ''itu_zone'' = None \<Longrightarrow> rs_itu_zone c = None"
  "get_col (qr_Texts (apply_resolved c r)) ''continent'' = None \<Longrightarrow> rs_continent c = None"
  by (simp_all add: apply_resolved_def)

definition bare_row :: "string \<Rightarrow> int \<Rightarrow> qsoRow" where
  "bare_row callsign t =
     \<lparr>qr_Callsign = callsign, qr_Band = ''20m'', qr_Mode = ''CW'', qr_Submode = None, qr_FrequencyHz = None, qr_FreqRxHz = None,
      qr_DatetimeOn = t, qr_DatetimeOff = None, qr_TimeSource = ''assumed_utc'', qr_Texts = [(''country'', Some ''  '')], qr_Ints = [(''cq_zone'', Some 7)],
      qr_Floats = [], qr_Dates = [], qr_PotaRefs = [], qr_MyPotaRefs = [], qr_Extra = [], qr_Source = ''adif_import'', qr_SourceID = None\<rparr>"

definition sample_tables :: dxccTables where
  "sample_tables =
     \<lparr>dt_entities = [\<lparr>de_entity_id = 291, de_name = ''UNITED STATES'', de_lotw_entity_name = None, de_cq_zone = Some 5, de_itu_zone = Some 8,
        de_continent = Some ''NA''\<rparr>],
      dt_records = [], dt_prefixes = Some [(''K'', 291), (''KH6'', 110)]\<rparr>"

text \<open>
  C26. The enrichment after an import fills gaps and nothing else.  Every contact keeps its place, its identifier and every column but \<open>dxcc\<close>,
  \<open>country\<close>, \<open>cq_zone\<close>, \<open>itu_zone\<close> and \<open>continent\<close>; of these a value that is there is kept (a text without the blanks around it); only live contacts
  of the logbook change; and a column that is still empty in such a contact has no value in any of the tables.
\<close>

theorem enrichment_only_fills:
  assumes "EnrichLogbook ok1 ok2 tabs logbookID qsos = Some (qsos', n)"
  shows "list_all2 (\<lambda>q q'. q' = q\<lparr>st_row := st_row q'\<rparr>
     \<and> only_fills {''dxcc'', ''cq_zone'', ''itu_zone''} {''country'', ''continent''} (st_row q) (st_row q')
     \<and> (if st_logbook q = logbookID \<and> \<not> st_deleted q then
          (get_col (qr_Ints (st_row q')) ''dxcc'' = None \<longrightarrow> rs_dxcc (resolve tabs (st_row q)) = None)
          \<and> (get_col (qr_Texts (st_row q')) ''country'' = None \<longrightarrow> rs_country (resolve tabs (st_row q)) = None)
          \<and> (get_col (qr_Ints (st_row q')) ''cq_zone'' = None \<longrightarrow> rs_cq_zone (resolve tabs (st_row q)) = None)
          \<and> (get_col (qr_Ints (st_row q')) ''itu_zone'' = None \<longrightarrow> rs_itu_zone (resolve tabs (st_row q)) = None)
          \<and> (get_col (qr_Texts (st_row q')) ''continent'' = None \<longrightarrow> rs_continent (resolve tabs (st_row q)) = None)
        else q' = q)) qsos qsos'"
proof -
  have "qsos' = fst (enrichmentUpdateSQL tabs (\<lambda>q. st_logbook q = logbookID \<and> \<not> st_deleted q) qsos)"
    using assms by (auto simp: EnrichLogbook_def runEnrichmentExec_def split: if_splits option.splits)
  then show ?thesis
    unfolding enrichmentUpdateSQL_def
    by (auto simp: list_all2_update_rows Let_def only_fills_refl apply_resolved_only_fills
        dest: apply_resolved_complete needs_enrichment_complete)
qed


lemmas enrich_eval = EnrichLogbook_def runEnrichmentExec_def enrichmentUpdateSQL_def update_rows_def resolve_def needs_enrichment_def
  apply_resolved_def fill_int_def fill_text_def filled_def BTRIM_def TrimLeftFunc_def TrimRightFunc_def is_space32_def get_col_def
  entity_by_id_def entity_by_country_def record_by_callsign_def entity_by_prefix_def map_filter_simps HasPrefix_def ToUpper_def
  bare_row_def sample_tables_def char_class_defs

text \<open>A contact with K1ABC gets its entity from the prefix; the zone it has is kept.\<close>

theorem enrichment_only_fills_witness:
  "\<exists>qsos' n. EnrichLogbook True True sample_tables 1 [\<lparr>st_id = 1, st_logbook = 1, st_deleted = False, st_row = bare_row ''K1ABC'' 0\<rparr>] = Some (qsos', n)
     \<and> get_col (qr_Ints (st_row (qsos' ! 0))) ''dxcc'' = Some 291
     \<and> only_fills {''dxcc'', ''cq_zone'', ''itu_zone''} {''country'', ''continent''} (bare_row ''K1ABC'' 0) (st_row (qsos' ! 0))"
proof -
  let ?q = "\<lparr>st_id = 1, st_logbook = 1, st_deleted = False, st_row = bare_row ''K1ABC'' 0\<rparr>"
  obtain qsos' n where e: "EnrichLogbook True True sample_tables 1 [?q] = Some (qsos', n)"
    and d: "get_col (qr_Ints (st_row (qsos' ! 0))) ''dxcc'' = Some 291"
    by (simp add: enrich_eval Let_def eval_char)
  from enrichment_only_fills [OF e] have "only_fills {''dxcc'', ''cq_zone'', ''itu_zone''} {''country'', ''continent''} (bare_row ''K1ABC'' 0) (st_row (qsos' ! 0))"
    by (auto simp: list_all2_Cons1)
  with e d show ?thesis by blast
qed

end
