(* ===== verification/Enrich_Job.thy ===== *)
theory Enrich_Job
  imports Qso_Enrich "HOL-Library.Multiset"
begin

text \<open>
  \<open>api/internal/jobs/qso_enrichment_backfill.go\<close>: the job that fills the contacts of a user from the callsign database, in batches, and logs each
  change.  \<open>ok n\<close> says whether the statement with number \<open>n\<close> of the run succeeds.  The job reads and writes outside a transaction.
\<close>

section \<open>The job\<close>

definition qsoEnrichmentBatchSize :: int where "qsoEnrichmentBatchSize = 500"

record auditEntry =
  au_user_id :: int
  au_record_id :: int
  au_texts :: "(string \<times> string option \<times> string option) list"
  au_ints :: "(string \<times> int option \<times> int option) list"

text \<open>\<open>changedString\<close> and \<open>changedInt16\<close>; the values that changed, old and new.\<close>

definition changed_opt :: "'a option \<Rightarrow> 'a option \<Rightarrow> bool" where
  "changed_opt oldV newV =
     (if oldV = None \<and> newV = None then False else if oldV = None \<or> newV = None then True else the oldV \<noteq> the newV)"

definition changed_values :: "(string \<times> 'a option \<times> 'a option) list \<Rightarrow> (string \<times> 'a option \<times> 'a option) list" where
  "changed_values vs = filter (\<lambda>(_, oldV, newV). changed_opt oldV newV) vs"

fun insertQSOEnrichmentAudit :: "(nat \<Rightarrow> bool) \<Rightarrow> nat \<Rightarrow> CallsignBackfillChange list \<Rightarrow> auditEntry list \<Rightarrow> auditEntry list \<times> nat \<times> bool" where
  "insertQSOEnrichmentAudit ok n [] audit = (audit, n, True)"
| "insertQSOEnrichmentAudit ok n (c # cs) audit =
     (let texts = changed_values (bc_Texts c); ints = changed_values (bc_Ints c) in
      if texts = [] \<and> ints = [] then insertQSOEnrichmentAudit ok n cs audit
      else if \<not> ok n then (audit, n + 1, False)
      else insertQSOEnrichmentAudit ok (n + 1) cs
        (audit @ [\<lparr>au_user_id = bc_UserID c, au_record_id = bc_QSOID c, au_texts = texts, au_ints = ints\<rparr>]))"

record backfillState =
  bf_qsos :: "storedQSO list"
  bf_audit :: "auditEntry list"
  bf_total :: int
  bf_stmt :: nat

record backfillEnv =
  be_ok :: "nat \<Rightarrow> bool"
  be_tables :: dxccTables
  be_operates :: "int \<Rightarrow> bool"
  be_owner :: "int \<Rightarrow> int"
  be_logbook :: "int option"

text \<open>One round of the loop: \<^const>\<open>Inl\<close> leaves it, with \<^const>\<open>False\<close> for an error.\<close>

definition backfill_step :: "backfillEnv \<Rightarrow> backfillState \<Rightarrow> (backfillState \<times> bool) + backfillState" where
  "backfill_step env s =
     (case EnrichAccessibleBatchFromCallsignRecords (be_ok env (bf_stmt s)) (be_tables env) (be_operates env) (be_owner env) (be_logbook env)
        qsoEnrichmentBatchSize (bf_qsos s) of
        None \<Rightarrow> Inl (s\<lparr>bf_stmt := bf_stmt s + 1\<rparr>, False)
      | Some (qsos', changes) \<Rightarrow>
          if changes = [] then Inl (s\<lparr>bf_qsos := qsos', bf_stmt := bf_stmt s + 1\<rparr>, True)
          else (case insertQSOEnrichmentAudit (be_ok env) (bf_stmt s + 1) changes (bf_audit s) of
             (audit, n, good) \<Rightarrow>
               (let s' = s\<lparr>bf_qsos := qsos', bf_audit := audit, bf_stmt := n\<rparr> in
                if good then Inr (s'\<lparr>bf_total := bf_total s + int (length changes)\<rparr>) else Inl (s', False))))"

partial_function (option) backfill_loop :: "backfillEnv \<Rightarrow> backfillState \<Rightarrow> (backfillState \<times> bool) option" where
  "backfill_loop env s = (case backfill_step env s of Inl r \<Rightarrow> Some r | Inr s' \<Rightarrow> backfill_loop env s')"

text \<open>
  \<open>Work\<close>: the statements 0 and 1 acquire the connection and set the role; the last one marks the awards of the user.  The result is the state,
  whether the awards were marked and whether the job succeeded; not returning is \<^const>\<open>None\<close>.
\<close>

definition QSOEnrichmentBackfillWorker_Work :: "backfillEnv \<Rightarrow> storedQSO list \<Rightarrow> auditEntry list \<Rightarrow> (backfillState \<times> bool \<times> bool) option" where
  "QSOEnrichmentBackfillWorker_Work env qsos audit =
     (let s = \<lparr>bf_qsos = qsos, bf_audit = audit, bf_total = 0, bf_stmt = 2\<rparr> in
      if \<not> be_ok env 0 \<or> \<not> be_ok env 1 then Some (s, False, False)
      else case backfill_loop env s of
        None \<Rightarrow> None
      | Some (s', False) \<Rightarrow> Some (s', False, False)
      | Some (s', True) \<Rightarrow> Some (s', be_ok env (bf_stmt s'), True))"


section \<open>The batches together are one update\<close>

definition backfill_scope :: "backfillEnv \<Rightarrow> storedQSO \<Rightarrow> bool" where
  "backfill_scope env q \<longleftrightarrow>
     \<not> st_deleted q \<and> be_operates env (st_logbook q) \<and> (case be_logbook env of None \<Rightarrow> True | Some l \<Rightarrow> st_logbook q = l)"

definition fillable :: "backfillEnv \<Rightarrow> storedQSO \<Rightarrow> bool" where
  "fillable env q \<longleftrightarrow> backfill_scope env q \<and> needs_callsign_fill (callsign_fill (be_tables env) (st_row q)) (st_row q)"

definition fill_qso :: "backfillEnv \<Rightarrow> storedQSO \<Rightarrow> storedQSO" where
  "fill_qso env q = q\<lparr>st_row := apply_callsign_fill (callsign_fill (be_tables env) (st_row q)) (st_row q)\<rparr>"

lemma fill_qso_simps [simp]:
  "st_id (fill_qso env q) = st_id q" "st_logbook (fill_qso env q) = st_logbook q" "st_deleted (fill_qso env q) = st_deleted q"
  "backfill_scope env (fill_qso env q) = backfill_scope env q"
  by (simp_all add: fill_qso_def backfill_scope_def split: option.split)

lemma qr_Callsign_fill [simp]: "qr_Callsign (fill_int c v r) = qr_Callsign r" "qr_Callsign (fill_text c u r) = qr_Callsign r"
  by (simp_all add: fill_int_def fill_text_def)

lemma callsign_fill_apply [simp]: "callsign_fill tabs (apply_callsign_fill c r) = callsign_fill tabs r"
  by (simp add: callsign_fill_def apply_callsign_fill_def)

lemma callsign_fill_filled:
  "filled (cf_state (callsign_fill tabs r)) = cf_state (callsign_fill tabs r)"
  "filled (cf_country (callsign_fill tabs r)) = cf_country (callsign_fill tabs r)"
  "filled (cf_grid (callsign_fill tabs r)) = cf_grid (callsign_fill tabs r)"
  "filled (cf_name (callsign_fill tabs r)) = cf_name (callsign_fill tabs r)"
  by (auto simp: callsign_fill_def full_name_def Let_def filled_coalesce split: option.split) (simp add: filled_def)+

lemma filled_once:
  "\<not> needs_callsign_fill (callsign_fill tabs r) (apply_callsign_fill (callsign_fill tabs r) r)"
  by (simp add: needs_callsign_fill_def apply_callsign_fill_def filled_coalesce callsign_fill_filled) blast

lemma fill_not_fillable [simp]: "\<not> fillable env (fill_qso env q)"
  using filled_once by (simp add: fillable_def, simp add: fill_qso_def)

text \<open>A change of a candidate is never empty.\<close>

lemma needs_changed:
  assumes "needs_callsign_fill (callsign_fill tabs r) r"
  defines "r' \<equiv> apply_callsign_fill (callsign_fill tabs r) r"
  shows "(\<exists>c\<in>{''state'', ''country'', ''gridsquare'', ''name''}. get_col (qr_Texts r) c \<noteq> get_col (qr_Texts r') c)
     \<or> (\<exists>c\<in>{''cq_zone'', ''itu_zone''}. get_col (qr_Ints r) c \<noteq> get_col (qr_Ints r') c)"
proof (rule ccontr)
  assume "\<not> ?thesis"
  then have t: "\<And>c. c \<in> {''state'', ''country'', ''gridsquare'', ''name''} \<Longrightarrow> get_col (qr_Texts r) c = get_col (qr_Texts r') c"
    and i: "\<And>c. c \<in> {''cq_zone'', ''itu_zone''} \<Longrightarrow> get_col (qr_Ints r) c = get_col (qr_Ints r') c" by auto
  have "needs_callsign_fill (callsign_fill tabs r) r'"
    using assms(1) unfolding needs_callsign_fill_def by (simp add: t i)
  then show False using filled_once r'_def by simp
qed


definition fillable_ids :: "backfillEnv \<Rightarrow> storedQSO list \<Rightarrow> int list" where
  "fillable_ids env qsos = sort (map st_id (filter (fillable env) qsos))"

lemma map_sort_key: "map f (sort_key f xs) = sort (map f xs)"
  by (rule properties_for_sort [symmetric]) simp_all

lemma map_filter_zip_fst:
  "length xs = length ys \<Longrightarrow> map (\<lambda>(x, y). f x) (filter (\<lambda>(x, y). P x) (zip xs ys)) = map f (filter P xs)"
  by (induction xs ys rule: list_induct2) auto

lemma set_drop_distinct: "distinct xs \<Longrightarrow> set (drop k xs) = set xs - set (take k xs)"
  using append_take_drop_id [of k xs] by (metis Diff_cancel Int_Un_distrib2 Un_Diff distinct_append Diff_triv set_append sup_bot_left inf_commute)

lemma fillable_ids_props:
  assumes "distinct (map st_id qsos)"
  shows "sorted (fillable_ids env qsos)" "distinct (fillable_ids env qsos)"
    "set (fillable_ids env qsos) = st_id ` {q \<in> set qsos. fillable env q}"
    "length (fillable_ids env qsos) = length (filter (fillable env) qsos)"
  using assms by (auto simp: fillable_ids_def distinct_map intro: inj_on_subset)

lemma id_fillable:
  assumes "distinct (map st_id qsos)" "q \<in> set qsos" "st_id q \<in> set (fillable_ids env qsos)"
  shows "fillable env q"
proof -
  obtain q' where "q' \<in> set qsos" "fillable env q'" "st_id q' = st_id q"
    using assms fillable_ids_props(3) [OF assms(1), of env] by auto
  then show ?thesis using assms by (metis distinct_map inj_onD)
qed

lemma take_subset: "x \<in> set (take k xs) \<Longrightarrow> x \<in> set xs"
  using set_take_subset by fastforce

lemma filter_ids:
  assumes "distinct (map st_id qsos)"
  shows "sort (map st_id (filter (\<lambda>q. st_id q \<in> set (take k (fillable_ids env qsos)) \<and> \<not> st_deleted q) qsos)) = take k (fillable_ids env qsos)"
    (is "sort (map st_id (filter ?P qsos)) = ?R")
proof (rule sorted_distinct_set_unique)
  have "\<not> st_deleted q" if "q \<in> set qsos" "st_id q \<in> set ?R" for q
    using id_fillable [OF assms that(1) take_subset [OF that(2)]] by (simp add: fillable_def backfill_scope_def)
  moreover have "i \<in> st_id ` set qsos" if "i \<in> set ?R" for i
    using take_subset [OF that] fillable_ids_props(3) [OF assms] by auto
  ultimately show "set (sort (map st_id (filter ?P qsos))) = set ?R" by force
  show "distinct (sort (map st_id (filter ?P qsos)))" using assms by (auto simp: distinct_map intro: inj_on_subset)
  show "sorted ?R" "distinct ?R" using fillable_ids_props(1,2) [OF assms] by (simp_all add: sorted_wrt_take)
qed simp

definition fill_ids :: "backfillEnv \<Rightarrow> int list \<Rightarrow> storedQSO \<Rightarrow> storedQSO" where
  "fill_ids env ids q = (if st_id q \<in> set ids then fill_qso env q else q)"

lemma ranked_ids_eq: "ranked_ids (be_tables env) (backfill_scope env) k qsos = take k (fillable_ids env qsos)"
  by (simp add: ranked_ids_def fillable_ids_def fillable_def [abs_def])

lemma EnrichBatch_eq:
  fixes env qsos
  defines "ids \<equiv> take 500 (fillable_ids env qsos)"
  assumes dist: "distinct (map st_id qsos)"
  shows "EnrichAccessibleBatchFromCallsignRecords True (be_tables env) (be_operates env) owner (be_logbook env) qsoEnrichmentBatchSize qsos =
    Some (map (fill_ids env ids) qsos,
      map (\<lambda>(old, new). backfill_change owner old new)
        (sort_key (\<lambda>(old, _). st_id old)
          (filter (\<lambda>(old, new). st_id old \<in> set ids \<and> \<not> st_deleted old) (zip qsos (map (fill_ids env ids) qsos)))))"
proof -
  have scope: "(\<lambda>q. \<not> st_deleted q \<and> be_operates env (st_logbook q) \<and> (case be_logbook env of None \<Rightarrow> True | Some l \<Rightarrow> st_logbook q = l)) = backfill_scope env"
    by (simp add: fun_eq_iff backfill_scope_def)
  have ids: "ranked_ids (be_tables env) (backfill_scope env) 500 qsos = ids" by (simp add: ids_def ranked_ids_eq)
  have "fst (callsignEnrichmentSQL (be_tables env) (backfill_scope env) 500 qsos) = map (fill_ids env ids) qsos"
  proof -
    have "\<not> st_deleted q" if "q \<in> set qsos" "st_id q \<in> set ids" for q
      using id_fillable [OF dist that(1) take_subset [OF that(2) [unfolded ids_def]]] by (simp add: fillable_def backfill_scope_def)
    then show ?thesis by (auto simp: callsignEnrichmentSQL_def update_rows_def ids fill_ids_def fill_qso_def)
  qed
  then show ?thesis
    unfolding EnrichAccessibleBatchFromCallsignRecords_def scope by (simp add: qsoEnrichmentBatchSize_def ids Let_def)
qed

lemma audit_ids:
  "\<forall>c\<in>set changes. changed_values (bc_Texts c) \<noteq> [] \<or> changed_values (bc_Ints c) \<noteq> [] \<Longrightarrow>
   \<exists>audit' m. insertQSOEnrichmentAudit (\<lambda>_. True) n changes audit = (audit', m, True)
     \<and> map au_record_id audit' = map au_record_id audit @ map bc_QSOID changes"
proof (induction changes arbitrary: n audit)
  case (Cons c cs)
  let ?e = "\<lparr>au_user_id = bc_UserID c, au_record_id = bc_QSOID c, au_texts = changed_values (bc_Texts c), au_ints = changed_values (bc_Ints c)\<rparr>"
  obtain audit' m where "insertQSOEnrichmentAudit (\<lambda>_. True) (n + 1) cs (audit @ [?e]) = (audit', m, True)"
      "map au_record_id audit' = map au_record_id (audit @ [?e]) @ map bc_QSOID cs"
    using Cons.IH [of "n + 1" "audit @ [?e]"] Cons.prems by auto
  then show ?case using Cons.prems by auto
qed simp

lemma changed_opt_iff: "changed_opt a b \<longleftrightarrow> a \<noteq> b"
  by (cases a; cases b) (simp_all add: changed_opt_def)

lemma changed_values_ne: "(c, u, v) \<in> set vs \<Longrightarrow> u \<noteq> v \<Longrightarrow> changed_values vs \<noteq> []"
  by (auto simp: changed_values_def filter_empty_conv changed_opt_iff)

lemma change_not_empty:
  assumes "fillable env q"
  shows "changed_values (bc_Texts (backfill_change owner q (fill_qso env q))) \<noteq> []
     \<or> changed_values (bc_Ints (backfill_change owner q (fill_qso env q))) \<noteq> []"
proof -
  note ne = changed_values_ne [where vs = "bc_Texts (backfill_change owner q (fill_qso env q))"] changed_values_ne [where vs = "bc_Ints (backfill_change owner q (fill_qso env q))"]
  have "needs_callsign_fill (callsign_fill (be_tables env) (st_row q)) (st_row q)" using assms by (simp add: fillable_def)
  from needs_changed [OF this] show ?thesis
  proof (elim disjE bexE, goal_cases)
    case (1 c)
    then show ?case
      by (intro disjI1 ne(1) [of c "get_col (qr_Texts (st_row q)) c" "get_col (qr_Texts (st_row (fill_qso env q))) c"])
        (force simp: backfill_change_def fill_qso_def)+
  next
    case (2 c)
    then show ?case
      by (intro disjI2 ne(2) [of c "get_col (qr_Ints (st_row q)) c" "get_col (qr_Ints (st_row (fill_qso env q))) c"])
        (force simp: backfill_change_def fill_qso_def)+
  qed
qed

text \<open>One round on the fillable contacts: the first 500 are filled and logged.\<close>

lemma backfill_step_eq:
  fixes env s
  defines "ids \<equiv> take 500 (fillable_ids env (bf_qsos s))"
  assumes dist: "distinct (map st_id (bf_qsos s))" and ok: "be_ok env = (\<lambda>_. True)"
  shows "if ids = [] then backfill_step env s = Inl (s\<lparr>bf_stmt := bf_stmt s + 1\<rparr>, True)
    else \<exists>s'. backfill_step env s = Inr s' \<and> bf_qsos s' = map (fill_ids env ids) (bf_qsos s)
      \<and> map au_record_id (bf_audit s') = map au_record_id (bf_audit s) @ ids \<and> bf_total s' = bf_total s + int (length ids)"
proof -
  let ?z = "sort_key (\<lambda>(old, _). st_id old)
     (filter (\<lambda>(old, new). st_id old \<in> set ids \<and> \<not> st_deleted old) (zip (bf_qsos s) (map (fill_ids env ids) (bf_qsos s))))"
  let ?changes = "map (\<lambda>(old, new). backfill_change (be_owner env) old new) ?z"
  note eq = EnrichBatch_eq [OF dist, of env "be_owner env", folded ids_def]
  have "map bc_QSOID ?changes = map (\<lambda>(old, _). st_id old) ?z" by (simp add: backfill_change_def case_prod_beta)
  also have "\<dots> = ids" by (simp add: map_sort_key map_filter_zip_fst filter_ids [OF dist] ids_def)
  finally have cids: "map bc_QSOID ?changes = ids" .
  have len: "length ?changes = length ids" using arg_cong [OF cids, of length] by (simp only: length_map)
  show ?thesis
  proof (cases "ids = []")
    case True
    have "map (fill_ids env []) (bf_qsos s) = bf_qsos s" by (simp add: fill_ids_def map_idI)
    with eq cids ok True show ?thesis by (simp add: backfill_step_def)
  next
    case False
    have "fillable env q \<and> q' = fill_qso env q" if "(q, q') \<in> set ?z" for q q'
      using that id_fillable [OF dist _ take_subset, of q 500 env] by (auto simp: set_zip ids_def fill_ids_def)
    then have "\<forall>c\<in>set ?changes. changed_values (bc_Texts c) \<noteq> [] \<or> changed_values (bc_Ints c) \<noteq> []"
      using change_not_empty by fastforce
    from audit_ids [OF this] obtain audit' m
      where a: "insertQSOEnrichmentAudit (\<lambda>_. True) (bf_stmt s + 1) ?changes (bf_audit s) = (audit', m, True)"
        "map au_record_id audit' = map au_record_id (bf_audit s) @ ids" unfolding cids by blast
    have "?changes \<noteq> []" using False len by force
    then have "backfill_step env s = Inr (s\<lparr>bf_qsos := map (fill_ids env ids) (bf_qsos s), bf_audit := audit', bf_stmt := m,
        bf_total := bf_total s + int (length ids)\<rparr>)"
      using eq a(1) ok len by (simp add: backfill_step_def Let_def)
    then show ?thesis using False a(2) by simp
  qed
qed


lemma fillable_ids_rest:
  assumes "distinct (map st_id qsos)"
  shows "fillable_ids env (map (fill_ids env (take k (fillable_ids env qsos))) qsos) = drop k (fillable_ids env qsos)"
    (is "fillable_ids env (map ?f qsos) = _")
proof (rule sorted_distinct_set_unique)
  have d: "distinct (map st_id (map ?f qsos))" using assms by (simp add: comp_def fill_ids_def if_distrib cong: if_cong)
  note p = fillable_ids_props [OF assms, of env] and p' = fillable_ids_props [OF d, of env]
  show "sorted (fillable_ids env (map ?f qsos))" "distinct (fillable_ids env (map ?f qsos))" using p' by blast+
  show "sorted (drop k (fillable_ids env qsos))" "distinct (drop k (fillable_ids env qsos))" using p by (simp_all add: sorted_wrt_drop)
  have "{q \<in> ?f ` set qsos. fillable env q} = {q \<in> set qsos. fillable env q \<and> st_id q \<notin> set (take k (fillable_ids env qsos))}"
    by (auto simp: fill_ids_def split: if_splits)
  then show "set (fillable_ids env (map ?f qsos)) = set (drop k (fillable_ids env qsos))"
    using p(3) assms unfolding p'(3) set_drop_distinct [OF p(2)] by auto
qed

lemma fill_ids_then:
  assumes "distinct (map st_id qsos)" "q \<in> set qsos"
  shows "(let q' = fill_ids env (take k (fillable_ids env qsos)) q in if fillable env q' then fill_qso env q' else q') =
    (if fillable env q then fill_qso env q else q)"
  using id_fillable [OF assms take_subset, of k env] by (auto simp: fill_ids_def)

lemma backfill_loop_eq:
  assumes "distinct (map st_id (bf_qsos s))" and ok: "be_ok env = (\<lambda>_. True)"
  shows "\<exists>s'. backfill_loop env s = Some (s', True)
    \<and> bf_qsos s' = map (\<lambda>q. if fillable env q then fill_qso env q else q) (bf_qsos s)
    \<and> map au_record_id (bf_audit s') = map au_record_id (bf_audit s) @ fillable_ids env (bf_qsos s)
    \<and> bf_total s' = bf_total s + int (length (fillable_ids env (bf_qsos s)))"
  using assms(1)
proof (induction "length (fillable_ids env (bf_qsos s))" arbitrary: s rule: less_induct)
  case less
  let ?ids = "take 500 (fillable_ids env (bf_qsos s))"
  note step = backfill_step_eq [OF less.prems ok]
  show ?case
  proof (cases "?ids = []")
    case True
    then have e: "fillable_ids env (bf_qsos s) = []" by simp
    then have "\<not> fillable env q" if "q \<in> set (bf_qsos s)" for q
      using that fillable_ids_props(3) [OF less.prems, of env] by auto
    then have "map (\<lambda>q. if fillable env q then fill_qso env q else q) (bf_qsos s) = bf_qsos s" by (simp add: map_idI)
    with step e show ?thesis by (simp add: backfill_loop.simps [of env s])
  next
    case False
    then obtain s1 where s1: "backfill_step env s = Inr s1" "bf_qsos s1 = map (fill_ids env ?ids) (bf_qsos s)"
        "map au_record_id (bf_audit s1) = map au_record_id (bf_audit s) @ ?ids" "bf_total s1 = bf_total s + int (length ?ids)"
      using step by auto
    have rest: "fillable_ids env (bf_qsos s1) = drop 500 (fillable_ids env (bf_qsos s))"
      unfolding s1(2) by (rule fillable_ids_rest [OF less.prems])
    have "length (fillable_ids env (bf_qsos s1)) < length (fillable_ids env (bf_qsos s))" using False by (simp add: rest)
    moreover have "distinct (map st_id (bf_qsos s1))"
      using less.prems by (simp add: s1(2) comp_def fill_ids_def if_distrib cong: if_cong)
    ultimately obtain s' where s': "backfill_loop env s1 = Some (s', True)"
        "bf_qsos s' = map (\<lambda>q. if fillable env q then fill_qso env q else q) (bf_qsos s1)"
        "map au_record_id (bf_audit s') = map au_record_id (bf_audit s1) @ fillable_ids env (bf_qsos s1)"
        "bf_total s' = bf_total s1 + int (length (fillable_ids env (bf_qsos s1)))"
      using less.hyps by blast
    have "bf_qsos s' = map (\<lambda>q. if fillable env q then fill_qso env q else q) (bf_qsos s)"
      unfolding s'(2) s1(2) using fill_ids_then [OF less.prems, where k = 500 and env = env] by (simp add: Let_def)
    moreover have "map au_record_id (bf_audit s') = map au_record_id (bf_audit s) @ fillable_ids env (bf_qsos s)"
      by (simp add: s'(3) s1(3) rest)
    moreover have "bf_total s' = bf_total s + int (length (fillable_ids env (bf_qsos s)))"
      by (simp add: s'(4) s1(4) rest)
    ultimately show ?thesis using s'(1) s1(1) by (simp add: backfill_loop.simps [of env s])
  qed
qed

text \<open>
  C25. The backfill job ends, and its batches together are one update.  When no statement fails, the job returns for every table of contacts with
  distinct identifiers: each contact of the scope with a gap that the callsign database can fill is filled once, every other contact is as it was, the
  audit log gets one entry for each filled contact, in the order of the identifiers, and no contact with such a gap is left.
\<close>

theorem backfill_completes:
  assumes "distinct (map st_id qsos)" "be_ok env = (\<lambda>_. True)"
  shows "\<exists>s. QSOEnrichmentBackfillWorker_Work env qsos audit = Some (s, True, True)
    \<and> bf_qsos s = map (\<lambda>q. if fillable env q then fill_qso env q else q) qsos
    \<and> map au_record_id (bf_audit s) = map au_record_id audit @ sort (map st_id (filter (fillable env) qsos))
    \<and> bf_total s = int (length (filter (fillable env) qsos))
    \<and> list_all (\<lambda>q. \<not> fillable env q) (bf_qsos s)"
proof -
  let ?s = "\<lparr>bf_qsos = qsos, bf_audit = audit, bf_total = 0, bf_stmt = 2\<rparr>"
  obtain s' where s': "backfill_loop env ?s = Some (s', True)"
      "bf_qsos s' = map (\<lambda>q. if fillable env q then fill_qso env q else q) qsos"
      "map au_record_id (bf_audit s') = map au_record_id audit @ fillable_ids env qsos"
      "bf_total s' = int (length (fillable_ids env qsos))"
    using backfill_loop_eq [of ?s env] assms by auto
  have "QSOEnrichmentBackfillWorker_Work env qsos audit = Some (s', True, True)"
    using s'(1) assms(2) by (simp add: QSOEnrichmentBackfillWorker_Work_def)
  moreover have "list_all (\<lambda>q. \<not> fillable env q) (bf_qsos s')" by (auto simp: s'(2) list_all_iff)
  ultimately show ?thesis using s'(2-4) fillable_ids_props(4) [OF assms(1), of env] by (simp add: fillable_ids_def)
qed

text \<open>Two contacts with W1AW, one with a blank country, and one record of the callsign database.\<close>

definition sample_backfill :: backfillEnv where
  "sample_backfill =
     \<lparr>be_ok = (\<lambda>_. True),
      be_tables = sample_tables\<lparr>dt_records := [\<lparr>cr_id = 1, cr_callsign = ''W1AW'', cr_dxcc_entity_id = Some 291, cr_country = Some ''United States'',
        cr_state_province = Some ''CT'', cr_grid_square = Some ''fn31'', cr_full_name = None, cr_first_name = Some ''Hiram'', cr_last_name = Some ''Maxim'',
        cr_updated_at = None, cr_fetched_at = None\<rparr>]\<rparr>,
      be_operates = (\<lambda>l. l = 1), be_owner = (\<lambda>_. 7), be_logbook = None\<rparr>"

theorem backfill_completes_witness:
  "\<exists>s. QSOEnrichmentBackfillWorker_Work sample_backfill
      [\<lparr>st_id = 5, st_logbook = 1, st_deleted = False, st_row = bare_row ''W1AW'' 0\<rparr>,
       \<lparr>st_id = 3, st_logbook = 2, st_deleted = False, st_row = bare_row ''W1AW'' 0\<rparr>] [] = Some (s, True, True)
    \<and> map au_record_id (bf_audit s) = [5] \<and> get_col (qr_Texts (st_row (bf_qsos s ! 0))) ''name'' = Some ''Hiram Maxim''"
proof -
  let ?a = "\<lparr>st_id = 5, st_logbook = 1, st_deleted = False, st_row = bare_row ''W1AW'' 0\<rparr> :: storedQSO"
  let ?b = "\<lparr>st_id = 3, st_logbook = 2, st_deleted = False, st_row = bare_row ''W1AW'' 0\<rparr> :: storedQSO"
  note ev = sample_backfill_def enrich_eval callsign_fill_def full_name_def needs_callsign_fill_def apply_callsign_fill_def
  have f: "fillable sample_backfill ?a" "\<not> fillable sample_backfill ?b"
    by (simp_all add: fillable_def backfill_scope_def ev eval_char Let_def)
  have n: "get_col (qr_Texts (st_row (fill_qso sample_backfill ?a))) ''name'' = Some ''Hiram Maxim''"
    by (simp add: fill_qso_def ev eval_char Let_def)
  show ?thesis
    using backfill_completes [of "[?a, ?b]" sample_backfill "[]"] f n by (auto simp: sample_backfill_def)
qed

end
