(* ===== verification/Import_Job.thy ===== *)
theory Import_Job
  imports Qso_Enrich
begin

text \<open>
  \<open>api/internal/jobs/adif_import.go\<close>: counting, deduplicating, inserting, and the job as a whole.

  The database is the table of contacts with the next value of its sequence, the table of import
  errors, the import jobs and the notifications.  Every statement counts on \<open>im_clock\<close>; \<open>ok n\<close> says whether the statement with number
  \<open>n\<close> succeeds, and \<open>accepts row\<close> whether a row satisfies the constraints of the table \<open>qsos\<close> (bands, modes and zones that exist).
  A failed statement changes nothing.  The unique index of \<open>qsos\<close> does not concern the rows of an import, whose \<open>source_id\<close> is null.
\<close>

section \<open>The database\<close>

datatype importErr = ErrOpen | ErrHeader Err | ErrCancelled

datatype errDetail =
    ParseFailed Err | MapFailed mapError | Warned importWarning | InsertFailed | RunFailed importErr

record jobError =
  je_job :: int
  je_severity :: string
  je_record :: "int option"
  je_field :: "string option"
  je_code :: string
  je_detail :: errDetail
  je_fragment :: "string option"

record importCounters =
  ct_total :: int
  ct_imported :: int
  ct_duplicate :: int
  ct_skipped :: int
  ct_errors :: int
  ct_warnings :: int

record ImportJob =
  ij_user :: int
  ij_source :: string
  ij_status :: string
  ij_total :: "int option"
  ij_version :: "string option"
  ij_imported :: int
  ij_skipped :: int
  ij_duplicate :: int
  ij_errors :: int
  ij_warnings :: int

datatype notifMessage = Imported string | ImportFailed importErr

record notification =
  nt_user :: int
  nt_type :: string
  nt_title :: string
  nt_message :: notifMessage
  nt_status :: string
  nt_imported :: int
  nt_duplicates :: int
  nt_errors :: int

record importDB =
  im_qsos :: "storedQSO list"
  im_next :: int
  im_errors :: "jobError list"
  im_jobs :: "int \<Rightarrow> ImportJob option"
  im_notifications :: "notification list"
  im_clock :: nat

definition exec_stmt :: "(nat \<Rightarrow> bool) \<Rightarrow> bool \<Rightarrow> (importDB \<Rightarrow> importDB) \<Rightarrow> importDB \<Rightarrow> importDB \<times> bool" where
  "exec_stmt ok valid f d =
     (let good = ok (im_clock d) \<and> valid; d' = d\<lparr>im_clock := im_clock d + 1\<rparr> in (if good then f d' else d', good))"

definition CreateImportJobError :: "(nat \<Rightarrow> bool) \<Rightarrow> jobError \<Rightarrow> importDB \<Rightarrow> importDB" where
  "CreateImportJobError ok e d = fst (exec_stmt ok True (\<lambda>d. d\<lparr>im_errors := im_errors d @ [e]\<rparr>) d)"

definition int32_of :: "int \<Rightarrow> int" where
  "int32_of n = (n + 2147483648) mod 4294967296 - 2147483648"

definition set_counters :: "importCounters \<Rightarrow> ImportJob \<Rightarrow> ImportJob" where
  "set_counters c j =
     j\<lparr>ij_imported := int32_of (ct_imported c), ij_skipped := int32_of (ct_skipped c), ij_duplicate := int32_of (ct_duplicate c),
       ij_errors := int32_of (ct_errors c), ij_warnings := int32_of (ct_warnings c)\<rparr>"

definition update_job :: "int \<Rightarrow> (ImportJob \<Rightarrow> ImportJob) \<Rightarrow> importDB \<Rightarrow> importDB" where
  "update_job i f d = d\<lparr>im_jobs := (im_jobs d)(i := map_option f (im_jobs d i))\<rparr>"

definition UpdateImportJobProgress :: "(nat \<Rightarrow> bool) \<Rightarrow> int \<Rightarrow> importCounters \<Rightarrow> importDB \<Rightarrow> importDB" where
  "UpdateImportJobProgress ok i c d = fst (exec_stmt ok True (update_job i (set_counters c)) d)"

definition CompleteImportJob :: "(nat \<Rightarrow> bool) \<Rightarrow> int \<Rightarrow> string \<Rightarrow> int option \<Rightarrow> importCounters \<Rightarrow> importDB \<Rightarrow> importDB \<times> bool" where
  "CompleteImportJob ok i status tot c d =
     exec_stmt ok True (update_job i (\<lambda>j. set_counters c (j\<lparr>ij_status := status, ij_total := tot\<rparr>))) d"

text \<open>The statement is a query for one row: no row is an error of its own.\<close>

definition StartImportJob :: "(nat \<Rightarrow> bool) \<Rightarrow> int \<Rightarrow> int \<Rightarrow> string option \<Rightarrow> importDB \<Rightarrow> importDB \<times> bool" where
  "StartImportJob ok i total_records version d =
     exec_stmt ok (case im_jobs d i of Some j \<Rightarrow> ij_status j = ''pending'' | None \<Rightarrow> False)
       (update_job i (\<lambda>j. j\<lparr>ij_status := ''processing'', ij_total := Some total_records, ij_version := version\<rparr>)) d"


section \<open>Deduplication\<close>

type_synonym dedupKey = "string \<times> string \<times> string \<times> int"

text \<open>\<open>extract(epoch from t)::bigint\<close> rounds, halves away from zero; \<open>Unix()\<close> rounds down.\<close>

definition epoch_bigint :: "int \<Rightarrow> int" where
  "epoch_bigint t = (if t < 0 then - ((- 2 * t + usec) div (2 * usec)) else (2 * t + usec) div (2 * usec))"

definition stored_key :: "qsoRow \<Rightarrow> dedupKey" where
  "stored_key r = (ToUpper (qr_Callsign r), qr_Band r, qr_Mode r, epoch_bigint (qr_DatetimeOn r))"

definition row_key :: "qsoRow \<Rightarrow> dedupKey" where
  "row_key r = (ToUpper (qr_Callsign r), qr_Band r, qr_Mode r, qr_DatetimeOn r div usec)"

definition minTime :: "qsoRow list \<Rightarrow> int" where
  "minTime batch = fold (\<lambda>r m. if qr_DatetimeOn r < m then qr_DatetimeOn r else m) batch (qr_DatetimeOn (batch ! 0))"

definition maxTime :: "qsoRow list \<Rightarrow> int" where
  "maxTime batch = fold (\<lambda>r m. if m < qr_DatetimeOn r then qr_DatetimeOn r else m) batch (qr_DatetimeOn (batch ! 0))"

definition existing_keys :: "int \<Rightarrow> qsoRow list \<Rightarrow> storedQSO list \<Rightarrow> dedupKey list" where
  "existing_keys logbookID batch qsos =
     map (\<lambda>q. stored_key (st_row q))
       (filter (\<lambda>q. st_logbook q = logbookID \<and> \<not> st_deleted q
          \<and> minTime batch \<le> qr_DatetimeOn (st_row q) \<and> qr_DatetimeOn (st_row q) \<le> maxTime batch) qsos)"

fun dedup_loop :: "dedupKey list \<Rightarrow> qsoRow list \<Rightarrow> qsoRow list \<times> int" where
  "dedup_loop existing [] = ([], 0)"
| "dedup_loop existing (r # rs) =
     (if row_key r \<in> set existing then (case dedup_loop existing rs of (deduped, dupes) \<Rightarrow> (deduped, dupes + 1))
      else (case dedup_loop (row_key r # existing) rs of (deduped, dupes) \<Rightarrow> (r # deduped, dupes)))"

definition deduplicateBatch :: "(nat \<Rightarrow> bool) \<Rightarrow> int \<Rightarrow> qsoRow list \<Rightarrow> importDB \<Rightarrow> importDB \<times> qsoRow list \<times> int" where
  "deduplicateBatch ok logbookID batch d =
     (if batch = [] then (d, [], 0)
      else case exec_stmt ok True id d of
        (d', False) \<Rightarrow> (d', batch, 0)
      | (d', True) \<Rightarrow> (d', dedup_loop (existing_keys logbookID batch (im_qsos d)) batch))"


section \<open>Inserting\<close>

definition add_rows :: "int \<Rightarrow> qsoRow list \<Rightarrow> importDB \<Rightarrow> importDB" where
  "add_rows logbookID rows d =
     d\<lparr>im_qsos := im_qsos d @ map (\<lambda>(i, r). \<lparr>st_id = im_next d + int i, st_logbook = logbookID, st_deleted = False, st_row = r\<rparr>) (enumerate 0 rows),
       im_next := im_next d + int (length rows)\<rparr>"

definition CopyFrom :: "(nat \<Rightarrow> bool) \<Rightarrow> (qsoRow \<Rightarrow> bool) \<Rightarrow> int \<Rightarrow> qsoRow list \<Rightarrow> importDB \<Rightarrow> importDB \<times> bool" where
  "CopyFrom ok accepts logbookID rows d = exec_stmt ok (list_all accepts rows) (add_rows logbookID rows) d"

definition insertSingleQSO :: "(nat \<Rightarrow> bool) \<Rightarrow> (qsoRow \<Rightarrow> bool) \<Rightarrow> int \<Rightarrow> qsoRow \<Rightarrow> importDB \<Rightarrow> importDB \<times> bool" where
  "insertSingleQSO ok accepts logbookID r d = exec_stmt ok (accepts r) (add_rows logbookID [r]) d"

definition insert_failed :: "int \<Rightarrow> qsoRow \<Rightarrow> jobError" where
  "insert_failed importJobID r =
     \<lparr>je_job = importJobID, je_severity = ''error'', je_record = None, je_field = None, je_code = ''INSERT_FAILED'', je_detail = InsertFailed,
      je_fragment = Some (''callsign='' @ qr_Callsign r @ '' band='' @ qr_Band r @ '' mode='' @ qr_Mode r)\<rparr>"

fun insert_rows :: "(nat \<Rightarrow> bool) \<Rightarrow> (qsoRow \<Rightarrow> bool) \<Rightarrow> int \<Rightarrow> int \<Rightarrow> qsoRow list \<Rightarrow> importDB \<Rightarrow> importDB \<times> int \<times> int" where
  "insert_rows ok accepts logbookID importJobID [] d = (d, 0, 0)"
| "insert_rows ok accepts logbookID importJobID (r # rs) d =
     (case insertSingleQSO ok accepts logbookID r d of
        (d1, False) \<Rightarrow>
          (case insert_rows ok accepts logbookID importJobID rs (CreateImportJobError ok (insert_failed importJobID r) d1) of
             (d2, inserted, errs) \<Rightarrow> (d2, inserted, errs + 1))
      | (d1, True) \<Rightarrow>
          (case insert_rows ok accepts logbookID importJobID rs d1 of (d2, inserted, errs) \<Rightarrow> (d2, inserted + 1, errs)))"

text \<open>The counts of inserted rows, duplicates and errors; the source's fourth result, an error, is always nil.\<close>

definition insertQSOBatch :: "(nat \<Rightarrow> bool) \<Rightarrow> (qsoRow \<Rightarrow> bool) \<Rightarrow> int \<Rightarrow> int \<Rightarrow> qsoRow list \<Rightarrow> importDB \<Rightarrow> importDB \<times> int \<times> int \<times> int" where
  "insertQSOBatch ok accepts logbookID importJobID batch d =
     (if batch = [] then (d, 0, 0, 0)
      else case deduplicateBatch ok logbookID batch d of
        (d1, deduped, dupes) \<Rightarrow>
          if deduped = [] then (d1, 0, dupes, 0)
          else (case CopyFrom ok accepts logbookID deduped d1 of
             (d2, True) \<Rightarrow> (d2, int (length deduped), dupes, 0)
           | (d2, False) \<Rightarrow>
               (case insert_rows ok accepts logbookID importJobID deduped d2 of
                  (d3, inserted, errs) \<Rightarrow> (d3, inserted, dupes, errs))))"


section \<open>The loop over the records\<close>

record importArgs =
  ia_ImportJobID :: int
  ia_LogbookID :: int
  ia_UserID :: int

text \<open>What does not change during a run: the decoder, the conversion of frequencies that are not finite, the statements that succeed, the
  constraints, the tables of the enrichment, and the arguments of the job.\<close>

record importEnv =
  ev_decode :: "string \<Rightarrow> string option"
  ev_undef :: int
  ev_ok :: "nat \<Rightarrow> bool"
  ev_accepts :: "qsoRow \<Rightarrow> bool"
  ev_tables :: dxccTables
  ev_args :: importArgs

record importState =
  is_parser :: Parser
  is_counters :: importCounters
  is_batch :: "qsoRow list"
  is_recordNum :: int
  is_db :: importDB

definition batchSize :: nat where "batchSize = 500"

definition progressFlushInterval :: int where "progressFlushInterval = 200"

definition flushBatch :: "importEnv \<Rightarrow> importState \<Rightarrow> importState" where
  "flushBatch env s =
     (if is_batch s = [] then s
      else case insertQSOBatch (ev_ok env) (ev_accepts env) (ia_LogbookID (ev_args env)) (ia_ImportJobID (ev_args env)) (is_batch s) (is_db s) of
        (d, imported, dupes, errs) \<Rightarrow>
          (let c = (is_counters s)\<lparr>ct_imported := ct_imported (is_counters s) + imported, ct_duplicate := ct_duplicate (is_counters s) + dupes,
                                   ct_errors := ct_errors (is_counters s) + errs\<rparr>;
               d' = (if ct_total c mod progressFlushInterval = 0 then UpdateImportJobProgress (ev_ok env) (ia_ImportJobID (ev_args env)) c d else d) in
           s\<lparr>is_counters := c, is_batch := [], is_db := d'\<rparr>))"

definition record_error :: "importEnv \<Rightarrow> string \<Rightarrow> string option \<Rightarrow> string \<Rightarrow> errDetail \<Rightarrow> importState \<Rightarrow> importState" where
  "record_error env severity field code detail s =
     s\<lparr>is_db := CreateImportJobError (ev_ok env)
         \<lparr>je_job = ia_ImportJobID (ev_args env), je_severity = severity, je_record = Some (int32_of (is_recordNum s)), je_field = field,
          je_code = code, je_detail = detail, je_fragment = None\<rparr> (is_db s)\<rparr>"

definition record_warning :: "importEnv \<Rightarrow> importWarning \<Rightarrow> importState \<Rightarrow> importState" where
  "record_warning env w s =
     record_error env ''warning'' (Some (warning_Field w)) (warning_Code w) (Warned w)
       (s\<lparr>is_counters := (is_counters s)\<lparr>ct_warnings := ct_warnings (is_counters s) + 1\<rparr>\<rparr>)"

definition import_record :: "importEnv \<Rightarrow> Record \<Rightarrow> importState \<Rightarrow> importState" where
  "import_record env rec s0 =
     (let s = s0\<lparr>is_recordNum := is_recordNum s0 + 1, is_counters := (is_counters s0)\<lparr>ct_total := ct_total (is_counters s0) + 1\<rparr>\<rparr> in
      case mapADIFRecord (ev_undef env) rec of
        Inl e \<Rightarrow>
          record_error env ''error'' (Some (mapError_Field e)) (mapError_Code e) (MapFailed e)
            (s\<lparr>is_counters := (is_counters s)\<lparr>ct_errors := ct_errors (is_counters s) + 1, ct_skipped := ct_skipped (is_counters s) + 1\<rparr>\<rparr>)
      | Inr (row, warnings) \<Rightarrow>
          (let s1 = fold (record_warning env) warnings s; s2 = s1\<lparr>is_batch := is_batch s1 @ [row]\<rparr> in
           if batchSize \<le> length (is_batch s2) then flushBatch env s2 else s2))"

text \<open>One round: \<^const>\<open>Inl\<close> leaves the loop, with the error that \<open>importRecords\<close> returns or at the end of the file.\<close>

definition import_step :: "importEnv \<Rightarrow> importState \<Rightarrow> (importState \<times> importErr option) + importState" where
  "import_step env s =
     (let s1 = s\<lparr>is_parser := snd (ctx_Err (is_parser s))\<rparr> in
      if fst (ctx_Err (is_parser s)) then Inl (s1, Some ErrCancelled)
      else case Parser_Next (ev_decode env) (is_parser s1) of
        (p, Inr rec) \<Rightarrow> Inr (import_record env rec (s1\<lparr>is_parser := p\<rparr>))
      | (p, Inl e) \<Rightarrow>
          if e = EOF then Inl (flushBatch env (s1\<lparr>is_parser := p\<rparr>), None)
          else Inr (record_error env ''error'' None ''PARSE_ERROR'' (ParseFailed e)
            (s1\<lparr>is_parser := p, is_counters := (is_counters s1)\<lparr>ct_errors := ct_errors (is_counters s1) + 1\<rparr>\<rparr>)))"

partial_function (option) import_loop :: "importEnv \<Rightarrow> importState \<Rightarrow> (importState \<times> importErr option) option" where
  "import_loop env s = (case import_step env s of Inl r \<Rightarrow> Some r | Inr s' \<Rightarrow> import_loop env s')"

definition zero_counters :: importCounters where
  "zero_counters = \<lparr>ct_total = 0, ct_imported = 0, ct_duplicate = 0, ct_skipped = 0, ct_errors = 0, ct_warnings = 0\<rparr>"

text \<open>The file is what the reader delivers, with the error it ends with, or \<^const>\<open>None\<close> when it cannot be opened.  Not returning is \<^const>\<open>None\<close>.
  The result holds the counters, the error, the context and the database.\<close>

type_synonym adif_file = "(bytes \<times> Err) option"

definition importRecords :: "importEnv \<Rightarrow> adif_file \<Rightarrow> nat option \<Rightarrow> importDB \<Rightarrow> (importCounters \<times> importErr option \<times> nat option \<times> importDB) option" where
  "importRecords env src ctx d =
     (case src of
        None \<Rightarrow> Some (zero_counters, Some ErrOpen, ctx, d)
      | Some (r, rerr) \<Rightarrow>
          (case Parser_Header (ev_decode env) (NewParser r rerr ctx) of
             (p, Inl e) \<Rightarrow> Some (zero_counters, Some (ErrHeader e), p_ctx p, d)
           | (p, Inr _) \<Rightarrow>
               (case import_loop env \<lparr>is_parser = p, is_counters = zero_counters, is_batch = [], is_recordNum = 0, is_db = d\<rparr> of
                  None \<Rightarrow> None
                | Some (s, e) \<Rightarrow> Some (is_counters s, e, p_ctx (is_parser s), is_db s))))"

partial_function (option) count_loop :: "(string \<Rightarrow> string option) \<Rightarrow> Parser \<Rightarrow> int \<Rightarrow> (Parser \<times> int) option" where
  "count_loop decode p count =
     (case Parser_Next decode p of
        (p', Inr _) \<Rightarrow> count_loop decode p' (count + 1)
      | (p', Inl e) \<Rightarrow> if e = EOF then Some (p', count) else count_loop decode p' count)"

text \<open>The error of \<open>countADIFRecords\<close> is only logged; the count is 0 and the version empty with it.\<close>

definition countADIFRecords :: "(string \<Rightarrow> string option) \<Rightarrow> adif_file \<Rightarrow> nat option \<Rightarrow> (int \<times> string \<times> bool \<times> nat option) option" where
  "countADIFRecords decode src ctx =
     (case src of
        None \<Rightarrow> Some (0, [], False, ctx)
      | Some (r, rerr) \<Rightarrow>
          (case Parser_Header decode (NewParser r rerr ctx) of
             (p, Inl e) \<Rightarrow> Some (0, [], False, p_ctx p)
           | (p, Inr hdr) \<Rightarrow>
               (case count_loop decode p 0 of
                  None \<Rightarrow> None
                | Some (p', count) \<Rightarrow> Some (count, (case hdr of None \<Rightarrow> [] | Some h \<Rightarrow> Header_ADIFVersion h), True, p_ctx p'))))"


section \<open>The job\<close>

fun comma_groups :: "string \<Rightarrow> string" where
  "comma_groups [] = []"
| "comma_groups (c # s) = CHR '','' # take 3 (c # s) @ comma_groups (drop 3 (c # s))"

definition formatCountWithCommas :: "int \<Rightarrow> string" where
  "formatCountWithCommas n =
     (let s = show_int n; k = (if length s mod 3 = 0 then 3 else length s mod 3) in
      if n < 1000 then s else take k s @ comma_groups (drop k s))"

definition createImportNotification ::
    "(nat \<Rightarrow> bool) \<Rightarrow> ImportJob \<Rightarrow> importCounters \<Rightarrow> importErr option \<Rightarrow> importDB \<Rightarrow> importDB" where
  "createImportNotification ok job c err d =
     fst (exec_stmt ok True (\<lambda>d. d\<lparr>im_notifications := im_notifications d @
       [\<lparr>nt_user = ij_user job, nt_type = (case err of None \<Rightarrow> ''import_complete'' | Some _ \<Rightarrow> ''import_failed''),
         nt_title = (if EqualFold (ij_source job) ''qrz'' then ''QRZ Import'' else ''ADIF Import''),
         nt_message = (case err of
            None \<Rightarrow> Imported (''Imported '' @ formatCountWithCommas (ct_imported c) @ '' QSOs ('' @ formatCountWithCommas (ct_duplicate c) @ '' duplicates)'')
          | Some e \<Rightarrow> ImportFailed e),
         nt_status = (case err of None \<Rightarrow> ''completed'' | Some _ \<Rightarrow> ''failed''),
         nt_imported = ct_imported c, nt_duplicates = ct_duplicate c, nt_errors = ct_errors c\<rparr>]\<rparr>) d)"

text \<open>The statement of \<open>EnrichLogbook\<close>, and its fallback; a failure is only logged.\<close>

definition enrich_imported :: "importEnv \<Rightarrow> importDB \<Rightarrow> importDB" where
  "enrich_imported env d0 =
     (let (d1, ok1) = exec_stmt (ev_ok env) True id d0;
          (d2, ok2) = (if ok1 \<and> dt_prefixes (ev_tables env) = None then exec_stmt (ev_ok env) True id d1 else (d1, True)) in
      case EnrichLogbook ok1 ok2 (ev_tables env) (ia_LogbookID (ev_args env)) (im_qsos d2) of
        None \<Rightarrow> d2
      | Some (qsos, _) \<Rightarrow> d2\<lparr>im_qsos := qsos\<rparr>)"

text \<open>After \<open>importRecords\<close>: the final counters, the status and the notification.\<close>

definition finish_import :: "importEnv \<Rightarrow> ImportJob \<Rightarrow> importCounters \<Rightarrow> importErr option \<Rightarrow> importDB \<Rightarrow> importDB \<times> bool" where
  "finish_import env job c err d0 =
     (let d1 = (case err of
             None \<Rightarrow> enrich_imported env d0
           | Some e \<Rightarrow> CreateImportJobError (ev_ok env)
               \<lparr>je_job = ia_ImportJobID (ev_args env), je_severity = ''error'', je_record = None, je_field = None, je_code = ''IMPORT_FAILED'',
                je_detail = RunFailed e, je_fragment = None\<rparr> d0);
          status = (case err of None \<Rightarrow> ''complete'' | Some _ \<Rightarrow> ''error'') in
      CompleteImportJob (ev_ok env) (ia_ImportJobID (ev_args env)) status (Some (int32_of (ct_total c))) c d1)"

datatype workErr = AcquireErr | RoleErr | LoadErr | StartErr | RunErr importErr

text \<open>
  \<open>Work\<close>.  The first statements acquire the connection, set the role and load the job.  The deferred removal of the temporary file runs on every
  path, so that the file is gone afterwards; the warming of the callsign cache runs in the background and is left out.
\<close>

definition ADIFImportWorker_Work :: "importEnv \<Rightarrow> adif_file \<Rightarrow> nat option \<Rightarrow> importDB \<Rightarrow> (importDB \<times> adif_file \<times> workErr option) option" where
  "ADIFImportWorker_Work env src ctx d0 =
     (let ok = ev_ok env; i = ia_ImportJobID (ev_args env) in
      case exec_stmt ok True id d0 of
        (d1, False) \<Rightarrow> Some (d1, None, Some AcquireErr)
      | (d1, True) \<Rightarrow>
      case exec_stmt ok True id d1 of
        (d2, False) \<Rightarrow> Some (d2, None, Some RoleErr)
      | (d2, True) \<Rightarrow>
      case exec_stmt ok (im_jobs d2 i \<noteq> None) id d2 of
        (d3, False) \<Rightarrow> Some (d3, None, Some LoadErr)
      | (d3, True) \<Rightarrow>
      (let job = the (im_jobs d3 i) in
      if ij_status job \<noteq> ''pending'' then Some (d3, None, None)
      else case countADIFRecords (ev_decode env) src ctx of
        None \<Rightarrow> None
      | Some (total_records, version, _, ctx1) \<Rightarrow>
      case StartImportJob ok i (int32_of total_records) (if version \<noteq> [] then Some version else None) d3 of
        (d4, False) \<Rightarrow> Some (d4, None, Some StartErr)
      | (d4, True) \<Rightarrow>
      case importRecords env src ctx1 d4 of
        None \<Rightarrow> None
      | Some (c, err, _, d5) \<Rightarrow>
          Some (createImportNotification ok job c err (fst (finish_import env job c err d5)), None, map_option RunErr err)))"

text \<open>A pending job and an empty table.\<close>

definition sample_env :: importEnv where
  "sample_env = \<lparr>ev_decode = Some, ev_undef = 0, ev_ok = (\<lambda>_. True), ev_accepts = (\<lambda>_. True),
     ev_tables = \<lparr>dt_entities = [], dt_records = [], dt_prefixes = None\<rparr>,
     ev_args = \<lparr>ia_ImportJobID = 1, ia_LogbookID = 1, ia_UserID = 7\<rparr>\<rparr>"

definition sample_job :: ImportJob where
  "sample_job = \<lparr>ij_user = 7, ij_source = ''adif'', ij_status = ''pending'', ij_total = None, ij_version = None, ij_imported = 0, ij_skipped = 0,
     ij_duplicate = 0, ij_errors = 0, ij_warnings = 0\<rparr>"

definition sample_db :: importDB where
  "sample_db = \<lparr>im_qsos = [], im_next = 1, im_errors = [], im_jobs = (\<lambda>i. if i = 1 then Some sample_job else None), im_notifications = [], im_clock = 0\<rparr>"

end
