(* ===== verification/Import_Inv.thy ===== *)
theory Import_Inv
  imports Import_Job
begin

text \<open>
  What an import does to the contacts: every record is accounted for, no duplicate is made, and importing a file a second time adds nothing.
\<close>

section \<open>One batch\<close>

lemma exec_stmt_cases:
  "exec_stmt ok valid f d = (d', b) \<Longrightarrow>
   (b \<and> valid \<and> ok (im_clock d) \<and> d' = f (d\<lparr>im_clock := im_clock d + 1\<rparr>)) \<or>
   (\<not> b \<and> \<not> (valid \<and> ok (im_clock d)) \<and> d' = d\<lparr>im_clock := im_clock d + 1\<rparr>)"
  by (auto simp: exec_stmt_def Let_def split: if_splits)

lemma CreateImportJobError_simps [simp]:
  "im_qsos (CreateImportJobError ok e d) = im_qsos d" "im_next (CreateImportJobError ok e d) = im_next d"
  "im_jobs (CreateImportJobError ok e d) = im_jobs d"
  by (simp_all add: CreateImportJobError_def exec_stmt_def Let_def)

lemma CreateImportJobError_ok: "ok = (\<lambda>_. True) \<Longrightarrow> im_errors (CreateImportJobError ok e d) = im_errors d @ [e]"
  by (simp add: CreateImportJobError_def exec_stmt_def)

lemma UpdateImportJobProgress_simps [simp]:
  "im_qsos (UpdateImportJobProgress ok i c d) = im_qsos d" "im_errors (UpdateImportJobProgress ok i c d) = im_errors d"
  by (simp_all add: UpdateImportJobProgress_def exec_stmt_def update_job_def Let_def)

text \<open>The rows that a statement adds are live rows of the logbook.\<close>

definition added :: "int \<Rightarrow> qsoRow list \<Rightarrow> storedQSO list \<Rightarrow> storedQSO list \<Rightarrow> bool" where
  "added lb rows qsos qsos' \<longleftrightarrow>
     (\<exists>new. qsos' = qsos @ new \<and> map st_row new = rows \<and> list_all (\<lambda>q. st_logbook q = lb \<and> \<not> st_deleted q) new)"

lemma added_refl [simp]: "added lb [] qsos qsos"
  by (simp add: added_def)

lemma added_trans: "added lb rs qsos qsos1 \<Longrightarrow> added lb rs' qsos1 qsos2 \<Longrightarrow> added lb (rs @ rs') qsos qsos2"
  unfolding added_def by (elim exE) (rule_tac x = "new @ newa" in exI, simp)

lemma added_set: "added lb rs qsos qsos' \<Longrightarrow> set qsos \<subseteq> set qsos'"
  by (auto simp: added_def)

lemma added_Nil: "added lb [] qsos qsos' \<longleftrightarrow> qsos' = qsos"
  by (auto simp: added_def)

lemma add_rows_added [simp]: "added lb rows (im_qsos d) (im_qsos (add_rows lb rows d))"
  unfolding added_def add_rows_def
  by (rule exI [of _ "map (\<lambda>(i, r). \<lparr>st_id = im_next d + int i, st_logbook = lb, st_deleted = False, st_row = r\<rparr>) (enumerate 0 rows)"])
     (simp add: list_all_iff split_def comp_def)

lemma add_rows_simps [simp]: "im_errors (add_rows lb rows d) = im_errors d"
  by (simp add: add_rows_def)

lemma add_rows_clock: "added lb rows (im_qsos d) (im_qsos (add_rows lb rows (d\<lparr>im_clock := n\<rparr>)))"
  using add_rows_added [of lb rows "d\<lparr>im_clock := n\<rparr>"] by simp

lemma dedup_loop_props:
  "dedup_loop existing rows = (deduped, dupes) \<Longrightarrow>
   int (length deduped) + dupes = int (length rows) \<and> set deduped \<subseteq> set rows \<and> distinct (map row_key deduped)
   \<and> set existing \<inter> row_key ` set deduped = {} \<and> row_key ` set rows \<subseteq> set existing \<union> row_key ` set deduped
   \<and> dupes \<ge> 0 \<and> (deduped = [] \<longleftrightarrow> row_key ` set rows \<subseteq> set existing)"
proof (induction existing rows arbitrary: deduped dupes rule: dedup_loop.induct)
  case (2 existing r rs)
  show ?case
  proof (cases "row_key r \<in> set existing")
    case True
    with "2.prems" obtain k where "dedup_loop existing rs = (deduped, k)" "dupes = k + 1" by (auto split: prod.splits)
    with "2.IH"(1) [OF True] True show ?thesis by auto
  next
    case False
    with "2.prems" obtain ds where ds: "dedup_loop (row_key r # existing) rs = (ds, dupes)" "deduped = r # ds" by (auto split: prod.splits)
    from "2.IH"(2) [OF False ds(1)] False show ?thesis unfolding ds(2) by (intro conjI) auto
  qed
qed auto

text \<open>Row by row, the rows that are inserted are some of the batch.\<close>

lemma insert_rows_props:
  "insert_rows ok accepts lb i rows d = (d', inserted, errs) \<Longrightarrow>
   \<exists>ins. added lb ins (im_qsos d) (im_qsos d') \<and> set ins \<subseteq> set rows \<and> inserted = int (length ins) \<and> inserted + errs = int (length rows) \<and> 0 \<le> errs
     \<and> (ok = (\<lambda>_. True) \<longrightarrow> ins = filter accepts rows
          \<and> im_errors d' = im_errors d @ map (insert_failed i) (filter (\<lambda>r. \<not> accepts r) rows))"
proof (induction rows arbitrary: d d' inserted errs)
  case (Cons r rs)
  obtain d1 b where d1: "insertSingleQSO ok accepts lb r d = (d1, b)" by force
  show ?case
  proof (cases b)
    case True
    with d1 Cons.prems obtain inserted1 where r: "insert_rows ok accepts lb i rs d1 = (d', inserted1, errs)" "inserted = inserted1 + 1"
      by (auto split: prod.splits)
    from d1 True have a: "added lb [r] (im_qsos d) (im_qsos d1)" "im_errors d1 = im_errors d" "accepts r"
      by (auto simp: insertSingleQSO_def add_rows_clock dest!: exec_stmt_cases)
    from Cons.IH [OF r(1)] obtain ins where "added lb ins (im_qsos d1) (im_qsos d') \<and> set ins \<subseteq> set rs \<and> inserted1 = int (length ins)
        \<and> inserted1 + errs = int (length rs) \<and> 0 \<le> errs \<and> (ok = (\<lambda>_. True) \<longrightarrow> ins = filter accepts rs
          \<and> im_errors d' = im_errors d1 @ map (insert_failed i) (filter (\<lambda>r. \<not> accepts r) rs))" by blast
    with a added_trans [OF a(1)] r(2) show ?thesis by (intro exI [of _ "r # ins"]) auto
  next
    case False
    with d1 Cons.prems obtain errs1
      where r: "insert_rows ok accepts lb i rs (CreateImportJobError ok (insert_failed i r) d1) = (d', inserted, errs1)" "errs = errs1 + 1"
      by (auto split: prod.splits)
    from d1 False have a: "im_qsos d1 = im_qsos d" "im_errors d1 = im_errors d" "ok = (\<lambda>_. True) \<longrightarrow> \<not> accepts r"
      by (auto simp: insertSingleQSO_def dest!: exec_stmt_cases)
    from Cons.IH [OF r(1)] obtain ins where "added lb ins (im_qsos d) (im_qsos d') \<and> set ins \<subseteq> set rs \<and> inserted = int (length ins)
        \<and> inserted + errs1 = int (length rs) \<and> 0 \<le> errs1 \<and> (ok = (\<lambda>_. True) \<longrightarrow> ins = filter accepts rs
          \<and> im_errors d' = im_errors d @ insert_failed i r # map (insert_failed i) (filter (\<lambda>r. \<not> accepts r) rs))"
      using a by (auto simp: CreateImportJobError_ok)
    with a r(2) show ?thesis by (intro exI [of _ ins]) auto
  qed
qed simp


text \<open>What a batch does: the rows that are added are among its rows, and every row is inserted, a duplicate or an error.\<close>

lemma deduplicateBatch_props:
  assumes "deduplicateBatch ok lb batch d = (d', deduped, dupes)" "batch \<noteq> []"
  shows "im_qsos d' = im_qsos d" "im_errors d' = im_errors d" "set deduped \<subseteq> set batch" "int (length deduped) + dupes = int (length batch)" "0 \<le> dupes"
    "ok = (\<lambda>_. True) \<Longrightarrow> dedup_loop (existing_keys lb batch (im_qsos d)) batch = (deduped, dupes)"
proof -
  have "im_qsos d' = im_qsos d \<and> im_errors d' = im_errors d \<and> set deduped \<subseteq> set batch \<and> int (length deduped) + dupes = int (length batch)
     \<and> 0 \<le> dupes \<and> (ok = (\<lambda>_. True) \<longrightarrow> dedup_loop (existing_keys lb batch (im_qsos d)) batch = (deduped, dupes))"
    using assms by (auto simp: deduplicateBatch_def split: prod.splits bool.splits dest!: exec_stmt_cases dest: dedup_loop_props)
  then show "im_qsos d' = im_qsos d" "im_errors d' = im_errors d" "set deduped \<subseteq> set batch" "int (length deduped) + dupes = int (length batch)" "0 \<le> dupes"
    "ok = (\<lambda>_. True) \<Longrightarrow> dedup_loop (existing_keys lb batch (im_qsos d)) batch = (deduped, dupes)" by blast+
qed

lemma insertQSOBatch_props:
  assumes "insertQSOBatch ok accepts lb i batch d = (d', inserted, dupes, errs)"
  shows "\<exists>ins. added lb ins (im_qsos d) (im_qsos d') \<and> set ins \<subseteq> set batch \<and> inserted = int (length ins)
     \<and> inserted + dupes + errs = int (length batch) \<and> 0 \<le> dupes \<and> 0 \<le> errs
     \<and> (ok = (\<lambda>_. True) \<longrightarrow>
          ins = filter accepts (fst (dedup_loop (existing_keys lb batch (im_qsos d)) batch))
          \<and> (\<exists>bad. im_errors d' = im_errors d @ map (insert_failed i) bad \<and> errs = int (length bad)))"
proof (cases "batch = []")
  case True
  with assms show ?thesis by (auto simp: insertQSOBatch_def intro!: exI [of _ "[]"])
next
  case False
  obtain d1 deduped dupes1 where dd: "deduplicateBatch ok lb batch d = (d1, deduped, dupes1)" by (metis prod_cases3)
  note p = deduplicateBatch_props [OF dd False]
  show ?thesis
  proof (cases "deduped = []")
    case True
    with assms False dd p show ?thesis by (auto simp: insertQSOBatch_def intro!: exI [of _ "[]"])
  next
    case ne: False
    obtain d2 b where c: "CopyFrom ok accepts lb deduped d1 = (d2, b)" by force
    show ?thesis
    proof (cases b)
      case True
      then have "added lb deduped (im_qsos d1) (im_qsos d2)" "im_errors d2 = im_errors d1" "list_all accepts deduped"
        using c by (auto simp: CopyFrom_def add_rows_clock dest!: exec_stmt_cases)
      with True c assms False ne dd p show ?thesis
        by (intro exI [of _ deduped]) (auto simp: insertQSOBatch_def list_all_iff intro!: exI [of _ "[]"])
    next
      case False
      then have "im_qsos d2 = im_qsos d1" "im_errors d2 = im_errors d1" using c by (auto simp: CopyFrom_def dest!: exec_stmt_cases)
      moreover have r: "insert_rows ok accepts lb i deduped d2 = (d', inserted, errs)" "dupes = dupes1"
        using assms \<open>batch \<noteq> []\<close> ne dd c False by (auto simp: insertQSOBatch_def split: prod.splits)
      moreover note insert_rows_props [OF r(1)]
      ultimately obtain ins where ins: "added lb ins (im_qsos d) (im_qsos d')" "set ins \<subseteq> set deduped" "inserted = int (length ins)"
          "inserted + errs = int (length deduped)" "0 \<le> errs" "ok = (\<lambda>_. True) \<longrightarrow> ins = filter accepts deduped
           \<and> im_errors d' = im_errors d @ map (insert_failed i) (filter (\<lambda>r. \<not> accepts r) deduped)" using p by auto
      have "set ins \<subseteq> set batch" using ins(2) p(3) by blast
      moreover have "length (filter (\<lambda>r. \<not> accepts r) deduped) = nat errs" if "ok = (\<lambda>_. True)"
        using that ins(3-6) sum_length_filter_compl [of accepts deduped] by simp
      ultimately show ?thesis using ins p r(2) by (intro exI [of _ ins]) (auto intro!: exI [of _ "filter (\<lambda>r. \<not> accepts r) deduped"])
    qed
  qed
qed


section \<open>Every record is accounted for\<close>

abbreviation (input) env_lb :: "importEnv \<Rightarrow> int" where "env_lb env \<equiv> ia_LogbookID (ev_args env)"

definition whole :: "qsoRow \<Rightarrow> bool" where
  "whole r \<longleftrightarrow> usec dvd qr_DatetimeOn r"

definition entries :: "string \<Rightarrow> jobError list \<Rightarrow> int" where
  "entries severity es = int (length (filter (\<lambda>e. je_severity e = severity) es))"

lemma entries_simps [simp]:
  "entries sev [] = 0" "entries sev (es @ es') = entries sev es + entries sev es'"
  "entries sev [e] = (if je_severity e = sev then 1 else 0)"
  by (simp_all add: entries_def)

lemma entries_insert_failed [simp]:
  "entries ''error'' (map (insert_failed i) rows) = int (length rows)" "entries ''warning'' (map (insert_failed i) rows) = 0"
  by (simp_all add: entries_def insert_failed_def filter_map comp_def)

definition logged :: "importEnv \<Rightarrow> importDB \<Rightarrow> importState \<Rightarrow> bool" where
  "logged env d0 s \<longleftrightarrow>
     (ev_ok env = (\<lambda>_. True) \<longrightarrow>
       (\<exists>es. im_errors (is_db s) = im_errors d0 @ es \<and> entries ''error'' es = ct_errors (is_counters s)
          \<and> entries ''warning'' es = ct_warnings (is_counters s)))"

definition balanced :: "importState \<Rightarrow> bool" where
  "balanced s \<longleftrightarrow>
     (\<exists>refused unreadable. 0 \<le> refused \<and> 0 \<le> unreadable
        \<and> ct_total (is_counters s) = ct_imported (is_counters s) + ct_duplicate (is_counters s) + ct_skipped (is_counters s) + refused + int (length (is_batch s))
        \<and> ct_errors (is_counters s) = ct_skipped (is_counters s) + refused + unreadable)"

definition grown :: "importEnv \<Rightarrow> importDB \<Rightarrow> importState \<Rightarrow> bool" where
  "grown env d0 s \<longleftrightarrow>
     (\<exists>rows. added (env_lb env) rows (im_qsos d0) (im_qsos (is_db s)) \<and> int (length rows) = ct_imported (is_counters s))
     \<and> list_all whole (is_batch s)"

definition accounted :: "importEnv \<Rightarrow> importDB \<Rightarrow> importState \<Rightarrow> bool" where
  "accounted env d0 s \<longleftrightarrow> grown env d0 s \<and> balanced s \<and> logged env d0 s"

lemma flushBatch_eq:
  assumes "is_batch s \<noteq> []"
    "insertQSOBatch (ev_ok env) (ev_accepts env) (env_lb env) (ia_ImportJobID (ev_args env)) (is_batch s) (is_db s) = (d, imported, dupes, errs)"
  shows "is_batch (flushBatch env s) = []" "is_parser (flushBatch env s) = is_parser s" "is_recordNum (flushBatch env s) = is_recordNum s"
    "is_counters (flushBatch env s) = (is_counters s)\<lparr>ct_imported := ct_imported (is_counters s) + imported,
       ct_duplicate := ct_duplicate (is_counters s) + dupes, ct_errors := ct_errors (is_counters s) + errs\<rparr>"
    "im_qsos (is_db (flushBatch env s)) = im_qsos d" "im_errors (is_db (flushBatch env s)) = im_errors d"
  using assms by (simp_all add: flushBatch_def Let_def)

lemma flushBatch_accounted:
  assumes "accounted env d0 s" shows "accounted env d0 (flushBatch env s)" "is_batch (flushBatch env s) = []"
proof -
  have "accounted env d0 (flushBatch env s) \<and> is_batch (flushBatch env s) = []"
  proof (cases "is_batch s = []")
    case True
    then show ?thesis using assms by (simp add: flushBatch_def)
  next
    case False
    obtain d imported dupes errs
      where b: "insertQSOBatch (ev_ok env) (ev_accepts env) (env_lb env) (ia_ImportJobID (ev_args env)) (is_batch s) (is_db s) = (d, imported, dupes, errs)"
      by (metis prod_cases4)
    note eq = flushBatch_eq [OF False b]
    obtain ins where ins: "added (env_lb env) ins (im_qsos (is_db s)) (im_qsos d)" "imported = int (length ins)"
        "imported + dupes + errs = int (length (is_batch s))" "0 \<le> errs"
        "ev_ok env = (\<lambda>_. True) \<longrightarrow> (\<exists>bad. im_errors d = im_errors (is_db s) @ map (insert_failed (ia_ImportJobID (ev_args env))) bad \<and> errs = int (length bad))"
      using insertQSOBatch_props [OF b] by blast
    have "grown env d0 (flushBatch env s)"
    proof -
      obtain rows where r: "added (env_lb env) rows (im_qsos d0) (im_qsos (is_db s))" "int (length rows) = ct_imported (is_counters s)"
        using assms by (auto simp: accounted_def grown_def)
      from added_trans [OF r(1) ins(1)] show ?thesis
        unfolding grown_def using r(2) ins(2) by (intro conjI exI [of _ "rows @ ins"]) (simp_all add: eq)
    qed
    moreover have "balanced (flushBatch env s)"
    proof -
      obtain refused unreadable where "0 \<le> refused" "0 \<le> unreadable"
          "ct_total (is_counters s) = ct_imported (is_counters s) + ct_duplicate (is_counters s) + ct_skipped (is_counters s) + refused + int (length (is_batch s))"
          "ct_errors (is_counters s) = ct_skipped (is_counters s) + refused + unreadable"
        using assms by (auto simp: accounted_def balanced_def)
      then show ?thesis unfolding balanced_def using ins by (intro exI [of _ "refused + errs"] exI [of _ unreadable]) (simp add: eq)
    qed
    moreover have "logged env d0 (flushBatch env s)"
      unfolding logged_def
    proof
      assume ok: "ev_ok env = (\<lambda>_. True)"
      then obtain es bad where "im_errors (is_db s) = im_errors d0 @ es" "entries ''error'' es = ct_errors (is_counters s)"
          "entries ''warning'' es = ct_warnings (is_counters s)"
          "im_errors d = im_errors (is_db s) @ map (insert_failed (ia_ImportJobID (ev_args env))) bad" "errs = int (length bad)"
        using assms ins(5) by (auto simp: accounted_def logged_def)
      then show "\<exists>es. im_errors (is_db (flushBatch env s)) = im_errors d0 @ es \<and> entries ''error'' es = ct_errors (is_counters (flushBatch env s))
          \<and> entries ''warning'' es = ct_warnings (is_counters (flushBatch env s))"
        by (intro exI [of _ "es @ map (insert_failed (ia_ImportJobID (ev_args env))) bad"]) (simp add: eq)
    qed
    ultimately show ?thesis using eq by (simp add: accounted_def)
  qed
  then show "accounted env d0 (flushBatch env s)" "is_batch (flushBatch env s) = []" by blast+
qed

lemma record_error_simps [simp]:
  "is_batch (record_error env sev f code det s) = is_batch s" "is_parser (record_error env sev f code det s) = is_parser s"
  "is_recordNum (record_error env sev f code det s) = is_recordNum s" "is_counters (record_error env sev f code det s) = is_counters s"
  "im_qsos (is_db (record_error env sev f code det s)) = im_qsos (is_db s)"
  by (simp_all add: record_error_def)

lemma logged_error:
  assumes "logged env d0 s" "ct_errors c = ct_errors (is_counters s) + 1" "ct_warnings c = ct_warnings (is_counters s)"
    "is_db s' = is_db s" "is_counters s' = c"
  shows "logged env d0 (record_error env ''error'' f code det s')"
  using assms unfolding logged_def record_error_def by (fastforce simp: CreateImportJobError_ok)

lemma logged_warning:
  assumes "logged env d0 s"
  shows "logged env d0 (record_warning env w s)"
  using assms unfolding logged_def record_warning_def record_error_def by (fastforce simp: CreateImportJobError_ok)

lemma parseADIFDateTime_whole: "parseADIFDateTime d t = Inr x \<Longrightarrow> usec dvd x"
  by (auto simp: parseADIFDateTime_def time_Date_UTC_def Let_def split: if_splits option.splits prod.splits)

lemma mapADIFRecord_whole: "mapADIFRecord undef rec = Inr (row, ws) \<Longrightarrow> whole row"
  by (auto simp: mapADIFRecord_def whole_def Let_def split: if_splits sum.splits option.splits prod.splits dest: parseADIFDateTime_whole)

lemma warnings_frame:
  fixes env ws s
  defines "s' \<equiv> fold (record_warning env) ws s"
  shows "is_batch s' = is_batch s" "is_parser s' = is_parser s" "is_recordNum s' = is_recordNum s" "im_qsos (is_db s') = im_qsos (is_db s)"
    "ct_total (is_counters s') = ct_total (is_counters s)" "ct_imported (is_counters s') = ct_imported (is_counters s)"
    "ct_duplicate (is_counters s') = ct_duplicate (is_counters s)" "ct_skipped (is_counters s') = ct_skipped (is_counters s)"
    "ct_errors (is_counters s') = ct_errors (is_counters s)"
  unfolding s'_def by (induction ws arbitrary: s) (simp_all add: record_warning_def)

lemma warnings_logged: "logged env d0 s \<Longrightarrow> logged env d0 (fold (record_warning env) ws s)"
  by (induction ws arbitrary: s) (simp_all add: logged_warning)

lemma import_record_accounted:
  assumes "accounted env d0 s"
  shows "accounted env d0 (import_record env rec s)"
proof (cases "mapADIFRecord (ev_undef env) rec")
  case (Inl e)
  let ?c = "(is_counters s)\<lparr>ct_total := ct_total (is_counters s) + 1, ct_errors := ct_errors (is_counters s) + 1, ct_skipped := ct_skipped (is_counters s) + 1\<rparr>"
  let ?s = "s\<lparr>is_recordNum := is_recordNum s + 1, is_counters := ?c\<rparr>"
  have eq: "import_record env rec s = record_error env ''error'' (Some (mapError_Field e)) (mapError_Code e) (MapFailed e) ?s"
    using Inl by (simp add: import_record_def Let_def)
  have "logged env d0 (record_error env ''error'' (Some (mapError_Field e)) (mapError_Code e) (MapFailed e) ?s)"
    by (rule logged_error [of env d0 s ?c]) (use assms in \<open>simp_all add: accounted_def\<close>)
  then show ?thesis
    using assms unfolding eq accounted_def by (auto simp: grown_def balanced_def)
next
  case (Inr r)
  obtain row ws where r: "r = (row, ws)" by force
  let ?s = "s\<lparr>is_recordNum := is_recordNum s + 1, is_counters := (is_counters s)\<lparr>ct_total := ct_total (is_counters s) + 1\<rparr>\<rparr>"
  let ?s1 = "fold (record_warning env) ws ?s"
  let ?s2 = "?s1\<lparr>is_batch := is_batch ?s1 @ [row]\<rparr>"
  have "logged env d0 ?s" using assms by (simp add: accounted_def logged_def)
  then have "logged env d0 ?s2" using warnings_logged [of env d0 ?s ws] by (simp add: logged_def)
  then have "accounted env d0 ?s2"
    using assms mapADIFRecord_whole [of "ev_undef env" rec row ws] Inr r
    by (auto simp: accounted_def grown_def balanced_def warnings_frame)
  moreover have "import_record env rec s = (if batchSize \<le> length (is_batch ?s2) then flushBatch env ?s2 else ?s2)"
    using Inr r by (simp add: import_record_def Let_def)
  ultimately show ?thesis using flushBatch_accounted(1) by simp
qed

lemma accounted_parser: "accounted env d0 (s\<lparr>is_parser := p\<rparr>) = accounted env d0 s"
  by (simp add: accounted_def grown_def balanced_def logged_def)

lemma import_step_Inr:
  assumes "accounted env d0 s" "import_step env s = Inr s'"
  shows "accounted env d0 s'"
proof -
  have "accounted env d0 (record_error env ''error'' None ''PARSE_ERROR'' (ParseFailed e)
      (s\<lparr>is_parser := p, is_counters := (is_counters s)\<lparr>ct_errors := ct_errors (is_counters s) + 1\<rparr>\<rparr>))" (is "accounted env d0 (record_error _ _ _ _ _ ?s)") for e p
  proof -
    have "logged env d0 (record_error env ''error'' None ''PARSE_ERROR'' (ParseFailed e) ?s)"
      by (rule logged_error [of env d0 s "is_counters ?s"]) (use assms in \<open>simp_all add: accounted_def\<close>)
    moreover obtain refused unreadable where "0 \<le> refused" "0 \<le> unreadable"
          "ct_total (is_counters s) = ct_imported (is_counters s) + ct_duplicate (is_counters s) + ct_skipped (is_counters s) + refused + int (length (is_batch s))"
          "ct_errors (is_counters s) = ct_skipped (is_counters s) + refused + unreadable"
        using assms by (auto simp: accounted_def balanced_def)
    then have "balanced (record_error env ''error'' None ''PARSE_ERROR'' (ParseFailed e) ?s)"
      unfolding balanced_def by (intro exI [of _ refused] exI [of _ "unreadable + 1"]) simp
    ultimately show ?thesis using assms by (simp add: accounted_def grown_def)
  qed
  moreover have "accounted env d0 (import_record env rec (s\<lparr>is_parser := p\<rparr>))" for rec p
    using import_record_accounted assms(1) accounted_parser by blast
  ultimately show ?thesis using assms(2) by (auto simp: import_step_def Let_def split: if_splits prod.splits sum.splits)
qed

lemma import_step_Inl:
  assumes "accounted env d0 s" "import_step env s = Inl (s', e)"
  shows "accounted env d0 s'" "e = None \<Longrightarrow> is_batch s' = []"
proof -
  have "accounted env d0 (s\<lparr>is_parser := p\<rparr>)" for p using assms(1) by (simp add: accounted_parser)
  moreover from this have "is_batch (flushBatch env (s\<lparr>is_parser := p\<rparr>)) = []" for p using flushBatch_accounted(2) by blast
  ultimately have "accounted env d0 s' \<and> (e = None \<longrightarrow> is_batch s' = [])"
    using assms(2) flushBatch_accounted(1) by (auto simp: import_step_def Let_def split: if_splits prod.splits sum.splits)
  then show "accounted env d0 s'" "e = None \<Longrightarrow> is_batch s' = []" by blast+
qed

text \<open>Rule induction on a run that returns.\<close>

lemma import_loop_induct [consumes 1, case_names stop step]:
  assumes "import_loop env s = Some r"
    and "\<And>s r. import_step env s = Inl r \<Longrightarrow> P s r"
    and "\<And>s s' r. import_step env s = Inr s' \<Longrightarrow> import_loop env s' = Some r \<Longrightarrow> P s' r \<Longrightarrow> P s r"
  shows "P s r"
proof -
  have "import_loop e s = Some r \<and> (e = env \<longrightarrow> P s r)" if "import_loop e s = Some r" for e
  proof (rule import_loop.raw_induct [where P = "\<lambda>e s r. import_loop e s = Some r \<and> (e = env \<longrightarrow> P s r)", OF _ that])
    fix loop e s r
    assume "\<And>e s r. loop e s = Some r \<Longrightarrow> import_loop e s = Some r \<and> (e = env \<longrightarrow> P s r)"
      and "(case import_step e s of Inl r \<Rightarrow> Some r | Inr s' \<Rightarrow> loop e s') = Some r"
    then show "import_loop e s = Some r \<and> (e = env \<longrightarrow> P s r)"
      using assms(2,3) by (cases r; cases "import_step e s") (auto simp: import_loop.simps [of e s])
  qed
  then show ?thesis using assms(1) by blast
qed

lemma import_loop_accounted:
  assumes "import_loop env s = Some (s', e)" "accounted env d0 s"
  shows "accounted env d0 s'" "e = None \<Longrightarrow> is_batch s' = []"
proof -
  have "accounted env d0 s \<longrightarrow> accounted env d0 (fst (s', e)) \<and> (snd (s', e) = None \<longrightarrow> is_batch (fst (s', e)) = [])"
    using assms(1)
  proof (induction rule: import_loop_induct)
    case (stop s r)
    then show ?case using import_step_Inl [of env d0 s "fst r" "snd r"] by (cases r) simp
  next
    case (step s s' r)
    then show ?case using import_step_Inr by blast
  qed
  with assms(2) show "accounted env d0 s'" "e = None \<Longrightarrow> is_batch s' = []" by simp_all
qed

section \<open>No duplicates\<close>

text \<open>The live contacts of a logbook whose time is a whole second, by their keys.\<close>

definition live_rows :: "int \<Rightarrow> storedQSO list \<Rightarrow> qsoRow list" where
  "live_rows lb qsos = map st_row (filter (\<lambda>q. st_logbook q = lb \<and> \<not> st_deleted q \<and> whole (st_row q)) qsos)"

lemma live_rows_added:
  assumes "added lb rows qsos qsos'" "list_all whole rows"
  shows "live_rows lb qsos' = live_rows lb qsos @ rows"
proof -
  obtain new where n: "qsos' = qsos @ new" "map st_row new = rows" "\<forall>q\<in>set new. st_logbook q = lb \<and> \<not> st_deleted q"
    using assms(1) by (auto simp: added_def list_all_iff)
  moreover have "\<forall>q\<in>set new. whole (st_row q)" using assms(2) n(2) by (auto simp: list_all_iff)
  ultimately have "filter (\<lambda>q. st_logbook q = lb \<and> \<not> st_deleted q \<and> whole (st_row q)) new = new" by (simp add: filter_id_conv)
  then show ?thesis using n(1,2) by (simp add: live_rows_def)
qed

lemma epoch_whole: "usec dvd t \<Longrightarrow> epoch_bigint t = t div usec"
  by (auto simp: epoch_bigint_def elim!: dvdE)

lemma whole_keys: "whole r \<Longrightarrow> stored_key r = row_key r"
  by (simp add: whole_def stored_key_def row_key_def epoch_whole)

lemma fold_min: "fold (\<lambda>r m. if qr_DatetimeOn r < m then qr_DatetimeOn r else m) rs m \<le> m"
    "r \<in> set rs \<Longrightarrow> fold (\<lambda>r m. if qr_DatetimeOn r < m then qr_DatetimeOn r else m) rs m \<le> qr_DatetimeOn r"
proof -
  show le: "fold (\<lambda>r m. if qr_DatetimeOn r < m then qr_DatetimeOn r else m) rs m \<le> m" for rs m
    by (induction rs arbitrary: m) (auto intro: order_trans [OF _ less_imp_le])
  show "r \<in> set rs \<Longrightarrow> fold (\<lambda>r m. if qr_DatetimeOn r < m then qr_DatetimeOn r else m) rs m \<le> qr_DatetimeOn r"
    by (induction rs arbitrary: m) (auto intro: order_trans [OF le])
qed

lemma fold_max: "m \<le> fold (\<lambda>r m. if m < qr_DatetimeOn r then qr_DatetimeOn r else m) rs m"
    "r \<in> set rs \<Longrightarrow> qr_DatetimeOn r \<le> fold (\<lambda>r m. if m < qr_DatetimeOn r then qr_DatetimeOn r else m) rs m"
proof -
  show ge: "m \<le> fold (\<lambda>r m. if m < qr_DatetimeOn r then qr_DatetimeOn r else m) rs m" for rs m
    by (induction rs arbitrary: m) (auto intro: order_trans [OF less_imp_le])
  show "r \<in> set rs \<Longrightarrow> qr_DatetimeOn r \<le> fold (\<lambda>r m. if m < qr_DatetimeOn r then qr_DatetimeOn r else m) rs m"
    by (induction rs arbitrary: m) (auto intro: order_trans [OF _ ge])
qed

lemma batch_times: "r \<in> set batch \<Longrightarrow> minTime batch \<le> qr_DatetimeOn r \<and> qr_DatetimeOn r \<le> maxTime batch"
  by (simp add: minTime_def maxTime_def fold_min fold_max)

lemma row_key_time: "whole r \<Longrightarrow> whole r' \<Longrightarrow> row_key r = row_key r' \<Longrightarrow> qr_DatetimeOn r = qr_DatetimeOn r'"
  by (auto simp: whole_def row_key_def elim!: dvdE)

text \<open>A live contact with the key of a row of the batch is among the existing keys.\<close>

lemma existing_keys_whole:
  assumes "q \<in> set qsos" "st_logbook q = lb" "\<not> st_deleted q" "whole (st_row q)" "r \<in> set batch" "whole r" "row_key (st_row q) = row_key r"
  shows "row_key r \<in> set (existing_keys lb batch qsos)"
proof -
  have "qr_DatetimeOn (st_row q) = qr_DatetimeOn r" using assms by (intro row_key_time) simp_all
  with batch_times [OF assms(5)] assms show ?thesis
    by (auto simp: existing_keys_def whole_keys intro!: rev_image_eqI [of q])
qed

definition no_duplicates :: "int \<Rightarrow> storedQSO list \<Rightarrow> bool" where
  "no_duplicates lb qsos \<longleftrightarrow> distinct (map row_key (live_rows lb qsos))"

lemma insertQSOBatch_no_duplicates:
  assumes "insertQSOBatch (\<lambda>_. True) accepts lb i batch d = (d', inserted, dupes, errs)" "list_all whole batch" "no_duplicates lb (im_qsos d)"
  shows "no_duplicates lb (im_qsos d')"
proof -
  obtain deduped k where dd: "dedup_loop (existing_keys lb batch (im_qsos d)) batch = (deduped, k)" by force
  note p = dedup_loop_props [OF dd]
  obtain ins where ins: "added lb ins (im_qsos d) (im_qsos d')" "set ins \<subseteq> set batch" "ins = filter accepts deduped"
    using insertQSOBatch_props [OF assms(1)] dd by auto
  have "list_all whole ins" using assms(2) ins(2) by (auto simp: list_all_iff)
  note live = live_rows_added [OF ins(1) this]
  have "row_key r \<notin> row_key ` set (live_rows lb (im_qsos d))" if "r \<in> set ins" for r
  proof
    assume "row_key r \<in> row_key ` set (live_rows lb (im_qsos d))"
    then obtain q where "q \<in> set (im_qsos d)" "st_logbook q = lb" "\<not> st_deleted q" "whole (st_row q)" "row_key (st_row q) = row_key r"
      by (auto simp: live_rows_def)
    moreover have "r \<in> set batch" "whole r" using that ins(2) assms(2) by (auto simp: list_all_iff)
    ultimately have "row_key r \<in> set (existing_keys lb batch (im_qsos d))" by (intro existing_keys_whole)
    then show False using p that ins(3) by auto
  qed
  then have "row_key ` set (live_rows lb (im_qsos d)) \<inter> row_key ` set ins = {}" by (intro Int_emptyI) (erule imageE, blast)
  moreover have "distinct (map row_key ins)" using p ins(3) by (simp add: distinct_map_filter)
  ultimately show ?thesis using assms(3) unfolding no_duplicates_def live by simp
qed

lemma flushBatch_no_duplicates:
  assumes "ev_ok env = (\<lambda>_. True)" "list_all whole (is_batch s)" "no_duplicates (env_lb env) (im_qsos (is_db s))"
  shows "no_duplicates (env_lb env) (im_qsos (is_db (flushBatch env s)))"
proof (cases "is_batch s = []")
  case True
  then show ?thesis using assms by (simp add: flushBatch_def)
next
  case False
  obtain d imported dupes errs
    where b: "insertQSOBatch (ev_ok env) (ev_accepts env) (env_lb env) (ia_ImportJobID (ev_args env)) (is_batch s) (is_db s) = (d, imported, dupes, errs)"
    by (metis prod_cases4)
  show ?thesis
    using insertQSOBatch_no_duplicates [OF b [unfolded assms(1)] assms(2,3)] by (simp add: flushBatch_eq [OF False b])
qed

definition clean :: "importEnv \<Rightarrow> importState \<Rightarrow> bool" where
  "clean env s \<longleftrightarrow> no_duplicates (env_lb env) (im_qsos (is_db s)) \<and> list_all whole (is_batch s)"

lemma flushBatch_clean:
  assumes "ev_ok env = (\<lambda>_. True)" "clean env s"
  shows "clean env (flushBatch env s)"
proof -
  have "is_batch (flushBatch env s) = []"
    by (simp add: flushBatch_def Let_def split: prod.split)
  then show ?thesis using flushBatch_no_duplicates [OF assms(1)] assms(2) by (simp add: clean_def)
qed

lemma import_record_clean:
  assumes "ev_ok env = (\<lambda>_. True)" "clean env s"
  shows "clean env (import_record env rec s)"
proof (cases "mapADIFRecord (ev_undef env) rec")
  case (Inl e)
  then show ?thesis using assms(2) by (simp add: import_record_def clean_def Let_def)
next
  case (Inr r)
  obtain row ws where r: "r = (row, ws)" by force
  let ?s = "s\<lparr>is_recordNum := is_recordNum s + 1, is_counters := (is_counters s)\<lparr>ct_total := ct_total (is_counters s) + 1\<rparr>\<rparr>"
  let ?s1 = "fold (record_warning env) ws ?s"
  let ?s2 = "?s1\<lparr>is_batch := is_batch ?s1 @ [row]\<rparr>"
  have "clean env ?s2" using assms(2) mapADIFRecord_whole [of "ev_undef env" rec row ws] Inr r by (simp add: clean_def warnings_frame)
  moreover have "import_record env rec s = (if batchSize \<le> length (is_batch ?s2) then flushBatch env ?s2 else ?s2)"
    using Inr r by (simp add: import_record_def Let_def)
  ultimately show ?thesis using flushBatch_clean [OF assms(1)] by simp
qed

lemma import_loop_clean:
  assumes "import_loop env s = Some r" "ev_ok env = (\<lambda>_. True)"
  shows "clean env s \<longrightarrow> clean env (fst r)"
  using assms(1)
proof (induction rule: import_loop_induct)
  case (stop s r)
  show ?case
  proof
    assume "clean env s"
    then have "clean env (s\<lparr>is_parser := p\<rparr>)" for p by (simp add: clean_def)
    with stop flushBatch_clean [OF assms(2)] show "clean env (fst r)"
      by (auto simp: import_step_def Let_def split: if_splits prod.splits sum.splits)
  qed
next
  case (step s s' r)
  have "clean env s \<longrightarrow> clean env s'"
  proof
    assume "clean env s"
    then have "clean env (s\<lparr>is_parser := p\<rparr>)" "clean env (record_error env sev f code det (s\<lparr>is_parser := p, is_counters := c\<rparr>))" for p sev f code det c
      by (simp_all add: clean_def)
    with step(1) import_record_clean [OF assms(2)] show "clean env s'"
      by (auto simp: import_step_def Let_def split: if_splits prod.splits sum.splits)
  qed
  with step.IH show ?case by blast
qed

end
