(* ===== verification/Import_Again.thy ===== *)
theory Import_Again
  imports Import_Inv
begin

text \<open>
  Importing a file again: the run goes the same way as the first one, and every row of it is a duplicate.
\<close>

section \<open>A batch that is there already\<close>

definition same_contact :: "qsoRow \<Rightarrow> qsoRow \<Rightarrow> bool" where
  "same_contact r r' \<longleftrightarrow> qr_Callsign r' = qr_Callsign r \<and> qr_Band r' = qr_Band r \<and> qr_Mode r' = qr_Mode r \<and> qr_DatetimeOn r' = qr_DatetimeOn r"

text \<open>Every contact is still there, with its callsign, band, mode and time.\<close>

definition keeps :: "storedQSO list \<Rightarrow> storedQSO list \<Rightarrow> bool" where
  "keeps qsos qsos' \<longleftrightarrow>
     (\<forall>q\<in>set qsos. \<exists>q'\<in>set qsos'. st_logbook q' = st_logbook q \<and> st_deleted q' = st_deleted q \<and> same_contact (st_row q) (st_row q'))"

lemma keeps_subset: "set qsos \<subseteq> set qsos' \<Longrightarrow> keeps qsos qsos'"
  by (auto simp: keeps_def same_contact_def)

lemma keeps_trans: "keeps a b \<Longrightarrow> keeps b c \<Longrightarrow> keeps a c"
  unfolding keeps_def same_contact_def by metis

lemma keeps_list_all2:
  assumes "list_all2 (\<lambda>q q'. q' = q\<lparr>st_row := st_row q'\<rparr> \<and> same_contact (st_row q) (st_row q')) qsos qsos'"
  shows "keeps qsos qsos'"
  unfolding keeps_def
proof
  fix q assume "q \<in> set qsos"
  then obtain i where i: "i < length qsos" "qsos ! i = q" by (auto simp: in_set_conv_nth)
  define q' where "q' = qsos' ! i"
  have q': "q' \<in> set qsos'" "q' = q\<lparr>st_row := st_row q'\<rparr>" "same_contact (st_row q) (st_row q')"
    using list_all2_nthD [OF assms i(1)] list_all2_lengthD [OF assms] i by (simp_all add: q'_def)
  from arg_cong [OF q'(2), of st_logbook] arg_cong [OF q'(2), of st_deleted] q'(1,3)
  show "\<exists>q'\<in>set qsos'. st_logbook q' = st_logbook q \<and> st_deleted q' = st_deleted q \<and> same_contact (st_row q) (st_row q')" by auto
qed

lemma existing_keys_keeps:
  assumes "keeps qsos qsos'"
  shows "set (existing_keys lb batch qsos) \<subseteq> set (existing_keys lb batch qsos')"
proof
  fix k assume "k \<in> set (existing_keys lb batch qsos)"
  then obtain q where q: "q \<in> set qsos" "st_logbook q = lb" "\<not> st_deleted q" "minTime batch \<le> qr_DatetimeOn (st_row q)"
      "qr_DatetimeOn (st_row q) \<le> maxTime batch" "k = stored_key (st_row q)"
    by (auto simp: existing_keys_def)
  then obtain q' where "q' \<in> set qsos'" "st_logbook q' = lb" "\<not> st_deleted q'" "same_contact (st_row q) (st_row q')"
    using assms by (metis keeps_def)
  then show "k \<in> set (existing_keys lb batch qsos')"
    using q by (auto simp: existing_keys_def same_contact_def stored_key_def intro!: rev_image_eqI [of q'])
qed

definition covered :: "int \<Rightarrow> qsoRow list \<Rightarrow> storedQSO list \<Rightarrow> bool" where
  "covered lb batch qsos \<longleftrightarrow> row_key ` set batch \<subseteq> set (existing_keys lb batch qsos)"

lemma covered_keeps: "covered lb batch qsos \<Longrightarrow> keeps qsos qsos' \<Longrightarrow> covered lb batch qsos'"
  using existing_keys_keeps unfolding covered_def by blast

lemma insertQSOBatch_covers:
  assumes "insertQSOBatch (\<lambda>_. True) (\<lambda>_. True) lb i batch d = (d', inserted, dupes, errs)" "list_all whole batch"
  shows "covered lb batch (im_qsos d')"
proof -
  obtain deduped k where dd: "dedup_loop (existing_keys lb batch (im_qsos d)) batch = (deduped, k)" by force
  note p = dedup_loop_props [OF dd]
  have a: "added lb deduped (im_qsos d) (im_qsos d')" using insertQSOBatch_props [OF assms(1)] dd by auto
  have "row_key r \<in> set (existing_keys lb batch (im_qsos d'))" if r: "r \<in> set deduped" for r
  proof -
    obtain q where "q \<in> set (im_qsos d')" "st_logbook q = lb" "\<not> st_deleted q" "st_row q = r"
      using a r by (fastforce simp: added_def list_all_iff)
    moreover have "r \<in> set batch" "whole r" using that p assms(2) by (auto simp: list_all_iff)
    ultimately show ?thesis using existing_keys_whole [of q "im_qsos d'" lb r batch] by simp
  qed
  then have "row_key ` set deduped \<subseteq> set (existing_keys lb batch (im_qsos d'))" by (intro image_subsetI)
  moreover have "row_key ` set batch \<subseteq> set (existing_keys lb batch (im_qsos d)) \<union> row_key ` set deduped" using p by (elim conjE)
  ultimately show ?thesis
    using existing_keys_keeps [OF keeps_subset [OF added_set [OF a]], of lb batch] unfolding covered_def by (meson Un_least order.trans)
qed

lemma insertQSOBatch_covered:
  assumes "covered lb batch (im_qsos d)" "insertQSOBatch (\<lambda>_. True) accepts lb i batch d = (d', inserted, dupes, errs)"
  shows "im_qsos d' = im_qsos d" "inserted = 0"
proof -
  obtain deduped k where dd: "dedup_loop (existing_keys lb batch (im_qsos d)) batch = (deduped, k)" by force
  have "deduped = []" using dedup_loop_props [OF dd] assms(1) by (simp add: covered_def)
  with insertQSOBatch_props [OF assms(2)] dd have "added lb [] (im_qsos d) (im_qsos d') \<and> inserted = 0" by auto
  then show "im_qsos d' = im_qsos d" "inserted = 0" by (simp_all add: added_Nil)
qed


section \<open>The second run\<close>

lemma flushBatch_frame [simp]: "is_batch (flushBatch env s) = []" "is_parser (flushBatch env s) = is_parser s"
  by (simp_all add: flushBatch_def Let_def split: prod.split)

lemma flushBatch_subset: "set (im_qsos (is_db s)) \<subseteq> set (im_qsos (is_db (flushBatch env s)))"
proof (cases "is_batch s = []")
  case False
  obtain d imported dupes errs
    where b: "insertQSOBatch (ev_ok env) (ev_accepts env) (env_lb env) (ia_ImportJobID (ev_args env)) (is_batch s) (is_db s) = (d, imported, dupes, errs)"
    by (metis prod_cases4)
  from insertQSOBatch_props [OF b] obtain ins where "added (env_lb env) ins (im_qsos (is_db s)) (im_qsos d)" by blast
  then show ?thesis by (simp add: flushBatch_eq [OF False b] added_set)
qed (simp add: flushBatch_def)

text \<open>Two states of the same run: \<open>t\<close> has the contacts that \<open>s\<close> will have stored, and goes the same way without storing any.\<close>

definition twin :: "importState \<Rightarrow> importState \<Rightarrow> bool" where
  "twin s t \<longleftrightarrow> is_parser t = is_parser s \<and> is_batch t = is_batch s \<and> list_all whole (is_batch s)"

definition unchanged :: "importState \<Rightarrow> importState \<Rightarrow> bool" where
  "unchanged t t' \<longleftrightarrow> im_qsos (is_db t') = im_qsos (is_db t) \<and> ct_imported (is_counters t') = ct_imported (is_counters t)"

lemma unchanged_trans: "unchanged a b \<Longrightarrow> unchanged b c \<Longrightarrow> unchanged a c"
  by (simp add: unchanged_def)

lemma flushBatch_twin:
  assumes ok: "ev_ok env = (\<lambda>_. True)" "ev_accepts env = (\<lambda>_. True)"
    and "twin s t" "keeps (im_qsos (is_db (flushBatch env s))) (im_qsos (is_db t))"
  shows "twin (flushBatch env s) (flushBatch env t)" "unchanged t (flushBatch env t)"
proof -
  show "twin (flushBatch env s) (flushBatch env t)" using assms(3) by (simp add: twin_def)
  show "unchanged t (flushBatch env t)"
  proof (cases "is_batch s = []")
    case True
    then show ?thesis using assms(3) by (simp add: flushBatch_def twin_def unchanged_def)
  next
    case False
    then have Ft: "is_batch t \<noteq> []" using assms(3) by (simp add: twin_def)
    obtain d imported dupes errs where b: "insertQSOBatch (ev_ok env) (ev_accepts env) (env_lb env) (ia_ImportJobID (ev_args env)) (is_batch s) (is_db s) =
        (d, imported, dupes, errs)" by (metis prod_cases4)
    obtain d2 imported2 dupes2 errs2 where b2: "insertQSOBatch (ev_ok env) (ev_accepts env) (env_lb env) (ia_ImportJobID (ev_args env)) (is_batch t) (is_db t) =
        (d2, imported2, dupes2, errs2)" by (metis prod_cases4)
    have "covered (env_lb env) (is_batch s) (im_qsos d)"
      using insertQSOBatch_covers [OF b [unfolded ok]] assms(3) by (simp add: twin_def)
    then have "covered (env_lb env) (is_batch t) (im_qsos (is_db t))"
      using covered_keeps assms(3,4) by (simp add: twin_def flushBatch_eq [OF False b])
    from insertQSOBatch_covered [OF this b2 [unfolded ok(1)]] show ?thesis
      by (simp add: unchanged_def flushBatch_eq [OF Ft b2])
  qed
qed

lemma warnings_twin: "twin s t \<Longrightarrow> twin (fold (record_warning env) ws s) (fold (record_warning env) ws t)"
  by (simp add: twin_def warnings_frame)

lemma import_record_twin:
  assumes ok: "ev_ok env = (\<lambda>_. True)" "ev_accepts env = (\<lambda>_. True)"
    and "twin s t" "keeps (im_qsos (is_db (import_record env rec s))) (im_qsos (is_db t))"
  shows "twin (import_record env rec s) (import_record env rec t) \<and> unchanged t (import_record env rec t)
    \<and> set (im_qsos (is_db s)) \<subseteq> set (im_qsos (is_db (import_record env rec s)))"
proof (cases "mapADIFRecord (ev_undef env) rec")
  case (Inl e)
  then show ?thesis using assms(3) by (simp add: import_record_def twin_def unchanged_def Let_def)
next
  case (Inr r)
  obtain row ws where r: "r = (row, ws)" by force
  define f where "f s = (let s1 = fold (record_warning env) ws (s\<lparr>is_recordNum := is_recordNum s + 1,
      is_counters := (is_counters s)\<lparr>ct_total := ct_total (is_counters s) + 1\<rparr>\<rparr>) in s1\<lparr>is_batch := is_batch s1 @ [row]\<rparr>)" for s
  have eq: "import_record env rec s = (if batchSize \<le> length (is_batch (f s)) then flushBatch env (f s) else f s)" for s
    using Inr r by (simp add: import_record_def f_def Let_def)
  have f: "is_parser (f s) = is_parser s" "is_batch (f s) = is_batch s @ [row]" "im_qsos (is_db (f s)) = im_qsos (is_db s)"
      "ct_imported (is_counters (f s)) = ct_imported (is_counters s)" for s
    by (simp_all add: f_def Let_def warnings_frame)
  have tw: "twin (f s) (f t)"
    using assms(3) mapADIFRecord_whole [of "ev_undef env" rec row ws] Inr r by (simp add: twin_def f)
  show ?thesis
  proof (cases "batchSize \<le> length (is_batch (f s))")
    case True
    then have "keeps (im_qsos (is_db (flushBatch env (f s)))) (im_qsos (is_db (f t)))" using assms(4) by (simp add: eq f)
    from flushBatch_twin [OF ok tw this] flushBatch_subset [of "f s" env] True tw show ?thesis
      by (simp add: eq f twin_def unchanged_def)
  next
    case False
    then show ?thesis using tw by (simp add: eq f twin_def unchanged_def)
  qed
qed

lemma twin_frame:
  "twin s t \<Longrightarrow> twin (s\<lparr>is_parser := p, is_counters := c\<rparr>) (t\<lparr>is_parser := p, is_counters := c'\<rparr>)"
  "twin s t \<Longrightarrow> twin (s\<lparr>is_parser := p\<rparr>) (t\<lparr>is_parser := p\<rparr>)"
  "twin (record_error env sev f code det s) (record_error env sev f code det t) = twin s t"
  by (simp_all add: twin_def)

lemma import_step_subset:
  "import_step env s = Inl r \<Longrightarrow> set (im_qsos (is_db s)) \<subseteq> set (im_qsos (is_db (fst r)))"
  "import_step env s = Inr s' \<Longrightarrow> set (im_qsos (is_db s)) \<subseteq> set (im_qsos (is_db s'))"
proof -
  have fl: "set (im_qsos (is_db s)) \<subseteq> set (im_qsos (is_db (flushBatch env (s\<lparr>is_parser := p\<rparr>))))" for p
    using flushBatch_subset [of "s\<lparr>is_parser := p\<rparr>" env] by simp
  then show "import_step env s = Inl r \<Longrightarrow> set (im_qsos (is_db s)) \<subseteq> set (im_qsos (is_db (fst r)))"
    unfolding import_step_def by (force simp: Let_def split: if_splits prod.splits sum.splits)
  have "set (im_qsos (is_db s)) \<subseteq> set (im_qsos (is_db (import_record env rec (s\<lparr>is_parser := p\<rparr>))))" for rec p
  proof (cases "mapADIFRecord (ev_undef env) rec")
    case (Inr r)
    define s1 where "s1 = fold (record_warning env) (snd r) (s\<lparr>is_parser := p, is_recordNum := is_recordNum s + 1,
      is_counters := (is_counters s)\<lparr>ct_total := ct_total (is_counters s) + 1\<rparr>\<rparr>)"
    have "im_qsos (is_db s1) = im_qsos (is_db s)" by (simp add: s1_def warnings_frame)
    moreover have "import_record env rec (s\<lparr>is_parser := p\<rparr>) = (let s2 = s1\<lparr>is_batch := is_batch s1 @ [fst r]\<rparr> in
        if batchSize \<le> length (is_batch s2) then flushBatch env s2 else s2)"
      using Inr by (simp add: import_record_def s1_def Let_def split_def)
    ultimately show ?thesis using flushBatch_subset [of "s1\<lparr>is_batch := is_batch s1 @ [fst r]\<rparr>" env] by (simp add: Let_def)
  qed (simp add: import_record_def Let_def)
  then show "import_step env s = Inr s' \<Longrightarrow> set (im_qsos (is_db s)) \<subseteq> set (im_qsos (is_db s'))"
    by (auto simp: import_step_def Let_def split: if_splits prod.splits sum.splits)
qed

lemma import_loop_subset:
  assumes "import_loop env s = Some r"
  shows "set (im_qsos (is_db s)) \<subseteq> set (im_qsos (is_db (fst r)))"
  using assms by (induction rule: import_loop_induct) (use import_step_subset in blast)+

text \<open>A round of both runs.\<close>

lemma import_step_twin:
  assumes ok: "ev_ok env = (\<lambda>_. True)" "ev_accepts env = (\<lambda>_. True)" and tw: "twin s t"
  shows "import_step env s = Inl r \<Longrightarrow> keeps (im_qsos (is_db (fst r))) (im_qsos (is_db t)) \<Longrightarrow>
      \<exists>t'. import_step env t = Inl (t', snd r) \<and> twin (fst r) t' \<and> unchanged t t'"
    and "import_step env s = Inr s' \<Longrightarrow> keeps (im_qsos (is_db s')) (im_qsos (is_db t)) \<Longrightarrow>
      \<exists>t'. import_step env t = Inr t' \<and> twin s' t' \<and> unchanged t t'"
proof -
  obtain cancelled p0 where c: "ctx_Err (is_parser s) = (cancelled, p0)" by force
  obtain p x where n: "Parser_Next (ev_decode env) p0 = (p, x)" by force
  have ct: "ctx_Err (is_parser t) = (cancelled, p0)" using c tw by (simp add: twin_def)
  let ?s = "s\<lparr>is_parser := p\<rparr>" and ?t = "t\<lparr>is_parser := p\<rparr>"
  have tw': "twin ?s ?t" using tw by (rule twin_frame)
  {
    assume r: "import_step env s = Inl r" and k: "keeps (im_qsos (is_db (fst r))) (im_qsos (is_db t))"
    show "\<exists>t'. import_step env t = Inl (t', snd r) \<and> twin (fst r) t' \<and> unchanged t t'"
    proof (cases cancelled)
      case True
      then show ?thesis using r c ct tw by (auto simp: import_step_def twin_def unchanged_def Let_def)
    next
      case False
      then have "x = Inl EOF" "r = (flushBatch env ?s, None)"
        using r c n by (auto simp: import_step_def Let_def split: sum.splits if_splits)
      then show ?thesis
        using False ct n k flushBatch_twin [OF ok tw'] by (simp add: import_step_def unchanged_def Let_def)
    qed
  next
    assume r: "import_step env s = Inr s'" and k: "keeps (im_qsos (is_db s')) (im_qsos (is_db t))"
    then have nc: "\<not> cancelled" using c by (auto simp: import_step_def)
    show "\<exists>t'. import_step env t = Inr t' \<and> twin s' t' \<and> unchanged t t'"
    proof (cases x)
      case (Inr rec)
      then have s': "s' = import_record env rec ?s" using r c n nc by (simp add: import_step_def Let_def)
      then show ?thesis
        using Inr nc ct n k import_record_twin [OF ok tw', of rec] by (simp add: import_step_def unchanged_def Let_def)
    next
      case (Inl e)
      then have "e \<noteq> EOF" "s' = record_error env ''error'' None ''PARSE_ERROR'' (ParseFailed e)
          (s\<lparr>is_parser := p, is_counters := (is_counters s)\<lparr>ct_errors := ct_errors (is_counters s) + 1\<rparr>\<rparr>)"
        using r c n nc by (auto simp: import_step_def Let_def split: if_splits)
      then show ?thesis using Inl nc ct n tw by (simp add: import_step_def twin_def unchanged_def Let_def)
    qed
  }
qed

lemma import_loop_twin:
  assumes "import_loop env s = Some r" and ok: "ev_ok env = (\<lambda>_. True)" "ev_accepts env = (\<lambda>_. True)"
  shows "\<forall>t. twin s t \<and> keeps (im_qsos (is_db (fst r))) (im_qsos (is_db t)) \<longrightarrow>
    (\<exists>t'. import_loop env t = Some (t', snd r) \<and> twin (fst r) t' \<and> unchanged t t')"
  using assms(1)
proof (induction rule: import_loop_induct)
  case (stop s r)
  show ?case
  proof (intro allI impI, elim conjE)
    fix t assume "twin s t" "keeps (im_qsos (is_db (fst r))) (im_qsos (is_db t))"
    from import_step_twin(1) [OF ok this(1) stop this(2)]
    show "\<exists>t'. import_loop env t = Some (t', snd r) \<and> twin (fst r) t' \<and> unchanged t t'"
      by (auto simp: import_loop.simps [of env t])
  qed
next
  case (step s s' r)
  show ?case
  proof (intro allI impI, elim conjE)
    fix t assume t: "twin s t" "keeps (im_qsos (is_db (fst r))) (im_qsos (is_db t))"
    have "keeps (im_qsos (is_db s')) (im_qsos (is_db t))"
      using keeps_trans [OF keeps_subset [OF import_loop_subset [OF step(2)]] t(2)] .
    from import_step_twin(2) [OF ok t(1) step(1) this] obtain t1
      where t1: "import_step env t = Inr t1" "twin s' t1" "unchanged t t1" by blast
    then have "keeps (im_qsos (is_db (fst r))) (im_qsos (is_db t1))" using t(2) by (simp add: unchanged_def)
    with step.IH t1(2) obtain t' where "import_loop env t1 = Some (t', snd r)" "twin (fst r) t'" "unchanged t1 t'" by blast
    then show "\<exists>t'. import_loop env t = Some (t', snd r) \<and> twin (fst r) t' \<and> unchanged t t'"
      using t1 unchanged_trans by (auto simp: import_loop.simps [of env t])
  qed
qed

lemma only_fills_same:
  assumes "only_fills ints texts r r'" shows "same_contact r r'"
proof -
  have e: "r'\<lparr>qr_Ints := [], qr_Texts := []\<rparr> = r\<lparr>qr_Ints := [], qr_Texts := []\<rparr>" using assms unfolding only_fills_def by (elim conjE)
  show ?thesis
    using arg_cong [OF e, of qr_Callsign] arg_cong [OF e, of qr_Band] arg_cong [OF e, of qr_Mode] arg_cong [OF e, of qr_DatetimeOn]
    by (simp add: same_contact_def)
qed

lemma EnrichLogbook_keeps:
  assumes "EnrichLogbook ok1 ok2 tabs lb qsos = Some (qsos', n)" shows "keeps qsos qsos'"
proof -
  have "qsos' = fst (enrichmentUpdateSQL tabs (\<lambda>q. st_logbook q = lb \<and> \<not> st_deleted q) qsos)"
    using assms by (auto simp: EnrichLogbook_def runEnrichmentExec_def split: if_splits option.splits)
  then show ?thesis
    using apply_resolved_only_fills [THEN only_fills_same]
    by (intro keeps_list_all2) (simp add: enrichmentUpdateSQL_def list_all2_update_rows Let_def same_contact_def)
qed

lemma enrich_imported_keeps: "keeps (im_qsos d) (im_qsos (enrich_imported env d))"
proof -
  obtain d1 ok1 d2 ok2 where e: "exec_stmt (ev_ok env) True id d = (d1, ok1)"
      "(if ok1 \<and> dt_prefixes (ev_tables env) = None then exec_stmt (ev_ok env) True id d1 else (d1, True)) = (d2, ok2)"
    by (metis surj_pair)
  have "im_qsos d1 = im_qsos d" using exec_stmt_cases [OF e(1)] by auto
  moreover have "im_qsos d2 = im_qsos d1" using e(2) exec_stmt_cases [of "ev_ok env" True id d1 d2 ok2] by (auto split: if_splits)
  ultimately have d2: "im_qsos d2 = im_qsos d" by simp
  show ?thesis
  proof (cases "EnrichLogbook ok1 ok2 (ev_tables env) (env_lb env) (im_qsos d2)")
    case None
    then show ?thesis using e d2 by (simp add: enrich_imported_def keeps_subset)
  next
    case (Some x)
    then show ?thesis using e d2 EnrichLogbook_keeps [of ok1 ok2 "ev_tables env" "env_lb env" "im_qsos d2" "fst x" "snd x"]
      by (cases x) (simp add: enrich_imported_def)
  qed
qed

end
