(* ===== verification/Import_Returns.thy ===== *)
theory Import_Returns
  imports Import_Again Adif_Limits
begin

text \<open>
  When the loops of an import return: every file without read errors that is short enough for the limit of records, the written files exactly up to the
  limit, and never once the limit is reached or, in the counting pass, the context is cancelled.
\<close>

section \<open>Progress of the parser\<close>

lemma length_TrimSpace: "length (TrimSpace s) \<le> length s"
  by (simp add: TrimSpace_eq_rev) (metis le_trans length_dropWhile_le length_rev)

lemma length_SplitN_hd: "0 < n \<Longrightarrow> length (SplitN c n s ! 0) \<le> length s"
  by (induction c n s rule: SplitN.induct) (simp_all add: cut_def length_takeWhile_le)

lemma cut_None: "cut c s = (a, None) \<Longrightarrow> a = s"
  by (auto simp: cut_def takeWhile_eq_all_conv split: if_splits)

lemma parseTag_length: "parseTag tag = Some (name, len, ty) \<Longrightarrow> length name \<le> length tag"
proof -
  assume a: "parseTag tag = Some (name, len, ty)"
  have "name = TrimSpace tag \<or> name = TrimSpace (SplitN (CHR '':'') 3 (TrimSpace tag) ! 0)"
    using a by (auto simp: parseTag_def Let_def split: if_splits option.splits)
  then show ?thesis
    using length_TrimSpace [of tag] length_TrimSpace [of "SplitN (CHR '':'') 3 (TrimSpace tag) ! 0"] length_SplitN_hd [of 3 "CHR '':''" "TrimSpace tag"]
    by auto
qed

lemma findNextTag_length: "findNextTag p = (p', Inr tag) \<Longrightarrow> length (p_r p') + length tag + 1 \<le> length (p_r p)"
  by (auto simp: findNextTag_def Let_def split: prod.splits option.splits if_splits dest!: cut_length cut_None)

text \<open>
  A scan without cancellation and read errors: it keeps the context, a marker takes at least four bytes, and an error is met behind a tag.
\<close>

definition quiet :: "Parser \<Rightarrow> bool" where
  "quiet p \<longleftrightarrow> p_ctx p = None \<and> p_rerr p = EOF"

lemma findNextTag_quiet: "findNextTag p = (p', x) \<Longrightarrow> quiet p \<Longrightarrow> quiet p' \<and> (x = Inl e \<longrightarrow> e = EOF)"
  by (auto simp: findNextTag_def quiet_def Let_def split: prod.splits option.splits if_splits)

lemma readFieldValue_quiet: "readFieldValue n p = (p', v, e) \<Longrightarrow> quiet p \<Longrightarrow> quiet p' \<and> (e = None \<or> e = Some EOF)"
  by (auto simp: readFieldValue_def quiet_def split: if_splits)

lemma scan_step_quiet_Inr: "scan_step decode p flds = Inr (p', flds') \<Longrightarrow> quiet p \<Longrightarrow> quiet p'"
  by (auto simp: scan_step_def Let_def ctx_Err_None quiet_def split: prod.splits sum.splits option.splits if_splits
      dest!: findNextTag_quiet [unfolded quiet_def] readFieldValue_quiet [unfolded quiet_def])

lemma scan_step_quiet_Inl:
  assumes "scan_step decode p flds = Inl (p', flds', m, e)" "quiet p"
  shows "quiet p'" "m \<noteq> markerNone \<Longrightarrow> length (p_r p') + 4 \<le> length (p_r p)" "e = Some e' \<Longrightarrow> e' \<noteq> EOF \<Longrightarrow> length (p_r p') < length (p_r p)"
proof -
  obtain p1 x where n: "findNextTag p = (p1, x)" by force
  have c: "ctx_Err p = (False, p)" using assms(2) by (simp add: quiet_def ctx_Err_None)
  have q1: "quiet p1" "\<And>e. x = Inl e \<Longrightarrow> e = EOF" using findNextTag_quiet [OF n assms(2)] by auto
  have "quiet p' \<and> (m \<noteq> markerNone \<longrightarrow> length (p_r p') + 4 \<le> length (p_r p)) \<and> (\<forall>e'. e = Some e' \<and> e' \<noteq> EOF \<longrightarrow> length (p_r p') < length (p_r p))"
  proof (cases x)
    case (Inl err)
    then show ?thesis using assms(1) n c q1 by (auto simp: scan_step_def Let_def)
  next
    case (Inr tag)
    then obtain name len ty where t: "parseTag tag = Some (name, len, ty)"
      using assms(1) n c by (auto simp: scan_step_def Let_def split: option.splits)
    have l: "length (p_r p1) + length tag + 1 \<le> length (p_r p)" "length (ToUpper name) \<le> length tag"
      using findNextTag_length n Inr parseTag_length [OF t] by auto
    consider "m \<noteq> markerNone" "p' = p1" "ToUpper name = ''EOR'' \<or> ToUpper name = ''EOH''" "e = None"
      | "m = markerNone" "p' = p1" | v e2 where "m = markerNone" "readFieldValue len p1 = (p', v, Some e2)" "e = Some e2"
      using assms(1) n c Inr t by (auto simp: scan_step_def Let_def split: if_splits prod.splits option.splits)
    then show ?thesis
    proof cases
      case 1
      then have "length (ToUpper name) = 3" by (elim disjE) simp_all
      then have "3 \<le> length tag" using l(2) by simp
      then show ?thesis using 1 l q1 by simp
    next
      case 2
      then show ?thesis using l q1 by simp
    next
      case 3
      then show ?thesis using readFieldValue_quiet [OF 3(2) q1(1)] by auto
    qed
  qed
  then show "quiet p'" "m \<noteq> markerNone \<Longrightarrow> length (p_r p') + 4 \<le> length (p_r p)" "e = Some e' \<Longrightarrow> e' \<noteq> EOF \<Longrightarrow> length (p_r p') < length (p_r p)"
    by blast+
qed

lemma scan_loop_quiet:
  "scan_loop decode p flds = (p', flds', m, e) \<Longrightarrow> quiet p \<Longrightarrow>
   quiet p' \<and> (m \<noteq> markerNone \<longrightarrow> length (p_r p') + 4 \<le> length (p_r p)) \<and> (\<forall>e'. e = Some e' \<and> e' \<noteq> EOF \<longrightarrow> length (p_r p') < length (p_r p))"
proof (induction decode p flds rule: scan_loop.induct)
  case (1 decode p flds)
  show ?case
  proof (cases "scan_step decode p flds")
    case (Inl r)
    with 1 show ?thesis using scan_step_quiet_Inl [of decode p flds p' flds' m e] by (simp add: scan_loop_Inl)
  next
    case (Inr q)
    obtain p1 flds1 where q: "q = (p1, flds1)" by (cases q)
    note step = scan_step_Inr [OF Inr [unfolded q]] scan_step_quiet_Inr [OF Inr [unfolded q] "1.prems"(2)]
    have "scan_loop decode p1 flds1 = (p', flds', m, e)" using "1.prems" Inr q by (simp add: scan_loop_Inr)
    with "1.IH" [OF Inr q [symmetric] _ step(3)] step(2) show ?thesis by fastforce
  qed
qed

lemmas scanFields_quiet = scan_loop_quiet [where flds = "[]", folded scanFields_def]


text \<open>A parser that has read everything, and one whose remaining bytes cannot hold too many records.\<close>

definition finished :: "Parser \<Rightarrow> bool" where
  "finished p \<longleftrightarrow> p_atEOF p \<and> \<not> p_hasPrefetch p"

definition roomy :: "Parser \<Rightarrow> bool" where
  "roomy p \<longleftrightarrow> quiet p \<and> p_headerDone p \<and> (finished p \<or> 4 * p_recordCount p + int (length (p_r p)) < 4 * po_MaxRecords (p_opts p))"

definition remaining :: "Parser \<Rightarrow> nat" where
  "remaining p = (if finished p then 0 else Suc (length (p_r p)))"

lemma next_step_quiet:
  assumes q: "quiet p"
  shows "next_step decode p = Inr p' \<Longrightarrow> quiet p' \<and> p_headerDone p' = p_headerDone p"
    and "next_step decode p = Inl (p', x) \<Longrightarrow> quiet p' \<and> p_headerDone p' = p_headerDone p \<and> p_opts p' = p_opts p
      \<and> (case x of Inr rec \<Rightarrow> p_recordCount p' = p_recordCount p + 1 \<and> (finished p' \<or> length (p_r p') + 4 \<le> length (p_r p))
         | Inl e \<Rightarrow> e \<noteq> EOF \<longrightarrow> p_recordCount p' = p_recordCount p \<and> length (p_r p') < length (p_r p))"
proof -
  have c: "ctx_Err p = (False, p)" using q by (simp add: quiet_def ctx_Err_None)
  let ?p1 = "fst (take_prefetch p)"
  have q1: "quiet ?p1" using q by (simp add: quiet_def)
  obtain p2 flds m e where s: "scanFields decode ?p1 = (p2, flds, m, e)" by (metis prod_cases4)
  note f = scanFields_frame [OF s, unfolded frame_def] scanFields_quiet [OF s q1]
  have g: "quiet p2" "p_headerDone p2 = p_headerDone p" "p_opts p2 = p_opts p" "p_recordCount p2 = p_recordCount p" "\<not> p_hasPrefetch p2"
      "e = None \<Longrightarrow> length (p_r p2) + 4 \<le> length (p_r p)" "\<And>e1. e = Some e1 \<Longrightarrow> e1 \<noteq> EOF \<Longrightarrow> length (p_r p2) < length (p_r p)"
    using f by simp_all
  show "next_step decode p = Inr p' \<Longrightarrow> quiet p' \<and> p_headerDone p' = p_headerDone p"
    using c s f by (auto simp: next_step_def Let_def split: option.splits if_splits)
  show "next_step decode p = Inl (p', x) \<Longrightarrow> quiet p' \<and> p_headerDone p' = p_headerDone p \<and> p_opts p' = p_opts p
      \<and> (case x of Inr rec \<Rightarrow> p_recordCount p' = p_recordCount p + 1 \<and> (finished p' \<or> length (p_r p') + 4 \<le> length (p_r p))
         | Inl e \<Rightarrow> e \<noteq> EOF \<longrightarrow> p_recordCount p' = p_recordCount p \<and> length (p_r p') < length (p_r p))"
  proof -
    assume n: "next_step decode p = Inl (p', x)"
    consider "x = Inl EOF" "p' = ?p1 \<or> p' = p2 \<or> p' = p2\<lparr>p_atEOF := True\<rparr>"
      | flds' where "p_atEOF ?p1" "emit ?p1 flds' = (p', x)"
      | e1 where "e = Some e1" "e1 \<noteq> EOF" "p' = p2" "x = Inl e1"
      | flds' where "emit (p2\<lparr>p_atEOF := True\<rparr>) flds' = (p', x)"
      | flds' where "e = None" "emit p2 flds' = (p', x)"
      using n c s by (auto simp: next_step_def Let_def split: option.splits if_splits)
    then show ?thesis
    proof cases
      case 1
      with g q1 show ?thesis by (elim disjE) (simp_all add: quiet_def)
    next
      case 2
      then have "p' = ?p1\<lparr>p_recordCount := p_recordCount ?p1 + 1\<rparr>" "x = Inr \<lparr>r_Fields = flds'\<rparr>" by (simp_all add: emit_def)
      then show ?thesis using q1 2(1) by (simp add: finished_def quiet_def)
    next
      case 3
      then show ?thesis using g by simp
    next
      case 4
      then have "p' = p2\<lparr>p_atEOF := True, p_recordCount := p_recordCount p2 + 1\<rparr>" "x = Inr \<lparr>r_Fields = flds'\<rparr>" by (simp_all add: emit_def)
      then show ?thesis using g by (simp add: finished_def quiet_def)
    next
      case 5
      then have "p' = p2\<lparr>p_recordCount := p_recordCount p2 + 1\<rparr>" "x = Inr \<lparr>r_Fields = flds'\<rparr>" by (simp_all add: emit_def)
      then show ?thesis using g 5(1) by (simp add: quiet_def)
    qed
  qed
qed

lemma next_loop_quiet:
  "next_loop decode p = (p', x) \<Longrightarrow> quiet p \<Longrightarrow> quiet p' \<and> p_headerDone p' = p_headerDone p \<and> p_opts p' = p_opts p
      \<and> (case x of Inr rec \<Rightarrow> p_recordCount p' = p_recordCount p + 1 \<and> (finished p' \<or> length (p_r p') + 4 \<le> length (p_r p))
         | Inl e \<Rightarrow> e \<noteq> EOF \<longrightarrow> p_recordCount p' = p_recordCount p \<and> length (p_r p') < length (p_r p))"
proof (induction decode p rule: next_loop.induct)
  case (1 decode p)
  show ?case
  proof (cases "next_step decode p")
    case (Inl r)
    with 1 next_step_quiet(2) [OF "1.prems"(2), of decode p' x] show ?thesis by (simp add: next_loop.simps [of decode p])
  next
    case (Inr p1)
    note s = next_step_Inr [OF Inr] next_step_quiet(1) [OF "1.prems"(2) Inr]
    have "next_loop decode p1 = (p', x)" using "1.prems"(1) Inr by (simp add: next_loop.simps [of decode p])
    with "1.IH" [OF Inr] s show ?thesis by (cases x) auto
  qed
qed

text \<open>Every call of \<open>Next\<close> on such a parser ends the file or leaves less to do.\<close>

lemma Next_roomy:
  assumes "roomy p" "Parser_Next decode p = (p', x)"
  shows "x = Inl EOF \<or> roomy p' \<and> remaining p' < remaining p"
proof (cases "finished p")
  case True
  then show ?thesis using assms by (simp add: roomy_def Parser_Next_def next_after_header_def quiet_def ctx_Err_None finished_def)
next
  case False
  have q: "quiet p" "4 * p_recordCount p + int (length (p_r p)) < 4 * po_MaxRecords (p_opts p)" "p_headerDone p"
    using assms(1) False by (simp_all add: roomy_def)
  then have "next_loop decode p = (p', x)"
    using assms(2) False by (simp add: Parser_Next_def next_after_header_def quiet_def ctx_Err_None finished_def split: if_splits)
  from next_loop_quiet [OF this q(1)] q False show ?thesis
    by (cases x) (auto simp: roomy_def remaining_def)
qed


section \<open>The loops return on short files\<close>

lemma Next_quiet: "quiet p \<Longrightarrow> p_headerDone p \<Longrightarrow> Parser_Next decode p = (p', x) \<Longrightarrow> quiet p'"
  using next_loop_quiet [of decode p p' x]
  by (auto simp: Parser_Next_def next_after_header_def quiet_def ctx_Err_None Let_def split: if_splits)

lemma count_loop_returns: "roomy p \<Longrightarrow> \<exists>p' n. count_loop decode p k = Some (p', n) \<and> quiet p'"
proof (induction "remaining p" arbitrary: p k rule: less_induct)
  case less
  obtain p' x where n: "Parser_Next decode p = (p', x)" by force
  have q: "quiet p'" using Next_quiet [OF _ _ n] less.prems by (simp add: roomy_def)
  from Next_roomy [OF less.prems n] show ?case
  proof
    assume "x = Inl EOF"
    then show ?thesis using n q by (simp add: count_loop.simps [of decode p])
  next
    assume r: "roomy p' \<and> remaining p' < remaining p"
    from less.hyps [of p' "k + 1"] less.hyps [of p' k] r show ?thesis using n q by (cases x) (auto simp: count_loop.simps [of decode p])
  qed
qed

lemma import_record_parser [simp]: "is_parser (import_record env rec s) = is_parser s"
  by (simp add: import_record_def Let_def warnings_frame split: sum.split prod.split)

lemma import_loop_returns: "roomy (is_parser s) \<Longrightarrow> \<exists>s'. import_loop env s = Some (s', None)"
proof (induction "remaining (is_parser s)" arbitrary: s rule: less_induct)
  case less
  obtain p' x where n: "Parser_Next (ev_decode env) (is_parser s) = (p', x)" by force
  have c: "ctx_Err (is_parser s) = (False, is_parser s)" using less.prems by (simp add: roomy_def quiet_def ctx_Err_None)
  from Next_roomy [OF less.prems n] show ?case
  proof
    assume "x = Inl EOF"
    then show ?thesis using n c by (simp add: import_loop.simps [of env s] import_step_def)
  next
    assume r: "roomy p' \<and> remaining p' < remaining (is_parser s)"
    show ?thesis
    proof (cases "import_step env s")
      case (Inl y)
      then have "snd y = None" using n c by (auto simp: import_step_def Let_def split: sum.splits if_splits)
      then show ?thesis using Inl by (cases y) (simp add: import_loop.simps [of env s])
    next
      case (Inr s')
      then have "is_parser s' = p'" using n c by (auto simp: import_step_def Let_def import_record_parser split: sum.splits if_splits)
      then show ?thesis using less.hyps [of s'] r Inr by (simp add: import_loop.simps [of env s])
    qed
  qed
qed

lemma Header_roomy:
  assumes "Parser_Header decode (NewParser r EOF None) = (p, x)" "length r < 2000000"
  shows "quiet p" "x = Inr h \<Longrightarrow> roomy p"
proof -
  let ?p = "strip_bom ((NewParser r EOF None)\<lparr>p_headerDone := True\<rparr>)"
  have n: "quiet ?p" "p_headerDone ?p" "p_recordCount ?p = 0" "p_opts ?p = default_opts" "length (p_r ?p) \<le> length r"
    by (simp_all add: strip_bom_def quiet_def NewParser_def NewParserWithOptions_def default_opts_def)
  obtain p1 flds m e where s: "scanFields decode ?p = (p1, flds, m, e)" by (metis prod_cases4)
  note f = scanFields_frame [OF s, unfolded frame_def] scanFields_quiet [OF s n(1)]
  have p1: "quiet p1" "p_headerDone p1" "p_recordCount p1 = 0" "p_opts p1 = default_opts" "length (p_r p1) < 2000000"
    using f n assms(2) by auto
  have "p_headerDone (NewParser r EOF None) = False" by (simp add: NewParser_def NewParserWithOptions_def)
  then have "quiet p \<and> (x = Inr h \<longrightarrow> roomy p)"
    using assms(1) s p1 by (auto simp: Parser_Header_def roomy_def quiet_def split: option.splits if_splits)
  then show "quiet p" "x = Inr h \<Longrightarrow> roomy p" by blast+
qed

lemma countADIFRecords_returns:
  assumes "length r < 2000000"
  shows "\<exists>n v b. countADIFRecords decode (Some (r, EOF)) None = Some (n, v, b, None)"
proof -
  obtain p x where h: "Parser_Header decode (NewParser r EOF None) = (p, x)" by force
  show ?thesis
  proof (cases x)
    case (Inl e)
    then show ?thesis using h Header_roomy(1) [OF h assms] by (auto simp: countADIFRecords_def quiet_def)
  next
    case (Inr hdr)
    then obtain p' n where "count_loop decode p 0 = Some (p', n)" "quiet p'"
      using count_loop_returns Header_roomy(2) [OF h assms] by blast
    then show ?thesis using h Inr by (auto simp: countADIFRecords_def quiet_def)
  qed
qed

lemma importRecords_returns:
  assumes "length r < 2000000"
  shows "\<exists>c err ctx d'. importRecords env (Some (r, EOF)) None d = Some (c, err, ctx, d') \<and> err \<noteq> Some ErrCancelled"
proof -
  obtain p x where h: "Parser_Header (ev_decode env) (NewParser r EOF None) = (p, x)" by force
  show ?thesis
  proof (cases x)
    case (Inl e)
    then show ?thesis using h by (simp add: importRecords_def)
  next
    case (Inr hdr)
    let ?s = "\<lparr>is_parser = p, is_counters = zero_counters, is_batch = [], is_recordNum = 0, is_db = d\<rparr>"
    obtain s where "import_loop env ?s = Some (s, None)"
      using import_loop_returns [of ?s env] Header_roomy(2) [OF h assms Inr] by auto
    then show ?thesis using h Inr by (simp add: importRecords_def)
  qed
qed

text \<open>
  C23. An import of a short file ends.  Whatever the bytes of the file are, when it is shorter than two million bytes (so that it cannot hold 500,000
  record markers), can be read to its end, and the job is not cancelled, both passes over it return, and so does the job, whichever statements fail.
\<close>

theorem import_returns:
  assumes "length r < 2000000"
  shows "\<exists>d' err. ADIFImportWorker_Work env (Some (r, EOF)) None d = Some (d', None, err)"
proof -
  obtain n v b where c: "countADIFRecords (ev_decode env) (Some (r, EOF)) None = Some (n, v, b, None)"
    using countADIFRecords_returns [OF assms] by blast
  have i: "\<exists>c err ctx d'. importRecords env (Some (r, EOF)) None d = Some (c, err, ctx, d')" for d
    using importRecords_returns [OF assms, of env d] by blast
  show ?thesis
    using i unfolding ADIFImportWorker_Work_def Let_def c
    by (auto split: prod.split bool.split option.split) (metis option.simps(3) prod.exhaust)+
qed

text \<open>A file that breaks off in the middle of a field.\<close>

theorem import_returns_witness:
  "\<exists>d' err. ADIFImportWorker_Work sample_env (Some (''<CALL:40>W1AW'', EOF)) None sample_db = Some (d', None, err)"
  using import_returns [of "''<CALL:40>W1AW''" sample_env sample_db] by simp

end
