(* ===== verification/Import_Limit.thy ===== *)
theory Import_Limit
  imports Import_Returns
begin

text \<open>
  The import of a file that \<open>FormatAll\<close> wrote: record by record up to the limit of the parser, and no return from the limit on.
\<close>

section \<open>Loops that do not return\<close>

lemma count_loop_stuck:
  assumes "Parser_Next decode p = (p, Inl e)" "e \<noteq> EOF"
  shows "count_loop decode p k = None"
proof (rule ccontr)
  assume "count_loop decode p k \<noteq> None"
  then obtain r where "count_loop decode p k = Some r" by blast
  then have "\<not> (\<exists>e. Parser_Next decode p = (p, Inl e) \<and> e \<noteq> EOF)"
  proof (rule count_loop.raw_induct [where P = "\<lambda>decode p k r. \<not> (\<exists>e. Parser_Next decode p = (p, Inl e) \<and> e \<noteq> EOF)", rotated])
    fix loop decode p k r
    assume "\<And>decode p k r. loop decode p k = Some r \<Longrightarrow> \<not> (\<exists>e. Parser_Next decode p = (p, Inl e) \<and> e \<noteq> EOF)"
      and "(case Parser_Next decode p of (p', Inl e) \<Rightarrow> if e = EOF then Some (p', k) else loop decode p' k | (p', Inr rec) \<Rightarrow> loop decode p' (k + 1)) = Some r"
    then show "\<not> (\<exists>e. Parser_Next decode p = (p, Inl e) \<and> e \<noteq> EOF)" by (cases r) (auto split: if_splits)
  qed
  then show False using assms by blast
qed

lemma import_loop_stuck:
  assumes "Parser_Next (ev_decode env) (is_parser s) = (is_parser s, Inl e)" "e \<noteq> EOF" "p_ctx (is_parser s) = None"
  shows "import_loop env s = None"
proof (rule ccontr)
  assume "import_loop env s \<noteq> None"
  then obtain r where "import_loop env s = Some r" by blast
  then have "\<not> (Parser_Next (ev_decode env) (is_parser s) = (is_parser s, Inl e) \<and> p_ctx (is_parser s) = None)"
  proof (induction rule: import_loop_induct)
    case (stop s r)
    show ?case
    proof
      assume "Parser_Next (ev_decode env) (is_parser s) = (is_parser s, Inl e) \<and> p_ctx (is_parser s) = None"
      then show False using stop assms(2) by (simp add: import_step_def ctx_Err_None)
    qed
  next
    case (step s s' r)
    show ?case
    proof
      assume a: "Parser_Next (ev_decode env) (is_parser s) = (is_parser s, Inl e) \<and> p_ctx (is_parser s) = None"
      then have "is_parser s' = is_parser s" using step(1) assms(2) by (auto simp: import_step_def ctx_Err_None)
      then show False using step.IH a by simp
    qed
  qed
  then show False using assms by blast
qed

text \<open>A cancelled context: \<open>Next\<close> reports it again and again.\<close>

lemma Next_cancelled: "p_ctx p = Some 0 \<Longrightarrow> p_headerDone p \<Longrightarrow> Parser_Next decode p = (p, Inl CtxError)"
  by (simp add: Parser_Next_def next_after_header_def ctx_Err_def)


section \<open>Files of records\<close>

lemma ready_quiet: "ready opts k s p \<Longrightarrow> ctx_Err p = (False, p)"
  by (simp add: ready_def ctx_Err_None)

lemma count_loop_consume:
  assumes "ready opts k (pre @ concat (map record_text fss) @ rest) p" "CHR ''<'' \<notin> set pre"
    "list_all (\<lambda>fs. fs \<noteq> [] \<and> list_all (fits opts) fs) fss" "po_MaxFieldLen opts \<le> MaxInt64" "k + int (length fss) \<le> po_MaxRecords opts"
  shows "\<exists>pre' p'. CHR ''<'' \<notin> set pre' \<and> ready opts (k + int (length fss)) (pre' @ rest) p'
    \<and> count_loop decode p n = count_loop decode p' (n + int (length fss))"
  using assms
proof (induction fss arbitrary: k pre p n)
  case Nil
  then show ?case by (intro exI [of _ pre] exI [of _ p]) simp
next
  case (Cons fs fss)
  obtain p1 where p1: "Parser_Next decode p = (p1, Inr \<lparr>r_Fields = fs\<rparr>)" "ready opts (k + 1) (newline @ concat (map record_text fss) @ rest) p1"
    using Next_record [of opts k pre fs "concat (map record_text fss) @ rest" p decode] Cons.prems by auto
  have "count_loop decode p n = count_loop decode p1 (n + 1)" using p1 by (simp add: count_loop.simps [of decode p])
  moreover obtain pre' p' where "CHR ''<'' \<notin> set pre'" "ready opts (k + 1 + int (length fss)) (pre' @ rest) p'"
      "count_loop decode p1 (n + 1) = count_loop decode p' (n + 1 + int (length fss))"
    using Cons.IH [OF p1(2), of "n + 1"] Cons.prems by auto
  ultimately show ?case by (intro exI [of _ pre'] exI [of _ p']) (simp add: algebra_simps)
qed

text \<open>The records of a file, one after the other.\<close>

definition import_all :: "importEnv \<Rightarrow> Field list list \<Rightarrow> importState \<Rightarrow> importState" where
  "import_all env fss s = fold (\<lambda>fs. import_record env \<lparr>r_Fields = fs\<rparr>) fss s"

lemma parser_last:
  "s\<lparr>is_parser := p, is_recordNum := n\<rparr> = s\<lparr>is_recordNum := n, is_parser := p\<rparr>"
  "s\<lparr>is_parser := p, is_counters := c\<rparr> = s\<lparr>is_counters := c, is_parser := p\<rparr>"
  "s\<lparr>is_parser := p, is_batch := b\<rparr> = s\<lparr>is_batch := b, is_parser := p\<rparr>"
  "s\<lparr>is_parser := p, is_db := d\<rparr> = s\<lparr>is_db := d, is_parser := p\<rparr>"
  by (cases s, simp)+

lemma record_warning_parser: "record_warning env w (s\<lparr>is_parser := p\<rparr>) = (record_warning env w s)\<lparr>is_parser := p\<rparr>"
  by (simp add: record_warning_def record_error_def)

lemma warnings_parser: "fold (record_warning env) ws (s\<lparr>is_parser := p\<rparr>) = (fold (record_warning env) ws s)\<lparr>is_parser := p\<rparr>"
  by (induction ws arbitrary: s) (simp_all add: record_warning_parser)

lemma flushBatch_parser: "flushBatch env (s\<lparr>is_parser := p\<rparr>) = (flushBatch env s)\<lparr>is_parser := p\<rparr>"
  by (simp add: flushBatch_def Let_def split: prod.split)

lemma import_record_parser_update: "import_record env rec (s\<lparr>is_parser := p\<rparr>) = (import_record env rec s)\<lparr>is_parser := p\<rparr>"
proof (cases "mapADIFRecord (ev_undef env) rec")
  case (Inl e)
  then show ?thesis by (simp add: import_record_def record_error_def Let_def)
next
  case (Inr r)
  let ?s = "s\<lparr>is_recordNum := is_recordNum s + 1, is_counters := (is_counters s)\<lparr>ct_total := ct_total (is_counters s) + 1\<rparr>\<rparr>"
  define t where "t = fold (record_warning env) (snd r) ?s"
  have a: "fold (record_warning env) (snd r) (s\<lparr>is_parser := p, is_recordNum := is_recordNum s + 1,
      is_counters := (is_counters s)\<lparr>ct_total := ct_total (is_counters s) + 1\<rparr>\<rparr>) = t\<lparr>is_parser := p\<rparr>"
    using warnings_parser [of env "snd r" p ?s] by (simp add: t_def parser_last)
  have b: "flushBatch env (t\<lparr>is_parser := p, is_batch := xs\<rparr>) = (flushBatch env (t\<lparr>is_batch := xs\<rparr>))\<lparr>is_parser := p\<rparr>" for xs
    using flushBatch_parser [of env p "t\<lparr>is_batch := xs\<rparr>"] by (simp add: parser_last)
  show ?thesis
    using Inr by (simp add: import_record_def Let_def split_def a b t_def [symmetric])
qed

lemma import_all_parser: "import_all env fss (s\<lparr>is_parser := p\<rparr>) = (import_all env fss s)\<lparr>is_parser := p\<rparr>"
  unfolding import_all_def by (induction fss arbitrary: s) (simp_all add: import_record_parser_update)

lemma import_loop_consume:
  assumes "ready opts k (pre @ concat (map record_text fss) @ rest) (is_parser s)" "CHR ''<'' \<notin> set pre"
    "list_all (\<lambda>fs. fs \<noteq> [] \<and> list_all (fits opts) fs) fss" "po_MaxFieldLen opts \<le> MaxInt64" "k + int (length fss) \<le> po_MaxRecords opts"
  shows "\<exists>pre' p'. CHR ''<'' \<notin> set pre' \<and> ready opts (k + int (length fss)) (pre' @ rest) p'
    \<and> import_loop env s = import_loop env ((import_all env fss s)\<lparr>is_parser := p'\<rparr>)"
  using assms
proof (induction fss arbitrary: k pre s)
  case Nil
  then show ?case by (intro exI [of _ pre] exI [of _ "is_parser s"]) (simp add: import_all_def)
next
  case (Cons fs fss)
  obtain p1 where p1: "Parser_Next (ev_decode env) (is_parser s) = (p1, Inr \<lparr>r_Fields = fs\<rparr>)"
      "ready opts (k + 1) (newline @ concat (map record_text fss) @ rest) p1"
    using Next_record [of opts k pre fs "concat (map record_text fss) @ rest" "is_parser s" "ev_decode env"] Cons.prems by auto
  let ?s1 = "import_record env \<lparr>r_Fields = fs\<rparr> (s\<lparr>is_parser := p1\<rparr>)"
  have "import_step env s = Inr ?s1" using p1(1) ready_quiet [OF Cons.prems(1)] by (simp add: import_step_def)
  then have e: "import_loop env s = import_loop env ?s1" by (simp add: import_loop.simps [of env s])
  have r: "ready opts (k + 1) (newline @ concat (map record_text fss) @ rest) (is_parser ?s1)" using p1(2) by simp
  obtain pre' p' where "CHR ''<'' \<notin> set pre'" "ready opts (k + 1 + int (length fss)) (pre' @ rest) p'"
      "import_loop env ?s1 = import_loop env ((import_all env fss ?s1)\<lparr>is_parser := p'\<rparr>)"
    using Cons.IH [OF r] Cons.prems by auto
  moreover have "(import_all env fss ?s1)\<lparr>is_parser := p'\<rparr> = (import_all env (fs # fss) s)\<lparr>is_parser := p'\<rparr>"
    by (simp add: import_all_parser import_record_parser_update) (simp add: import_all_def)
  ultimately show ?case using e by (intro exI [of _ pre'] exI [of _ p']) (simp add: algebra_simps)
qed


section \<open>Files that the writer wrote\<close>

definition start_state :: "importDB \<Rightarrow> importState" where
  "start_state d = \<lparr>is_parser = NewParser [] EOF None, is_counters = zero_counters, is_batch = [], is_recordNum = 0, is_db = d\<rparr>"

definition writable :: "Header option \<Rightarrow> Record list \<Rightarrow> string \<Rightarrow> bool" where
  "writable h recs ver \<longleftrightarrow>
     list_all wf_record recs \<and> list_all (short_values \<circ> r_Fields) recs
     \<and> list_all (\<lambda>f. wf_field f \<and> length (f_Value f) \<le> 10485760) (extra_header_fields h) \<and> ValidString ver \<and> length ver \<le> 10485760"

lemma Header_written:
  assumes "writable h recs ver" "FormatAll h recs ver = Inr t"
  obtains p where "Parser_Header decode (NewParser t EOF None) = (p, Inr (Some \<lparr>h_Fields = standardFields (effective_version ver) @ extra_header_fields h\<rparr>))"
    "ready default_opts 0 ((newline @ newline) @ concat (map record_text (map export_fields recs))) p"
    "list_all (\<lambda>fs. fs \<noteq> [] \<and> list_all (fits default_opts) fs) (map export_fields recs)"
proof -
  have v: "ValidString (effective_version ver)" "int (length (effective_version ver)) \<le> 10485760"
    using assms(1) effective_version_ok [of ver] by (simp_all add: writable_def)
  have x: "list_all (fits default_opts) (extra_header_fields h)" using assms(1) by (intro extra_header_fit) (simp add: writable_def)
  show ?thesis
    using Header_formatted [OF x v, of decode "concat (map record_text (map export_fields recs))"] assms export_fields_fits [of recs] that
    by (auto simp: FormatAll_eq comp_def writable_def)
qed

lemma importRecords_text:
  assumes p: "Parser_Header (ev_decode env) (NewParser t EOF None) = (p, Inr hdr)" "ready default_opts 0 (pre @ concat (map record_text fss)) p"
    and pre: "CHR ''<'' \<notin> set pre" and fss: "list_all (\<lambda>fs. fs \<noteq> [] \<and> list_all (fits default_opts) fs) fss" "length fss < 500000"
  shows "importRecords env (Some (t, EOF)) None d =
    (let s = flushBatch env (import_all env fss (start_state d)) in Some (is_counters s, None, None, is_db s))"
proof -
  let ?s = "(start_state d)\<lparr>is_parser := p\<rparr>"
  obtain pre' p' where p': "CHR ''<'' \<notin> set pre'" "ready default_opts (int (length fss)) pre' p'"
      "import_loop env ?s = import_loop env ((import_all env fss ?s)\<lparr>is_parser := p'\<rparr>)"
    using import_loop_consume [of default_opts 0 pre fss "[]" ?s env] p(2) pre fss by (auto simp: MaxInt64_def)
  obtain q where q: "Parser_Next (ev_decode env) p' = (q, Inl EOF)"
    using Next_end [OF p'(2,1), of "ev_decode env"] fss(2) by auto
  have "quiet q" using Next_quiet [OF _ _ q] p'(2) by (simp add: ready_def quiet_def)
  let ?a = "import_all env fss (start_state d)"
  have "import_loop env ?s = Some ((flushBatch env ?a)\<lparr>is_parser := q\<rparr>, None)"
    using q ready_quiet [OF p'(2)] unfolding p'(3)
    by (simp add: import_loop.simps [of env "_\<lparr>is_parser := p'\<rparr>"] import_step_def import_all_parser flushBatch_parser)
  moreover have "?s = \<lparr>is_parser = p, is_counters = zero_counters, is_batch = [], is_recordNum = 0, is_db = d\<rparr>" by (simp add: start_state_def)
  ultimately show ?thesis using p(1) \<open>quiet q\<close> by (simp add: importRecords_def quiet_def Let_def)
qed

lemma importRecords_written:
  assumes "writable h recs ver" "FormatAll h recs ver = Inr t" "length recs < 500000"
  shows "importRecords env (Some (t, EOF)) None d =
    (let s = flushBatch env (import_all env (map export_fields recs) (start_state d)) in Some (is_counters s, None, None, is_db s))"
proof -
  obtain p where p: "Parser_Header (ev_decode env) (NewParser t EOF None) =
        (p, Inr (Some \<lparr>h_Fields = standardFields (effective_version ver) @ extra_header_fields h\<rparr>))"
      "ready default_opts 0 ((newline @ newline) @ concat (map record_text (map export_fields recs))) p"
      "list_all (\<lambda>fs. fs \<noteq> [] \<and> list_all (fits default_opts) fs) (map export_fields recs)"
    by (rule Header_written [OF assms(1,2), of "ev_decode env"])
  show ?thesis by (rule importRecords_text [OF p(1,2) _ p(3)]) (use assms(3) in simp_all)
qed

lemma countADIFRecords_written:
  assumes "writable h recs ver" "FormatAll h recs ver = Inr t"
  shows "countADIFRecords decode (Some (t, EOF)) None = (if length recs < 500000 then Some (int (length recs), ADIFVersion, True, None) else None)"
proof -
  let ?fss = "map export_fields recs"
  obtain p where p: "Parser_Header decode (NewParser t EOF None) =
        (p, Inr (Some \<lparr>h_Fields = standardFields (effective_version ver) @ extra_header_fields h\<rparr>))"
      "ready default_opts 0 ((newline @ newline) @ concat (map record_text ?fss)) p"
      "list_all (\<lambda>fs. fs \<noteq> [] \<and> list_all (fits default_opts) fs) ?fss"
    by (rule Header_written [OF assms, of decode])
  have v: "Header_ADIFVersion \<lparr>h_Fields = standardFields (effective_version ver) @ extra_header_fields h\<rparr> = ADIFVersion"
    by (simp add: Header_ADIFVersion_def Header_Get_def standardFields_def go_defs)
  show ?thesis
  proof (cases "length recs < 500000")
    case True
    obtain pre' p' where p': "CHR ''<'' \<notin> set pre'" "ready default_opts (int (length recs)) pre' p'"
        "count_loop decode p 0 = count_loop decode p' (int (length recs))"
      using count_loop_consume [of default_opts 0 "newline @ newline" ?fss "[]" p decode 0] p(2,3) True by (auto simp: MaxInt64_def)
    obtain q where q: "Parser_Next decode p' = (q, Inl EOF)" using Next_end [OF p'(2,1), of decode] True by auto
    have "quiet q" using Next_quiet [OF _ _ q] p'(2) by (simp add: ready_def quiet_def)
    then show ?thesis using True p(1) p'(3) q v by (simp add: countADIFRecords_def count_loop.simps [of decode p'] quiet_def)
  next
    case False
    let ?a = "take 500000 ?fss" and ?b = "concat (map record_text (drop 500000 ?fss))"
    have len: "length ?a = 500000" using False by simp
    have "concat (map record_text ?fss) = concat (map record_text ?a) @ ?b"
      by (metis append_take_drop_id concat_append map_append)
    then have r: "ready default_opts 0 ((newline @ newline) @ concat (map record_text ?a) @ ?b) p" using p(2) by simp
    have "list_all (\<lambda>fs. fs \<noteq> [] \<and> list_all (fits default_opts) fs) ?a" using p(3) unfolding list_all_iff by (blast dest: in_set_takeD)
    from count_loop_consume [OF r _ this, of decode 0] len obtain pre' p'
      where p': "ready default_opts 500000 (pre' @ ?b) p'" "count_loop decode p 0 = count_loop decode p' 500000"
      by (auto simp: MaxInt64_def)
    have "Parser_Next decode p' = (p', Inl ErrTooManyRecords)" by (rule Next_at_limit [OF p'(1)]) simp
    from count_loop_stuck [OF this] p'(2) False p(1) show ?thesis by (simp add: countADIFRecords_def)
  qed
qed

lemma flushBatch_total [simp]: "ct_total (is_counters (flushBatch env s)) = ct_total (is_counters s)"
  by (simp add: flushBatch_def Let_def split: prod.split)

lemma import_all_total: "ct_total (is_counters (import_all env fss s)) = ct_total (is_counters s) + int (length fss)"
proof (induction fss arbitrary: s)
  case (Cons fs fss)
  have "ct_total (is_counters (import_record env \<lparr>r_Fields = fs\<rparr> s)) = ct_total (is_counters s) + 1"
    by (simp add: import_record_def Let_def warnings_frame split: sum.split prod.split)
  with Cons show ?case by (simp add: import_all_def)
qed (simp add: import_all_def)

text \<open>
  C39. The size of an import is limited by a hang.  For a file that the writer makes of well-formed records, both passes see every record while there are
  fewer than 500,000 of them: the count is right and the import ends without an error, with that total.  From 500,000 records on the counting
  pass never returns, because \<open>Next\<close> reports the limit again and again and the loop skips every error; a job that is pending then hangs before it is marked as
  processing.
\<close>

theorem import_limit:
  assumes "writable h recs ver" "FormatAll h recs ver = Inr t"
  shows "(if length recs < 500000
      then countADIFRecords (ev_decode env) (Some (t, EOF)) None = Some (int (length recs), ADIFVersion, True, None)
         \<and> (\<exists>c d'. importRecords env (Some (t, EOF)) None d = Some (c, None, None, d') \<and> ct_total c = int (length recs))
      else countADIFRecords (ev_decode env) (Some (t, EOF)) None = None
         \<and> (ev_ok env = (\<lambda>_. True) \<and> (case im_jobs d (ia_ImportJobID (ev_args env)) of Some job \<Rightarrow> ij_status job = ''pending'' | None \<Rightarrow> False)
             \<longrightarrow> ADIFImportWorker_Work env (Some (t, EOF)) None d = None))"
proof -
  note c = countADIFRecords_written [OF assms]
  have "ct_total (is_counters (flushBatch env (import_all env (map export_fields recs) (start_state d)))) = int (length recs)"
    by (simp add: import_all_total start_state_def zero_counters_def)
  moreover have "ADIFImportWorker_Work env (Some (t, EOF)) None d = None"
    if "\<not> length recs < 500000" "ev_ok env = (\<lambda>_. True)" "im_jobs d (ia_ImportJobID (ev_args env)) = Some job" "ij_status job = ''pending''" for job
    using that c by (simp add: ADIFImportWorker_Work_def exec_stmt_def)
  ultimately show ?thesis using c importRecords_written [OF assms] by (auto simp: Let_def split: option.splits)
qed

text \<open>A file of 500,000 records, and one of the two records of \<^const>\<open>sample_log\<close>.\<close>

theorem import_limit_witness:
  "(\<exists>t. FormatAll None (replicate 500000 (sample_log ! 0)) [] = Inr t \<and> countADIFRecords Some (Some (t, EOF)) None = None
      \<and> ADIFImportWorker_Work sample_env (Some (t, EOF)) None sample_db = None)
   \<and> (\<exists>t c d'. FormatAll None sample_log [] = Inr t \<and> importRecords sample_env (Some (t, EOF)) None sample_db = Some (c, None, None, d') \<and> ct_total c = 2)"
proof -
  have w: "writable None sample_log []" "writable None (replicate 500000 (sample_log ! 0)) []"
    using sample_log_ok by (auto simp: writable_def extra_header_fields_def ValidString_ascii list_all_iff sample_log_def)
  have e: "ev_decode sample_env = Some" by (simp add: sample_env_def)
  obtain t t' where t: "FormatAll None (replicate 500000 (sample_log ! 0)) [] = Inr t" "FormatAll None sample_log [] = Inr t'" by (simp add: FormatAll_eq)
  have "countADIFRecords Some (Some (t, EOF)) None = None \<and> ADIFImportWorker_Work sample_env (Some (t, EOF)) None sample_db = None"
    using import_limit [OF w(2) t(1), of sample_env sample_db] unfolding e by (simp add: sample_env_def sample_db_def sample_job_def)
  moreover have "\<exists>c d'. importRecords sample_env (Some (t', EOF)) None sample_db = Some (c, None, None, d') \<and> ct_total c = 2"
    using import_limit [OF w(1) t(2), of sample_env sample_db] by (simp add: sample_log_def)
  ultimately show ?thesis using t by blast
qed

lemma Header_done:
  assumes "Parser_Header decode p = (p', x)" shows "p_headerDone p'"
proof (cases "p_headerDone p")
  case False
  obtain p1 flds m e where s: "scanFields decode (strip_bom (p\<lparr>p_headerDone := True\<rparr>)) = (p1, flds, m, e)" by (metis prod_cases4)
  have "p_headerDone p1" using scanFields_frame [OF s] strip_bom_simps(1) [of "p\<lparr>p_headerDone := True\<rparr>"] by (simp add: frame_def)
  then show ?thesis using assms s False by (auto simp: Parser_Header_def split: option.splits if_splits)
qed (use assms in \<open>simp add: Parser_Header_def\<close>)

text \<open>
  A cancelled job hangs in the counting pass.  When the context is cancelled by the time the header has been read, \<open>countADIFRecords\<close> does not return:
  \<open>Next\<close> reports the cancellation at every call, and the loop skips it like a parse error.  The import loop, which looks at the context itself, ends with an error
  and without a change.
\<close>

theorem cancelled_count_hangs:
  assumes "Parser_Header (ev_decode env) (NewParser r rerr ctx) = (p, Inr h)" "p_ctx p = Some 0"
  shows "countADIFRecords (ev_decode env) (Some (r, rerr)) ctx = None
    \<and> importRecords env (Some (r, rerr)) ctx d = Some (zero_counters, Some ErrCancelled, Some 0, d)"
proof -
  have "p_headerDone p" using Header_done [OF assms(1)] .
  then have "count_loop (ev_decode env) p 0 = None" using count_loop_stuck [OF Next_cancelled] assms(2) by blast
  moreover have "import_loop env \<lparr>is_parser = p, is_counters = zero_counters, is_batch = [], is_recordNum = 0, is_db = d\<rparr> =
      Some (\<lparr>is_parser = p, is_counters = zero_counters, is_batch = [], is_recordNum = 0, is_db = d\<rparr>, Some ErrCancelled)"
    using assms(2) by (simp add: import_loop.simps import_step_def ctx_Err_def)
  ultimately show ?thesis using assms by (simp add: countADIFRecords_def importRecords_def)
qed

theorem cancelled_count_hangs_witness:
  "countADIFRecords Some (Some (''<EOH>'', EOF)) (Some 1) = None
   \<and> importRecords sample_env (Some (''<EOH>'', EOF)) (Some 1) sample_db = Some (zero_counters, Some ErrCancelled, Some 0, sample_db)"
proof -
  have e: "ev_decode sample_env = Some" by (simp add: sample_env_def)
  let ?x = "Parser_Header Some (NewParser ''<EOH>'' EOF (Some 1))"
  have x: "p_ctx (fst ?x) = Some 0" "\<not> isl (snd ?x)" by code_simp+
  then obtain p h where "Parser_Header (ev_decode sample_env) (NewParser ''<EOH>'' EOF (Some 1)) = (p, Inr h)" "p_ctx p = Some 0"
    unfolding e by (metis prod.collapse sum.collapse(2))
  from cancelled_count_hangs [OF this, of sample_db] show ?thesis by (simp add: e)
qed

end
