(* ===== verification/Import_Map.thy ===== *)
theory Import_Map
  imports Import_Inv Adif_Limits
begin

text \<open>What \<open>mapADIFRecord\<close> gives the database: rows of the types of the table, and values that another import reads again.\<close>

definition row_ok :: "qsoRow \<Rightarrow> bool" where
  "row_ok r \<longleftrightarrow>
     qr_Callsign r \<noteq> [] \<and> trimmed (qr_Callsign r) \<and> upper (qr_Callsign r)
     \<and> qr_Band r \<noteq> [] \<and> ToLower (qr_Band r) = qr_Band r \<and> whole r
     \<and> NormalizeModePair (qr_Mode r) (case qr_Submode r of None \<Rightarrow> [] | Some s \<Rightarrow> s) =
         Some \<lparr>mv_Mode = qr_Mode r, mv_Submode = (case qr_Submode r of None \<Rightarrow> [] | Some s \<Rightarrow> s)\<rparr>
     \<and> qr_Submode r \<noteq> Some []
     \<and> (\<forall>(c, v)\<in>set (qr_Texts r). v = None \<or> the v \<noteq> [] \<and> trimmed (the v))
     \<and> (\<forall>(c, v)\<in>set (qr_Ints r). v = None \<or> (if c \<in> {''dxcc'', ''my_dxcc''} then \<bar>the v\<bar> \<le> 2147483648 else \<bar>the v\<bar> \<le> 32768))
     \<and> (\<forall>(c, v)\<in>set (qr_Dates r). v = None \<or> usec * 86400 dvd the v)
     \<and> (\<forall>ref\<in>set (qr_PotaRefs r @ qr_MyPotaRefs r). ref \<noteq> [] \<and> trimmed ref \<and> upper ref)
     \<and> distinct (map fst (qr_Extra r)) \<and> (\<forall>(k, v)\<in>set (qr_Extra r). v \<noteq> [] \<and> trimmed v \<and> (k \<in> set knownMappedFields \<longrightarrow> HasPrefix k ''APP_''))"

lemma ToLower_idem [simp]: "ToLower (ToLower s) = ToLower s"
  by (simp add: ToLower_def comp_def)

lemma KnownBands_lower: "list_all (\<lambda>(n, bd). ToLower n = n \<and> n \<noteq> []) KnownBands"
  by code_simp

lemma inferBandFromFreq_lower: "ToLower (inferBandFromFreq f) = inferBandFromFreq f"
  using KnownBands_lower
  by (auto simp: inferBandFromFreq_def find_Some_iff list_all_iff ToLower_def split: option.splits dest!: nth_mem)

lemma map_band_ok: "map_band rec = Some (b, ws) \<Longrightarrow> b \<noteq> [] \<and> ToLower b = b"
  by (auto simp: map_band_def Let_def inferBandFromFreq_lower split: if_splits)

lemma optStr_ok: "optStr s = None \<or> the (optStr s) \<noteq> [] \<and> trimmed (the (optStr s))"
  by (auto simp: optStr_def)

lemma ParseInt_bits_ok: "map_opt (ParseInt_bits bits) rec field = None \<or> \<bar>the (map_opt (ParseInt_bits bits) rec field)\<bar> \<le> 2 ^ (bits - 1)"
  by (auto simp: map_opt_def ParseInt_bits_def Let_def abs_le_iff split: if_splits option.splits)

lemma parseADIFDate_midnight: "parseADIFDate v = Inr t \<Longrightarrow> usec * 86400 dvd t"
  by (auto simp: parseADIFDate_def parseADIFDateTime_def time_parts_def time_Date_UTC_def Let_def split: if_splits option.splits)

lemma map_date_ok: "map_opt (\<lambda>v. ok_value (parseADIFDate v)) rec field = None \<or> usec * 86400 dvd the (map_opt (\<lambda>v. ok_value (parseADIFDate v)) rec field)"
  by (auto simp: map_opt_def ok_value_def Let_def dest: parseADIFDate_midnight split: if_splits sum.splits)

lemma trimmed_upper [simp]: "trimmed (ToUpper (TrimSpace s))"
  using trimmed_TrimSpace [of "ToUpper s"] by (simp add: TrimSpace_ToUpper)

lemma parseReferenceList_ok: "ref \<in> set (parseReferenceList raw) \<Longrightarrow> ref \<noteq> [] \<and> trimmed ref \<and> upper ref"
  by (auto simp: parseReferenceList_def Let_def split: if_splits)

lemma collect_extra_ok:
  "distinct (map fst (collect_extra flds)) \<and> (\<forall>(k, v)\<in>set (collect_extra flds). v \<noteq> [] \<and> trimmed v \<and> (k \<in> set knownMappedFields \<longrightarrow> HasPrefix k ''APP_''))"
proof -
  let ?I = "\<lambda>extra. distinct (map fst extra) \<and> (\<forall>(k, v)\<in>set extra. v \<noteq> [] \<and> trimmed v \<and> (k \<in> set knownMappedFields \<longrightarrow> HasPrefix k ''APP_''))"
  let ?f = "\<lambda>f extra. let val = TrimSpace (f_Value f) in
       if val = [] then extra
       else if HasPrefix (f_Name f) ''APP_'' then AList.update (f_Name f) val extra
       else if f_Name f \<notin> set knownMappedFields then AList.update (f_Name f) val extra else extra"
  have upd: "?I (AList.update k v extra)" if "?I extra" "v \<noteq> []" "trimmed v" "k \<in> set knownMappedFields \<longrightarrow> HasPrefix k ''APP_''" for k v extra
  proof -
    have "set (AList.update k v extra) \<subseteq> insert (k, v) (set extra)" by (induction extra) auto
    then show ?thesis using that by (auto simp: distinct_update)
  qed
  have "?I extra \<Longrightarrow> ?I (fold ?f flds extra)" for extra
  proof (induction flds arbitrary: extra)
    case (Cons f flds)
    have "?I (?f f extra)" using Cons.prems upd [OF Cons.prems, of "TrimSpace (f_Value f)" "f_Name f"] by (simp add: Let_def)
    from Cons.IH [OF this] show ?case by simp
  qed simp
  from this [of "[]"] show ?thesis unfolding collect_extra_def by simp
qed

text \<open>The columns of a row, group by group.\<close>

lemma mapADIFRecord_cases:
  assumes "mapADIFRecord undef rec = Inr (row, ws)"
  obtains t b w1 v freq w2 where "parseADIFDateTime (TrimSpace (Record_Get rec ''QSO_DATE'')) (TrimSpace (Record_Get rec ''TIME_ON'')) = Inr t"
    "map_band rec = Some (b, w1)" "NormalizeModePair (ToUpper (TrimSpace (Record_Get rec ''MODE''))) (ToUpper (TrimSpace (Record_Get rec ''SUBMODE''))) = Some v"
    "map_freq undef rec = (freq, w2)"
    "qr_Callsign row = ToUpper (TrimSpace (Record_Get rec ''CALL''))" "qr_Callsign row \<noteq> []" "qr_Band row = b" "qr_Mode row = mv_Mode v"
    "qr_Submode row = (if mv_Submode v \<noteq> [] then Some (mv_Submode v) else None)" "qr_DatetimeOn row = t" "qr_FrequencyHz row = freq"
    "qr_Texts row = map (\<lambda>(col, field, up). (col, optStr (if up then ToUpper (Record_Get rec field) else Record_Get rec field))) text_columns"
    "qr_Ints row = map (\<lambda>(col, field, bits). (col, map_opt (ParseInt_bits bits) rec field)) int_columns"
    "qr_Dates row = map (\<lambda>(col, field). (col, map_opt (\<lambda>v. ok_value (parseADIFDate v)) rec field)) date_columns"
    "qr_PotaRefs row = parseReferenceList (Record_Get rec ''POTA_REF'')" "qr_MyPotaRefs row = parseReferenceList (Record_Get rec ''MY_POTA_REF'')"
    "qr_Extra row = collect_extra (r_Fields rec)"
proof -
  from assms obtain t b w1 v freq w2 where c: "parseADIFDateTime (TrimSpace (Record_Get rec ''QSO_DATE'')) (TrimSpace (Record_Get rec ''TIME_ON'')) = Inr t"
    "map_band rec = Some (b, w1)" "NormalizeModePair (ToUpper (TrimSpace (Record_Get rec ''MODE''))) (ToUpper (TrimSpace (Record_Get rec ''SUBMODE''))) = Some v"
    "map_freq undef rec = (freq, w2)" "ToUpper (TrimSpace (Record_Get rec ''CALL'')) \<noteq> []"
    unfolding mapADIFRecord_def Let_def by (auto split: if_splits sum.splits option.splits prod.splits)
  show ?thesis
    by (rule that [OF c(1-4)]) (use assms c in \<open>auto simp: mapADIFRecord_def Let_def split: if_splits\<close>)
qed

text \<open>A record for the examples.\<close>

definition qso_fields :: "Field list" where
  "qso_fields = [sample_field ''CALL'' ''W1AW'', sample_field ''QSO_DATE'' ''20240102'', sample_field ''TIME_ON'' ''0304'',
     sample_field ''BAND'' ''20m'', sample_field ''MODE'' ''CW'']"

lemma qso_fields_fit: "list_all (fits default_opts) qso_fields" "qso_fields \<noteq> []"
  by (simp_all add: qso_fields_def fits_def sample_field_def wf_field_def wf_name_def wf_type_def upper_def trimmed_def go_defs ValidString_ascii)

lemma NormalizeModePair_CW: "NormalizeModePair ''CW'' [] = Some \<lparr>mv_Mode = ''CW'', mv_Submode = []\<rparr>" by code_simp

lemma qso_fields_get: "Record_Get \<lparr>r_Fields = qso_fields\<rparr> ''CALL'' = ''W1AW''" "Record_Get \<lparr>r_Fields = qso_fields\<rparr> ''QSO_DATE'' = ''20240102''"
  "Record_Get \<lparr>r_Fields = qso_fields\<rparr> ''TIME_ON'' = ''0304''" "Record_Get \<lparr>r_Fields = qso_fields\<rparr> ''BAND'' = ''20m''"
  "Record_Get \<lparr>r_Fields = qso_fields\<rparr> ''MODE'' = ''CW''" "Record_Get \<lparr>r_Fields = qso_fields\<rparr> ''SUBMODE'' = []"
  "Record_Get \<lparr>r_Fields = qso_fields\<rparr> ''FREQ'' = []"
  by code_simp+
lemma qso_time: "parseADIFDateTime ''20240102'' ''0304'' = Inr 1704164640000000"
  by (simp add: parseADIFDateTime_def go_defs time_parts_def slice_def time_Date_UTC_def days_from_civil_def eval_char days_before_year_def epoch_days_def go_zero_time_def atoi0_def)
lemma qso_strings: "TrimSpace ''W1AW'' = ''W1AW''" "TrimSpace ''20240102'' = ''20240102''" "TrimSpace ''0304'' = ''0304''" "TrimSpace ''20m'' = ''20m''" "TrimSpace ''CW'' = ''CW''"
  "ToUpper ''CW'' = ''CW''" "ToLower ''20m'' = ''20m''"
  by code_simp+

lemma qso_fields_mapped: "\<exists>row. mapADIFRecord 0 \<lparr>r_Fields = qso_fields\<rparr> = Inr (row, [])"
  by (simp add: mapADIFRecord_def qso_fields_get qso_strings qso_time map_band_def map_freq_def NormalizeModePair_CW)



end
