(* ===== verification/Import_Props.thy ===== *)
theory Import_Props
  imports Import_Limit Import_Map
begin

text \<open>
  The theorems on the import job: what it does to the contacts, and that a file imported twice is imported once.
\<close>

section \<open>A file with a contact twice\<close>

definition twice_file :: string where
  "twice_file = header_text ''1.0.0'' [] @ record_text qso_fields @ record_text qso_fields"

lemma twice_imported:
  obtains row where "importRecords sample_env (Some (twice_file, EOF)) None sample_db =
      Some (\<lparr>ct_total = 2, ct_imported = 1, ct_duplicate = 1, ct_skipped = 0, ct_errors = 0, ct_warnings = 0\<rparr>, None, None,
        sample_db\<lparr>im_qsos := [\<lparr>st_id = 1, st_logbook = 1, st_deleted = False, st_row = row\<rparr>], im_next := 2, im_clock := 2\<rparr>)"
proof -
  obtain row where row: "mapADIFRecord 0 \<lparr>r_Fields = qso_fields\<rparr> = Inr (row, [])" using qso_fields_mapped by blast
  have v: "ValidString ''1.0.0''" by (rule ValidString_ascii) simp
  obtain p where p: "Parser_Header Some (NewParser twice_file EOF None) = (p, Inr (Some \<lparr>h_Fields = standardFields ''1.0.0'' @ []\<rparr>))"
      "ready default_opts 0 ((newline @ newline) @ concat (map record_text [qso_fields, qso_fields])) p"
    using Header_formatted [of "[]" "''1.0.0''" Some "record_text qso_fields @ record_text qso_fields"] v by (auto simp: twice_file_def)
  have e: "ev_decode sample_env = Some" by (simp add: sample_env_def)
  have "importRecords sample_env (Some (twice_file, EOF)) None sample_db =
      (let s = flushBatch sample_env (import_all sample_env [qso_fields, qso_fields] (start_state sample_db)) in Some (is_counters s, None, None, is_db s))"
    by (rule importRecords_text [OF p(1) [folded e] p(2)]) (use qso_fields_fit in simp_all)
  also have "\<dots> = Some (\<lparr>ct_total = 2, ct_imported = 1, ct_duplicate = 1, ct_skipped = 0, ct_errors = 0, ct_warnings = 0\<rparr>, None, None,
        sample_db\<lparr>im_qsos := [\<lparr>st_id = 1, st_logbook = 1, st_deleted = False, st_row = row\<rparr>], im_next := 2, im_clock := 2\<rparr>)"
    by (simp add: import_all_def import_record_def row sample_env_def start_state_def zero_counters_def Let_def batchSize_def flushBatch_def
        insertQSOBatch_def deduplicateBatch_def exec_stmt_def existing_keys_def sample_db_def CopyFrom_def add_rows_def progressFlushInterval_def)
  finally show ?thesis using that by blast
qed


section \<open>Properties\<close>

text \<open>
  C21. Every record of an import is accounted for.  A run that returns has only appended contacts to the table, live ones of its logbook, as many as it
  counts as imported.  When it ends without an error, each record is imported, a duplicate, skipped because it could not be mapped, or refused by the
  database, and the errors are the skipped, the refused and the unreadable ones.  When no statement fails, the log holds one entry
  for each error and each warning counted.
\<close>

theorem import_accounts:
  assumes "importRecords env src ctx d = Some (c, err, ctx', d')"
  shows "(\<exists>rows. added (ia_LogbookID (ev_args env)) rows (im_qsos d) (im_qsos d') \<and> int (length rows) = ct_imported c)
    \<and> (err = None \<longrightarrow> (\<exists>refused unreadable. 0 \<le> refused \<and> 0 \<le> unreadable
          \<and> ct_total c = ct_imported c + ct_duplicate c + ct_skipped c + refused \<and> ct_errors c = ct_skipped c + refused + unreadable))
    \<and> (ev_ok env = (\<lambda>_. True) \<longrightarrow> (\<exists>es. im_errors d' = im_errors d @ es \<and> entries ''error'' es = ct_errors c \<and> entries ''warning'' es = ct_warnings c))"
proof -
  let ?s = "\<lambda>p. \<lparr>is_parser = p, is_counters = zero_counters, is_batch = [], is_recordNum = 0, is_db = d\<rparr>"
  have start: "accounted env d (?s p)" for p
    by (auto simp: accounted_def grown_def balanced_def logged_def zero_counters_def intro: exI [of _ "[]"])
  have zero: "?thesis" if "c = zero_counters" "d' = d"
    using that by (auto simp: zero_counters_def intro: exI [of _ "[]"])
  show ?thesis
  proof (cases "\<exists>p s. import_loop env (?s p) = Some (s, err) \<and> c = is_counters s \<and> d' = is_db s")
    case True
    then obtain p s where s: "import_loop env (?s p) = Some (s, err)" "c = is_counters s" "d' = is_db s" by blast
    from import_loop_accounted [OF s(1) start] s(2,3) show ?thesis
      by (auto simp: accounted_def grown_def balanced_def logged_def)
  next
    case False
    with assms have "c = zero_counters \<and> d' = d"
      by (auto simp: importRecords_def split: option.splits prod.splits sum.splits)
    then show ?thesis using zero by blast
  qed
qed

theorem import_accounts_witness:
  "\<exists>c d' rows. importRecords sample_env (Some (twice_file, EOF)) None sample_db = Some (c, None, None, d')
     \<and> added 1 rows [] (im_qsos d') \<and> int (length rows) = ct_imported c \<and> ct_imported c = 1 \<and> ct_total c = 2"
proof -
  obtain row where r: "importRecords sample_env (Some (twice_file, EOF)) None sample_db =
      Some (\<lparr>ct_total = 2, ct_imported = 1, ct_duplicate = 1, ct_skipped = 0, ct_errors = 0, ct_warnings = 0\<rparr>, None, None,
        sample_db\<lparr>im_qsos := [\<lparr>st_id = 1, st_logbook = 1, st_deleted = False, st_row = row\<rparr>], im_next := 2, im_clock := 2\<rparr>)" by (rule twice_imported)
  from import_accounts [OF r] r show ?thesis by (auto simp: sample_env_def sample_db_def)
qed



text \<open>
  C22. Importing a file again adds nothing.  When no statement fails and the database takes every row, then after a run of \<open>importRecords\<close>, the
  enrichment that follows it, and anything else that leaves the contacts with their callsigns, bands, modes and times, a second run on the same file returns
  with the same outcome, counts no contact as imported, and leaves the table of contacts as it is.
\<close>

theorem reimport_adds_nothing:
  assumes "importRecords env src ctx d = Some (c, err, ctx', d1)" "ev_ok env = (\<lambda>_. True)" "ev_accepts env = (\<lambda>_. True)"
    and "keeps (im_qsos (enrich_imported env d1)) (im_qsos d2)"
  shows "\<exists>c2 d3. importRecords env src ctx d2 = Some (c2, err, ctx', d3) \<and> ct_imported c2 = 0 \<and> im_qsos d3 = im_qsos d2"
proof (cases src)
  case None
  then show ?thesis using assms(1) by (auto simp: importRecords_def zero_counters_def)
next
  case (Some x)
  obtain r rerr where x: "x = (r, rerr)" by force
  let ?s = "\<lambda>p d. \<lparr>is_parser = p, is_counters = zero_counters, is_batch = [], is_recordNum = 0, is_db = d\<rparr>"
  obtain p h where h: "Parser_Header (ev_decode env) (NewParser r rerr ctx) = (p, h)" by force
  show ?thesis
  proof (cases h)
    case (Inl e)
    then show ?thesis using assms(1) Some x h by (auto simp: importRecords_def zero_counters_def)
  next
    case (Inr hdr)
    then obtain s where s: "import_loop env (?s p d) = Some (s, err)" "ctx' = p_ctx (is_parser s)" "d1 = is_db s"
      using assms(1) Some x h by (auto simp: importRecords_def split: option.splits prod.splits)
    have "keeps (im_qsos (is_db s)) (im_qsos d2)" using keeps_trans [OF enrich_imported_keeps assms(4)] s(3) by simp
    moreover have "twin (?s p d) (?s p d2)" by (simp add: twin_def)
    ultimately obtain t where t: "import_loop env (?s p d2) = Some (t, err)" "twin s t" "unchanged (?s p d2) t"
      using import_loop_twin [OF s(1) assms(2,3), rule_format, of "?s p d2"] by auto
    then show ?thesis using Some x h Inr s(2) by (simp add: importRecords_def unchanged_def twin_def zero_counters_def)
  qed
qed

theorem reimport_adds_nothing_witness:
  "\<exists>c d1 c2 d3. importRecords sample_env (Some (twice_file, EOF)) None sample_db = Some (c, None, None, d1) \<and> ct_imported c = 1
     \<and> importRecords sample_env (Some (twice_file, EOF)) None (enrich_imported sample_env d1) = Some (c2, None, None, d3) \<and> ct_imported c2 = 0"
proof -
  obtain row where r: "importRecords sample_env (Some (twice_file, EOF)) None sample_db =
      Some (\<lparr>ct_total = 2, ct_imported = 1, ct_duplicate = 1, ct_skipped = 0, ct_errors = 0, ct_warnings = 0\<rparr>, None, None,
        sample_db\<lparr>im_qsos := [\<lparr>st_id = 1, st_logbook = 1, st_deleted = False, st_row = row\<rparr>], im_next := 2, im_clock := 2\<rparr>)" by (rule twice_imported)
  let ?d1 = "sample_db\<lparr>im_qsos := [\<lparr>st_id = 1, st_logbook = 1, st_deleted = False, st_row = row\<rparr>], im_next := 2, im_clock := 2\<rparr>"
  have "ev_ok sample_env = (\<lambda>_. True)" "ev_accepts sample_env = (\<lambda>_. True)" by (simp_all add: sample_env_def)
  from reimport_adds_nothing [OF r this keeps_subset, of "enrich_imported sample_env ?d1"] r show ?thesis by auto
qed

text \<open>
  A failed first attempt loses the file.  \<open>Work\<close> removes the temporary file on every path.  When the connection cannot be acquired or the role not be set,
  the job stays pending and the queue runs it again, but the file is gone: the second attempt, in which every statement succeeds, opens nothing, marks
  the job as failed, and stores no contact.
\<close>

theorem retry_loses_file:
  assumes "\<not> ev_ok env (im_clock d) \<or> \<not> ev_ok env (im_clock d + 1)" "\<forall>n > im_clock d + 1. ev_ok env n"
    and "im_jobs d (ia_ImportJobID (ev_args env)) = Some job" "ij_status job = ''pending''" "im_clock d + 2 \<le> im_clock d2"
    and "ADIFImportWorker_Work env src ctx d = Some (d1, src', err)"
    and "d2 = d1\<lparr>im_clock := im_clock d2\<rparr>"
  shows "err \<noteq> None \<and> (\<exists>d3 job'. ADIFImportWorker_Work env src' ctx d2 = Some (d3, None, Some (RunErr ErrOpen))
    \<and> im_qsos d3 = im_qsos d \<and> im_jobs d3 (ia_ImportJobID (ev_args env)) = Some job' \<and> ij_status job' = ''error'')"
proof -
  have w1: "src' = None \<and> im_jobs d1 = im_jobs d \<and> im_qsos d1 = im_qsos d \<and> err \<noteq> None"
    using assms(1,6) by (auto simp: ADIFImportWorker_Work_def exec_stmt_def Let_def split: if_splits)
  have ok: "ev_ok env (im_clock d2 + n)" for n using assms(2,5) by auto
  have d2: "im_jobs d2 = im_jobs d" "im_qsos d2 = im_qsos d"
    using w1 arg_cong [OF assms(7), of im_jobs] arg_cong [OF assms(7), of im_qsos] by simp_all
  have ok': "ev_ok env (im_clock d2)" "ev_ok env (Suc (im_clock d2))" "ev_ok env (Suc (Suc (im_clock d2)))" "ev_ok env (Suc (Suc (Suc (im_clock d2))))"
      "ev_ok env (Suc (Suc (Suc (Suc (im_clock d2)))))" "ev_ok env (Suc (Suc (Suc (Suc (Suc (im_clock d2))))))"
      "ev_ok env (Suc (Suc (Suc (Suc (Suc (Suc (im_clock d2)))))))"
    using ok [of 0] ok [of 1] ok [of 2] ok [of 3] ok [of 4] ok [of 5] ok [of 6] by (simp_all add: eval_nat_numeral)
  show ?thesis
    using w1 ok' assms(3,4) d2
    by (simp add: ADIFImportWorker_Work_def exec_stmt_def countADIFRecords_def importRecords_def StartImportJob_def update_job_def finish_import_def
        CreateImportJobError_def CompleteImportJob_def createImportNotification_def set_counters_def Let_def)
qed

theorem retry_loses_file_witness:
  "\<exists>d1 d3 job'. ADIFImportWorker_Work (sample_env\<lparr>ev_ok := (\<lambda>n. n \<noteq> 0)\<rparr>) (Some (twice_file, EOF)) None sample_db = Some (d1, None, Some AcquireErr)
     \<and> ADIFImportWorker_Work (sample_env\<lparr>ev_ok := (\<lambda>n. n \<noteq> 0)\<rparr>) None None (d1\<lparr>im_clock := 2\<rparr>) = Some (d3, None, Some (RunErr ErrOpen))
     \<and> im_qsos d3 = [] \<and> im_jobs d3 1 = Some job' \<and> ij_status job' = ''error''"
proof -
  let ?env = "sample_env\<lparr>ev_ok := (\<lambda>n. n \<noteq> 0)\<rparr>" and ?d1 = "sample_db\<lparr>im_clock := 1\<rparr>"
  have "ADIFImportWorker_Work ?env (Some (twice_file, EOF)) None sample_db = Some (?d1, None, Some AcquireErr)"
    by (simp add: ADIFImportWorker_Work_def exec_stmt_def sample_db_def)
  with retry_loses_file [of ?env sample_db sample_job "?d1\<lparr>im_clock := 2\<rparr>" "Some (twice_file, EOF)" None ?d1 None "Some AcquireErr"]
  show ?thesis by (auto simp: sample_env_def sample_db_def sample_job_def)
qed

end
