(* ===== verification/Adif_Export.thy ===== *)
theory Adif_Export
  imports Adif_Import Adif_Writer "HOL-Library.Product_Lexorder"
begin

text \<open>
  \<open>api/internal/handler/export.go\<close>: the export of contacts as an ADIF file.

  \<open>num_text\<close> is the text that PostgreSQL gives for a numeric column, \<open>float_text\<close> the shortest text of \<open>strconv.FormatFloat\<close>, and \<open>json_text\<close> that of a nested
  JSON value; an object of the column \<open>extra\<close> is a list of its members in the order of the iteration.
\<close>

section \<open>Records\<close>

definition setField :: "string \<Rightarrow> string \<Rightarrow> Record \<Rightarrow> Record" where
  "setField name value rec = (if TrimSpace value = [] then rec else Record_Set rec name (TrimSpace value))"

definition setFieldPtr :: "string \<Rightarrow> string option \<Rightarrow> Record \<Rightarrow> Record" where
  "setFieldPtr name value rec = (case value of None \<Rightarrow> rec | Some v \<Rightarrow> setField name v rec)"

text \<open>\<open>setFieldInt32\<close> and \<open>setFieldInt16\<close>\<close>

definition setFieldInt :: "string \<Rightarrow> int option \<Rightarrow> Record \<Rightarrow> Record" where
  "setFieldInt name value rec = (case value of None \<Rightarrow> rec | Some v \<Rightarrow> Record_Set rec name (show_int v))"

definition TrimRightChar :: "char \<Rightarrow> string \<Rightarrow> string" where
  "TrimRightChar c s = TrimRightFunc (\<lambda>x. x = c) s"

definition formatHzAsMHz :: "int \<Rightarrow> string" where
  "formatHzAsMHz hz =
     (let s = TrimRightChar (CHR ''.'') (TrimRightChar (CHR ''0'') (Sprintf_f6 (hz_to_mhz hz))) in if s = [] then ''0'' else s)"

definition setFreqField :: "string \<Rightarrow> int option \<Rightarrow> Record \<Rightarrow> Record" where
  "setFreqField name hz rec = (case hz of None \<Rightarrow> rec | Some h \<Rightarrow> if h \<le> 0 then rec else Record_Set rec name (formatHzAsMHz h))"

datatype extraValue = JString string | JNumber float64 | JBool bool | JNull | JNested string

definition stringifyExtraValue :: "(float64 \<Rightarrow> string) \<Rightarrow> (string \<Rightarrow> string option) \<Rightarrow> extraValue \<Rightarrow> string" where
  "stringifyExtraValue float_text json_text v =
     (case v of
        JString s \<Rightarrow> s
      | JNumber f \<Rightarrow> float_text f
      | JBool b \<Rightarrow> if b then ''true'' else ''false''
      | JNull \<Rightarrow> []
      | JNested raw \<Rightarrow> (case json_text raw of None \<Rightarrow> [] | Some s \<Rightarrow> s))"

definition mergeExtraFields :: "(extraValue \<Rightarrow> string) \<Rightarrow> (string \<times> extraValue) list \<Rightarrow> Record \<Rightarrow> Record" where
  "mergeExtraFields stringify extra rec =
     fold (\<lambda>(key, value) rec.
       let name = ToUpper (TrimSpace key) in
       if name = [] \<or> Record_Has rec name then rec
       else if TrimSpace (stringify value) = [] then rec
       else Record_Set rec name (stringify value)) extra rec"

text \<open>The row as the query returns it: the contact, its powers and dates as text, and the object \<open>extra\<close>.\<close>

record exportQSO =
  eq_row :: qsoRow
  eq_TxPower :: "string option"
  eq_RxPwr :: "string option"
  eq_Extra :: "(string \<times> extraValue) list"

text \<open>The columns that are written as text, in the order of the source; a date column is \<open>to_char(.., 'YYYYMMDD')\<close>.\<close>

datatype exportColumn = TextCol string string | DateCol string string | PowerCol bool

definition export_columns :: "exportColumn list" where
  "export_columns = [
     TextCol ''RST_SENT'' ''rst_sent'', TextCol ''RST_RCVD'' ''rst_rcvd'', TextCol ''NAME'' ''name'', TextCol ''QTH'' ''qth'', PowerCol True, PowerCol False,
     TextCol ''MY_ANTENNA'' ''my_antenna'', TextCol ''MY_RIG'' ''my_rig'', TextCol ''GRIDSQUARE'' ''gridsquare'', TextCol ''COUNTRY'' ''country'',
     TextCol ''STATE'' ''state'', TextCol ''COUNTY'' ''county'', TextCol ''CONT'' ''continent'', TextCol ''MY_GRIDSQUARE'' ''my_gridsquare'',
     TextCol ''MY_CITY'' ''my_city'', TextCol ''MY_STATE'' ''my_state'', TextCol ''MY_COUNTRY'' ''my_country'', TextCol ''OPERATOR'' ''operator'',
     TextCol ''STATION_CALLSIGN'' ''station_callsign'', TextCol ''CONTEST_ID'' ''contest_id'', TextCol ''SRX'' ''srx'', TextCol ''STX'' ''stx'',
     TextCol ''SRX_STRING'' ''srx_string'', TextCol ''STX_STRING'' ''stx_string'', TextCol ''SAT_NAME'' ''sat_name'', TextCol ''SAT_MODE'' ''sat_mode'',
     TextCol ''PROP_MODE'' ''prop_mode'', TextCol ''SOTA_REF'' ''sota_ref'', TextCol ''MY_SOTA_REF'' ''my_sota_ref'', TextCol ''WWFF_REF'' ''wwff_ref'',
     TextCol ''MY_WWFF_REF'' ''my_wwff_ref'', TextCol ''IOTA'' ''iota'', TextCol ''SIG'' ''sig'', TextCol ''SIG_INFO'' ''sig_info'',
     TextCol ''QSL_SENT'' ''qsl_sent'', DateCol ''QSLSDATE'' ''qsl_sent_date'', TextCol ''QSL_RCVD'' ''qsl_rcvd'', DateCol ''QSLRDATE'' ''qsl_rcvd_date'',
     TextCol ''QSL_VIA'' ''qsl_via'', TextCol ''LOTW_QSL_SENT'' ''lotw_qsl_sent'', DateCol ''LOTW_QSLSDATE'' ''lotw_qsl_sent_date'',
     TextCol ''LOTW_QSL_RCVD'' ''lotw_qsl_rcvd'', DateCol ''LOTW_QSLRDATE'' ''lotw_qsl_rcvd_date'', TextCol ''EQSL_QSL_SENT'' ''eqsl_qsl_sent'',
     DateCol ''EQSL_QSLSDATE'' ''eqsl_qsl_sent_date'', TextCol ''EQSL_QSL_RCVD'' ''eqsl_qsl_rcvd'', DateCol ''EQSL_QSLRDATE'' ''eqsl_qsl_rcvd_date'',
     TextCol ''COMMENT'' ''comment'', TextCol ''NOTES'' ''notes'']"

definition setColumn :: "exportQSO \<Rightarrow> exportColumn \<Rightarrow> Record \<Rightarrow> Record" where
  "setColumn q c =
     (case c of
        TextCol field col \<Rightarrow> setFieldPtr field (get_col (qr_Texts (eq_row q)) col)
      | DateCol field col \<Rightarrow> setFieldPtr field (map_option Format_20060102 (get_col (qr_Dates (eq_row q)) col))
      | PowerCol tx \<Rightarrow> if tx then setFieldPtr ''TX_PWR'' (eq_TxPower q) else setFieldPtr ''RX_PWR'' (eq_RxPwr q))"

definition export_ints :: "(string \<times> string) list" where
  "export_ints = [(''DXCC'', ''dxcc''), (''CQZ'', ''cq_zone''), (''ITUZ'', ''itu_zone''), (''MY_DXCC'', ''my_dxcc''), (''SFI'', ''sfi''),
     (''A_INDEX'', ''a_index''), (''K_INDEX'', ''k_index'')]"

definition export_identity :: "qsoRow \<Rightarrow> Record" where
  "export_identity r =
     (let rec0 = setFieldPtr ''SUBMODE'' (qr_Submode r) (setField ''MODE'' (qr_Mode r) (setField ''BAND'' (qr_Band r)
          (setField ''CALL'' (qr_Callsign r) \<lparr>r_Fields = []\<rparr>)));
          rec1 = setField ''TIME_ON'' (Format_150405 (qr_DatetimeOn r))
            (setField ''QSO_DATE'' (Format_20060102 (qr_DatetimeOn r)) (fst (CanonicalizeRecordMode rec0)));
          rec2 = (case qr_DatetimeOff r of
             None \<Rightarrow> rec1
           | Some t \<Rightarrow> setField ''TIME_OFF'' (Format_150405 t) (setField ''QSO_DATE_OFF'' (Format_20060102 t) rec1)) in
      setFreqField ''FREQ_RX'' (qr_FreqRxHz r) (setFreqField ''FREQ'' (qr_FrequencyHz r) rec2))"

definition toADIFRecord :: "(extraValue \<Rightarrow> string) \<Rightarrow> exportQSO \<Rightarrow> Record" where
  "toADIFRecord stringify q =
     (let r = eq_row q;
          rec1 = fold (setColumn q) export_columns (export_identity r);
          rec2 = fold (\<lambda>(field, col). setFieldInt field (get_col (qr_Ints r) col)) export_ints rec1;
          rec3 = (if qr_PotaRefs r \<noteq> [] then setField ''POTA_REF'' (Join '','' (qr_PotaRefs r)) rec2 else rec2);
          rec4 = (if qr_MyPotaRefs r \<noteq> [] then setField ''MY_POTA_REF'' (Join '','' (qr_MyPotaRefs r)) rec3 else rec3) in
      mergeExtraFields stringify (eq_Extra q) rec4)"


section \<open>The query and the handler\<close>

record exportFilters =
  ef_Logbook :: "int option"
  ef_Band :: "string option"
  ef_Mode :: "string option"
  ef_Dxcc :: "int option"
  ef_DateFrom :: "int option"
  ef_DateTo :: "int option"

text \<open>\<open>time.Parse("2006-01-02", raw)\<close>, and \<open>parseExportDate\<close>, with \<open>rfc3339\<close> for the first layout; the last moment of a day in microseconds.\<close>

definition Parse_2006_01_02 :: "string \<Rightarrow> int option" where
  "Parse_2006_01_02 s =
     (if length s = 10 \<and> s ! 4 = CHR ''-'' \<and> s ! 7 = CHR ''-'' then Parse_20060102 (slice 0 4 s @ slice 5 7 s @ slice 8 10 s) else None)"

definition parseExportDate :: "(string \<Rightarrow> int option) \<Rightarrow> string \<Rightarrow> bool \<Rightarrow> int option" where
  "parseExportDate rfc3339 raw endOfDay =
     (case rfc3339 raw of
        Some t \<Rightarrow> Some t
      | None \<Rightarrow>
          (case (case Parse_2006_01_02 raw of Some t \<Rightarrow> Some t | None \<Rightarrow> Parse_20060102 raw) of
             None \<Rightarrow> None
           | Some t \<Rightarrow> Some (if endOfDay then t + 86400 * usec - 1 else t)))"

text \<open>
  \<open>parseExportFilters\<close> from the parameters of the request (an absent one is empty): \<open>uuid_parse\<close> stands for \<open>uuid.Parse\<close>.  \<open>int32(n)\<close> wraps around.
\<close>

datatype filterErr = BadLogbook | BadDxcc | BadDateFrom | BadDateTo | DatesSwapped

definition optional :: "'e \<Rightarrow> (string \<Rightarrow> 'a option) \<Rightarrow> string \<Rightarrow> 'e + 'a option" where
  "optional e p s = (if TrimSpace s = [] then Inr None else case p (TrimSpace s) of None \<Rightarrow> Inl e | Some v \<Rightarrow> Inr (Some v))"

definition parseExportFilters ::
    "(string \<Rightarrow> int option) \<Rightarrow> (string \<Rightarrow> int option) \<Rightarrow> (string \<Rightarrow> string) \<Rightarrow> filterErr + exportFilters" where
  "parseExportFilters uuid_parse rfc3339 query =
     (case optional BadLogbook uuid_parse (query ''logbook_uuid'') of
        Inl e \<Rightarrow> Inl e
      | Inr logbook \<Rightarrow>
     (case optional BadDxcc (\<lambda>s. map_option (\<lambda>n. (n + 2147483648) mod 4294967296 - 2147483648) (Atoi s)) (query ''dxcc'') of
        Inl e \<Rightarrow> Inl e
      | Inr dxcc \<Rightarrow>
     (case optional BadDateFrom (\<lambda>s. parseExportDate rfc3339 s False) (query ''date_from'') of
        Inl e \<Rightarrow> Inl e
      | Inr since \<Rightarrow>
     (case optional BadDateTo (\<lambda>s. parseExportDate rfc3339 s True) (query ''date_to'') of
        Inl e \<Rightarrow> Inl e
      | Inr until \<Rightarrow>
          if (case (since, until) of (Some a, Some b) \<Rightarrow> b < a | _ \<Rightarrow> False) then Inl DatesSwapped
          else Inr \<lparr>ef_Logbook = logbook, ef_Band = optStr (query ''band''), ef_Mode = optStr (query ''mode''), ef_Dxcc = dxcc, ef_DateFrom = since,
                    ef_DateTo = until\<rparr>))))"

definition export_where :: "exportFilters \<Rightarrow> (int \<Rightarrow> bool) \<Rightarrow> storedQSO \<Rightarrow> bool" where
  "export_where f logbook_live q \<longleftrightarrow>
     logbook_live (st_logbook q) \<and> \<not> st_deleted q
     \<and> (case ef_Logbook f of None \<Rightarrow> True | Some l \<Rightarrow> st_logbook q = l)
     \<and> (case ef_Band f of None \<Rightarrow> True | Some b \<Rightarrow> ToLower (qr_Band (st_row q)) = ToLower b)
     \<and> (case ef_Mode f of None \<Rightarrow> True | Some m \<Rightarrow> ToUpper (qr_Mode (st_row q)) = ToUpper m)
     \<and> (case ef_Dxcc f of None \<Rightarrow> True | Some d \<Rightarrow> get_col (qr_Ints (st_row q)) ''dxcc'' = Some d)
     \<and> (case ef_DateFrom f of None \<Rightarrow> True | Some t \<Rightarrow> t \<le> qr_DatetimeOn (st_row q))
     \<and> (case ef_DateTo f of None \<Rightarrow> True | Some t \<Rightarrow> qr_DatetimeOn (st_row q) \<le> t)"

text \<open>\<open>exportADIFSQL\<close>, in the order of time and identifier.\<close>

definition exportADIFSQL :: "exportFilters \<Rightarrow> (int \<Rightarrow> bool) \<Rightarrow> storedQSO list \<Rightarrow> storedQSO list" where
  "exportADIFSQL f logbook_live qsos = sort_key (\<lambda>q. (qr_DatetimeOn (st_row q), st_id q)) (filter (export_where f logbook_live) qsos)"

text \<open>The row that is scanned: \<open>num_text\<close> gives the text of a numeric column.\<close>

definition scanExportRow :: "(float64 \<Rightarrow> string) \<Rightarrow> storedQSO \<Rightarrow> exportQSO" where
  "scanExportRow num_text q =
     \<lparr>eq_row = st_row q, eq_TxPower = map_option num_text (get_col (qr_Floats (st_row q)) ''tx_power''),
      eq_RxPwr = map_option num_text (get_col (qr_Floats (st_row q)) ''rx_pwr''), eq_Extra = map (\<lambda>(k, v). (k, JString v)) (qr_Extra (st_row q))\<rparr>"

text \<open>The body of the response; \<open>good\<close> is the number of writes that succeed (\<^const>\<open>None\<close>: all), and the handler stops silently at the first that fails.\<close>

definition export_body :: "nat option \<Rightarrow> Record list \<Rightarrow> string" where
  "export_body good recs =
     (case WriteHeader (NewWriterWithOptions good \<lparr>wo_ProgramVersion = ''0.1.0'', wo_FieldsPerLine = 0, wo_IncludeHeader = True\<rparr>) [] of
        (w, Some _) \<Rightarrow> w_out w
      | (w, None) \<Rightarrow> w_out (fst (WriteRecords w recs)))"

datatype exportResponse = ExportFailure nat string | Attachment string

datatype permission = Granted | Forbidden | RoleError

record exportEnv =
  xe_uuid :: "string \<Rightarrow> int option"
  xe_rfc3339 :: "string \<Rightarrow> int option"
  xe_num_text :: "float64 \<Rightarrow> string"
  xe_stringify :: "extraValue \<Rightarrow> string"
  xe_user :: "int option"
  xe_tx_ok :: bool
  xe_query_ok :: bool
  xe_permission :: "int \<Rightarrow> int \<Rightarrow> permission"
  xe_visible :: "int \<Rightarrow> storedQSO \<Rightarrow> bool"
  xe_live :: "int \<Rightarrow> bool"
  xe_good :: "nat option"

text \<open>\<open>xe_visible user\<close>: the contacts that the row-level policies of the tenant transaction show to the user.\<close>

definition ExportHandler_ADIF :: "exportEnv \<Rightarrow> (string \<Rightarrow> string) \<Rightarrow> storedQSO list \<Rightarrow> exportResponse" where
  "ExportHandler_ADIF env query qsos =
     (case xe_user env of
        None \<Rightarrow> ExportFailure 401 ''unauthorized''
      | Some user \<Rightarrow>
     (case parseExportFilters (xe_uuid env) (xe_rfc3339 env) query of
        Inl e \<Rightarrow> ExportFailure 400 ''invalid request''
      | Inr f \<Rightarrow>
          if \<not> xe_tx_ok env then ExportFailure 503 ''database unavailable''
          else (case (case ef_Logbook f of None \<Rightarrow> Granted | Some l \<Rightarrow> xe_permission env user l) of
             Forbidden \<Rightarrow> ExportFailure 403 ''forbidden''
           | RoleError \<Rightarrow> ExportFailure 500 ''authorization failed''
           | Granted \<Rightarrow>
               if \<not> xe_query_ok env then ExportFailure 500 ''failed to export adif''
               else Attachment (export_body (xe_good env)
                 (map (\<lambda>q. toADIFRecord (xe_stringify env) (scanExportRow (xe_num_text env) q))
                   (exportADIFSQL f (xe_live env) (filter (xe_visible env user) qsos)))))))"

end
