(* ===== verification/Export_Values.thy ===== *)
theory Export_Values
  imports Adif_Export Import_Map
begin

text \<open>The texts of an export are read back by the import: times, dates, frequencies, numbers and lists of references.\<close>

section \<open>Times\<close>

lemma appendInt_all_digits:
  assumes "0 \<le> x" "x < 10 ^ w" "0 < w" "w \<le> 10"
  shows "length (appendInt x w) = w" "Atoi (appendInt x w) = Some x" "atoi0 (appendInt x w) = x" "all_digits (appendInt x w)"
proof -
  have n: "nat x < 10 ^ w" using assms by (simp add: nat_less_iff)
  show "length (appendInt x w) = w" using length_pad_left [OF n assms(3)] assms(1) by (simp add: appendInt_nat)
  have "(10 :: int) ^ w \<le> 10 ^ 10" using assms(4) by (intro power_increasing) auto
  then have "x \<le> MaxInt64" using assms(2) by (simp add: MaxInt64_def)
  then show a: "Atoi (appendInt x w) = Some x" using assms(1) by (simp add: appendInt_nat ParseInt_all_digits)
  then show "atoi0 (appendInt x w) = x" by (simp add: atoi0_def)
  show "all_digits (appendInt x w)" using assms(1) by (simp add: appendInt_nat)
qed

lemma digits_append_digits: "all_digits a \<Longrightarrow> all_digits b \<Longrightarrow> all_digits (a @ b)"
  by (simp add: all_digits_def)

lemma slices:
  assumes "length a = i" "length b = 2" "length c = 2"
  shows "slice 0 i (a @ b @ c) = a" "slice i (i + 2) (a @ b @ c) = b" "slice (i + 2) (i + 4) (a @ b @ c) = c" "length (a @ b @ c) = i + 4"
  using assms by (simp_all add: slice_def)

lemma time_parts_Format:
  "time_parts (Format_150405 t) = (sec_of t div 3600, sec_of t div 60 mod 60, sec_of t mod 60)" "trimmed (Format_150405 t)" "Format_150405 t \<noteq> []"
proof -
  have s: "0 \<le> sec_of t" "sec_of t < 86400" by (simp_all add: sec_of_def)
  then have h: "0 \<le> sec_of t div 3600" "sec_of t div 3600 < 10 ^ 2" by simp_all
  have h100: "(10 :: int) ^ 2 = 100" by simp
  have b: "0 \<le> x mod 60 \<and> x mod 60 < 10 ^ 2" for x :: int unfolding h100 using pos_mod_bound [of 60 x] pos_mod_sign [of 60 x] by linarith
  have mi: "0 \<le> sec_of t div 60 mod 60" "sec_of t div 60 mod 60 < 10 ^ 2" and se: "0 \<le> sec_of t mod 60" "sec_of t mod 60 < 10 ^ 2"
    using b by blast+
  note d = appendInt_all_digits [OF h, simplified] appendInt_all_digits [OF mi, simplified] appendInt_all_digits [OF se, simplified]
  let ?a = "appendInt (sec_of t div 3600) 2" and ?b = "appendInt (sec_of t div 60 mod 60) 2" and ?c = "appendInt (sec_of t mod 60) 2"
  have f: "Format_150405 t = ?a @ ?b @ ?c" by (simp add: Format_150405_def Format_1504_def)
  have sl: "slice 0 2 (?a @ ?b @ ?c) = ?a" "slice 2 4 (?a @ ?b @ ?c) = ?b" "slice 4 6 (?a @ ?b @ ?c) = ?c" "length (?a @ ?b @ ?c) = 6"
    using slices [OF d(1,5,9)] by simp_all
  show "time_parts (Format_150405 t) = (sec_of t div 3600, sec_of t div 60 mod 60, sec_of t mod 60)"
    unfolding f time_parts_def sl d(3,7,11) by simp
  have "all_digits (?a @ ?b @ ?c)" by (intro digits_append_digits d(4,8,12))
  then show "trimmed (Format_150405 t)" "Format_150405 t \<noteq> []" unfolding f by (auto intro: all_digits_trimmed simp: all_digits_def)
qed

lemma seconds_parts: "day_of t * 86400 + sec_of t div 3600 * 3600 + sec_of t div 60 mod 60 * 60 + sec_of t mod 60 = t div usec"
proof -
  define s where "s = t div usec"
  have day: "day_of t = s div 86400" by (simp add: day_of_def s_def flip: zdiv_zmult2_eq)
  have sec: "sec_of t = s mod 86400" by (simp add: sec_of_def s_def)
  have h: "x div 3600 * 3600 + x div 60 mod 60 * 60 + x mod 60 = x" for x :: int
  proof -
    have "x div 3600 = x div 60 div 60" by (simp flip: zdiv_zmult2_eq)
    moreover have "x div 60 = x div 60 div 60 * 60 + x div 60 mod 60" by (simp only: div_mult_mod_eq)
    moreover have "x = x div 60 * 60 + x mod 60" by (simp only: div_mult_mod_eq)
    ultimately show ?thesis by linarith
  qed
  show ?thesis using h [of "s mod 86400"] div_mult_mod_eq [of s 86400] unfolding day sec s_def [symmetric] by linarith
qed

text \<open>The years that the import accepts.\<close>

definition plausible :: "int \<Rightarrow> bool" where
  "plausible t \<longleftrightarrow> usec dvd t \<and> 1900 \<le> fst (civil_from_days (day_of t)) \<and> fst (civil_from_days (day_of t)) \<le> 2100"

lemma Format_date:
  assumes c: "civil_from_days (day_of t) = (y, m, d)" and y: "1900 \<le> y" "y \<le> 2100"
  shows "length (Format_20060102 t) = 8" "trimmed (Format_20060102 t)" "Atoi (slice 0 4 (Format_20060102 t)) = Some y"
    "Atoi (slice 4 6 (Format_20060102 t)) = Some (int m)" "Atoi (slice 6 8 (Format_20060102 t)) = Some d"
proof -
  have v: "valid_civil (y, m, d)" using valid_civil_from_days [of "day_of t"] by (simp add: c)
  then have m: "1 \<le> m" "m \<le> 12" and d: "0 \<le> d" "d \<le> month_lengths y ! (m - 1)" by (auto simp: valid_civil_def)
  have "m - 1 < 12" using m by linarith
  from month_lengths_le [OF this, of y] have d2: "d < 10 ^ 2" using d by simp
  have y4: "0 \<le> y" "y < 10 ^ 4" using y by simp_all
  have m2: "0 \<le> int m" "int m < 10 ^ 2" using m by simp_all
  note e = appendInt_all_digits [OF y4, simplified] appendInt_all_digits [OF m2, simplified] appendInt_all_digits [OF d(1) d2, simplified]
  let ?a = "appendInt y 4" and ?b = "appendInt (int m) 2" and ?c = "appendInt d 2"
  have f: "Format_20060102 t = ?a @ ?b @ ?c" by (simp add: Format_20060102_def c)
  have sl: "slice 0 4 (?a @ ?b @ ?c) = ?a" "slice 4 6 (?a @ ?b @ ?c) = ?b" "slice 6 8 (?a @ ?b @ ?c) = ?c" "length (?a @ ?b @ ?c) = 8"
    using slices [OF e(1,5,9)] by simp_all
  show "Atoi (slice 0 4 (Format_20060102 t)) = Some y" "Atoi (slice 4 6 (Format_20060102 t)) = Some (int m)"
    "Atoi (slice 6 8 (Format_20060102 t)) = Some d" "length (Format_20060102 t) = 8" unfolding f sl by (rule e(2) e(6) e(10) refl)+
  have "all_digits (?a @ ?b @ ?c)" by (intro digits_append_digits e(4,8,12))
  then show "trimmed (Format_20060102 t)" unfolding f by (rule all_digits_trimmed)
qed

lemma fst_civil_from_days: "fst (civil_from_days n) = fst (year_day n)"
  by (simp add: civil_from_days_def split: prod.splits)

lemma go_zero_time_year: "fst (civil_from_days (day_of go_zero_time)) = 1"
proof -
  have k: "n * k div k = n" if "0 < k" for n k :: int using that by simp
  have z: "go_zero_time = - epoch_days * (86400 * usec)" by (simp only: go_zero_time_def mult.assoc)
  have "day_of go_zero_time = - epoch_days" unfolding day_of_def z by (rule k) simp
  moreover have "year_day (- epoch_days) = (1, 0)" unfolding year_day_def add.left_inverse Let_def by simp
  ultimately show ?thesis by (simp only: fst_civil_from_days fst_conv)
qed

lemma time_Date_UTC_civil:
  assumes "civil_from_days n = (y, m, d)"
  shows "time_Date_UTC y (int m) d h mi s = (n * 86400 + h * 3600 + mi * 60 + s) * usec"
proof -
  have "valid_civil (y, m, d)" using valid_civil_from_days [of n] by (simp add: assms)
  then have m: "1 \<le> m" "m \<le> 12" by (auto simp: valid_civil_def)
  then have "(int m - 1) div 12 = 0" "(int m - 1) mod 12 = int (m - 1)" by (auto simp: of_nat_diff)
  moreover have dc: "days_from_civil (y, m, 1) + (d - 1) = n"
    using days_from_civil_inverse [of n] by (simp add: assms days_from_civil_def)
  moreover have "nat (int (m - 1)) + 1 = m" using m by simp
  ultimately show ?thesis unfolding time_Date_UTC_def by simp
qed

lemma parseADIFDateTime_parts:
  assumes "1900 \<le> fst (civil_from_days (day_of t))" "fst (civil_from_days (day_of t)) \<le> 2100" "trimmed u" "time_parts u = (h, mi, s)"
    "0 \<le> h * 3600 + mi * 60 + s" "h * 3600 + mi * 60 + s < 86400"
  shows "parseADIFDateTime (Format_20060102 t) u = Inr ((day_of t * 86400 + (h * 3600 + mi * 60 + s)) * usec)"
proof -
  obtain y m d where c: "civil_from_days (day_of t) = (y, m, d)" by (metis surj_pair)
  note e = Format_date [OF c assms(1,2) [unfolded c fst_conv]]
  let ?s = "h * 3600 + mi * 60 + s"
  let ?t = "(day_of t * 86400 + ?s) * usec"
  have "day_of ?t = day_of t"
  proof -
    have "day_of ?t = (day_of t * 86400 + ?s) div 86400" unfolding day_of_def [of ?t] by (simp add: mult.commute [of _ usec] div_mult_mult1)
    also have "\<dots> = day_of t" using assms(5,6) by simp
    finally show ?thesis .
  qed
  then have "?t \<noteq> go_zero_time" using go_zero_time_year assms(1) by auto
  moreover have "time_Date_UTC y (int m) d h mi s = ?t" using time_Date_UTC_civil [OF c, of h mi s] by (simp add: algebra_simps)
  ultimately show ?thesis
    using e assms(1-4) c by (simp add: parseADIFDateTime_def TrimSpace_trimmed)
qed

lemma parse_Format_time:
  assumes "plausible t"
  shows "parseADIFDateTime (Format_20060102 t) (Format_150405 t) = Inr t"
proof -
  have s: "0 \<le> sec_of t" "sec_of t < 86400" by (simp_all add: sec_of_def)
  have day: "day_of t = t div usec div 86400" by (simp add: day_of_def flip: zdiv_zmult2_eq)
  have "day_of t * 86400 + sec_of t = t div usec" unfolding day sec_of_def by (rule div_mult_mod_eq)
  with seconds_parts [of t] have h: "sec_of t div 3600 * 3600 + sec_of t div 60 mod 60 * 60 + sec_of t mod 60 = sec_of t" by linarith
  have "parseADIFDateTime (Format_20060102 t) (Format_150405 t) = Inr ((day_of t * 86400 + sec_of t) * usec)"
    using parseADIFDateTime_parts [of t "Format_150405 t", OF _ _ time_parts_Format(2,1)] assms s unfolding h plausible_def by blast
  moreover have "(day_of t * 86400 + sec_of t) * usec = t"
    unfolding \<open>day_of t * 86400 + sec_of t = t div usec\<close> using assms by (intro dvd_div_mult_self) (simp add: plausible_def)
  ultimately show ?thesis by simp
qed

lemma parse_Format_date:
  assumes "plausible t" "usec * 86400 dvd t"
  shows "parseADIFDate (Format_20060102 t) = Inr t"
proof -
  have "parseADIFDate (Format_20060102 t) = Inr (day_of t * 86400 * usec)"
    using parseADIFDateTime_parts [of t "[]" 0 0 0] assms(1) by (simp add: parseADIFDate_def plausible_def time_parts_def)
  moreover have "day_of t * 86400 * usec = t" using assms(2) by (simp add: day_of_def mult.commute dvd_div_mult_self mult.assoc)
  ultimately show ?thesis by simp
qed


section \<open>Frequencies\<close>

lemma base_val_digits: "base_val 10 s = digits_val s" if "list_all IsDigit s" for s
  using that
proof (induction s rule: rev_induct)
  case (snoc c s)
  then show ?case by (simp add: base_val_def digits_val_def hex_digit_def IsDigit_def)
qed (simp add: base_val_def digits_val_def)

text \<open>The decimals without their trailing zeros: the same value.\<close>

lemma TrimRightChar_zeros: "\<exists>k. s = TrimRightChar (CHR ''0'') s @ replicate k (CHR ''0'')"
proof -
  have "rev s = takeWhile (\<lambda>x. x = CHR ''0'') (rev s) @ dropWhile (\<lambda>x. x = CHR ''0'') (rev s)" by simp
  then have "s = rev (dropWhile (\<lambda>x. x = CHR ''0'') (rev s)) @ rev (takeWhile (\<lambda>x. x = CHR ''0'') (rev s))" by (metis rev_append rev_rev_ident)
  moreover have "rev (takeWhile (\<lambda>x. x = CHR ''0'') (rev s)) = replicate (length (takeWhile (\<lambda>x. x = CHR ''0'') (rev s))) (CHR ''0'')"
    by (intro replicate_eqI) (auto dest: set_takeWhileD)
  ultimately show ?thesis by (auto simp: TrimRightChar_def TrimRightFunc_def)
qed

lemma TrimRightChar_append: "TrimRightChar c (a @ b) = (if TrimRightChar c b = [] then TrimRightChar c a else a @ TrimRightChar c b)"
  by (auto simp: TrimRightChar_def TrimRightFunc_def dropWhile_append)

lemma TrimRightChar_digits: "list_all IsDigit s \<Longrightarrow> list_all IsDigit (TrimRightChar (CHR ''0'') s)"
  using TrimRightChar_zeros [of s] by (metis list_all_append)

lemma TrimRightChar_last: "s \<noteq> [] \<Longrightarrow> last s \<noteq> c \<Longrightarrow> TrimRightChar c s = s"
  by (cases s rule: rev_cases) (simp_all add: TrimRightChar_def TrimRightFunc_def)

lemma last_TrimRightChar: "TrimRightChar c s \<noteq> [] \<Longrightarrow> last (TrimRightChar c s) \<noteq> c"
  using hd_dropWhile [of "\<lambda>x. x = c" "rev s"] by (auto simp: TrimRightChar_def TrimRightFunc_def last_rev)

lemma digits_val_append: "digits_val (a @ b) = digits_val a * 10 ^ length b + digits_val b"
proof (induction b rule: rev_induct)
  case (snoc c b)
  then show ?case by (simp add: digits_val_snoc algebra_simps flip: append_assoc)
qed (simp add: digits_val_def)

lemma digits_val_replicate: "digits_val (replicate k (CHR ''0'')) = 0"
  using digits_val_zeros [of k "[]"] by (simp add: digits_val_def)

lemma formatHzAsMHz_text:
  assumes "0 < hz" "hz < 2 ^ 40"
  obtains fp where "list_all IsDigit fp" "formatHzAsMHz hz = show_nat (nat hz div 1000000) @ (if fp = [] then [] else CHR ''.'' # fp)"
    "length fp \<le> 6" "digits_val fp * 10 ^ (6 - length fp) = nat hz mod 1000000"
proof -
  define fp where "fp = TrimRightChar (CHR ''0'') (pad_left 6 (show_nat (nat hz mod 1000000)))"
  let ?f = "pad_left 6 (show_nat (nat hz mod 1000000))" and ?a = "show_nat (nat hz div 1000000)"
  have lf: "length ?f = 6" by (rule length_pad_left) auto
  obtain k where k: "?f = fp @ replicate k (CHR ''0'')" using TrimRightChar_zeros unfolding fp_def by blast
  with lf have k6: "length fp \<le> 6" "k = 6 - length fp" by (metis length_append le_add1, metis length_append length_replicate diff_add_inverse)
  have dig: "list_all IsDigit fp" unfolding fp_def using all_digits_pad_left [of 6 "nat hz mod 1000000"] by (intro TrimRightChar_digits) (simp add: all_digits_def)
  have "digits_val ?f = nat hz mod 1000000" by simp
  then have val: "digits_val fp * 10 ^ (6 - length fp) = nat hz mod 1000000"
    by (simp add: k digits_val_append digits_val_replicate k6(2))
  have f6: "Sprintf_f6 (hz_to_mhz hz) = ?a @ ''.'' @ ?f" using assms by (intro Sprintf_mhz) auto
  have la: "last ?a \<noteq> CHR ''.''" "?a \<noteq> []" using show_nat_notin [of "CHR ''.''" "nat hz div 1000000"] by (simp_all add: IsDigit_def) (metis last_in_set show_nat_ne)
  have "TrimRightChar (CHR ''.'') (TrimRightChar (CHR ''0'') (?a @ ''.'' @ ?f)) = ?a @ (if fp = [] then [] else CHR ''.'' # fp)"
  proof (cases "fp = []")
    case True
    then have "TrimRightChar (CHR ''0'') (?a @ ''.'' @ ?f) = ?a @ ''.''"
      using fp_def TrimRightChar_append [of "CHR ''0''" "?a @ ''.''" ?f] by (simp add: TrimRightChar_last)
    moreover have "TrimRightChar (CHR ''.'') (?a @ ''.'') = ?a" using la by (simp add: TrimRightChar_append TrimRightChar_last) (simp add: TrimRightChar_def TrimRightFunc_def)
    ultimately show ?thesis using True by simp
  next
    case False
    then have "TrimRightChar (CHR ''0'') (?a @ ''.'' @ ?f) = (?a @ ''.'') @ fp"
      using fp_def TrimRightChar_append [of "CHR ''0''" "?a @ ''.''" ?f] by simp
    moreover have "IsDigit (last fp)" using dig last_in_set [OF False] unfolding list_all_iff by blast
    then have "last fp \<noteq> CHR ''.''" by (auto simp: IsDigit_def)
    then have "TrimRightChar (CHR ''.'') ((?a @ ''.'') @ fp) = (?a @ ''.'') @ fp" using False by (intro TrimRightChar_last) auto
    ultimately show ?thesis using False by simp
  qed
  then have "formatHzAsMHz hz = ?a @ (if fp = [] then [] else CHR ''.'' # fp)" by (simp add: formatHzAsMHz_def f6)
  with dig k6(1) val that show ?thesis by blast
qed

lemma cut_notin:
  assumes "c \<notin> set a"
  shows "cut c (a @ c # b) = (a, Some b)" "cut c a = (a, None)"
proof -
  have "\<And>x. x \<in> set a \<Longrightarrow> x \<noteq> c" using assms by blast
  then show "cut c (a @ c # b) = (a, Some b)" "cut c a = (a, None)"
    using assms by (simp_all add: cut_def takeWhile_append2 dropWhile_append2 takeWhile_eq_all_conv)
qed

lemma parse_decimal_point:
  assumes "all_digits a" "list_all IsDigit fp"
  shows "parse_decimal (a @ (if fp = [] then [] else CHR ''.'' # fp)) = Some (of_nat (digits_val (a @ fp)) * pow10 (- int (length fp)))"
proof -
  let ?s = "a @ (if fp = [] then [] else CHR ''.'' # fp)"
  have e: "lower_char c \<noteq> CHR ''e''" if "c \<in> set ?s" for c
    using that assms by (auto simp: all_digits_def list_all_iff IsDigit_def lower_char_def is_upper_def split: if_splits)
  have m: "takeWhile (\<lambda>c. lower_char c \<noteq> CHR ''e'') ?s = ?s" "dropWhile (\<lambda>c. lower_char c \<noteq> CHR ''e'') ?s = []"
    using e by (simp_all only: takeWhile_eq_all_conv dropWhile_eq_Nil_conv) blast+
  have "CHR ''.'' \<notin> set a" using assms(1) by (intro all_digits_notin) (auto simp: IsDigit_def)
  then have "cut (CHR ''.'') ?s = (a, if fp = [] then None else Some fp)" by (simp add: cut_notin)
  then have "parse_mantissa 10 ?s = Some (digits_val (a @ fp), length fp)"
    using assms base_val_digits [of "a @ fp"] by (cases "fp = []") (simp_all add: parse_mantissa_def all_digits_def)
  then show ?thesis unfolding parse_decimal_def m by simp
qed

lemma digit_strings:
  assumes "IsDigit c"
  shows "c \<noteq> CHR ''-''" "c \<noteq> CHR ''+''" "lower_char c = c"
  using assms by (auto simp: IsDigit_def lower_char_def is_upper_def)

lemma ParseFloat_digits:
  assumes "all_digits a" "list_all IsDigit fp" "s = a @ (if fp = [] then [] else CHR ''.'' # fp)"
  shows "ParseFloat s = round64 (of_nat (digits_val (a @ fp)) * pow10 (- int (length fp)))" "trimmed s" "s \<noteq> []"
proof -
  obtain c cs where a: "a = c # cs" "IsDigit c" using assms(1) by (cases a) (auto simp: all_digits_def)
  note d = digit_strings [OF a(2)]
  obtain cs' where s: "s = c # cs'" using assms(3) a by simp
  have c: "c \<noteq> CHR ''i''" "c \<noteq> CHR ''n''" using a(2) by (auto simp: IsDigit_def)
  have low: "ToLower s = c # ToLower cs'" using d(3) by (simp add: s ToLower_def)
  have x: "lower_char e \<noteq> CHR ''x''" if "e \<in> set s" for e
    using that assms by (auto simp: all_digits_def list_all_iff IsDigit_def lower_char_def is_upper_def split: if_splits)
  have "ToLower (take 2 s) \<noteq> ''0x''"
  proof
    assume "ToLower (take 2 s) = ''0x''"
    then have "CHR ''x'' \<in> lower_char ` set (take 2 s)" unfolding ToLower_def by (metis list.set_intros(1,2) set_map)
    then obtain e where "e \<in> set (take 2 s)" "lower_char e = CHR ''x''" by force
    with x [of e] show False using in_set_takeD by fast
  qed
  then have "parse_unsigned s = Some (of_nat (digits_val (a @ fp)) * pow10 (- int (length fp)))"
    unfolding assms(3) using parse_decimal_point [OF assms(1,2)] by (simp add: parse_unsigned_def)
  then show "ParseFloat s = round64 (of_nat (digits_val (a @ fp)) * pow10 (- int (length fp)))"
    using low c d(1,2) unfolding ParseFloat_def by (simp add: s)
  show "s \<noteq> []" by (simp add: s)
  have "\<not> is_space (last s)"
  proof (cases "fp = []")
    case True
    then have "last s \<in> set a" unfolding assms(3) using a(1) by (metis append_Nil2 last_in_set list.distinct(1))
    then show ?thesis using assms(1) by (auto simp: all_digits_def list_all_iff dest: digit_not_space)
  next
    case False
    then have "last s \<in> set fp" unfolding assms(3) by simp
    then show ?thesis using assms(2) by (auto simp: list_all_iff dest: digit_not_space)
  qed
  then show "trimmed s" using digit_not_space [OF a(2)] by (simp add: s trimmed_def)
qed

text \<open>The value of the text of a frequency is the frequency, in megahertz and exactly.\<close>

lemma formatHzAsMHz_parse:
  assumes "0 < hz" "hz < 2 ^ 40"
  shows "ParseFloat (formatHzAsMHz hz) = round64 (of_int hz / 1000000)" "trimmed (formatHzAsMHz hz)" "formatHzAsMHz hz \<noteq> []"
proof -
  obtain fp where fp: "list_all IsDigit fp" "formatHzAsMHz hz = show_nat (nat hz div 1000000) @ (if fp = [] then [] else CHR ''.'' # fp)"
    "length fp \<le> 6" "digits_val fp * 10 ^ (6 - length fp) = nat hz mod 1000000"
    using formatHzAsMHz_text [OF assms] by blast
  define v where "v = digits_val (show_nat (nat hz div 1000000) @ fp)"
  have "v * 10 ^ (6 - length fp) = nat hz div 1000000 * (10 ^ length fp * 10 ^ (6 - length fp)) + nat hz mod 1000000"
    by (simp add: v_def digits_val_append fp(4) [symmetric] algebra_simps)
  also have "(10 :: nat) ^ length fp * 10 ^ (6 - length fp) = 1000000" using fp(3) by (simp flip: power_add)
  finally have "v * 10 ^ (6 - length fp) = nat hz" by simp
  then have "rat_of_nat v * 10 ^ (6 - length fp) = of_int hz" using assms(1) by (metis of_nat_mult of_nat_power of_nat_numeral of_nat_nat less_imp_le of_int_of_nat_eq)
  moreover have "(10 :: rat) ^ (6 - length fp) = 1000000 / 10 ^ length fp" using fp(3) by (simp add: power_diff)
  ultimately have "rat_of_nat v * pow10 (- int (length fp)) = of_int hz / 1000000" by (cases "fp = []") (simp_all add: pow10_def)
  with ParseFloat_digits(1) [OF all_digits_show_nat fp(1,2)] show "ParseFloat (formatHzAsMHz hz) = round64 (of_int hz / 1000000)"
    unfolding v_def by (simp only:)
  show "trimmed (formatHzAsMHz hz)" "formatHzAsMHz hz \<noteq> []" by (rule ParseFloat_digits(2,3) [OF all_digits_show_nat fp(1,2)])+
qed

lemma to_float_round64: "to_float q = Finite r \<Longrightarrow> round64 q = Some (Finite r)"
  by (auto simp: to_float_def split: option.splits)

lemma parse_formatHzAsMHz:
  assumes "0 < hz" "hz < 300000000000"
  shows "parseMHzToHz undef (formatHzAsMHz hz) = Inr hz"
proof -
  let ?q = "rat_of_int hz / 1000000"
  have b: "(1 :: rat) \<le> of_int hz" "of_int hz \<le> (299999999999 :: rat)" using assms by simp_all
  have "?q < 2 ^ 19" using b(2) by simp
  then obtain f where f: "to_float ?q = Finite f" "\<bar>f - ?q\<bar> \<le> 1 / 17179869184" using to_float_error [of ?q 19] b by auto
  have f': "?q - 1 / 17179869184 \<le> f" "f \<le> ?q + 1 / 17179869184" using f(2) by linarith+
  have pos: "0 < f" using f'(1) b(1) by linarith
  have "f < 300000" using f'(2) b(2) by linarith
  have "f * 1000000 < 2 ^ 39" using f'(2) b(2) by simp
  then obtain r where r: "to_float (f * 1000000) = Finite r" "\<bar>r - f * 1000000\<bar> \<le> 1 / 16384"
    using to_float_error [of "f * 1000000" 39] pos by auto
  have near: "\<bar>r - of_int hz\<bar> < 1 / 2" using r(2) f' by linarith
  then have "0 \<le> r" using b(1) by linarith
  moreover have "\<lfloor>r + 1 / 2\<rfloor> = hz" using near by (intro floor_unique) linarith+
  ultimately have "round_away r = hz" by (simp add: round_away_def)
  then have "mhz_to_hz undef (Finite f) = hz" by (simp add: mhz_to_hz_def r(1))
  moreover have "ParseFloat (TrimSpace (formatHzAsMHz hz)) = Some (Finite f)"
    using formatHzAsMHz_parse [of hz] assms to_float_round64 [OF f(1)] by (simp add: TrimSpace_trimmed)
  ultimately show ?thesis using pos \<open>f < 300000\<close> by (simp add: parseMHzToHz_def)
qed


section \<open>Numbers and references\<close>

lemma ParseInt_show_small: "\<bar>i\<bar> \<le> 2147483648 \<Longrightarrow> ParseInt (show_int i) = Some i"
proof (cases "i < 0")
  case True
  assume "\<bar>i\<bar> \<le> 2147483648"
  with True show ?thesis by (simp add: show_int_def ParseInt_def MinInt64_def MaxInt64_def)
next
  case False
  assume "\<bar>i\<bar> \<le> 2147483648"
  with False show ?thesis using ParseInt_show_nat [of "nat i"] by (simp add: show_int_def MaxInt64_def)
qed

lemma show_int_text: "trimmed (show_int i)" "show_int i \<noteq> []"
proof -
  show "show_int i \<noteq> []" by (simp add: show_int_def)
  have "\<not> is_space (CHR ''-'')" by code_simp
  moreover have "\<not> is_space (last (show_nat n))" for n
    using trimmed_show_nat [of n] show_nat_ne [of n] by (simp add: trimmed_def)
  ultimately show "trimmed (show_int i)" by (simp add: show_int_def) (simp add: trimmed_def)
qed

lemma Split_notin: "c \<notin> set s \<Longrightarrow> Split c s = [s]"
  by (induction s) auto

lemma Split_append: "c \<notin> set s \<Longrightarrow> Split c (s @ c # t) = s # Split c t"
  by (induction s) auto

lemma Split_parts: "p \<in> set (Split c s) \<Longrightarrow> c \<notin> set p"
  by (induction s arbitrary: p) (auto split: if_splits list.splits)

lemma Split_Join: "refs \<noteq> [] \<Longrightarrow> \<forall>r\<in>set refs. c \<notin> set r \<Longrightarrow> Split c (Join [c] refs) = refs"
  by (induction "[c]" refs rule: Join.induct) (simp_all add: Split_notin Split_append)

lemma comma_upper: "CHR '','' \<notin> set s \<Longrightarrow> CHR '','' \<notin> set (ToUpper s)"
proof
  assume a: "CHR '','' \<notin> set s" "CHR '','' \<in> set (ToUpper s)"
  then obtain c where c: "c \<in> set s" "upper_char c = CHR '',''" by (auto simp: ToUpper_def)
  have "c = CHR '',''"
  proof (cases "is_lower c")
    case True
    then have "65 \<le> byte (upper_char c)" by (auto simp: upper_char_def is_lower_def)
    with c(2) show ?thesis by simp
  next
    case False
    with c(2) show ?thesis by (simp add: upper_char_fixed)
  qed
  with a(1) c(1) show False by simp
qed

lemma parseReferenceList_comma: "r \<in> set (parseReferenceList raw) \<Longrightarrow> CHR '','' \<notin> set r"
  using set_TrimSpace by (auto simp: parseReferenceList_def Let_def split: if_splits intro!: comma_upper dest!: Split_parts)

lemma Join_trimmed:
  assumes "refs \<noteq> []" "\<forall>r\<in>set refs. r \<noteq> [] \<and> trimmed r"
  shows "trimmed (Join sep refs)" "Join sep refs \<noteq> []"
proof -
  have "trimmed (Join sep refs) \<and> Join sep refs \<noteq> []"
    using assms
  proof (induction sep refs rule: Join.induct)
    case (3 sep x y ys)
    then show ?case using trimmed_append [of x "Join sep (y # ys)" sep] by simp
  qed simp_all
  then show "trimmed (Join sep refs)" "Join sep refs \<noteq> []" by simp_all
qed

lemma parse_references_again:
  assumes "refs = parseReferenceList raw" "refs \<noteq> []"
  shows "parseReferenceList (Join '','' refs) = refs" "optStr (Join '','' refs) = Some (Join '','' refs)"
proof -
  have ok: "r \<noteq> [] \<and> trimmed r \<and> upper r \<and> CHR '','' \<notin> set r" if "r \<in> set refs" for r
    using that parseReferenceList_ok parseReferenceList_comma unfolding assms(1) by blast
  then have t: "TrimSpace (Join '','' refs) = Join '','' refs" "Join '','' refs \<noteq> []"
    using Join_trimmed [OF assms(2), of "'',''"] by (simp_all add: TrimSpace_trimmed)
  then show "optStr (Join '','' refs) = Some (Join '','' refs)" by (simp add: optStr_def)
  have "Split (CHR '','') (Join '','' refs) = refs" using ok by (intro Split_Join assms(2)) blast
  moreover have "map (\<lambda>p. ToUpper (TrimSpace p)) refs = refs"
    by (rule map_idI) (use ok in \<open>auto simp: TrimSpace_trimmed upper_def\<close>)
  moreover have "filter (\<lambda>r. r \<noteq> []) refs = refs" using ok by (simp add: filter_id_conv)
  ultimately show "parseReferenceList (Join '','' refs) = refs" unfolding parseReferenceList_def Let_def using t by simp
qed

end
