(* ===== verification/Export_Import.thy ===== *)
theory Export_Import
  imports Export_Values
begin

text \<open>A contact that was imported, exported and imported again.\<close>

section \<open>The record of an export as a list of fields\<close>

definition put_opt :: "string \<times> string option \<Rightarrow> Record \<Rightarrow> Record" where
  "put_opt nv rec = (case snd nv of None \<Rightarrow> rec | Some v \<Rightarrow> Record_Set rec (fst nv) v)"

lemma set_as_put:
  "setField n v rec = put_opt (n, optStr v) rec"
  "setFieldPtr n v' rec = put_opt (n, Option.bind v' optStr) rec"
  "setFieldInt n i rec = put_opt (n, map_option show_int i) rec"
  "setFreqField n i rec = put_opt (n, Option.bind i (\<lambda>h. if h \<le> 0 then None else Some (formatHzAsMHz h))) rec"
  by (auto simp: put_opt_def setField_def setFieldPtr_def setFieldInt_def setFreqField_def optStr_def split: option.splits)

lemma lookup_put_opt:
  "rec_store.lookup (put_opt (n, v) rec) m = (if ToUpper m = ToUpper n \<and> v \<noteq> None then v else rec_store.lookup rec m)"
  by (cases v) (simp_all add: put_opt_def rec_store.lookup_put)

lemma lookup_fold_put:
  assumes "distinct (map fst nvs)" "\<forall>nv\<in>set nvs. upper (fst nv)" "upper n"
  shows "rec_store.lookup (fold put_opt nvs rec) n = (case map_of nvs n of Some (Some v) \<Rightarrow> Some v | _ \<Rightarrow> rec_store.lookup rec n)"
  using assms(1,2)
proof (induction nvs arbitrary: rec)
  case (Cons nv nvs)
  obtain m v where nv: "nv = (m, v)" by fastforce
  with Cons.prems assms(3) have u: "ToUpper n = n" "ToUpper m = m" by (simp_all add: upper_def)
  have "map_of nvs m = None" using Cons.prems(1) nv by (simp add: map_of_eq_None_iff)
  then show ?case using Cons nv u by (auto simp: lookup_put_opt split: option.splits)
qed simp

text \<open>The fields in the order of \<open>toADIFRecord\<close>.\<close>

definition identity_list :: "qsoRow \<Rightarrow> (string \<times> string option) list" where
  "identity_list r = [(''CALL'', optStr (qr_Callsign r)), (''BAND'', optStr (qr_Band r)), (''MODE'', optStr (qr_Mode r)),
     (''SUBMODE'', Option.bind (qr_Submode r) optStr)]"

definition freq_text :: "int option \<Rightarrow> string option" where
  "freq_text i = Option.bind i (\<lambda>h. if h \<le> 0 then None else Some (formatHzAsMHz h))"

definition time_list :: "qsoRow \<Rightarrow> (string \<times> string option) list" where
  "time_list r = [(''QSO_DATE'', optStr (Format_20060102 (qr_DatetimeOn r))), (''TIME_ON'', optStr (Format_150405 (qr_DatetimeOn r))),
     (''QSO_DATE_OFF'', Option.bind (qr_DatetimeOff r) (\<lambda>t. optStr (Format_20060102 t))),
     (''TIME_OFF'', Option.bind (qr_DatetimeOff r) (\<lambda>t. optStr (Format_150405 t))),
     (''FREQ'', freq_text (qr_FrequencyHz r)), (''FREQ_RX'', freq_text (qr_FreqRxHz r))]"

definition column_entry :: "exportQSO \<Rightarrow> exportColumn \<Rightarrow> string \<times> string option" where
  "column_entry q c =
     (case c of
        TextCol field col \<Rightarrow> (field, Option.bind (get_col (qr_Texts (eq_row q)) col) optStr)
      | DateCol field col \<Rightarrow> (field, Option.bind (map_option Format_20060102 (get_col (qr_Dates (eq_row q)) col)) optStr)
      | PowerCol tx \<Rightarrow> if tx then (''TX_PWR'', Option.bind (eq_TxPower q) optStr) else (''RX_PWR'', Option.bind (eq_RxPwr q) optStr))"

definition int_entry :: "qsoRow \<Rightarrow> string \<times> string \<Rightarrow> string \<times> string option" where
  "int_entry r fc = (fst fc, map_option show_int (get_col (qr_Ints r) (snd fc)))"

definition refs_list :: "qsoRow \<Rightarrow> (string \<times> string option) list" where
  "refs_list r = [(''POTA_REF'', if qr_PotaRefs r \<noteq> [] then optStr (Join '','' (qr_PotaRefs r)) else None),
     (''MY_POTA_REF'', if qr_MyPotaRefs r \<noteq> [] then optStr (Join '','' (qr_MyPotaRefs r)) else None)]"

definition export_list :: "exportQSO \<Rightarrow> (string \<times> string option) list" where
  "export_list q = identity_list (eq_row q) @ time_list (eq_row q) @ map (column_entry q) export_columns @ map (int_entry (eq_row q)) export_ints @ refs_list (eq_row q)"

lemma export_names: "map fst (export_list q) =
   [''CALL'', ''BAND'', ''MODE'', ''SUBMODE'', ''QSO_DATE'', ''TIME_ON'', ''QSO_DATE_OFF'', ''TIME_OFF'', ''FREQ'', ''FREQ_RX'',
    ''RST_SENT'', ''RST_RCVD'', ''NAME'', ''QTH'', ''TX_PWR'', ''RX_PWR'', ''MY_ANTENNA'', ''MY_RIG'', ''GRIDSQUARE'', ''COUNTRY'', ''STATE'', ''COUNTY'',
    ''CONT'', ''MY_GRIDSQUARE'', ''MY_CITY'', ''MY_STATE'', ''MY_COUNTRY'', ''OPERATOR'', ''STATION_CALLSIGN'', ''CONTEST_ID'', ''SRX'', ''STX'',
    ''SRX_STRING'', ''STX_STRING'', ''SAT_NAME'', ''SAT_MODE'', ''PROP_MODE'', ''SOTA_REF'', ''MY_SOTA_REF'', ''WWFF_REF'', ''MY_WWFF_REF'', ''IOTA'',
    ''SIG'', ''SIG_INFO'', ''QSL_SENT'', ''QSLSDATE'', ''QSL_RCVD'', ''QSLRDATE'', ''QSL_VIA'', ''LOTW_QSL_SENT'', ''LOTW_QSLSDATE'', ''LOTW_QSL_RCVD'',
    ''LOTW_QSLRDATE'', ''EQSL_QSL_SENT'', ''EQSL_QSLSDATE'', ''EQSL_QSL_RCVD'', ''EQSL_QSLRDATE'', ''COMMENT'', ''NOTES'', ''DXCC'', ''CQZ'', ''ITUZ'',
    ''MY_DXCC'', ''SFI'', ''A_INDEX'', ''K_INDEX'', ''POTA_REF'', ''MY_POTA_REF'']"
  by (simp add: export_list_def identity_list_def time_list_def export_columns_def column_entry_def export_ints_def int_entry_def refs_list_def)

lemma export_names_ok:
  "distinct (map fst (export_list q))" "\<forall>nv\<in>set (export_list q). upper (fst nv)" "fst ` set (export_list q) \<subseteq> set knownMappedFields"
proof -
  show "distinct (map fst (export_list q))" unfolding export_names by code_simp
  have "list_all upper (map fst (export_list q))" unfolding export_names by code_simp
  then show "\<forall>nv\<in>set (export_list q). upper (fst nv)" by (simp add: list_all_iff)
  have "list_all (\<lambda>n. n \<in> set knownMappedFields) (map fst (export_list q))" unfolding export_names by code_simp
  then show "fst ` set (export_list q) \<subseteq> set knownMappedFields" by (auto simp: list_all_iff)
qed


section \<open>The exported record\<close>

lemma lookup_first_field: "rec_store.lookup rec n = map_option f_Value (first_field (ToUpper n) (r_Fields rec))"
  by (simp add: rec_store.lookup_def Record_Has_def Record_Get_def split: option.splits)

definition names_ok :: "Record \<Rightarrow> bool" where
  "names_ok rec \<longleftrightarrow> distinct (map f_Name (r_Fields rec)) \<and> (\<forall>f\<in>set (r_Fields rec). upper (f_Name f))"

lemma set_first_names: "set (map f_Name (set_first n v fs)) = insert n (set (map f_Name fs))"
  by (induction fs) auto

lemma distinct_set_first: "distinct (map f_Name fs) \<Longrightarrow> distinct (map f_Name (set_first n v fs))"
proof (induction fs)
  case (Cons f fs)
  then show ?case using set_first_names [of n v fs] by auto
qed simp

lemma names_ok_Set: "names_ok rec \<Longrightarrow> names_ok (Record_Set rec n v)"
proof -
  assume a: "names_ok rec"
  have "f_Name ` set (set_first (ToUpper n) v (r_Fields rec)) = insert (ToUpper n) (f_Name ` set (r_Fields rec))"
    using set_first_names [of "ToUpper n" v "r_Fields rec"] by simp
  then have "\<forall>m\<in>f_Name ` set (set_first (ToUpper n) v (r_Fields rec)). upper m" using a by (auto simp: names_ok_def)
  then show ?thesis using a by (simp add: names_ok_def Record_Set_def distinct_set_first)
qed

lemma names_ok_fold_put: "names_ok rec \<Longrightarrow> names_ok (fold put_opt nvs rec)"
  by (induction nvs arbitrary: rec) (auto simp: put_opt_def names_ok_Set split: option.splits)

lemma names_ok_merge: "names_ok rec \<Longrightarrow> names_ok (mergeExtraFields stringify extra rec)"
  unfolding mergeExtraFields_def
  by (induction extra arbitrary: rec) (auto simp: Let_def names_ok_Set)

text \<open>The members of \<open>extra\<close> with upper-case names, all strings, added to a record that has none of them.\<close>

lemma lookup_merge:
  assumes "distinct (map fst extra)" "\<forall>(k, v)\<in>set extra. upper k \<and> trimmed k \<and> k \<noteq> [] \<and> \<not> Record_Has rec k \<and> v \<noteq> [] \<and> trimmed v" "upper n"
    and str: "\<And>s. stringify (JString s) = s"
  shows "rec_store.lookup (mergeExtraFields stringify (map (\<lambda>(k, v). (k, JString v)) extra) rec) n =
         (case map_of extra n of Some v \<Rightarrow> Some v | None \<Rightarrow> rec_store.lookup rec n)"
  using assms(1,2) unfolding mergeExtraFields_def
proof (induction extra arbitrary: rec)
  case (Cons kv extra)
  obtain k v where kv: "kv = (k, v)" by fastforce
  have k: "upper k" "trimmed k" "k \<noteq> []" "\<not> Record_Has rec k" "v \<noteq> []" "trimmed v" using Cons.prems(2) kv by auto
  have n: "ToUpper n = n" "ToUpper k = k" using assms(3) k(1) by (simp_all add: upper_def)
  have fresh: "map_of extra k = None" using Cons.prems(1) kv by (simp add: map_of_eq_None_iff)
  have "\<forall>(k', v')\<in>set extra. upper k' \<and> trimmed k' \<and> k' \<noteq> [] \<and> \<not> Record_Has (Record_Set rec k v) k' \<and> v' \<noteq> [] \<and> trimmed v'"
  proof (intro ballI, clarify)
    fix k' v' assume i: "(k', v') \<in> set extra"
    then have "k' \<in> fst ` set extra" by force
    then have "k' \<noteq> k" using fresh by (auto simp: map_of_eq_None_iff)
    then show "upper k' \<and> trimmed k' \<and> k' \<noteq> [] \<and> \<not> Record_Has (Record_Set rec k v) k' \<and> v' \<noteq> [] \<and> trimmed v'"
      using Cons.prems(2) i n(2) by (auto simp: rec_store.has_put upper_def)
  qed
  note IH = Cons.IH [OF _ this]
  show ?case using IH Cons.prems(1) kv k n fresh by (simp add: TrimSpace_trimmed str rec_store.lookup_put split: option.splits)
qed simp

lemma collect_extra_map:
  assumes "distinct (map f_Name flds)"
  shows "map_of (collect_extra flds) k =
    (case first_field k flds of
       None \<Rightarrow> None
     | Some f \<Rightarrow> if TrimSpace (f_Value f) \<noteq> [] \<and> (HasPrefix k ''APP_'' \<or> k \<notin> set knownMappedFields) then Some (TrimSpace (f_Value f)) else None)"
proof -
  let ?f = "\<lambda>f extra. let val = TrimSpace (f_Value f) in
       if val = [] then extra
       else if HasPrefix (f_Name f) ''APP_'' then AList.update (f_Name f) val extra
       else if f_Name f \<notin> set knownMappedFields then AList.update (f_Name f) val extra else extra"
  have "map_of (fold ?f flds extra) k =
    (case first_field k flds of
       None \<Rightarrow> map_of extra k
     | Some f \<Rightarrow> if TrimSpace (f_Value f) \<noteq> [] \<and> (HasPrefix k ''APP_'' \<or> k \<notin> set knownMappedFields) then Some (TrimSpace (f_Value f)) else map_of extra k)"
    for extra using assms
  proof (induction flds arbitrary: extra)
    case (Cons f flds)
    have IH: "map_of (fold ?f flds (?f f extra)) k =
      (case first_field k flds of
         None \<Rightarrow> map_of (?f f extra) k
       | Some f' \<Rightarrow> if TrimSpace (f_Value f') \<noteq> [] \<and> (HasPrefix k ''APP_'' \<or> k \<notin> set knownMappedFields) then Some (TrimSpace (f_Value f')) else map_of (?f f extra) k)"
      using Cons by simp
    have upd: "map_of (?f f extra) k = (if f_Name f = k \<and> TrimSpace (f_Value f) \<noteq> [] \<and> (HasPrefix k ''APP_'' \<or> k \<notin> set knownMappedFields)
      then Some (TrimSpace (f_Value f)) else map_of extra k)" by (auto simp: Let_def update_conv')
    show ?case
    proof (cases "f_Name f = k")
      case True
      then have "first_field k flds = None" using Cons.prems by (auto simp: first_field_None_iff)
      then show ?thesis using IH upd True by simp
    next
      case False
      then show ?thesis using IH upd by (simp split: option.splits)
    qed
  qed simp
  from this [of "[]"] show ?thesis unfolding collect_extra_def by (simp split: option.splits)
qed

lemma app_fields_unknown: "k \<in> set knownMappedFields \<Longrightarrow> \<not> HasPrefix k ''APP_''"
proof -
  have "list_all (\<lambda>k. \<not> HasPrefix k ''APP_'') knownMappedFields" by code_simp
  then show "k \<in> set knownMappedFields \<Longrightarrow> \<not> HasPrefix k ''APP_''" by (simp add: list_all_iff)
qed

lemma NormalizeModePair_submode: "NormalizeModePair m s = Some v \<Longrightarrow> ToUpper (TrimSpace (mv_Submode v)) = mv_Submode v"
proof (erule NormalizeModePair_SomeE)
  fix x assume "ResolveMode x = Some v"
  then show ?thesis by (rule ResolveMode_SomeE) (auto dest: alias_cases)
qed

text \<open>The mode pair of the row is in its normal form, as the import stores it.\<close>

definition mode_normal_row :: "qsoRow \<Rightarrow> bool" where
  "mode_normal_row r \<longleftrightarrow>
     (\<exists>m s v. NormalizeModePair m s = Some v \<and> qr_Mode r = mv_Mode v \<and> qr_Submode r = (if mv_Submode v \<noteq> [] then Some (mv_Submode v) else None))"

lemma mode_normal_rowE:
  assumes "mode_normal_row r"
  obtains v where "NormalizeModePair (mv_Mode v) (mv_Submode v) = Some v" "qr_Mode r = mv_Mode v" "mv_Mode v \<noteq> []" "TrimSpace (mv_Mode v) = mv_Mode v"
    "ToUpper (mv_Mode v) = mv_Mode v" "qr_Submode r = (if mv_Submode v \<noteq> [] then Some (mv_Submode v) else None)"
    "TrimSpace (mv_Submode v) = mv_Submode v" "ToUpper (mv_Submode v) = mv_Submode v"
proof -
  from assms obtain m s v where v: "NormalizeModePair m s = Some v" "qr_Mode r = mv_Mode v"
    "qr_Submode r = (if mv_Submode v \<noteq> [] then Some (mv_Submode v) else None)" by (auto simp: mode_normal_row_def)
  have fix_ok: "TrimSpace x = x \<and> ToUpper x = x" if "ToUpper (TrimSpace x) = x" for x
    by (metis that TrimSpace_ToUpper TrimSpace_idem ToUpper_idem)
  from NormalizeModePair_nf [OF v(1)] have nf: "mv_Mode v \<in> set CanonicalADIFModes" "NormalizeModePair (mv_Mode v) (mv_Submode v) = Some v" by auto
  show ?thesis
    using that [OF nf(2) v(2)] mode_normal [OF nf(1)] fix_ok [of "mv_Mode v"] fix_ok [OF NormalizeModePair_submode [OF v(1)]] v(3) by blast
qed

lemma Canonicalize_id:
  assumes "NormalizeModePair (mv_Mode v) (mv_Submode v) = Some v" "mv_Mode v \<noteq> []"
    "rec_store.lookup rec ''MODE'' = Some (mv_Mode v)" "rec_store.lookup rec ''SUBMODE'' = (if mv_Submode v \<noteq> [] then Some (mv_Submode v) else None)"
  shows "fst (CanonicalizeRecordMode rec) = rec"
proof -
  have g: "Record_Get rec ''MODE'' = mv_Mode v" "Record_Get rec ''SUBMODE'' = mv_Submode v"
    using assms(3,4) by (simp_all add: rec_store.get_lookup)
  moreover have h: "Record_Has rec ''MODE''" "Record_Has rec ''SUBMODE'' \<longleftrightarrow> mv_Submode v \<noteq> []"
    using assms(3,4) by (auto simp: rec_store.lookup_def split: if_splits)
  ultimately show ?thesis using assms(1) put_pair_id [OF h(1) g h(2)] by (simp add: CanonicalizeRecordMode_alt)
qed

lemma toADIFRecord_fold:
  assumes "mode_normal_row (eq_row q)"
  shows "toADIFRecord stringify q = mergeExtraFields stringify (eq_Extra q) (fold put_opt (export_list q) \<lparr>r_Fields = []\<rparr>)"
proof -
  let ?r = "eq_row q" and ?e = "\<lparr>r_Fields = []\<rparr> :: Record"
  from assms obtain v where v: "NormalizeModePair (mv_Mode v) (mv_Submode v) = Some v" "qr_Mode ?r = mv_Mode v" "mv_Mode v \<noteq> []"
    "TrimSpace (mv_Mode v) = mv_Mode v" "qr_Submode ?r = (if mv_Submode v \<noteq> [] then Some (mv_Submode v) else None)"
    "TrimSpace (mv_Submode v) = mv_Submode v" by (rule mode_normal_rowE)
  have names: "distinct (map fst (identity_list ?r))" "\<forall>nv\<in>set (identity_list ?r). upper (fst nv)" "upper ''MODE''" "upper ''SUBMODE''"
    using export_names_ok(1,2) [of q] by (auto simp: export_list_def upper_def)
  have e: "rec_store.lookup ?e n = None" for n by (simp add: lookup_first_field)
  have "rec_store.lookup (fold put_opt (identity_list ?r) ?e) ''MODE'' = Some (mv_Mode v)"
    "rec_store.lookup (fold put_opt (identity_list ?r) ?e) ''SUBMODE'' = (if mv_Submode v \<noteq> [] then Some (mv_Submode v) else None)"
    using v by (simp_all add: lookup_fold_put [OF names(1,2)] names e) (simp_all add: identity_list_def optStr_def e)
  from Canonicalize_id [OF v(1,3) this] have c: "fst (CanonicalizeRecordMode (fold put_opt (identity_list ?r) ?e)) = fold put_opt (identity_list ?r) ?e" .
  have i: "fold put_opt (identity_list ?r) ?e = setFieldPtr ''SUBMODE'' (qr_Submode ?r) (setField ''MODE'' (qr_Mode ?r) (setField ''BAND'' (qr_Band ?r)
          (setField ''CALL'' (qr_Callsign ?r) ?e)))" by (simp add: identity_list_def set_as_put)
  have none: "put_opt (n, None) rec = rec" for n rec by (simp add: put_opt_def)
  have t: "export_identity ?r = fold put_opt (time_list ?r) (fold put_opt (identity_list ?r) ?e)"
    unfolding export_identity_def i [symmetric] c Let_def
    by (cases "qr_DatetimeOff ?r") (simp_all add: time_list_def set_as_put freq_text_def none)
  have "setColumn q c rec = put_opt (column_entry q c) rec" for c rec
    by (cases c) (simp_all add: setColumn_def column_entry_def set_as_put)
  then have cols: "setColumn q = put_opt \<circ> column_entry q" by (simp add: fun_eq_iff)
  have "fold (setColumn q) cs = fold put_opt (map (column_entry q) cs)" for cs unfolding fold_map cols ..
  moreover have "fold (\<lambda>(field, col). setFieldInt field (get_col (qr_Ints ?r) col)) cs = fold put_opt (map (int_entry ?r) cs)" for cs
    unfolding fold_map comp_def by (rule arg_cong [where f = "\<lambda>g. fold g cs"]) (auto simp: int_entry_def set_as_put fun_eq_iff)
  ultimately show ?thesis
    unfolding toADIFRecord_def t export_list_def Let_def fold_append comp_def by (simp add: refs_list_def set_as_put none)
qed


section \<open>Reading the exported record\<close>

lemma exported_lookup:
  assumes mode: "mode_normal_row (eq_row q)" and ex: "eq_Extra q = map (\<lambda>(k, v). (k, JString v)) extra" and str: "\<And>s. stringify (JString s) = s"
    and extra: "distinct (map fst extra)"
      "\<forall>(k, v)\<in>set extra. upper k \<and> trimmed k \<and> k \<noteq> [] \<and> v \<noteq> [] \<and> trimmed v \<and> (k \<in> set knownMappedFields \<longrightarrow> HasPrefix k ''APP_'')"
  defines "out \<equiv> \<lparr>r_Fields = export_fields (toADIFRecord stringify q)\<rparr>"
  shows "upper n \<Longrightarrow> rec_store.lookup out n = (case map_of extra n of Some v \<Rightarrow> Some v | None \<Rightarrow> Option.bind (map_of (export_list q) n) id)"
    and "names_ok out"
proof -
  let ?e = "\<lparr>r_Fields = []\<rparr> :: Record" and ?t = "toADIFRecord stringify q"
  have e: "rec_store.lookup ?e n = None" for n by (simp add: lookup_first_field)
  have l1: "rec_store.lookup (fold put_opt (export_list q) ?e) n = Option.bind (map_of (export_list q) n) id" if "upper n" for n
    using lookup_fold_put [OF export_names_ok(1,2) that, of q ?e] by (simp add: e split: option.splits)
  have fresh: "map_of (export_list q) k = None" if "(k, v) \<in> set extra" for k v
  proof -
    have "k \<notin> set knownMappedFields" using that extra(2) app_fields_unknown by blast
    then show ?thesis using export_names_ok(3) [of q] by (auto simp: map_of_eq_None_iff)
  qed
  have "\<forall>(k, v)\<in>set extra. upper k \<and> trimmed k \<and> k \<noteq> [] \<and> \<not> Record_Has (fold put_opt (export_list q) ?e) k \<and> v \<noteq> [] \<and> trimmed v"
  proof (intro ballI, clarify)
    fix k v assume kv: "(k, v) \<in> set extra"
    then have k: "upper k \<and> trimmed k \<and> k \<noteq> [] \<and> v \<noteq> [] \<and> trimmed v" using extra(2) by blast
    then have "rec_store.lookup (fold put_opt (export_list q) ?e) k = None" using l1 fresh [OF kv] by simp
    then have "\<not> Record_Has (fold put_opt (export_list q) ?e) k" by (simp add: rec_store.lookup_def split: if_splits)
    with k show "upper k \<and> trimmed k \<and> k \<noteq> [] \<and> \<not> Record_Has (fold put_opt (export_list q) ?e) k \<and> v \<noteq> [] \<and> trimmed v" by blast
  qed
  then have l2: "rec_store.lookup ?t n = (case map_of extra n of Some v \<Rightarrow> Some v | None \<Rightarrow> Option.bind (map_of (export_list q) n) id)"
    if "upper n" for n
    using lookup_merge [where stringify = stringify, OF extra(1) _ that str] l1 [OF that] by (simp add: toADIFRecord_fold [OF mode] ex split: option.splits)
  from mode obtain v where v: "NormalizeModePair (mv_Mode v) (mv_Submode v) = Some v" "qr_Mode (eq_row q) = mv_Mode v" "mv_Mode v \<noteq> []"
    "TrimSpace (mv_Mode v) = mv_Mode v" "qr_Submode (eq_row q) = (if mv_Submode v \<noteq> [] then Some (mv_Submode v) else None)"
    "TrimSpace (mv_Submode v) = mv_Submode v" by (rule mode_normal_rowE)
  have known: "''MODE'' \<in> set knownMappedFields" "''SUBMODE'' \<in> set knownMappedFields" "upper ''MODE''" "upper ''SUBMODE''"
    by (simp_all add: knownMappedFields_def upper_def)
  have nx: "map_of extra n = None" if "n \<in> set knownMappedFields" for n
  proof (rule ccontr)
    assume "map_of extra n \<noteq> None"
    then obtain v where "(n, v) \<in> set extra" by (auto dest: map_of_SomeD)
    then show False using extra(2) that app_fields_unknown by blast
  qed
  have ml: "map_of (export_list q) ''MODE'' = Some (optStr (qr_Mode (eq_row q)))" "map_of (export_list q) ''SUBMODE'' = Some (Option.bind (qr_Submode (eq_row q)) optStr)"
    by (simp_all add: export_list_def identity_list_def)
  have "rec_store.lookup ?t ''MODE'' = Some (mv_Mode v)" "rec_store.lookup ?t ''SUBMODE'' = (if mv_Submode v \<noteq> [] then Some (mv_Submode v) else None)"
    using v by (simp_all add: l2 known nx ml optStr_def)
  from Canonicalize_id [OF v(1,3) this] have "fst (CanonicalizeRecordMode ?t) = ?t" .
  moreover have "Record_Clone ?t = ?t" by (simp add: Record_Clone_def)
  ultimately have out: "export_fields ?t = sortFields (r_Fields ?t)" by (simp only: export_fields_def)
  show "rec_store.lookup out n = (case map_of extra n of Some v \<Rightarrow> Some v | None \<Rightarrow> Option.bind (map_of (export_list q) n) id)" if "upper n"
    using l2 [OF that] by (simp add: out_def out lookup_first_field first_field_sortFields)
  have "names_ok ?t" unfolding toADIFRecord_fold [OF mode] by (intro names_ok_merge names_ok_fold_put) (simp add: names_ok_def)
  moreover have "mset (map f_Name (sortFields (r_Fields ?t))) = mset (map f_Name (r_Fields ?t))" by (simp add: mset_sortFields)
  then have "distinct (map f_Name (sortFields (r_Fields ?t))) = distinct (map f_Name (r_Fields ?t))" by (rule mset_eq_imp_distinct_iff)
  ultimately show "names_ok out" by (simp add: out_def out names_ok_def)
qed

text \<open>Reading a column again: its field in the export, and the value that the import gives it.\<close>

lemma get_col_map:
  assumes "distinct (map fst cols)" "(c, x) \<in> set cols"
  shows "get_col (map (\<lambda>(c, x). (c, f x)) cols) c = f x"
proof -
  have "(c, f x) \<in> set (map (\<lambda>(c, x). (c, f x)) cols)" using assms(2) by force
  moreover have "distinct (map fst (map (\<lambda>(c, x). (c, f x)) cols))" using assms(1) by (simp add: comp_def split_def)
  ultimately have "map_of (map (\<lambda>(c, x). (c, f x)) cols) c = Some (f x)" by simp
  then show ?thesis by (simp add: get_col_def)
qed

lemma columns_exported:
  "list_all (\<lambda>(col, field, up). TextCol field col \<in> set export_columns \<and> upper field \<and> field \<in> set knownMappedFields) text_columns"
  "list_all (\<lambda>(col, field). DateCol field col \<in> set export_columns \<and> upper field \<and> field \<in> set knownMappedFields) date_columns"
  "list_all (\<lambda>(col, field, bits). (field, col) \<in> set export_ints \<and> upper field \<and> field \<in> set knownMappedFields \<and> (bits = 32 \<or> bits = 16)) int_columns"
  "distinct (map fst text_columns)" "distinct (map fst date_columns)" "distinct (map fst int_columns)"
  by code_simp+

lemma text_again:
  assumes "old = optStr (if up then ToUpper x else x)"
  shows "optStr (if up then ToUpper (case Option.bind old optStr of None \<Rightarrow> [] | Some v \<Rightarrow> v) else (case Option.bind old optStr of None \<Rightarrow> [] | Some v \<Rightarrow> v)) = old"
  unfolding assms by (cases up) (auto simp: optStr_def TrimSpace_ToUpper)

lemma int_again:
  assumes "old = map_opt (ParseInt_bits bits) rec field" "bits = 32 \<or> bits = 16"
    and get: "Record_Get rec' field = (case map_option show_int old of None \<Rightarrow> [] | Some v \<Rightarrow> v)"
  shows "map_opt (ParseInt_bits bits) rec' field = old"
proof (cases old)
  case (Some i)
  then obtain s where "ParseInt_bits bits s = Some i" using assms(1) by (auto simp: map_opt_def Let_def split: if_splits)
  then have r: "- (2 ^ (bits - 1)) \<le> i" "i < 2 ^ (bits - 1)" by (auto simp: ParseInt_bits_def split: option.splits if_splits)
  then have "\<bar>i\<bar> \<le> 2147483648" using assms(2) by auto
  then show ?thesis using Some get r by (simp add: map_opt_def TrimSpace_trimmed show_int_text ParseInt_bits_def ParseInt_show_small)
qed (use get in \<open>simp add: map_opt_def\<close>)

lemma date_again:
  assumes "old = None \<or> plausible (the old) \<and> usec * 86400 dvd the old"
    and get: "Record_Get rec' field = (case Option.bind (map_option Format_20060102 old) optStr of None \<Rightarrow> [] | Some v \<Rightarrow> v)"
  shows "map_opt (\<lambda>v. ok_value (parseADIFDate v)) rec' field = old"
proof (cases old)
  case (Some t)
  obtain y m d where c: "civil_from_days (day_of t) = (y, m, d)" by (metis surj_pair)
  have p: "plausible t" "usec * 86400 dvd t" using assms(1) Some by simp_all
  then have y: "1900 \<le> y" "y \<le> 2100" using c by (simp_all add: plausible_def)
  note f = Format_date(1,2) [OF c y]
  have "Format_20060102 t \<noteq> []" using f(1) by auto
  then show ?thesis using Some get parse_Format_date [OF p] f(2) by (simp add: map_opt_def TrimSpace_trimmed optStr_def ok_value_def)
qed (use get in \<open>simp add: map_opt_def\<close>)

lemma time_texts:
  assumes "plausible t"
  shows "optStr (Format_20060102 t) = Some (Format_20060102 t)" "optStr (Format_150405 t) = Some (Format_150405 t)"
    "TrimSpace (Format_20060102 t) = Format_20060102 t" "TrimSpace (Format_150405 t) = Format_150405 t" "Format_20060102 t \<noteq> []"
proof -
  obtain y m d where c: "civil_from_days (day_of t) = (y, m, d)" by (metis surj_pair)
  have y: "1900 \<le> y" "y \<le> 2100" using c assms by (simp_all add: plausible_def)
  note f = Format_date(1,2) [OF c y]
  show ne: "Format_20060102 t \<noteq> []" using f(1) by auto
  show "TrimSpace (Format_20060102 t) = Format_20060102 t" "TrimSpace (Format_150405 t) = Format_150405 t"
    using f(2) time_parts_Format(2) by (simp_all add: TrimSpace_trimmed)
  with ne time_parts_Format(3) [of t] show "optStr (Format_20060102 t) = Some (Format_20060102 t)" "optStr (Format_150405 t) = Some (Format_150405 t)"
    by (simp_all add: optStr_def)
qed

text \<open>The values that the texts of an export can hold.\<close>

definition representable :: "qsoRow \<Rightarrow> bool" where
  "representable r \<longleftrightarrow>
     plausible (qr_DatetimeOn r) \<and> pred_option plausible (qr_DatetimeOff r) \<and> (\<forall>(c, d)\<in>set (qr_Dates r). pred_option plausible d)
     \<and> pred_option (\<lambda>h. 0 < h \<and> h < 300000000000) (qr_FrequencyHz r) \<and> pred_option (\<lambda>h. 0 < h \<and> h < 300000000000) (qr_FreqRxHz r)"

lemma freq_again:
  assumes "pred_option (\<lambda>h. 0 < h \<and> h < 300000000000) old"
    and get: "Record_Get rec' field = (case freq_text old of None \<Rightarrow> [] | Some v \<Rightarrow> v)"
  shows "map_opt (\<lambda>v. ok_value (parseMHzToHz undef v)) rec' field = old"
    and "field = ''FREQ'' \<Longrightarrow> map_freq undef rec' = (old, [])"
proof -
  have "old = None \<or> (\<exists>h. old = Some h \<and> TrimSpace (formatHzAsMHz h) = formatHzAsMHz h \<and> formatHzAsMHz h \<noteq> [] \<and> freq_text old = Some (formatHzAsMHz h)
    \<and> parseMHzToHz undef (formatHzAsMHz h) = Inr h)"
  proof (cases old)
    case (Some h)
    then have h: "0 < h" "h < 300000000000" using assms(1) by simp_all
    then have "h < 2 ^ 40" by simp
    from formatHzAsMHz_parse(2,3) [OF h(1) this] parse_formatHzAsMHz [OF h] h(1) Some show ?thesis
      by (auto simp: TrimSpace_trimmed freq_text_def)
  qed simp
  then show "map_opt (\<lambda>v. ok_value (parseMHzToHz undef v)) rec' field = old" "field = ''FREQ'' \<Longrightarrow> map_freq undef rec' = (old, [])"
    using get by (auto simp: map_opt_def ok_value_def map_freq_def freq_text_def)
qed

lemma collect_extra_keys: "fst ` set (collect_extra flds) \<subseteq> f_Name ` set flds"
proof -
  let ?f = "\<lambda>f extra. let val = TrimSpace (f_Value f) in
       if val = [] then extra
       else if HasPrefix (f_Name f) ''APP_'' then AList.update (f_Name f) val extra
       else if f_Name f \<notin> set knownMappedFields then AList.update (f_Name f) val extra else extra"
  have "fst ` set (fold ?f flds extra) \<subseteq> fst ` set extra \<union> f_Name ` set flds" for extra
  proof (induction flds arbitrary: extra)
    case (Cons f flds)
    have "fst ` set (?f f extra) \<subseteq> insert (f_Name f) (fst ` set extra)" by (simp add: Let_def dom_update) blast
    with Cons.IH [of "?f f extra"] show ?case by auto
  qed simp
  from this [of "[]"] show ?thesis unfolding collect_extra_def by simp
qed

lemma mapADIFRecord_off:
  assumes "mapADIFRecord undef rec = Inr (row, ws)"
  shows "qr_DatetimeOff row = map_opt (\<lambda>v. ok_value (parseADIFDateTime v (TrimSpace (Record_Get rec ''TIME_OFF'')))) rec ''QSO_DATE_OFF''"
    "qr_FreqRxHz row = map_opt (\<lambda>v. ok_value (parseMHzToHz undef v)) rec ''FREQ_RX''" "qr_TimeSource row = ''assumed_utc''"
    "qr_Source row = ''adif_import''" "qr_SourceID row = None"
  using assms by (auto simp: mapADIFRecord_def Let_def split: if_splits sum.splits option.splits prod.splits)

text \<open>The value of a field of the export, and the columns group by group.\<close>

definition entry :: "exportQSO \<Rightarrow> string \<Rightarrow> string" where
  "entry q n = (case Option.bind (map_of (export_list q) n) id of None \<Rightarrow> [] | Some v \<Rightarrow> v)"

lemma entry_in: "(n, v) \<in> set (export_list q) \<Longrightarrow> entry q n = (case v of None \<Rightarrow> [] | Some s \<Rightarrow> s)"
  using export_names_ok(1) [of q] by (simp add: entry_def map_of_is_SomeI)

definition reads :: "Record \<Rightarrow> exportQSO \<Rightarrow> bool" where
  "reads out q \<longleftrightarrow> (\<forall>n\<in>set knownMappedFields. upper n \<longrightarrow> Record_Get out n = entry q n)"

lemma reads_in: "reads out q \<Longrightarrow> (n, v) \<in> set (export_list q) \<Longrightarrow> Record_Get out n = (case v of None \<Rightarrow> [] | Some s \<Rightarrow> s)"
  using export_names_ok(2,3) [of q] entry_in [of n v q] by (force simp: reads_def)

lemma texts_again:
  assumes "reads out q"
    "qr_Texts (eq_row q) = map (\<lambda>(col, field, up). (col, optStr (if up then ToUpper (Record_Get rec field) else Record_Get rec field))) text_columns"
  shows "map (\<lambda>(col, field, up). (col, optStr (if up then ToUpper (Record_Get out field) else Record_Get out field))) text_columns = qr_Texts (eq_row q)"
  unfolding assms(2)
proof (rule map_cong [OF refl])
  fix x assume x: "x \<in> set text_columns"
  obtain col field up where xx [simp]: "x = (col, field, up)" by (cases x) auto
  let ?f = "\<lambda>(field, up). optStr (if up then ToUpper (Record_Get rec field) else Record_Get rec field)"
  have c: "get_col (qr_Texts (eq_row q)) col = ?f (field, up)"
    using get_col_map [OF columns_exported(4), of col "(field, up)" ?f] x assms(2) by (simp add: split_def)
  have "TextCol field col \<in> set export_columns" using x columns_exported(1) by (auto simp: list_all_iff)
  then have "column_entry q (TextCol field col) \<in> set (export_list q)" by (simp add: export_list_def)
  from reads_in [OF assms(1) this [unfolded column_entry_def exportColumn.case]] c
  have g: "Record_Get out field =
      (case Option.bind (optStr (if up then ToUpper (Record_Get rec field) else Record_Get rec field)) optStr of None \<Rightarrow> [] | Some v \<Rightarrow> v)" by simp
  show "(\<lambda>(col, field, up). (col, optStr (if up then ToUpper (Record_Get out field) else Record_Get out field))) x =
        (\<lambda>(col, field, up). (col, optStr (if up then ToUpper (Record_Get rec field) else Record_Get rec field))) x"
    by (simp only: xx prod.case g text_again [OF refl])
qed

lemma ints_again:
  assumes "reads out q" "qr_Ints (eq_row q) = map (\<lambda>(col, field, bits). (col, map_opt (ParseInt_bits bits) rec field)) int_columns"
  shows "map (\<lambda>(col, field, bits). (col, map_opt (ParseInt_bits bits) out field)) int_columns = qr_Ints (eq_row q)"
  unfolding assms(2)
proof (rule map_cong [OF refl])
  fix x assume x: "x \<in> set int_columns"
  obtain col field bits where [simp]: "x = (col, field, bits)" by (cases x) auto
  let ?f = "\<lambda>(field, bits). map_opt (ParseInt_bits bits) rec field"
  have c: "get_col (qr_Ints (eq_row q)) col = ?f (field, bits)"
    using get_col_map [OF columns_exported(6), of col "(field, bits)" ?f] x assms(2) by (simp add: split_def)
  have f: "(field, col) \<in> set export_ints" "bits = 32 \<or> bits = 16" using x columns_exported(3) by (auto simp: list_all_iff)
  then have "int_entry (eq_row q) (field, col) \<in> set (export_list q)" by (simp add: export_list_def)
  from reads_in [OF assms(1) this [unfolded int_entry_def fst_conv snd_conv]] c
  have "Record_Get out field = (case map_option show_int (?f (field, bits)) of None \<Rightarrow> [] | Some v \<Rightarrow> v)" by simp
  with int_again [of "?f (field, bits)" bits rec field out] f(2)
  show "(\<lambda>(col, field, bits). (col, map_opt (ParseInt_bits bits) out field)) x = (\<lambda>(col, field, bits). (col, map_opt (ParseInt_bits bits) rec field)) x"
    by simp
qed

lemma dates_again:
  assumes "reads out q" "qr_Dates (eq_row q) = map (\<lambda>(col, field). (col, map_opt (\<lambda>v. ok_value (parseADIFDate v)) rec field)) date_columns"
    "\<forall>(c, d)\<in>set (qr_Dates (eq_row q)). pred_option plausible d"
  shows "map (\<lambda>(col, field). (col, map_opt (\<lambda>v. ok_value (parseADIFDate v)) out field)) date_columns = qr_Dates (eq_row q)"
  unfolding assms(2)
proof (rule map_cong [OF refl])
  fix x assume x: "x \<in> set date_columns"
  obtain col field where [simp]: "x = (col, field)" by (cases x) auto
  let ?f = "\<lambda>field. map_opt (\<lambda>v. ok_value (parseADIFDate v)) rec field"
  have c: "get_col (qr_Dates (eq_row q)) col = ?f field"
    using get_col_map [OF columns_exported(5), of col field ?f] x assms(2) by simp
  have "(col, ?f field) \<in> set (qr_Dates (eq_row q))" unfolding assms(2) using x by force
  then have p: "pred_option plausible (?f field)" using assms(3) by blast
  have "DateCol field col \<in> set export_columns" using x columns_exported(2) by (auto simp: list_all_iff)
  then have "column_entry q (DateCol field col) \<in> set (export_list q)" by (simp add: export_list_def)
  from reads_in [OF assms(1) this [unfolded column_entry_def exportColumn.case]] c
  have g: "Record_Get out field = (case Option.bind (map_option Format_20060102 (?f field)) optStr of None \<Rightarrow> [] | Some v \<Rightarrow> v)" by simp
  have "?f field = None \<or> plausible (the (?f field)) \<and> usec * 86400 dvd the (?f field)"
    using p map_date_ok [of rec field] by (cases "?f field") auto
  from date_again [OF this g] show "(\<lambda>(col, field). (col, map_opt (\<lambda>v. ok_value (parseADIFDate v)) out field)) x =
      (\<lambda>(col, field). (col, map_opt (\<lambda>v. ok_value (parseADIFDate v)) rec field)) x" by simp
qed

lemma refs_again:
  assumes "refs = parseReferenceList raw" "g = (case (if refs \<noteq> [] then optStr (Join '','' refs) else None) of None \<Rightarrow> [] | Some v \<Rightarrow> v)"
  shows "parseReferenceList g = refs"
proof (cases "refs = []")
  case True
  then show ?thesis using assms(2) by (simp add: parseReferenceList_def)
next
  case False
  then show ?thesis using assms parse_references_again [OF assms(1) False] by simp
qed

lemma map_of_snd: "map_of (map (\<lambda>(k, v). (k, f v)) l) n = map_option f (map_of l n)"
  by (induction l) auto

lemma exported_reads:
  assumes mapped: "mapADIFRecord undef rec = Inr (row, ws)" and names: "\<forall>f\<in>set (r_Fields rec). wf_name (f_Name f)"
    and q: "eq_row q = row" "eq_Extra q = map (\<lambda>(k, v). (k, JString v)) (qr_Extra row)" and str: "\<And>s. stringify (JString s) = s"
  defines "out \<equiv> \<lparr>r_Fields = export_fields (toADIFRecord stringify q)\<rparr>"
  shows "reads out q" and "map_of (collect_extra (r_Fields out)) = map_of (qr_Extra row)"
proof -
  from mapped obtain v where v: "NormalizeModePair (ToUpper (TrimSpace (Record_Get rec ''MODE''))) (ToUpper (TrimSpace (Record_Get rec ''SUBMODE''))) = Some v"
    "qr_Mode row = mv_Mode v" "qr_Submode row = (if mv_Submode v \<noteq> [] then Some (mv_Submode v) else None)"
    "qr_Extra row = collect_extra (r_Fields rec)" by (rule mapADIFRecord_cases)
  then have mode: "mode_normal_row (eq_row q)" unfolding q mode_normal_row_def by blast
  have d: "distinct (map fst (qr_Extra row))"
    and vals: "\<forall>(k, v)\<in>set (qr_Extra row). v \<noteq> [] \<and> trimmed v \<and> (k \<in> set knownMappedFields \<longrightarrow> HasPrefix k ''APP_'')"
    using collect_extra_ok [of "r_Fields rec"] by (simp_all add: v(4))
  have "wf_name k" if "(k, w) \<in> set (qr_Extra row)" for k w
    using that collect_extra_keys [of "r_Fields rec"] names unfolding v(4) by force
  then have extra: "\<forall>(k, v)\<in>set (qr_Extra row). upper k \<and> trimmed k \<and> k \<noteq> [] \<and> v \<noteq> [] \<and> trimmed v \<and> (k \<in> set knownMappedFields \<longrightarrow> HasPrefix k ''APP_'')"
    using vals by (auto simp: wf_name_def)
  note l = exported_lookup(1) [where stringify = stringify, OF mode q(2) str d extra, folded out_def]
  have nx: "map_of (qr_Extra row) n = None" if "n \<in> set knownMappedFields" for n
  proof (rule ccontr)
    assume "map_of (qr_Extra row) n \<noteq> None"
    then obtain w where "(n, w) \<in> set (qr_Extra row)" by (auto dest: map_of_SomeD)
    then show False using vals that app_fields_unknown by blast
  qed
  show "reads out q" unfolding reads_def
  proof (intro ballI impI)
    fix n assume n: "n \<in> set knownMappedFields" "upper n"
    show "Record_Get out n = entry q n" using l [OF n(2)] nx [OF n(1)] by (simp add: rec_store.get_lookup entry_def)
  qed
  have ok: "distinct (map f_Name (r_Fields out))" "\<forall>f\<in>set (r_Fields out). upper (f_Name f)"
    using exported_lookup(2) [where stringify = stringify, OF mode q(2) str d extra, folded out_def] by (simp_all add: names_ok_def)
  show "map_of (collect_extra (r_Fields out)) = map_of (qr_Extra row)"
  proof
    fix k
    show "map_of (collect_extra (r_Fields out)) k = map_of (qr_Extra row) k"
    proof (cases "upper k")
      case True
      then have u: "ToUpper k = k" by (simp add: upper_def)
      have lk: "map_option f_Value (first_field k (r_Fields out)) = (case map_of (qr_Extra row) k of Some v \<Rightarrow> Some v | None \<Rightarrow> Option.bind (map_of (export_list q) k) id)"
        using l [OF True] by (simp add: lookup_first_field u)
      show ?thesis
      proof (cases "map_of (qr_Extra row) k")
        case (Some w)
        then have kw: "(k, w) \<in> set (qr_Extra row)" by (rule map_of_SomeD)
        then have w: "w \<noteq> []" "TrimSpace w = w" "HasPrefix k ''APP_'' \<or> k \<notin> set knownMappedFields"
          using vals by (auto simp: TrimSpace_trimmed)
        from lk Some obtain f where "first_field k (r_Fields out) = Some f" "f_Value f = w" by auto
        with w Some show ?thesis by (simp add: collect_extra_map [OF ok(1)])
      next
        case None
        have "k \<in> set knownMappedFields" if "first_field k (r_Fields out) \<noteq> None"
        proof -
          from that lk None have "map_of (export_list q) k \<noteq> None" by (cases "map_of (export_list q) k") auto
          then show ?thesis using export_names_ok(3) [of q] by (auto simp: map_of_eq_None_iff)
        qed
        with None show ?thesis using app_fields_unknown [of k] by (auto simp: collect_extra_map [OF ok(1)] split: option.splits)
      qed
    next
      case False
      then have "first_field k (r_Fields out) = None" using ok(2) by (auto simp: first_field_None_iff)
      moreover have "map_of (qr_Extra row) k = None"
        using False extra by (auto simp: map_of_eq_None_iff)
      ultimately show ?thesis by (simp add: collect_extra_map [OF ok(1)])
    qed
  qed
qed


section \<open>Import, export, import\<close>

lemma mapADIFRecord_Inr:
  assumes "ToUpper (TrimSpace (Record_Get rec ''CALL'')) = c" "c \<noteq> []" "TrimSpace (Record_Get rec ''QSO_DATE'') \<noteq> []"
    "parseADIFDateTime (TrimSpace (Record_Get rec ''QSO_DATE'')) (TrimSpace (Record_Get rec ''TIME_ON'')) = Inr t" "map_band rec = Some (b, [])"
    "ToUpper (TrimSpace (Record_Get rec ''MODE'')) = m" "m \<noteq> []" "ToUpper (TrimSpace (Record_Get rec ''SUBMODE'')) = s" "NormalizeModePair m s = Some v"
    "map_freq undef rec = (fq, [])"
  shows "\<exists>row. mapADIFRecord undef rec = Inr (row, []) \<and> qr_Callsign row = c \<and> qr_Band row = b \<and> qr_Mode row = mv_Mode v
     \<and> qr_Submode row = (if mv_Submode v \<noteq> [] then Some (mv_Submode v) else None) \<and> qr_FrequencyHz row = fq \<and> qr_DatetimeOn row = t"
  using assms by (simp add: mapADIFRecord_def Let_def)

lemma TrimSpace_ToLower: "TrimSpace (ToLower s) = ToLower (TrimSpace s)"
  by (simp add: TrimSpace_eq_rev ToLower_def dropWhile_map rev_map comp_def)

lemma map_band_trimmed:
  assumes "map_band rec = Some (b, w)"
  shows "TrimSpace b = b" "ToLower b = b" "b \<noteq> []"
proof -
  have "list_all (\<lambda>(n, bd). TrimSpace n = n) KnownBands" by code_simp
  then have "TrimSpace (inferBandFromFreq f) = inferBandFromFreq f" for f
    by (auto simp: inferBandFromFreq_def find_Some_iff list_all_iff split: option.splits dest!: nth_mem)
  with assms show "TrimSpace b = b" by (auto simp: map_band_def Let_def TrimSpace_ToLower split: if_splits)
  show "ToLower b = b" "b \<noteq> []" using map_band_ok [OF assms] by simp_all
qed

lemma identity_again:
  assumes "reads out q" "mode_normal_row (eq_row q)" "representable (eq_row q)"
    "qr_Callsign (eq_row q) = ToUpper (TrimSpace x)" "qr_Callsign (eq_row q) \<noteq> []" "map_band rec = Some (qr_Band (eq_row q), w)"
  shows "\<exists>row'. mapADIFRecord undef out = Inr (row', []) \<and> qr_Callsign row' = qr_Callsign (eq_row q) \<and> qr_Band row' = qr_Band (eq_row q)
     \<and> qr_Mode row' = qr_Mode (eq_row q) \<and> qr_Submode row' = qr_Submode (eq_row q) \<and> qr_FrequencyHz row' = qr_FrequencyHz (eq_row q)
     \<and> qr_DatetimeOn row' = qr_DatetimeOn (eq_row q)"
proof -
  let ?r = "eq_row q"
  from assms(2) obtain v where v: "NormalizeModePair (mv_Mode v) (mv_Submode v) = Some v" "qr_Mode ?r = mv_Mode v" "mv_Mode v \<noteq> []"
    "TrimSpace (mv_Mode v) = mv_Mode v" "ToUpper (mv_Mode v) = mv_Mode v" "qr_Submode ?r = (if mv_Submode v \<noteq> [] then Some (mv_Submode v) else None)"
    "TrimSpace (mv_Submode v) = mv_Submode v" "ToUpper (mv_Submode v) = mv_Submode v" by (rule mode_normal_rowE)
  have p: "plausible (qr_DatetimeOn ?r)" "pred_option (\<lambda>h. 0 < h \<and> h < 300000000000) (qr_FrequencyHz ?r)"
    using assms(3) by (simp_all add: representable_def)
  have in_list: "set (identity_list ?r) \<subseteq> set (export_list q)" "set (time_list ?r) \<subseteq> set (export_list q)" by (auto simp: export_list_def)
  have get: "Record_Get out ''CALL'' = qr_Callsign ?r" "Record_Get out ''BAND'' = qr_Band ?r" "Record_Get out ''MODE'' = mv_Mode v"
    "Record_Get out ''SUBMODE'' = mv_Submode v" "Record_Get out ''QSO_DATE'' = Format_20060102 (qr_DatetimeOn ?r)"
    "Record_Get out ''TIME_ON'' = Format_150405 (qr_DatetimeOn ?r)" "Record_Get out ''FREQ'' = (case freq_text (qr_FrequencyHz ?r) of None \<Rightarrow> [] | Some v \<Rightarrow> v)"
    using reads_in [OF assms(1) subsetD [OF in_list(1)]] reads_in [OF assms(1) subsetD [OF in_list(2)]] assms(4,5) v map_band_trimmed [OF assms(6)] time_texts [OF p(1)]
    by (simp_all add: identity_list_def time_list_def optStr_def TrimSpace_ToUpper)
  have "map_band out = Some (qr_Band ?r, [])" using get(2) map_band_trimmed [OF assms(6)] by (simp add: map_band_def)
  moreover have "parseADIFDateTime (Format_20060102 (qr_DatetimeOn ?r)) (Format_150405 (qr_DatetimeOn ?r)) = Inr (qr_DatetimeOn ?r)"
    using p(1) by (rule parse_Format_time)
  ultimately show ?thesis
    using mapADIFRecord_Inr [where rec = out and b = "qr_Band ?r" and v = v and fq = "qr_FrequencyHz ?r" and t = "qr_DatetimeOn ?r" and undef = undef, OF refl _ _ _ _ refl _ refl]
      get(1,3-6) assms(4,5) v time_texts [OF p(1)] freq_again(2) [OF p(2) get(7) refl, of undef] by (simp add: TrimSpace_ToUpper)
qed

lemma off_again:
  assumes "reads out q" "representable (eq_row q)"
  shows "map_opt (\<lambda>v. ok_value (parseADIFDateTime v (TrimSpace (Record_Get out ''TIME_OFF'')))) out ''QSO_DATE_OFF'' = qr_DatetimeOff (eq_row q)"
    "map_opt (\<lambda>v. ok_value (parseMHzToHz undef v)) out ''FREQ_RX'' = qr_FreqRxHz (eq_row q)"
proof -
  let ?r = "eq_row q"
  have p: "pred_option plausible (qr_DatetimeOff ?r)" "pred_option (\<lambda>h. 0 < h \<and> h < 300000000000) (qr_FreqRxHz ?r)"
    using assms(2) by (simp_all add: representable_def)
  have "set (time_list ?r) \<subseteq> set (export_list q)" by (auto simp: export_list_def)
  note get = reads_in [OF assms(1) subsetD [OF this]]
  have "Record_Get out ''FREQ_RX'' = (case freq_text (qr_FreqRxHz ?r) of None \<Rightarrow> [] | Some v \<Rightarrow> v)" by (rule get) (simp add: time_list_def)
  from freq_again(1) [OF p(2) this] show "map_opt (\<lambda>v. ok_value (parseMHzToHz undef v)) out ''FREQ_RX'' = qr_FreqRxHz (eq_row q)" .
  have off: "Record_Get out ''QSO_DATE_OFF'' = (case Option.bind (qr_DatetimeOff ?r) (\<lambda>t. optStr (Format_20060102 t)) of None \<Rightarrow> [] | Some v \<Rightarrow> v)"
    "Record_Get out ''TIME_OFF'' = (case Option.bind (qr_DatetimeOff ?r) (\<lambda>t. optStr (Format_150405 t)) of None \<Rightarrow> [] | Some v \<Rightarrow> v)"
    by (rule get; simp add: time_list_def)+
  show "map_opt (\<lambda>v. ok_value (parseADIFDateTime v (TrimSpace (Record_Get out ''TIME_OFF'')))) out ''QSO_DATE_OFF'' = qr_DatetimeOff (eq_row q)"
  proof (cases "qr_DatetimeOff ?r")
    case (Some t)
    then have t: "plausible t" using p(1) by simp
    show ?thesis using Some off time_texts [OF t] parse_Format_time [OF t] by (simp add: map_opt_def ok_value_def)
  qed (use off in \<open>simp add: map_opt_def\<close>)
qed

text \<open>An example: the record of an import without optional fields.\<close>

lemma qso_plausible: "plausible 1704164640000000"
proof -
  have d: "day_of 1704164640000000 = 19724" by (simp add: day_of_def)
  have "year_day 19724 = (2024, 1)" unfolding year_day_def Let_def epoch_days_def by simp
  then show ?thesis unfolding plausible_def d fst_civil_from_days by simp
qed

lemma qso_fields_names: "\<forall>f\<in>set qso_fields. wf_name (f_Name f)"
  using qso_fields_fit(1) by (auto simp: list_all_iff fits_def wf_field_def)

lemma qso_fields_row:
  "\<exists>row. mapADIFRecord 0 \<lparr>r_Fields = qso_fields\<rparr> = Inr (row, []) \<and> qr_Callsign row = ''W1AW'' \<and> qr_DatetimeOn row = 1704164640000000 \<and> representable row"
proof -
  obtain row where row: "mapADIFRecord 0 \<lparr>r_Fields = qso_fields\<rparr> = Inr (row, [])" using qso_fields_mapped by blast
  have upper_W1AW: "ToUpper ''W1AW'' = ''W1AW''" by code_simp
  from row have i: "qr_Callsign row = ''W1AW''" "qr_DatetimeOn row = 1704164640000000" "qr_FrequencyHz row = None"
    by (auto simp: mapADIFRecord_def qso_fields_get qso_strings qso_time map_band_def map_freq_def NormalizeModePair_CW upper_W1AW)
  have none: "Record_Get \<lparr>r_Fields = qso_fields\<rparr> f = []"
    if "f \<in> set [''QSO_DATE_OFF'', ''FREQ_RX'', ''QSLSDATE'', ''QSLRDATE'', ''LOTW_QSLSDATE'', ''LOTW_QSLRDATE'', ''EQSL_QSLSDATE'', ''EQSL_QSLRDATE'']" for f
  proof -
    have "list_all (\<lambda>f. Record_Get \<lparr>r_Fields = qso_fields\<rparr> f = [])
      [''QSO_DATE_OFF'', ''FREQ_RX'', ''QSLSDATE'', ''QSLRDATE'', ''LOTW_QSLSDATE'', ''LOTW_QSLRDATE'', ''EQSL_QSLSDATE'', ''EQSL_QSLRDATE'']" by code_simp
    then show ?thesis using that by (simp only: list_all_iff)
  qed
  from row obtain t where "qr_Dates row = map (\<lambda>(col, field). (col, map_opt (\<lambda>v. ok_value (parseADIFDate v)) \<lparr>r_Fields = qso_fields\<rparr> field)) date_columns"
    by (rule mapADIFRecord_cases)
  then have "qr_Dates row = map (\<lambda>(col, field). (col, None)) date_columns" by (simp add: date_columns_def map_opt_def none)
  moreover have "qr_DatetimeOff row = None" "qr_FreqRxHz row = None" using mapADIFRecord_off(1,2) [OF row] by (simp_all add: map_opt_def none)
  ultimately have "representable row" using i qso_plausible by (auto simp: representable_def)
  with row i show ?thesis by blast
qed



end
