(* ===== verification/Export_File.thy ===== *)
theory Export_File
  imports Export_Import
begin

text \<open>The file of an export: which contacts it holds, in which order, and that the parser reads it.\<close>

lemma export_body_text:
  "export_body None recs = header_text ''0.1.0'' [] @ concat (map (record_text \<circ> export_fields) recs)"
  by (simp add: export_body_def WriteHeader_def NewWriterWithOptions_def Fprintf_unlimited
      write_fields_unlimited WriteRecords_unlimited header_text_def Let_def fields_text_def)

lemma parse_export_body:
  assumes "list_all wf_record recs" "list_all (short_values \<circ> r_Fields) recs" "length recs < 500000"
  shows "ParseString decode None (export_body None recs) = (Some \<lparr>h_Fields = standardFields ''0.1.0''\<rparr>, map (\<lambda>r. \<lparr>r_Fields = export_fields r\<rparr>) recs, None)"
proof -
  have "ValidString ''0.1.0''" by (rule ValidString_ascii) simp
  from parse_formatted [of "[]" "''0.1.0''" "map export_fields recs", OF _ this _ export_fields_fits [OF assms(1,2)]] assms(3)
  show ?thesis by (simp add: export_body_text comp_def)
qed

text \<open>The contacts of an export: those the user sees and the filters of the request select.\<close>

definition exported_contacts :: "exportEnv \<Rightarrow> int \<Rightarrow> exportFilters \<Rightarrow> storedQSO list \<Rightarrow> storedQSO list \<Rightarrow> bool" where
  "exported_contacts env user f qsos sel \<longleftrightarrow>
     mset sel = filter_mset (\<lambda>q. xe_visible env user q \<and> export_where f (xe_live env) q) (mset qsos)
     \<and> sorted (map (\<lambda>q. (qr_DatetimeOn (st_row q), st_id q)) sel)"

lemma exported_contacts_SQL: "exported_contacts env user f qsos (exportADIFSQL f (xe_live env) (filter (xe_visible env user) qsos))"
proof -
  have "filter_mset P (filter_mset Q M) = filter_mset (\<lambda>x. Q x \<and> P x) M" for P Q and M :: "storedQSO multiset"
    by (simp add: filter_filter_mset conj_commute)
  then show ?thesis by (simp add: exported_contacts_def exportADIFSQL_def)
qed

definition export_record :: "exportEnv \<Rightarrow> storedQSO \<Rightarrow> Record" where
  "export_record env q = toADIFRecord (xe_stringify env) (scanExportRow (xe_num_text env) q)"

text \<open>A contact and a request for the example.\<close>

definition sample_row :: qsoRow where
  "sample_row = \<lparr>qr_Callsign = ''W1AW'', qr_Band = ''20m'', qr_Mode = ''CW'', qr_Submode = None, qr_FrequencyHz = None, qr_FreqRxHz = None,
     qr_DatetimeOn = 1704164640000000, qr_DatetimeOff = None, qr_TimeSource = ''assumed_utc'', qr_Texts = [], qr_Ints = [], qr_Floats = [], qr_Dates = [],
     qr_PotaRefs = [], qr_MyPotaRefs = [], qr_Extra = [], qr_Source = ''adif_import'', qr_SourceID = None\<rparr>"

definition sample_qso :: storedQSO where
  "sample_qso = \<lparr>st_id = 1, st_logbook = 3, st_deleted = False, st_row = sample_row\<rparr>"

definition sample_env :: exportEnv where
  "sample_env = \<lparr>xe_uuid = (\<lambda>_. Some 3), xe_rfc3339 = (\<lambda>_. None), xe_num_text = (\<lambda>_. []), xe_stringify = stringifyExtraValue (\<lambda>_. []) Some,
     xe_user = Some 1, xe_tx_ok = True, xe_query_ok = True, xe_permission = (\<lambda>u l. if u = 1 \<and> l = 3 then Granted else Forbidden),
     xe_visible = (\<lambda>u q. u = 1), xe_live = (\<lambda>l. True), xe_good = None\<rparr>"

definition sample_query :: "string \<Rightarrow> string" where
  "sample_query k = (if k = ''logbook_uuid'' then ''5f1c'' else if k = ''band'' then ''20M'' else [])"

lemma wf_fold_put:
  assumes "\<forall>(n, v)\<in>set nvs. wf_name n \<and> pred_option (\<lambda>s. ValidString s \<and> length s \<le> 10485760) v" "list_all (\<lambda>f. wf_field f \<and> length (f_Value f) \<le> 10485760) (r_Fields rec)"
  shows "list_all (\<lambda>f. wf_field f \<and> length (f_Value f) \<le> 10485760) (r_Fields (fold put_opt nvs rec))"
  using assms
proof (induction nvs arbitrary: rec)
  case (Cons nv nvs)
  obtain n v where nv: "nv = (n, v)" by fastforce
  have ok: "wf_name n" "ToUpper n = n" "pred_option (\<lambda>s. ValidString s \<and> length s \<le> 10485760) v" using Cons.prems(1) nv by (auto simp: wf_name_def upper_def)
  have "list_all (\<lambda>f. wf_field f \<and> length (f_Value f) \<le> 10485760) (r_Fields (put_opt (n, v) rec))"
    using Cons.prems(2) ok by (auto simp: put_opt_def Record_Set_def wf_field_def wf_type_def split: option.splits intro!: set_first_all)
  then show ?case using Cons.IH Cons.prems(1) nv by simp
qed simp

lemma export_names_wf: "list_all wf_name (map fst (export_list q))"
  unfolding export_names by code_simp

lemma qso_date: "Format_20060102 1704164640000000 = ''20240102''" "Format_150405 1704164640000000 = ''030400''"
proof -
  have d: "day_of 1704164640000000 = 19724" by (simp add: day_of_def)
  have "year_day 19724 = (2024, 1)" unfolding year_day_def Let_def epoch_days_def by simp
  then have "civil_from_days 19724 = (2024, 1, 2)" by (simp add: civil_from_days_def month_lengths_def)
  then show "Format_20060102 1704164640000000 = ''20240102''" unfolding Format_20060102_def d
    by (simp add: appendInt_def pad_left_def show_nat.simps digit_char_def eval_char)
  show "Format_150405 1704164640000000 = ''030400''"
    by (simp add: Format_150405_def Format_1504_def sec_of_def appendInt_def pad_left_def show_nat.simps digit_char_def eval_char)
qed

lemma sample_strings: "TrimSpace ''W1AW'' = ''W1AW''" "TrimSpace ''20m'' = ''20m''" "TrimSpace ''CW'' = ''CW''" "TrimSpace ''20240102'' = ''20240102''"
  "TrimSpace ''030400'' = ''030400''" "ToUpper ''CALL'' = ''CALL''" "TrimSpace ''5f1c'' = ''5f1c''" "TrimSpace ''20M'' = ''20M''" "ToLower ''20M'' = ''20m''" "ToLower ''20m'' = ''20m''"
  by code_simp+

lemma sample_record:
  "wf_record (export_record sample_env sample_qso)" "short_values (r_Fields (export_record sample_env sample_qso))"
proof -
  let ?q = "scanExportRow (\<lambda>_. []) sample_qso"
  have row: "eq_row ?q = sample_row" "eq_Extra ?q = []" "eq_TxPower ?q = None" "eq_RxPwr ?q = None"
    by (simp_all add: scanExportRow_def sample_qso_def sample_row_def get_col_def)
  have "mode_normal_row sample_row" unfolding mode_normal_row_def using NormalizeModePair_CW by (force simp: sample_row_def)
  then have r: "export_record sample_env sample_qso = fold put_opt (export_list ?q) \<lparr>r_Fields = []\<rparr>"
    by (simp add: export_record_def sample_env_def toADIFRecord_fold row mergeExtraFields_def)
  have none: "snd (column_entry ?q c) = None" for c
    by (cases c) (simp_all add: column_entry_def row, simp_all add: sample_row_def get_col_def)
  have none': "snd (int_entry sample_row c) = None" for c by (simp add: int_entry_def sample_row_def get_col_def)
  have d: "\<forall>(n, v)\<in>set (export_list ?q). wf_name n \<and> pred_option (\<lambda>s. ValidString s \<and> length s \<le> 10485760) v"
  proof (clarify)
    fix n v assume nv: "(n, v) \<in> set (export_list ?q)"
    then have "n \<in> set (map fst (export_list ?q))" by force
    then have n: "wf_name n" using export_names_wf [of ?q] unfolding list_all_iff by blast
    have "v = None \<or> v \<in> Some ` {''W1AW'', ''20m'', ''CW'', ''20240102'', ''030400''}"
    proof -
      let ?ok = "\<lambda>v. v = None \<or> v \<in> Some ` {''W1AW'', ''20m'', ''CW'', ''20240102'', ''030400''}"
      have "list_all (\<lambda>nv. ?ok (snd nv)) (identity_list sample_row @ time_list sample_row @ refs_list sample_row)"
        by (simp add: identity_list_def time_list_def refs_list_def freq_text_def optStr_def sample_row_def qso_date sample_strings)
      moreover have "list_all (\<lambda>nv. ?ok (snd nv)) (map (column_entry ?q) export_columns @ map (int_entry sample_row) export_ints)"
        unfolding list_all_append list.pred_map comp_def none none' by (simp add: list_all_iff)
      ultimately have "list_all (\<lambda>nv. ?ok (snd nv)) (export_list ?q)" unfolding export_list_def row by (simp only: list_all_append)
      with nv show ?thesis unfolding list_all_iff by fastforce
    qed
    with n show "wf_name n \<and> pred_option (\<lambda>s. ValidString s \<and> length s \<le> 10485760) v" by (auto simp: ValidString_ascii)
  qed
  from wf_fold_put [OF d, of "\<lparr>r_Fields = []\<rparr>"] have w: "list_all (\<lambda>f. wf_field f \<and> length (f_Value f) \<le> 10485760) (r_Fields (export_record sample_env sample_qso))"
    by (simp add: r)
  have "rec_store.lookup (export_record sample_env sample_qso) ''CALL'' = Some ''W1AW''"
    using lookup_fold_put [OF export_names_ok(1,2), of "''CALL''" ?q "\<lparr>r_Fields = []\<rparr>"]
    by (simp add: r upper_def sample_strings) (simp add: export_list_def identity_list_def row optStr_def sample_strings sample_row_def)
  then have "r_Fields (export_record sample_env sample_qso) \<noteq> []" by (auto simp: lookup_first_field)
  with w show "wf_record (export_record sample_env sample_qso)" "short_values (r_Fields (export_record sample_env sample_qso))"
    by (auto simp: wf_record_def short_values_def list_all_iff)
qed

text \<open>
  C13. What an export holds.  A file is only sent to a known user, and for a logbook that the request names only with the permission to export it.
  The contacts of the file are exactly the live ones that the user sees and that the filters select, each once, in the order of their time and identifier; and
  when no write fails and the records hold valid text, the parser reads from the file the header and one record per contact, in that order.
\<close>

theorem export_file:
  assumes "ExportHandler_ADIF env query qsos = Attachment body" "xe_good env = None"
    "\<forall>q\<in>set qsos. wf_record (export_record env q) \<and> short_values (r_Fields (export_record env q))" "length qsos < 500000"
  shows "\<exists>user f sel. xe_user env = Some user \<and> parseExportFilters (xe_uuid env) (xe_rfc3339 env) query = Inr f
     \<and> pred_option (\<lambda>l. xe_permission env user l = Granted) (ef_Logbook f) \<and> exported_contacts env user f qsos sel
     \<and> ParseString decode None body = (Some \<lparr>h_Fields = standardFields ''0.1.0''\<rparr>, map (\<lambda>q. \<lparr>r_Fields = export_fields (export_record env q)\<rparr>) sel, None)"
proof -
  from assms(1) obtain user f where u: "xe_user env = Some user" "parseExportFilters (xe_uuid env) (xe_rfc3339 env) query = Inr f"
    and p: "pred_option (\<lambda>l. xe_permission env user l = Granted) (ef_Logbook f)"
    and b: "body = export_body (xe_good env) (map (export_record env) (exportADIFSQL f (xe_live env) (filter (xe_visible env user) qsos)))"
    by (auto simp: ExportHandler_ADIF_def export_record_def [abs_def] split: option.splits sum.splits if_splits permission.splits)
  define sel where "sel = exportADIFSQL f (xe_live env) (filter (xe_visible env user) qsos)"
  have sel: "exported_contacts env user f qsos sel" unfolding sel_def by (rule exported_contacts_SQL)
  have "set sel \<subseteq> set qsos" by (auto simp: sel_def exportADIFSQL_def)
  moreover have "length sel \<le> length qsos"
    unfolding sel_def exportADIFSQL_def by (simp add: length_filter_le order_trans [OF length_filter_le])
  ultimately have "ParseString decode None (export_body None (map (export_record env) sel)) =
      (Some \<lparr>h_Fields = standardFields ''0.1.0''\<rparr>, map (\<lambda>q. \<lparr>r_Fields = export_fields (export_record env q)\<rparr>) sel, None)"
    using assms(3,4) by (subst parse_export_body) (auto simp: list_all_iff comp_def)
  with u p sel b assms(2) show ?thesis unfolding sel_def by auto
qed

theorem export_file_witness:
  "\<exists>body. ExportHandler_ADIF sample_env sample_query [sample_qso] = Attachment body \<and>
     (\<exists>user f sel. xe_user sample_env = Some user \<and> parseExportFilters (xe_uuid sample_env) (xe_rfc3339 sample_env) sample_query = Inr f
     \<and> pred_option (\<lambda>l. xe_permission sample_env user l = Granted) (ef_Logbook f) \<and> exported_contacts sample_env user f [sample_qso] sel
     \<and> ParseString Some None body = (Some \<lparr>h_Fields = standardFields ''0.1.0''\<rparr>, map (\<lambda>q. \<lparr>r_Fields = export_fields (export_record sample_env q)\<rparr>) sel, None))"
proof -
  have "\<exists>body. ExportHandler_ADIF sample_env sample_query [sample_qso] = Attachment body"
    by (simp add: ExportHandler_ADIF_def sample_env_def parseExportFilters_def optional_def sample_query_def sample_strings optStr_def)
  then obtain body where b: "ExportHandler_ADIF sample_env sample_query [sample_qso] = Attachment body" by blast
  moreover have "xe_good sample_env = None" by (simp add: sample_env_def)
  ultimately show ?thesis using export_file [OF b, of Some] sample_record by auto
qed

end
