(* ===== verification/Accounts.thy ===== *)
theory Accounts
  imports Auth_Rbac "HOL-Library.Product_Lexorder"
begin

text \<open>
  The tables \<open>users\<close>, \<open>logbooks\<close>, \<open>user_roles\<close> and \<open>invite_keys\<close> with their constraints and row-level policies
  (\<open>database/migrations/001_initial_schema.sql\<close>), and the queries on them (\<open>api/internal/database/sqlc\<close>).

  A table is the list of its rows.  A statement runs as a database role: \<open>Api u\<close> is \<open>radioledger_api\<close> with \<open>app.current_user_id\<close> set to \<open>u\<close>, \<open>Worker\<close> is
  \<open>radioledger_worker\<close>, and \<open>Bypass\<close> a role to which no policy applies.  A policy's \<open>USING\<close> filters the rows that a statement reads or changes; a changed row that
  breaks a \<open>WITH CHECK\<close>, the \<open>USING\<close> of a policy for \<open>SELECT\<close> that the statement needs, or a constraint of the table, is an error of the statement.
  The functions of a policy see the tables as they were when the statement began.
\<close>

section \<open>Tables\<close>

record account =
  us_id :: int
  us_uuid :: int
  us_email :: string
  us_hash :: "string option"
  us_callsign :: "string option"
  us_grid :: "string option"
  us_onboarded :: bool
  us_zitadel :: "string option"
  us_display :: "string option"
  us_timezone :: string
  us_deleted :: "int option"
  us_created :: int
  us_updated :: int

record logbookRow =
  lb_id :: int
  lb_uuid :: int
  lb_user :: int
  lb_name :: string
  lb_callsign :: "string option"
  lb_description :: "string option"
  lb_default :: bool
  lb_deleted :: "int option"
  lb_created :: int
  lb_updated :: int

record userRole =
  ur_logbook :: int
  ur_user :: int
  ur_role :: Role
  ur_invited_by :: "int option"
  ur_created :: int
  ur_updated :: int

record inviteKey =
  ik_id :: int
  ik_code :: string
  ik_created_by :: int
  ik_used_by :: "int option"
  ik_max_uses :: int
  ik_uses :: int
  ik_expires :: "int option"
  ik_created :: int
  ik_revoked :: "int option"

text \<open>The next identifiers are those of the sequences.\<close>

record tables =
  t_users :: "account list"
  t_logbooks :: "logbookRow list"
  t_roles :: "userRole list"
  t_invites :: "inviteKey list"
  t_user_seq :: int
  t_logbook_seq :: int
  t_invite_seq :: int


section \<open>Roles of the database and policies\<close>

datatype dbrole = Api "int option" | Worker | Bypass

definition app_role_rank :: "string \<Rightarrow> int" where
  "app_role_rank r = role_rank (ToLower r)"

definition app_has_logbook_min_role :: "tables \<Rightarrow> int \<Rightarrow> int option \<Rightarrow> Role \<Rightarrow> bool" where
  "app_has_logbook_min_role tb l u minRole \<longleftrightarrow>
     app_role_rank minRole \<le> (case find (\<lambda>r. ur_logbook r = l \<and> Some (ur_user r) = u) (t_roles tb) of None \<Rightarrow> 0 | Some r \<Rightarrow> app_role_rank (ur_role r))"

definition users_policy :: "dbrole \<Rightarrow> account \<Rightarrow> bool" where
  "users_policy rl u = (case rl of Api cu \<Rightarrow> cu = Some (us_id u) | Worker \<Rightarrow> True | Bypass \<Rightarrow> True)"

definition logbooks_select :: "dbrole \<Rightarrow> tables \<Rightarrow> logbookRow \<Rightarrow> bool" where
  "logbooks_select rl tb l =
     (case rl of
        Api cu \<Rightarrow> lb_deleted l = None \<and> (cu = Some (lb_user l) \<or> app_has_logbook_min_role tb (lb_id l) cu RoleViewer)
      | Worker \<Rightarrow> True
      | Bypass \<Rightarrow> True)"

definition logbooks_insert :: "dbrole \<Rightarrow> logbookRow \<Rightarrow> bool" where
  "logbooks_insert rl l = (case rl of Api cu \<Rightarrow> cu = Some (lb_user l) | Worker \<Rightarrow> True | Bypass \<Rightarrow> True)"

definition logbooks_update :: "dbrole \<Rightarrow> tables \<Rightarrow> logbookRow \<Rightarrow> bool" where
  "logbooks_update rl tb l =
     (case rl of Api cu \<Rightarrow> app_has_logbook_min_role tb (lb_id l) cu RoleAdmin | Worker \<Rightarrow> False | Bypass \<Rightarrow> True)"

definition user_roles_select :: "dbrole \<Rightarrow> tables \<Rightarrow> userRole \<Rightarrow> bool" where
  "user_roles_select rl tb r =
     (case rl of Api cu \<Rightarrow> app_has_logbook_min_role tb (ur_logbook r) cu RoleViewer | Worker \<Rightarrow> False | Bypass \<Rightarrow> True)"

definition user_roles_insert :: "dbrole \<Rightarrow> tables \<Rightarrow> userRole \<Rightarrow> bool" where
  "user_roles_insert rl tb r =
     (case rl of
        Api cu \<Rightarrow>
          app_has_logbook_min_role tb (ur_logbook r) cu RoleAdmin
          \<or> cu = Some (ur_user r) \<and> ur_role r = RoleOwner
            \<and> list_ex (\<lambda>l. logbooks_select rl tb l \<and> lb_id l = ur_logbook r \<and> cu = Some (lb_user l)) (t_logbooks tb)
      | Worker \<Rightarrow> False
      | Bypass \<Rightarrow> True)"

text \<open>\<open>user_roles_update\<close> and \<open>user_roles_delete\<close>\<close>

definition user_roles_write :: "dbrole \<Rightarrow> tables \<Rightarrow> userRole \<Rightarrow> bool" where
  "user_roles_write rl tb r =
     (case rl of Api cu \<Rightarrow> app_has_logbook_min_role tb (ur_logbook r) cu RoleAdmin | Worker \<Rightarrow> False | Bypass \<Rightarrow> True)"

definition invite_keys_policy :: "dbrole \<Rightarrow> inviteKey \<Rightarrow> bool" where
  "invite_keys_policy rl k = (case rl of Api cu \<Rightarrow> cu = Some (ik_created_by k) | Worker \<Rightarrow> True | Bypass \<Rightarrow> True)"


section \<open>Constraints\<close>

definition default_clash :: "tables \<Rightarrow> logbookRow \<Rightarrow> bool" where
  "default_clash tb l \<longleftrightarrow>
     lb_default l \<and> lb_deleted l = None
     \<and> list_ex (\<lambda>l'. lb_id l' \<noteq> lb_id l \<and> lb_user l' = lb_user l \<and> lb_default l' \<and> lb_deleted l' = None) (t_logbooks tb)"

definition owner_clash :: "tables \<Rightarrow> userRole \<Rightarrow> bool" where
  "owner_clash tb r \<longleftrightarrow>
     ur_role r = RoleOwner \<and> list_ex (\<lambda>r'. ur_logbook r' = ur_logbook r \<and> ur_user r' \<noteq> ur_user r \<and> ur_role r' = RoleOwner) (t_roles tb)"

definition role_check :: "Role \<Rightarrow> bool" where
  "role_check r \<longleftrightarrow> r \<in> {RoleOwner, RoleAdmin, RoleOperator, RoleContributor, RoleViewer}"

definition email_clash :: "tables \<Rightarrow> string \<Rightarrow> bool" where
  "email_clash tb email \<longleftrightarrow> list_ex (\<lambda>u. ToLower (us_email u) = ToLower email \<and> us_deleted u = None) (t_users tb)"


section \<open>Statements\<close>

text \<open>The result of a statement: an error, \<open>pgx.ErrNoRows\<close>, or a row.\<close>

datatype 'a result = DbErr | NoRows | Row 'a

definition first_row :: "'a list \<Rightarrow> 'a result" where
  "first_row xs = (case xs of [] \<Rightarrow> NoRows | x # _ \<Rightarrow> Row x)"

definition update_rows :: "('a \<Rightarrow> bool) \<Rightarrow> ('a \<Rightarrow> 'a) \<Rightarrow> 'a list \<Rightarrow> 'a list" where
  "update_rows P f xs = map (\<lambda>x. if P x then f x else x) xs"

text \<open>
  What happens around a request: whether its transaction starts and commits, which of its statements meet a fault, the time, and the results of \<open>gen_random_uuid()\<close>.
\<close>

record dbEnv =
  e_begin :: bool
  e_commit :: bool
  e_ok :: "nat \<Rightarrow> bool"
  e_now :: int
  e_uuid :: int

definition exec :: "dbEnv \<Rightarrow> nat \<Rightarrow> 'a result \<Rightarrow> 'a result" where
  "exec e n q = (if e_ok e n then q else DbErr)"


subsection \<open>\<open>members.sql.go\<close>\<close>

definition member_rows :: "dbrole \<Rightarrow> tables \<Rightarrow> int \<Rightarrow> (userRole \<times> account) list" where
  "member_rows rl tb logbookUUID =
     [(r, u). r \<leftarrow> filter (user_roles_select rl tb) (t_roles tb), l \<leftarrow> filter (logbooks_select rl tb) (t_logbooks tb),
              u \<leftarrow> filter (users_policy rl) (t_users tb),
              lb_id l = ur_logbook r \<and> us_id u = ur_user r \<and> lb_uuid l = logbookUUID \<and> lb_deleted l = None]"

definition GetUserRoleForLogbook :: "dbrole \<Rightarrow> tables \<Rightarrow> int \<Rightarrow> int \<Rightarrow> string result" where
  "GetUserRoleForLogbook rl tb logbookUUID userID =
     first_row [ur_role r. r \<leftarrow> filter (user_roles_select rl tb) (t_roles tb), l \<leftarrow> filter (logbooks_select rl tb) (t_logbooks tb),
                lb_id l = ur_logbook r \<and> lb_uuid l = logbookUUID \<and> ur_user r = userID \<and> lb_deleted l = None]"

definition ListLogbookMembers :: "dbrole \<Rightarrow> tables \<Rightarrow> int \<Rightarrow> (userRole \<times> account) list" where
  "ListLogbookMembers rl tb logbookUUID =
     sort_key (\<lambda>(r, u). (- app_role_rank (ur_role r), ToLower (us_email u))) (filter (\<lambda>(r, u). us_deleted u = None) (member_rows rl tb logbookUUID))"

definition GetLogbookMemberByUserUUID :: "dbrole \<Rightarrow> tables \<Rightarrow> int \<Rightarrow> int \<Rightarrow> (userRole \<times> account) result" where
  "GetLogbookMemberByUserUUID rl tb logbookUUID userUUID =
     first_row (filter (\<lambda>(r, u). us_uuid u = userUUID \<and> us_deleted u = None) (member_rows rl tb logbookUUID))"

definition GetLogbookOwner :: "dbrole \<Rightarrow> tables \<Rightarrow> int \<Rightarrow> int result" where
  "GetLogbookOwner rl tb logbookUUID = first_row (map (\<lambda>(r, u). us_id u) (filter (\<lambda>(r, u). ur_role r = RoleOwner) (member_rows rl tb logbookUUID)))"

definition UpsertLogbookMemberRole :: "dbrole \<Rightarrow> tables \<Rightarrow> int \<Rightarrow> int \<Rightarrow> Role \<Rightarrow> int option \<Rightarrow> int \<Rightarrow> tables result" where
  "UpsertLogbookMemberRole rl tb logbookUUID userID role invitedBy now =
     (case filter (\<lambda>l. logbooks_select rl tb l \<and> lb_uuid l = logbookUUID \<and> lb_deleted l = None) (t_logbooks tb) of
        [] \<Rightarrow> NoRows
      | l # _ \<Rightarrow>
          (let new = \<lparr>ur_logbook = lb_id l, ur_user = userID, ur_role = role, ur_invited_by = invitedBy, ur_created = now, ur_updated = now\<rparr> in
           if \<not> user_roles_insert rl tb new \<or> \<not> user_roles_select rl tb new \<or> \<not> role_check role
              \<or> \<not> list_ex (\<lambda>u. us_id u = userID) (t_users tb) \<or> owner_clash tb new then DbErr
           else case find (\<lambda>r. ur_logbook r = lb_id l \<and> ur_user r = userID) (t_roles tb) of
               None \<Rightarrow> Row (tb\<lparr>t_roles := t_roles tb @ [new]\<rparr>)
             | Some old \<Rightarrow>
                 if \<not> user_roles_write rl tb old then DbErr
                 else Row (tb\<lparr>t_roles := update_rows (\<lambda>r. ur_logbook r = lb_id l \<and> ur_user r = userID)
                        (\<lambda>r. r\<lparr>ur_role := role, ur_invited_by := invitedBy, ur_updated := now\<rparr>) (t_roles tb)\<rparr>)))"

text \<open>The rows of \<open>user_roles\<close> that the statements on one member change.\<close>

definition member_target :: "dbrole \<Rightarrow> tables \<Rightarrow> int \<Rightarrow> int \<Rightarrow> userRole \<Rightarrow> bool" where
  "member_target rl tb logbookUUID userUUID r \<longleftrightarrow>
     user_roles_write rl tb r \<and> user_roles_select rl tb r
     \<and> list_ex (\<lambda>l. logbooks_select rl tb l \<and> lb_id l = ur_logbook r \<and> lb_uuid l = logbookUUID \<and> lb_deleted l = None) (t_logbooks tb)
     \<and> list_ex (\<lambda>u. users_policy rl u \<and> us_id u = ur_user r \<and> us_uuid u = userUUID \<and> us_deleted u = None) (t_users tb)"

definition UpdateLogbookMemberRoleByUserUUID :: "dbrole \<Rightarrow> tables \<Rightarrow> int \<Rightarrow> int \<Rightarrow> Role \<Rightarrow> int option \<Rightarrow> int \<Rightarrow> tables result" where
  "UpdateLogbookMemberRoleByUserUUID rl tb logbookUUID userUUID role invitedBy now =
     (let new = (\<lambda>r. r\<lparr>ur_role := role, ur_invited_by := invitedBy, ur_updated := now\<rparr>); P = member_target rl tb logbookUUID userUUID in
      if \<not> list_ex P (t_roles tb) then NoRows
      else if \<not> role_check role \<or> list_ex (\<lambda>r. P r \<and> owner_clash tb (new r)) (t_roles tb) then DbErr
      else Row (tb\<lparr>t_roles := update_rows P new (t_roles tb)\<rparr>))"

definition DeleteLogbookMemberByUserUUID :: "dbrole \<Rightarrow> tables \<Rightarrow> int \<Rightarrow> int \<Rightarrow> (int \<times> tables) result" where
  "DeleteLogbookMemberByUserUUID rl tb logbookUUID userUUID =
     (let P = member_target rl tb logbookUUID userUUID in
      Row (int (length (filter P (t_roles tb))), tb\<lparr>t_roles := filter (\<lambda>r. \<not> P r) (t_roles tb)\<rparr>))"

definition SetLogbookMemberRoleByUserID :: "dbrole \<Rightarrow> tables \<Rightarrow> int \<Rightarrow> int \<Rightarrow> Role \<Rightarrow> int option \<Rightarrow> int \<Rightarrow> (int \<times> tables) result" where
  "SetLogbookMemberRoleByUserID rl tb logbookID userID role invitedBy now =
     (let new = (\<lambda>r. r\<lparr>ur_role := role, ur_invited_by := invitedBy, ur_updated := now\<rparr>);
          P = (\<lambda>r. user_roles_write rl tb r \<and> user_roles_select rl tb r \<and> ur_logbook r = logbookID \<and> ur_user r = userID) in
      if list_ex P (t_roles tb) \<and> (\<not> role_check role \<or> list_ex (\<lambda>r. P r \<and> owner_clash tb (new r)) (t_roles tb)) then DbErr
      else Row (int (length (filter P (t_roles tb))), tb\<lparr>t_roles := update_rows P new (t_roles tb)\<rparr>))"

definition logbook_target :: "dbrole \<Rightarrow> tables \<Rightarrow> int \<Rightarrow> logbookRow \<Rightarrow> bool" where
  "logbook_target rl tb logbookUUID l \<longleftrightarrow> logbooks_update rl tb l \<and> logbooks_select rl tb l \<and> lb_uuid l = logbookUUID \<and> lb_deleted l = None"

definition SetLogbookOwnerUser :: "dbrole \<Rightarrow> tables \<Rightarrow> int \<Rightarrow> int \<Rightarrow> int \<Rightarrow> (int \<times> tables) result" where
  "SetLogbookOwnerUser rl tb logbookUUID userID now =
     (let P = logbook_target rl tb logbookUUID; new = (\<lambda>l. l\<lparr>lb_user := userID, lb_default := False, lb_updated := now\<rparr>) in
      if list_ex (\<lambda>l. P l \<and> \<not> (logbooks_update rl tb (new l) \<and> logbooks_select rl tb (new l))) (t_logbooks tb) then DbErr
      else Row (int (length (filter P (t_logbooks tb))), tb\<lparr>t_logbooks := update_rows P new (t_logbooks tb)\<rparr>))"


subsection \<open>\<open>logbooks.sql.go\<close>\<close>

text \<open>The trigger \<open>ensure_logbook_owner_role\<close>, which runs as its owner.\<close>

definition ensure_logbook_owner_role :: "tables \<Rightarrow> logbookRow \<Rightarrow> int \<Rightarrow> tables result" where
  "ensure_logbook_owner_role tb l now =
     (let new = \<lparr>ur_logbook = lb_id l, ur_user = lb_user l, ur_role = RoleOwner, ur_invited_by = Some (lb_user l), ur_created = now, ur_updated = now\<rparr>;
          same = (\<lambda>r. ur_logbook r = lb_id l \<and> ur_user r = lb_user l) in
      if owner_clash tb new then DbErr
      else if list_ex same (t_roles tb) then
        Row (tb\<lparr>t_roles := update_rows same (\<lambda>r. r\<lparr>ur_role := RoleOwner, ur_invited_by := Some (lb_user l), ur_updated := now\<rparr>) (t_roles tb)\<rparr>)
      else Row (tb\<lparr>t_roles := t_roles tb @ [new]\<rparr>))"

definition insert_logbook :: "dbrole \<Rightarrow> tables \<Rightarrow> int \<Rightarrow> string \<Rightarrow> string option \<Rightarrow> string option \<Rightarrow> bool \<Rightarrow> int \<Rightarrow> int \<Rightarrow> (logbookRow \<times> tables) result" where
  "insert_logbook rl tb userID name callsign description isDefault uuid now =
     (let l = \<lparr>lb_id = t_logbook_seq tb, lb_uuid = uuid, lb_user = userID, lb_name = name, lb_callsign = callsign, lb_description = description,
               lb_default = isDefault, lb_deleted = None, lb_created = now, lb_updated = now\<rparr> in
      if \<not> logbooks_insert rl l \<or> default_clash tb l \<or> list_ex (\<lambda>l'. lb_uuid l' = uuid) (t_logbooks tb) \<or> \<not> list_ex (\<lambda>u. us_id u = userID) (t_users tb)
      then DbErr
      else case ensure_logbook_owner_role (tb\<lparr>t_logbooks := t_logbooks tb @ [l], t_logbook_seq := t_logbook_seq tb + 1\<rparr>) l now of
          Row tb1 \<Rightarrow> Row (l, tb1)
        | _ \<Rightarrow> DbErr)"

definition CreateLogbook :: "dbrole \<Rightarrow> tables \<Rightarrow> int \<Rightarrow> string \<Rightarrow> string option \<Rightarrow> string option \<Rightarrow> bool \<Rightarrow> int \<Rightarrow> int \<Rightarrow> (logbookRow \<times> tables) result" where
  "CreateLogbook rl tb userID name callsign description isDefault uuid now =
     insert_logbook rl tb userID name (map_option ToUpper callsign) description isDefault uuid now"

definition GetLogbookByUUID :: "dbrole \<Rightarrow> tables \<Rightarrow> int \<Rightarrow> logbookRow result" where
  "GetLogbookByUUID rl tb logbookUUID = first_row (filter (\<lambda>l. logbooks_select rl tb l \<and> lb_uuid l = logbookUUID \<and> lb_deleted l = None) (t_logbooks tb))"

definition ListLogbooksByUser :: "dbrole \<Rightarrow> tables \<Rightarrow> int \<Rightarrow> logbookRow list" where
  "ListLogbooksByUser rl tb userID =
     sort_key (\<lambda>l. (- lb_created l, - lb_id l))
       [l. l \<leftarrow> filter (logbooks_select rl tb) (t_logbooks tb), r \<leftarrow> filter (user_roles_select rl tb) (t_roles tb),
           ur_logbook r = lb_id l \<and> ur_user r = userID \<and> lb_deleted l = None]"

definition UpdateLogbook :: "dbrole \<Rightarrow> tables \<Rightarrow> int \<Rightarrow> string \<Rightarrow> string option \<Rightarrow> string option \<Rightarrow> bool \<Rightarrow> int \<Rightarrow> (logbookRow \<times> tables) result" where
  "UpdateLogbook rl tb logbookUUID name callsign description isDefault now =
     (let P = logbook_target rl tb logbookUUID;
          new = (\<lambda>l. l\<lparr>lb_name := name, lb_callsign := map_option ToUpper callsign, lb_description := description, lb_default := isDefault, lb_updated := now\<rparr>) in
      case filter P (t_logbooks tb) of
        [] \<Rightarrow> NoRows
      | l # _ \<Rightarrow>
          if list_ex (\<lambda>l. P l \<and> (default_clash tb (new l) \<or> \<not> logbooks_select rl tb (new l))) (t_logbooks tb) then DbErr
          else Row (new l, tb\<lparr>t_logbooks := update_rows P new (t_logbooks tb)\<rparr>))"

definition DeleteLogbook :: "dbrole \<Rightarrow> tables \<Rightarrow> int \<Rightarrow> int \<Rightarrow> (int \<times> tables) result" where
  "DeleteLogbook rl tb logbookUUID now =
     (let P = logbook_target rl tb logbookUUID; new = (\<lambda>l. l\<lparr>lb_deleted := Some now, lb_default := False, lb_updated := now\<rparr>) in
      case filter P (t_logbooks tb) of
        [] \<Rightarrow> NoRows
      | l # _ \<Rightarrow>
          if list_ex (\<lambda>l. P l \<and> \<not> logbooks_select rl tb (new l)) (t_logbooks tb) then DbErr
          else Row (lb_uuid l, tb\<lparr>t_logbooks := update_rows P new (t_logbooks tb)\<rparr>))"

definition GetDefaultLogbook :: "dbrole \<Rightarrow> tables \<Rightarrow> int \<Rightarrow> logbookRow result" where
  "GetDefaultLogbook rl tb userID = first_row (filter (\<lambda>l. logbooks_select rl tb l \<and> lb_user l = userID \<and> lb_default l \<and> lb_deleted l = None) (t_logbooks tb))"

text \<open>The statements of \<open>logbook.go\<close> that unset the other defaults.\<close>

definition unset_defaults :: "dbrole \<Rightarrow> tables \<Rightarrow> (logbookRow \<Rightarrow> bool) \<Rightarrow> int \<Rightarrow> tables result" where
  "unset_defaults rl tb P now =
     Row (tb\<lparr>t_logbooks := update_rows (\<lambda>l. logbooks_update rl tb l \<and> logbooks_select rl tb l \<and> P l \<and> lb_deleted l = None)
            (\<lambda>l. l\<lparr>lb_default := False, lb_updated := now\<rparr>) (t_logbooks tb)\<rparr>)"


subsection \<open>\<open>users.sql.go\<close>\<close>

definition visible_users :: "dbrole \<Rightarrow> tables \<Rightarrow> account list" where
  "visible_users rl tb = filter (\<lambda>u. users_policy rl u \<and> us_deleted u = None) (t_users tb)"

definition GetUserByID :: "dbrole \<Rightarrow> tables \<Rightarrow> int \<Rightarrow> account result" where
  "GetUserByID rl tb i = first_row (filter (\<lambda>u. us_id u = i) (visible_users rl tb))"

text \<open>\<open>GetUserByEmail\<close> and \<open>GetUserByEmailWithPassword\<close>\<close>

definition GetUserByEmail :: "dbrole \<Rightarrow> tables \<Rightarrow> string \<Rightarrow> account result" where
  "GetUserByEmail rl tb email = first_row (filter (\<lambda>u. ToLower (us_email u) = ToLower email) (visible_users rl tb))"

definition GetUserByCallsign :: "dbrole \<Rightarrow> tables \<Rightarrow> string \<Rightarrow> account result" where
  "GetUserByCallsign rl tb callsign = first_row (filter (\<lambda>u. map_option ToUpper (us_callsign u) = Some (ToUpper callsign)) (visible_users rl tb))"

definition GetUserByZitadelID :: "dbrole \<Rightarrow> tables \<Rightarrow> string \<Rightarrow> account result" where
  "GetUserByZitadelID rl tb z = first_row (filter (\<lambda>u. us_zitadel u = Some z) (visible_users rl tb))"

definition insert_user :: "dbrole \<Rightarrow> tables \<Rightarrow> account \<Rightarrow> (account \<times> tables) result" where
  "insert_user rl tb u =
     (if \<not> users_policy rl u \<or> email_clash tb (us_email u) \<or> list_ex (\<lambda>u'. us_uuid u' = us_uuid u) (t_users tb) then DbErr
      else Row (u, tb\<lparr>t_users := t_users tb @ [u], t_user_seq := t_user_seq tb + 1\<rparr>))"

definition CreateUser ::
    "dbrole \<Rightarrow> tables \<Rightarrow> string \<Rightarrow> string option \<Rightarrow> string option \<Rightarrow> string option \<Rightarrow> string option \<Rightarrow> int \<Rightarrow> int \<Rightarrow> (account \<times> tables) result" where
  "CreateUser rl tb email hash callsign display timezone uuid now =
     insert_user rl tb \<lparr>us_id = t_user_seq tb, us_uuid = uuid, us_email = email, us_hash = hash, us_callsign = map_option ToUpper callsign, us_grid = None,
       us_onboarded = (callsign \<noteq> None), us_zitadel = None, us_display = display, us_timezone = (case timezone of None \<Rightarrow> ''UTC'' | Some z \<Rightarrow> z),
       us_deleted = None, us_created = now, us_updated = now\<rparr>"

definition CreateZitadelUser :: "dbrole \<Rightarrow> tables \<Rightarrow> string \<Rightarrow> string \<Rightarrow> int \<Rightarrow> int \<Rightarrow> (account \<times> tables) result" where
  "CreateZitadelUser rl tb email z uuid now =
     insert_user rl tb \<lparr>us_id = t_user_seq tb, us_uuid = uuid, us_email = ToLower (BTRIM email), us_hash = None, us_callsign = None, us_grid = None,
       us_onboarded = False, us_zitadel = Some z, us_display = None, us_timezone = ''UTC'', us_deleted = None, us_created = now, us_updated = now\<rparr>"

definition UpdatePasswordHash :: "dbrole \<Rightarrow> tables \<Rightarrow> int \<Rightarrow> string option \<Rightarrow> int \<Rightarrow> tables result" where
  "UpdatePasswordHash rl tb i hash now =
     Row (tb\<lparr>t_users := update_rows (\<lambda>u. users_policy rl u \<and> us_id u = i \<and> us_deleted u = None) (\<lambda>u. u\<lparr>us_hash := hash, us_updated := now\<rparr>) (t_users tb)\<rparr>)"

definition SoftDeleteUserByID :: "dbrole \<Rightarrow> tables \<Rightarrow> int \<Rightarrow> int \<Rightarrow> (int \<times> tables) result" where
  "SoftDeleteUserByID rl tb i now =
     (let P = (\<lambda>u. users_policy rl u \<and> us_id u = i \<and> us_deleted u = None) in
      Row (int (length (filter P (t_users tb))), tb\<lparr>t_users := update_rows P (\<lambda>u. u\<lparr>us_deleted := Some now, us_updated := now\<rparr>) (t_users tb)\<rparr>))"


subsection \<open>\<open>invites.sql.go\<close>\<close>

definition unexpired :: "inviteKey \<Rightarrow> int \<Rightarrow> bool" where
  "unexpired k now \<longleftrightarrow> (case ik_expires k of None \<Rightarrow> True | Some t \<Rightarrow> now < t)"

definition active_invite :: "inviteKey \<Rightarrow> int \<Rightarrow> bool" where
  "active_invite k now \<longleftrightarrow> ik_revoked k = None \<and> ik_uses k < ik_max_uses k \<and> unexpired k now"

definition CountActiveInvitesByCreator :: "dbrole \<Rightarrow> tables \<Rightarrow> int \<Rightarrow> int \<Rightarrow> int result" where
  "CountActiveInvitesByCreator rl tb u now =
     Row (int (length (filter (\<lambda>k. invite_keys_policy rl k \<and> ik_created_by k = u \<and> active_invite k now) (t_invites tb))))"

text \<open>The format that the table requires of a code: \<open>^[A-HJ-NP-Z2-9]{8}$\<close>.\<close>

definition code_format :: "string \<Rightarrow> bool" where
  "code_format code \<longleftrightarrow>
     length code = 8 \<and> list_all (\<lambda>c. is_upper c \<and> c \<noteq> CHR ''I'' \<and> c \<noteq> CHR ''O'' \<or> 50 \<le> byte c \<and> byte c \<le> 57) code"

text \<open>\<open>CreateInviteKey\<close>: the code is taken (a unique violation, \<open>23505\<close>), another error, or the row.\<close>

datatype createResult = CodeTaken | CreateFailed | Created inviteKey tables

definition CreateInviteKey :: "dbrole \<Rightarrow> tables \<Rightarrow> string \<Rightarrow> int \<Rightarrow> int option \<Rightarrow> int option \<Rightarrow> int \<Rightarrow> createResult" where
  "CreateInviteKey rl tb code u maxUses expires now =
     (let k = \<lparr>ik_id = t_invite_seq tb, ik_code = ToUpper (BTRIM code), ik_created_by = u, ik_used_by = None,
               ik_max_uses = (case maxUses of None \<Rightarrow> 1 | Some m \<Rightarrow> m), ik_uses = 0, ik_expires = expires, ik_created = now, ik_revoked = None\<rparr> in
      if \<not> invite_keys_policy rl k \<or> \<not> code_format (ik_code k) \<or> ik_max_uses k < 1 \<or> \<not> list_ex (\<lambda>a. us_id a = u) (t_users tb) then CreateFailed
      else if list_ex (\<lambda>k'. ik_code k' = ik_code k) (t_invites tb) then CodeTaken
      else Created k (tb\<lparr>t_invites := t_invites tb @ [k], t_invite_seq := t_invite_seq tb + 1\<rparr>))"

definition ListInviteKeysByCreator :: "dbrole \<Rightarrow> tables \<Rightarrow> int \<Rightarrow> inviteKey list" where
  "ListInviteKeysByCreator rl tb u =
     sort_key (\<lambda>k. (- ik_created k, - ik_id k)) (filter (\<lambda>k. invite_keys_policy rl k \<and> ik_created_by k = u) (t_invites tb))"

definition RevokeInviteKey :: "dbrole \<Rightarrow> tables \<Rightarrow> int \<Rightarrow> int \<Rightarrow> int \<Rightarrow> (int \<times> tables) result" where
  "RevokeInviteKey rl tb i u now =
     (let P = (\<lambda>k. invite_keys_policy rl k \<and> ik_id k = i \<and> ik_created_by k = u \<and> ik_revoked k = None) in
      Row (int (length (filter P (t_invites tb))), tb\<lparr>t_invites := update_rows P (\<lambda>k. k\<lparr>ik_revoked := Some now\<rparr>) (t_invites tb)\<rparr>))"

definition consumable :: "dbrole \<Rightarrow> string \<Rightarrow> int \<Rightarrow> inviteKey \<Rightarrow> bool" where
  "consumable rl code now k \<longleftrightarrow> invite_keys_policy rl k \<and> ik_code k = ToUpper (BTRIM code) \<and> active_invite k now"

definition GetActiveInviteByCode :: "dbrole \<Rightarrow> tables \<Rightarrow> string \<Rightarrow> int \<Rightarrow> inviteKey result" where
  "GetActiveInviteByCode rl tb code now = first_row (filter (consumable rl code now) (t_invites tb))"

definition ConsumeInviteByCode :: "dbrole \<Rightarrow> tables \<Rightarrow> int \<Rightarrow> string \<Rightarrow> int \<Rightarrow> tables result" where
  "ConsumeInviteByCode rl tb usedBy code now =
     (if \<not> list_ex (consumable rl code now) (t_invites tb) then NoRows
      else Row (tb\<lparr>t_invites := update_rows (consumable rl code now) (\<lambda>k. k\<lparr>ik_uses := ik_uses k + 1, ik_used_by := Some usedBy\<rparr>) (t_invites tb)\<rparr>))"

end
