(* ===== verification/Logbook_Api.thy ===== *)
theory Logbook_Api
  imports Accounts
begin

text \<open>
  \<open>api/internal/handler/logbook.go\<close> and \<open>members.go\<close>: the handlers of logbooks and of their members, and what they take from \<open>common.go\<close> and \<open>rbac.go\<close>.

  A handler takes the events around the request, the user identity of its context, the parts of the request after parsing (\<^const>\<open>None\<close> for a part
  that does not parse) and the tables, and returns the response and the tables: those of the transaction when it commits, the old ones otherwise.
  The statements of a handler are numbered in their order.
\<close>

section \<open>Requests and responses\<close>

datatype payload =
    NoData
  | MemberItem userRole account "int option"
  | MemberItems "(userRole \<times> account) list"
  | RemovedMember userRole account int
  | LogbookItem logbookRow
  | LogbookItems "logbookRow list"
  | DeletedLogbook int
  | InviteItem inviteKey
  | InviteItems "inviteKey list"
  | InviteCheck bool "inviteKey option"
  | ProfileItem account bool
  | AuthItem string account bool
  | Provisioned string
  | Availability string bool "string option"

datatype apiResponse = Failure nat string string | Success nat string payload

definition requestUserID :: "int option \<Rightarrow> int option" where
  "requestUserID ctx = (case ctx of None \<Rightarrow> None | Some u \<Rightarrow> if 0 < u then Some u else None)"

definition normalizeOptional :: "string option \<Rightarrow> string option" where
  "normalizeOptional v = (case v of None \<Rightarrow> None | Some s \<Rightarrow> if TrimSpace s = [] then None else Some (TrimSpace s))"

abbreviation unauthorized :: apiResponse where "unauthorized \<equiv> Failure 401 ''unauthorized'' ''unauthenticated request''"

abbreviation invalid_request :: "string \<Rightarrow> apiResponse" where "invalid_request \<equiv> Failure 400 ''invalid request''"

abbreviation no_tenant :: apiResponse where "no_tenant \<equiv> Failure 503 ''database unavailable'' ''failed to prepare tenant context''"

text \<open>\<open>tx.Commit\<close>\<close>

definition commit :: "dbEnv \<Rightarrow> string \<Rightarrow> tables \<Rightarrow> apiResponse \<times> tables \<Rightarrow> apiResponse \<times> tables" where
  "commit e msg tb ok = (if e_commit e then ok else (Failure 500 msg ''transaction failed'', tb))"


section \<open>\<open>rbac.go\<close>\<close>

datatype rbacError = ErrForbidden | ErrOther

definition resolveLogbookRole :: "dbEnv \<Rightarrow> nat \<Rightarrow> tables \<Rightarrow> int \<Rightarrow> int \<Rightarrow> rbacError + Role" where
  "resolveLogbookRole e n tb userID logbookUUID =
     (case exec e n (GetUserRoleForLogbook (Api (Some userID)) tb logbookUUID userID) of
        NoRows \<Rightarrow> Inl ErrForbidden
      | DbErr \<Rightarrow> Inl ErrOther
      | Row v \<Rightarrow> (case ParseRole v of (role, ok) \<Rightarrow> if ok then Inr role else Inl ErrOther))"

definition ensureLogbookPermission :: "dbEnv \<Rightarrow> nat \<Rightarrow> tables \<Rightarrow> int \<Rightarrow> int \<Rightarrow> Permission \<Rightarrow> rbacError + Role" where
  "ensureLogbookPermission e n tb userID logbookUUID permission =
     (case resolveLogbookRole e n tb userID logbookUUID of
        Inl err \<Rightarrow> Inl err
      | Inr role \<Rightarrow> if Role_HasPermission role permission then Inr role else Inl ErrForbidden)"


section \<open>\<open>logbook.go\<close>\<close>

record logbookUpsertRequest =
  lr_Name :: string
  lr_Callsign :: "string option"
  lr_Description :: "string option"
  lr_IsDefault :: bool

definition LogbookHandler_List :: "dbEnv \<Rightarrow> int option \<Rightarrow> tables \<Rightarrow> apiResponse \<times> tables" where
  "LogbookHandler_List e ctx tb =
     (case requestUserID ctx of
        None \<Rightarrow> (unauthorized, tb)
      | Some userID \<Rightarrow>
          if \<not> e_begin e then (no_tenant, tb)
          else if \<not> e_ok e 0 then (Failure 500 ''failed to list logbooks'' ''query failed'', tb)
          else commit e ''failed to list logbooks'' tb (Success 200 ''logbooks listed'' (LogbookItems (ListLogbooksByUser (Api (Some userID)) tb userID)), tb))"

definition LogbookHandler_Get :: "dbEnv \<Rightarrow> int option \<Rightarrow> int option \<Rightarrow> tables \<Rightarrow> apiResponse \<times> tables" where
  "LogbookHandler_Get e ctx path tb =
     (case requestUserID ctx of
        None \<Rightarrow> (unauthorized, tb)
      | Some userID \<Rightarrow>
     (case path of
        None \<Rightarrow> (invalid_request ''invalid logbook UUID'', tb)
      | Some logbookUUID \<Rightarrow>
          if \<not> e_begin e then (no_tenant, tb)
          else (case exec e 0 (GetLogbookByUUID (Api (Some userID)) tb logbookUUID) of
             NoRows \<Rightarrow> (Failure 200 ''logbook not found'' ''logbook not found'', tb)
           | DbErr \<Rightarrow> (Failure 500 ''failed to fetch logbook'' ''query failed'', tb)
           | Row l \<Rightarrow> commit e ''failed to fetch logbook'' tb (Success 200 ''logbook retrieved'' (LogbookItem l), tb))))"

definition LogbookHandler_Create :: "dbEnv \<Rightarrow> int option \<Rightarrow> logbookUpsertRequest option \<Rightarrow> tables \<Rightarrow> apiResponse \<times> tables" where
  "LogbookHandler_Create e ctx body tb =
     (case requestUserID ctx of
        None \<Rightarrow> (unauthorized, tb)
      | Some userID \<Rightarrow>
     (case body of
        None \<Rightarrow> (invalid_request ''invalid JSON body'', tb)
      | Some req \<Rightarrow>
          if TrimSpace (lr_Name req) = [] then (invalid_request ''name is required'', tb)
          else if \<not> e_begin e then (no_tenant, tb)
          else (case (if lr_IsDefault req then exec e 0 (unset_defaults (Api (Some userID)) tb (\<lambda>l. lb_user l = userID) (e_now e)) else Row tb) of
             Row tb1 \<Rightarrow>
               (case exec e 1 (CreateLogbook (Api (Some userID)) tb1 userID (TrimSpace (lr_Name req)) (normalizeOptional (lr_Callsign req))
                       (normalizeOptional (lr_Description req)) (lr_IsDefault req) (e_uuid e) (e_now e)) of
                  Row (l, tb2) \<Rightarrow> commit e ''failed to create logbook'' tb (Success 201 ''logbook created'' (LogbookItem l), tb2)
                | _ \<Rightarrow> (Failure 500 ''failed to create logbook'' ''insert failed'', tb))
           | _ \<Rightarrow> (Failure 500 ''failed to create logbook'' ''failed to update default logbook'', tb))))"

text \<open>The owner whose other logbooks \<open>Update\<close> takes the default from.\<close>

definition owner_of :: "dbrole \<Rightarrow> tables \<Rightarrow> int \<Rightarrow> int option" where
  "owner_of rl tb logbookUUID = map_option lb_user (find (\<lambda>l. logbooks_select rl tb l \<and> lb_uuid l = logbookUUID \<and> lb_deleted l = None) (t_logbooks tb))"

definition LogbookHandler_Update :: "dbEnv \<Rightarrow> int option \<Rightarrow> int option \<Rightarrow> logbookUpsertRequest option \<Rightarrow> tables \<Rightarrow> apiResponse \<times> tables" where
  "LogbookHandler_Update e ctx path body tb =
     (case requestUserID ctx of
        None \<Rightarrow> (unauthorized, tb)
      | Some userID \<Rightarrow>
     (case path of
        None \<Rightarrow> (invalid_request ''invalid logbook UUID'', tb)
      | Some logbookUUID \<Rightarrow>
     (case body of
        None \<Rightarrow> (invalid_request ''invalid JSON body'', tb)
      | Some req \<Rightarrow>
          if TrimSpace (lr_Name req) = [] then (invalid_request ''name is required'', tb)
          else if \<not> e_begin e then (no_tenant, tb)
          else (case (if lr_IsDefault req then exec e 0 (unset_defaults (Api (Some userID)) tb
                       (\<lambda>l. Some (lb_user l) = owner_of (Api (Some userID)) tb logbookUUID \<and> lb_uuid l \<noteq> logbookUUID) (e_now e)) else Row tb) of
             Row tb1 \<Rightarrow>
               (case exec e 1 (UpdateLogbook (Api (Some userID)) tb1 logbookUUID (TrimSpace (lr_Name req)) (normalizeOptional (lr_Callsign req))
                       (normalizeOptional (lr_Description req)) (lr_IsDefault req) (e_now e)) of
                  NoRows \<Rightarrow> (Failure 200 ''logbook not found'' ''logbook not found'', tb)
                | DbErr \<Rightarrow> (Failure 500 ''failed to update logbook'' ''update failed'', tb)
                | Row (l, tb2) \<Rightarrow> commit e ''failed to update logbook'' tb (Success 200 ''logbook updated'' (LogbookItem l), tb2))
           | _ \<Rightarrow> (Failure 500 ''failed to update logbook'' ''failed to update default logbook'', tb)))))"

definition LogbookHandler_Delete :: "dbEnv \<Rightarrow> int option \<Rightarrow> int option \<Rightarrow> tables \<Rightarrow> apiResponse \<times> tables" where
  "LogbookHandler_Delete e ctx path tb =
     (case requestUserID ctx of
        None \<Rightarrow> (unauthorized, tb)
      | Some userID \<Rightarrow>
     (case path of
        None \<Rightarrow> (invalid_request ''invalid logbook UUID'', tb)
      | Some logbookUUID \<Rightarrow>
          if \<not> e_begin e then (no_tenant, tb)
          else (case exec e 0 (DeleteLogbook (Api (Some userID)) tb logbookUUID (e_now e)) of
             NoRows \<Rightarrow> (Failure 200 ''logbook not found'' ''logbook not found'', tb)
           | DbErr \<Rightarrow> (Failure 500 ''failed to delete logbook'' ''delete failed'', tb)
           | Row (deleted, tb1) \<Rightarrow> commit e ''failed to delete logbook'' tb (Success 200 ''logbook deleted'' (DeletedLogbook deleted), tb1))))"

definition LogbookHandler_Default :: "dbEnv \<Rightarrow> int option \<Rightarrow> tables \<Rightarrow> apiResponse \<times> tables" where
  "LogbookHandler_Default e ctx tb =
     (case requestUserID ctx of
        None \<Rightarrow> (unauthorized, tb)
      | Some userID \<Rightarrow>
          if \<not> e_begin e then (no_tenant, tb)
          else (case exec e 0 (GetDefaultLogbook (Api (Some userID)) tb userID) of
             NoRows \<Rightarrow> (Failure 200 ''default logbook not found'' ''default logbook not found'', tb)
           | DbErr \<Rightarrow> (Failure 500 ''failed to fetch default logbook'' ''query failed'', tb)
           | Row l \<Rightarrow> commit e ''failed to fetch default logbook'' tb (Success 200 ''default logbook retrieved'' (LogbookItem l), tb)))"


section \<open>\<open>members.go\<close>\<close>

record memberInviteRequest =
  mi_Email :: "string option"
  mi_Callsign :: "string option"
  mi_Role :: string

definition parseMemberRole :: "string \<Rightarrow> bool \<Rightarrow> string + Role" where
  "parseMemberRole raw allowOwner =
     (case ParseRole raw of
        (role, ok) \<Rightarrow>
          if \<not> ok then Inl ''invalid role''
          else if \<not> allowOwner \<and> role = RoleOwner then Inl ''owner role can only be assigned via transfer ownership''
          else Inr role)"

definition resolveMemberTargetUser :: "dbEnv \<Rightarrow> dbrole \<Rightarrow> tables \<Rightarrow> string option \<Rightarrow> string option \<Rightarrow> string + account" where
  "resolveMemberTargetUser e rl tb email callsign =
     (let emailVal = normalizeOptional email; callsignVal = normalizeOptional callsign;
          result = (\<lambda>row. case row of NoRows \<Rightarrow> Inl ''user not found'' | DbErr \<Rightarrow> Inl ''failed to resolve user'' | Row u \<Rightarrow> Inr u) in
      case (emailVal, callsignVal) of
        (None, None) \<Rightarrow> Inl ''provide email or callsign''
      | (Some _, Some _) \<Rightarrow> Inl ''provide either email or callsign, not both''
      | (Some em, None) \<Rightarrow> result (exec e 0 (GetUserByEmail rl tb em))
      | (None, Some cs) \<Rightarrow> result (exec e 0 (GetUserByCallsign rl tb cs)))"

abbreviation owner_protected :: apiResponse where
  "owner_protected \<equiv> invalid_request ''cannot change owner role via members endpoint; use transfer ownership''"

abbreviation member_not_found :: apiResponse where "member_not_found \<equiv> Failure 200 ''member not found'' ''member not found''"

definition MemberHandler_Invite :: "dbEnv \<Rightarrow> int option \<Rightarrow> int option \<Rightarrow> memberInviteRequest option \<Rightarrow> tables \<Rightarrow> apiResponse \<times> tables" where
  "MemberHandler_Invite e ctx path body tb =
     (case requestUserID ctx of
        None \<Rightarrow> (unauthorized, tb)
      | Some userID \<Rightarrow>
     (case path of
        None \<Rightarrow> (invalid_request ''invalid logbook UUID'', tb)
      | Some logbookUUID \<Rightarrow>
     (case body of
        None \<Rightarrow> (invalid_request ''invalid JSON body'', tb)
      | Some req \<Rightarrow>
     (case parseMemberRole (mi_Role req) False of
        Inl err \<Rightarrow> (invalid_request err, tb)
      | Inr role \<Rightarrow>
          if \<not> e_begin e then (no_tenant, tb)
          else (case resolveMemberTargetUser e (Api (Some userID)) tb (mi_Email req) (mi_Callsign req) of
             Inl err \<Rightarrow> (invalid_request err, tb)
           | Inr targetUser \<Rightarrow>
          (case exec e 1 (GetLogbookMemberByUserUUID (Api (Some userID)) tb logbookUUID (us_uuid targetUser)) of
             DbErr \<Rightarrow> (Failure 500 ''failed to invite member'' ''query failed'', tb)
           | existing \<Rightarrow>
               if (case existing of Row (r, u) \<Rightarrow> ur_role r = RoleOwner \<and> role \<noteq> RoleOwner | _ \<Rightarrow> False) then (owner_protected, tb)
               else (case exec e 2 (UpsertLogbookMemberRole (Api (Some userID)) tb logbookUUID (us_id targetUser) role (Some userID) (e_now e)) of
                  NoRows \<Rightarrow> (Failure 403 ''forbidden'' ''insufficient permissions'', tb)
                | DbErr \<Rightarrow> (Failure 500 ''failed to invite member'' ''update failed'', tb)
                | Row tb1 \<Rightarrow>
                    (case exec e 3 (GetLogbookMemberByUserUUID (Api (Some userID)) tb1 logbookUUID (us_uuid targetUser)) of
                       Row (r, u) \<Rightarrow> commit e ''failed to invite member'' tb (Success 200 ''member invited'' (MemberItem r u (Some userID)), tb1)
                     | _ \<Rightarrow> (Failure 500 ''failed to invite member'' ''query failed'', tb)))))))))"

definition MemberHandler_List :: "dbEnv \<Rightarrow> int option \<Rightarrow> int option \<Rightarrow> tables \<Rightarrow> apiResponse \<times> tables" where
  "MemberHandler_List e ctx path tb =
     (case requestUserID ctx of
        None \<Rightarrow> (unauthorized, tb)
      | Some userID \<Rightarrow>
     (case path of
        None \<Rightarrow> (invalid_request ''invalid logbook UUID'', tb)
      | Some logbookUUID \<Rightarrow>
          if \<not> e_begin e then (no_tenant, tb)
          else if \<not> e_ok e 0 then (Failure 500 ''failed to list members'' ''query failed'', tb)
          else commit e ''failed to list members'' tb (Success 200 ''members listed'' (MemberItems (ListLogbookMembers (Api (Some userID)) tb logbookUUID)), tb)))"

definition MemberHandler_UpdateRole :: "dbEnv \<Rightarrow> int option \<Rightarrow> int option \<Rightarrow> int option \<Rightarrow> string option \<Rightarrow> tables \<Rightarrow> apiResponse \<times> tables" where
  "MemberHandler_UpdateRole e ctx path target body tb =
     (case requestUserID ctx of
        None \<Rightarrow> (unauthorized, tb)
      | Some userID \<Rightarrow>
     (case path of
        None \<Rightarrow> (invalid_request ''invalid logbook UUID'', tb)
      | Some logbookUUID \<Rightarrow>
     (case target of
        None \<Rightarrow> (invalid_request ''invalid user UUID'', tb)
      | Some targetUserUUID \<Rightarrow>
     (case body of
        None \<Rightarrow> (invalid_request ''invalid JSON body'', tb)
      | Some rawRole \<Rightarrow>
     (case parseMemberRole rawRole False of
        Inl err \<Rightarrow> (invalid_request err, tb)
      | Inr role \<Rightarrow>
          if \<not> e_begin e then (no_tenant, tb)
          else (case exec e 0 (GetLogbookMemberByUserUUID (Api (Some userID)) tb logbookUUID targetUserUUID) of
             NoRows \<Rightarrow> (member_not_found, tb)
           | DbErr \<Rightarrow> (Failure 500 ''failed to update member'' ''query failed'', tb)
           | Row (existing, _) \<Rightarrow>
               if ur_role existing = RoleOwner then (owner_protected, tb)
               else (case exec e 1 (UpdateLogbookMemberRoleByUserUUID (Api (Some userID)) tb logbookUUID targetUserUUID role (Some userID) (e_now e)) of
                  NoRows \<Rightarrow> (member_not_found, tb)
                | DbErr \<Rightarrow> (Failure 500 ''failed to update member'' ''update failed'', tb)
                | Row tb1 \<Rightarrow>
                    (case exec e 2 (GetLogbookMemberByUserUUID (Api (Some userID)) tb1 logbookUUID targetUserUUID) of
                       Row (r, u) \<Rightarrow> commit e ''failed to update member'' tb (Success 200 ''member role updated'' (MemberItem r u (Some userID)), tb1)
                     | _ \<Rightarrow> (Failure 500 ''failed to update member'' ''query failed'', tb)))))))))"

definition MemberHandler_Remove :: "dbEnv \<Rightarrow> int option \<Rightarrow> int option \<Rightarrow> int option \<Rightarrow> tables \<Rightarrow> apiResponse \<times> tables" where
  "MemberHandler_Remove e ctx path target tb =
     (case requestUserID ctx of
        None \<Rightarrow> (unauthorized, tb)
      | Some userID \<Rightarrow>
     (case path of
        None \<Rightarrow> (invalid_request ''invalid logbook UUID'', tb)
      | Some logbookUUID \<Rightarrow>
     (case target of
        None \<Rightarrow> (invalid_request ''invalid user UUID'', tb)
      | Some targetUserUUID \<Rightarrow>
          if \<not> e_begin e then (no_tenant, tb)
          else (case exec e 0 (GetLogbookMemberByUserUUID (Api (Some userID)) tb logbookUUID targetUserUUID) of
             NoRows \<Rightarrow> (member_not_found, tb)
           | DbErr \<Rightarrow> (Failure 500 ''failed to remove member'' ''query failed'', tb)
           | Row (existing, u) \<Rightarrow>
               if ur_role existing = RoleOwner then (invalid_request ''owner cannot be removed; transfer ownership first'', tb)
               else (case exec e 1 (DeleteLogbookMemberByUserUUID (Api (Some userID)) tb logbookUUID targetUserUUID) of
                  Row (affected, tb1) \<Rightarrow>
                    if affected = 0 then (member_not_found, tb)
                    else commit e ''failed to remove member'' tb (Success 200 ''member removed'' (RemovedMember existing u (e_now e)), tb1)
                | _ \<Rightarrow> (Failure 500 ''failed to remove member'' ''delete failed'', tb))))))"

text \<open>The steps of \<open>TransferOwnership\<close> once the new owner is a member: demote, promote, and set the owner of the logbook.\<close>

definition transfer_steps :: "dbEnv \<Rightarrow> int \<Rightarrow> int \<Rightarrow> int \<Rightarrow> int \<Rightarrow> userRole \<Rightarrow> account \<Rightarrow> tables \<Rightarrow> apiResponse \<times> tables" where
  "transfer_steps e userID owner logbookUUID targetUserUUID targetMember targetUser tb =
     (let rl = Api (Some userID); failed = (\<lambda>why. (Failure 500 ''failed to transfer ownership'' why, tb)) in
      case exec e 2 (SetLogbookMemberRoleByUserID rl tb (ur_logbook targetMember) owner RoleAdmin (Some userID) (e_now e)) of
        Row (demoted, tb1) \<Rightarrow>
          if demoted = 0 then failed ''owner membership missing''
          else (case exec e 3 (SetLogbookMemberRoleByUserID rl tb1 (ur_logbook targetMember) (us_id targetUser) RoleOwner (Some userID) (e_now e)) of
             Row (promoted, tb2) \<Rightarrow>
               if promoted = 0 then failed ''target membership missing''
               else (case exec e 4 (SetLogbookOwnerUser rl tb2 logbookUUID (us_id targetUser) (e_now e)) of
                  Row (updated, tb3) \<Rightarrow>
                    if updated = 0 then (Failure 200 ''logbook not found'' ''logbook not found'', tb)
                    else (case exec e 5 (GetLogbookMemberByUserUUID rl tb3 logbookUUID targetUserUUID) of
                       Row (r, u) \<Rightarrow> commit e ''failed to transfer ownership'' tb (Success 200 ''ownership transferred'' (MemberItem r u (Some userID)), tb3)
                     | _ \<Rightarrow> failed ''query failed'')
                | _ \<Rightarrow> failed ''failed to update logbook owner'')
           | _ \<Rightarrow> failed ''failed to promote new owner'')
      | _ \<Rightarrow> failed ''failed to demote previous owner'')"

definition MemberHandler_TransferOwnership ::
    "(string \<Rightarrow> int option) \<Rightarrow> dbEnv \<Rightarrow> int option \<Rightarrow> int option \<Rightarrow> string option \<Rightarrow> tables \<Rightarrow> apiResponse \<times> tables" where
  "MemberHandler_TransferOwnership uuid_Parse e ctx path body tb =
     (case requestUserID ctx of
        None \<Rightarrow> (unauthorized, tb)
      | Some userID \<Rightarrow>
     (case path of
        None \<Rightarrow> (invalid_request ''invalid logbook UUID'', tb)
      | Some logbookUUID \<Rightarrow>
     (case body of
        None \<Rightarrow> (invalid_request ''invalid JSON body'', tb)
      | Some userUUID \<Rightarrow>
          if TrimSpace userUUID = [] then (invalid_request ''user_uuid is required'', tb)
          else (case uuid_Parse userUUID of
             None \<Rightarrow> (invalid_request ''invalid user_uuid'', tb)
           | Some targetUserUUID \<Rightarrow>
               if \<not> e_begin e then (no_tenant, tb)
               else (case exec e 0 (GetLogbookOwner (Api (Some userID)) tb logbookUUID) of
                  NoRows \<Rightarrow> (Failure 200 ''logbook not found'' ''logbook not found'', tb)
                | DbErr \<Rightarrow> (Failure 500 ''failed to transfer ownership'' ''query failed'', tb)
                | Row owner \<Rightarrow>
                    if owner \<noteq> userID then (Failure 403 ''forbidden'' ''only the owner can transfer ownership'', tb)
                    else (case exec e 1 (GetLogbookMemberByUserUUID (Api (Some userID)) tb logbookUUID targetUserUUID) of
                       NoRows \<Rightarrow> (invalid_request ''target user must already be a logbook member'', tb)
                     | DbErr \<Rightarrow> (Failure 500 ''failed to transfer ownership'' ''query failed'', tb)
                     | Row (targetMember, targetUser) \<Rightarrow>
                         if ur_role targetMember = RoleOwner then (Success 200 ''ownership transferred'' (MemberItem targetMember targetUser None), tb)
                         else transfer_steps e userID owner logbookUUID targetUserUUID targetMember targetUser tb))))))"

end
