(* ===== verification/Invite_Api.thy ===== *)
theory Invite_Api
  imports Logbook_Api
begin

text \<open>
  \<open>api/internal/handler/invites.go\<close>: codes for the registration of new users.

  \<open>rand.Read\<close> takes one byte at a time from a list of bytes, and fails when the list is empty.  A statement that fails inside a transaction of PostgreSQL aborts it, and
  every later statement of the transaction fails.
\<close>

record config =
  cf_RequireInviteKey :: bool
  cf_MaxInvitesPerUser :: int
  cf_InviteReplenishEnabled :: bool
  cf_InviteReplenishInterval :: int
  cf_AdminEmails :: string

abbreviation hours :: "int \<Rightarrow> int" where "hours n \<equiv> n * 3600 * 1000000000"

definition EffectiveMaxInvitesPerUser :: "config \<Rightarrow> int" where
  "EffectiveMaxInvitesPerUser c = (if cf_MaxInvitesPerUser c \<le> 0 then 5 else cf_MaxInvitesPerUser c)"

definition EffectiveInviteReplenishInterval :: "config \<Rightarrow> int" where
  "EffectiveInviteReplenishInterval c = (if cf_InviteReplenishInterval c \<le> 0 then hours 168 else cf_InviteReplenishInterval c)"

definition inviteCodeLength :: nat where "inviteCodeLength = 8"

definition inviteAlphabet :: string where "inviteAlphabet = ''23456789ABCDEFGHJKMNPQRSTUVWXYZ''"

text \<open>The bytes below \<open>248 = 31 * (256 / 31)\<close> are taken, the others skipped; \<open>n\<close> characters are missing.\<close>

fun generate_code :: "nat \<Rightarrow> nat list \<Rightarrow> (string \<times> nat list) option" where
  "generate_code 0 bytes = Some ([], bytes)"
| "generate_code (Suc n) [] = None"
| "generate_code (Suc n) (b # bytes) =
     (if length inviteAlphabet * (256 div length inviteAlphabet) \<le> b then generate_code (Suc n) bytes
      else map_option (\<lambda>(code, rest). (inviteAlphabet ! (b mod length inviteAlphabet) # code, rest)) (generate_code n bytes))"

definition generateInviteCode :: "nat list \<Rightarrow> (string \<times> nat list) option" where
  "generateInviteCode bytes = generate_code inviteCodeLength bytes"

definition normalizeInviteCode :: "string \<Rightarrow> string" where
  "normalizeInviteCode code = ToUpper (TrimSpace code)"

definition isValidInviteCodeFormat :: "string \<Rightarrow> bool" where
  "isValidInviteCodeFormat code \<longleftrightarrow> length code = inviteCodeLength \<and> list_all (\<lambda>c. c \<in> set inviteAlphabet) code"

definition countInvitesForLimit :: "config \<Rightarrow> dbrole \<Rightarrow> tables \<Rightarrow> int \<Rightarrow> int \<Rightarrow> int result" where
  "countInvitesForLimit cfg rl tb userID now =
     (if \<not> cf_InviteReplenishEnabled cfg then CountActiveInvitesByCreator rl tb userID now
      else (let cutoff = now - EffectiveInviteReplenishInterval cfg in
            Row (int (length (filter (\<lambda>k. invite_keys_policy rl k \<and> ik_created_by k = userID \<and> ik_revoked k = None
              \<and> (ik_uses k < ik_max_uses k \<and> unexpired k now \<or> ik_max_uses k \<le> ik_uses k \<and> cutoff < ik_created k)) (t_invites tb))))))"

datatype attempts = Allocated inviteKey tables | GenerateFailed | InsertFailed | NoUniqueCode

fun create_attempts :: "nat \<Rightarrow> bool \<Rightarrow> (nat \<Rightarrow> bool) \<Rightarrow> nat list \<Rightarrow> (string \<Rightarrow> createResult) \<Rightarrow> attempts" where
  "create_attempts 0 aborted ok bytes create = NoUniqueCode"
| "create_attempts (Suc n) aborted ok bytes create =
     (case generateInviteCode bytes of
        None \<Rightarrow> GenerateFailed
      | Some (code, rest) \<Rightarrow>
          (case (if aborted \<or> \<not> ok n then CreateFailed else create code) of
             Created k tb1 \<Rightarrow> Allocated k tb1
           | CodeTaken \<Rightarrow> create_attempts n True ok rest create
           | CreateFailed \<Rightarrow> InsertFailed))"

definition InviteHandler_Create ::
    "config \<Rightarrow> nat list \<Rightarrow> dbEnv \<Rightarrow> int option \<Rightarrow> (int option \<times> int option) option \<Rightarrow> tables \<Rightarrow> apiResponse \<times> tables" where
  "InviteHandler_Create cfg bytes e ctx body tb =
     (case requestUserID ctx of
        None \<Rightarrow> (unauthorized, tb)
      | Some userID \<Rightarrow>
     (case body of
        None \<Rightarrow> (invalid_request ''invalid JSON body'', tb)
      | Some (maxUses, expiresAt) \<Rightarrow>
          if (case maxUses of None \<Rightarrow> False | Some m \<Rightarrow> m < 1) then (invalid_request ''max_uses must be at least 1'', tb)
          else if \<not> e_begin e then (no_tenant, tb)
          else (case exec e 0 (countInvitesForLimit cfg (Api (Some userID)) tb userID (e_now e)) of
             Row activeCount \<Rightarrow>
               if EffectiveMaxInvitesPerUser cfg \<le> activeCount then
                 (Failure 429 ''too many active invites'' (''maximum '' @ show_int (EffectiveMaxInvitesPerUser cfg) @ '' active invites allowed''), tb)
               else (case create_attempts 8 False (\<lambda>n. e_ok e (8 - n)) bytes
                            (\<lambda>code. CreateInviteKey (Api (Some userID)) tb code userID maxUses expiresAt (e_now e)) of
                  GenerateFailed \<Rightarrow> (Failure 500 ''failed to create invite'' ''failed to generate invite code'', tb)
                | InsertFailed \<Rightarrow> (Failure 500 ''failed to create invite'' ''insert failed'', tb)
                | NoUniqueCode \<Rightarrow> (Failure 500 ''failed to create invite'' ''unable to allocate unique invite code'', tb)
                | Allocated k tb1 \<Rightarrow> commit e ''failed to create invite'' tb (Success 201 ''invite created'' (InviteItem k), tb1))
           | _ \<Rightarrow> (Failure 500 ''failed to create invite'' ''rate limit query failed'', tb))))"

definition InviteHandler_List :: "dbEnv \<Rightarrow> int option \<Rightarrow> tables \<Rightarrow> apiResponse \<times> tables" where
  "InviteHandler_List e ctx tb =
     (case requestUserID ctx of
        None \<Rightarrow> (unauthorized, tb)
      | Some userID \<Rightarrow>
          if \<not> e_begin e then (no_tenant, tb)
          else if \<not> e_ok e 0 then (Failure 500 ''failed to list invites'' ''query failed'', tb)
          else commit e ''failed to list invites'' tb (Success 200 ''invites listed'' (InviteItems (ListInviteKeysByCreator (Api (Some userID)) tb userID)), tb))"

definition InviteHandler_Revoke :: "dbEnv \<Rightarrow> int option \<Rightarrow> string \<Rightarrow> tables \<Rightarrow> apiResponse \<times> tables" where
  "InviteHandler_Revoke e ctx path tb =
     (case requestUserID ctx of
        None \<Rightarrow> (unauthorized, tb)
      | Some userID \<Rightarrow>
     (case ParseInt (TrimSpace path) of
        None \<Rightarrow> (invalid_request ''invalid invite id'', tb)
      | Some inviteID \<Rightarrow>
          if inviteID \<le> 0 then (invalid_request ''invalid invite id'', tb)
          else if \<not> e_begin e then (no_tenant, tb)
          else (case exec e 0 (RevokeInviteKey (Api (Some userID)) tb inviteID userID (e_now e)) of
             Row (affected, tb1) \<Rightarrow>
               if affected = 0 then (Failure 404 ''invite not found'' ''invite not found'', tb)
               else commit e ''failed to revoke invite'' tb (Success 200 ''invite revoked'' NoData, tb1)
           | _ \<Rightarrow> (Failure 500 ''failed to revoke invite'' ''update failed'', tb))))"

end
