(* ===== verification/Auth_Api.thy ===== *)
theory Auth_Api
  imports Invite_Api Middleware
begin

text \<open>
  \<open>api/internal/handler/auth.go\<close>: registration, login with its lockout, and profiles.

  \<open>GenerateFromPassword\<close> and \<open>CompareHashAndPassword\<close> of bcrypt, \<open>IssueToken\<close>, \<open>ResolveIdentityFromToken\<close> are fields of the environment; so is the role of the
  statements that run on the pool without a change of role.  Times are nanoseconds.
\<close>

record authEnv =
  a_cfg :: config
  a_local :: bool
  a_zitadel :: bool
  a_pool_role :: dbrole
  a_hash :: "string \<Rightarrow> string option"
  a_compare :: "string \<Rightarrow> string \<Rightarrow> bool"
  a_token :: "int \<Rightarrow> string \<Rightarrow> string option"
  a_identity :: "string \<Rightarrow> (string \<times> string) option"

section \<open>Checks of the input\<close>

definition bearerTokenFromRequest :: "string \<Rightarrow> string option" where
  "bearerTokenFromRequest header =
     (let h = TrimSpace header in
      if h = [] then None
      else if \<not> HasPrefix h ''Bearer '' then None
      else let token = TrimSpace (drop 7 h) in if token = [] then None else Some token)"

definition normalizeUpperOptional :: "string option \<Rightarrow> string option" where
  "normalizeUpperOptional v = map_option ToUpper (normalizeOptional v)"

definition alnum :: "char \<Rightarrow> bool" where
  "alnum c \<longleftrightarrow> is_upper c \<or> IsDigit c"

text \<open>\<open>^[A-Z0-9]{1,3}[0-9][A-Z0-9]{1,6}$\<close> and \<open>^[A-R]{2}[0-9]{2}([A-X]{2})?$\<close>\<close>

definition callsignPattern :: "string \<Rightarrow> bool" where
  "callsignPattern s \<longleftrightarrow>
     list_all alnum s \<and> list_ex (\<lambda>k. k < length s \<and> IsDigit (s ! k) \<and> 1 \<le> length s - (k + 1) \<and> length s - (k + 1) \<le> 6) [1, 2, 3]"

definition char_between :: "char \<Rightarrow> char \<Rightarrow> char \<Rightarrow> bool" where
  "char_between a b c \<longleftrightarrow> byte a \<le> byte c \<and> byte c \<le> byte b"

definition maidenheadPattern :: "string \<Rightarrow> bool" where
  "maidenheadPattern s \<longleftrightarrow>
     (length s = 4 \<or> length s = 6) \<and> list_all (char_between (CHR ''A'') (CHR ''R'')) (take 2 s) \<and> list_all IsDigit (slice 2 4 s)
     \<and> list_all (char_between (CHR ''A'') (CHR ''X'')) (drop 4 s)"

definition validateCallsignFormat :: "string \<Rightarrow> string option" where
  "validateCallsignFormat callsign0 =
     (let callsign = ToUpper (TrimSpace callsign0) in
      if callsign = [] then Some ''callsign is required''
      else if length callsign < 3 \<or> 10 < length callsign then Some ''callsign must be 3-10 characters''
      else if \<not> callsignPattern callsign then Some ''callsign must look like a valid amateur radio callsign''
      else if \<not> list_ex is_upper callsign then Some ''callsign must contain letters''
      else None)"

definition validateGridSquareFormat :: "string option \<Rightarrow> string option" where
  "validateGridSquareFormat grid0 =
     (case grid0 of
        None \<Rightarrow> None
      | Some g \<Rightarrow>
          (let grid = ToUpper (TrimSpace g) in
           if grid = [] \<or> maidenheadPattern grid then None
           else Some ''grid_square must be a valid Maidenhead locator (for example EM35 or EM35FX)''))"

definition callsignInUse :: "authEnv \<Rightarrow> dbEnv \<Rightarrow> nat \<Rightarrow> tables \<Rightarrow> string \<Rightarrow> int \<Rightarrow> bool option" where
  "callsignInUse a e n tb callsign excludeUserID =
     (case exec e n (GetUserByCallsign (a_pool_role a) tb callsign) of
        NoRows \<Rightarrow> Some False
      | DbErr \<Rightarrow> None
      | Row u \<Rightarrow> Some (us_id u \<noteq> excludeUserID))"

definition CreateDefaultLogbookForUser :: "dbrole \<Rightarrow> tables \<Rightarrow> int \<Rightarrow> int \<Rightarrow> int \<Rightarrow> tables result" where
  "CreateDefaultLogbookForUser rl tb userID uuid now =
     (case insert_logbook rl tb userID ''My Log'' None None True uuid now of Row (_, tb1) \<Rightarrow> Row tb1 | _ \<Rightarrow> DbErr)"


section \<open>Registration\<close>

record registerRequest =
  rr_Email :: string
  rr_Password :: string
  rr_DisplayName :: "string option"
  rr_Callsign :: "string option"
  rr_Timezone :: "string option"
  rr_InviteCode :: "string option"

abbreviation reg_failed :: "nat \<Rightarrow> string \<Rightarrow> apiResponse" where "reg_failed n \<equiv> Failure n ''registration failed''"

text \<open>The check of the invite code before the transaction.\<close>

definition invite_error :: "config \<Rightarrow> string \<Rightarrow> string option" where
  "invite_error cfg inviteCode =
     (if \<not> cf_RequireInviteKey cfg then None
      else if inviteCode = [] then Some ''invite required''
      else if \<not> isValidInviteCodeFormat inviteCode then Some ''invalid invite code''
      else None)"

text \<open>The transaction of \<open>Register\<close> (statements 1 to 4; statement 0 is that of \<open>callsignInUse\<close>).\<close>

definition register_tx :: "authEnv \<Rightarrow> dbEnv \<Rightarrow> string \<Rightarrow> string \<Rightarrow> string option \<Rightarrow> string \<Rightarrow> registerRequest \<Rightarrow> tables \<Rightarrow> apiResponse + (account \<times> tables)" where
  "register_tx a e email hash callsign inviteCode req tb =
     (if \<not> e_begin e then Inl (Failure 503 ''database unavailable'' ''failed to begin transaction'')
      else case exec e 1 (GetUserByEmail (a_pool_role a) tb email) of
        Row _ \<Rightarrow> Inl (reg_failed 409 ''an account with this email already exists'')
      | DbErr \<Rightarrow> Inl (reg_failed 500 ''database error'')
      | NoRows \<Rightarrow>
          (case exec e 2 (CreateUser (a_pool_role a) tb email (Some hash) callsign (rr_DisplayName req) (rr_Timezone req) (e_uuid e) (e_now e)) of
             Row (row, tb1) \<Rightarrow>
               (case (if cf_RequireInviteKey (a_cfg a) then exec e 3 (ConsumeInviteByCode (a_pool_role a) tb1 (us_id row) inviteCode (e_now e)) else Row tb1) of
                  NoRows \<Rightarrow> Inl (reg_failed 403 ''invalid or expired invite code'')
                | DbErr \<Rightarrow> Inl (reg_failed 500 ''failed to consume invite'')
                | Row tb2 \<Rightarrow>
                    (case exec e 4 (CreateDefaultLogbookForUser (a_pool_role a) tb2 (us_id row) (e_uuid e) (e_now e)) of
                       Row tb3 \<Rightarrow> if e_commit e then Inr (row, tb3) else Inl (reg_failed 500 ''transaction failed'')
                     | _ \<Rightarrow> Inl (reg_failed 500 ''failed to create default logbook'')))
           | _ \<Rightarrow> Inl (reg_failed 500 ''failed to create user'')))"

definition AuthHandler_Register :: "authEnv \<Rightarrow> dbEnv \<Rightarrow> registerRequest option \<Rightarrow> tables \<Rightarrow> apiResponse \<times> tables" where
  "AuthHandler_Register a e body tb =
     (if \<not> a_local a then
        (Failure 501 ''not implemented'' ''user registration is managed by Zitadel in production mode; use the Zitadel UI to register'', tb)
      else case body of
        None \<Rightarrow> (invalid_request ''invalid JSON body'', tb)
      | Some req \<Rightarrow>
          (let email = ToLower (TrimSpace (rr_Email req)); inviteCode = normalizeInviteCode (case rr_InviteCode req of None \<Rightarrow> [] | Some c \<Rightarrow> c);
               callsign = normalizeUpperOptional (rr_Callsign req) in
           if email = [] then (invalid_request ''email is required'', tb)
           else case invite_error (a_cfg a) inviteCode of
             Some err \<Rightarrow> (reg_failed 403 err, tb)
           | None \<Rightarrow>
               if length (rr_Password req) < 8 then (invalid_request ''password must be at least 8 characters'', tb)
               else if 128 < length (rr_Password req) then (invalid_request ''password must be at most 128 characters'', tb)
               else case Option.bind callsign validateCallsignFormat of
                 Some err \<Rightarrow> (invalid_request err, tb)
               | None \<Rightarrow>
                   (case (case callsign of None \<Rightarrow> Some False | Some cs \<Rightarrow> callsignInUse a e 0 tb cs 0) of
                      None \<Rightarrow> (Failure 503 ''database unavailable'' ''failed to validate callsign'', tb)
                    | Some True \<Rightarrow> (reg_failed 409 ''callsign is already in use'', tb)
                    | Some False \<Rightarrow>
                        (case a_hash a (rr_Password req) of
                           None \<Rightarrow> (reg_failed 500 ''failed to hash password'', tb)
                         | Some hash \<Rightarrow>
                             (case register_tx a e email hash callsign inviteCode req tb of
                                Inl resp \<Rightarrow> (resp, tb)
                              | Inr (row, tb1) \<Rightarrow>
                                  (case a_token a (us_id row) (us_email row) of
                                     None \<Rightarrow> (reg_failed 500 ''failed to issue token'', tb1)
                                   | Some token \<Rightarrow>
                                       (Success 201 ''user registered'' (AuthItem token row (IsAdminEmail (us_email row) (cf_AdminEmails (a_cfg a)))), tb1)))))))"

definition AuthHandler_ValidateInvite :: "authEnv \<Rightarrow> dbEnv \<Rightarrow> string option \<Rightarrow> tables \<Rightarrow> apiResponse \<times> tables" where
  "AuthHandler_ValidateInvite a e body tb =
     (case body of
        None \<Rightarrow> (invalid_request ''invalid JSON body'', tb)
      | Some code \<Rightarrow>
          if \<not> cf_RequireInviteKey (a_cfg a) then (Success 200 ''invite validation skipped'' (InviteCheck False None), tb)
          else (let inviteCode = normalizeInviteCode code in
           if inviteCode = [] then (Failure 403 ''invite required'' ''invite required'', tb)
           else if \<not> isValidInviteCodeFormat inviteCode then (Failure 403 ''invalid invite'' ''invalid invite code'', tb)
           else if \<not> e_begin e then (Failure 503 ''database unavailable'' ''failed to validate invite'', tb)
           else (case exec e 0 (GetActiveInviteByCode Worker tb inviteCode (e_now e)) of
              NoRows \<Rightarrow> (Failure 403 ''invalid invite'' ''invalid or expired invite code'', tb)
            | DbErr \<Rightarrow> (Failure 500 ''failed to validate invite'' ''database error'', tb)
            | Row k \<Rightarrow> (Success 200 ''invite is valid'' (InviteCheck True (Some k)), tb))))"

text \<open>The transaction of \<open>ConsumeInvite\<close>, which runs as the worker.\<close>

definition provision_tx :: "authEnv \<Rightarrow> dbEnv \<Rightarrow> string \<Rightarrow> string \<Rightarrow> string \<Rightarrow> tables \<Rightarrow> apiResponse \<times> tables" where
  "provision_tx a e subject email inviteCode tb =
     (let required = cf_RequireInviteKey (a_cfg a) in
      case exec e 0 (GetUserByZitadelID Worker tb subject) of
        DbErr \<Rightarrow> (Failure 500 ''failed to consume invite'' ''user lookup failed'', tb)
      | Row existing \<Rightarrow> commit e ''failed to consume invite'' tb (Success 200 ''user already provisioned'' (Provisioned (us_email existing)), tb)
      | NoRows \<Rightarrow>
          (case exec e 1 (CreateZitadelUser Worker tb email subject (e_uuid e) (e_now e)) of
             Row (row, tb1) \<Rightarrow>
               (case (if required then exec e 2 (ConsumeInviteByCode Worker tb1 (us_id row) inviteCode (e_now e)) else Row tb1) of
                  NoRows \<Rightarrow> (Failure 403 ''invalid invite'' ''invalid or expired invite code'', tb)
                | DbErr \<Rightarrow> (Failure 500 ''failed to consume invite'' ''failed to consume invite'', tb)
                | Row tb2 \<Rightarrow>
                    (case exec e 3 (CreateDefaultLogbookForUser Worker tb2 (us_id row) (e_uuid e) (e_now e)) of
                       Row tb3 \<Rightarrow> commit e ''failed to provision user'' tb
                         (Success 200 (if required then ''invite consumed'' else ''user provisioned'')
                            (ProfileItem row (IsAdminEmail (us_email row) (cf_AdminEmails (a_cfg a)))), tb3)
                     | _ \<Rightarrow> (Failure 500 ''failed to provision user'' ''failed to create default logbook'', tb)))
           | _ \<Rightarrow> (Failure 500 ''failed to provision user'' ''failed to create user'', tb)))"

definition AuthHandler_ConsumeInvite :: "authEnv \<Rightarrow> dbEnv \<Rightarrow> string \<Rightarrow> string option \<Rightarrow> tables \<Rightarrow> apiResponse \<times> tables" where
  "AuthHandler_ConsumeInvite a e header body tb =
     (if \<not> a_zitadel a then (Failure 501 ''not implemented'' ''invite consumption is only supported for Zitadel authentication'', tb)
      else case body of
        None \<Rightarrow> (invalid_request ''invalid JSON body'', tb)
      | Some code \<Rightarrow>
     (case bearerTokenFromRequest header of
        None \<Rightarrow> (Failure 401 ''unauthorized'' ''missing bearer token'', tb)
      | Some token \<Rightarrow>
     (case a_identity a token of
        None \<Rightarrow> (Failure 401 ''unauthorized'' ''invalid or expired token'', tb)
      | Some (subject, email) \<Rightarrow>
          (let inviteCode = (if cf_RequireInviteKey (a_cfg a) then normalizeInviteCode code else []) in
           if cf_RequireInviteKey (a_cfg a) \<and> inviteCode = [] then (Failure 403 ''invite required'' ''invite required'', tb)
           else if cf_RequireInviteKey (a_cfg a) \<and> \<not> isValidInviteCodeFormat inviteCode then (Failure 403 ''invalid invite'' ''invalid invite code'', tb)
           else if \<not> e_begin e then (Failure 503 ''database unavailable'' ''failed to provision user'', tb)
           else provision_tx a e subject email inviteCode tb))))"

end
