(* ===== verification/Login_Api.thy ===== *)
theory Login_Api
  imports Auth_Api
begin

text \<open>
  \<open>api/internal/handler/auth.go\<close>: login with its lockout, the password and the profile.

  The zero time of \<open>lockedUntil\<close> is \<^const>\<open>None\<close>.  \<open>loginLockedUntil\<close> and \<open>recordFailedLoginAttempt\<close> hold the lock of an entry; \<open>Login\<close> calls the first when it
  starts and one of the others when the password has been compared, so that other requests run in between.
\<close>

section \<open>The tracker of failed logins\<close>

record loginAttemptState =
  la_count :: int
  la_lockedUntil :: "int option"
  la_updatedAt :: int

type_synonym tracker = "string \<Rightarrow> loginAttemptState option"

abbreviation minutes :: "int \<Rightarrow> int" where "minutes n \<equiv> n * 60 * 1000000000"

definition maxFailedLoginAttempts :: int where "maxFailedLoginAttempts = 5"

definition loginLockoutDuration :: int where "loginLockoutDuration = minutes 15"

definition loginEntryTTL :: int where "loginEntryTTL = minutes 30"

definition locked_at :: "loginAttemptState \<Rightarrow> int \<Rightarrow> bool" where
  "locked_at s now \<longleftrightarrow> (case la_lockedUntil s of None \<Rightarrow> False | Some t \<Rightarrow> now < t)"

definition loginLockedUntil :: "string \<Rightarrow> int \<Rightarrow> tracker \<Rightarrow> int option \<times> tracker" where
  "loginLockedUntil email now tr =
     (case tr email of
        None \<Rightarrow> (None, tr)
      | Some s \<Rightarrow>
          if locked_at s now then (la_lockedUntil s, tr(email \<mapsto> s\<lparr>la_updatedAt := now\<rparr>))
          else if la_lockedUntil s \<noteq> None then (None, tr(email \<mapsto> s\<lparr>la_lockedUntil := None, la_count := 0\<rparr>))
          else (None, tr))"

definition loginAttemptStateFor :: "string \<Rightarrow> tracker \<Rightarrow> loginAttemptState" where
  "loginAttemptStateFor email tr = (case tr email of Some s \<Rightarrow> s | None \<Rightarrow> \<lparr>la_count = 0, la_lockedUntil = None, la_updatedAt = 0\<rparr>)"

definition recordFailedLoginAttempt :: "string \<Rightarrow> int \<Rightarrow> tracker \<Rightarrow> tracker" where
  "recordFailedLoginAttempt email now tr =
     (let s = loginAttemptStateFor email tr in
      if locked_at s now then tr(email \<mapsto> s\<lparr>la_updatedAt := now\<rparr>)
      else let s1 = s\<lparr>la_count := la_count s + 1, la_updatedAt := now\<rparr> in
        if maxFailedLoginAttempts \<le> la_count s1 then tr(email \<mapsto> s1\<lparr>la_lockedUntil := Some (now + loginLockoutDuration), la_count := 0\<rparr>)
        else tr(email \<mapsto> s1))"

definition resetLoginAttempts :: "string \<Rightarrow> tracker \<Rightarrow> tracker" where
  "resetLoginAttempts email tr = tr(email := None)"

text \<open>One tick of \<open>cleanupLoginAttemptTracker\<close>.\<close>

definition stale :: "int \<Rightarrow> loginAttemptState \<Rightarrow> bool" where
  "stale now s \<longleftrightarrow> loginEntryTTL < now - la_updatedAt s \<and> (case la_lockedUntil s of None \<Rightarrow> True | Some t \<Rightarrow> t < now)"

definition cleanupLoginAttemptTracker :: "int \<Rightarrow> tracker \<Rightarrow> tracker" where
  "cleanupLoginAttemptTracker now tr = (\<lambda>email. case tr email of None \<Rightarrow> None | Some s \<Rightarrow> if stale now s then None else Some s)"


section \<open>Login\<close>

text \<open>\<open>math.Ceil(time.Until(lockedUntil).Minutes())\<close>, at least 1; the time of the answer is that of the request.\<close>

definition minutes_left :: "int \<Rightarrow> int \<Rightarrow> int" where
  "minutes_left lockedUntil now = max 1 (- ((now - lockedUntil) div minutes 1))"

text \<open>The checks of \<open>Login\<close> and its look at the tracker: an answer, or the email with which the login goes on.\<close>

definition login_start :: "authEnv \<Rightarrow> (string \<times> string) option \<Rightarrow> int \<Rightarrow> tracker \<Rightarrow> (apiResponse + string \<times> string) \<times> tracker" where
  "login_start a body now tr =
     (if \<not> a_local a then
        (Inl (Failure 501 ''not implemented'' ''login is managed by Zitadel in production mode; use the OIDC authorization flow''), tr)
      else case body of
        None \<Rightarrow> (Inl (invalid_request ''invalid JSON body''), tr)
      | Some (email0, password) \<Rightarrow>
          (let email = ToLower (TrimSpace email0) in
           if email = [] then (Inl (invalid_request ''email is required''), tr)
           else if password = [] then (Inl (invalid_request ''password is required''), tr)
           else if 128 < length password then (Inl (invalid_request ''password must be at most 128 characters''), tr)
           else case loginLockedUntil email now tr of
             (Some until, tr1) \<Rightarrow>
               (Inl (Failure 429 ''too many requests'' (''Too many login attempts, try again in '' @ show_int (minutes_left until now) @ '' minutes'')), tr1)
           | (None, tr1) \<Rightarrow> (Inr (email, password), tr1)))"

text \<open>The rest of \<open>Login\<close>: the user, the password and the token.  \<open>now\<close> is still the time of the start.\<close>

definition login_finish :: "authEnv \<Rightarrow> dbEnv \<Rightarrow> string \<Rightarrow> string \<Rightarrow> int \<Rightarrow> tables \<Rightarrow> tracker \<Rightarrow> apiResponse \<times> tracker" where
  "login_finish a e email password now tb tr =
     (let bad = (Failure 401 ''login failed'' ''invalid credentials'', recordFailedLoginAttempt email now tr) in
      case exec e 0 (GetUserByEmail (a_pool_role a) tb email) of
        NoRows \<Rightarrow> bad
      | DbErr \<Rightarrow> (Failure 500 ''login failed'' ''database error'', tr)
      | Row row \<Rightarrow>
          (case us_hash row of
             None \<Rightarrow> bad
           | Some hash \<Rightarrow>
               if \<not> a_compare a hash password then bad
               else (case a_token a (us_id row) (us_email row) of
                  None \<Rightarrow> (Failure 500 ''login failed'' ''failed to issue token'', resetLoginAttempts email tr)
                | Some token \<Rightarrow> (Success 200 ''login successful'' (AuthItem token row (IsAdminEmail (us_email row) (cf_AdminEmails (a_cfg a)))), resetLoginAttempts email tr))))"

definition AuthHandler_Login :: "authEnv \<Rightarrow> dbEnv \<Rightarrow> (string \<times> string) option \<Rightarrow> tables \<Rightarrow> tracker \<Rightarrow> apiResponse \<times> tracker" where
  "AuthHandler_Login a e body tb tr =
     (case login_start a body (e_now e) tr of
        (Inl resp, tr1) \<Rightarrow> (resp, tr1)
      | (Inr (email, password), tr1) \<Rightarrow> login_finish a e email password (e_now e) tb tr1)"


section \<open>The password and the profile\<close>

definition AuthHandler_ChangePassword :: "authEnv \<Rightarrow> dbEnv \<Rightarrow> int option \<Rightarrow> (string \<times> string) option \<Rightarrow> tables \<Rightarrow> apiResponse \<times> tables" where
  "AuthHandler_ChangePassword a e ctx body tb =
     (if \<not> a_local a then (Failure 501 ''not implemented'' ''password management is handled by Zitadel in production mode'', tb)
      else case requestUserID ctx of
        None \<Rightarrow> (Failure 401 ''unauthorized'' ''authentication required'', tb)
      | Some userID \<Rightarrow>
     (case body of
        None \<Rightarrow> (invalid_request ''invalid JSON body'', tb)
      | Some (old, new) \<Rightarrow>
          if old = [] then (invalid_request ''old_password is required'', tb)
          else if length new < 8 then (invalid_request ''new_password must be at least 8 characters'', tb)
          else if 128 < length new then (invalid_request ''new_password must be at most 128 characters'', tb)
          else (case exec e 0 (GetUserByID (a_pool_role a) tb userID) of
             Row u \<Rightarrow>
               (case us_hash u of
                  None \<Rightarrow> (Failure 400 ''change password failed'' ''no password is set on this account; use register to set one'', tb)
                | Some current \<Rightarrow>
                    if \<not> a_compare a current old then (Failure 401 ''change password failed'' ''old password is incorrect'', tb)
                    else (case a_hash a new of
                       None \<Rightarrow> (Failure 500 ''change password failed'' ''failed to hash password'', tb)
                     | Some hash \<Rightarrow>
                         (case exec e 1 (UpdatePasswordHash (a_pool_role a) tb userID (Some hash) (e_now e)) of
                            Row tb1 \<Rightarrow> (Success 200 ''password updated'' NoData, tb1)
                          | _ \<Rightarrow> (Failure 500 ''change password failed'' ''database error'', tb))))
           | _ \<Rightarrow> (Failure 500 ''change password failed'' ''database error'', tb))))"

definition AuthHandler_CallsignAvailability :: "authEnv \<Rightarrow> dbEnv \<Rightarrow> int option \<Rightarrow> string \<Rightarrow> tables \<Rightarrow> apiResponse \<times> tables" where
  "AuthHandler_CallsignAvailability a e ctx query tb =
     (case requestUserID ctx of
        None \<Rightarrow> (Failure 401 ''unauthorized'' ''authentication required'', tb)
      | Some userID \<Rightarrow>
          (let callsign = ToUpper (TrimSpace query) in
           if callsign = [] then (invalid_request ''callsign is required'', tb)
           else case validateCallsignFormat callsign of
             Some err \<Rightarrow> (Success 200 ''callsign unavailable'' (Availability callsign False (Some err)), tb)
           | None \<Rightarrow>
               (case callsignInUse a e 0 tb callsign userID of
                  None \<Rightarrow> (Failure 503 ''database unavailable'' ''failed to validate callsign'', tb)
                | Some True \<Rightarrow> (Success 200 ''callsign unavailable'' (Availability callsign False (Some ''callsign is already in use'')), tb)
                | Some False \<Rightarrow> (Success 200 ''callsign available'' (Availability callsign True None), tb))))"

definition AuthHandler_UpdateProfile :: "authEnv \<Rightarrow> dbEnv \<Rightarrow> int option \<Rightarrow> (string option \<times> string option) option \<Rightarrow> tables \<Rightarrow> apiResponse \<times> tables" where
  "AuthHandler_UpdateProfile a e ctx body tb =
     (case requestUserID ctx of
        None \<Rightarrow> (Failure 401 ''unauthorized'' ''authentication required'', tb)
      | Some userID \<Rightarrow>
     (case body of
        None \<Rightarrow> (invalid_request ''invalid JSON body'', tb)
      | Some (callsign0, grid0) \<Rightarrow>
     (case normalizeUpperOptional callsign0 of
        None \<Rightarrow> (invalid_request ''callsign is required'', tb)
      | Some callsign \<Rightarrow>
     (case validateCallsignFormat callsign of
        Some err \<Rightarrow> (invalid_request err, tb)
      | None \<Rightarrow>
     (case validateGridSquareFormat (normalizeUpperOptional grid0) of
        Some err \<Rightarrow> (invalid_request err, tb)
      | None \<Rightarrow>
     (case callsignInUse a e 0 tb callsign userID of
        None \<Rightarrow> (Failure 503 ''database unavailable'' ''failed to validate callsign'', tb)
      | Some True \<Rightarrow> (Failure 409 ''profile update failed'' ''callsign is already in use'', tb)
      | Some False \<Rightarrow>
          if \<not> e_begin e then (Failure 500 ''profile update failed'' ''database error'', tb)
          else (let P = (\<lambda>u. users_policy (Api (Some userID)) u \<and> us_id u = userID \<and> us_deleted u = None);
                    new = (\<lambda>u. u\<lparr>us_callsign := Some callsign, us_grid := normalizeUpperOptional grid0, us_onboarded := True, us_updated := e_now e\<rparr>);
                    tb1 = tb\<lparr>t_users := update_rows P new (t_users tb)\<rparr> in
                case exec e 1 (first_row (map new (filter P (t_users tb)))) of
                  NoRows \<Rightarrow> (Failure 404 ''profile update failed'' ''user not found'', tb)
                | DbErr \<Rightarrow> (Failure 500 ''profile update failed'' ''database error'', tb)
                | Row u \<Rightarrow>
                    if e_commit e then (Success 200 ''profile updated'' (ProfileItem u (IsAdminEmail (us_email u) (cf_AdminEmails (a_cfg a)))), tb1)
                    else (Failure 500 ''profile update failed'' ''database error'', tb))))))))"

definition AuthHandler_Me :: "authEnv \<Rightarrow> dbEnv \<Rightarrow> int option \<Rightarrow> tables \<Rightarrow> apiResponse \<times> tables" where
  "AuthHandler_Me a e info tb =
     (case info of
        None \<Rightarrow> (Failure 401 ''unauthorized'' ''not authenticated'', tb)
      | Some userID \<Rightarrow>
          if \<not> e_begin e then (Failure 500 ''failed to fetch user'' ''database error'', tb)
          else (case exec e 0 (GetUserByID (Api (Some userID)) tb userID) of
             NoRows \<Rightarrow> (Failure 200 ''user not found'' ''user not found'', tb)
           | DbErr \<Rightarrow> (Failure 500 ''failed to fetch user'' ''database error'', tb)
           | Row u \<Rightarrow>
               if e_commit e then (Success 200 ''user retrieved'' (ProfileItem u (IsAdminEmail (us_email u) (cf_AdminEmails (a_cfg a)))), tb)
               else (Failure 500 ''failed to fetch user'' ''database error'', tb)))"

definition AuthHandler_DeleteMe :: "dbEnv \<Rightarrow> int option \<Rightarrow> tables \<Rightarrow> apiResponse \<times> tables" where
  "AuthHandler_DeleteMe e ctx tb =
     (case requestUserID ctx of
        None \<Rightarrow> (Failure 401 ''unauthorized'' ''authentication required'', tb)
      | Some userID \<Rightarrow>
          if \<not> e_begin e then (Failure 500 ''database error'' ''internal error'', tb)
          else (case exec e 0 (SoftDeleteUserByID (Api (Some userID)) tb userID (e_now e)) of
             Row (affected, tb1) \<Rightarrow>
               if affected = 0 then (Failure 404 ''not found'' ''user not found'', tb)
               else if e_commit e then (Success 200 ''account scheduled for deletion'' NoData, tb1)
               else (Failure 500 ''delete failed'' ''database error'', tb)
           | _ \<Rightarrow> (Failure 500 ''delete failed'' ''database error'', tb)))"

end
