(* ===== verification/Accounts_Inv.thy ===== *)
theory Accounts_Inv
  imports Login_Api "HOL-Library.Sublist"
begin

text \<open>The invariant of the tables, and that every request keeps it.\<close>

section \<open>The invariant\<close>

definition users_ok :: "tables \<Rightarrow> bool" where
  "users_ok tb \<longleftrightarrow>
     distinct (map us_id (t_users tb)) \<and> distinct (map us_uuid (t_users tb)) \<and> (\<forall>u\<in>set (t_users tb). us_id u < t_user_seq tb)
     \<and> distinct (map (ToLower \<circ> us_email) (filter (\<lambda>u. us_deleted u = None) (t_users tb)))"

definition logbooks_ok :: "tables \<Rightarrow> bool" where
  "logbooks_ok tb \<longleftrightarrow>
     distinct (map lb_id (t_logbooks tb)) \<and> distinct (map lb_uuid (t_logbooks tb)) \<and> (\<forall>l\<in>set (t_logbooks tb). lb_id l < t_logbook_seq tb)
     \<and> distinct (map lb_user (filter (\<lambda>l. lb_default l \<and> lb_deleted l = None) (t_logbooks tb)))"

definition is_owner :: "tables \<Rightarrow> int \<Rightarrow> int \<Rightarrow> bool" where
  "is_owner tb l u \<longleftrightarrow> (\<exists>r\<in>set (t_roles tb). ur_logbook r = l \<and> ur_user r = u \<and> ur_role r = RoleOwner)"

definition roles_ok :: "tables \<Rightarrow> bool" where
  "roles_ok tb \<longleftrightarrow>
     distinct (map (\<lambda>r. (ur_logbook r, ur_user r)) (t_roles tb)) \<and> (\<forall>r\<in>set (t_roles tb). role_check (ur_role r) \<and> ur_logbook r < t_logbook_seq tb)
     \<and> (\<forall>l u u'. is_owner tb l u \<longrightarrow> is_owner tb l u' \<longrightarrow> u = u') \<and> (\<forall>l\<in>set (t_logbooks tb). is_owner tb (lb_id l) (lb_user l))"

definition invites_ok :: "tables \<Rightarrow> bool" where
  "invites_ok tb \<longleftrightarrow>
     distinct (map ik_code (t_invites tb)) \<and> distinct (map ik_id (t_invites tb))
     \<and> (\<forall>k\<in>set (t_invites tb). 0 \<le> ik_uses k \<and> ik_uses k \<le> ik_max_uses k \<and> 1 \<le> ik_max_uses k \<and> code_format (ik_code k) \<and> ik_id k < t_invite_seq tb)"

definition accounts_ok :: "tables \<Rightarrow> bool" where
  "accounts_ok tb \<longleftrightarrow> users_ok tb \<and> logbooks_ok tb \<and> roles_ok tb \<and> invites_ok tb"


section \<open>Updating rows\<close>

lemma map_update_rows: "(\<And>x. P x \<Longrightarrow> g (f x) = g x) \<Longrightarrow> map g (update_rows P f xs) = map g xs"
  by (induction xs) (auto simp: update_rows_def)

lemma update_rows_Cons [simp]: "update_rows P f (x # xs) = (if P x then f x else x) # update_rows P f xs"
  and update_rows_Nil [simp]: "update_rows P f [] = []"
  by (simp_all add: update_rows_def)

lemma set_update_rows: "y \<in> set (update_rows P f xs) \<longleftrightarrow> (\<exists>x\<in>set xs. y = (if P x then f x else x))"
  by (auto simp: update_rows_def)

lemma filter_update_rows_same: "(\<And>x. P x \<Longrightarrow> Q (f x) = Q x) \<Longrightarrow> (\<And>x. P x \<Longrightarrow> g (f x) = g x) \<Longrightarrow>
  map g (filter Q (update_rows P f xs)) = map g (filter Q xs)"
  by (induction xs) auto

lemma filter_update_rows_less:
  assumes "\<And>x. P x \<Longrightarrow> \<not> Q (f x)"
  shows "map g (filter Q (update_rows P f xs)) = map g (filter (\<lambda>x. Q x \<and> \<not> P x) xs)"
  using assms by (induction xs) auto

lemma distinct_map_filter_mono: "distinct (map g (filter Q xs)) \<Longrightarrow> (\<And>x. R x \<Longrightarrow> Q x) \<Longrightarrow> distinct (map g (filter R xs))"
  by (induction xs) (auto split: if_splits)

lemma find_distinct:
  assumes "distinct (map g xs)" "x \<in> set xs" "\<And>y. y \<in> set xs \<Longrightarrow> P y \<longleftrightarrow> g y = g x"
  shows "find P xs = Some x"
  using assms
proof (induction xs)
  case (Cons y ys)
  show ?case
  proof (cases "P y")
    case True
    then have "g y = g x" using Cons.prems(3) by simp
    then have "y = x" using Cons.prems(1,2) by (auto simp: image_iff)
    with True show ?thesis by simp
  next
    case False
    then have "x \<in> set ys" using Cons.prems(2,3) by auto
    with False Cons show ?thesis by simp
  qed
qed simp

lemma first_row_Row: "first_row xs = Row x \<Longrightarrow> x \<in> set xs"
  and first_row_NoRows: "first_row xs = NoRows \<longleftrightarrow> xs = []"
  and first_row_not_Err [simp]: "first_row xs \<noteq> DbErr"
  by (auto simp: first_row_def split: list.splits)

lemma exec_cases: "exec e n q = Row x \<longleftrightarrow> e_ok e n \<and> q = Row x" "exec e n q = NoRows \<longleftrightarrow> e_ok e n \<and> q = NoRows"
  by (auto simp: exec_def)


section \<open>Roles\<close>

lemma member_rows_iff:
  "(r, u) \<in> set (member_rows rl tb lu) \<longleftrightarrow>
     r \<in> set (t_roles tb) \<and> user_roles_select rl tb r \<and> u \<in> set (t_users tb) \<and> users_policy rl u \<and> us_id u = ur_user r
     \<and> (\<exists>l\<in>set (t_logbooks tb). logbooks_select rl tb l \<and> lb_id l = ur_logbook r \<and> lb_uuid l = lu \<and> lb_deleted l = None)"
  by (auto simp: member_rows_def)

lemma GetLogbookMember_Row:
  assumes "GetLogbookMemberByUserUUID rl tb lu uu = Row (r, u)"
  shows "(r, u) \<in> set (member_rows rl tb lu)" "us_uuid u = uu" "us_deleted u = None"
  using first_row_Row [OF assms [unfolded GetLogbookMemberByUserUUID_def]] by auto

text \<open>The rank of a user in a logbook.\<close>

definition rank_in :: "tables \<Rightarrow> int \<Rightarrow> int \<Rightarrow> int" where
  "rank_in tb l u = (case find (\<lambda>r. ur_logbook r = l \<and> ur_user r = u) (t_roles tb) of None \<Rightarrow> 0 | Some r \<Rightarrow> role_rank (ur_role r))"

lemma role_check_lower: "role_check r \<Longrightarrow> ToLower r = r"
  by (auto simp: role_check_def role_defs ToLower_def lower_char_def is_upper_def)

lemma app_role_rank_check: "role_check r \<Longrightarrow> app_role_rank r = role_rank r"
  by (simp add: app_role_rank_def role_check_lower)

lemma rank_in_row:
  assumes "roles_ok tb" "r \<in> set (t_roles tb)"
  shows "rank_in tb (ur_logbook r) (ur_user r) = role_rank (ur_role r)"
proof -
  have "find (\<lambda>r'. ur_logbook r' = ur_logbook r \<and> ur_user r' = ur_user r) (t_roles tb) = Some r"
    using assms by (intro find_distinct [where g = "\<lambda>r. (ur_logbook r, ur_user r)"]) (auto simp: roles_ok_def)
  then show ?thesis by (simp add: rank_in_def)
qed

lemma min_role_rank:
  assumes "roles_ok tb"
  shows "app_has_logbook_min_role tb l (Some u) m \<longleftrightarrow> app_role_rank m \<le> rank_in tb l u"
proof (cases "find (\<lambda>r. ur_logbook r = l \<and> ur_user r = u) (t_roles tb)")
  case (Some r)
  then have "r \<in> set (t_roles tb)" by (auto simp: find_Some_iff)
  then have "app_role_rank (ur_role r) = role_rank (ur_role r)" using assms by (intro app_role_rank_check) (simp add: roles_ok_def)
  with Some show ?thesis by (simp add: app_has_logbook_min_role_def rank_in_def)
qed (simp add: app_has_logbook_min_role_def rank_in_def)

lemma role_ranks [simp]:
  "role_rank RoleOwner = 5" "role_rank RoleAdmin = 4" "role_rank RoleOperator = 3" "role_rank RoleContributor = 2" "role_rank RoleViewer = 1"
  "app_role_rank RoleAdmin = 4" "app_role_rank RoleViewer = 1"
  by (simp_all add: app_role_rank_def role_check_lower role_check_def)
    (simp_all add: role_rank_def roleOrder_def role_defs)

lemma role_rank_bounds: "role_check r \<Longrightarrow> 1 \<le> role_rank r \<and> role_rank r \<le> 5 \<and> (role_rank r = 5 \<longleftrightarrow> r = RoleOwner)"
  by (auto simp: role_check_def)


section \<open>What a request may do to the tables\<close>

definition lb_key :: "logbookRow \<Rightarrow> int \<times> int \<times> int \<times> int option" where
  "lb_key l = (lb_id l, lb_uuid l, lb_user l, lb_deleted l)"

definition keeps_tables :: "tables \<Rightarrow> tables \<Rightarrow> bool" where
  "keeps_tables tb tb' \<longleftrightarrow>
     accounts_ok tb' \<and> prefix (map lb_key (t_logbooks tb)) (map lb_key (t_logbooks tb')) \<and> t_logbook_seq tb \<le> t_logbook_seq tb'
     \<and> (\<forall>l u. l < t_logbook_seq tb \<longrightarrow> rank_in tb' l u \<le> rank_in tb l u)"

lemma keeps_refl: "accounts_ok tb \<Longrightarrow> keeps_tables tb tb"
  by (simp add: keeps_tables_def)

lemma keeps_tables_trans: "keeps_tables tb tb1 \<Longrightarrow> keeps_tables tb1 tb2 \<Longrightarrow> keeps_tables tb tb2"
  unfolding keeps_tables_def by (meson order_trans prefix_order.order_trans order_less_le_trans)

lemma keeps_ok: "keeps_tables tb tb' \<Longrightarrow> accounts_ok tb'"
  by (simp add: keeps_tables_def)

text \<open>A contract for the steps of a system: each keeps an invariant and a relation between the states before and after it.\<close>

locale kept_by_steps =
  fixes ok :: "'s \<Rightarrow> bool" and rel :: "'s \<Rightarrow> 's \<Rightarrow> bool"
  assumes reflexive: "ok s \<Longrightarrow> rel s s" and transitive: "rel s t \<Longrightarrow> rel t u \<Longrightarrow> rel s u" and kept_ok: "rel s t \<Longrightarrow> ok t"
begin

lemma closure_rel:
  assumes "\<And>s t. step s t \<Longrightarrow> ok s \<Longrightarrow> rel s t" "step\<^sup>*\<^sup>* s t" "ok s"
  shows "rel s t"
  using assms(2,3) by (induction rule: rtranclp_induct) (auto intro: reflexive transitive assms(1) kept_ok)

end

interpretation kept_tables: kept_by_steps accounts_ok keeps_tables
  by unfold_locales (auto intro: keeps_refl keeps_tables_trans keeps_ok)

text \<open>The parts of the invariant see their own tables only.\<close>

lemma ok_fields [simp]:
  "users_ok (tb\<lparr>t_logbooks := ls\<rparr>) = users_ok tb" "users_ok (tb\<lparr>t_roles := rs\<rparr>) = users_ok tb" "users_ok (tb\<lparr>t_invites := ks\<rparr>) = users_ok tb"
  "users_ok (tb\<lparr>t_logbook_seq := n\<rparr>) = users_ok tb" "users_ok (tb\<lparr>t_invite_seq := n\<rparr>) = users_ok tb"
  "logbooks_ok (tb\<lparr>t_users := us\<rparr>) = logbooks_ok tb" "logbooks_ok (tb\<lparr>t_roles := rs\<rparr>) = logbooks_ok tb" "logbooks_ok (tb\<lparr>t_invites := ks\<rparr>) = logbooks_ok tb"
  "logbooks_ok (tb\<lparr>t_user_seq := n\<rparr>) = logbooks_ok tb" "logbooks_ok (tb\<lparr>t_invite_seq := n\<rparr>) = logbooks_ok tb"
  "roles_ok (tb\<lparr>t_users := us\<rparr>) = roles_ok tb" "roles_ok (tb\<lparr>t_invites := ks\<rparr>) = roles_ok tb"
  "roles_ok (tb\<lparr>t_user_seq := n\<rparr>) = roles_ok tb" "roles_ok (tb\<lparr>t_invite_seq := n\<rparr>) = roles_ok tb"
  "invites_ok (tb\<lparr>t_users := us\<rparr>) = invites_ok tb" "invites_ok (tb\<lparr>t_logbooks := ls\<rparr>) = invites_ok tb" "invites_ok (tb\<lparr>t_roles := rs\<rparr>) = invites_ok tb"
  "invites_ok (tb\<lparr>t_user_seq := n\<rparr>) = invites_ok tb" "invites_ok (tb\<lparr>t_logbook_seq := n\<rparr>) = invites_ok tb"
  by (simp_all add: users_ok_def logbooks_ok_def roles_ok_def invites_ok_def is_owner_def)

lemma is_owner_fields [simp]: "is_owner (tb\<lparr>t_logbooks := ls\<rparr>) = is_owner tb" "is_owner (tb\<lparr>t_logbook_seq := n\<rparr>) = is_owner tb"
  by (simp_all add: is_owner_def fun_eq_iff)

lemma rank_in_fields [simp]:
  "rank_in (tb\<lparr>t_users := us\<rparr>) = rank_in tb" "rank_in (tb\<lparr>t_logbooks := ls\<rparr>) = rank_in tb" "rank_in (tb\<lparr>t_invites := ks\<rparr>) = rank_in tb"
  "rank_in (tb\<lparr>t_user_seq := n\<rparr>) = rank_in tb" "rank_in (tb\<lparr>t_logbook_seq := n\<rparr>) = rank_in tb" "rank_in (tb\<lparr>t_invite_seq := n\<rparr>) = rank_in tb"
  by (simp_all add: rank_in_def fun_eq_iff)


subsection \<open>Users and invites\<close>

lemma subseq_distinctD: "subseq xs ys \<Longrightarrow> distinct ys \<Longrightarrow> distinct xs"
  by (auto simp: subseq_conv_nths intro: distinct_nthsI)

lemma keeps_users_update:
  assumes ok: "accounts_ok tb"
    and same: "\<And>u. P u \<Longrightarrow> us_id (f u) = us_id u" "\<And>u. P u \<Longrightarrow> us_uuid (f u) = us_uuid u" "\<And>u. P u \<Longrightarrow> us_email (f u) = us_email u"
    and del: "\<And>u. P u \<Longrightarrow> us_deleted (f u) = None \<Longrightarrow> us_deleted u = None"
  shows "keeps_tables tb (tb\<lparr>t_users := update_rows P f (t_users tb)\<rparr>)"
proof -
  let ?us = "update_rows P f (t_users tb)"
  have emails: "subseq (map (ToLower \<circ> us_email) (filter (\<lambda>u. us_deleted u = None) (update_rows P f xs)))
      (map (ToLower \<circ> us_email) (filter (\<lambda>u. us_deleted u = None) xs))" for xs
    using same(3) del by (induction xs) auto
  have ids: "map us_id ?us = map us_id (t_users tb)" "map us_uuid ?us = map us_uuid (t_users tb)"
    using same by (auto intro: map_update_rows)
  have "(\<forall>u\<in>set ?us. us_id u < t_user_seq tb) \<longleftrightarrow> (\<forall>i\<in>set (map us_id ?us). i < t_user_seq tb)" by simp
  then have "users_ok (tb\<lparr>t_users := ?us\<rparr>)"
    using ok ids subseq_distinctD [OF emails] by (simp add: accounts_ok_def users_ok_def)
  then show ?thesis using ok by (simp add: keeps_tables_def accounts_ok_def)
qed

lemma keeps_insert_user:
  assumes "accounts_ok tb" "insert_user rl tb u = Row (u', tb')" "us_id u = t_user_seq tb" "us_deleted u = None"
  shows "keeps_tables tb tb'" "u' = u" "tb' = tb\<lparr>t_users := t_users tb @ [u], t_user_seq := t_user_seq tb + 1\<rparr>"
proof -
  show res: "u' = u" and tb': "tb' = tb\<lparr>t_users := t_users tb @ [u], t_user_seq := t_user_seq tb + 1\<rparr>"
    using assms(2) by (auto simp: insert_user_def split: if_splits)
  have "\<not> email_clash tb (us_email u)" "us_uuid u \<notin> us_uuid ` set (t_users tb)"
    using assms(2) by (auto simp: insert_user_def list_ex_iff split: if_splits)
  then have "users_ok tb'"
    using assms(1,3,4) unfolding tb' by (auto simp: users_ok_def accounts_ok_def email_clash_def list_ex_iff)
  then show "keeps_tables tb tb'" using assms(1) unfolding tb' by (simp add: keeps_tables_def accounts_ok_def)
qed

lemma keeps_invites_update:
  assumes ok: "accounts_ok tb"
    and same: "\<And>k. P k \<Longrightarrow> ik_id (f k) = ik_id k" "\<And>k. P k \<Longrightarrow> ik_code (f k) = ik_code k" "\<And>k. P k \<Longrightarrow> ik_max_uses (f k) = ik_max_uses k"
    and uses: "\<And>k. P k \<Longrightarrow> 0 \<le> ik_uses k \<Longrightarrow> ik_uses k \<le> ik_max_uses k \<Longrightarrow> 0 \<le> ik_uses (f k) \<and> ik_uses (f k) \<le> ik_max_uses k"
  shows "keeps_tables tb (tb\<lparr>t_invites := update_rows P f (t_invites tb)\<rparr>)"
proof -
  let ?ks = "update_rows P f (t_invites tb)"
  have "map ik_id ?ks = map ik_id (t_invites tb)" "map ik_code ?ks = map ik_code (t_invites tb)"
    using same by (auto intro: map_update_rows)
  then have "invites_ok (tb\<lparr>t_invites := ?ks\<rparr>)"
    using ok same uses unfolding accounts_ok_def invites_ok_def by (auto simp: set_update_rows)
  then show ?thesis using ok by (simp add: keeps_tables_def accounts_ok_def)
qed

lemma keeps_ConsumeInvite: "accounts_ok tb \<Longrightarrow> ConsumeInviteByCode rl tb u code now = Row tb' \<Longrightarrow> keeps_tables tb tb'"
  by (auto simp: ConsumeInviteByCode_def consumable_def active_invite_def split: if_splits intro!: keeps_invites_update)

lemma keeps_RevokeInvite: "accounts_ok tb \<Longrightarrow> RevokeInviteKey rl tb i u now = Row (n, tb') \<Longrightarrow> keeps_tables tb tb'"
  by (auto simp: RevokeInviteKey_def Let_def intro!: keeps_invites_update)

lemma keeps_CreateInvite:
  assumes "accounts_ok tb" "CreateInviteKey rl tb code u maxUses expires now = Created k tb'"
  shows "keeps_tables tb tb'"
proof -
  have tb': "tb' = tb\<lparr>t_invites := t_invites tb @ [k], t_invite_seq := t_invite_seq tb + 1\<rparr>"
    and k: "ik_id k = t_invite_seq tb" "ik_uses k = 0" "1 \<le> ik_max_uses k" "code_format (ik_code k)" "ik_code k \<notin> ik_code ` set (t_invites tb)"
    using assms(2) by (auto simp: CreateInviteKey_def Let_def list_ex_iff split: if_splits)
  then have "invites_ok tb'" using assms(1) k unfolding tb' accounts_ok_def invites_ok_def by auto
  then show ?thesis using assms(1) unfolding tb' by (simp add: keeps_tables_def accounts_ok_def)
qed


subsection \<open>Logbooks\<close>

abbreviation live_default :: "logbookRow \<Rightarrow> bool" where "live_default l \<equiv> lb_default l \<and> lb_deleted l = None"

lemma keeps_logbooks_update:
  assumes ok: "accounts_ok tb"
    and key: "\<And>l. P l \<Longrightarrow> lb_key (f l) = lb_key l"
    and defaults: "distinct (map lb_user (filter live_default (update_rows P f (t_logbooks tb))))"
  shows "keeps_tables tb (tb\<lparr>t_logbooks := update_rows P f (t_logbooks tb)\<rparr>)"
proof -
  let ?ls = "update_rows P f (t_logbooks tb)"
  have keys: "map lb_key ?ls = map lb_key (t_logbooks tb)" using key by (rule map_update_rows)
  have "map lb_id ?ls = map lb_id (t_logbooks tb)" "map lb_uuid ?ls = map lb_uuid (t_logbooks tb)"
    using key by (auto simp: lb_key_def intro: map_update_rows)
  moreover have "lb_id l < t_logbook_seq tb" "is_owner tb (lb_id l) (lb_user l)" if "l \<in> set ?ls" for l
    using that ok key by (auto simp: set_update_rows accounts_ok_def logbooks_ok_def roles_ok_def lb_key_def)
  ultimately have "logbooks_ok (tb\<lparr>t_logbooks := ?ls\<rparr>)" "roles_ok (tb\<lparr>t_logbooks := ?ls\<rparr>)"
    using ok defaults unfolding accounts_ok_def logbooks_ok_def roles_ok_def by simp_all
  then show ?thesis using ok keys by (simp add: keeps_tables_def accounts_ok_def)
qed

lemma keeps_unset_defaults:
  assumes ok: "accounts_ok tb" and un: "unset_defaults rl tb P now = Row tb'"
  shows "keeps_tables tb tb'"
proof -
  have "distinct (map lb_user (filter live_default (t_logbooks tb)))" using ok by (simp add: accounts_ok_def logbooks_ok_def)
  then have "distinct (map lb_user (filter live_default (update_rows Q (\<lambda>l. l\<lparr>lb_default := False, lb_updated := now\<rparr>) (t_logbooks tb))))" for Q
    by (subst filter_update_rows_less) (auto elim: distinct_map_filter_mono)
  then show ?thesis using un by (auto simp: unset_defaults_def lb_key_def intro!: keeps_logbooks_update [OF ok])
qed

lemma live_default_update:
  assumes "distinct (map lb_id ls)" "distinct (map lb_user (filter live_default ls))"
    "\<And>l. P l \<Longrightarrow> lb_key (f l) = lb_key l"
    "\<And>l l'. l \<in> set ls \<Longrightarrow> P l \<Longrightarrow> l' \<in> set ls \<Longrightarrow> live_default (f l) \<Longrightarrow> live_default l' \<Longrightarrow> lb_user l' = lb_user l \<Longrightarrow> lb_id l' = lb_id l"
    "\<And>l l'. l \<in> set ls \<Longrightarrow> l' \<in> set ls \<Longrightarrow> P l \<Longrightarrow> P l' \<Longrightarrow> l = l'"
  shows "distinct (map lb_user (filter live_default (update_rows P f ls)))"
  using assms
proof (induction ls)
  case (Cons l ls)
  have IH: "distinct (map lb_user (filter live_default (update_rows P f ls)))"
  proof (rule Cons.IH)
    show "distinct (map lb_id ls)" "distinct (map lb_user (filter live_default ls))" using Cons.prems(1,2) by (simp_all split: if_splits)
    show "\<And>l. P l \<Longrightarrow> lb_key (f l) = lb_key l" by (rule Cons.prems(3))
    show "lb_id y = lb_id x" if "x \<in> set ls" "P x" "y \<in> set ls" "live_default (f x)" "live_default y" "lb_user y = lb_user x" for x y
      using that by (intro Cons.prems(4)) simp_all
    show "x = y" if "x \<in> set ls" "y \<in> set ls" "P x" "P y" for x y using that by (intro Cons.prems(5)) simp_all
  qed
  have other: "lb_user y \<noteq> lb_user l" if y: "y \<in> set (update_rows P f ls)" "live_default y" and l: "live_default (if P l then f l else l)" for y
  proof
    assume u: "lb_user y = lb_user l"
    obtain x where x: "x \<in> set ls" "y = (if P x then f x else x)" using y(1) by (auto simp: set_update_rows)
    have id: "lb_id x \<noteq> lb_id l" using Cons.prems(1) x(1) by (auto simp: image_iff)
    have ux: "lb_user x = lb_user l" using x(2) u Cons.prems(3) [of x] by (auto simp: lb_key_def split: if_splits)
    show False
    proof (cases "P l")
      case True
      then have "\<not> P x" using Cons.prems(5) [of l x] x(1) id by auto
      then show False using Cons.prems(4) [of l x] True x l y(2) ux id by simp
    next
      case l': False
      show False
      proof (cases "P x")
        case True
        then show False using Cons.prems(4) [of x l] x l y(2) ux id l' by simp
      next
        case False
        then show False using Cons.prems(2) x l y(2) ux l' by (force simp: image_iff split: if_splits)
      qed
    qed
  qed
  have user: "lb_user (if P l then f l else l) = lb_user l" using Cons.prems(3) [of l] by (simp add: lb_key_def)
  show ?case
  proof (cases "live_default (if P l then f l else l)")
    case True
    have "lb_user l \<notin> lb_user ` set (filter live_default (update_rows P f ls))" using other [OF _ _ True] by fastforce
    with True show ?thesis using IH user by simp
  qed (use IH in auto)
qed simp

lemma keeps_UpdateLogbook:
  assumes ok: "accounts_ok tb" and upd: "UpdateLogbook rl tb lu name cs desc dflt now = Row (l, tb')"
  shows "keeps_tables tb tb'"
proof -
  let ?P = "logbook_target rl tb lu"
  let ?f = "\<lambda>l. l\<lparr>lb_name := name, lb_callsign := map_option ToUpper cs, lb_description := desc, lb_default := dflt, lb_updated := now\<rparr>"
  have tb': "tb' = tb\<lparr>t_logbooks := update_rows ?P ?f (t_logbooks tb)\<rparr>"
    and no: "\<And>l. l \<in> set (t_logbooks tb) \<Longrightarrow> ?P l \<Longrightarrow> \<not> default_clash tb (?f l)"
    using upd by (auto simp: UpdateLogbook_def Let_def list_ex_iff split: list.splits if_splits)
  have lo: "logbooks_ok tb" using ok by (simp add: accounts_ok_def)
  have "distinct (map lb_user (filter live_default (update_rows ?P ?f (t_logbooks tb))))"
  proof (rule live_default_update)
    show "lb_id l' = lb_id l" if "l \<in> set (t_logbooks tb)" "?P l" "l' \<in> set (t_logbooks tb)" "live_default (?f l)" "live_default l'" "lb_user l' = lb_user l" for l l'
      using no [OF that(1,2)] that(3-6) by (auto simp: default_clash_def list_ex_iff)
    show "l = l'" if "l \<in> set (t_logbooks tb)" "l' \<in> set (t_logbooks tb)" "?P l" "?P l'" for l l'
      using lo that by (auto simp: logbooks_ok_def logbook_target_def distinct_map inj_on_def)
  qed (use lo in \<open>auto simp: logbooks_ok_def lb_key_def\<close>)
  then show ?thesis unfolding tb' by (intro keeps_logbooks_update [OF ok]) (simp_all add: lb_key_def)
qed

lemma DeleteLogbook_Api: "DeleteLogbook (Api cu) tb lu now \<noteq> Row x"
  by (auto simp: DeleteLogbook_def Let_def logbooks_select_def filter_eq_Cons_iff list_ex_iff logbook_target_def split: list.splits)

text \<open>A new logbook, and its owner's role from the trigger.\<close>

definition owner_row :: "int \<Rightarrow> int \<Rightarrow> int \<Rightarrow> userRole" where
  "owner_row l u now = \<lparr>ur_logbook = l, ur_user = u, ur_role = RoleOwner, ur_invited_by = Some u, ur_created = now, ur_updated = now\<rparr>"

definition new_logbook :: "tables \<Rightarrow> int \<Rightarrow> string \<Rightarrow> string option \<Rightarrow> string option \<Rightarrow> bool \<Rightarrow> int \<Rightarrow> int \<Rightarrow> logbookRow" where
  "new_logbook tb u name cs desc dflt uuid now =
     \<lparr>lb_id = t_logbook_seq tb, lb_uuid = uuid, lb_user = u, lb_name = name, lb_callsign = cs, lb_description = desc,
      lb_default = dflt, lb_deleted = None, lb_created = now, lb_updated = now\<rparr>"

definition with_logbook :: "tables \<Rightarrow> logbookRow \<Rightarrow> int \<Rightarrow> tables" where
  "with_logbook tb l now = tb\<lparr>t_logbooks := t_logbooks tb @ [l], t_logbook_seq := t_logbook_seq tb + 1, t_roles := t_roles tb @ [owner_row (lb_id l) (lb_user l) now]\<rparr>"

lemma owner_role_new:
  assumes "roles_ok tb" "lb_id l = t_logbook_seq tb"
  shows "ensure_logbook_owner_role (tb\<lparr>t_logbooks := t_logbooks tb @ [l], t_logbook_seq := t_logbook_seq tb + 1\<rparr>) l now = Row (with_logbook tb l now)"
proof -
  have "ur_logbook r < t_logbook_seq tb" if "r \<in> set (t_roles tb)" for r using assms(1) that by (simp add: roles_ok_def)
  then have "\<not> list_ex (\<lambda>r. ur_logbook r = t_logbook_seq tb \<and> Q r) (t_roles tb)" for Q by (fastforce simp: list_ex_iff)
  then show ?thesis using assms(2) by (simp add: ensure_logbook_owner_role_def owner_clash_def with_logbook_def owner_row_def Let_def)
qed

lemma list_ex_image: "list_ex (\<lambda>x. g x = v) xs \<longleftrightarrow> v \<in> g ` set xs"
  by (auto simp: list_ex_iff)

lemma insert_logbook_iff:
  assumes "roles_ok tb"
  shows "insert_logbook rl tb u name cs desc dflt uuid now = Row (l, tb') \<longleftrightarrow>
    l = new_logbook tb u name cs desc dflt uuid now \<and> tb' = with_logbook tb l now
    \<and> logbooks_insert rl l \<and> \<not> default_clash tb l \<and> uuid \<notin> lb_uuid ` set (t_logbooks tb) \<and> u \<in> us_id ` set (t_users tb)"
proof -
  have "ensure_logbook_owner_role (tb\<lparr>t_logbooks := t_logbooks tb @ [new_logbook tb u name cs desc dflt uuid now], t_logbook_seq := t_logbook_seq tb + 1\<rparr>)
      (new_logbook tb u name cs desc dflt uuid now) now = Row (with_logbook tb (new_logbook tb u name cs desc dflt uuid now) now)"
    using assms by (rule owner_role_new) (simp add: new_logbook_def)
  then have "insert_logbook rl tb u name cs desc dflt uuid now =
      (let l = new_logbook tb u name cs desc dflt uuid now in
       if \<not> logbooks_insert rl l \<or> default_clash tb l \<or> \<not> uuid \<notin> lb_uuid ` set (t_logbooks tb) \<or> \<not> u \<in> us_id ` set (t_users tb) then DbErr
       else Row (l, with_logbook tb l now))"
    unfolding insert_logbook_def Let_def new_logbook_def [symmetric] by (simp add: list_ex_image)
  then show ?thesis by (simp add: Let_def) metis
qed

lemma rank_in_with_logbook: "lb_id l \<noteq> i \<Longrightarrow> rank_in (with_logbook tb l now) i u = rank_in tb i u"
proof -
  assume "lb_id l \<noteq> i"
  then have "find (\<lambda>r. ur_logbook r = i \<and> ur_user r = u) (rs @ [owner_row (lb_id l) w now]) = find (\<lambda>r. ur_logbook r = i \<and> ur_user r = u) rs" for rs w
    by (induction rs) (simp_all add: owner_row_def)
  then show ?thesis by (simp add: rank_in_def with_logbook_def)
qed

lemma is_owner_with_logbook: "is_owner (with_logbook tb l now) i u \<longleftrightarrow> is_owner tb i u \<or> i = lb_id l \<and> u = lb_user l"
  by (auto simp: is_owner_def with_logbook_def owner_row_def)

lemma roles_ok_row: "roles_ok tb \<Longrightarrow> r \<in> set (t_roles tb) \<Longrightarrow> role_check (ur_role r) \<and> ur_logbook r < t_logbook_seq tb"
  by (simp add: roles_ok_def)

lemma is_owner_lt: "roles_ok tb \<Longrightarrow> is_owner tb i u \<Longrightarrow> i < t_logbook_seq tb"
  using roles_ok_row unfolding is_owner_def by blast

lemma logbooks_ok_with_logbook:
  assumes lo: "logbooks_ok tb" and l: "lb_id l = t_logbook_seq tb" "lb_uuid l \<notin> lb_uuid ` set (t_logbooks tb)" "\<not> default_clash tb l"
  shows "logbooks_ok (with_logbook tb l now)"
proof -
  have lt: "lb_id x < t_logbook_seq tb" if "x \<in> set (t_logbooks tb)" for x using lo that by (simp add: logbooks_ok_def)
  then have ids: "t_logbook_seq tb \<notin> lb_id ` set (t_logbooks tb)" "\<forall>x\<in>set (t_logbooks tb). lb_id x < t_logbook_seq tb + 1" by force+
  have "lb_user l \<notin> lb_user ` set (filter live_default (t_logbooks tb))" if "live_default l"
  proof
    assume "lb_user l \<in> lb_user ` set (filter live_default (t_logbooks tb))"
    then obtain x where x: "x \<in> set (t_logbooks tb)" "live_default x" "lb_user x = lb_user l" by auto
    moreover have "lb_id x \<noteq> lb_id l" using lt [OF x(1)] l(1) by simp
    ultimately show False using that l(3) by (auto simp: default_clash_def list_ex_iff)
  qed
  then show ?thesis using lo l(1,2) ids unfolding logbooks_ok_def with_logbook_def by (cases "live_default l") auto
qed

lemma roles_ok_with_logbook:
  assumes ro: "roles_ok tb" and l: "lb_id l = t_logbook_seq tb"
  shows "roles_ok (with_logbook tb l now)"
proof -
  let ?tb = "with_logbook tb l now"
  have "ur_logbook r < t_logbook_seq tb" if "r \<in> set (t_roles tb)" for r using ro that by (simp add: roles_ok_def)
  then have "(lb_id l, lb_user l) \<notin> (\<lambda>r. (ur_logbook r, ur_user r)) ` set (t_roles tb)" using l by force
  then have "distinct (map (\<lambda>r. (ur_logbook r, ur_user r)) (t_roles ?tb))"
    using ro unfolding roles_ok_def with_logbook_def by (simp add: owner_row_def)
  moreover have "\<forall>r\<in>set (t_roles ?tb). role_check (ur_role r) \<and> ur_logbook r < t_logbook_seq ?tb"
    using ro l unfolding roles_ok_def with_logbook_def by (auto simp: owner_row_def role_check_def)
  moreover have "v = w" if "is_owner ?tb j v" "is_owner ?tb j w" for j v w
  proof (cases "j = lb_id l")
    case True
    then have "\<not> is_owner tb j v" "\<not> is_owner tb j w" using is_owner_lt [OF ro] l by auto
    then show ?thesis using that unfolding is_owner_with_logbook by simp
  next
    case False
    then have "is_owner tb j v" "is_owner tb j w" using that unfolding is_owner_with_logbook by auto
    then show ?thesis using ro unfolding roles_ok_def by blast
  qed
  moreover have "\<forall>x\<in>set (t_logbooks ?tb). is_owner ?tb (lb_id x) (lb_user x)"
    using ro unfolding roles_ok_def is_owner_with_logbook by (auto simp: with_logbook_def)
  ultimately show ?thesis unfolding roles_ok_def by blast
qed

lemma keeps_insert_logbook:
  assumes ok: "accounts_ok tb" and ins: "insert_logbook rl tb u name cs desc dflt uuid now = Row (l, tb')"
  shows "keeps_tables tb tb'"
proof -
  have ro: "roles_ok tb" and lo: "logbooks_ok tb" using ok by (simp_all add: accounts_ok_def)
  note i = ins [unfolded insert_logbook_iff [OF ro]]
  then have l: "lb_id l = t_logbook_seq tb" "lb_uuid l = uuid" and tb': "tb' = with_logbook tb l now" by (simp_all add: new_logbook_def)
  have "\<not> default_clash tb l" "lb_uuid l \<notin> lb_uuid ` set (t_logbooks tb)" unfolding l(2) using i by blast+
  then have "logbooks_ok tb'" unfolding tb' using l(1) by (intro logbooks_ok_with_logbook lo)
  moreover have "roles_ok tb'" unfolding tb' using ro l(1) by (rule roles_ok_with_logbook)
  moreover have "users_ok tb'" "invites_ok tb'" using ok unfolding tb' accounts_ok_def with_logbook_def by simp_all
  ultimately have "accounts_ok tb'" by (simp add: accounts_ok_def)
  moreover have "\<forall>j u. j < t_logbook_seq tb \<longrightarrow> rank_in tb' j u \<le> rank_in tb j u" unfolding tb' using l(1) by (simp add: rank_in_with_logbook)
  ultimately show ?thesis unfolding keeps_tables_def by (simp add: tb' with_logbook_def)
qed

end
