(* ===== verification/Accounts_Step.thy ===== *)
theory Accounts_Step
  imports Accounts_Inv
begin

text \<open>The requests as steps on the tables: every handler keeps the invariant, every logbook and its owner, and raises no role.\<close>

section \<open>Roles\<close>

lemma role_row_unique:
  assumes "roles_ok tb" "r \<in> set (t_roles tb)" "r' \<in> set (t_roles tb)" "ur_logbook r = ur_logbook r'" "ur_user r = ur_user r'"
  shows "r = r'"
  using assms by (auto simp: roles_ok_def distinct_map inj_on_def)

lemma logbook_row_unique: "logbooks_ok tb \<Longrightarrow> l \<in> set (t_logbooks tb) \<Longrightarrow> l' \<in> set (t_logbooks tb) \<Longrightarrow> lb_uuid l = lb_uuid l' \<Longrightarrow> l = l'"
  by (auto simp: logbooks_ok_def distinct_map inj_on_def)

lemma user_row_unique: "users_ok tb \<Longrightarrow> u \<in> set (t_users tb) \<Longrightarrow> u' \<in> set (t_users tb) \<Longrightarrow> us_uuid u = us_uuid u' \<Longrightarrow> u = u'"
  by (auto simp: users_ok_def distinct_map inj_on_def)

lemma rank_in_le:
  assumes ro: "roles_ok tb"
    and le: "\<And>r'. r' \<in> set (t_roles tb') \<Longrightarrow> \<exists>r\<in>set (t_roles tb). ur_logbook r = ur_logbook r' \<and> ur_user r = ur_user r' \<and> role_rank (ur_role r') \<le> role_rank (ur_role r)"
  shows "rank_in tb' l u \<le> rank_in tb l u"
proof (cases "find (\<lambda>r. ur_logbook r = l \<and> ur_user r = u) (t_roles tb')")
  case None
  have "0 \<le> rank_in tb l u"
  proof (cases "find (\<lambda>r. ur_logbook r = l \<and> ur_user r = u) (t_roles tb)")
    case (Some r)
    then have "r \<in> set (t_roles tb)" by (auto simp: find_Some_iff)
    then have "1 \<le> role_rank (ur_role r)" using ro role_rank_bounds roles_ok_row by blast
    then show ?thesis using Some by (simp add: rank_in_def)
  qed (simp add: rank_in_def)
  then show ?thesis using None by (simp add: rank_in_def)
next
  case (Some r')
  then have r': "r' \<in> set (t_roles tb')" "ur_logbook r' = l" "ur_user r' = u" by (auto simp: find_Some_iff)
  obtain r where r: "r \<in> set (t_roles tb)" "ur_logbook r = l" "ur_user r = u" "role_rank (ur_role r') \<le> role_rank (ur_role r)"
    using le [OF r'(1)] r'(2,3) by auto
  then show ?thesis using rank_in_row [OF ro r(1)] Some by (simp add: rank_in_def)
qed

text \<open>A change of the roles that keeps the owners and raises no role.\<close>

lemma keeps_roles:
  assumes ok: "accounts_ok tb"
    and dist: "distinct (map (\<lambda>r. (ur_logbook r, ur_user r)) rs)"
    and checks: "\<And>r. r \<in> set rs \<Longrightarrow> role_check (ur_role r)"
    and owner: "\<And>r. r \<in> set (t_roles tb) \<Longrightarrow> ur_role r = RoleOwner \<Longrightarrow> r \<in> set rs"
    and le: "\<And>r'. r' \<in> set rs \<Longrightarrow> \<exists>r\<in>set (t_roles tb). ur_logbook r = ur_logbook r' \<and> ur_user r = ur_user r' \<and> role_rank (ur_role r') \<le> role_rank (ur_role r)"
  shows "keeps_tables tb (tb\<lparr>t_roles := rs\<rparr>)"
proof -
  have ro: "roles_ok tb" using ok by (simp add: accounts_ok_def)
  have own: "is_owner (tb\<lparr>t_roles := rs\<rparr>) l u \<longleftrightarrow> is_owner tb l u" for l u
  proof
    assume "is_owner (tb\<lparr>t_roles := rs\<rparr>) l u"
    then obtain r' where r': "r' \<in> set rs" "ur_logbook r' = l" "ur_user r' = u" "ur_role r' = RoleOwner" unfolding is_owner_def by auto
    obtain r where r: "r \<in> set (t_roles tb)" "ur_logbook r = l" "ur_user r = u" "5 \<le> role_rank (ur_role r)"
      using le [OF r'(1)] r' by auto
    then have "ur_role r = RoleOwner" using role_rank_bounds [of "ur_role r"] roles_ok_row [OF ro r(1)] by auto
    then show "is_owner tb l u" using r unfolding is_owner_def by blast
  next
    assume "is_owner tb l u"
    then show "is_owner (tb\<lparr>t_roles := rs\<rparr>) l u" using owner unfolding is_owner_def by auto
  qed
  have "ur_logbook r < t_logbook_seq tb" if "r \<in> set rs" for r using le [OF that] roles_ok_row [OF ro] by metis
  then have "roles_ok (tb\<lparr>t_roles := rs\<rparr>)"
    using ro dist checks unfolding roles_ok_def own by simp
  moreover have "rank_in (tb\<lparr>t_roles := rs\<rparr>) l u \<le> rank_in tb l u" for l u using le by (intro rank_in_le [OF ro]) simp
  ultimately show ?thesis using ok by (simp add: keeps_tables_def accounts_ok_def)
qed

lemma keeps_roles_update:
  assumes ok: "accounts_ok tb" and role: "role_check role" "role \<noteq> RoleOwner"
    and low: "\<And>r. r \<in> set (t_roles tb) \<Longrightarrow> P r \<Longrightarrow> ur_role r \<noteq> RoleOwner \<and> role_rank role \<le> role_rank (ur_role r)"
  shows "keeps_tables tb (tb\<lparr>t_roles := update_rows P (\<lambda>r. r\<lparr>ur_role := role, ur_invited_by := i, ur_updated := now\<rparr>) (t_roles tb)\<rparr>)"
proof (rule keeps_roles [OF ok])
  have ro: "roles_ok tb" using ok by (simp add: accounts_ok_def)
  show "distinct (map (\<lambda>r. (ur_logbook r, ur_user r)) (update_rows P (\<lambda>r. r\<lparr>ur_role := role, ur_invited_by := i, ur_updated := now\<rparr>) (t_roles tb)))"
    using ro by (subst map_update_rows) (simp_all add: roles_ok_def)
qed (use low role roles_ok_row ok in \<open>force simp: set_update_rows accounts_ok_def\<close>)+

lemma keeps_roles_filter:
  assumes ok: "accounts_ok tb" and low: "\<And>r. r \<in> set (t_roles tb) \<Longrightarrow> P r \<Longrightarrow> ur_role r \<noteq> RoleOwner"
  shows "keeps_tables tb (tb\<lparr>t_roles := filter (\<lambda>r. \<not> P r) (t_roles tb)\<rparr>)"
proof (rule keeps_roles [OF ok])
  show "distinct (map (\<lambda>r. (ur_logbook r, ur_user r)) (filter (\<lambda>r. \<not> P r) (t_roles tb)))"
    using ok by (simp add: accounts_ok_def roles_ok_def distinct_map_filter)
qed (use low roles_ok_row ok in \<open>force simp: accounts_ok_def\<close>)+


section \<open>Members\<close>

lemma users_policy_Api [simp]: "users_policy (Api (Some me)) u \<longleftrightarrow> us_id u = me"
  by (auto simp: users_policy_def)

lemma parseMemberRole_not_owner: "parseMemberRole raw False = Inr role \<Longrightarrow> role \<noteq> RoleOwner"
  by (auto simp: parseMemberRole_def split: prod.splits if_splits)

lemma visible_user: "first_row (filter P (visible_users rl tb)) = Row t \<Longrightarrow> t \<in> set (t_users tb) \<and> users_policy rl t \<and> us_deleted t = None \<and> P t"
  by (drule first_row_Row) (auto simp: visible_users_def)

lemma resolveMemberTargetUser_Inr:
  assumes "resolveMemberTargetUser e rl tb email cs = Inr t"
  shows "t \<in> set (t_users tb)" "users_policy rl t" "us_deleted t = None"
proof -
  have "\<exists>P. first_row (filter P (visible_users rl tb)) = Row t"
    using assms unfolding resolveMemberTargetUser_def Let_def GetUserByEmail_def GetUserByCallsign_def
    by (auto simp: exec_cases split: option.splits result.splits)
  then show "t \<in> set (t_users tb)" "users_policy rl t" "us_deleted t = None" using visible_user by blast+
qed

lemma member_row_unique:
  assumes ok: "accounts_ok tb" and m: "(r, u) \<in> set (member_rows rl tb lu)" "(r', u') \<in> set (member_rows rl tb lu)" "ur_user r = ur_user r'"
  shows "r = r'"
proof -
  obtain l l' where l: "l \<in> set (t_logbooks tb)" "lb_id l = ur_logbook r" "lb_uuid l = lu" "l' \<in> set (t_logbooks tb)" "lb_id l' = ur_logbook r'" "lb_uuid l' = lu"
    using m unfolding member_rows_iff by blast
  have oks: "logbooks_ok tb" "roles_ok tb" using ok by (simp_all add: accounts_ok_def)
  have "l = l'" using logbook_row_unique [OF oks(1) l(1,4)] l(3,6) by simp
  moreover have "r \<in> set (t_roles tb)" "r' \<in> set (t_roles tb)" using m(1,2) unfolding member_rows_iff by blast+
  ultimately show ?thesis using l(2,5) m(3) by (intro role_row_unique [OF oks(2)]) simp_all
qed

lemma GetLogbookMember_NoRows:
  assumes "GetLogbookMemberByUserUUID rl tb lu uu = NoRows" "us_uuid u = uu" "us_deleted u = None"
  shows "(r, u) \<notin> set (member_rows rl tb lu)"
  using assms by (auto simp: GetLogbookMemberByUserUUID_def first_row_NoRows filter_empty_conv)

text \<open>The rows that a statement on one member changes belong to the caller, who is at least an administrator, and none is that of the owner.\<close>

lemma member_target_own:
  assumes ok: "accounts_ok tb" and g: "GetLogbookMemberByUserUUID (Api (Some me)) tb lu uu = Row (r, u)"
    and r': "r' \<in> set (t_roles tb)" "member_target (Api (Some me)) tb lu uu r'"
  shows "r' = r" "4 \<le> role_rank (ur_role r)"
proof -
  note m = GetLogbookMember_Row [OF g]
  have ro: "roles_ok tb" using ok by (simp add: accounts_ok_def)
  obtain l u' where l: "l \<in> set (t_logbooks tb)" "logbooks_select (Api (Some me)) tb l" "lb_id l = ur_logbook r'" "lb_uuid l = lu" "lb_deleted l = None"
      and u': "u' \<in> set (t_users tb)" "us_id u' = me" "us_id u' = ur_user r'"
    using r'(2) unfolding member_target_def list_ex_iff users_policy_Api by blast
  have w: "user_roles_write (Api (Some me)) tb r'" "user_roles_select (Api (Some me)) tb r'" using r'(2) unfolding member_target_def by blast+
  have "(r', u') \<in> set (member_rows (Api (Some me)) tb lu)" unfolding member_rows_iff using r'(1) l u' w by auto
  moreover have "ur_user r = me" using m(1) unfolding member_rows_iff by auto
  moreover have "ur_user r' = me" using u'(2,3) by simp
  ultimately show eq: "r' = r" using member_row_unique [OF ok _ m(1)] by simp
  have "4 \<le> rank_in tb (ur_logbook r') me" using w(1) unfolding user_roles_write_def dbrole.case min_role_rank [OF ro] by simp
  also have "me = ur_user r'" using u' by simp
  finally show "4 \<le> role_rank (ur_role r)" unfolding eq [symmetric] rank_in_row [OF ro r'(1)] .
qed

lemma role_rank_below_owner: "role_check r \<Longrightarrow> r \<noteq> RoleOwner \<Longrightarrow> role_rank r \<le> 4"
  using role_rank_bounds [of r] by force

lemma keeps_UpdateMember:
  assumes ok: "accounts_ok tb" and g: "GetLogbookMemberByUserUUID (Api (Some me)) tb lu uu = Row (r, u)" "ur_role r \<noteq> RoleOwner"
    and upd: "UpdateLogbookMemberRoleByUserUUID (Api (Some me)) tb lu uu role i now = Row tb'" "role \<noteq> RoleOwner"
  shows "keeps_tables tb tb'"
proof -
  have role: "role_check role" and tb': "tb' = tb\<lparr>t_roles := update_rows (member_target (Api (Some me)) tb lu uu) (\<lambda>r. r\<lparr>ur_role := role, ur_invited_by := i, ur_updated := now\<rparr>) (t_roles tb)\<rparr>"
    using upd(1) by (auto simp: UpdateLogbookMemberRoleByUserUUID_def Let_def split: if_splits)
  show ?thesis unfolding tb'
  proof (rule keeps_roles_update [OF ok role upd(2)])
    fix r' assume r': "r' \<in> set (t_roles tb)" "member_target (Api (Some me)) tb lu uu r'"
    show "ur_role r' \<noteq> RoleOwner \<and> role_rank role \<le> role_rank (ur_role r')"
      using member_target_own [OF ok g(1) r'] g(2) role_rank_below_owner [OF role upd(2)] by simp
  qed
qed

lemma keeps_DeleteMember:
  assumes ok: "accounts_ok tb" and g: "GetLogbookMemberByUserUUID (Api (Some me)) tb lu uu = Row (r, u)" "ur_role r \<noteq> RoleOwner"
    and del: "DeleteLogbookMemberByUserUUID (Api (Some me)) tb lu uu = Row (n, tb')"
  shows "keeps_tables tb tb'"
proof -
  have tb': "tb' = tb\<lparr>t_roles := filter (\<lambda>r. \<not> member_target (Api (Some me)) tb lu uu r) (t_roles tb)\<rparr>"
    using del by (simp add: DeleteLogbookMemberByUserUUID_def Let_def)
  show ?thesis unfolding tb' using member_target_own(1) [OF ok g(1)] g(2) by (intro keeps_roles_filter [OF ok]) blast
qed

lemma keeps_UpsertMember:
  assumes ok: "accounts_ok tb" and t: "t \<in> set (t_users tb)" "us_id t = me" "us_deleted t = None"
    and g: "GetLogbookMemberByUserUUID (Api (Some me)) tb lu (us_uuid t) = Row (r, u) \<and> ur_role r \<noteq> RoleOwner
            \<or> GetLogbookMemberByUserUUID (Api (Some me)) tb lu (us_uuid t) = NoRows"
    and up: "UpsertLogbookMemberRole (Api (Some me)) tb lu (us_id t) role i now = Row tb'" "role \<noteq> RoleOwner"
  shows "keeps_tables tb tb'"
proof -
  let ?rl = "Api (Some me)"
  have ro: "roles_ok tb" using ok by (simp add: accounts_ok_def)
  let ?same = "\<lambda>l r. ur_logbook r = lb_id l \<and> ur_user r = me"
  obtain l ls where l: "filter (\<lambda>l. logbooks_select ?rl tb l \<and> lb_uuid l = lu \<and> lb_deleted l = None) (t_logbooks tb) = l # ls"
    using up(1) unfolding UpsertLogbookMemberRole_def by (auto split: list.splits)
  then have lin: "l \<in> set (t_logbooks tb)" "logbooks_select ?rl tb l" "lb_uuid l = lu" "lb_deleted l = None" by (auto simp: filter_eq_Cons_iff)
  note up1 = up(1) [unfolded UpsertLogbookMemberRole_def l list.case Let_def t(2)]
  have role: "role_check role" and adm: "4 \<le> rank_in tb (lb_id l) me"
    using up1 up(2) min_role_rank [OF ro] by (auto simp: user_roles_insert_def split: if_splits)
  then obtain old where old: "find (?same l) (t_roles tb) = Some old" by (cases "find (?same l) (t_roles tb)") (auto simp: rank_in_def)
  then have oldin: "old \<in> set (t_roles tb)" "ur_logbook old = lb_id l" "ur_user old = me" by (auto simp: find_Some_iff)
  have tb': "tb' = tb\<lparr>t_roles := update_rows (?same l) (\<lambda>r. r\<lparr>ur_role := role, ur_invited_by := i, ur_updated := now\<rparr>) (t_roles tb)\<rparr>"
    using up1 by (auto simp: old split: if_splits)
  have "user_roles_select ?rl tb old" using adm oldin min_role_rank [OF ro] by (simp add: user_roles_select_def)
  then have old_m: "(old, t) \<in> set (member_rows ?rl tb lu)" unfolding member_rows_iff using oldin lin t by auto
  have "ur_role old \<noteq> RoleOwner"
    using g
  proof
    assume gr: "GetLogbookMemberByUserUUID ?rl tb lu (us_uuid t) = Row (r, u) \<and> ur_role r \<noteq> RoleOwner"
    note m = GetLogbookMember_Row [OF conjunct1 [OF gr]]
    have "ur_user r = ur_user old" using m(1) oldin(3) unfolding member_rows_iff by auto
    then show ?thesis using member_row_unique [OF ok m(1) old_m] gr by simp
  next
    assume "GetLogbookMemberByUserUUID ?rl tb lu (us_uuid t) = NoRows"
    then show ?thesis using GetLogbookMember_NoRows [OF _ refl t(3)] old_m by blast
  qed
  moreover have "4 \<le> role_rank (ur_role old)" using adm rank_in_row [OF ro oldin(1)] oldin by simp
  ultimately show ?thesis unfolding tb'
    using role_rank_below_owner [OF role up(2)] role_row_unique [OF ro oldin(1)] oldin by (intro keeps_roles_update [OF ok role up(2)]) fastforce
qed

end
