(* ===== verification/Accounts_Handlers.thy ===== *)
theory Accounts_Handlers
  imports Accounts_Step
begin

text \<open>Every handler of accounts, logbooks, members and invites keeps the invariant of the tables, and so does every sequence of requests.\<close>

section \<open>The handlers\<close>

lemma snd_commit: "snd (commit e m tb ok) = (if e_commit e then snd ok else tb)"
  by (simp add: commit_def)

lemma keeps_commit: "accounts_ok tb \<Longrightarrow> keeps_tables tb (snd ok) \<Longrightarrow> keeps_tables tb (snd (commit e m tb ok))"
  by (simp add: snd_commit keeps_refl)

lemma keeps_LogbookHandler_Create: "accounts_ok tb \<Longrightarrow> keeps_tables tb (snd (LogbookHandler_Create e ctx body tb))"
  unfolding LogbookHandler_Create_def CreateLogbook_def
  by (auto simp: exec_cases keeps_refl snd_commit split: option.split result.split prod.split
      intro: keeps_tables_trans [OF keeps_unset_defaults keeps_insert_logbook [OF keeps_ok [OF keeps_unset_defaults]]] keeps_insert_logbook)

lemma keeps_LogbookHandler_Update: "accounts_ok tb \<Longrightarrow> keeps_tables tb (snd (LogbookHandler_Update e ctx path body tb))"
  unfolding LogbookHandler_Update_def
  by (auto simp: exec_cases keeps_refl snd_commit split: option.split result.split prod.split
      intro: keeps_tables_trans [OF keeps_unset_defaults keeps_UpdateLogbook [OF keeps_ok [OF keeps_unset_defaults]]] keeps_UpdateLogbook)

lemma LogbookHandler_Delete_same: "snd (LogbookHandler_Delete e ctx path tb) = tb"
  unfolding LogbookHandler_Delete_def by (auto simp: exec_cases DeleteLogbook_Api split: option.split result.split prod.split)

lemma LogbookHandler_reads:
  "snd (LogbookHandler_List e ctx tb) = tb" "snd (LogbookHandler_Get e ctx path tb) = tb" "snd (LogbookHandler_Default e ctx tb) = tb"
  "snd (MemberHandler_List e ctx path tb) = tb" "snd (InviteHandler_List e ctx tb) = tb"
  unfolding LogbookHandler_List_def LogbookHandler_Get_def LogbookHandler_Default_def MemberHandler_List_def InviteHandler_List_def
  by (simp_all add: snd_commit split: option.split result.split)

lemma AuthHandler_reads:
  "snd (AuthHandler_ValidateInvite a e code tb) = tb" "snd (AuthHandler_CallsignAvailability a e ctx query tb) = tb" "snd (AuthHandler_Me a e ctx tb) = tb"
  unfolding AuthHandler_ValidateInvite_def AuthHandler_CallsignAvailability_def AuthHandler_Me_def
  by (simp_all add: Let_def split: option.split result.split bool.split)

lemma keeps_MemberHandler_UpdateRole: "accounts_ok tb \<Longrightarrow> keeps_tables tb (snd (MemberHandler_UpdateRole e ctx path target body tb))"
  unfolding MemberHandler_UpdateRole_def
  by (auto simp: exec_cases keeps_refl snd_commit split: option.split result.split prod.split sum.split
      intro: keeps_UpdateMember dest: parseMemberRole_not_owner)

lemma keeps_MemberHandler_Remove: "accounts_ok tb \<Longrightarrow> keeps_tables tb (snd (MemberHandler_Remove e ctx path target tb))"
  unfolding MemberHandler_Remove_def
  by (auto simp: exec_cases keeps_refl snd_commit split: option.split result.split prod.split intro: keeps_DeleteMember)


lemma keeps_MemberHandler_Invite:
  assumes ok: "accounts_ok tb"
  shows "keeps_tables tb (snd (MemberHandler_Invite e ctx path body tb))"
proof -
  have up: "keeps_tables tb tb1"
    if "parseMemberRole raw False = Inr role" "resolveMemberTargetUser e (Api (Some me)) tb em cs = Inr t"
       "UpsertLogbookMemberRole (Api (Some me)) tb lu (us_id t) role i now = Row tb1"
       "GetLogbookMemberByUserUUID (Api (Some me)) tb lu (us_uuid t) = Row (r, u) \<and> ur_role r \<noteq> RoleOwner
        \<or> GetLogbookMemberByUserUUID (Api (Some me)) tb lu (us_uuid t) = NoRows"
    for raw role me em cs t lu i now tb1 r u
    using that resolveMemberTargetUser_Inr [OF that(2)] parseMemberRole_not_owner by (intro keeps_UpsertMember [OF ok _ _ _ that(4)]) simp_all
  show ?thesis unfolding MemberHandler_Invite_def
    by (auto simp: exec_cases keeps_refl ok snd_commit split: option.split result.split prod.split sum.split
        dest: parseMemberRole_not_owner intro: up)
qed

text \<open>\<open>TransferOwnership\<close> finds the owner as the only member: the target it can see is the caller.\<close>

lemma MemberHandler_TransferOwnership_same:
  assumes ok: "accounts_ok tb"
  shows "snd (MemberHandler_TransferOwnership parse e ctx path body tb) = tb"
proof -
  have own: "ur_role r = RoleOwner"
    if o: "GetLogbookOwner (Api (Some me)) tb lu = Row me" and g: "GetLogbookMemberByUserUUID (Api (Some me)) tb lu uu = Row (r, u)" for me lu uu r u
  proof -
    obtain r' u' where r': "(r', u') \<in> set (member_rows (Api (Some me)) tb lu)" "ur_role r' = RoleOwner"
      using first_row_Row [OF o [unfolded GetLogbookOwner_def]] by auto
    note m = GetLogbookMember_Row(1) [OF g]
    have "ur_user r = ur_user r'" using m r'(1) unfolding member_rows_iff by simp
    then show ?thesis using member_row_unique [OF ok m r'(1)] r'(2) by simp
  qed
  show ?thesis unfolding MemberHandler_TransferOwnership_def
    by (auto simp: exec_cases split: option.split result.split prod.split dest: own)
qed

lemma keeps_create_attempts:
  assumes "\<And>code k tb1. create code = Created k tb1 \<Longrightarrow> keeps_tables tb tb1" "create_attempts n ab good bytes create = Allocated k tb1"
  shows "keeps_tables tb tb1"
  using assms by (induction n ab good bytes create rule: create_attempts.induct) (auto split: option.splits createResult.splits if_splits)

lemma keeps_InviteHandler_Create: "accounts_ok tb \<Longrightarrow> keeps_tables tb (snd (InviteHandler_Create cfg bytes e ctx body tb))"
  unfolding InviteHandler_Create_def
  by (auto simp: exec_cases keeps_refl snd_commit simp del: create_attempts.simps split: option.split result.split prod.split attempts.split
      intro: keeps_create_attempts keeps_CreateInvite)

lemma keeps_InviteHandler_Revoke: "accounts_ok tb \<Longrightarrow> keeps_tables tb (snd (InviteHandler_Revoke e ctx path tb))"
  unfolding InviteHandler_Revoke_def
  by (auto simp: exec_cases keeps_refl snd_commit split: option.split result.split prod.split intro: keeps_RevokeInvite)

lemma keeps_CreateDefaultLogbook: "accounts_ok tb \<Longrightarrow> CreateDefaultLogbookForUser rl tb u uuid now = Row tb' \<Longrightarrow> keeps_tables tb tb'"
  unfolding CreateDefaultLogbookForUser_def by (auto split: result.splits prod.splits intro: keeps_insert_logbook)

lemma keeps_CreateUser: "accounts_ok tb \<Longrightarrow> CreateUser rl tb email hash cs disp tz uuid now = Row (u, tb') \<Longrightarrow> keeps_tables tb tb'"
  unfolding CreateUser_def by (erule keeps_insert_user(1), assumption) simp_all

lemma keeps_CreateZitadelUser: "accounts_ok tb \<Longrightarrow> CreateZitadelUser rl tb email z uuid now = Row (u, tb') \<Longrightarrow> keeps_tables tb tb'"
  unfolding CreateZitadelUser_def by (erule keeps_insert_user(1), assumption) simp_all

text \<open>A new user, an invite used where one is required, and the default logbook.\<close>

lemma keeps_new_user:
  assumes "keeps_tables tb tb1" "(if required then exec e n (ConsumeInviteByCode rl tb1 u code now) else Row tb1) = Row tb2"
    "CreateDefaultLogbookForUser rl' tb2 v uuid now' = Row tb3"
  shows "keeps_tables tb tb3"
proof -
  have k12: "keeps_tables tb1 tb2"
  proof (cases required)
    case True
    have "ConsumeInviteByCode rl tb1 u code now = Row tb2" using assms(2) unfolding exec_cases if_P [OF True] by (rule conjunct2)
    then show ?thesis by (rule keeps_ConsumeInvite [OF keeps_ok [OF assms(1)]])
  next
    case False
    then show ?thesis using assms(2) keeps_refl [OF keeps_ok [OF assms(1)]] by simp
  qed
  then have "keeps_tables tb2 tb3" using assms(3) by (rule keeps_CreateDefaultLogbook [OF keeps_ok])
  with k12 have "keeps_tables tb1 tb3" by (rule keeps_tables_trans)
  with assms(1) show ?thesis by (rule keeps_tables_trans)
qed

lemma register_tx_Inr:
  assumes "register_tx a e email hash cs code req tb = Inr (u, tb')"
  obtains tb1 tb2 where "GetUserByEmail (a_pool_role a) tb email = NoRows"
    "CreateUser (a_pool_role a) tb email (Some hash) cs (rr_DisplayName req) (rr_Timezone req) (e_uuid e) (e_now e) = Row (u, tb1)"
    "(if cf_RequireInviteKey (a_cfg a) then exec e 3 (ConsumeInviteByCode (a_pool_role a) tb1 (us_id u) code (e_now e)) else Row tb1) = Row tb2"
    "CreateDefaultLogbookForUser (a_pool_role a) tb2 (us_id u) (e_uuid e) (e_now e) = Row tb'"
proof -
  let ?get = "GetUserByEmail (a_pool_role a) tb email"
  let ?create = "CreateUser (a_pool_role a) tb email (Some hash) cs (rr_DisplayName req) (rr_Timezone req) (e_uuid e) (e_now e)"
  let ?inv = "\<lambda>u tb1. if cf_RequireInviteKey (a_cfg a) then exec e 3 (ConsumeInviteByCode (a_pool_role a) tb1 (us_id u) code (e_now e)) else Row tb1"
  note tx = assms [unfolded register_tx_def]
  have get: "exec e 1 ?get = NoRows" using tx by (cases "exec e 1 ?get") (simp_all split: if_splits)
  obtain v tb1 where create: "exec e 2 ?create = Row (v, tb1)" using tx get by (cases "exec e 2 ?create") (auto split: if_splits)
  obtain tb2 where inv: "?inv v tb1 = Row tb2" using tx get create by (cases "?inv v tb1") (simp_all split: if_splits)
  obtain tb3 where lb: "exec e 4 (CreateDefaultLogbookForUser (a_pool_role a) tb2 (us_id v) (e_uuid e) (e_now e)) = Row tb3"
    using tx get create inv by (cases "exec e 4 (CreateDefaultLogbookForUser (a_pool_role a) tb2 (us_id v) (e_uuid e) (e_now e))") (simp_all split: if_splits)
  have "v = u" "tb3 = tb'" using tx get create inv lb by (simp_all split: if_splits)
  then show thesis using get create inv lb that unfolding exec_cases by blast
qed

lemma keeps_register_tx: "accounts_ok tb \<Longrightarrow> register_tx a e email hash cs code req tb = Inr (u, tb') \<Longrightarrow> keeps_tables tb tb'"
  by (erule register_tx_Inr) (blast intro: keeps_new_user [OF keeps_CreateUser])

lemma keeps_Register: "accounts_ok tb \<Longrightarrow> keeps_tables tb (snd (AuthHandler_Register a e body tb))"
  unfolding AuthHandler_Register_def Let_def
  by (auto simp: keeps_refl split: option.split bool.split sum.split prod.split intro: keeps_register_tx)

lemma keeps_provision_tx:
  assumes ok: "accounts_ok tb"
  shows "keeps_tables tb (snd (provision_tx a e subject email code tb))"
proof (cases "exec e 0 (GetUserByZitadelID Worker tb subject)")
  case NoRows
  show ?thesis
  proof (cases "exec e 1 (CreateZitadelUser Worker tb email subject (e_uuid e) (e_now e))")
    case (Row x)
    obtain u tb1 where x: "x = (u, tb1)" by (cases x)
    let ?inv = "if cf_RequireInviteKey (a_cfg a) then exec e 2 (ConsumeInviteByCode Worker tb1 (us_id u) code (e_now e)) else Row tb1"
    have k1: "keeps_tables tb tb1" using Row ok keeps_CreateZitadelUser unfolding x exec_cases by blast
    have "keeps_tables tb tb3" if "?inv = Row tb2" "CreateDefaultLogbookForUser Worker tb2 (us_id u) (e_uuid e) (e_now e) = Row tb3" for tb2 tb3
      using that by (rule keeps_new_user [OF k1])
    then show ?thesis unfolding provision_tx_def Let_def NoRows Row x result.case prod.case
      by (cases ?inv) (auto simp: keeps_refl ok snd_commit exec_cases split: result.split)
  qed (simp_all add: provision_tx_def Let_def NoRows keeps_refl ok)
qed (simp_all add: provision_tx_def Let_def keeps_refl ok snd_commit)

lemma keeps_ConsumeInviteHandler: "accounts_ok tb \<Longrightarrow> keeps_tables tb (snd (AuthHandler_ConsumeInvite a e header body tb))"
  unfolding AuthHandler_ConsumeInvite_def Let_def by (simp add: keeps_refl keeps_provision_tx split: option.split prod.split)

lemma keeps_ChangePassword: "accounts_ok tb \<Longrightarrow> keeps_tables tb (snd (AuthHandler_ChangePassword a e ctx body tb))"
  unfolding AuthHandler_ChangePassword_def
  by (auto simp: exec_cases keeps_refl UpdatePasswordHash_def split: option.split result.split prod.split intro!: keeps_users_update)

lemma keeps_UpdateProfile: "accounts_ok tb \<Longrightarrow> keeps_tables tb (snd (AuthHandler_UpdateProfile a e ctx body tb))"
  unfolding AuthHandler_UpdateProfile_def Let_def
  by (auto simp: keeps_refl split: option.split result.split prod.split bool.split intro!: keeps_users_update)

lemma keeps_DeleteMe: "accounts_ok tb \<Longrightarrow> keeps_tables tb (snd (AuthHandler_DeleteMe e ctx tb))"
  unfolding AuthHandler_DeleteMe_def
  by (auto simp: exec_cases keeps_refl SoftDeleteUserByID_def Let_def split: option.split result.split prod.split intro!: keeps_users_update)


section \<open>Sequences of requests\<close>

text \<open>One request to any of the handlers, whatever its parameters and whatever the database and the random generator do.
  The other handlers read only (\<open>LogbookHandler_reads\<close>, \<open>AuthHandler_reads\<close>).\<close>

inductive api_step :: "tables \<Rightarrow> tables \<Rightarrow> bool" where
  logbook_create: "api_step tb (snd (LogbookHandler_Create e ctx body tb))"
| logbook_update: "api_step tb (snd (LogbookHandler_Update e ctx path body tb))"
| logbook_delete: "api_step tb (snd (LogbookHandler_Delete e ctx path tb))"
| member_invite: "api_step tb (snd (MemberHandler_Invite e ctx path minv tb))"
| member_update: "api_step tb (snd (MemberHandler_UpdateRole e ctx path target role tb))"
| member_remove: "api_step tb (snd (MemberHandler_Remove e ctx path target tb))"
| member_transfer: "api_step tb (snd (MemberHandler_TransferOwnership parse e ctx path uuid tb))"
| invite_create: "api_step tb (snd (InviteHandler_Create cfg bytes e ctx limits tb))"
| invite_revoke: "api_step tb (snd (InviteHandler_Revoke e ctx inviteID tb))"
| register: "api_step tb (snd (AuthHandler_Register a e reg tb))"
| consume: "api_step tb (snd (AuthHandler_ConsumeInvite a e header code tb))"
| password: "api_step tb (snd (AuthHandler_ChangePassword a e ctx pw tb))"
| profile: "api_step tb (snd (AuthHandler_UpdateProfile a e ctx prof tb))"
| delete_me: "api_step tb (snd (AuthHandler_DeleteMe e ctx tb))"
| reads: "api_step tb tb"

inductive_cases api_stepE: "api_step tb tb'"

lemma api_step_keeps: "api_step tb tb' \<Longrightarrow> accounts_ok tb \<Longrightarrow> keeps_tables tb tb'"
  by (induction rule: api_step.induct)
    (simp_all only: keeps_LogbookHandler_Create keeps_LogbookHandler_Update LogbookHandler_Delete_same keeps_MemberHandler_Invite keeps_MemberHandler_UpdateRole
      keeps_MemberHandler_Remove MemberHandler_TransferOwnership_same keeps_InviteHandler_Create keeps_InviteHandler_Revoke keeps_Register
      keeps_ConsumeInviteHandler keeps_ChangePassword keeps_UpdateProfile keeps_DeleteMe keeps_refl)

lemma api_steps_keep: "api_step\<^sup>*\<^sup>* tb tb' \<Longrightarrow> accounts_ok tb \<Longrightarrow> keeps_tables tb tb'"
  by (rule kept_tables.closure_rel [OF api_step_keeps])

end
