(* ===== verification/Accounts_Props.thy ===== *)
theory Accounts_Props
  imports Accounts_Handlers
begin

text \<open>
  What the requests on accounts, logbooks and members guarantee.  A small instance of the parameters, \<open>demo_auth\<close> and \<open>demo_db\<close>, is that of the witnesses: a
  server with local accounts and a database that always answers.
\<close>

section \<open>A server for the witnesses\<close>

definition no_tables :: tables where
  "no_tables = \<lparr>t_users = [], t_logbooks = [], t_roles = [], t_invites = [], t_user_seq = 1, t_logbook_seq = 1, t_invite_seq = 1\<rparr>"

definition demo_auth :: authEnv where
  "demo_auth = \<lparr>a_cfg = \<lparr>cf_RequireInviteKey = False, cf_MaxInvitesPerUser = 5, cf_InviteReplenishEnabled = False, cf_InviteReplenishInterval = 0, cf_AdminEmails = []\<rparr>,
     a_local = True, a_zitadel = False, a_pool_role = Worker, a_hash = Some, a_compare = (=), a_token = (\<lambda>_ _. Some ''token''), a_identity = (\<lambda>_. None)\<rparr>"

definition demo_db :: "int \<Rightarrow> int \<Rightarrow> dbEnv" where
  "demo_db now uuid = \<lparr>e_begin = True, e_commit = True, e_ok = (\<lambda>_. True), e_now = now, e_uuid = uuid\<rparr>"

definition demo_request :: registerRequest where
  "demo_request = \<lparr>rr_Email = ''Op@example.org '', rr_Password = ''password'', rr_DisplayName = None, rr_Callsign = None, rr_Timezone = None, rr_InviteCode = None\<rparr>"

definition demo_tables :: tables where
  "demo_tables = snd (AuthHandler_Register demo_auth (demo_db 100 7) (Some demo_request) no_tables)"

lemma no_tables_ok: "accounts_ok no_tables"
  by (simp add: accounts_ok_def users_ok_def logbooks_ok_def roles_ok_def invites_ok_def is_owner_def no_tables_def)

lemma demo_step: "api_step no_tables demo_tables"
  unfolding demo_tables_def by (rule api_step.register)

lemma demo_tables_value:
  "map us_email (t_users demo_tables) = [''op@example.org'']" "map lb_name (t_logbooks demo_tables) = [''My Log'']"
  "map ur_role (t_roles demo_tables) = [RoleOwner]" "map lb_id (t_logbooks demo_tables) = [1]"
  by code_simp+

lemma demo_tables_ok: "accounts_ok demo_tables"
  using api_steps_keep [OF r_into_rtranclp [of api_step, OF demo_step] no_tables_ok] by (rule keeps_ok)


section \<open>The tables\<close>

text \<open>
  C5. The requests to the handlers of logbooks, members, invites and accounts, in any order, with any parameters and whatever statement or commit of the database
  fails, keep the tables consistent: identifiers and the addresses of live accounts are unique, every logbook has exactly one owner in \<open>user_roles\<close>, who is its \<open>user_id\<close>, a
  user has at most one live default logbook, every role is one of the five, and no invite is used more often than it allows.\<close>

theorem accounts_invariant:
  assumes "accounts_ok tb" "api_step\<^sup>*\<^sup>* tb tb'"
  shows "accounts_ok tb'"
  using api_steps_keep [OF assms(2,1)] by (rule keeps_ok)

theorem accounts_invariant_witness: "accounts_ok no_tables \<and> api_step\<^sup>*\<^sup>* no_tables demo_tables \<and> length (t_users demo_tables) = 1 \<and> accounts_ok demo_tables"
  using accounts_invariant [OF no_tables_ok r_into_rtranclp [of api_step, OF demo_step]] no_tables_ok demo_step demo_tables_value(1) by auto

text \<open>
  C10. No sequence of requests gives a user a role in an existing logbook, or a higher one than the user has, deletes the logbook or changes its owner: the policy
  \<open>users_self\<close> hides every other user from the statements that add members and transfer ownership.\<close>

theorem roles_never_raised:
  assumes "accounts_ok tb" "api_step\<^sup>*\<^sup>* tb tb'" "l \<in> set (t_logbooks tb)"
  shows "(\<exists>l'\<in>set (t_logbooks tb'). lb_id l' = lb_id l \<and> lb_uuid l' = lb_uuid l \<and> lb_user l' = lb_user l \<and> lb_deleted l' = lb_deleted l)
    \<and> (\<forall>r'\<in>set (t_roles tb'). ur_logbook r' = lb_id l \<longrightarrow>
         (\<exists>r\<in>set (t_roles tb). ur_logbook r = lb_id l \<and> ur_user r = ur_user r' \<and> role_rank (ur_role r') \<le> role_rank (ur_role r)))"
proof -
  have k: "keeps_tables tb tb'" using api_steps_keep [OF assms(2,1)] .
  then have ro: "roles_ok tb'" and lt: "lb_id l < t_logbook_seq tb"
    using keeps_ok assms(1,3) by (simp_all add: accounts_ok_def logbooks_ok_def)
  have "lb_key l \<in> set (map lb_key (t_logbooks tb'))" using k assms(3) set_mono_prefix unfolding keeps_tables_def by fastforce
  then have "\<exists>l'\<in>set (t_logbooks tb'). lb_key l' = lb_key l" by auto
  moreover have "\<exists>r\<in>set (t_roles tb). ur_logbook r = lb_id l \<and> ur_user r = ur_user r' \<and> role_rank (ur_role r') \<le> role_rank (ur_role r)"
    if r': "r' \<in> set (t_roles tb')" "ur_logbook r' = lb_id l" for r'
  proof -
    have "1 \<le> role_rank (ur_role r')" using role_rank_bounds roles_ok_row [OF ro r'(1)] by blast
    moreover have "rank_in tb' (lb_id l) (ur_user r') \<le> rank_in tb (lb_id l) (ur_user r')" using k lt unfolding keeps_tables_def by blast
    then have le: "role_rank (ur_role r') \<le> rank_in tb (lb_id l) (ur_user r')" using rank_in_row [OF ro r'(1)] r'(2) by simp
    ultimately obtain r where "find (\<lambda>r. ur_logbook r = lb_id l \<and> ur_user r = ur_user r') (t_roles tb) = Some r"
      unfolding rank_in_def by (auto split: option.splits)
    with le show ?thesis unfolding rank_in_def by (auto simp: find_Some_iff)
  qed
  ultimately show ?thesis by (auto simp: lb_key_def)
qed

definition demo_shared :: tables where
  "demo_shared = snd (MemberHandler_Invite (demo_db 200 8) (Some 1) (Some 7) (Some \<lparr>mi_Email = Some ''op@example.org'', mi_Callsign = None, mi_Role = ''viewer''\<rparr>) demo_tables)"

theorem roles_never_raised_witness:
  "\<exists>l\<in>set (t_logbooks demo_tables). accounts_ok demo_tables \<and> api_step\<^sup>*\<^sup>* demo_tables demo_shared
    \<and> (\<exists>l'\<in>set (t_logbooks demo_shared). lb_id l' = lb_id l \<and> lb_user l' = lb_user l)
    \<and> (\<forall>r'\<in>set (t_roles demo_shared). ur_logbook r' = lb_id l \<longrightarrow>
         (\<exists>r\<in>set (t_roles demo_tables). ur_logbook r = lb_id l \<and> ur_user r = ur_user r' \<and> role_rank (ur_role r') \<le> role_rank (ur_role r)))"
proof -
  obtain l where l: "l \<in> set (t_logbooks demo_tables)" using demo_tables_value(2) by fastforce
  have s: "api_step\<^sup>*\<^sup>* demo_tables demo_shared" unfolding demo_shared_def by (rule r_into_rtranclp) (rule api_step.member_invite)
  show ?thesis using roles_never_raised [OF demo_tables_ok s l] l s demo_tables_ok by blast
qed

text \<open>
  C38. \<open>DELETE /v1/logbooks/{uuid}\<close> never deletes a logbook: for one that the caller administers the statement fails, because the row it returns, with \<open>deleted_at\<close> set,
  breaks the policy for reading, and the answer is 500.\<close>

theorem delete_logbook_fails:
  "snd (LogbookHandler_Delete e ctx path tb) = tb
   \<and> (case fst (LogbookHandler_Delete e ctx path tb) of Success _ _ _ \<Rightarrow> False
      | Failure code _ _ \<Rightarrow> \<forall>me lu. requestUserID ctx = Some me \<and> path = Some lu \<and> e_begin e \<and> list_ex (logbook_target (Api (Some me)) tb lu) (t_logbooks tb) \<longrightarrow> code = 500)"
proof -
  have nr: "DeleteLogbook rl tb lu now \<noteq> NoRows" if "list_ex (logbook_target rl tb lu) (t_logbooks tb)" for rl lu now
    using that by (auto simp: DeleteLogbook_def Let_def list_ex_iff filter_empty_conv split: list.split)
  have "fst (LogbookHandler_Delete e ctx path tb) \<noteq> Success c m p" for c m p
    unfolding LogbookHandler_Delete_def by (auto simp: exec_cases DeleteLogbook_Api split: option.split result.split prod.split)
  moreover have "fst (LogbookHandler_Delete e ctx path tb) = Failure 500 ''failed to delete logbook'' ''delete failed''"
    if "requestUserID ctx = Some me" "path = Some lu" "e_begin e" "list_ex (logbook_target (Api (Some me)) tb lu) (t_logbooks tb)" for me lu
    using that(1-3) nr [OF that(4)] unfolding LogbookHandler_Delete_def by (auto simp: exec_cases DeleteLogbook_Api split: result.split prod.split)
  ultimately show ?thesis using LogbookHandler_Delete_same by (auto split: apiResponse.split)
qed

theorem delete_logbook_fails_witness:
  "LogbookHandler_Delete (demo_db 200 8) (Some 1) (Some 7) demo_tables = (Failure 500 ''failed to delete logbook'' ''delete failed'', demo_tables)
   \<and> list_ex (logbook_target (Api (Some 1)) demo_tables 7) (t_logbooks demo_tables)"
proof -
  have "fst (LogbookHandler_Delete (demo_db 200 8) (Some 1) (Some 7) demo_tables) = Failure 500 ''failed to delete logbook'' ''delete failed''" by code_simp
  moreover have "list_ex (logbook_target (Api (Some 1)) demo_tables 7) (t_logbooks demo_tables)" by code_simp
  ultimately show ?thesis
    using delete_logbook_fails [of "demo_db 200 8" "Some 1" "Some 7" demo_tables] by (simp add: prod_eq_iff)
qed

end
