(* ===== verification/Accounts_Register.thy ===== *)
theory Accounts_Register
  imports Accounts_Props
begin

text \<open>What registration does to the tables.\<close>

lemma update_rows_one:
  assumes "distinct (map g xs)" "x \<in> set xs" "P x" "\<And>y. y \<in> set xs \<Longrightarrow> P y \<Longrightarrow> g y = g x"
  shows "\<exists>ys zs. xs = ys @ x # zs \<and> update_rows P f xs = ys @ f x # zs"
proof -
  obtain ys zs where xs: "xs = ys @ x # zs" using assms(2) by (auto simp: in_set_conv_decomp)
  have "\<not> P y" if "y \<in> set ys \<union> set zs" for y
  proof
    assume "P y"
    then have "g y = g x" using assms(4) that unfolding xs by simp
    then have "g x \<in> g ` (set ys \<union> set zs)" using that by (metis image_eqI)
    then show False using assms(1) unfolding xs by auto
  qed
  then have "update_rows P f ys = ys" "update_rows P f zs = zs" unfolding update_rows_def by (auto intro: map_idI)
  then show ?thesis using xs assms(3) by (auto simp: update_rows_def)
qed

lemma ConsumeInvite_Row:
  assumes ok: "invites_ok tb" and c: "ConsumeInviteByCode rl tb u code now = Row tb'"
  shows "\<exists>ks k ks'. t_invites tb = ks @ k # ks' \<and> ik_code k = ToUpper (BTRIM code) \<and> active_invite k now
    \<and> tb' = tb\<lparr>t_invites := ks @ k\<lparr>ik_uses := ik_uses k + 1, ik_used_by := Some u\<rparr> # ks'\<rparr>"
proof -
  obtain k where k: "k \<in> set (t_invites tb)" "consumable rl code now k" using c by (auto simp: ConsumeInviteByCode_def list_ex_iff split: if_splits)
  have "\<exists>ks ks'. t_invites tb = ks @ k # ks' \<and> update_rows (consumable rl code now) (\<lambda>k. k\<lparr>ik_uses := ik_uses k + 1, ik_used_by := Some u\<rparr>) (t_invites tb)
      = ks @ k\<lparr>ik_uses := ik_uses k + 1, ik_used_by := Some u\<rparr> # ks'"
    using ok k by (intro update_rows_one [where g = ik_code]) (auto simp: invites_ok_def consumable_def)
  then show ?thesis using c k by (auto simp: ConsumeInviteByCode_def consumable_def split: if_splits)
qed

definition clean_char :: "char \<Rightarrow> bool" where
  "clean_char c \<longleftrightarrow> \<not> is_space32 c \<and> \<not> is_space c \<and> upper_char c = c \<and> (is_upper c \<and> c \<noteq> CHR ''I'' \<and> c \<noteq> CHR ''O'' \<or> 50 \<le> byte c \<and> byte c \<le> 57)"

lemma alphabet_clean: "list_all clean_char inviteAlphabet"
  by code_simp

lemma dropWhile_none: "list_all (\<lambda>c. \<not> P c) s \<Longrightarrow> dropWhile P s = s"
  by (cases s) simp_all

text \<open>A valid code is as the database keeps_tables it, and as a normalized code is.\<close>

lemma invite_code_clean:
  assumes "isValidInviteCodeFormat code"
  shows "ToUpper (BTRIM code) = code" "normalizeInviteCode code = code" "code_format code"
proof -
  have c: "clean_char c" if "c \<in> set code" for c
    using assms that alphabet_clean by (auto simp: isValidInviteCodeFormat_def list_all_iff)
  then have "map upper_char code = code" by (auto simp: clean_char_def intro: map_idI)
  moreover have "list_all (\<lambda>x. \<not> is_space32 x) code" "list_all (\<lambda>x. \<not> is_space x) code" using c by (auto simp: clean_char_def list_all_iff)
  ultimately show "ToUpper (BTRIM code) = code" "normalizeInviteCode code = code"
    by (simp_all add: ToUpper_def BTRIM_def normalizeInviteCode_def TrimSpace_def TrimLeftFunc_def TrimRightFunc_def dropWhile_none)
  show "code_format code"
    using assms c by (auto simp: code_format_def isValidInviteCodeFormat_def inviteCodeLength_def list_all_iff clean_char_def)
qed

text \<open>The row of one invite has one more use, by the user.\<close>

definition invite_used :: "string \<Rightarrow> int \<Rightarrow> int \<Rightarrow> tables \<Rightarrow> tables \<Rightarrow> bool" where
  "invite_used code u now tb tb' \<longleftrightarrow>
     (\<exists>ks k ks'. t_invites tb = ks @ k # ks' \<and> ik_code k = code \<and> active_invite k now
        \<and> t_invites tb' = ks @ k\<lparr>ik_uses := ik_uses k + 1, ik_used_by := Some u\<rparr> # ks')"

text \<open>What a registration leaves in the tables: a new user with an own default logbook, and the invite used where one is required.\<close>

definition registered :: "authEnv \<Rightarrow> dbEnv \<Rightarrow> registerRequest \<Rightarrow> account \<Rightarrow> tables \<Rightarrow> tables \<Rightarrow> bool" where
  "registered a e req u tb tb' \<longleftrightarrow>
     us_id u = t_user_seq tb \<and> us_email u = ToLower (TrimSpace (rr_Email req)) \<and> us_hash u = a_hash a (rr_Password req) \<and> us_hash u \<noteq> None \<and> us_deleted u = None
     \<and> \<not> email_clash tb (us_email u) \<and> t_users tb' = t_users tb @ [u]
     \<and> t_logbooks tb' = t_logbooks tb @ [new_logbook tb (us_id u) ''My Log'' None None True (e_uuid e) (e_now e)]
     \<and> t_roles tb' = t_roles tb @ [owner_row (t_logbook_seq tb) (us_id u) (e_now e)]
     \<and> (if cf_RequireInviteKey (a_cfg a)
        then invite_used (normalizeInviteCode (case rr_InviteCode req of None \<Rightarrow> [] | Some c \<Rightarrow> c)) (us_id u) (e_now e) tb tb'
        else t_invites tb' = t_invites tb)"

lemma register_tx_registered:
  assumes ok: "accounts_ok tb" and tx: "register_tx a e (ToLower (TrimSpace (rr_Email req))) hash cs code req tb = Inr (u, tb')"
    and hash: "a_hash a (rr_Password req) = Some hash"
    and code: "code = normalizeInviteCode (case rr_InviteCode req of None \<Rightarrow> [] | Some c \<Rightarrow> c)" "invite_error (a_cfg a) code = None"
  shows "registered a e req u tb tb'"
proof -
  from tx obtain tb1 tb2 where cu: "CreateUser (a_pool_role a) tb (ToLower (TrimSpace (rr_Email req))) (Some hash) cs (rr_DisplayName req) (rr_Timezone req) (e_uuid e) (e_now e) = Row (u, tb1)"
    and inv: "(if cf_RequireInviteKey (a_cfg a) then exec e 3 (ConsumeInviteByCode (a_pool_role a) tb1 (us_id u) code (e_now e)) else Row tb1) = Row tb2"
    and lb: "CreateDefaultLogbookForUser (a_pool_role a) tb2 (us_id u) (e_uuid e) (e_now e) = Row tb'"
    by (rule register_tx_Inr)
  have u: "us_id u = t_user_seq tb" "us_email u = ToLower (TrimSpace (rr_Email req))" "us_hash u = Some hash" "us_deleted u = None" "\<not> email_clash tb (us_email u)"
    and tb1: "tb1 = tb\<lparr>t_users := t_users tb @ [u], t_user_seq := t_user_seq tb + 1\<rparr>"
    using cu by (auto simp: CreateUser_def insert_user_def split: if_splits)
  have i1: "invites_ok tb1" using ok unfolding tb1 accounts_ok_def by simp
  have tb2: "\<exists>ks. tb2 = tb1\<lparr>t_invites := ks\<rparr> \<and> (if cf_RequireInviteKey (a_cfg a) then invite_used code (us_id u) (e_now e) tb (tb1\<lparr>t_invites := ks\<rparr>) else ks = t_invites tb)"
  proof (cases "cf_RequireInviteKey (a_cfg a)")
    case True
    then have c: "ConsumeInviteByCode (a_pool_role a) tb1 (us_id u) code (e_now e) = Row tb2" and v: "isValidInviteCodeFormat code"
      using inv code(2) by (auto simp: exec_cases invite_error_def split: if_splits)
    obtain ks k ks' where "t_invites tb1 = ks @ k # ks'" "ik_code k = code" "active_invite k (e_now e)"
        "tb2 = tb1\<lparr>t_invites := ks @ k\<lparr>ik_uses := ik_uses k + 1, ik_used_by := Some (us_id u)\<rparr> # ks'\<rparr>"
      using ConsumeInvite_Row [OF i1 c] invite_code_clean [OF v] by auto
    then show ?thesis using True unfolding invite_used_def tb1 by auto
  next
    case False
    have "tb2 = tb1" using inv False by simp
    also have "\<dots> = tb1\<lparr>t_invites := t_invites tb1\<rparr>" by (cases tb1) simp
    also have "t_invites tb1 = t_invites tb" by (simp add: tb1)
    finally show ?thesis using False by auto
  qed
  then obtain ks where ks: "tb2 = tb1\<lparr>t_invites := ks\<rparr>" "if cf_RequireInviteKey (a_cfg a) then invite_used code (us_id u) (e_now e) tb (tb1\<lparr>t_invites := ks\<rparr>) else ks = t_invites tb"
    by blast
  have ro2: "roles_ok tb2" using ok unfolding ks(1) tb1 accounts_ok_def by simp
  obtain l where ins: "insert_logbook (a_pool_role a) tb2 (us_id u) ''My Log'' None None True (e_uuid e) (e_now e) = Row (l, tb')"
    using lb unfolding CreateDefaultLogbookForUser_def by (auto split: result.splits prod.splits)
  have "tb' = with_logbook tb2 (new_logbook tb2 (us_id u) ''My Log'' None None True (e_uuid e) (e_now e)) (e_now e)"
    using ins unfolding insert_logbook_iff [OF ro2] by blast
  then have tb': "t_users tb' = t_users tb @ [u]" "t_logbooks tb' = t_logbooks tb @ [new_logbook tb (us_id u) ''My Log'' None None True (e_uuid e) (e_now e)]"
    "t_roles tb' = t_roles tb @ [owner_row (t_logbook_seq tb) (us_id u) (e_now e)]" "t_invites tb' = ks"
    unfolding ks(1) tb1 by (simp_all add: with_logbook_def new_logbook_def)
  have "if cf_RequireInviteKey (a_cfg a) then invite_used code (us_id u) (e_now e) tb tb' else t_invites tb' = t_invites tb"
  proof -
    have f: "t_invites (tb1\<lparr>t_invites := ks\<rparr>) = ks" by simp
    show ?thesis using ks(2) unfolding invite_used_def tb'(4) f .
  qed
  then show ?thesis unfolding registered_def code(1) [symmetric] tb'(1-3) using u hash by simp
qed

lemma register_tx_Inl: "register_tx a e email hash cs code req tb = Inl resp \<Longrightarrow> \<exists>c m d. resp = Failure c m d"
  unfolding register_tx_def by (auto split: result.splits prod.splits if_splits)

definition accepted :: "authEnv \<Rightarrow> dbEnv \<Rightarrow> registerRequest \<Rightarrow> tables \<Rightarrow> account \<Rightarrow> tables \<Rightarrow> bool" where
  "accepted a e req tb u tb' \<longleftrightarrow>
     8 \<le> length (rr_Password req) \<and> length (rr_Password req) \<le> 128
     \<and> (\<exists>hash cs code. a_hash a (rr_Password req) = Some hash \<and> code = normalizeInviteCode (case rr_InviteCode req of None \<Rightarrow> [] | Some c \<Rightarrow> c)
          \<and> invite_error (a_cfg a) code = None \<and> register_tx a e (ToLower (TrimSpace (rr_Email req))) hash cs code req tb = Inr (u, tb'))"

abbreviation register_answer :: "authEnv \<Rightarrow> account \<Rightarrow> apiResponse" where
  "register_answer a u \<equiv> (case a_token a (us_id u) (us_email u) of None \<Rightarrow> Failure 500 ''registration failed'' ''failed to issue token''
     | Some token \<Rightarrow> Success 201 ''user registered'' (AuthItem token u (IsAdminEmail (us_email u) (cf_AdminEmails (a_cfg a)))))"

lemma register_rule:
  assumes failed: "\<And>c m d. P (Failure c m d, tb)"
    and acc: "\<And>req u tb'. body = Some req \<Longrightarrow> accepted a e req tb u tb' \<Longrightarrow> P (register_answer a u, tb')"
  shows "P (AuthHandler_Register a e body tb)"
proof (cases body)
  case None
  then show ?thesis by (simp add: AuthHandler_Register_def failed)
next
  case (Some req)
  define code where "code = normalizeInviteCode (case rr_InviteCode req of None \<Rightarrow> [] | Some c \<Rightarrow> c)"
  define email where "email = ToLower (TrimSpace (rr_Email req))"
  define cs where "cs = normalizeUpperOptional (rr_Callsign req)"
  define used where "used = (case cs of None \<Rightarrow> Some False | Some cs \<Rightarrow> callsignInUse a e 0 tb cs 0)"
  have refused: "P (resp, tb)" if "register_tx a e email hash cs code req tb = Inl resp" for hash resp
    using register_tx_Inl [OF that] failed by auto
  have "P (register_answer a u, tb')"
    if "\<not> length (rr_Password req) < 8" "\<not> 128 < length (rr_Password req)" "a_hash a (rr_Password req) = Some hash" "invite_error (a_cfg a) code = None"
      "register_tx a e email hash cs code req tb = Inr (u, tb')" for hash u tb'
    using that by (intro acc [OF Some]) (auto simp: accepted_def code_def email_def)
  note acc' = this [simplified]
  show ?thesis
    unfolding AuthHandler_Register_def Some Let_def option.case code_def [symmetric] email_def [symmetric] cs_def [symmetric] used_def [symmetric]
    by (auto simp: failed refused split: option.split bool.split sum.split prod.split dest: acc')
qed

text \<open>
  C11. A registration is all or nothing.  Either the answer is an error and the tables are as they were, or there is exactly one new user, under the trimmed lower-case
  address that no live account has, with the hash of a password of 8 to 128 bytes, an own default logbook \<open>My Log\<close> and the role of its owner, and one more use of the
  active invite of the request where invites are required; only a token that cannot be issued then makes the answer an error.\<close>

theorem register_outcome:
  assumes "accounts_ok tb" "AuthHandler_Register a e body tb = (resp, tb')"
  shows "(\<exists>c m d. resp = Failure c m d) \<and> tb' = tb
    \<or> (\<exists>req u. body = Some req \<and> 8 \<le> length (rr_Password req) \<and> length (rr_Password req) \<le> 128 \<and> registered a e req u tb tb'
        \<and> resp = (case a_token a (us_id u) (us_email u) of None \<Rightarrow> Failure 500 ''registration failed'' ''failed to issue token''
            | Some token \<Rightarrow> Success 201 ''user registered'' (AuthItem token u (IsAdminEmail (us_email u) (cf_AdminEmails (a_cfg a))))))"
proof -
  have reg: "registered a e req u tb tb''" if "accepted a e req tb u tb''" for req u tb''
    using that register_tx_registered [OF assms(1)] unfolding accepted_def by blast
  let ?P = "\<lambda>(resp, tb'). (\<exists>c m d. resp = Failure c m d) \<and> tb' = tb
    \<or> (\<exists>req u. body = Some req \<and> 8 \<le> length (rr_Password req) \<and> length (rr_Password req) \<le> 128 \<and> registered a e req u tb tb' \<and> resp = register_answer a u)"
  have "?P (AuthHandler_Register a e body tb)"
  proof (rule register_rule)
    fix req u tb' assume r: "body = Some req" "accepted a e req tb u tb'"
    have "8 \<le> length (rr_Password req)" "length (rr_Password req) \<le> 128" using r(2) unfolding accepted_def by blast+
    then show "?P (register_answer a u, tb')" unfolding prod.case using r(1) reg [OF r(2)] by blast
  qed simp
  then show ?thesis unfolding assms(2) prod.case .
qed

theorem register_outcome_witness:
  "\<exists>u. accounts_ok no_tables \<and> registered demo_auth (demo_db 100 7) demo_request u no_tables demo_tables
    \<and> fst (AuthHandler_Register demo_auth (demo_db 100 7) (Some demo_request) no_tables) = Success 201 ''user registered'' (AuthItem ''token'' u False)"
proof -
  let ?r = "AuthHandler_Register demo_auth (demo_db 100 7) (Some demo_request) no_tables"
  have r: "?r = (fst ?r, demo_tables)" unfolding demo_tables_def by simp
  have "length (t_users demo_tables) = 1" "length (t_users no_tables) = 0" using demo_tables_value(1) by (auto simp: no_tables_def)
  then have "demo_tables \<noteq> no_tables" by auto
  then obtain u where u: "registered demo_auth (demo_db 100 7) demo_request u no_tables demo_tables" "fst ?r = register_answer demo_auth u"
    using register_outcome [OF no_tables_ok r] by auto
  then show ?thesis using no_tables_ok by (auto simp: demo_auth_def IsAdminEmail_def Let_def TrimSpace_def TrimLeftFunc_def TrimRightFunc_def)
qed

end
