(* ===== verification/Invite_Props.thy ===== *)
theory Invite_Props
  imports Accounts_Register
begin

text \<open>Invite codes, and the creation of invites.\<close>

section \<open>Codes\<close>

lemma alphabet_length: "length inviteAlphabet = 31"
  by (simp add: inviteAlphabet_def)

lemma generate_code_total: "generate_code n bytes \<noteq> None \<longleftrightarrow> n \<le> length (filter (\<lambda>b. b < 248) bytes)"
  by (induction n bytes rule: generate_code.induct) (auto simp: alphabet_length)

lemma generate_code_valid: "generate_code n bytes = Some (code, rest) \<Longrightarrow> length code = n \<and> set code \<subseteq> set inviteAlphabet"
proof (induction n bytes arbitrary: code rule: generate_code.induct)
  case (3 n b bytes)
  show ?case
  proof (cases "248 \<le> b")
    case True
    then show ?thesis using 3(1,3) by (simp add: alphabet_length)
  next
    case False
    then obtain code' where c: "generate_code n bytes = Some (code', rest)" "code = inviteAlphabet ! (b mod 31) # code'"
      using 3(3) by (auto simp: alphabet_length)
    have "inviteAlphabet ! (b mod 31) \<in> set inviteAlphabet" by (intro nth_mem) (simp add: alphabet_length)
    then show ?thesis using 3(2) [OF _ c(1)] False c(2) by (simp add: alphabet_length)
  qed
qed simp_all

lemma generate_one: "generate_code 1 [b] = (if 248 \<le> b then None else Some ([inviteAlphabet ! (b mod 31)], []))"
  by (simp add: alphabet_length)

lemma residues: "i < 31 \<Longrightarrow> {b. b < 248 \<and> b mod 31 = i} = (\<lambda>k. 31 * k + i) ` {..<8::nat}"
proof (intro set_eqI iffI)
  fix b assume "i < 31" "b \<in> {b. b < 248 \<and> b mod 31 = i}"
  then have "b = 31 * (b div 31) + i" "b div 31 < 8" using div_mult_mod_eq [of b 31] by auto
  then show "b \<in> (\<lambda>k. 31 * k + i) ` {..<8}" by blast
qed auto

lemma alphabet_uniform:
  assumes "c \<in> set inviteAlphabet"
  shows "length (filter (\<lambda>b. b < 248 \<and> inviteAlphabet ! (b mod 31) = c) [0..<256]) = 8"
proof -
  have d: "distinct inviteAlphabet" by (simp add: inviteAlphabet_def)
  obtain i where i: "i < 31" "inviteAlphabet ! i = c" using assms by (auto simp: in_set_conv_nth alphabet_length)
  then have "inviteAlphabet ! (b mod 31) = c \<longleftrightarrow> b mod 31 = i" for b
    using nth_eq_iff_index_eq [OF d, of "b mod 31" i] by (auto simp: alphabet_length)
  then have "set (filter (\<lambda>b. b < 248 \<and> inviteAlphabet ! (b mod 31) = c) [0..<256]) = (\<lambda>k. 31 * k + i) ` {..<8}"
    using residues [OF i(1)] by auto
  then show ?thesis
    using distinct_card [of "filter (\<lambda>b. b < 248 \<and> inviteAlphabet ! (b mod 31) = c) [0..<256]"] by (simp add: card_image inj_on_def)
qed

lemma invite_codes_valid: "generateInviteCode bytes = Some (code, rest) \<Longrightarrow> isValidInviteCodeFormat code"
  using generate_code_valid [of inviteCodeLength bytes code rest] by (auto simp: isValidInviteCodeFormat_def list_all_iff generateInviteCode_def)

text \<open>
  C30. \<open>generateInviteCode\<close> returns as soon as the random bytes hold eight below 248, and not before; the code has eight characters of the alphabet, is in the format that the
  table requires, and is unchanged by the normalization of codes that users type.  Every character of the alphabet comes from exactly 8 of the 256 values of a byte, so
  that none is more likely than another.\<close>

theorem invite_codes:
  "(generateInviteCode bytes \<noteq> None \<longleftrightarrow> 8 \<le> length (filter (\<lambda>b. b < 248) bytes))
   \<and> (case generateInviteCode bytes of None \<Rightarrow> True
      | Some (code, rest) \<Rightarrow> isValidInviteCodeFormat code \<and> code_format code \<and> normalizeInviteCode code = code)
   \<and> list_all (\<lambda>c. length (filter (\<lambda>b. generate_code 1 [b] = Some ([c], [])) [0..<256]) = 8) inviteAlphabet"
proof -
  have "(generate_code 1 [b] = Some ([c], [])) = (b < 248 \<and> inviteAlphabet ! (b mod 31) = c)" for b c
    unfolding generate_one by auto
  then show ?thesis
    using alphabet_uniform generate_code_total [of 8 bytes] invite_code_clean invite_codes_valid [of bytes]
    by (auto simp: generateInviteCode_def inviteCodeLength_def list_all_iff simp del: generate_code.simps split: option.split)
qed


section \<open>The creation of invites\<close>

lemma create_attempts_Allocated:
  assumes "create_attempts n ab good bytes create = Allocated k tb1"
  shows "\<exists>code rest. generateInviteCode bytes = Some (code, rest) \<and> create code = Created k tb1"
proof -
  have False if "create_attempts n True good bytes create = Allocated k tb1" for n bytes
    using that by (cases n) (auto split: option.splits createResult.splits if_splits)
  then show ?thesis using assms by (cases n) (auto split: option.splits createResult.splits if_splits)
qed

lemma create_attempts_first:
  assumes "good n" "generateInviteCode bytes = Some (code, rest)"
  shows "create_attempts (Suc n) False good bytes create =
    (case create code of Created k tb1 \<Rightarrow> Allocated k tb1 | CodeTaken \<Rightarrow> create_attempts n True good rest create | CreateFailed \<Rightarrow> InsertFailed)"
  using assms by simp

text \<open>After a code that is taken every later attempt fails.\<close>

lemma create_attempts_aborted: "create_attempts (Suc n) True good bytes create = (if generateInviteCode bytes = None then GenerateFailed else InsertFailed)"
  by (auto split: option.split)

lemma CreateInviteKey_Created:
  assumes "CreateInviteKey rl tb code u mu ex now = Created k tb'"
  shows "tb' = tb\<lparr>t_invites := t_invites tb @ [k], t_invite_seq := t_invite_seq tb + 1\<rparr>" "ik_created_by k = u" "ik_uses k = 0" "ik_code k = ToUpper (BTRIM code)"
  using assms by (auto simp: CreateInviteKey_def Let_def split: if_splits)

lemma count_one_more:
  assumes "countInvitesForLimit cfg rl tb u now = Row n"
  shows "\<exists>n'. countInvitesForLimit cfg rl (tb\<lparr>t_invites := t_invites tb @ [k], t_invite_seq := s\<rparr>) u now = Row n' \<and> n' \<le> n + 1"
  using assms by (auto simp: countInvitesForLimit_def CountActiveInvitesByCreator_def Let_def split: if_splits)

lemma InviteHandler_Create_Success:
  assumes "InviteHandler_Create cfg bytes e ctx body tb = (Success c m p, tb')"
  obtains me mu ex n k code rest where "requestUserID ctx = Some me" "countInvitesForLimit cfg (Api (Some me)) tb me (e_now e) = Row n" "n < EffectiveMaxInvitesPerUser cfg"
    "generateInviteCode bytes = Some (code, rest)" "CreateInviteKey (Api (Some me)) tb code me mu ex (e_now e) = Created k tb'" "p = InviteItem k"
proof -
  obtain me where me: "requestUserID ctx = Some me" using assms by (cases "requestUserID ctx") (auto simp: InviteHandler_Create_def)
  obtain mu ex where body: "body = Some (mu, ex)" using assms me by (cases body) (auto simp: InviteHandler_Create_def)
  note r = assms [unfolded InviteHandler_Create_def me body option.case prod.case]
  let ?count = "exec e 0 (countInvitesForLimit cfg (Api (Some me)) tb me (e_now e))"
  let ?att = "create_attempts 8 False (\<lambda>n. e_ok e (8 - n)) bytes (\<lambda>code. CreateInviteKey (Api (Some me)) tb code me mu ex (e_now e))"
  obtain n where n: "?count = Row n" "n < EffectiveMaxInvitesPerUser cfg" using r by (cases ?count) (auto split: if_splits)
  obtain k tb1 where att: "?att = Allocated k tb1" using r n by (cases ?att) (auto split: if_splits simp del: create_attempts.simps)
  have "p = InviteItem k" "tb1 = tb'" using r n att by (auto simp: commit_def split: if_splits simp del: create_attempts.simps)
  then show thesis using that me n create_attempts_Allocated [OF att] unfolding exec_cases by blast
qed

text \<open>
  C0. An invite that is created is the only change of the tables: it belongs to the caller, is unused and has a code that no other invite has, and after it the caller has at most
  \<open>MAX_INVITES_PER_USER\<close> invites that count for the limit.\<close>

theorem invite_limit:
  assumes "accounts_ok tb" "InviteHandler_Create cfg bytes e ctx body tb = (Success c m p, tb')"
  shows "\<exists>me k n. requestUserID ctx = Some me \<and> p = InviteItem k \<and> tb' = tb\<lparr>t_invites := t_invites tb @ [k], t_invite_seq := t_invite_seq tb + 1\<rparr>
    \<and> ik_created_by k = me \<and> ik_uses k = 0 \<and> isValidInviteCodeFormat (ik_code k) \<and> ik_code k \<notin> ik_code ` set (t_invites tb)
    \<and> countInvitesForLimit cfg (Api (Some me)) tb' me (e_now e) = Row n \<and> n \<le> EffectiveMaxInvitesPerUser cfg"
  using assms(2)
proof (rule InviteHandler_Create_Success)
  fix me mu ex n k code rest
  assume me: "requestUserID ctx = Some me" and n: "countInvitesForLimit cfg (Api (Some me)) tb me (e_now e) = Row n" "n < EffectiveMaxInvitesPerUser cfg"
    and code: "generateInviteCode bytes = Some (code, rest)" and k: "CreateInviteKey (Api (Some me)) tb code me mu ex (e_now e) = Created k tb'" and p: "p = InviteItem k"
  note kk = CreateInviteKey_Created [OF k]
  have v: "isValidInviteCodeFormat code" using invite_codes_valid [OF code] .
  then have "ik_code k = code" using kk(4) invite_code_clean(1) by simp
  moreover have "ik_code k \<notin> ik_code ` set (t_invites tb)" using k by (auto simp: CreateInviteKey_def Let_def list_ex_iff split: if_splits)
  moreover obtain n' where "countInvitesForLimit cfg (Api (Some me)) tb' me (e_now e) = Row n'" "n' \<le> n + 1" using count_one_more [OF n(1)] kk(1) by metis
  ultimately show ?thesis using me p kk v n(2) by force
qed

definition demo_bytes :: "nat list" where "demo_bytes = [0, 1, 250, 2, 3, 4, 5, 6, 7]"

definition demo_invite :: "apiResponse \<times> tables" where
  "demo_invite = InviteHandler_Create (a_cfg demo_auth) demo_bytes (demo_db 300 9) (Some 1) (Some (None, None)) demo_tables"

theorem invite_limit_witness:
  "\<exists>k n. accounts_ok demo_tables \<and> demo_invite = (Success 201 ''invite created'' (InviteItem k), demo_tables\<lparr>t_invites := t_invites demo_tables @ [k], t_invite_seq := t_invite_seq demo_tables + 1\<rparr>)
    \<and> ik_created_by k = 1 \<and> isValidInviteCodeFormat (ik_code k)
    \<and> countInvitesForLimit (a_cfg demo_auth) (Api (Some 1)) (snd demo_invite) 1 300 = Row n \<and> n \<le> EffectiveMaxInvitesPerUser (a_cfg demo_auth)"
proof -
  have "case fst demo_invite of Failure _ _ _ \<Rightarrow> False | Success c m _ \<Rightarrow> c = 201 \<and> m = ''invite created''" by code_simp
  then obtain p where d: "demo_invite = (Success 201 ''invite created'' p, snd demo_invite)" by (auto simp: prod_eq_iff split: apiResponse.splits)
  have "requestUserID (Some 1) = Some 1" "e_now (demo_db 300 9) = 300" by code_simp+
  with invite_limit [OF demo_tables_ok d [unfolded demo_invite_def]] d demo_tables_ok show ?thesis unfolding demo_invite_def [symmetric] by auto
qed

text \<open>
  C0. A collision of codes is not retried in effect: the insert that meets an existing code aborts the transaction, so that the next of the eight attempts fails whatever code it
  draws, and the answer is 500 with nothing changed.\<close>

theorem invite_code_taken:
  assumes "requestUserID ctx = Some me" "e_begin e" "e_ok e 0" "e_ok e 1" "countInvitesForLimit cfg (Api (Some me)) tb me (e_now e) = Row n" "n < EffectiveMaxInvitesPerUser cfg"
    and "case mu of None \<Rightarrow> True | Some k \<Rightarrow> 1 \<le> k" "me \<in> us_id ` set (t_users tb)" "generateInviteCode bytes = Some (code, rest)" "code \<in> ik_code ` set (t_invites tb)"
  shows "InviteHandler_Create cfg bytes e ctx (Some (mu, ex)) tb =
    (Failure 500 ''failed to create invite'' (if generateInviteCode rest = None then ''failed to generate invite code'' else ''insert failed''), tb)"
proof -
  have v: "isValidInviteCodeFormat code" using invite_codes_valid [OF assms(9)] .
  have taken: "CreateInviteKey (Api (Some me)) tb code me mu ex (e_now e) = CodeTaken"
    using invite_code_clean(1,3) [OF v] assms(7,8,10)
    by (auto simp: CreateInviteKey_def Let_def list_ex_iff invite_keys_policy_def image_iff split: option.splits)
  have "create_attempts (Suc 7) False (\<lambda>n. e_ok e (8 - n)) bytes (\<lambda>code. CreateInviteKey (Api (Some me)) tb code me mu ex (e_now e))
      = create_attempts (Suc 6) True (\<lambda>n. e_ok e (8 - n)) rest (\<lambda>code. CreateInviteKey (Api (Some me)) tb code me mu ex (e_now e))"
    using assms(4) by (subst create_attempts_first [OF _ assms(9)]) (simp_all only: taken createResult.case diff_Suc_Suc, simp_all)
  also have "\<dots> = (if generateInviteCode rest = None then GenerateFailed else InsertFailed)" by (rule create_attempts_aborted)
  finally have att: "create_attempts 8 False (\<lambda>n. e_ok e (8 - n)) bytes (\<lambda>code. CreateInviteKey (Api (Some me)) tb code me mu ex (e_now e))
      = (if generateInviteCode rest = None then GenerateFailed else InsertFailed)" by simp
  show ?thesis unfolding InviteHandler_Create_def assms(1) option.case prod.case att using assms(2,3,5,6,7) by (auto simp: exec_def split: option.splits)
qed

theorem invite_code_taken_witness:
  "InviteHandler_Create (a_cfg demo_auth) (demo_bytes @ [8, 9, 10, 11, 12, 13, 14, 15]) (demo_db 400 9) (Some 1) (Some (None, None)) (snd demo_invite)
   = (Failure 500 ''failed to create invite'' ''insert failed'', snd demo_invite)"
proof -
  have "generateInviteCode (demo_bytes @ [8, 9, 10, 11, 12, 13, 14, 15]) = Some (''23456789'', [8, 9, 10, 11, 12, 13, 14, 15])"
    "generateInviteCode [8, 9, 10, 11, 12, 13, 14, 15] \<noteq> None" "''23456789'' \<in> ik_code ` set (t_invites (snd demo_invite))"
    "1 \<in> us_id ` set (t_users (snd demo_invite))" "countInvitesForLimit (a_cfg demo_auth) (Api (Some 1)) (snd demo_invite) 1 (e_now (demo_db 400 9)) = Row 1"
    "1 < EffectiveMaxInvitesPerUser (a_cfg demo_auth)" "requestUserID (Some 1) = Some 1" "e_begin (demo_db 400 9)" "e_ok (demo_db 400 9) 0" "e_ok (demo_db 400 9) 1"
    by code_simp+
  then show ?thesis
    using invite_code_taken [of "Some 1" 1 "demo_db 400 9" "a_cfg demo_auth" "snd demo_invite" 1 None "demo_bytes @ [8, 9, 10, 11, 12, 13, 14, 15]" "''23456789''" "[8, 9, 10, 11, 12, 13, 14, 15]" None]
    by simp
qed

end
