(* ===== verification/Login_Props.thy ===== *)
theory Login_Props
  imports Accounts_Props
begin

text \<open>The lockout after failed logins.\<close>

section \<open>Sequences of logins\<close>

text \<open>A whole login, or a tick of the cleanup.\<close>

datatype login_event = Attempt "(string \<times> string) option" dbEnv tables | Tick int

definition event_time :: "login_event \<Rightarrow> int" where
  "event_time ev = (case ev of Attempt _ e _ \<Rightarrow> e_now e | Tick now \<Rightarrow> now)"

definition after_event :: "authEnv \<Rightarrow> login_event \<Rightarrow> tracker \<Rightarrow> tracker" where
  "after_event a ev tr = (case ev of Attempt body e tb \<Rightarrow> snd (AuthHandler_Login a e body tb tr) | Tick now \<Rightarrow> cleanupLoginAttemptTracker now tr)"

abbreviation after_events :: "authEnv \<Rightarrow> login_event list \<Rightarrow> tracker \<Rightarrow> tracker" where
  "after_events a evs tr \<equiv> fold (after_event a) evs tr"

definition bad_credentials :: "authEnv \<Rightarrow> string \<Rightarrow> tracker \<Rightarrow> login_event \<Rightarrow> bool" where
  "bad_credentials a email tr ev =
     (case ev of
        Attempt (Some (em, pw)) e tb \<Rightarrow> ToLower (TrimSpace em) = email \<and> fst (AuthHandler_Login a e (Some (em, pw)) tb tr) = Failure 401 ''login failed'' ''invalid credentials''
      | _ \<Rightarrow> False)"

fun all_bad :: "authEnv \<Rightarrow> string \<Rightarrow> login_event list \<Rightarrow> tracker \<Rightarrow> bool" where
  "all_bad a email [] tr = True"
| "all_bad a email (ev # evs) tr \<longleftrightarrow> bad_credentials a email tr ev \<and> all_bad a email evs (after_event a ev tr)"

definition locked_until :: "string \<Rightarrow> int \<Rightarrow> tracker \<Rightarrow> bool" where
  "locked_until email t tr \<longleftrightarrow> (case tr email of None \<Rightarrow> False | Some s \<Rightarrow> la_lockedUntil s = Some t)"


section \<open>One event\<close>

lemma other_email:
  "snd (loginLockedUntil email now tr) email' = tr email'" if "email' \<noteq> email"
  using that by (auto simp: loginLockedUntil_def split: option.split)

lemma other_email_record: "email' \<noteq> email \<Longrightarrow> recordFailedLoginAttempt email now tr email' = tr email'"
  by (auto simp: recordFailedLoginAttempt_def Let_def)

lemma login_finish_tracker:
  "snd (login_finish a e email pw now tb tr) \<in> {tr, recordFailedLoginAttempt email now tr, resetLoginAttempts email tr}"
  by (auto simp: login_finish_def Let_def split: result.split option.split)

lemma login_start_tracker: "snd (login_start a body now tr) = tr \<or> (\<exists>em pw. body = Some (em, pw) \<and> snd (login_start a body now tr) = snd (loginLockedUntil (ToLower (TrimSpace em)) now tr))"
  by (auto simp: login_start_def Let_def split: option.splits prod.splits)

lemma login_start_Inr: "login_start a body now tr = (Inr (email, pw), tr1) \<Longrightarrow> \<exists>em. body = Some (em, pw) \<and> email = ToLower (TrimSpace em) \<and> loginLockedUntil email now tr = (None, tr1)"
  by (auto simp: login_start_def Let_def split: option.splits prod.splits if_splits)

lemma login_other_email:
  assumes "\<And>em pw. body = Some (em, pw) \<Longrightarrow> ToLower (TrimSpace em) \<noteq> email"
  shows "snd (AuthHandler_Login a e body tb tr) email = tr email"
proof (cases "login_start a body (e_now e) tr")
  case (Pair res tr1)
  have tr1: "tr1 email = tr email" using login_start_tracker [of a body "e_now e" tr] assms other_email Pair by fastforce
  show ?thesis
  proof (cases res)
    case (Inl r)
    then show ?thesis using Pair tr1 by (simp add: AuthHandler_Login_def)
  next
    case (Inr x)
    obtain em pw where x: "x = (em, pw)" by (cases x)
    have "em \<noteq> email" using login_start_Inr [of a body "e_now e" tr em pw tr1] Pair Inr x assms by auto
    then have "snd (login_finish a e em pw (e_now e) tb tr1) email = tr1 email"
      using login_finish_tracker [of a e em pw "e_now e" tb tr1] other_email_record [of email em "e_now e" tr1] by (auto simp: resetLoginAttempts_def)
    then show ?thesis using Pair Inr x tr1 by (simp add: AuthHandler_Login_def)
  qed
qed

text \<open>While it is locked, an email gets 429 and stays locked.\<close>

lemma locked_start:
  assumes "locked_until (ToLower (TrimSpace em)) t tr" "now < t" "a_local a" "TrimSpace em \<noteq> []" "pw \<noteq> []" "length pw \<le> 128"
  shows "\<exists>d. fst (login_start a (Some (em, pw)) now tr) = Inl (Failure 429 ''too many requests'' d)"
  using assms by (auto simp: login_start_def Let_def ToLower_def locked_until_def loginLockedUntil_def locked_at_def split: option.splits)

lemma locked_lookup:
  assumes "locked_until email t tr" "now < t"
  shows "fst (loginLockedUntil email now tr) = Some t" "locked_until email t (snd (loginLockedUntil email now tr))"
  using assms by (auto simp: locked_until_def loginLockedUntil_def locked_at_def split: option.splits)

lemma locked_event:
  assumes l: "locked_until email t tr" and now: "event_time ev < t"
  shows "locked_until email t (after_event a ev tr)"
proof (cases ev)
  case (Tick now')
  then show ?thesis using assms by (auto simp: after_event_def event_time_def locked_until_def cleanupLoginAttemptTracker_def stale_def split: option.splits)
next
  case (Attempt body e tb)
  have now': "e_now e < t" using now Attempt by (simp add: event_time_def)
  show ?thesis
  proof (cases "\<exists>em pw. body = Some (em, pw) \<and> ToLower (TrimSpace em) = email")
    case False
    then have "snd (AuthHandler_Login a e body tb tr) email = tr email" by (intro login_other_email) blast
    then show ?thesis using l Attempt by (simp add: after_event_def locked_until_def)
  next
    case True
    then obtain em pw where b: "body = Some (em, pw)" "ToLower (TrimSpace em) = email" by blast
    obtain res tr1 where s: "login_start a body (e_now e) tr = (res, tr1)" by (cases "login_start a body (e_now e) tr")
    have "\<nexists>x. res = Inr x" using login_start_Inr [of a body "e_now e" tr _ _ tr1] s b locked_lookup(1) [OF l now'] by fastforce
    then obtain r where "res = Inl r" by (cases res) auto
    then have "after_event a ev tr = tr1" using s Attempt by (simp add: after_event_def AuthHandler_Login_def)
    moreover have "tr1 = tr \<or> tr1 = snd (loginLockedUntil email (e_now e) tr)" using login_start_tracker [of a body "e_now e" tr] s b by auto
    ultimately show ?thesis using l locked_lookup(2) [OF l now'] by auto
  qed
qed


lemma locked_events: "locked_until email t tr \<Longrightarrow> \<forall>ev\<in>set evs. event_time ev < t \<Longrightarrow> locked_until email t (after_events a evs tr)"
  by (induction evs arbitrary: tr) (simp_all add: locked_event)

text \<open>A login with bad credentials is counted, and the fifth locks.\<close>

lemma bad_finish: "fst (login_finish a e email pw now tb tr) = Failure 401 ''login failed'' ''invalid credentials'' \<Longrightarrow>
    snd (login_finish a e email pw now tb tr) = recordFailedLoginAttempt email now tr"
  by (auto simp: login_finish_def Let_def split: result.splits option.splits if_splits)

lemma unlocked_lookup: "la_lockedUntil (loginAttemptStateFor email tr) = None \<Longrightarrow> loginLockedUntil email now tr = (None, tr)"
  by (auto simp: loginLockedUntil_def loginAttemptStateFor_def locked_at_def split: option.splits)

lemma bad_event:
  assumes "la_lockedUntil (loginAttemptStateFor email tr) = None" "bad_credentials a email tr ev"
  shows "after_event a ev tr = recordFailedLoginAttempt email (event_time ev) tr"
proof -
  obtain em pw e tb where ev: "ev = Attempt (Some (em, pw)) e tb" "ToLower (TrimSpace em) = email"
      and r: "fst (AuthHandler_Login a e (Some (em, pw)) tb tr) = Failure 401 ''login failed'' ''invalid credentials''"
    using assms(2) by (auto simp: bad_credentials_def split: login_event.splits option.splits)
  obtain res tr1 where s: "login_start a (Some (em, pw)) (e_now e) tr = (res, tr1)" by (cases "login_start a (Some (em, pw)) (e_now e) tr")
  have "res = Inr (email, pw)" "tr1 = tr"
    using s r ev(2) unlocked_lookup [OF assms(1)] by (auto simp: login_start_def AuthHandler_Login_def Let_def split: if_splits)
  then show ?thesis using s r bad_finish by (simp add: ev(1) after_event_def event_time_def AuthHandler_Login_def)
qed

lemma record_state:
  assumes "la_lockedUntil (loginAttemptStateFor email tr) = None"
  shows "loginAttemptStateFor email (recordFailedLoginAttempt email now tr) =
    (let s = loginAttemptStateFor email tr in
     if 5 \<le> la_count s + 1 then s\<lparr>la_count := 0, la_updatedAt := now, la_lockedUntil := Some (now + loginLockoutDuration)\<rparr>
     else s\<lparr>la_count := la_count s + 1, la_updatedAt := now\<rparr>)"
  using assms by (simp add: recordFailedLoginAttempt_def loginAttemptStateFor_def Let_def locked_at_def maxFailedLoginAttempts_def)

lemma bad_events:
  assumes "la_lockedUntil (loginAttemptStateFor email tr) = None" "all_bad a email evs tr" "la_count (loginAttemptStateFor email tr) + int (length evs) < 5"
  shows "la_lockedUntil (loginAttemptStateFor email (after_events a evs tr)) = None
    \<and> la_count (loginAttemptStateFor email (after_events a evs tr)) = la_count (loginAttemptStateFor email tr) + int (length evs)"
  using assms
proof (induction evs arbitrary: tr)
  case (Cons ev evs)
  let ?tr = "recordFailedLoginAttempt email (event_time ev) tr"
  have ev: "after_event a ev tr = ?tr" using Cons.prems by (simp add: bad_event)
  have st: "loginAttemptStateFor email ?tr = (loginAttemptStateFor email tr)\<lparr>la_count := la_count (loginAttemptStateFor email tr) + 1, la_updatedAt := event_time ev\<rparr>"
    using Cons.prems(1,3) by (simp add: record_state Let_def)
  have "la_lockedUntil (loginAttemptStateFor email (after_events a evs ?tr)) = None
    \<and> la_count (loginAttemptStateFor email (after_events a evs ?tr)) = la_count (loginAttemptStateFor email ?tr) + int (length evs)"
    using Cons.prems by (intro Cons.IH) (simp_all add: ev st)
  then show ?case by (simp add: ev st)
qed simp

lemma fifth_failure:
  assumes "tr email = None" "all_bad a email (evs @ [ev]) tr" "length evs = 4"
  shows "locked_until email (event_time ev + loginLockoutDuration) (after_events a (evs @ [ev]) tr)"
proof -
  have app: "all_bad a email (xs @ [ev]) tr \<longleftrightarrow> all_bad a email xs tr \<and> bad_credentials a email (after_events a xs tr) ev" for xs and tr
    by (induction xs arbitrary: tr) simp_all
  let ?tr = "after_events a evs tr"
  have st: "la_lockedUntil (loginAttemptStateFor email ?tr) = None" "la_count (loginAttemptStateFor email ?tr) = 4"
    using bad_events [of email tr a evs] assms by (auto simp: app loginAttemptStateFor_def)
  then have "after_event a ev ?tr = recordFailedLoginAttempt email (event_time ev) ?tr" using assms(2) by (intro bad_event) (simp_all add: app)
  then have "after_events a (evs @ [ev]) tr email = Some ((loginAttemptStateFor email ?tr)\<lparr>la_count := 0, la_updatedAt := event_time ev, la_lockedUntil := Some (event_time ev + loginLockoutDuration)\<rparr>)"
    using st by (simp add: recordFailedLoginAttempt_def Let_def locked_at_def maxFailedLoginAttempts_def)
  then show ?thesis by (simp add: locked_until_def)
qed


section \<open>The lockout\<close>


definition demo_attempt :: "string \<Rightarrow> int \<Rightarrow> login_event" where
  "demo_attempt pw now = Attempt (Some (''op@example.org'', pw)) (demo_db now 0) demo_tables"


end
