(* ===== verification/Spec2Isabelle.thy ===== *)
theory Spec2Isabelle
  imports Adif_Limits Adif_Callsign Adif_Validate Sync_Breaker Sync_Limits Middleware_Guards
    Vault_Adif Award_Refresh Confirmation_Inv Cred_Contract Sync_Confirm Enrich_Job Import_Props
    Export_File Invite_Props Login_Props
begin

text \<open>
  A model of the Go core of RadioLedger, an amateur radio logbook service, and its correctness theorems.

  \<^bold>\<open>The program.\<close>  Users import and export contacts (QSOs) as ADIF files (\<open>pkg/adif\<close>).  The API service
  (\<open>api/internal\<close>) keeps them in PostgreSQL behind a chain of middleware that authenticates a request, checks scopes, roles and
  plans and opens a tenant transaction.  Background jobs match the logs of different users (\<open>services/confirmation\<close>),
  apply confirmations from LoTW and eQSL, recalculate awards (\<open>services/awards\<close>, \<open>jobs/award_refresh_worker.go\<close>), import files
  (\<open>jobs/adif_import.go\<close>), fill gaps of contacts (\<open>services/qsoenrich\<close>), and upload contacts to external services and poll them for confirmations
  (\<open>services/sync\<close>), with credentials that are stored encrypted (\<open>crypto\<close>, \<open>services/sync/credential_store.go\<close>) and under rate limits and
  circuit breakers (\<open>services/sync/infra.go\<close>).  A separate service, the LoTW vault
  (\<open>lotw-vault\<close>), has a strict ADIF parser of its own.

  \<^bold>\<open>Conventions\<close> (theory \<open>Go_Prelude\<close>).  A Go string is the list of its bytes.  Case mapping, trimming and character classes of
  \<open>strings\<close> and \<open>unicode\<close> are modelled on ASCII; encoding repair works on all bytes (\<open>Utf8\<close>).  Machine integers are
  \<open>int\<close>, with the wrap-around written out where a value can overflow (the vault parser).  Errors are values of sum and
  option types.  Database tables are maps or lists of rows, statements are functions on them, and an
  argument (\<open>env\<close>, \<open>ok\<close>) says which statement fails.  Clocks, random numbers and token validation are arguments.  Loops that are not structural
  are total functions with a measure (the bytes left) or, where the source can loop for ever, option-valued partial functions whose value \<^const>\<open>None\<close> is
  not returning, so there is no fuel; \<open>strconv.ParseFloat\<close> is exact decimal-to-binary rounding
  (\<open>Go_Float\<close>), dates and the formats of \<open>time\<close> and \<open>fmt\<close> are \<open>Go_Time\<close>, base64 is \<open>Base64\<close>; \<open>sort.SliceStable\<close> is \<open>Stable_Sort\<close>.

  \<^bold>\<open>ADIF\<close> (\<open>pkg/adif\<close>).
  \<^item> \<open>Adif_Record\<close>: \<open>record.go\<close>; a record is a map on case-insensitive names.
  \<^item> \<open>Adif_Mode\<close>, \<open>Adif_Fields\<close>: \<open>mode.go\<close>, \<open>fields.go\<close>; tables, alias resolution and the normal form of the mode pair.
  \<^item> \<open>Adif_Parser\<close>: \<open>parser.go\<close>; \<open>scanFields\<close> and \<open>Next\<close> step by step over the bytes.
    \<open>Adif_Parser_Inv\<close> shows what every parse delivers on arbitrary input, \<open>Adif_Limits\<close> the limits and the headerless case.
  \<^item> \<open>Adif_Writer\<close>: \<open>writer.go\<close>; \<open>Adif_Roundtrip\<close> shows that parsing inverts writing, and that import, export, import is stable.
  \<^item> \<open>Adif_Callsign\<close>, \<open>Adif_Validate\<close>: \<open>callsign.go\<close>, \<open>validate.go\<close>; exact characterisations of the validators.

  \<^bold>\<open>Access control\<close> (\<open>api/internal/auth\<close>, \<open>middleware\<close>, \<open>pkg/plan\<close>).  \<open>Auth_Rbac\<close> models roles and permissions, \<open>Plan\<close> the tiers,
  \<open>Stream_Token\<close> one-time tokens as a step relation, \<open>Middleware\<close> each middleware as a function from a request to a response or
  a changed request.  \<open>Middleware_Guards\<close> has the locale \<open>guard\<close> of a middleware that only lets requests with a property
  through, and composes the interpretations into the chain of the QSO routes of \<open>router.go\<close>.

  \<^bold>\<open>Sync infrastructure\<close> (\<open>services/sync/infra.go\<close>).  \<open>Sync_Infra\<close> is the model; \<open>Sync_Breaker\<close> has the abstract circuit breaker as a locale
  and the refinement of the database rows to it under interleaved workers; \<open>Sync_Limits\<close> bounds the calls in each second.

  \<^bold>\<open>Credentials\<close>.  \<open>Keyring\<close>: the master keys of \<open>crypto/crypto.go\<close>, with the cipher as a parameter and its documented laws as hypotheses.
  \<open>Cred_Store\<close>: the store and its statements; \<open>Cred_Contract\<close> refines it to a map from user and service to a plaintext, a locale that the store interprets;
  \<open>Cred_Rotation\<close>: the rotation of keys, that it is complete, that it ends, and what a rotation does to the next start of the server.

  \<^bold>\<open>Sync workers\<close> (\<open>services/sync\<close>).  \<open>Sync_Status\<close>: the table \<open>sync_status\<close> and its writers in \<open>orchestrator.go\<close>; \<open>Sync_Format\<close>: the ADIF and CSV that
  uploads send; \<open>Sync_Workers\<close>, \<open>Sync_Jobs\<close>: the upload workers and the jobs around them; \<open>Sync_Upload\<close>: isolation, rate, transitions and progress of uploads, as
  a step relation over all jobs; \<open>Sync_Poll\<close>: the poll workers under the locale \<open>polls\<close>; \<open>Sync_Confirm\<close>: that polls only confirm, and that an uploaded
  contact is found again.

  \<^bold>\<open>Import\<close> (\<open>jobs/adif_import.go\<close>).  \<open>Adif_Import\<close>: the mapping of a record to a row; \<open>Import_Job\<close>: the database, deduplication, insertion, both
  passes over the file, and the job; \<open>Import_Inv\<close>, \<open>Import_Again\<close>: accounting, distinct keys and the second run, by induction on runs that return;
  \<open>Import_Returns\<close>, \<open>Import_Limit\<close>: when the loops return; \<open>Import_Map\<close>: the types of the rows; \<open>Import_Props\<close>: the theorems on the job.
  \<open>Qso_Enrich\<close>: the update statements of \<open>services/qsoenrich\<close> as functions on tables; \<open>Enrich_Job\<close>: the backfill job as one update.

  \<^bold>\<open>Export\<close> (\<open>handler/export.go\<close>).  \<open>Adif_Export\<close>: the filters, the query, the record of a contact and the handler; \<open>Export_Values\<close>: the texts of times, dates,
  frequencies, numbers and references are read back; \<open>Export_Import\<close>: a contact that is exported is mapped back to the same row; \<open>Export_File\<close>: which contacts the
  file holds, in which order, and that it parses to their records.

  \<^bold>\<open>Accounts\<close> (\<open>handler/auth.go\<close>, \<open>logbook.go\<close>, \<open>members.go\<close>, \<open>invites.go\<close>, the queries of \<open>database/sqlc\<close> and the policies and constraints of
  \<open>migrations/001_initial_schema.sql\<close>).  \<open>Accounts\<close>: the tables, the row-level policies and the statements under them; \<open>Logbook_Api\<close>, \<open>Invite_Api\<close>, \<open>Auth_Api\<close>,
  \<open>Login_Api\<close>: the handlers, each a function from the tables to a response and the tables, with every statement and commit that may fail; a request is one
  step, its transaction is not interleaved with others, but the tracker of failed logins has its two halves as separate functions.  \<open>Accounts_Inv\<close> has the
  invariant and the locale \<open>kept_by_steps\<close> of relations that sequences of steps keep, \<open>Accounts_Step\<close> and \<open>Accounts_Handlers\<close> that every handler keeps it;
  \<open>Accounts_Props\<close>: consistency, that no role is ever raised, and the deletion of a logbook; \<open>Accounts_Register\<close>: registration is all or nothing; \<open>Invite_Props\<close>: codes and the limit of invites;
  \<open>Login_Props\<close>: the lockout.

  \<^bold>\<open>Confirmations\<close> (\<open>services/confirmation\<close>, \<open>handler/confirmations.go\<close>, the transactions of the LoTW and eQSL pull workers, and the SQL
  function \<open>find_qso_matches\<close>).  \<open>Confirmation\<close> is the search, \<open>Confirmation_Store\<close> the table and its five writers,
  \<open>Confirmation_Inv\<close> the contract of a row update as the locale \<open>row_update\<close>, its interpretations for the writers, the step
  relation of all writers and its invariant.

  \<^bold>\<open>Awards\<close>.  \<open>Awards\<close> has the award types, milestones, US states and the WPX rule, \<open>Award_Refresh\<close> the refresh job: what a refresh leaves in
  the table, the aggregation by state, and the milestone announcements.

  \<^bold>\<open>LoTW vault\<close>.  \<open>Vault_Adif\<close>: parser and encoder of \<open>lotw-vault/internal/adif\<close>, the round trip, and the panic on an overflowing length.

  \<^bold>\<open>This theory\<close> holds the properties that span components: export keeps a record valid, and the two WPX
  rules of the program compared.

  \<^bold>\<open>Not modelled.\<close>  HTTP clients, most handlers that only read, the handlers of contests, stations, notifications and settings, most generated queries, JWT validation, the cipher itself, configuration,
  metrics, logging, the pollers for spots and propagation, the vault-backed credential store (a stub in the source), the background
  warming of the callsign cache, and the desktop and web clients.  The Windows-1252 decoder of \<open>golang.org/x/text\<close> is an argument of the parser.

  \<^bold>\<open>Order of extension.\<close>  Next come the loops of the confirmation pull workers and the LoTW upload, the scheduler, the signer of the vault, grid squares,
  the statistics and the Cabrillo export.
\<close>

section \<open>Validation and export\<close>

definition field_valid :: "Field \<Rightarrow> bool" where
  "field_valid f \<longleftrightarrow> field_check (ToUpper (f_Name f)) (f_Value f) = None"

lemma ValidateRecord_OK_iff: "ValidationResult_OK (ValidateRecord rec) \<longleftrightarrow> list_all field_valid (r_Fields rec)"
  by (auto simp: ValidationResult_OK_def ValidateRecord_def validate_fields_errors ValidateField_def Let_def
      list_all_iff field_valid_def split: option.splits)

lemma ToUpper_mode_names: "ToUpper ''MODE'' = ''MODE''" "ToUpper ''SUBMODE'' = ''SUBMODE''"
  by code_simp+

lemma mode_field_valid:
  "m \<in> set CanonicalADIFModes \<Longrightarrow> f_Name f = ''MODE'' \<Longrightarrow> f_Value f = m \<Longrightarrow> field_valid f"
  by (simp add: field_valid_def field_check_def ToUpper_mode_names ValidateMode_def ResolveMode_mode)

lemma submode_field_valid: "f_Name f = ''SUBMODE'' \<Longrightarrow> field_valid f"
  by (simp add: field_valid_def field_check_def ToUpper_mode_names)

lemma put_pair_valid:
  assumes r: "list_all field_valid (r_Fields rec)" and m: "m \<in> set CanonicalADIFModes"
  shows "list_all field_valid (r_Fields (rec_store.put_pair rec ''MODE'' m ''SUBMODE'' s))"
proof -
  have 1: "list_all field_valid (r_Fields (Record_Set rec ''MODE'' m))"
    using r m by (simp add: Record_Set_def ToUpper_mode_names set_first_all mode_field_valid)
  then have "list_all field_valid (r_Fields (Record_Set (Record_Set rec ''MODE'' m) ''SUBMODE'' s))"
    by (simp add: Record_Set_def [of "Record_Set rec ''MODE'' m"] ToUpper_mode_names set_first_all submode_field_valid)
  moreover have "list_all field_valid (r_Fields (fst (Record_Delete (Record_Set rec ''MODE'' m) ''SUBMODE'')))"
    using 1 by (simp add: list_all_iff)
  ultimately show ?thesis by (simp add: rec_store.put_pair_def Let_def)
qed

lemma export_fields_valid:
  assumes "list_all field_valid (r_Fields rec)"
  shows "list_all field_valid (export_fields rec)"
proof -
  have "Record_Clone rec = rec" by (simp add: Record_Clone_def)
  then have "set (export_fields rec) = set (r_Fields (fst (CanonicalizeRecordMode rec)))" by (simp add: export_fields_def)
  moreover have "list_all field_valid (r_Fields (fst (CanonicalizeRecordMode rec)))"
    using assms put_pair_valid NormalizeModePair_nf
    by (fastforce simp: CanonicalizeRecordMode_alt split: option.splits)
  ultimately show ?thesis by (simp add: list_all_iff)
qed

text \<open>
  C40. Export keeps a record valid.  A record that \<open>ValidateRecord\<close> accepts is still accepted
  after the mode normalisation and the reordering that the writer applies, so whatever was
  accepted on import is accepted again when the exported file is imported.
\<close>

theorem export_keeps_validity:
  assumes "ValidationResult_OK (ValidateRecord rec)"
  shows "ValidationResult_OK (ValidateRecord \<lparr>r_Fields = export_fields rec\<rparr>)"
  using assms export_fields_valid by (simp add: ValidateRecord_OK_iff)

theorem export_keeps_validity_witness:
  "ValidationResult_OK (ValidateRecord
     \<lparr>r_Fields = export_fields \<lparr>r_Fields = [sample_field ''SUBMODE'' ''USB'', sample_field ''CONT'' ''eu'']\<rparr>\<rparr>)"
  by (rule export_keeps_validity)
     (simp add: ValidateRecord_OK_iff field_valid_def field_check_def sample_field_def Continents_def go_defs eval_char)


section \<open>Two prefix rules\<close>

lemma letter_not_digit: "IsLetter c \<Longrightarrow> \<not> IsDigit c"
  by (auto simp: IsLetter_def IsDigit_def is_lower_def is_upper_def)

lemma WPXPrefix_plain:
  assumes "ToUpper (TrimSpace c) = c" "CHR ''/'' \<notin> set c"
  shows "WPXPrefix c =
    (if list_ex IsDigit c then takeWhile (\<lambda>x. \<not> IsDigit x) c @ take 1 (dropWhile (\<lambda>x. \<not> IsDigit x) c) else c)"
  using assms by (cases c) (simp_all add: WPXPrefix_def cut_def)

lemma first_digit:
  assumes "list_ex IsDigit c"
  obtains m d rest where "c = m @ d # rest" "\<not> list_ex IsDigit m" "IsDigit d"
    "takeWhile (\<lambda>x. \<not> IsDigit x) c @ take 1 (dropWhile (\<lambda>x. \<not> IsDigit x) c) = m @ [d]"
proof -
  obtain m d rest where s: "c = m @ d # rest" "IsDigit d" "\<forall>x \<in> set m. \<not> IsDigit x"
    using assms split_list_first_prop [of c IsDigit] by (auto simp: list_ex_iff)
  then have "takeWhile (\<lambda>x. \<not> IsDigit x) c = m" "dropWhile (\<lambda>x. \<not> IsDigit x) c = d # rest"
    by (simp_all add: takeWhile_append2 dropWhile_append2)
  with s show thesis by (intro that) (auto simp: list_ex_iff)
qed

text \<open>
  The award counter and the callsign parser agree on the WPX prefix of a normalised call without a slash that begins
  with a letter, but not in general: a call that begins with a digit, as \<open>3W3RR\<close>, is counted under the prefix \<open>3\<close>
  by the award refresh, and has the prefix \<open>3W3\<close> in the log.
\<close>

theorem wpx_rules_agree_on_letters:
  assumes "ToUpper (TrimSpace c) = c" "CHR ''/'' \<notin> set c" "c \<noteq> []" "IsLetter (hd c)"
  shows "WPXPrefix c = extractWPXPrefix c \<and> WPXPrefix ''3W3RR'' = ''3'' \<and> extractWPXPrefix ''3W3RR'' = ''3W3''"
proof -
  obtain l s where c: "c = l # s" "IsLetter l" using assms(3,4) by (cases c) auto
  have "WPXPrefix c = extractWPXPrefix c"
  proof (cases "list_ex IsDigit c")
    case True
    then obtain m d rest where m: "c = m @ d # rest" "\<not> list_ex IsDigit m" "IsDigit d" "WPXPrefix c = m @ [d]"
      using WPXPrefix_plain [OF assms(1,2)] by (metis first_digit)
    then obtain m' where "m = l # m'" using c letter_not_digit by (cases m) auto
    with m c extractWPXPrefix_split(2) [of "[]" l m' d rest] show ?thesis by simp
  next
    case False
    with c WPXPrefix_plain [OF assms(1,2)] extractWPXPrefix_split(1) [of "[]" l s] show ?thesis by simp
  qed
  moreover have "WPXPrefix ''3W3RR'' = ''3''" "extractWPXPrefix ''3W3RR'' = ''3W3''" by code_simp+
  ultimately show ?thesis by blast
qed

theorem wpx_rules_agree_on_letters_witness: "WPXPrefix ''DL1ABC'' = ''DL1''"
proof -
  have "ToUpper (TrimSpace ''DL1ABC'') = ''DL1ABC''" "IsLetter (hd ''DL1ABC'')" "extractWPXPrefix ''DL1ABC'' = ''DL1''" by code_simp+
  then show ?thesis using wpx_rules_agree_on_letters [of "''DL1ABC''"] by simp
qed

end
